(* ===== verification/Prelude.thy ===== *)
theory Prelude
  imports Main "HOL-Library.Multiset"
begin

text \<open>
  Shared vocabulary of the development: the exceptions the services throw, the
  error monad in which every operation is written (\<open>Inl\<close> is a thrown exception, \<open>Inr\<close>
  a returned value; a Prisma transaction whose callback throws is rolled back, so a thrown
  exception carries no state), the two fact collections that drive the component proofs,
  and lemmas on \<open>find\<close>, row updates and sums over rows that several components use.
\<close>

section \<open>Fact collections\<close>

named_theorems res_simps \<open>inversion and computation rules for the error monad\<close>
named_theorems frame_simps \<open>tables an operation leaves untouched\<close>

section \<open>Exceptions and the error monad\<close>

datatype error =
    BadRequestException string
  | ConflictException string
  | NotFoundException string
  | ForbiddenException string
  | ServiceUnavailableException string
  | PrismaError string
  | JsError string

type_synonym 'a res = "error + 'a"

definition bind_res :: "'e + 'a \<Rightarrow> ('a \<Rightarrow> 'e + 'b) \<Rightarrow> 'e + 'b" where
  "bind_res m f = (case m of Inl e \<Rightarrow> Inl e | Inr x \<Rightarrow> f x)"

definition require :: "bool \<Rightarrow> 'e \<Rightarrow> 'e + unit" where
  "require b e = (if b then Inr () else Inl e)"

definition from_option :: "'e \<Rightarrow> 'a option \<Rightarrow> 'e + 'a" where
  "from_option e x = (case x of None \<Rightarrow> Inl e | Some y \<Rightarrow> Inr y)"

lemma bind_res_Inl [simp]: "bind_res (Inl e) f = Inl e"
  and bind_res_Inr [simp]: "bind_res (Inr x) f = f x"
  by (simp_all add: bind_res_def)

lemma bind_res_eq_Inr [res_simps]:
  "bind_res m f = Inr y \<longleftrightarrow> (\<exists>x. m = Inr x \<and> f x = Inr y)"
  by (cases m) auto

lemma bind_res_eq_Inl:
  "bind_res m f = Inl e \<longleftrightarrow> m = Inl e \<or> (\<exists>x. m = Inr x \<and> f x = Inl e)"
  by (cases m) auto

lemma require_eq_Inr [res_simps]: "require b e = Inr u \<longleftrightarrow> b"
  and require_eq_Inl [res_simps]: "require b e = Inl e' \<longleftrightarrow> \<not> b \<and> e' = e"
  and require_True [simp]: "require True e = Inr ()"
  and require_False [simp]: "require False e = Inl e"
  by (auto simp: require_def)

lemma from_option_eq_Inr [res_simps]: "from_option e x = Inr y \<longleftrightarrow> x = Some y"
  and from_option_eq_Inl [res_simps]: "from_option e x = Inl e' \<longleftrightarrow> x = None \<and> e' = e"
  and from_option_None [simp]: "from_option e None = Inl e"
  and from_option_Some [simp]: "from_option e (Some y) = Inr y"
  by (auto simp: from_option_def split: option.splits)

lemma if_res_eq_Inr [res_simps]:
  "(if b then Inl e else m) = Inr y \<longleftrightarrow> \<not> b \<and> m = Inr y"
  by auto

text \<open>Whether an operation returned.\<close>

primrec returned :: "'e + 'a \<Rightarrow> bool" where
  "returned (Inl e) = False"
| "returned (Inr x) = True"

lemma returnedD: "returned m \<Longrightarrow> \<exists>x s. m = Inr (x, s)"
  by (cases m) auto

section \<open>Rows found and rows updated\<close>

lemma find_Some_set: "find P xs = Some x \<Longrightarrow> x \<in> set xs \<and> P x"
  by (induction xs) (auto split: if_splits)

lemma find_None_set: "find P xs = None \<longleftrightarrow> (\<forall>x\<in>set xs. \<not> P x)"
  by (induction xs) auto

lemma find_append: "find P (xs @ ys) = (case find P xs of None \<Rightarrow> find P ys | Some x \<Rightarrow> Some x)"
  by (induction xs) auto

lemma find_key_distinct:
  assumes "distinct (map f xs)" "x \<in> set xs"
  shows "find (\<lambda>y. f y = f x) xs = Some x"
  using assms by (induction xs) (auto simp: image_iff)

lemma distinct_key_eq:
  assumes "distinct (map f xs)" "x \<in> set xs" "y \<in> set xs" "f x = f y"
  shows "x = y"
  using assms by (meson distinct_map inj_onD)

text \<open>\<open>UPDATE \<dots> WHERE key = k\<close>: rewrite the rows whose key matches.\<close>

definition update_where :: "('a \<Rightarrow> bool) \<Rightarrow> ('a \<Rightarrow> 'a) \<Rightarrow> 'a list \<Rightarrow> 'a list" where
  "update_where P f xs = map (\<lambda>x. if P x then f x else x) xs"

lemma map_update_where:
  assumes "\<And>x. x \<in> set xs \<Longrightarrow> P x \<Longrightarrow> g (f x) = g x"
  shows "map g (update_where P f xs) = map g xs"
  using assms by (auto simp: update_where_def)

lemma length_update_where [simp]: "length (update_where P f xs) = length xs"
  by (simp add: update_where_def)

lemma set_update_where: "set (update_where P f xs) = (\<lambda>x. if P x then f x else x) ` set xs"
  by (simp add: update_where_def)

lemma update_where_none: "(\<And>x. x \<in> set xs \<Longrightarrow> \<not> P x) \<Longrightarrow> update_where P f xs = xs"
  by (simp add: update_where_def map_idI)

lemma find_update_where_other:
  assumes "\<And>x. x \<in> set xs \<Longrightarrow> P x \<Longrightarrow> \<not> Q x \<and> \<not> Q (f x)"
  shows "find Q (update_where P f xs) = find Q xs"
  using assms by (induction xs) (auto simp: update_where_def)

lemma find_update_where_same:
  assumes "\<And>x. x \<in> set xs \<Longrightarrow> Q x \<Longrightarrow> P x" "\<And>x. x \<in> set xs \<Longrightarrow> P x \<Longrightarrow> Q (f x) = Q x"
  shows "find Q (update_where P f xs) = map_option f (find Q xs)"
  using assms by (induction xs) (auto simp: update_where_def)

text \<open>Rows rewritten one by one, each under a condition that may look at the row as it was read.\<close>

lemma fold_field:
  assumes "\<And>x s. F (step x s) = h x (F s)"
  shows "F (fold step xs s) = fold h xs (F s)"
  by (induction xs arbitrary: s) (simp_all add: assms)

lemma fold_row_maps: "fold (\<lambda>x. map (h x)) xs rows = map (fold h xs) rows"
  by (induction xs arbitrary: rows) (auto simp: comp_def)

lemma fold_row_untouched: "key r \<notin> key ` set xs \<Longrightarrow> fold (\<lambda>x r. if key r = key x \<and> Q x r then g r else r) xs r = r"
  by (induction xs) auto

lemma fold_row_touched:
  assumes "distinct (map key xs)" "r \<in> set xs" "\<And>r. key (g r) = key r"
  shows "fold (\<lambda>x r. if key r = key x \<and> Q x r then g r else r) xs r = (if Q r r then g r else r)"
  using assms(1,2)
proof (induction xs)
  case (Cons x xs)
  show ?case
  proof (cases "x = r")
    case True
    then have "key (if Q r r then g r else r) \<notin> key ` set xs" using Cons.prems(1) assms(3) by (auto simp: image_iff)
    then show ?thesis using True fold_row_untouched [of key "if Q r r then g r else r" xs Q g] by simp
  next
    case False
    then have "r \<in> set xs" "key r \<noteq> key x" using Cons.prems by (auto simp: image_iff)
    then show ?thesis using Cons by auto
  qed
qed simp

lemma fold_rewrite_rows:
  assumes "distinct (map key rows)" "\<And>r. key (g r) = key r"
  shows "fold (\<lambda>x. update_where (\<lambda>r. key r = key x \<and> Q x r) g) (filter P rows) rows = map (\<lambda>r. if P r \<and> Q r r then g r else r) rows"
proof -
  have d: "distinct (map key (filter P rows))" using assms(1) by (induction rows) auto
  have "fold (\<lambda>x r. if key r = key x \<and> Q x r then g r else r) (filter P rows) r = (if P r \<and> Q r r then g r else r)"
    if r: "r \<in> set rows" for r
  proof (cases "P r")
    case True
    then show ?thesis using fold_row_touched [OF d _ assms(2), of r Q] r by simp
  next
    case False
    have "key r \<notin> key ` set (filter P rows)" using assms(1) r False by (auto simp: distinct_map dest: inj_onD)
    then show ?thesis using fold_row_untouched [of key r "filter P rows" Q g] False by simp
  qed
  then show ?thesis by (simp add: update_where_def [abs_def] fold_row_maps)
qed

section \<open>Sums over rows\<close>

abbreviation sum_by :: "('a \<Rightarrow> int) \<Rightarrow> 'a list \<Rightarrow> int" where
  "sum_by f xs \<equiv> sum_list (map f xs)"

lemma sum_by_filter: "sum_by f (filter P xs) = sum_by (\<lambda>x. if P x then f x else 0) xs"
  by (induction xs) auto

lemma sum_by_add: "sum_by (\<lambda>x. f x + g x) xs = sum_by f xs + sum_by g xs"
  by (induction xs) auto

lemma sum_by_diff: "sum_by (\<lambda>x. f x - g x) xs = sum_by f xs - sum_by g xs"
  by (induction xs) auto

lemma sum_by_nonneg: "(\<And>x. x \<in> set xs \<Longrightarrow> 0 \<le> f x) \<Longrightarrow> 0 \<le> sum_by f xs"
  by (induction xs) auto

lemma sum_by_mset: "mset xs = mset ys \<Longrightarrow> sum_by f xs = sum_by f ys"
  by (metis mset_map sum_mset_sum_list)

lemma sum_by_cong: "(\<And>x. x \<in> set xs \<Longrightarrow> f x = g x) \<Longrightarrow> sum_by f xs = sum_by g xs"
  by (metis map_cong)

lemma sum_by_const: "(\<And>x. x \<in> set xs \<Longrightarrow> f x = c) \<Longrightarrow> sum_by f xs = int (length xs) * c"
  by (induction xs) (auto simp: algebra_simps)

lemma sum_by_zero: "(\<And>x. x \<in> set xs \<Longrightarrow> f x = 0) \<Longrightarrow> sum_by f xs = 0"
  by (induction xs) auto

lemma filter_update_where_key:
  assumes "\<And>x. x \<in> set xs \<Longrightarrow> P x \<Longrightarrow> Q (f x) = Q x" "\<And>x. x \<in> set xs \<Longrightarrow> P x \<Longrightarrow> g (f x) = g x"
  shows "map g (filter Q (update_where P f xs)) = map g (filter Q xs)"
  using assms by (induction xs) (auto simp: update_where_def)

text \<open>Rewriting the one row with a given key changes a sum by that row's difference.\<close>

lemma sum_by_update_where_key:
  assumes "distinct (map k xs)" "x \<in> set xs"
  shows "sum_by g (update_where (\<lambda>y. k y = k x) f xs) = sum_by g xs - g x + g (f x)"
  using assms
proof (induction xs)
  case Nil
  then show ?case by simp
next
  case (Cons y ys)
  show ?case
  proof (cases "y = x")
    case True
    with Cons.prems have "\<And>z. z \<in> set ys \<Longrightarrow> k z \<noteq> k x" by (force simp: image_iff)
    then have "update_where (\<lambda>y. k y = k x) f ys = ys" by (rule update_where_none)
    then show ?thesis using True by (simp add: update_where_def)
  next
    case False
    with Cons.prems have x: "x \<in> set ys" and d: "distinct (map k ys)" by auto
    with Cons.prems False have "k y \<noteq> k x" by auto
    then show ?thesis using Cons.IH [OF d x] by (simp add: update_where_def)
  qed
qed

section \<open>Invariants of step relations\<close>

text \<open>
  The obligation of every component with a step relation: each step keeps the invariant.
  Then every run keeps it.
\<close>

locale kept_by_steps =
  fixes step :: "'s \<Rightarrow> 's \<Rightarrow> bool" and inv :: "'s \<Rightarrow> bool"
  assumes step_keeps: "step s t \<Longrightarrow> inv s \<Longrightarrow> inv t"
begin

lemma run_keeps: "step\<^sup>*\<^sup>* s t \<Longrightarrow> inv s \<Longrightarrow> inv t"
  by (induction rule: rtranclp_induct) (auto intro: step_keeps)

end

section \<open>Operations done once per row\<close>

text \<open>
  An operation that records its effect in a row (the id of the journal it posted) and, when
  it finds the record, skips the work: a second call then changes nothing.
\<close>

locale once_per_row =
  fixes op :: "'i \<Rightarrow> 's \<Rightarrow> 'e + 'r \<times> 's" and linked :: "'i \<Rightarrow> 's \<Rightarrow> bool"
  assumes op_links: "op i s = Inr (r, s') \<Longrightarrow> linked i s'"
    and op_skips: "linked i s \<Longrightarrow> op i s = Inr (r, s') \<Longrightarrow> s' = s"
begin

lemma twice: "op i s = Inr (r, s') \<Longrightarrow> op i s' = Inr (r', s'') \<Longrightarrow> s'' = s'"
  by (blast intro: op_links op_skips)

lemma unlinked_before: "op i s = Inr (r, s') \<Longrightarrow> s' \<noteq> s \<Longrightarrow> \<not> linked i s"
  by (blast dest: op_skips)

end

end
