(* ===== verification/JS_Runtime.thy ===== *)
theory JS_Runtime
  imports Prelude "HOL-Library.Code_Target_Nat"
begin

text \<open>
  What the sources use of the JavaScript standard library. Strings are lists of code units
  below 256 (identifiers, codes and descriptions of this program are ASCII); integral
  \<open>Number\<close> values are \<open>int\<close> (the code validates money with \<open>Number.isSafeInteger\<close> before it
  computes with it); a \<open>Date\<close> is its \<open>getTime()\<close> value, milliseconds since the epoch as an
  \<open>int\<close>; plain JSON values are a datatype whose objects list their own keys in order.
\<close>

section \<open>Strings\<close>

definition is_js_space :: "char \<Rightarrow> bool" where
  "is_js_space c = (let n = (of_char c :: nat) in (9 \<le> n \<and> n \<le> 13) \<or> n = 32 \<or> n = 160)"

definition js_trim :: "string \<Rightarrow> string" where
  "js_trim s = rev (dropWhile is_js_space (rev (dropWhile is_js_space s)))"

definition upper_char :: "char \<Rightarrow> char" where
  "upper_char c = (let n = (of_char c :: nat) in if 97 \<le> n \<and> n \<le> 122 then char_of (n - 32) else c)"

definition js_upper :: "string \<Rightarrow> string" where
  "js_upper s = map upper_char s"

text \<open>\<open>s?.trim() || null\<close>: the empty string is falsy.\<close>

definition trim_or_null :: "string option \<Rightarrow> string option" where
  "trim_or_null s = (case s of None \<Rightarrow> None
     | Some t \<Rightarrow> (if js_trim t = [] then None else Some (js_trim t)))"

definition digit_char :: "nat \<Rightarrow> char" where
  "digit_char n = char_of (48 + n)"

fun nat_str :: "nat \<Rightarrow> string" where
  "nat_str n = (if n < 10 then [digit_char n] else nat_str (n div 10) @ [digit_char (n mod 10)])"

declare nat_str.simps [simp del]

definition int_str :: "int \<Rightarrow> string" where
  "int_str i = (if i < 0 then CHR ''-'' # nat_str (nat (- i)) else nat_str (nat i))"

definition pad_start :: "nat \<Rightarrow> char \<Rightarrow> string \<Rightarrow> string" where
  "pad_start n c s = replicate (n - length s) c @ s"

definition MAX_SAFE_INTEGER :: int where
  "MAX_SAFE_INTEGER = 9007199254740991"

definition is_safe_integer :: "int \<Rightarrow> bool" where
  "is_safe_integer n = (- MAX_SAFE_INTEGER \<le> n \<and> n \<le> MAX_SAFE_INTEGER)"

lemma dropWhile_idem: "dropWhile P (dropWhile P xs) = dropWhile P xs"
  by (metis dropWhile_eq_Cons_conv dropWhile_eq_self_iff hd_dropWhile)

lemma dropWhile_hd: "xs = [] \<or> \<not> P (hd xs) \<Longrightarrow> dropWhile P xs = xs"
  by (cases xs) auto

lemma dropWhile_rev_dropWhile:
  "dropWhile P (rev (dropWhile P (rev (dropWhile P xs)))) = rev (dropWhile P (rev (dropWhile P xs)))"
proof (cases "dropWhile P (rev (dropWhile P xs)) = []")
  case True
  then show ?thesis by (metis dropWhile.simps(1) rev.simps(1))
next
  case False
  let ?ys = "dropWhile P xs"
  have ys: "?ys \<noteq> []" using False by (metis dropWhile.simps(1) rev.simps(1))
  obtain ps where ps: "rev ?ys = ps @ dropWhile P (rev ?ys)"
    by (metis takeWhile_dropWhile_id)
  have eq: "?ys = rev (dropWhile P (rev ?ys)) @ rev ps"
    using ps by (metis rev_append rev_rev_ident)
  have "hd (rev (dropWhile P (rev ?ys))) = hd ?ys"
    using False eq by (metis Nil_is_rev_conv hd_append2)
  moreover have "\<not> P (hd ?ys)" using ys by (rule hd_dropWhile)
  ultimately show ?thesis by (intro dropWhile_hd) simp
qed

lemma js_trim_idem [simp]: "js_trim (js_trim s) = js_trim s"
  by (simp add: js_trim_def dropWhile_rev_dropWhile dropWhile_idem)

lemma js_trim_Nil [simp]: "js_trim [] = []"
  by (simp add: js_trim_def)

lemma js_trim_no_space: "(\<And>c. c \<in> set s \<Longrightarrow> \<not> is_js_space c) \<Longrightarrow> js_trim s = s"
  by (metis dropWhile_hd hd_in_set js_trim_def rev_rev_ident set_rev)

lemma js_trim_ends:
  assumes "s \<noteq> []" "\<not> is_js_space (hd s)" "\<not> is_js_space (last s)"
  shows "js_trim s = s"
  using assms by (simp add: js_trim_def dropWhile_hd hd_rev)

lemma nat_str_not_Nil [simp]: "nat_str n \<noteq> []"
  by (subst nat_str.simps) simp

text \<open>Decimal digits determine the number.\<close>

definition str_value :: "string \<Rightarrow> nat" where
  "str_value s = foldl (\<lambda>a c. 10 * a + (of_char c - 48)) 0 s"

lemma of_char_digit: "n < 10 \<Longrightarrow> (of_char (digit_char n) :: nat) = 48 + n"
  by (simp add: digit_char_def)

lemma str_value_nat_str [simp]: "str_value (nat_str n) = n"
proof (induction n rule: nat_str.induct)
  case (1 n)
  show ?case
  proof (cases "n < 10")
    case True
    then show ?thesis by (subst nat_str.simps) (simp add: str_value_def of_char_digit)
  next
    case False
    then have "str_value (nat_str (n div 10)) = n div 10" using 1 by simp
    then have "foldl (\<lambda>a c. 10 * a + (of_char c - 48)) 0 (nat_str (n div 10)) = n div 10"
      by (simp only: str_value_def)
    then show ?thesis using False by (subst nat_str.simps) (simp add: str_value_def of_char_digit)
  qed
qed

lemma nat_str_inj: "inj nat_str"
  by (rule inj_on_inverseI [of _ str_value]) simp

section \<open>Sorting\<close>

text \<open>
  \<open>Array.prototype.sort\<close> with a comparator is stable: an element is placed before the
  elements it does not come after.
\<close>

fun insert_cmp :: "('a \<Rightarrow> 'a \<Rightarrow> int) \<Rightarrow> 'a \<Rightarrow> 'a list \<Rightarrow> 'a list" where
  "insert_cmp cmp x [] = [x]"
| "insert_cmp cmp x (y # ys) = (if cmp x y \<le> 0 then x # y # ys else y # insert_cmp cmp x ys)"

definition js_sort :: "('a \<Rightarrow> 'a \<Rightarrow> int) \<Rightarrow> 'a list \<Rightarrow> 'a list" where
  "js_sort cmp xs = foldr (insert_cmp cmp) xs []"

lemma js_sort_simps [simp]:
  "js_sort cmp [] = []"
  "js_sort cmp (x # xs) = insert_cmp cmp x (js_sort cmp xs)"
  by (simp_all add: js_sort_def)

lemma mset_insert_cmp [simp]: "mset (insert_cmp cmp x xs) = add_mset x (mset xs)"
  by (induction xs) auto

lemma mset_js_sort [simp]: "mset (js_sort cmp xs) = mset xs"
  by (induction xs) auto

lemma set_js_sort [simp]: "set (js_sort cmp xs) = set xs"
  by (metis mset_js_sort set_mset_mset)

lemma length_js_sort [simp]: "length (js_sort cmp xs) = length xs"
  by (metis mset_js_sort size_mset)

lemma distinct_js_sort [simp]: "distinct (map f (js_sort cmp xs)) = distinct (map f xs)"
  by (metis mset_js_sort mset_map mset_eq_imp_distinct_iff)

lemma sum_by_js_sort [simp]: "sum_by f (js_sort cmp xs) = sum_by f xs"
  by (rule sum_by_mset) simp

text \<open>
  A comparator that is a strict total order on a set (zero only on equal elements,
  antisymmetric, transitive): what \<open>String.prototype.localeCompare\<close> provides on the strings
  it tells apart and what the code-unit order of \<open>Array.prototype.sort()\<close> provides on all
  strings. Under it a sort depends on the elements only, not on the order they come in.
\<close>

locale comparator =
  fixes cmp :: "'a \<Rightarrow> 'a \<Rightarrow> int" and A :: "'a set"
  assumes cmp_zero: "x \<in> A \<Longrightarrow> y \<in> A \<Longrightarrow> cmp x y = 0 \<longleftrightarrow> x = y"
    and cmp_anti: "x \<in> A \<Longrightarrow> y \<in> A \<Longrightarrow> cmp x y < 0 \<longleftrightarrow> 0 < cmp y x"
    and cmp_trans: "x \<in> A \<Longrightarrow> y \<in> A \<Longrightarrow> z \<in> A \<Longrightarrow> cmp x y \<le> 0 \<Longrightarrow> cmp y z \<le> 0 \<Longrightarrow> cmp x z \<le> 0"
begin

lemma cmp_total: "x \<in> A \<Longrightarrow> y \<in> A \<Longrightarrow> \<not> cmp x y \<le> 0 \<Longrightarrow> cmp y x \<le> 0"
  using cmp_anti [of y x] by linarith

lemma cmp_le_antisym: "x \<in> A \<Longrightarrow> y \<in> A \<Longrightarrow> cmp x y \<le> 0 \<Longrightarrow> cmp y x \<le> 0 \<Longrightarrow> x = y"
  using cmp_anti [of x y] cmp_zero [of x y] by linarith

lemma insert_commute:
  assumes "x \<in> A" "y \<in> A" "set zs \<subseteq> A"
  shows "insert_cmp cmp x (insert_cmp cmp y zs) = insert_cmp cmp y (insert_cmp cmp x zs)"
  using assms
proof (induction zs)
  case Nil
  then show ?case
    using cmp_total [of x y] cmp_total [of y x] cmp_le_antisym [of x y] by auto
next
  case (Cons z zs)
  then have z: "z \<in> A" by simp
  note t = cmp_total [OF \<open>x \<in> A\<close> \<open>y \<in> A\<close>] cmp_total [OF \<open>y \<in> A\<close> \<open>x \<in> A\<close>]
    cmp_le_antisym [OF \<open>x \<in> A\<close> \<open>y \<in> A\<close>]
    cmp_trans [OF \<open>x \<in> A\<close> \<open>y \<in> A\<close> z] cmp_trans [OF \<open>y \<in> A\<close> \<open>x \<in> A\<close> z]
  show ?case using Cons t by auto
qed

lemma set_insert_cmp: "set (insert_cmp cmp x zs) = insert x (set zs)"
  by (induction zs) auto

lemma sort_insert_perm:
  assumes "set (xs @ x # ys) \<subseteq> A"
  shows "js_sort cmp (xs @ x # ys) = js_sort cmp (x # xs @ ys)"
  using assms by (induction xs) (auto simp: insert_commute)

lemma sort_cong:
  assumes "mset xs = mset ys" "set xs \<subseteq> A"
  shows "js_sort cmp xs = js_sort cmp ys"
  using assms
proof (induction xs arbitrary: ys)
  case Nil
  then show ?case by simp
next
  case (Cons x xs)
  from Cons.prems(1) have "x \<in> set ys" by (metis list.set_intros(1) set_mset_mset)
  then obtain as bs where ys: "ys = as @ x # bs" by (metis split_list)
  have m: "mset xs = mset (as @ bs)" using Cons.prems(1) ys by simp
  have sub: "set ys \<subseteq> A" using Cons.prems by (metis set_mset_mset)
  have "js_sort cmp ys = insert_cmp cmp x (js_sort cmp (as @ bs))"
    using sort_insert_perm [of as x bs] sub ys by simp
  moreover have "js_sort cmp xs = js_sort cmp (as @ bs)"
    using Cons.IH [OF m] Cons.prems(2) by simp
  ultimately show ?case by simp
qed

end

text \<open>Code-unit order, the default order of \<open>Array.prototype.sort()\<close>.\<close>

fun str_cmp :: "string \<Rightarrow> string \<Rightarrow> int" where
  "str_cmp [] [] = 0"
| "str_cmp [] (_ # _) = - 1"
| "str_cmp (_ # _) [] = 1"
| "str_cmp (c # cs) (d # ds) =
     (if c = d then str_cmp cs ds
      else if (of_char c :: nat) < of_char d then - 1 else 1)"

lemma str_cmp_zero: "str_cmp s t = 0 \<longleftrightarrow> s = t"
  by (induction s t rule: str_cmp.induct) auto

lemma of_char_nat_inj: "(of_char c :: nat) = of_char d \<longleftrightarrow> c = d"
  by (simp add: of_char_eq_iff)

lemma str_cmp_neg: "str_cmp t s = - str_cmp s t"
proof (induction s t rule: str_cmp.induct)
  case (4 c cs d ds)
  then show ?case using of_char_nat_inj [of c d] by auto
qed auto

lemma str_cmp_trans: "str_cmp s t \<le> 0 \<Longrightarrow> str_cmp t u \<le> 0 \<Longrightarrow> str_cmp s u \<le> 0"
proof (induction s t arbitrary: u rule: str_cmp.induct)
  case (4 c cs d ds)
  then show ?case by (cases u) (auto split: if_splits)
next
  case (2 d ds)
  then show ?case by (cases u) auto
qed auto

interpretation str_order: comparator str_cmp UNIV
proof
  show "str_cmp x y = 0 \<longleftrightarrow> x = y" for x y by (rule str_cmp_zero)
  show "str_cmp x y < 0 \<longleftrightarrow> 0 < str_cmp y x" for x y using str_cmp_neg [of y x] by linarith
  show "str_cmp x y \<le> 0 \<Longrightarrow> str_cmp y z \<le> 0 \<Longrightarrow> str_cmp x z \<le> 0" for x y z
    by (rule str_cmp_trans)
qed

section \<open>Dates\<close>

definition MS_PER_DAY :: int where
  "MS_PER_DAY = 86400000"

text \<open>Civil date (year, month, day) of a day number of the epoch, proleptic Gregorian.\<close>

definition civil_of_day :: "int \<Rightarrow> int \<times> int \<times> int" where
  "civil_of_day z0 =
     (let z = z0 + 719468; era = z div 146097; doe = z mod 146097;
          yoe = (doe - doe div 1460 + doe div 36524 - doe div 146096) div 365;
          doy = doe - (365 * yoe + yoe div 4 - yoe div 100);
          mp = (5 * doy + 2) div 153;
          d = doy - (153 * mp + 2) div 5 + 1;
          m = (if mp < 10 then mp + 3 else mp - 9)
      in (yoe + era * 400 + (if m \<le> 2 then 1 else 0), m, d))"

definition pad_int :: "nat \<Rightarrow> int \<Rightarrow> string" where
  "pad_int n i = pad_start n CHR ''0'' (int_str i)"

text \<open>\<open>Date.prototype.toISOString\<close>, for the years 0 to 9999.\<close>

definition to_iso_string :: "int \<Rightarrow> string" where
  "to_iso_string t =
     (let (y, m, d) = civil_of_day (t div MS_PER_DAY); r = t mod MS_PER_DAY in
      pad_int 4 y @ ''-'' @ pad_int 2 m @ ''-'' @ pad_int 2 d @ ''T''
      @ pad_int 2 (r div 3600000) @ '':'' @ pad_int 2 (r div 60000 mod 60) @ '':''
      @ pad_int 2 (r div 1000 mod 60) @ ''.'' @ pad_int 3 (r mod 1000) @ ''Z'')"

lemma to_iso_string_example: "to_iso_string 1780000000123 = ''2026-05-28T20:26:40.123Z''"
  by code_simp

section \<open>JSON\<close>

datatype json =
    JNull
  | JBool bool
  | JNum int
  | JStr string
  | JDate int
  | JArr "json list"
  | JObj "(string \<times> json) list"

definition hex_digit :: "nat \<Rightarrow> char" where
  "hex_digit n = (if n < 10 then char_of (48 + n) else char_of (87 + n))"

text \<open>The quoting of \<open>JSON.stringify\<close> for code units below 256.\<close>

definition json_escape :: "char \<Rightarrow> string" where
  "json_escape c =
     (let n = (of_char c :: nat) in
      if n = 34 then [char_of (92::nat), char_of (34::nat)]
      else if n = 92 then [char_of (92::nat), char_of (92::nat)]
      else if n = 8 then [char_of (92::nat), CHR ''b'']
      else if n = 12 then [char_of (92::nat), CHR ''f'']
      else if n = 10 then [char_of (92::nat), CHR ''n'']
      else if n = 13 then [char_of (92::nat), CHR ''r'']
      else if n = 9 then [char_of (92::nat), CHR ''t'']
      else if n < 32 then [char_of (92::nat), CHR ''u'', CHR ''0'', CHR ''0'', hex_digit (n div 16), hex_digit (n mod 16)]
      else [c])"

definition json_quote :: "string \<Rightarrow> string" where
  "json_quote s = [char_of (34::nat)] @ concat (map json_escape s) @ [char_of (34::nat)]"

fun join :: "string \<Rightarrow> string list \<Rightarrow> string" where
  "join sep [] = []"
| "join sep [s] = s"
| "join sep (s # t # ss) = s @ sep @ join sep (t # ss)"

fun json_stringify :: "json \<Rightarrow> string" where
  "json_stringify JNull = ''null''"
| "json_stringify (JBool b) = (if b then ''true'' else ''false'')"
| "json_stringify (JNum n) = int_str n"
| "json_stringify (JStr s) = json_quote s"
| "json_stringify (JDate t) = json_quote (to_iso_string t)"
| "json_stringify (JArr xs) = ''['' @ join '','' (map json_stringify xs) @ '']''"
| "json_stringify (JObj kvs) =
     ''{'' @ join '','' (map (\<lambda>(k, v). json_quote k @ '':'' @ json_stringify v) kvs) @ ''}''"

definition json_opt :: "string option \<Rightarrow> json" where
  "json_opt s = (case s of None \<Rightarrow> JNull | Some t \<Rightarrow> JStr t)"

end
