(* ===== verification/Schema.thy ===== *)
theory Schema
  imports JS_Runtime
begin

text \<open>
  The data model: the enums and the rows of \<open>apps/api/prisma/schema.prisma\<close> that the modelled
  services read and write, one record per model with the columns they use, the database as
  one record of tables, and the Prisma calls of the services on it. A call that would break
  a unique index fails with the Prisma error P2002, a string longer than its column with
  P2000, a number outside the 32-bit \<open>Int\<close> column with P2020. Generated column values come
  from \<open>env\<close>: \<open>e_uuid n\<close> is the id of the \<open>n\<close>-th row created, \<open>e_now\<close> the clock.
\<close>

section \<open>Enums\<close>

datatype LedgerAccountType = ASSET | LIABILITY | EQUITY | REVENUE | EXPENSE

datatype LedgerOwnerType = SYSTEM | CUSTOMER | AGENT

datatype LedgerAccountStatus = LAS_ACTIVE | LAS_FROZEN | LAS_CLOSED

datatype LedgerAccountPurpose =
    PSP_CLEARING | PAYOUT_CLEARING | BANK_CASH
  | CUSTOMER_AVAILABLE | CUSTOMER_HELD
  | AGENT_AVAILABLE | AGENT_HELD | AGENT_RECEIVABLE
  | TICKET_SALES_REVENUE | PRIZE_EXPENSE | PRIZE_PAYABLE
  | TAX_WHT_PAYABLE | REFUND_PAYABLE
  | AGENT_COMMISSION_EXPENSE | PAYMENT_PROCESSING_FEES | PROVIDER_ADJUSTMENT_EXPENSE
  | SUSPENSE

datatype LedgerEntrySide = DEBIT | CREDIT

datatype LedgerTransactionKind =
    OPENING_BALANCE | FUNDING | PURCHASE | PROVIDER_COLLECTION | PROVIDER_SETTLEMENT
  | PRIZE_ACCRUAL | PRIZE_PAYOUT | REFUND | REFUND_ACCRUAL | REFUND_SETTLEMENT
  | AGENT_SALE | AGENT_REMITTANCE | COMMISSION
  | TRANSFER | TREASURY_TRANSFER | ADJUSTMENT | REVERSAL
  | WALLET_HOLD | WALLET_RELEASE | WALLET_CAPTURE

datatype WalletStatus = WS_ACTIVE | WS_FROZEN | WS_CLOSED

datatype WalletHoldStatus = HELD | RELEASED | CAPTURED

datatype PaymentGateway = PAYSTACK | MONNIFY | FLUTTERWAVE | AGENT_CASH

datatype RemittanceStatus =
  RS_PENDING | RS_AGENT_CONFIRMED | RS_RECEIVED | RS_LATE | RS_WRITTEN_OFF | RS_CREDITED_TO_WALLET

datatype AgentStatus = AGS_PENDING_KYC | AGS_ACTIVE | AGS_SUSPENDED | AGS_TERMINATED

datatype PrizeClaimStatus =
  PCS_NOTIFIED | PCS_SELECTION_MADE | PCS_KYC_PENDING | PCS_KYC_CLEARED | PCS_PRODUCT_BOOKED | PCS_DELIVERED
  | PCS_CASH_PAID | PCS_FORFEITED

datatype ClaimType = CT_PRODUCT | CT_CASH

datatype PrizePayoutStatus =
  PPS_REQUESTED | PPS_SUBMITTED | PPS_PROCESSING | PPS_SUCCEEDED | PPS_FAILED | PPS_UNKNOWN | PPS_REVERSED

datatype KycIdentityCheckStatus = KIC_PREPARING | KIC_SUBMITTED | KIC_VERIFIED | KIC_FAILED | KIC_UNKNOWN

datatype VerifiedPayoutAccountStatus = VPA_PENDING | VPA_VERIFIED | VPA_LOCKED | VPA_REVOKED

datatype WalletWithdrawalStatus =
  WW_RESERVED | WW_CBA_DEBIT_UNKNOWN | WW_CBA_DEBIT_CONFIRMED | WW_BANK_TRANSFER_PENDING | WW_BANK_TRANSFER_UNKNOWN
  | WW_SUCCEEDED | WW_RESTORE_REQUIRED | WW_RESTORED | WW_REVIEW_REQUIRED | WW_CANCELLED

datatype DrawType = DAILY_STANDARD | SATURDAY_JACKPOT | PRODUCT_PRIZE

datatype DrawStatus =
  DS_SCHEDULED | DS_ACTIVE | DS_SALES_CLOSED | DS_EXECUTING | DS_COMPLETED | DS_POSTPONED | DS_CANCELLED

datatype TicketStatus = TS_ACTIVE | TS_REFUND_PENDING | TS_EXPIRED | TS_WINNING | TS_ROLLED_OVER

datatype JackpotEntryStatus = JES_ACTIVE | JES_WINNING | JES_EXPIRED

datatype JackpotDiscountOfferStatus =
  JDO_AVAILABLE | JDO_CLAIMING | JDO_CLAIMED | JDO_DECLINED | JDO_EXPIRED

datatype SpendPeriod = WEEKLY | MONTHLY

datatype KycStatus = KYC_NONE | KYC_OTP_VERIFIED | KYC_TIER1_COMPLETE

datatype PaymentStatus =
  PS_PENDING | PS_CONFIRMED | PS_REVIEW_REQUIRED | PS_REFUND_PENDING | PS_FAILED | PS_DUPLICATE | PS_REFUNDED

datatype PurchaseChannel = CHANNEL_DIRECT | CHANNEL_AGENT

datatype PurchasePricingContext = NORMAL | PROMOTIONAL_JACKPOT

datatype TicketType = STANDARD | JACKPOT

datatype WalletPurchaseStatus = WPS_PENDING | WPS_COMPLETED | WPS_REVERSED

datatype AuditSeverity = SEV_INFO | SEV_WARNING | SEV_CRITICAL

datatype AuditActorType = ACTOR_CUSTOMER | ACTOR_AGENT | ACTOR_ADMIN | ACTOR_ENGINE | ACTOR_SYSTEM

primrec side_str :: "LedgerEntrySide \<Rightarrow> string" where
  "side_str DEBIT = ''DEBIT''"
| "side_str CREDIT = ''CREDIT''"

primrec kind_str :: "LedgerTransactionKind \<Rightarrow> string" where
  "kind_str OPENING_BALANCE = ''OPENING_BALANCE''"
| "kind_str FUNDING = ''FUNDING''"
| "kind_str PURCHASE = ''PURCHASE''"
| "kind_str PROVIDER_COLLECTION = ''PROVIDER_COLLECTION''"
| "kind_str PROVIDER_SETTLEMENT = ''PROVIDER_SETTLEMENT''"
| "kind_str PRIZE_ACCRUAL = ''PRIZE_ACCRUAL''"
| "kind_str PRIZE_PAYOUT = ''PRIZE_PAYOUT''"
| "kind_str REFUND = ''REFUND''"
| "kind_str REFUND_ACCRUAL = ''REFUND_ACCRUAL''"
| "kind_str REFUND_SETTLEMENT = ''REFUND_SETTLEMENT''"
| "kind_str AGENT_SALE = ''AGENT_SALE''"
| "kind_str AGENT_REMITTANCE = ''AGENT_REMITTANCE''"
| "kind_str COMMISSION = ''COMMISSION''"
| "kind_str TRANSFER = ''TRANSFER''"
| "kind_str TREASURY_TRANSFER = ''TREASURY_TRANSFER''"
| "kind_str ADJUSTMENT = ''ADJUSTMENT''"
| "kind_str REVERSAL = ''REVERSAL''"
| "kind_str WALLET_HOLD = ''WALLET_HOLD''"
| "kind_str WALLET_RELEASE = ''WALLET_RELEASE''"
| "kind_str WALLET_CAPTURE = ''WALLET_CAPTURE''"

primrec owner_str :: "LedgerOwnerType \<Rightarrow> string" where
  "owner_str SYSTEM = ''SYSTEM''"
| "owner_str CUSTOMER = ''CUSTOMER''"
| "owner_str AGENT = ''AGENT''"

primrec account_status_str :: "LedgerAccountStatus \<Rightarrow> string" where
  "account_status_str LAS_ACTIVE = ''ACTIVE''"
| "account_status_str LAS_FROZEN = ''FROZEN''"
| "account_status_str LAS_CLOSED = ''CLOSED''"

primrec wallet_status_str :: "WalletStatus \<Rightarrow> string" where
  "wallet_status_str WS_ACTIVE = ''ACTIVE''"
| "wallet_status_str WS_FROZEN = ''FROZEN''"
| "wallet_status_str WS_CLOSED = ''CLOSED''"

primrec gateway_str :: "PaymentGateway \<Rightarrow> string" where
  "gateway_str PAYSTACK = ''PAYSTACK''"
| "gateway_str MONNIFY = ''MONNIFY''"
| "gateway_str FLUTTERWAVE = ''FLUTTERWAVE''"
| "gateway_str AGENT_CASH = ''AGENT_CASH''"

primrec remittance_status_str :: "RemittanceStatus \<Rightarrow> string" where
  "remittance_status_str RS_PENDING = ''PENDING''"
| "remittance_status_str RS_AGENT_CONFIRMED = ''AGENT_CONFIRMED''"
| "remittance_status_str RS_RECEIVED = ''RECEIVED''"
| "remittance_status_str RS_LATE = ''LATE''"
| "remittance_status_str RS_WRITTEN_OFF = ''WRITTEN_OFF''"
| "remittance_status_str RS_CREDITED_TO_WALLET = ''CREDITED_TO_WALLET''"

primrec claim_status_str :: "PrizeClaimStatus \<Rightarrow> string" where
  "claim_status_str PCS_NOTIFIED = ''NOTIFIED''"
| "claim_status_str PCS_SELECTION_MADE = ''SELECTION_MADE''"
| "claim_status_str PCS_KYC_PENDING = ''KYC_PENDING''"
| "claim_status_str PCS_KYC_CLEARED = ''KYC_CLEARED''"
| "claim_status_str PCS_PRODUCT_BOOKED = ''PRODUCT_BOOKED''"
| "claim_status_str PCS_DELIVERED = ''DELIVERED''"
| "claim_status_str PCS_CASH_PAID = ''CASH_PAID''"
| "claim_status_str PCS_FORFEITED = ''FORFEITED''"

primrec claim_type_str :: "ClaimType \<Rightarrow> string" where
  "claim_type_str CT_PRODUCT = ''PRODUCT''"
| "claim_type_str CT_CASH = ''CASH''"

primrec payout_status_str :: "PrizePayoutStatus \<Rightarrow> string" where
  "payout_status_str PPS_REQUESTED = ''REQUESTED''"
| "payout_status_str PPS_SUBMITTED = ''SUBMITTED''"
| "payout_status_str PPS_PROCESSING = ''PROCESSING''"
| "payout_status_str PPS_SUCCEEDED = ''SUCCEEDED''"
| "payout_status_str PPS_FAILED = ''FAILED''"
| "payout_status_str PPS_UNKNOWN = ''UNKNOWN''"
| "payout_status_str PPS_REVERSED = ''REVERSED''"

primrec draw_status_str :: "DrawStatus \<Rightarrow> string" where
  "draw_status_str DS_SCHEDULED = ''SCHEDULED''"
| "draw_status_str DS_ACTIVE = ''ACTIVE''"
| "draw_status_str DS_SALES_CLOSED = ''SALES_CLOSED''"
| "draw_status_str DS_EXECUTING = ''EXECUTING''"
| "draw_status_str DS_COMPLETED = ''COMPLETED''"
| "draw_status_str DS_POSTPONED = ''POSTPONED''"
| "draw_status_str DS_CANCELLED = ''CANCELLED''"

section \<open>Rows\<close>

record ledger_account =
  la_accountId :: string
  la_code :: string
  la_name :: string
  la_accountType :: LedgerAccountType
  la_purpose :: LedgerAccountPurpose
  la_ownerType :: LedgerOwnerType
  la_ownerId :: "string option"
  la_currency :: string
  la_status :: LedgerAccountStatus

record ledger_transaction =
  lt_ledgerTxnId :: string
  lt_idempotencyKey :: string
  lt_kind :: LedgerTransactionKind
  lt_referenceType :: string
  lt_referenceId :: string
  lt_description :: "string option"
  lt_currency :: string
  lt_totalAmountNgn :: int
  lt_entryCount :: nat
  lt_fingerprint :: string
  lt_metadata :: "json option"
  lt_occurredAt :: int
  lt_reversesLedgerTxnId :: "string option"

record ledger_entry =
  le_ledgerTxnId :: string
  le_accountId :: string
  le_lineNo :: nat
  le_side :: LedgerEntrySide
  le_amountNgn :: int
  le_memo :: "string option"

record wallet =
  w_walletId :: string
  w_ownerType :: LedgerOwnerType
  w_userId :: "string option"
  w_agentId :: "string option"
  w_currency :: string
  w_status :: WalletStatus
  w_availableAccountId :: string
  w_heldAccountId :: string

record wallet_hold =
  wh_holdId :: string
  wh_walletId :: string
  wh_idempotencyKey :: string
  wh_referenceType :: string
  wh_referenceId :: string
  wh_amountNgn :: int
  wh_status :: WalletHoldStatus
  wh_holdLedgerTxnId :: string
  wh_releaseLedgerTxnId :: "string option"
  wh_captureLedgerTxnId :: "string option"
  wh_releaseIdempotencyKey :: "string option"
  wh_captureIdempotencyKey :: "string option"
  wh_resolvedAt :: "int option"

record payment_transaction =
  pt_txnId :: string
  pt_gatewayReference :: string
  pt_gateway :: PaymentGateway
  pt_amountNgn :: int
  pt_buyerPhone :: string
  pt_buyerUserId :: "string option"
  pt_channel :: PurchaseChannel
  pt_agentId :: "string option"
  pt_ticketCount :: nat
  pt_pricingContext :: PurchasePricingContext
  pt_jackpotDiscountOfferId :: "string option"
  pt_status :: PaymentStatus
  pt_confirmedAt :: "int option"
  pt_collectionLedgerTxnId :: "string option"
  pt_refundAccrualLedgerTxnId :: "string option"
  pt_refundSettlementLedgerTxnId :: "string option"

record user =
  u_userId :: string
  u_phoneNumber :: string
  u_email :: "string option"
  u_displayName :: "string option"
  u_kycStatus :: KycStatus
  u_loyaltyPointsBalance :: int
  u_smsEnabled :: bool
  u_pushEnabled :: bool
  u_emailEnabled :: bool
  u_spendLimitPeriod :: "SpendPeriod option"
  u_spendLimitCapNgn :: "int option"
  u_selfExclusionUntil :: "int option"
  u_bankCode :: "string option"
  u_bankAccountLast4 :: "string option"
  u_bankAccountNameHash :: "string option"

record wallet_purchase =
  wp_purchaseId :: string
  wp_idempotencyKey :: string
  wp_walletId :: string
  wp_buyerUserId :: string
  wp_buyerPhone :: string
  wp_drawId :: string
  wp_stateOfPlayCode :: string
  wp_ticketCount :: nat
  wp_amountNgn :: int
  wp_pricingContext :: PurchasePricingContext
  wp_jackpotDiscountOfferId :: "string option"
  wp_status :: WalletPurchaseStatus
  wp_holdId :: "string option"
  wp_completedAt :: "int option"

record remittance =
  rm_remittanceId :: string
  rm_agentId :: string
  rm_periodDate :: int
  rm_grossSalesNgn :: int
  rm_commissionNgn :: int
  rm_amountDueNgn :: int
  rm_ticketCount :: nat
  rm_standardTicketCount :: nat
  rm_jackpotTicketCount :: nat
  rm_standardSalesNgn :: int
  rm_jackpotSalesNgn :: int
  rm_winningsPaidOutNgn :: int
  rm_status :: RemittanceStatus
  rm_bankTransferRef :: "string option"
  rm_agentConfirmedAt :: "int option"
  rm_receivedAt :: "int option"
  rm_commissionLedgerTxnId :: "string option"
  rm_settlementLedgerTxnId :: "string option"
  rm_walletCreditLedgerTxnId :: "string option"
  rm_createdAt :: int
  rm_deadlineWarnedAt :: "int option"

text \<open>The commission rate, a decimal of four digits, in ten-thousandths.\<close>

record agent =
  ag_agentId :: string
  ag_agentCode :: string
  ag_phoneNumber :: string
  ag_status :: AgentStatus
  ag_commissionRate :: nat
  ag_suspensionReason :: "string option"
  ag_suspendedAt :: "int option"

record prize_claim =
  pc_claimId :: string
  pc_winnerTicketRef :: string
  pc_winnerPhone :: string
  pc_winnerUserId :: "string option"
  pc_claimType :: "ClaimType option"
  pc_claimTypeSelectedAt :: "int option"
  pc_status :: PrizeClaimStatus
  pc_grossPrizeValueNgn :: int
  pc_whtApplicable :: bool
  pc_whtAmountNgn :: int
  pc_netPrizeValueNgn :: int
  pc_selectionDeadlineAt :: int
  pc_claimDeadlineAt :: int
  pc_forfeitedAt :: "int option"
  pc_fulfilledAt :: "int option"
  pc_redemptionCodeHash :: "string option"
  pc_redemptionCodeIssuedAt :: "int option"
  pc_redemptionAttempts :: nat
  pc_redeemedAt :: "int option"
  pc_redeemedByAdminId :: "string option"
  pc_redeemedAtPointId :: "string option"
  pc_redemptionReissues :: nat
  pc_lastReissuedByAdminId :: "string option"
  pc_kycBankCode :: "string option"
  pc_kycBankAccountLast4 :: "string option"
  pc_kycBankAccountName :: "string option"
  pc_kycIdDocPath :: "string option"
  pc_kycSelfiePath :: "string option"
  pc_kycReviewedBy :: "string option"
  pc_kycReviewedAt :: "int option"
  pc_prizeAccrualLedgerTxnId :: "string option"
  pc_agentPayoutLedgerTxnId :: "string option"
  pc_collectionPointId :: "string option"
  pc_collectionScheduledAt :: "int option"
  pc_payoutStatus :: "PrizePayoutStatus option"
  pc_payoutProvider :: "string option"
  pc_payoutReference :: "string option"
  pc_payoutIdempotencyKey :: "string option"
  pc_payoutInitiatedAt :: "int option"
  pc_payoutCompletedAt :: "int option"
  pc_payoutLastCheckedAt :: "int option"
  pc_payoutFailureReason :: "string option"
  pc_paidByAgentId :: "string option"
  pc_paidByAgentAt :: "int option"
  pc_createdAt :: int

record payout_attempt =
  pa_attemptId :: string
  pa_claimId :: string
  pa_attemptNumber :: nat
  pa_provider :: string
  pa_idempotencyKey :: string
  pa_amountNgn :: int
  pa_currency :: string
  pa_status :: PrizePayoutStatus
  pa_providerReference :: "string option"
  pa_providerTransactionId :: "string option"
  pa_rawStatus :: "string option"
  pa_failureReason :: "string option"
  pa_destinationBankCode :: string
  pa_destinationAccountLast4 :: string
  pa_destinationAccountNameHash :: string
  pa_initiatedByAdminId :: string
  pa_initiatedAt :: int
  pa_lastCheckedAt :: "int option"
  pa_completedAt :: "int option"
  pa_payoutLedgerTxnId :: "string option"
  pa_reversalLedgerTxnId :: "string option"
  pa_verifiedPayoutAccountId :: "string option"
  pa_destinationAccountFingerprint :: "string option"
  pa_destinationAccountCiphertext :: "string option"

text \<open>The rate, a decimal of two digits, in hundredths of a percent.\<close>

record wht_deduction =
  wd_deductionSeq :: nat
  wd_deductionRef :: string
  wd_claimId :: string
  wd_winnerTicketRef :: string
  wd_winnerPhone :: string
  wd_grossPrizeNgn :: int
  wd_whtRatePercent :: nat
  wd_whtAmountNgn :: int
  wd_netPrizeNgn :: int

record identity_check =
  ki_checkId :: string
  ki_claimId :: string
  ki_attemptNumber :: nat
  ki_provider :: string
  ki_status :: KycIdentityCheckStatus
  ki_paystackCustomerCode :: "string option"
  ki_bankCode :: string
  ki_bankAccountLast4 :: string
  ki_bankAccountFingerprint :: string
  ki_submittedAt :: "int option"
  ki_verifiedAt :: "int option"
  ki_failedAt :: "int option"
  ki_failureCode :: "string option"
  ki_bankChangeAuthorizedAt :: "int option"

record payout_account =
  vp_payoutAccountId :: string
  vp_userId :: string
  vp_currency :: string
  vp_bankCode :: string
  vp_bankName :: string
  vp_accountCiphertext :: string
  vp_accountLast4 :: string
  vp_accountFingerprint :: string
  vp_resolvedAccountName :: string
  vp_status :: VerifiedPayoutAccountStatus
  vp_identityCheckId :: "string option"
  vp_verifiedAt :: "int option"
  vp_lockedAt :: "int option"
  vp_revokedAt :: "int option"

record wallet_withdrawal =
  ww_withdrawalId :: string
  ww_userId :: string
  ww_status :: WalletWithdrawalStatus

record collection_point =
  cp_pointId :: string
  cp_name :: string
  cp_stateCode :: string
  cp_isActive :: bool

record draw =
  d_drawId :: string
  d_drawCode :: string
  d_drawType :: DrawType
  d_status :: DrawStatus
  d_prizeDescription :: string
  d_prizeValueNgn :: int
  d_prizeImageUrl :: "string option"
  d_ticketPriceNgn :: int
  d_ticketQuota :: "int option"
  d_scheduledAt :: int
  d_cutoffAt :: int
  d_executedAt :: "int option"
  d_configVersion :: int

record ticket =
  t_ticketId :: string
  t_ticketRef :: string
  t_drawId :: string
  t_ticketType :: TicketType
  t_faceValueNgn :: int
  t_buyerPhone :: string
  t_buyerUserId :: "string option"
  t_agentId :: "string option"
  t_purchaseChannel :: PurchaseChannel
  t_stateOfPlayCode :: string
  t_paymentTxnId :: "string option"
  t_walletPurchaseId :: "string option"
  t_jackpotDiscountOfferId :: "string option"
  t_status :: TicketStatus
  t_isWinner :: bool

record jackpot_entry =
  je_entryId :: string
  je_drawId :: string
  je_buyerPhone :: string
  je_status :: JackpotEntryStatus

record draw_seed_commit =
  sc_drawId :: string
  sc_seedHash :: string
  sc_sealedSeed :: string
  sc_committedAt :: int

record draw_result =
  dr_drawId :: string
  dr_winnerTicketRef :: string
  dr_prizeValueNgn :: int
  dr_totalTicketsSold :: nat
  dr_totalEligibleParticipants :: nat
  dr_rngSeedHash :: string
  dr_rngSeed :: string
  dr_rngSeedHashedAt :: int
  dr_merkleRoot :: string
  dr_stateBreakdown :: "(string \<times> nat) list"
  dr_zeroInterventionConfirmed :: bool
  dr_engineVersion :: string
  dr_engineSignature :: string
  dr_executedAt :: int

record jackpot_accumulation =
  ja_accumId :: string
  ja_buyerPhone :: string
  ja_buyerUserId :: "string option"
  ja_cumulativeCount :: nat
  ja_jackpotEntriesTotal :: nat
  ja_cycleDrawId :: "string option"
  ja_lifetimeTicketCount :: nat
  ja_lastTicketAt :: int

record jackpot_discount_offer =
  jo_offerId :: string
  jo_buyerPhone :: string
  jo_buyerUserId :: "string option"
  jo_jackpotDrawId :: string
  jo_unlockedByPaymentTxnId :: "string option"
  jo_unlockedByWalletPurchaseId :: "string option"
  jo_thresholdNumber :: nat
  jo_regularTicketsAtUnlock :: nat
  jo_originalPriceNgn :: int
  jo_offerPriceNgn :: int
  jo_status :: JackpotDiscountOfferStatus
  jo_issuedAt :: int
  jo_expiresAt :: int
  jo_claimingAt :: "int option"
  jo_claimedAt :: "int option"
  jo_declinedAt :: "int option"

record audit_log =
  al_severity :: AuditSeverity
  al_actorType :: AuditActorType
  al_actorId :: "string option"
  al_action :: string
  al_resourceType :: string
  al_resourceId :: string
  al_metadata :: json
  al_signature :: "string option"

section \<open>The database and its environment\<close>

record db =
  accounts :: "ledger_account list"
  txns :: "ledger_transaction list"
  entries :: "ledger_entry list"
  wallets :: "wallet list"
  holds :: "wallet_hold list"
  users :: "user list"
  blockedPhones :: "string list"
  agents :: "agent list"
  payments :: "payment_transaction list"
  walletPurchases :: "wallet_purchase list"
  remittances :: "remittance list"
  claims :: "prize_claim list"
  payoutAttempts :: "payout_attempt list"
  whtDeductions :: "wht_deduction list"
  identityChecks :: "identity_check list"
  payoutAccounts :: "payout_account list"
  withdrawals :: "wallet_withdrawal list"
  collectionPoints :: "collection_point list"
  draws :: "draw list"
  tickets :: "ticket list"
  jackpotEntries :: "jackpot_entry list"
  seedCommits :: "draw_seed_commit list"
  drawResults :: "draw_result list"
  accumulations :: "jackpot_accumulation list"
  offers :: "jackpot_discount_offer list"
  auditLog :: "audit_log list"
  seq :: nat

text \<open>
  \<open>e_sha256\<close> is the hexadecimal SHA-256 digest of Node's native \<open>crypto\<close>;
  \<open>e_localeCompare\<close> the ICU collation behind \<open>String.prototype.localeCompare\<close>; \<open>e_dbCollate\<close>
  the collation of the database's \<open>ORDER BY\<close>; \<open>e_requestId\<close> the id of the request at hand.
\<close>

record env =
  e_uuid :: "nat \<Rightarrow> string"
  e_now :: int
  e_sha256 :: "string \<Rightarrow> string"
  e_localeCompare :: "string \<Rightarrow> string \<Rightarrow> int"
  e_dbCollate :: "string \<Rightarrow> string \<Rightarrow> int"
  e_requestId :: "string option"

definition uuid_ok :: "'a env_scheme \<Rightarrow> bool" where
  "uuid_ok env \<longleftrightarrow> (\<forall>n. e_uuid env n \<noteq> [] \<and> js_trim (e_uuid env n) = e_uuid env n)"

definition unique_violation :: error where
  "unique_violation = PrismaError ''P2002''"

definition is_unique_violation :: "error \<Rightarrow> bool" where
  "is_unique_violation e = (e = unique_violation)"

definition MAX_INT4 :: int where
  "MAX_INT4 = 2147483647"

section \<open>Prisma calls on the ledger tables\<close>

definition find_account :: "db \<Rightarrow> string \<Rightarrow> ledger_account option" where
  "find_account db i = find (\<lambda>a. la_accountId a = i) (accounts db)"

definition find_account_by_code :: "db \<Rightarrow> string \<Rightarrow> ledger_account option" where
  "find_account_by_code db c = find (\<lambda>a. la_code a = c) (accounts db)"

definition accounts_in :: "db \<Rightarrow> string list \<Rightarrow> ledger_account list" where
  "accounts_in db ids = filter (\<lambda>a. la_accountId a \<in> set ids) (accounts db)"

definition create_account :: "'a env_scheme \<Rightarrow> db \<Rightarrow> ledger_account \<Rightarrow> (ledger_account \<times> db) res" where
  "create_account env db a0 =
     (let a = a0\<lparr>la_accountId := e_uuid env (seq db), la_status := LAS_ACTIVE\<rparr> in
      if length (la_code a) > 180 \<or> length (la_name a) > 180 \<or> length (la_currency a) > 3
      then Inl (PrismaError ''P2000'')
      else if find_account db (la_accountId a) \<noteq> None \<or> find_account_by_code db (la_code a) \<noteq> None
      then Inl unique_violation
      else Inr (a, db\<lparr>accounts := accounts db @ [a], seq := seq db + 1\<rparr>))"

definition find_txn :: "db \<Rightarrow> string \<Rightarrow> ledger_transaction option" where
  "find_txn db i = find (\<lambda>t. lt_ledgerTxnId t = i) (txns db)"

definition find_txn_by_key :: "db \<Rightarrow> string \<Rightarrow> ledger_transaction option" where
  "find_txn_by_key db k = find (\<lambda>t. lt_idempotencyKey t = k) (txns db)"

definition find_reversal_of :: "db \<Rightarrow> string \<Rightarrow> ledger_transaction option" where
  "find_reversal_of db i = find (\<lambda>t. lt_reversesLedgerTxnId t = Some i) (txns db)"

definition create_txn :: "'a env_scheme \<Rightarrow> db \<Rightarrow> ledger_transaction \<Rightarrow> (ledger_transaction \<times> db) res" where
  "create_txn env db t0 =
     (let t = t0\<lparr>lt_ledgerTxnId := e_uuid env (seq db)\<rparr> in
      if length (lt_idempotencyKey t) > 200 \<or> length (lt_referenceType t) > 100
         \<or> length (lt_referenceId t) > 180
      then Inl (PrismaError ''P2000'')
      else if lt_totalAmountNgn t > MAX_INT4 then Inl (PrismaError ''P2020'')
      else if find_txn db (lt_ledgerTxnId t) \<noteq> None
         \<or> find_txn_by_key db (lt_idempotencyKey t) \<noteq> None
         \<or> (case lt_reversesLedgerTxnId t of None \<Rightarrow> False | Some r \<Rightarrow> find_reversal_of db r \<noteq> None)
      then Inl unique_violation
      else Inr (t, db\<lparr>txns := txns db @ [t], seq := seq db + 1\<rparr>))"

definition create_entries :: "db \<Rightarrow> ledger_entry list \<Rightarrow> db" where
  "create_entries db es = db\<lparr>entries := entries db @ es\<rparr>"

definition entries_of :: "db \<Rightarrow> string \<Rightarrow> ledger_entry list" where
  "entries_of db i = filter (\<lambda>e. le_ledgerTxnId e = i) (entries db)"

text \<open>\<open>AuditService.write\<close>: the metadata gains the id of the request.\<close>

definition write_audit :: "'a env_scheme \<Rightarrow> audit_log \<Rightarrow> (string \<times> json) list \<Rightarrow> db \<Rightarrow> db" where
  "write_audit env a metadata db =
     db\<lparr>auditLog := auditLog db @ [a\<lparr>al_metadata :=
       JObj (metadata @ [(''requestId'', json_opt (e_requestId env))])\<rparr>]\<rparr>"

definition find_wallet :: "db \<Rightarrow> string \<Rightarrow> wallet option" where
  "find_wallet db i = find (\<lambda>w. w_walletId w = i) (wallets db)"

definition find_hold :: "db \<Rightarrow> string \<Rightarrow> wallet_hold option" where
  "find_hold db i = find (\<lambda>h. wh_holdId h = i) (holds db)"

definition find_hold_by_key :: "db \<Rightarrow> string \<Rightarrow> wallet_hold option" where
  "find_hold_by_key db k = find (\<lambda>h. wh_idempotencyKey h = k) (holds db)"

definition find_txn_or_throw :: "db \<Rightarrow> string \<Rightarrow> ledger_transaction res" where
  "find_txn_or_throw db i = from_option (PrismaError ''P2025'') (find_txn db i)"

definition find_payment :: "db \<Rightarrow> string \<Rightarrow> payment_transaction option" where
  "find_payment db i = find (\<lambda>p. pt_txnId p = i) (payments db)"

definition find_agent :: "db \<Rightarrow> string \<Rightarrow> agent option" where
  "find_agent db i = find (\<lambda>a. ag_agentId a = i) (agents db)"

definition find_remittance :: "db \<Rightarrow> string \<Rightarrow> remittance option" where
  "find_remittance db i = find (\<lambda>r. rm_remittanceId r = i) (remittances db)"

definition find_claim :: "db \<Rightarrow> string \<Rightarrow> prize_claim option" where
  "find_claim db i = find (\<lambda>c. pc_claimId c = i) (claims db)"

text \<open>
  \<open>update({ where: { key }, data })\<close> of the row with a key, where the data sets a column
  under a unique index to \<open>v\<close>.
\<close>

definition link_row ::
  "('r \<Rightarrow> string) \<Rightarrow> ('r \<Rightarrow> string option) \<Rightarrow> ('r \<Rightarrow> 'r) \<Rightarrow> string \<Rightarrow> string \<Rightarrow> 'r list \<Rightarrow> 'r list res" where
  "link_row key col upd k v rows =
     (if \<forall>r\<in>set rows. key r \<noteq> k then Inl (PrismaError ''P2025'')
      else if \<exists>r\<in>set rows. key r \<noteq> k \<and> col r = Some v then Inl unique_violation
      else Inr (update_where (\<lambda>r. key r = k) upd rows))"

lemma link_row_Inr [res_simps]:
  "link_row key col upd k v rows = Inr rows' \<longleftrightarrow>
     (\<exists>r\<in>set rows. key r = k) \<and> (\<forall>r\<in>set rows. key r \<noteq> k \<longrightarrow> col r \<noteq> Some v) \<and>
     rows' = update_where (\<lambda>r. key r = k) upd rows"
  by (auto simp: link_row_def)

text \<open>\<open>requireAccount\<close> of the accounting services.\<close>

definition requireAccount :: "db \<Rightarrow> string \<Rightarrow> ledger_account res" where
  "requireAccount db code =
     (case find_account_by_code db code of
        None \<Rightarrow> Inl (ConflictException (''Required ledger account '' @ code @ '' does not exist''))
      | Some a \<Rightarrow> Inr a)"

lemma requireAccount_Inr [res_simps]: "requireAccount db code = Inr a \<longleftrightarrow> find_account_by_code db code = Some a"
  by (auto simp: requireAccount_def split: option.splits)

text \<open>Every id the database generated is free of surrounding blanks.\<close>

definition accounts_trimmed :: "db \<Rightarrow> bool" where
  "accounts_trimmed db \<longleftrightarrow> (\<forall>a\<in>set (accounts db). js_trim (la_accountId a) = la_accountId a)"

lemma find_account_by_code_sel:
  "find_account_by_code db c = Some a \<Longrightarrow> a \<in> set (accounts db) \<and> la_code a = c"
  by (auto simp: find_account_by_code_def dest: find_Some_set)

lemma accounts_trimmedD: "accounts_trimmed db \<Longrightarrow> find_account_by_code db c = Some a \<Longrightarrow>
    js_trim (la_accountId a) = la_accountId a"
  by (auto simp: accounts_trimmed_def dest: find_account_by_code_sel)

end
