(* ===== verification/Ledger_Utils.thy ===== *)
theory Ledger_Utils
  imports Schema
begin

text \<open>
  \<open>apps/api/src/ledger/ledger.utils.ts\<close>: journal totals, the natural balance of an account
  and the canonical JSON whose hash is a journal's idempotency fingerprint.
\<close>

section \<open>Totals and balances\<close>

record ledger_totals =
  tot_debitNgn :: int
  tot_creditNgn :: int
  tot_balanced :: bool

text \<open>The loop of \<open>calculateLedgerTotals\<close> with its two accumulators.\<close>

fun totals_loop :: "(LedgerEntrySide \<times> int) list \<Rightarrow> int \<Rightarrow> int \<Rightarrow> int \<times> int" where
  "totals_loop [] debit credit = (debit, credit)"
| "totals_loop ((side, amount) # lines) debit credit =
     (if side = DEBIT then totals_loop lines (debit + amount) credit
      else totals_loop lines debit (credit + amount))"

definition calculateLedgerTotals :: "(LedgerEntrySide \<times> int) list \<Rightarrow> ledger_totals" where
  "calculateLedgerTotals lines =
     (let (debit, credit) = totals_loop lines 0 0 in
      \<lparr>tot_debitNgn = debit, tot_creditNgn = credit, tot_balanced = (debit = credit)\<rparr>)"

fun naturalLedgerBalance :: "LedgerAccountType \<Rightarrow> int \<Rightarrow> int \<Rightarrow> int" where
  "naturalLedgerBalance ASSET debit credit = debit - credit"
| "naturalLedgerBalance EXPENSE debit credit = debit - credit"
| "naturalLedgerBalance LIABILITY debit credit = credit - debit"
| "naturalLedgerBalance EQUITY debit credit = credit - debit"
| "naturalLedgerBalance REVENUE debit credit = credit - debit"

text \<open>What one line adds to the debit and to the credit side.\<close>

definition debit_part :: "LedgerEntrySide \<Rightarrow> int \<Rightarrow> int" where
  "debit_part side amount = (if side = DEBIT then amount else 0)"

definition credit_part :: "LedgerEntrySide \<Rightarrow> int \<Rightarrow> int" where
  "credit_part side amount = (if side = DEBIT then 0 else amount)"

lemma part_simps [simp]:
  "debit_part DEBIT n = n" "debit_part CREDIT n = 0"
  "credit_part DEBIT n = 0" "credit_part CREDIT n = n"
  by (simp_all add: debit_part_def credit_part_def)

lemma totals_loop_eq:
  "totals_loop lines d c =
     (d + sum_by (\<lambda>(s, n). debit_part s n) lines, c + sum_by (\<lambda>(s, n). credit_part s n) lines)"
  by (induction lines d c rule: totals_loop.induct)
     (auto simp: debit_part_def credit_part_def)

lemma calculateLedgerTotals_eq:
  "tot_debitNgn (calculateLedgerTotals lines) = sum_by (\<lambda>(s, n). debit_part s n) lines"
  "tot_creditNgn (calculateLedgerTotals lines) = sum_by (\<lambda>(s, n). credit_part s n) lines"
  "tot_balanced (calculateLedgerTotals lines) \<longleftrightarrow>
     sum_by (\<lambda>(s, n). debit_part s n) lines = sum_by (\<lambda>(s, n). credit_part s n) lines"
  by (simp_all add: calculateLedgerTotals_def totals_loop_eq)

section \<open>Canonical JSON\<close>

text \<open>
  \<open>canonicalize\<close>: dates become ISO strings, arrays are mapped, an object is rebuilt with its
  keys in code-unit order (\<open>Object.keys(object).sort()\<close>), each with the canonical form of
  \<open>object[key]\<close>. The pairs of the rebuilt object are the sorted pairs of the old one, its
  keys being distinct.
\<close>

fun canonicalize :: "json \<Rightarrow> json" where
  "canonicalize (JDate t) = JStr (to_iso_string t)"
| "canonicalize (JArr xs) = JArr (map canonicalize xs)"
| "canonicalize (JObj kvs) =
     JObj (js_sort (\<lambda>p q. str_cmp (fst p) (fst q)) (map (\<lambda>(k, v). (k, canonicalize v)) kvs))"
| "canonicalize v = v"

definition canonicalJson :: "json \<Rightarrow> string" where
  "canonicalJson value = json_stringify (canonicalize value)"

text \<open>A JavaScript object has each key once.\<close>

fun json_wf :: "json \<Rightarrow> bool" where
  "json_wf (JArr xs) = list_all json_wf xs"
| "json_wf (JObj kvs) = (distinct (map fst kvs) \<and> list_all (\<lambda>(k, v). json_wf v) kvs)"
| "json_wf v = True"

text \<open>Equality of JSON values up to the order of object keys, at every depth.\<close>

inductive json_equiv :: "json \<Rightarrow> json \<Rightarrow> bool" where
  json_equiv_refl: "json_equiv v v"
| json_equiv_arr: "list_all2 json_equiv xs ys \<Longrightarrow> json_equiv (JArr xs) (JArr ys)"
| json_equiv_obj: "mset ys' = mset ys \<Longrightarrow>
     list_all2 (\<lambda>p q. fst p = fst q \<and> json_equiv (snd p) (snd q)) xs ys' \<Longrightarrow>
     json_equiv (JObj xs) (JObj ys)"

text \<open>Sorting pairs by key only sees the order of the keys, which are distinct.\<close>

lemma insert_cmp_key:
  "map fst (insert_cmp (\<lambda>p q. str_cmp (fst p) (fst q)) x xs) = insert_cmp str_cmp (fst x) (map fst xs)"
  by (induction xs) auto

lemma insert_cmp_pair_commute:
  assumes "fst x \<noteq> fst y"
  shows "insert_cmp (\<lambda>p q. str_cmp (fst p) (fst q)) x (insert_cmp (\<lambda>p q. str_cmp (fst p) (fst q)) y zs) =
    insert_cmp (\<lambda>p q. str_cmp (fst p) (fst q)) y (insert_cmp (\<lambda>p q. str_cmp (fst p) (fst q)) x zs)"
proof (induction zs)
  case Nil
  have "str_cmp (fst x) (fst y) \<noteq> 0" using assms by (simp add: str_cmp_zero)
  then show ?case using str_cmp_neg [of "fst x" "fst y"] by auto
next
  case (Cons z zs)
  have nz: "str_cmp (fst x) (fst y) \<noteq> 0" using assms by (simp add: str_cmp_zero)
  have neg: "str_cmp (fst y) (fst x) = - str_cmp (fst x) (fst y)" by (rule str_cmp_neg)
  show ?case
    using Cons nz neg str_cmp_trans [of "fst x" "fst y" "fst z"] str_cmp_trans [of "fst y" "fst x" "fst z"]
    by auto
qed

lemma js_sort_pairs_perm:
  assumes "mset xs = mset ys" "distinct (map fst xs)"
  shows "js_sort (\<lambda>p q. str_cmp (fst p) (fst q)) xs = js_sort (\<lambda>p q. str_cmp (fst p) (fst q)) ys"
  using assms
proof (induction xs arbitrary: ys)
  case Nil
  then show ?case by simp
next
  case (Cons x xs)
  let ?c = "\<lambda>p q. str_cmp (fst p) (fst q)"
  from Cons.prems(1) have "x \<in> set ys" by (metis list.set_intros(1) set_mset_mset)
  then obtain as bs where ys: "ys = as @ x # bs" by (metis split_list)
  have m: "mset xs = mset (as @ bs)" using Cons.prems(1) ys by simp
  have "fst x \<notin> fst ` set (as @ bs)"
    using Cons.prems(2) m by (metis distinct.simps(2) list.simps(9) list.set_map set_mset_mset)
  then have "js_sort ?c (as @ x # bs) = insert_cmp ?c x (js_sort ?c (as @ bs))"
  proof (induction as)
    case Nil
    then show ?case by simp
  next
    case (Cons a as)
    then have "fst x \<noteq> fst a" by auto
    then show ?case using Cons by (simp add: insert_cmp_pair_commute)
  qed
  then show ?case using Cons.IH [OF m] Cons.prems(2) ys by simp
qed

lemma canonicalize_equiv_list:
  assumes "list_all2 (\<lambda>p q. fst p = fst q \<and> canonicalize (snd p) = canonicalize (snd q)) xs ys"
  shows "map (\<lambda>(k, v). (k, canonicalize v)) xs = map (\<lambda>(k, v). (k, canonicalize v)) ys"
  using assms by (induction rule: list_all2_induct) auto

lemma canonicalize_equiv:
  assumes "json_equiv v w" "json_wf v"
  shows "canonicalize v = canonicalize w"
  using assms
proof (induction rule: json_equiv.induct)
  case (json_equiv_refl v)
  show ?case ..
next
  case (json_equiv_arr xs ys)
  have "list_all2 (\<lambda>x y. canonicalize x = canonicalize y) xs ys"
    using json_equiv_arr by (auto simp: list_all2_conv_all_nth list_all_length)
  then have "map canonicalize xs = map canonicalize ys"
    by (induction rule: list_all2_induct) auto
  then show ?case by simp
next
  case (json_equiv_obj ys' ys xs)
  have "list_all2 (\<lambda>p q. fst p = fst q \<and> canonicalize (snd p) = canonicalize (snd q)) xs ys'"
    using json_equiv_obj.IH json_equiv_obj.prems
    by (auto simp: list_all2_conv_all_nth list_all_length case_prod_beta)
  then have eq: "map (\<lambda>(k, v). (k, canonicalize v)) xs = map (\<lambda>(k, v). (k, canonicalize v)) ys'"
    by (rule canonicalize_equiv_list)
  have d: "distinct (map fst (map (\<lambda>(k, v). (k, canonicalize v)) xs))"
    using json_equiv_obj.prems by (simp add: comp_def case_prod_beta)
  have "mset (map (\<lambda>(k, v). (k, canonicalize v)) xs) = mset (map (\<lambda>(k, v). (k, canonicalize v)) ys)"
    using json_equiv_obj.hyps(1) eq by simp
  then show ?case using js_sort_pairs_perm [OF _ d] by simp
qed

end
