(* ===== verification/Ledger.thy ===== *)
theory Ledger
  imports Ledger_Utils
begin

text \<open>
  \<open>apps/api/src/ledger/ledger.service.ts\<close>: accounts, posting of balanced journals with an
  idempotency key, reversal, balances and the trial balance. A method given a transaction
  client \<open>tx\<close> is a function of the database that returns the result and the database after
  it; a thrown exception rolls the whole transaction back.
\<close>

section \<open>Inputs and views\<close>

record ensure_account_input =
  ea_code :: string
  ea_name :: string
  ea_accountType :: LedgerAccountType
  ea_purpose :: LedgerAccountPurpose
  ea_ownerType :: LedgerOwnerType
  ea_ownerId :: "string option"
  ea_currency :: "string option"

record ledger_line =
  li_accountId :: string
  li_side :: LedgerEntrySide
  li_amountNgn :: int
  li_memo :: "string option"

record post_input =
  pi_idempotencyKey :: string
  pi_kind :: LedgerTransactionKind
  pi_referenceType :: string
  pi_referenceId :: string
  pi_description :: "string option"
  pi_occurredAt :: "int option"
  pi_metadata :: "json option"
  pi_lines :: "ledger_line list"

record reverse_input =
  ri_originalLedgerTxnId :: string
  ri_idempotencyKey :: string
  ri_referenceType :: string
  ri_referenceId :: string
  ri_description :: "string option"
  ri_metadata :: "json option"

record prepared =
  pr_idempotencyKey :: string
  pr_referenceType :: string
  pr_referenceId :: string
  pr_description :: "string option"
  pr_currency :: string
  pr_lines :: "ledger_line list"
  pr_totalDebitNgn :: int
  pr_fingerprint :: string

text \<open>A journal with its \<open>LEDGER_TRANSACTION_INCLUDE\<close> relations.\<close>

record LedgerTransactionView =
  tv_txn :: ledger_transaction
  tv_entries :: "(ledger_entry \<times> ledger_account option) list"
  tv_reverses :: "ledger_transaction option"
  tv_reversedBy :: "ledger_transaction option"

definition txn_view :: "db \<Rightarrow> ledger_transaction \<Rightarrow> LedgerTransactionView" where
  "txn_view db t =
     \<lparr>tv_txn = t,
      tv_entries = map (\<lambda>e. (e, find_account db (le_accountId e)))
        (sort_key le_lineNo (entries_of db (lt_ledgerTxnId t))),
      tv_reverses = (case lt_reversesLedgerTxnId t of None \<Rightarrow> None | Some o1 \<Rightarrow> find_txn db o1),
      tv_reversedBy = find_reversal_of db (lt_ledgerTxnId t)\<rparr>"

section \<open>Accounts\<close>

definition normalizeAccountInput :: "ensure_account_input \<Rightarrow> ledger_account res" where
  "normalizeAccountInput inp =
     (let code = js_upper (js_trim (ea_code inp));
          name = js_trim (ea_name inp);
          currency = js_upper (js_trim (case ea_currency inp of None \<Rightarrow> ''NGN'' | Some c \<Rightarrow> c)) in
      if code = [] \<or> name = [] then
        Inl (BadRequestException ''Ledger account code and name are required'')
      else if length currency \<noteq> 3 then
        Inl (BadRequestException ''Ledger currency must be a 3-letter currency code'')
      else Inr \<lparr>la_accountId = [], la_code = code, la_name = name,
        la_accountType = ea_accountType inp, la_purpose = ea_purpose inp,
        la_ownerType = ea_ownerType inp, la_ownerId = ea_ownerId inp,
        la_currency = currency, la_status = LAS_ACTIVE\<rparr>)"

definition assertSameAccountIdentity :: "ledger_account \<Rightarrow> ledger_account \<Rightarrow> unit res" where
  "assertSameAccountIdentity existing expected =
     (if la_code existing \<noteq> la_code expected
         \<or> la_accountType existing \<noteq> la_accountType expected
         \<or> la_purpose existing \<noteq> la_purpose expected
         \<or> la_ownerType existing \<noteq> la_ownerType expected
         \<or> la_ownerId existing \<noteq> la_ownerId expected
         \<or> la_currency existing \<noteq> la_currency expected
      then Inl (ConflictException
        (''Ledger account '' @ la_code expected @ '' already exists with different identity''))
      else Inr ())"

text \<open>
  \<open>ensureAccount\<close>: the lookup runs on \<open>db\<close>; the create runs on \<open>cur\<close>, the database at that
  moment, which another application instance may have extended meanwhile. With \<open>cur = db\<close>
  nobody interfered.
\<close>

definition ensureAccount :: "'a env_scheme \<Rightarrow> ensure_account_input \<Rightarrow> db \<Rightarrow> db \<Rightarrow> (ledger_account \<times> db) res" where
  "ensureAccount env inp db cur =
     bind_res (normalizeAccountInput inp) (\<lambda>normalized.
     case find_account_by_code db (la_code normalized) of
       Some existing \<Rightarrow>
         bind_res (assertSameAccountIdentity existing normalized) (\<lambda>_. Inr (existing, cur))
     | None \<Rightarrow>
         (case create_account env cur normalized of
            Inr r \<Rightarrow> Inr r
          | Inl err \<Rightarrow>
              (if is_unique_violation err then
                 (case find_account_by_code cur (la_code normalized) of
                    Some raced \<Rightarrow>
                      bind_res (assertSameAccountIdentity raced normalized) (\<lambda>_. Inr (raced, cur))
                  | None \<Rightarrow> Inl err)
               else Inl err)))"

section \<open>Preparing a journal\<close>

text \<open>The \<open>input.lines.map\<close> callback with its set of accounts already seen.\<close>

fun prepare_lines :: "string list \<Rightarrow> ledger_line list \<Rightarrow> ledger_line list res" where
  "prepare_lines seenAccounts [] = Inr []"
| "prepare_lines seenAccounts (line # lines) =
     (let accountId = js_trim (li_accountId line) in
      if accountId = [] then Inl (BadRequestException ''Ledger accountId is required'')
      else if accountId \<in> set seenAccounts then
        Inl (BadRequestException
          (''Ledger account '' @ accountId @ '' appears more than once in the same transaction''))
      else if \<not> is_safe_integer (li_amountNgn line) \<or> li_amountNgn line \<le> 0 then
        Inl (BadRequestException ''Ledger amounts must be positive whole naira values'')
      else
        bind_res (prepare_lines (accountId # seenAccounts) lines) (\<lambda>rest.
        Inr (\<lparr>li_accountId = accountId, li_side = li_side line, li_amountNgn = li_amountNgn line,
              li_memo = (case li_memo line of None \<Rightarrow> None
                | Some m \<Rightarrow> (if take 300 (js_trim m) = [] then None else Some (take 300 (js_trim m))))\<rparr>
             # rest)))"

definition line_key :: "ledger_line \<Rightarrow> string" where
  "line_key l = li_accountId l @ '':'' @ side_str (li_side l)"

definition sort_lines :: "'a env_scheme \<Rightarrow> ledger_line list \<Rightarrow> ledger_line list" where
  "sort_lines env lines = js_sort (\<lambda>a b. e_localeCompare env (line_key a) (line_key b)) lines"

text \<open>The account checks of \<open>prepare\<close>: all found, all active, one currency, the naira.\<close>

fun check_active :: "ledger_account list \<Rightarrow> unit res" where
  "check_active [] = Inr ()"
| "check_active (a # as) =
     (if la_status a \<noteq> LAS_ACTIVE then
        Inl (ConflictException (''Ledger account '' @ la_code a @ '' is '' @ account_status_str (la_status a)))
      else check_active as)"

definition check_accounts :: "db \<Rightarrow> string list \<Rightarrow> string res" where
  "check_accounts db accountIds =
     (let accs = accounts_in db accountIds in
      if length accs \<noteq> length accountIds then
        Inl (NotFoundException (''Ledger account(s) not found: '' @
          join '', '' (filter (\<lambda>i. i \<notin> set (map la_accountId accs)) accountIds)))
      else
        bind_res (check_active accs) (\<lambda>_.
        case remdups (map la_currency accs) of
          [currency] \<Rightarrow>
            (if currency \<noteq> ''NGN'' then
               Inl (BadRequestException (''Unsupported ledger currency '' @ currency))
             else Inr currency)
        | _ \<Rightarrow> Inl (BadRequestException ''Cross-currency ledger transactions are not supported'')))"

definition line_json :: "ledger_line \<Rightarrow> json" where
  "line_json l = JObj [(''accountId'', JStr (li_accountId l)), (''side'', JStr (side_str (li_side l))),
     (''amountNgn'', JNum (li_amountNgn l)), (''memo'', json_opt (li_memo l))]"

definition fingerprint_json ::
  "post_input \<Rightarrow> string option \<Rightarrow> string \<Rightarrow> ledger_line list \<Rightarrow> json" where
  "fingerprint_json inp reverses currency lines =
     JObj [(''kind'', JStr (kind_str (pi_kind inp))),
       (''referenceType'', JStr (js_trim (pi_referenceType inp))),
       (''referenceId'', JStr (js_trim (pi_referenceId inp))),
       (''description'', json_opt (trim_or_null (pi_description inp))),
       (''currency'', JStr currency),
       (''explicitOccurredAt'', (case pi_occurredAt inp of None \<Rightarrow> JNull | Some t \<Rightarrow> JStr (to_iso_string t))),
       (''reversesLedgerTxnId'', json_opt reverses),
       (''metadata'', (case pi_metadata inp of None \<Rightarrow> JNull | Some m \<Rightarrow> m)),
       (''lines'', JArr (map line_json lines))]"

text \<open>The checks of \<open>prepare\<close> before it reads the accounts; the sorted lines and their totals.\<close>

definition prepare_input :: "'a env_scheme \<Rightarrow> post_input \<Rightarrow> (ledger_line list \<times> int) res" where
  "prepare_input env inp =
     (if js_trim (pi_idempotencyKey inp) = [] then
        Inl (BadRequestException ''Ledger idempotency key is required'')
      else if length (js_trim (pi_idempotencyKey inp)) > 200 then
        Inl (BadRequestException ''Ledger idempotency key is too long'')
      else if js_trim (pi_referenceType inp) = [] \<or> js_trim (pi_referenceId inp) = [] then
        Inl (BadRequestException ''Ledger referenceType and referenceId are required'')
      else if length (pi_lines inp) < 2 then
        Inl (BadRequestException ''A ledger transaction requires at least two entries'')
      else
        bind_res (prepare_lines [] (pi_lines inp)) (\<lambda>lines0.
        let lines = sort_lines env lines0;
            totals = calculateLedgerTotals (map (\<lambda>l. (li_side l, li_amountNgn l)) lines) in
        if \<not> tot_balanced totals then
          Inl (BadRequestException (''Ledger transaction is not balanced: debit=''
            @ int_str (tot_debitNgn totals) @ '', credit='' @ int_str (tot_creditNgn totals)))
        else if tot_debitNgn totals \<le> 0 then
          Inl (BadRequestException ''Ledger transaction total must be greater than zero'')
        else Inr (lines, tot_debitNgn totals)))"

definition prepare :: "'a env_scheme \<Rightarrow> db \<Rightarrow> post_input \<Rightarrow> string option \<Rightarrow> prepared res" where
  "prepare env db inp reverses =
     bind_res (prepare_input env inp) (\<lambda>(lines, total).
     bind_res (check_accounts db (map li_accountId lines)) (\<lambda>currency.
     Inr \<lparr>pr_idempotencyKey = js_trim (pi_idempotencyKey inp),
          pr_referenceType = js_trim (pi_referenceType inp),
          pr_referenceId = js_trim (pi_referenceId inp),
          pr_description = trim_or_null (pi_description inp),
          pr_currency = currency, pr_lines = lines, pr_totalDebitNgn = total,
          pr_fingerprint = e_sha256 env (canonicalJson (fingerprint_json inp reverses currency lines))\<rparr>))"

section \<open>Posting\<close>

definition key_conflict :: error where
  "key_conflict = ConflictException
     ''Ledger idempotency key already exists with different financial data''"

definition line_entry :: "string \<Rightarrow> nat \<Rightarrow> ledger_line \<Rightarrow> ledger_entry" where
  "line_entry txnId no l = \<lparr>le_ledgerTxnId = txnId, le_accountId = li_accountId l, le_lineNo = no,
     le_side = li_side l, le_amountNgn = li_amountNgn l, le_memo = li_memo l\<rparr>"

definition journal_row :: "'a env_scheme \<Rightarrow> post_input \<Rightarrow> string option \<Rightarrow> prepared \<Rightarrow> ledger_transaction" where
  "journal_row env inp reverses p =
     \<lparr>lt_ledgerTxnId = [], lt_idempotencyKey = pr_idempotencyKey p, lt_kind = pi_kind inp,
      lt_referenceType = pr_referenceType p, lt_referenceId = pr_referenceId p,
      lt_description = pr_description p, lt_currency = pr_currency p,
      lt_totalAmountNgn = pr_totalDebitNgn p, lt_entryCount = length (pr_lines p),
      lt_fingerprint = pr_fingerprint p, lt_metadata = pi_metadata inp,
      lt_occurredAt = (case pi_occurredAt inp of None \<Rightarrow> e_now env | Some t \<Rightarrow> t),
      lt_reversesLedgerTxnId = reverses\<rparr>"

definition postInternal ::
  "'a env_scheme \<Rightarrow> post_input \<Rightarrow> string option \<Rightarrow> db \<Rightarrow> (LedgerTransactionView \<times> db) res" where
  "postInternal env inp reverses db =
     bind_res (prepare env db inp reverses) (\<lambda>p.
     case find_txn_by_key db (pr_idempotencyKey p) of
       Some existing \<Rightarrow>
         (if lt_fingerprint existing \<noteq> pr_fingerprint p then Inl key_conflict
          else bind_res (from_option (PrismaError ''P2025'') (find_txn db (lt_ledgerTxnId existing)))
                 (\<lambda>full. Inr (txn_view db full, db)))
     | None \<Rightarrow>
         bind_res (create_txn env db (journal_row env inp reverses p)) (\<lambda>(t, db1).
         let db2 = create_entries db1 (map (\<lambda>(i, l). line_entry (lt_ledgerTxnId t) (i + 1) l)
                     (enumerate 0 (pr_lines p))) in
         bind_res (from_option (PrismaError ''P2025'') (find_txn db2 (lt_ledgerTxnId t)))
           (\<lambda>full. Inr (txn_view db2 full, db2))))"

definition postInTransaction :: "'a env_scheme \<Rightarrow> post_input \<Rightarrow> db \<Rightarrow> (LedgerTransactionView \<times> db) res" where
  "postInTransaction env inp db = postInternal env inp None db"

definition getTransaction :: "db \<Rightarrow> string \<Rightarrow> LedgerTransactionView res" where
  "getTransaction db ledgerTxnId =
     (case find_txn db ledgerTxnId of
        None \<Rightarrow> Inl (NotFoundException ''Ledger transaction not found'')
      | Some t \<Rightarrow> Inr (txn_view db t))"

text \<open>
  \<open>post\<close> runs \<open>postInTransaction\<close> in a serializable transaction of its own. \<open>Commits\<close>: nobody
  interfered. \<open>LostRace cur\<close>: a concurrent transaction won the unique index on the
  idempotency key (or on the reversal link), the attempt was rolled back with P2002 and the
  recovery reads \<open>cur\<close>, the database the winner left.
\<close>

datatype commit = Commits | LostRace db

definition post_recover :: "'a env_scheme \<Rightarrow> post_input \<Rightarrow> db \<Rightarrow> error \<Rightarrow> (LedgerTransactionView \<times> db) res" where
  "post_recover env inp cur err =
     (if is_unique_violation err then
        (case find_txn_by_key cur (js_trim (pi_idempotencyKey inp)) of
           Some existing \<Rightarrow>
             bind_res (prepare env cur inp None) (\<lambda>p.
             if lt_fingerprint existing \<noteq> pr_fingerprint p then Inl key_conflict
             else bind_res (getTransaction cur (lt_ledgerTxnId existing)) (\<lambda>v. Inr (v, cur)))
         | None \<Rightarrow> Inl err)
      else Inl err)"

definition post :: "'a env_scheme \<Rightarrow> post_input \<Rightarrow> commit \<Rightarrow> db \<Rightarrow> (LedgerTransactionView \<times> db) res" where
  "post env inp c db =
     (case postInTransaction env inp db of
        Inl err \<Rightarrow> post_recover env inp db err
      | Inr r \<Rightarrow> (case c of Commits \<Rightarrow> Inr r | LostRace cur \<Rightarrow> post_recover env inp cur unique_violation))"

section \<open>Reversal\<close>

fun flip_side :: "LedgerEntrySide \<Rightarrow> LedgerEntrySide" where
  "flip_side DEBIT = CREDIT"
| "flip_side CREDIT = DEBIT"

definition reversal_line :: "string \<Rightarrow> ledger_entry \<Rightarrow> ledger_line" where
  "reversal_line originalId e = \<lparr>li_accountId = le_accountId e, li_side = flip_side (le_side e),
     li_amountNgn = le_amountNgn e, li_memo = Some (''Reversal of '' @ originalId)\<rparr>"

definition reversal_input :: "reverse_input \<Rightarrow> LedgerTransactionView \<Rightarrow> post_input" where
  "reversal_input inp original =
     (let oid = lt_ledgerTxnId (tv_txn original) in
      \<lparr>pi_idempotencyKey = ri_idempotencyKey inp, pi_kind = REVERSAL,
       pi_referenceType = ri_referenceType inp, pi_referenceId = ri_referenceId inp,
       pi_description = Some (case ri_description inp of None \<Rightarrow> ''Reversal of '' @ oid | Some d \<Rightarrow> d),
       pi_occurredAt = None, pi_metadata = ri_metadata inp,
       pi_lines = map (reversal_line oid \<circ> fst) (tv_entries original)\<rparr>)"

definition reverseInTransaction :: "'a env_scheme \<Rightarrow> reverse_input \<Rightarrow> db \<Rightarrow> (LedgerTransactionView \<times> db) res" where
  "reverseInTransaction env inp db =
     (case find_txn db (ri_originalLedgerTxnId inp) of
        None \<Rightarrow> Inl (NotFoundException ''Original ledger transaction not found'')
      | Some original \<Rightarrow>
          (case find_reversal_of db (lt_ledgerTxnId original) of
             Some alreadyReversed \<Rightarrow>
               (if lt_idempotencyKey alreadyReversed = js_trim (ri_idempotencyKey inp)
                then Inr (txn_view db alreadyReversed, db)
                else Inl (ConflictException ''Ledger transaction has already been reversed''))
           | None \<Rightarrow>
               postInternal env (reversal_input inp (txn_view db original))
                 (Some (lt_ledgerTxnId original)) db))"

definition reverse :: "'a env_scheme \<Rightarrow> reverse_input \<Rightarrow> db \<Rightarrow> (LedgerTransactionView \<times> db) res" where
  "reverse env inp db = reverseInTransaction env inp db"

section \<open>Balances\<close>

text \<open>\<open>groupBy(\<dots>, _sum)\<close>: one row per key that occurs, with the sum of its amounts.\<close>

definition group_sums :: "('k \<Rightarrow> bool) \<Rightarrow> (ledger_entry \<Rightarrow> 'k) \<Rightarrow> ledger_entry list \<Rightarrow> ('k \<times> int) list" where
  "group_sums wanted key es =
     map (\<lambda>k. (k, sum_by le_amountNgn (filter (\<lambda>e. key e = k) es)))
       (remdups (filter wanted (map key es)))"

record account_balance =
  ab_account :: ledger_account
  ab_debitNgn :: int
  ab_creditNgn :: int
  ab_balanceNgn :: int

text \<open>The loop over the grouped rows, which assigns (not adds) each side's sum.\<close>

fun assign_sides :: "(LedgerEntrySide \<times> int) list \<Rightarrow> int \<Rightarrow> int \<Rightarrow> int \<times> int" where
  "assign_sides [] debit credit = (debit, credit)"
| "assign_sides ((side, amount) # rows) debit credit =
     (if side = DEBIT then assign_sides rows amount credit else assign_sides rows debit amount)"

definition getAccountBalance :: "db \<Rightarrow> string \<Rightarrow> account_balance res" where
  "getAccountBalance db accountId =
     (case find_account db accountId of
        None \<Rightarrow> Inl (NotFoundException ''Ledger account not found'')
      | Some account \<Rightarrow>
          (let rows = group_sums (\<lambda>_. True) le_side (filter (\<lambda>e. le_accountId e = accountId) (entries db));
               (debit, credit) = assign_sides rows 0 0 in
           Inr \<lparr>ab_account = account, ab_debitNgn = debit, ab_creditNgn = credit,
                ab_balanceNgn = naturalLedgerBalance (la_accountType account) debit credit\<rparr>))"

record trial_balance =
  tb_currency :: string
  tb_totalDebitNgn :: int
  tb_totalCreditNgn :: int
  tb_balanced :: bool
  tb_accounts :: "account_balance list"

fun trial_loop ::
  "((string \<times> LedgerEntrySide) \<times> int) list \<Rightarrow> (string \<rightharpoonup> int \<times> int) \<Rightarrow> int \<Rightarrow> int
    \<Rightarrow> (string \<rightharpoonup> int \<times> int) \<times> int \<times> int" where
  "trial_loop [] balances totalDebit totalCredit = (balances, totalDebit, totalCredit)"
| "trial_loop (((acc, side), amount) # rows) balances totalDebit totalCredit =
     (let (d, c) = (case balances acc of None \<Rightarrow> (0, 0) | Some dc \<Rightarrow> dc) in
      if side = DEBIT
      then trial_loop rows (balances(acc \<mapsto> (d + amount, c))) (totalDebit + amount) totalCredit
      else trial_loop rows (balances(acc \<mapsto> (d, c + amount))) totalDebit (totalCredit + amount))"

definition trialBalance :: "'a env_scheme \<Rightarrow> db \<Rightarrow> trial_balance" where
  "trialBalance env db =
     (let accs = js_sort (\<lambda>a b. e_dbCollate env (la_code a) (la_code b)) (accounts db);
          rows = group_sums (\<lambda>_. True) (\<lambda>e. (le_accountId e, le_side e)) (entries db);
          (balances, totalDebit, totalCredit) = trial_loop rows Map.empty 0 0 in
      \<lparr>tb_currency = ''NGN'', tb_totalDebitNgn = totalDebit, tb_totalCreditNgn = totalCredit,
       tb_balanced = (totalDebit = totalCredit),
       tb_accounts = map (\<lambda>account.
         let (d, c) = (case balances (la_accountId account) of None \<Rightarrow> (0, 0) | Some dc \<Rightarrow> dc) in
         \<lparr>ab_account = account, ab_debitNgn = d, ab_creditNgn = c,
          ab_balanceNgn = naturalLedgerBalance (la_accountType account) d c\<rparr>) accs\<rparr>)"

end
