(* ===== verification/Ledger_Invariants.thy ===== *)
theory Ledger_Invariants
  imports Ledger
begin

text \<open>
  What the ledger service keeps: the facts \<open>prepare\<close> establishes about a journal, the double
  entry invariant \<open>ledger_ok\<close> and its preservation, the effect of a posting on the balance of
  every account, and the contract \<open>journal_poster\<close> on which the services that post through
  the ledger rely.
\<close>

section \<open>Balances of accounts\<close>

definition entry_debit :: "string \<Rightarrow> ledger_entry \<Rightarrow> int" where
  "entry_debit a e = (if le_accountId e = a then debit_part (le_side e) (le_amountNgn e) else 0)"

definition entry_credit :: "string \<Rightarrow> ledger_entry \<Rightarrow> int" where
  "entry_credit a e = (if le_accountId e = a then credit_part (le_side e) (le_amountNgn e) else 0)"

definition acc_debit :: "db \<Rightarrow> string \<Rightarrow> int" where
  "acc_debit db a = sum_by (entry_debit a) (entries db)"

definition acc_credit :: "db \<Rightarrow> string \<Rightarrow> int" where
  "acc_credit db a = sum_by (entry_credit a) (entries db)"

text \<open>Credit minus debit: the natural balance of a liability.\<close>

definition net :: "db \<Rightarrow> string \<Rightarrow> int" where
  "net db a = acc_credit db a - acc_debit db a"

definition line_net :: "string \<Rightarrow> ledger_line \<Rightarrow> int" where
  "line_net a l = (if li_accountId l = a
     then credit_part (li_side l) (li_amountNgn l) - debit_part (li_side l) (li_amountNgn l) else 0)"

definition lines_net :: "ledger_line list \<Rightarrow> string \<Rightarrow> int" where
  "lines_net ls a = sum_by (line_net a) ls"

lemma net_eq: "net db a = sum_by (\<lambda>e. entry_credit a e - entry_debit a e) (entries db)"
  by (simp add: net_def acc_credit_def acc_debit_def sum_by_diff)

lemma net_cong: "entries db' = entries db \<Longrightarrow> net db' a = net db a"
  by (simp add: net_eq)

section \<open>What prepare establishes\<close>

definition norm_line :: "ledger_line \<Rightarrow> ledger_line" where
  "norm_line l = \<lparr>li_accountId = js_trim (li_accountId l), li_side = li_side l,
     li_amountNgn = li_amountNgn l,
     li_memo = (case li_memo l of None \<Rightarrow> None
       | Some m \<Rightarrow> (if take 300 (js_trim m) = [] then None else Some (take 300 (js_trim m))))\<rparr>"

lemma norm_line_sel [simp]:
  "li_accountId (norm_line l) = js_trim (li_accountId l)"
  "li_side (norm_line l) = li_side l"
  "li_amountNgn (norm_line l) = li_amountNgn l"
  by (simp_all add: norm_line_def)

lemma prepare_lines_ok:
  assumes "prepare_lines seen ls = Inr out"
  shows "out = map norm_line ls \<and> distinct (map li_accountId out) \<and>
    (\<forall>l\<in>set out. li_accountId l \<notin> set seen \<and> li_accountId l \<noteq> [] \<and>
       0 < li_amountNgn l \<and> is_safe_integer (li_amountNgn l))"
  using assms
proof (induction seen ls arbitrary: out rule: prepare_lines.induct)
  case (1 seen)
  then show ?case by simp
next
  case (2 seen line lines)
  let ?a = "js_trim (li_accountId line)"
  from "2.prems" obtain rest where
    c: "?a \<noteq> []" "?a \<notin> set seen" "is_safe_integer (li_amountNgn line)" "0 < li_amountNgn line"
    and r: "prepare_lines (?a # seen) lines = Inr rest" and out: "out = norm_line line # rest"
    by (auto simp: Let_def res_simps norm_line_def)
  note IH = "2.IH" [OF refl c(1,2) _ r]
  show ?case using IH c out by auto
qed

lemma check_active_ok: "check_active as = Inr u \<Longrightarrow> a \<in> set as \<Longrightarrow> la_status a = LAS_ACTIVE"
  by (induction as) (auto split: if_splits)

lemma check_accounts_ok:
  assumes "check_accounts db ids = Inr cur" "distinct ids"
    and "distinct (map la_accountId (accounts db))"
  shows "cur = ''NGN'' \<and> (\<forall>i\<in>set ids. \<exists>a\<in>set (accounts db).
    la_accountId a = i \<and> la_status a = LAS_ACTIVE \<and> la_currency a = ''NGN'')"
proof -
  let ?accs = "accounts_in db ids"
  from assms(1) have len: "length ?accs = length ids" and act: "check_active ?accs = Inr ()"
    and cur: "cur = ''NGN''" and one: "remdups (map la_currency ?accs) = [''NGN'']"
    by (auto simp: check_accounts_def Let_def res_simps split: if_splits list.splits)
  have d: "distinct (map la_accountId ?accs)"
    unfolding accounts_in_def using assms(3) by (rule distinct_map_filter)
  have sub: "set (map la_accountId ?accs) \<subseteq> set ids" by (auto simp: accounts_in_def)
  have "card (set (map la_accountId ?accs)) = card (set ids)"
    using d assms(2) len by (metis distinct_card length_map)
  then have eq: "set (map la_accountId ?accs) = set ids"
    using sub by (simp add: card_subset_eq)
  have ngn: "la_currency a = ''NGN''" if "a \<in> set ?accs" for a
    using one that by (metis image_eqI list.set_map set_remdups singletonD list.simps(15) empty_set)
  show ?thesis
  proof (intro conjI ballI)
    fix i assume "i \<in> set ids"
    then have "i \<in> la_accountId ` set ?accs" using eq by (metis list.set_map)
    then obtain a where "a \<in> set ?accs" "la_accountId a = i" by blast
    then show "\<exists>a\<in>set (accounts db). la_accountId a = i \<and> la_status a = LAS_ACTIVE \<and> la_currency a = ''NGN''"
      using check_active_ok [OF act] ngn by (auto simp: accounts_in_def)
  qed (rule cur)
qed

definition debits :: "ledger_line list \<Rightarrow> int" where
  "debits ls = sum_by (\<lambda>l. debit_part (li_side l) (li_amountNgn l)) ls"

definition credits :: "ledger_line list \<Rightarrow> int" where
  "credits ls = sum_by (\<lambda>l. credit_part (li_side l) (li_amountNgn l)) ls"

lemma prepare_input_ok:
  assumes "prepare_input env inp = Inr (ls, tot)"
  shows "ls = sort_lines env (map norm_line (pi_lines inp)) \<and> 2 \<le> length ls \<and>
    distinct (map li_accountId ls) \<and> (\<forall>l\<in>set ls. 0 < li_amountNgn l \<and> js_trim (li_accountId l) = li_accountId l) \<and>
    debits ls = tot \<and> credits ls = tot \<and> 0 < tot"
proof -
  from assms obtain ls0 where l0: "prepare_lines [] (pi_lines inp) = Inr ls0"
    and len: "2 \<le> length (pi_lines inp)" and ls: "ls = sort_lines env ls0"
    and b: "tot_balanced (calculateLedgerTotals (map (\<lambda>l. (li_side l, li_amountNgn l)) ls))"
    and t: "tot = tot_debitNgn (calculateLedgerTotals (map (\<lambda>l. (li_side l, li_amountNgn l)) ls))"
    and pos: "0 < tot"
    by (auto simp: prepare_input_def Let_def res_simps split: if_splits)
  note p = prepare_lines_ok [OF l0]
  have "debits ls = tot" "credits ls = tot"
    using b t by (simp_all add: calculateLedgerTotals_eq debits_def credits_def comp_def)
  then show ?thesis using p len ls pos by (auto simp: sort_lines_def)
qed

lemma prepare_ok:
  assumes "prepare env db inp rv = Inr p" "distinct (map la_accountId (accounts db))"
  shows "pr_idempotencyKey p = js_trim (pi_idempotencyKey inp)"
    and "pr_lines p = sort_lines env (map norm_line (pi_lines inp))"
    and "2 \<le> length (pr_lines p)" and "distinct (map li_accountId (pr_lines p))"
    and "\<forall>l\<in>set (pr_lines p). 0 < li_amountNgn l \<and> js_trim (li_accountId l) = li_accountId l"
    and "debits (pr_lines p) = pr_totalDebitNgn p" and "credits (pr_lines p) = pr_totalDebitNgn p"
    and "0 < pr_totalDebitNgn p"
    and "\<forall>l\<in>set (pr_lines p). \<exists>a\<in>set (accounts db).
      la_accountId a = li_accountId l \<and> la_status a = LAS_ACTIVE \<and> la_currency a = ''NGN''"
    and "pr_currency p = ''NGN''"
proof -
  from assms(1) obtain ls tot cur where i: "prepare_input env inp = Inr (ls, tot)"
    and c: "check_accounts db (map li_accountId ls) = Inr cur"
    and p: "pr_idempotencyKey p = js_trim (pi_idempotencyKey inp)" "pr_lines p = ls"
      "pr_totalDebitNgn p = tot" "pr_currency p = cur"
    by (auto simp: prepare_def res_simps)
  note k = prepare_input_ok [OF i]
  have "distinct (map li_accountId ls)" using k by blast
  note ck = check_accounts_ok [OF c this assms(2)]
  show "pr_idempotencyKey p = js_trim (pi_idempotencyKey inp)" by (rule p)
  show "pr_lines p = sort_lines env (map norm_line (pi_lines inp))" "2 \<le> length (pr_lines p)"
    "distinct (map li_accountId (pr_lines p))"
    "\<forall>l\<in>set (pr_lines p). 0 < li_amountNgn l \<and> js_trim (li_accountId l) = li_accountId l"
    "debits (pr_lines p) = pr_totalDebitNgn p" "credits (pr_lines p) = pr_totalDebitNgn p"
    "0 < pr_totalDebitNgn p"
    unfolding p(2,3) using k by blast+
  show "\<forall>l\<in>set (pr_lines p). \<exists>a\<in>set (accounts db).
      la_accountId a = li_accountId l \<and> la_status a = LAS_ACTIVE \<and> la_currency a = ''NGN''"
    "pr_currency p = ''NGN''"
    using ck p by simp_all
qed

section \<open>The double entry invariant\<close>

definition journal_ok :: "ledger_transaction \<Rightarrow> ledger_entry list \<Rightarrow> bool" where
  "journal_ok t es \<longleftrightarrow>
     2 \<le> length es \<and> lt_entryCount t = length es \<and> map le_lineNo es = [1..<Suc (length es)] \<and>
     distinct (map le_accountId es) \<and>
     (\<forall>e\<in>set es. 0 < le_amountNgn e \<and> js_trim (le_accountId e) = le_accountId e) \<and>
     sum_by (\<lambda>e. debit_part (le_side e) (le_amountNgn e)) es = lt_totalAmountNgn t \<and>
     sum_by (\<lambda>e. credit_part (le_side e) (le_amountNgn e)) es = lt_totalAmountNgn t \<and>
     0 < lt_totalAmountNgn t \<and> lt_totalAmountNgn t \<le> MAX_INT4"

definition reversal_ids :: "ledger_transaction list \<Rightarrow> string list" where
  "reversal_ids ts = List.map_filter lt_reversesLedgerTxnId ts"

definition ledger_ok :: "db \<Rightarrow> bool" where
  "ledger_ok db \<longleftrightarrow>
     distinct (map la_accountId (accounts db)) \<and> distinct (map la_code (accounts db)) \<and>
     distinct (map lt_ledgerTxnId (txns db)) \<and> distinct (map lt_idempotencyKey (txns db)) \<and>
     distinct (reversal_ids (txns db)) \<and>
     (\<forall>e\<in>set (entries db). le_ledgerTxnId e \<in> lt_ledgerTxnId ` set (txns db)) \<and>
     (\<forall>e\<in>set (entries db). le_accountId e \<in> la_accountId ` set (accounts db)) \<and>
     (\<forall>t\<in>set (txns db). journal_ok t (entries_of db (lt_ledgerTxnId t)))"

lemma ledger_ok_accounts: "ledger_ok db \<Longrightarrow> distinct (map la_accountId (accounts db))"
  by (simp add: ledger_ok_def)

lemma reversal_ids_append [simp]: "reversal_ids (xs @ ys) = reversal_ids xs @ reversal_ids ys"
  by (simp add: reversal_ids_def map_filter_def)

lemma set_reversal_ids: "i \<in> set (reversal_ids ts) \<longleftrightarrow> (\<exists>t\<in>set ts. lt_reversesLedgerTxnId t = Some i)"
  by (force simp: reversal_ids_def map_filter_def)

section \<open>The two outcomes of a posting\<close>

definition journal_entries :: "string \<Rightarrow> ledger_line list \<Rightarrow> ledger_entry list" where
  "journal_entries tid ls = map (\<lambda>(i, l). line_entry tid (i + 1) l) (enumerate 0 ls)"

definition posted_db :: "'a env_scheme \<Rightarrow> post_input \<Rightarrow> string option \<Rightarrow> prepared \<Rightarrow> db \<Rightarrow> db" where
  "posted_db env inp rv p db =
     db\<lparr>txns := txns db @ [(journal_row env inp rv p)\<lparr>lt_ledgerTxnId := e_uuid env (seq db)\<rparr>],
        entries := entries db @ journal_entries (e_uuid env (seq db)) (pr_lines p),
        seq := seq db + 1\<rparr>"

text \<open>
  A posting that succeeds either replays the journal already stored under its key (same
  fingerprint, database unchanged) or appends exactly one journal.
\<close>

lemma postInternal_cases:
  assumes "postInternal env inp rv db = Inr (v, db')"
  obtains (replay) p t where "prepare env db inp rv = Inr p"
      "find_txn_by_key db (js_trim (pi_idempotencyKey inp)) = Some t"
      "lt_fingerprint t = pr_fingerprint p" "db' = db" "\<exists>t'. find_txn db (lt_ledgerTxnId t) = Some t' \<and> v = txn_view db t'"
  | (fresh) p where "prepare env db inp rv = Inr p"
      "find_txn_by_key db (js_trim (pi_idempotencyKey inp)) = None"
      "find_txn db (e_uuid env (seq db)) = None"
      "\<And>r. rv = Some r \<Longrightarrow> find_reversal_of db r = None"
      "pr_totalDebitNgn p \<le> MAX_INT4" "db' = posted_db env inp rv p db"
      "tv_txn v = (journal_row env inp rv p)\<lparr>lt_ledgerTxnId := e_uuid env (seq db)\<rparr>"
      "v = txn_view db' (tv_txn v)"
proof -
  from assms obtain p where p: "prepare env db inp rv = Inr p"
    by (auto simp: postInternal_def res_simps)
  have key: "pr_idempotencyKey p = js_trim (pi_idempotencyKey inp)"
    using p by (auto simp: prepare_def res_simps)
  show thesis
  proof (cases "find_txn_by_key db (pr_idempotencyKey p)")
    case (Some t)
    then show thesis using assms p key replay [of p t]
      by (auto simp: postInternal_def res_simps split: if_splits)
  next
    case None
    let ?row = "(journal_row env inp rv p)\<lparr>lt_ledgerTxnId := e_uuid env (seq db)\<rparr>"
    from assms p None have c: "find_txn db (e_uuid env (seq db)) = None"
      "\<And>r. rv = Some r \<Longrightarrow> find_reversal_of db r = None" "pr_totalDebitNgn p \<le> MAX_INT4"
      and db': "db' = posted_db env inp rv p db"
      and v: "\<exists>t. find_txn db' (e_uuid env (seq db)) = Some t \<and> v = txn_view db' t"
      by (auto simp: postInternal_def res_simps create_txn_def Let_def journal_row_def
          create_entries_def posted_db_def journal_entries_def split: if_splits option.splits)
    have "find_txn db' (e_uuid env (seq db)) = Some ?row"
      using c(1) by (simp add: db' posted_db_def find_txn_def find_append)
    then have "v = txn_view db' ?row" using v by simp
    then show thesis using fresh [of p] p None key c db' by (simp add: txn_view_def)
  qed
qed

lemma posted_db_sel [simp]:
  "accounts (posted_db env inp rv p db) = accounts db"
  "entries (posted_db env inp rv p db) = entries db @ journal_entries (e_uuid env (seq db)) (pr_lines p)"
  "txns (posted_db env inp rv p db) =
     txns db @ [(journal_row env inp rv p)\<lparr>lt_ledgerTxnId := e_uuid env (seq db)\<rparr>]"
  "seq (posted_db env inp rv p db) = seq db + 1"
  by (simp_all add: posted_db_def)

text \<open>The frame of a posting: it writes the journal tables and nothing else.\<close>

definition same_frame :: "db \<Rightarrow> db \<Rightarrow> bool" where
  "same_frame db db' \<longleftrightarrow> (\<exists>ts es n. db' = db\<lparr>txns := ts, entries := es, seq := n\<rparr>)"

lemma same_frame_refl [simp]: "same_frame db db"
proof -
  have "db = db\<lparr>txns := txns db, entries := entries db, seq := seq db\<rparr>" by simp
  then show ?thesis unfolding same_frame_def by blast
qed

lemma same_frame_posted: "same_frame db (posted_db env inp rv p db)"
  unfolding same_frame_def posted_db_def by blast

lemma same_frame_sel:
  assumes "same_frame db db'"
  shows "accounts db' = accounts db" "wallets db' = wallets db" "holds db' = holds db"
    "users db' = users db" "agents db' = agents db" "payments db' = payments db"
    "walletPurchases db' = walletPurchases db" "remittances db' = remittances db" "claims db' = claims db" "draws db' = draws db"
    "tickets db' = tickets db" "jackpotEntries db' = jackpotEntries db"
    "seedCommits db' = seedCommits db" "drawResults db' = drawResults db"
    "accumulations db' = accumulations db" "offers db' = offers db" "auditLog db' = auditLog db"
  using assms by (auto simp: same_frame_def)

lemma postInternal_frame: "postInternal env inp rv db = Inr (v, db') \<Longrightarrow> same_frame db db'"
  by (erule postInternal_cases) (auto simp: same_frame_posted)

section \<open>Sums over the entries of a new journal\<close>

lemma map_enumerate_snd: "map (\<lambda>(i, l). g l) (enumerate n ls) = map g ls"
  by (induction ls arbitrary: n) auto

lemma map_enumerate_fst: "map (\<lambda>(i, l). h i) (enumerate n ls) = map h [n..<n + length ls]"
proof (induction ls arbitrary: n)
  case (Cons l ls)
  have "[n..<n + length (l # ls)] = n # [Suc n..<Suc n + length ls]"
    using upt_conv_Cons [of n "n + Suc (length ls)"] by simp
  then show ?case using Cons [of "Suc n"] by simp
qed simp

lemma map_journal_entries:
  assumes "\<And>i l. f (line_entry tid i l) = g l"
  shows "map f (journal_entries tid ls) = map g ls"
proof -
  have "map f (journal_entries tid ls) = map (\<lambda>(i, l). g l) (enumerate 0 ls)"
    using assms by (auto simp: journal_entries_def)
  then show ?thesis by (simp only: map_enumerate_snd)
qed

lemma sum_journal_entries:
  assumes "\<And>i l. f (line_entry tid i l) = g l"
  shows "sum_by f (journal_entries tid ls) = sum_by g ls"
  using map_journal_entries [where f = f and g = g and tid = tid and ls = ls] assms by simp

lemma length_journal_entries [simp]: "length (journal_entries tid ls) = length ls"
  by (simp add: journal_entries_def)

lemma lineNo_journal_entries: "map le_lineNo (journal_entries tid ls) = [1..<Suc (length ls)]"
proof -
  have "map le_lineNo (journal_entries tid ls) = map (\<lambda>(i, l). Suc i) (enumerate 0 ls)"
    by (simp add: journal_entries_def line_entry_def comp_def case_prod_beta)
  also have "\<dots> = [1..<Suc (length ls)]"
    by (simp only: map_enumerate_fst map_Suc_upt) simp
  finally show ?thesis .
qed

lemma journal_entries_txn: "e \<in> set (journal_entries tid ls) \<Longrightarrow> le_ledgerTxnId e = tid"
  by (auto simp: journal_entries_def line_entry_def)

lemma net_posted:
  "net (posted_db env inp rv p db) a = net db a + lines_net (pr_lines p) a"
proof -
  have "sum_by (\<lambda>e. entry_credit a e - entry_debit a e) (journal_entries (e_uuid env (seq db)) (pr_lines p))
      = sum_by (line_net a) (pr_lines p)"
    by (rule sum_journal_entries) (simp add: entry_credit_def entry_debit_def line_net_def line_entry_def)
  then show ?thesis by (simp add: net_eq lines_net_def)
qed

lemma lines_net_sort [simp]: "lines_net (sort_lines env ls) a = lines_net ls a"
  by (simp add: lines_net_def sort_lines_def)

section \<open>Preservation\<close>

lemma entries_of_fresh:
  assumes "ledger_ok db" "find_txn db i = None"
  shows "entries_of db i = []"
  using assms by (force simp: ledger_ok_def entries_of_def find_txn_def find_None_set filter_empty_conv)

lemma journal_ok_entries:
  assumes "prepare env db inp rv = Inr p" "ledger_ok db" "pr_totalDebitNgn p \<le> MAX_INT4"
  shows "journal_ok ((journal_row env inp rv p)\<lparr>lt_ledgerTxnId := tid\<rparr>) (journal_entries tid (pr_lines p))"
proof -
  note f = prepare_ok [OF assms(1) ledger_ok_accounts [OF assms(2)]]
  have d: "sum_by (\<lambda>e. debit_part (le_side e) (le_amountNgn e)) (journal_entries tid (pr_lines p)) = debits (pr_lines p)"
    unfolding debits_def by (rule sum_journal_entries) (simp add: line_entry_def)
  have c: "sum_by (\<lambda>e. credit_part (le_side e) (le_amountNgn e)) (journal_entries tid (pr_lines p)) = credits (pr_lines p)"
    unfolding credits_def by (rule sum_journal_entries) (simp add: line_entry_def)
  have a: "map le_accountId (journal_entries tid (pr_lines p)) = map li_accountId (pr_lines p)"
    by (rule map_journal_entries) (simp add: line_entry_def)
  have "\<forall>e\<in>set (journal_entries tid (pr_lines p)). 0 < le_amountNgn e \<and> js_trim (le_accountId e) = le_accountId e"
    using f(5) by (auto simp: journal_entries_def line_entry_def in_set_enumerate_eq)
  then show ?thesis
    using f d c a assms(3) by (simp add: journal_ok_def lineNo_journal_entries journal_row_def)
qed

lemma postInternal_ledger_ok:
  assumes "postInternal env inp rv db = Inr (v, db')" "ledger_ok db"
  shows "ledger_ok db'"
  using assms(1)
proof (cases rule: postInternal_cases)
  case (replay p t)
  then show ?thesis using assms(2) by simp
next
  case (fresh p)
  let ?tid = "e_uuid env (seq db)"
  let ?row = "(journal_row env inp rv p)\<lparr>lt_ledgerTxnId := ?tid\<rparr>"
  note f = prepare_ok [OF fresh(1) ledger_ok_accounts [OF assms(2)]]
  have key: "lt_idempotencyKey ?row = js_trim (pi_idempotencyKey inp)"
    using f(1) by (simp add: journal_row_def)
  have new: "?tid \<notin> lt_ledgerTxnId ` set (txns db)"
    using fresh(3) by (auto simp: find_txn_def find_None_set)
  have newkey: "js_trim (pi_idempotencyKey inp) \<notin> lt_idempotencyKey ` set (txns db)"
    using fresh(2) by (auto simp: find_txn_by_key_def find_None_set)
  have newrev: "set (reversal_ids [?row]) \<inter> set (reversal_ids (txns db)) = {}"
    using fresh(4) by (auto simp: set_reversal_ids journal_row_def find_reversal_of_def find_None_set)
  have drev: "distinct (reversal_ids [?row])"
    by (simp add: reversal_ids_def map_filter_def)
  have "map le_accountId (journal_entries ?tid (pr_lines p)) = map li_accountId (pr_lines p)"
    by (rule map_journal_entries) (simp add: line_entry_def)
  then have "le_accountId ` set (journal_entries ?tid (pr_lines p)) = li_accountId ` set (pr_lines p)"
    by (metis list.set_map)
  then have acc: "\<forall>e\<in>set (journal_entries ?tid (pr_lines p)). le_accountId e \<in> la_accountId ` set (accounts db)"
    using f(9) by force
  have es_new: "entries_of db' ?tid = journal_entries ?tid (pr_lines p)"
    using entries_of_fresh [OF assms(2) fresh(3)] journal_entries_txn
    by (auto simp: entries_of_def fresh(6) filter_id_conv)
  have es_old: "entries_of db' (lt_ledgerTxnId t) = entries_of db (lt_ledgerTxnId t)" if "t \<in> set (txns db)" for t
    using new that journal_entries_txn by (fastforce simp: entries_of_def fresh(6) filter_empty_conv)
  have "\<forall>t\<in>set (txns db'). journal_ok t (entries_of db' (lt_ledgerTxnId t))"
    using es_new es_old journal_ok_entries [OF fresh(1) assms(2) fresh(5)] assms(2)
    by (auto simp: fresh(6) ledger_ok_def)
  moreover have "distinct (map lt_ledgerTxnId (txns db'))" "distinct (map lt_idempotencyKey (txns db'))"
    using assms(2) new newkey key by (simp_all add: ledger_ok_def fresh(6))
  moreover have "distinct (reversal_ids (txns db'))"
    using assms(2) newrev drev by (simp add: ledger_ok_def fresh(6) Int_commute)
  moreover have "\<forall>e\<in>set (entries db'). le_ledgerTxnId e \<in> lt_ledgerTxnId ` set (txns db')"
    using assms(2) journal_entries_txn by (auto simp: ledger_ok_def fresh(6))
  moreover have "\<forall>e\<in>set (entries db'). le_accountId e \<in> la_accountId ` set (accounts db')"
    using assms(2) acc by (simp add: ledger_ok_def fresh(6) ball_Un)
  moreover have "distinct (map la_accountId (accounts db'))" "distinct (map la_code (accounts db'))"
    using assms(2) by (simp_all add: ledger_ok_def fresh(6))
  ultimately show ?thesis unfolding ledger_ok_def by blast
qed

lemma create_account_cases:
  assumes "create_account env db a0 = Inr (a, db')"
  shows "a = a0\<lparr>la_accountId := e_uuid env (seq db), la_status := LAS_ACTIVE\<rparr>"
    and "find_account db (la_accountId a) = None" and "find_account_by_code db (la_code a) = None"
    and "db' = db\<lparr>accounts := accounts db @ [a], seq := seq db + 1\<rparr>"
  using assms by (auto simp: create_account_def Let_def split: if_splits)

lemma create_account_ledger_ok:
  assumes "create_account env db a0 = Inr (a, db')" "ledger_ok db"
  shows "ledger_ok db'"
proof -
  note c = create_account_cases [OF assms(1)]
  have "la_accountId a \<notin> la_accountId ` set (accounts db)" "la_code a \<notin> la_code ` set (accounts db)"
    using c(2,3) by (auto simp: find_account_def find_account_by_code_def find_None_set)
  then show ?thesis using assms(2) by (auto simp: c(4) ledger_ok_def entries_of_def)
qed

text \<open>Ensuring an account finds one, or creates it under the normalized identity.\<close>

lemma ensureAccount_cases:
  assumes "ensureAccount env inp db cur = Inr (a, db')"
  obtains (found) n where "normalizeAccountInput inp = Inr n" "assertSameAccountIdentity a n = Inr ()"
      "find_account_by_code db (la_code n) = Some a \<or> find_account_by_code cur (la_code n) = Some a" "db' = cur"
  | (created) n where "normalizeAccountInput inp = Inr n" "find_account_by_code db (la_code n) = None"
      "create_account env cur n = Inr (a, db')"
proof -
  from assms obtain n where n: "normalizeAccountInput inp = Inr n"
    by (auto simp: ensureAccount_def res_simps)
  show thesis
  proof (cases "find_account_by_code db (la_code n)")
    case (Some x)
    then have "assertSameAccountIdentity x n = Inr () \<and> a = x \<and> db' = cur"
      using assms n by (auto simp: ensureAccount_def res_simps)
    then show thesis by (metis Some found n)
  next
    case None
    show thesis
    proof (cases "create_account env cur n")
      case (Inl err)
      then have "\<exists>x. find_account_by_code cur (la_code n) = Some x \<and>
          assertSameAccountIdentity x n = Inr () \<and> a = x \<and> db' = cur"
        using assms n None
        by (simp add: ensureAccount_def res_simps split: option.splits if_splits)
      then show thesis by (metis found n)
    next
      case (Inr r)
      then have "create_account env cur n = Inr (a, db')"
        using assms n None by (simp add: ensureAccount_def)
      then show thesis by (rule created [OF n None])
    qed
  qed
qed

lemma ensureAccount_ledger_ok:
  assumes "ensureAccount env inp db cur = Inr (a, db')" "ledger_ok cur"
  shows "ledger_ok db'"
  using assms(1)
  by (cases rule: ensureAccount_cases) (simp_all add: assms(2) create_account_ledger_ok)

lemma reverse_cases:
  assumes "reverseInTransaction env inp db = Inr (v, db')"
  obtains (replay) o1 r where "find_txn db (ri_originalLedgerTxnId inp) = Some o1"
      "find_reversal_of db (lt_ledgerTxnId o1) = Some r"
      "lt_idempotencyKey r = js_trim (ri_idempotencyKey inp)" "db' = db" "v = txn_view db r"
  | (fresh) o1 where "find_txn db (ri_originalLedgerTxnId inp) = Some o1"
      "find_reversal_of db (lt_ledgerTxnId o1) = None"
      "postInternal env (reversal_input inp (txn_view db o1)) (Some (lt_ledgerTxnId o1)) db = Inr (v, db')"
proof -
  from assms obtain o1 where o1: "find_txn db (ri_originalLedgerTxnId inp) = Some o1"
    by (simp add: reverseInTransaction_def split: option.splits)
  show thesis
  proof (cases "find_reversal_of db (lt_ledgerTxnId o1)")
    case None
    then have "postInternal env (reversal_input inp (txn_view db o1)) (Some (lt_ledgerTxnId o1)) db = Inr (v, db')"
      using assms o1 by (simp add: reverseInTransaction_def)
    then show thesis by (rule fresh [OF o1 None])
  next
    case (Some r)
    then have "lt_idempotencyKey r = js_trim (ri_idempotencyKey inp) \<and> db' = db \<and> v = txn_view db r"
      using assms o1 by (auto simp: reverseInTransaction_def split: if_splits)
    then show thesis by (metis replay o1 Some)
  qed
qed

lemma reverse_ledger_ok:
  assumes "reverseInTransaction env inp db = Inr (v, db')" "ledger_ok db"
  shows "ledger_ok db'"
  using assms(1) by (cases rule: reverse_cases) (auto simp: assms(2) intro: postInternal_ledger_ok)

lemma post_recover_db:
  "post_recover env inp cur err = Inr (v, db') \<Longrightarrow> db' = cur"
  by (auto simp: post_recover_def res_simps split: if_splits option.splits)

section \<open>The contract of a posting\<close>

text \<open>
  What the services that post rely on. \<open>post i\<close> is a posting with the lines \<open>lines i\<close> (as
  stored: account ids trimmed) under the key \<open>key i\<close>: it keeps the double entry invariant,
  writes only the journal tables, and either leaves the database alone because the key is
  taken or moves every account by exactly its lines.
\<close>

locale journal_poster =
  fixes post :: "'i \<Rightarrow> db \<Rightarrow> ('v \<times> db) res"
    and lines :: "'i \<Rightarrow> ledger_line list"
    and key :: "'i \<Rightarrow> string"
  assumes post_ok: "post i db = Inr (v, db') \<Longrightarrow> ledger_ok db \<Longrightarrow> ledger_ok db'"
    and post_frame: "post i db = Inr (v, db') \<Longrightarrow> same_frame db db'"
    and post_replay: "post i db = Inr (v, db') \<Longrightarrow> find_txn_by_key db (key i) \<noteq> None \<Longrightarrow> db' = db"
    and post_net: "post i db = Inr (v, db') \<Longrightarrow> find_txn_by_key db (key i) = None \<Longrightarrow> ledger_ok db \<Longrightarrow>
      net db' a = net db a + lines_net (lines i) a"
    and post_key: "post i db = Inr (v, db') \<Longrightarrow> ledger_ok db \<Longrightarrow>
      find_txn_by_key db' k \<noteq> None \<longleftrightarrow> find_txn_by_key db k \<noteq> None \<or> k = key i"
begin

lemma post_untouched:
  assumes "post i db = Inr (v, db')" "ledger_ok db" "\<And>l. l \<in> set (lines i) \<Longrightarrow> li_accountId l \<noteq> a"
  shows "net db' a = net db a"
proof (cases "find_txn_by_key db (key i) = None")
  case True
  have "lines_net (lines i) a = 0"
    unfolding lines_net_def by (rule sum_by_zero) (use assms(3) in \<open>auto simp: line_net_def\<close>)
  then show ?thesis using post_net [OF assms(1) True assms(2)] by simp
next
  case False
  then show ?thesis using post_replay [OF assms(1)] by simp
qed

text \<open>A two-line journal moves its amount from the debited to the credited liability.\<close>

lemma post_transfer:
  assumes "post i db = Inr (v, db')" "ledger_ok db" "find_txn_by_key db (key i) = None"
    and "map (\<lambda>l. (li_accountId l, li_side l, li_amountNgn l)) (lines i) = [(src, DEBIT, n), (dst, CREDIT, n)]"
    and "src \<noteq> dst"
  shows "net db' src = net db src - n" and "net db' dst = net db dst + n"
    and "a \<noteq> src \<Longrightarrow> a \<noteq> dst \<Longrightarrow> net db' a = net db a"
proof -
  obtain l1 l2 where "lines i = [l1, l2]" "li_accountId l1 = src" "li_side l1 = DEBIT" "li_amountNgn l1 = n"
    "li_accountId l2 = dst" "li_side l2 = CREDIT" "li_amountNgn l2 = n"
    using assms(4) by (auto simp: map_eq_Cons_conv)
  then have "lines_net (lines i) b = (if b = src then - n else 0) + (if b = dst then n else 0)" for b
    by (simp add: lines_net_def line_net_def)
  note n = post_net [OF assms(1,3,2), unfolded this]
  show "net db' src = net db src - n" "net db' dst = net db dst + n"
    "a \<noteq> src \<Longrightarrow> a \<noteq> dst \<Longrightarrow> net db' a = net db a"
    using n assms(5) by simp_all
qed

text \<open>A second delivery of the same journal changes nothing.\<close>

lemma post_twice:
  assumes "post i db = Inr (v, db')" "ledger_ok db" "post i db' = Inr (v', db'')"
  shows "db'' = db'"
  using post_replay [OF assms(3)] post_key [OF assms(1,2)] by blast

end

lemma postInternal_key:
  assumes "postInternal env inp rv db = Inr (v, db')" "ledger_ok db"
  shows "find_txn_by_key db' k \<noteq> None \<longleftrightarrow> find_txn_by_key db k \<noteq> None \<or> k = js_trim (pi_idempotencyKey inp)"
  using assms(1)
proof (cases rule: postInternal_cases)
  case (replay p t)
  then show ?thesis by auto
next
  case (fresh p)
  have "pr_idempotencyKey p = js_trim (pi_idempotencyKey inp)"
    by (rule prepare_ok [OF fresh(1) ledger_ok_accounts [OF assms(2)]])
  then show ?thesis
    by (auto simp: find_txn_by_key_def fresh(6) find_append journal_row_def split: option.splits)
qed

lemma postInternal_net:
  assumes "postInternal env inp rv db = Inr (v, db')" "ledger_ok db"
    and "find_txn_by_key db (js_trim (pi_idempotencyKey inp)) = None"
  shows "net db' a = net db a + lines_net (map norm_line (pi_lines inp)) a"
  using assms(1)
proof (cases rule: postInternal_cases)
  case (replay p t)
  then show ?thesis using assms(3) by simp
next
  case (fresh p)
  have "pr_lines p = sort_lines env (map norm_line (pi_lines inp))"
    by (rule prepare_ok [OF fresh(1) ledger_ok_accounts [OF assms(2)]])
  then show ?thesis by (simp add: fresh(6) net_posted)
qed

interpretation ledger: journal_poster
  "\<lambda>(env, inp). postInTransaction env inp" "\<lambda>(env, inp). map norm_line (pi_lines inp)"
  "\<lambda>(env, inp). js_trim (pi_idempotencyKey inp)"
proof (unfold_locales, goal_cases)
  case (1 i db v db')
  then show ?case by (cases i) (auto simp: postInTransaction_def intro: postInternal_ledger_ok)
next
  case (2 i db v db')
  then show ?case by (cases i) (auto simp: postInTransaction_def intro: postInternal_frame)
next
  case (3 i db v db')
  then show ?case by (cases i) (auto simp: postInTransaction_def elim: postInternal_cases)
next
  case (4 i db v db' a)
  then show ?case by (cases i) (auto simp: postInTransaction_def dest: postInternal_net)
next
  case (5 i db v db' k)
  then show ?case by (cases i) (auto simp: postInTransaction_def dest: postInternal_key)
qed

end
