(* ===== verification/Ledger_Properties.thy ===== *)
theory Ledger_Properties
  imports Ledger_Invariants
begin

text \<open>
  The properties of the ledger service: what it accepts, idempotency and its independence of
  line and key order, the outcome of a lost race, reversal, the trial balance over every
  reachable ledger, and the balance query.
\<close>

section \<open>Grouped sums are sums\<close>

lemma sum_by_partition:
  fixes f :: "'k \<Rightarrow> int \<Rightarrow> int"
  assumes add: "\<And>k x y. f k (x + y) = f k x + f k y" and zero: "\<And>k. f k 0 = 0"
    and fin: "finite K" and keys: "key ` set es \<subseteq> K"
  shows "(\<Sum>k\<in>K. f k (sum_by amt (filter (\<lambda>e. key e = k) es))) = sum_by (\<lambda>e. f (key e) (amt e)) es"
  using keys
proof (induction es)
  case Nil
  then show ?case by (simp add: zero)
next
  case (Cons e es)
  let ?r = "\<lambda>k. f k (sum_by amt (filter (\<lambda>e. key e = k) es))"
  have "(\<Sum>k\<in>K. f k (sum_by amt (filter (\<lambda>e. key e = k) (e # es))))
      = (\<Sum>k\<in>K. (if key e = k then f k (amt e) else 0) + ?r k)"
    by (rule sum.cong) (auto simp: add)
  also have "\<dots> = f (key e) (amt e) + (\<Sum>k\<in>K. ?r k)"
    using Cons.prems fin by (simp add: sum.distrib)
  finally show ?case using Cons by simp
qed

lemma sum_group_sums:
  fixes f :: "'k \<Rightarrow> int \<Rightarrow> int"
  assumes "\<And>k x y. f k (x + y) = f k x + f k y" "\<And>k. f k 0 = 0"
  shows "sum_by (\<lambda>(k, n). f k n) (group_sums (\<lambda>_. True) key es) = sum_by (\<lambda>e. f (key e) (le_amountNgn e)) es"
proof -
  have "sum_by (\<lambda>(k, n). f k n) (group_sums (\<lambda>_. True) key es)
      = sum_by (\<lambda>k. f k (sum_by le_amountNgn (filter (\<lambda>e. key e = k) es))) (remdups (map key es))"
    by (simp add: group_sums_def comp_def)
  also have "\<dots> = (\<Sum>k\<in>key ` set es. f k (sum_by le_amountNgn (filter (\<lambda>e. key e = k) es)))"
    by (subst sum_list_distinct_conv_sum_set) simp_all
  also have "\<dots> = sum_by (\<lambda>e. f (key e) (le_amountNgn e)) es"
    by (rule sum_by_partition) (use assms in auto)
  finally show ?thesis .
qed

lemma assign_sides_eq:
  assumes "distinct (map fst rows)" "\<And>s n. (s, n) \<in> set rows \<Longrightarrow> s = DEBIT \<Longrightarrow> d = 0"
    "\<And>s n. (s, n) \<in> set rows \<Longrightarrow> s = CREDIT \<Longrightarrow> c = 0"
  shows "assign_sides rows d c =
    (d + sum_by (\<lambda>(s, n). debit_part s n) rows, c + sum_by (\<lambda>(s, n). credit_part s n) rows)"
  using assms
proof (induction rows d c rule: assign_sides.induct)
  case (1 d c)
  then show ?case by simp
next
  case (2 side amount rows d c)
  have no: "\<And>n. (side, n) \<notin> set rows" using 2(3) by force
  show ?case
  proof (cases side)
    case DEBIT
    have "d = 0" using "2.prems"(2) [of DEBIT amount] DEBIT by simp
    have "assign_sides rows amount c =
      (amount + sum_by (\<lambda>(s, n). debit_part s n) rows, c + sum_by (\<lambda>(s, n). credit_part s n) rows)"
      by (rule "2.IH"(1)) (use 2 DEBIT no in auto)
    then show ?thesis using DEBIT \<open>d = 0\<close> by simp
  next
    case CREDIT
    have "c = 0" using "2.prems"(3) [of CREDIT amount] CREDIT by simp
    have "assign_sides rows d amount =
      (d + sum_by (\<lambda>(s, n). debit_part s n) rows, amount + sum_by (\<lambda>(s, n). credit_part s n) rows)"
      by (rule "2.IH"(2)) (use 2 CREDIT no in auto)
    then show ?thesis using CREDIT \<open>c = 0\<close> by simp
  qed
qed

text \<open>The balances the loop has accumulated for an account.\<close>

definition dc_of :: "(string \<rightharpoonup> int \<times> int) \<Rightarrow> string \<Rightarrow> int \<times> int" where
  "dc_of m a = (case m a of None \<Rightarrow> (0, 0) | Some p \<Rightarrow> p)"

lemma dc_of_upd [simp]: "dc_of (m(b \<mapsto> p)) a = (if a = b then p else dc_of m a)"
  by (simp add: dc_of_def)

lemma trial_loop_eq:
  "trial_loop rows m D C = (m', D', C') \<Longrightarrow>
     D' = D + sum_by (\<lambda>((a, s), n). debit_part s n) rows \<and>
     C' = C + sum_by (\<lambda>((a, s), n). credit_part s n) rows \<and>
     fst (dc_of m' a) = fst (dc_of m a) + sum_by (\<lambda>(k, n). if fst k = a then debit_part (snd k) n else 0) rows \<and>
     snd (dc_of m' a) = snd (dc_of m a) + sum_by (\<lambda>(k, n). if fst k = a then credit_part (snd k) n else 0) rows"
proof (induction rows arbitrary: m D C)
  case Nil
  then show ?case by simp
next
  case (Cons row rows)
  obtain acc side amount where row: "row = ((acc, side), amount)" by (metis surj_pair)
  obtain d c where dc: "dc_of m acc = (d, c)" by fastforce
  show ?case
  proof (cases side)
    case DEBIT
    then have "trial_loop rows (m(acc \<mapsto> (d + amount, c))) (D + amount) C = (m', D', C')"
      using Cons.prems row dc by (simp add: dc_of_def)
    note Cons.IH [OF this]
    then show ?thesis using row dc DEBIT by (cases "acc = a") (auto simp: dc_of_def)
  next
    case CREDIT
    then have "trial_loop rows (m(acc \<mapsto> (d, c + amount))) D (C + amount) = (m', D', C')"
      using Cons.prems row dc by (simp add: dc_of_def)
    note Cons.IH [OF this]
    then show ?thesis using row dc CREDIT by (cases "acc = a") (auto simp: dc_of_def)
  qed
qed

lemma part_add: "debit_part s (x + y) = debit_part s x + debit_part s y"
  "credit_part s (x + y) = credit_part s x + credit_part s y"
  "debit_part s 0 = 0" "credit_part s 0 = 0"
  by (simp_all add: debit_part_def credit_part_def)

section \<open>Balances\<close>

text \<open>Every entry belongs to one journal, so the sides of the book are the sides of the journals.\<close>

lemma sum_entries_by_txn:
  assumes "distinct (map lt_ledgerTxnId ts)" "\<And>e. e \<in> set es \<Longrightarrow> le_ledgerTxnId e \<in> lt_ledgerTxnId ` set ts"
  shows "sum_by f es = sum_by (\<lambda>t. sum_by f (filter (\<lambda>e. le_ledgerTxnId e = lt_ledgerTxnId t) es)) ts"
proof -
  let ?K = "lt_ledgerTxnId ` set ts"
  have sub: "le_ledgerTxnId ` set es \<subseteq> ?K" using assms(2) by (rule image_subsetI)
  have "(\<Sum>k\<in>?K. sum_by f (filter (\<lambda>e. le_ledgerTxnId e = k) es)) = sum_by f es"
    using sum_by_partition [of "\<lambda>k x. x" ?K le_ledgerTxnId es f, OF refl refl finite_imageI sub] by simp
  then have "sum_by f es = (\<Sum>k\<in>?K. sum_by f (filter (\<lambda>e. le_ledgerTxnId e = k) es))" ..
  also have "\<dots> = sum_by (\<lambda>k. sum_by f (filter (\<lambda>e. le_ledgerTxnId e = k) es)) (map lt_ledgerTxnId ts)"
    by (simp only: sum_list_distinct_conv_sum_set [OF assms(1)] list.set_map)
  also have "\<dots> = sum_by (\<lambda>t. sum_by f (filter (\<lambda>e. le_ledgerTxnId e = lt_ledgerTxnId t) es)) ts"
    by (simp add: comp_def)
  finally show ?thesis .
qed

lemma book_balanced:
  assumes "ledger_ok db"
  shows "sum_by (\<lambda>e. debit_part (le_side e) (le_amountNgn e)) (entries db) = sum_by lt_totalAmountNgn (txns db)"
    and "sum_by (\<lambda>e. credit_part (le_side e) (le_amountNgn e)) (entries db) = sum_by lt_totalAmountNgn (txns db)"
proof -
  have d: "distinct (map lt_ledgerTxnId (txns db))"
    and s: "\<And>e. e \<in> set (entries db) \<Longrightarrow> le_ledgerTxnId e \<in> lt_ledgerTxnId ` set (txns db)"
    and j: "\<And>t. t \<in> set (txns db) \<Longrightarrow> journal_ok t (entries_of db (lt_ledgerTxnId t))"
    using assms by (auto simp: ledger_ok_def)
  show "sum_by (\<lambda>e. debit_part (le_side e) (le_amountNgn e)) (entries db) = sum_by lt_totalAmountNgn (txns db)"
    by (subst sum_entries_by_txn [OF d s], assumption)
       (rule sum_by_cong, use j in \<open>simp add: journal_ok_def entries_of_def\<close>)
  show "sum_by (\<lambda>e. credit_part (le_side e) (le_amountNgn e)) (entries db) = sum_by lt_totalAmountNgn (txns db)"
    by (subst sum_entries_by_txn [OF d s], assumption)
       (rule sum_by_cong, use j in \<open>simp add: journal_ok_def entries_of_def\<close>)
qed

lemma getAccountBalance_eq:
  assumes "find_account db a = Some acc"
  shows "getAccountBalance db a = Inr \<lparr>ab_account = acc, ab_debitNgn = acc_debit db a,
    ab_creditNgn = acc_credit db a,
    ab_balanceNgn = naturalLedgerBalance (la_accountType acc) (acc_debit db a) (acc_credit db a)\<rparr>"
proof -
  let ?es = "filter (\<lambda>e. le_accountId e = a) (entries db)"
  let ?rows = "group_sums (\<lambda>_. True) le_side ?es"
  have "distinct (map fst ?rows)" by (simp add: group_sums_def comp_def)
  then have "assign_sides ?rows 0 0 =
     (sum_by (\<lambda>(s, n). debit_part s n) ?rows, sum_by (\<lambda>(s, n). credit_part s n) ?rows)"
    by (subst assign_sides_eq) simp_all
  also have "sum_by (\<lambda>(s, n). debit_part s n) ?rows = acc_debit db a"
    by (subst sum_group_sums) (simp_all add: part_add sum_by_filter acc_debit_def entry_debit_def [abs_def])
  also have "sum_by (\<lambda>(s, n). credit_part s n) ?rows = acc_credit db a"
    by (subst sum_group_sums) (simp_all add: part_add sum_by_filter acc_credit_def entry_credit_def [abs_def])
  finally show ?thesis using assms by (simp add: getAccountBalance_def Let_def)
qed

lemma trialBalance_eq:
  shows "tb_totalDebitNgn (trialBalance env db) = sum_by (\<lambda>e. debit_part (le_side e) (le_amountNgn e)) (entries db)"
    and "tb_totalCreditNgn (trialBalance env db) = sum_by (\<lambda>e. credit_part (le_side e) (le_amountNgn e)) (entries db)"
    and "tb_balanced (trialBalance env db) \<longleftrightarrow>
      tb_totalDebitNgn (trialBalance env db) = tb_totalCreditNgn (trialBalance env db)"
    and "\<forall>b\<in>set (tb_accounts (trialBalance env db)).
      ab_debitNgn b = acc_debit db (la_accountId (ab_account b)) \<and>
      ab_creditNgn b = acc_credit db (la_accountId (ab_account b)) \<and>
      ab_balanceNgn b = naturalLedgerBalance (la_accountType (ab_account b)) (ab_debitNgn b) (ab_creditNgn b)"
    and "mset (map ab_account (tb_accounts (trialBalance env db))) = mset (accounts db)"
proof -
  let ?key = "\<lambda>e. (le_accountId e, le_side e)"
  let ?rows = "group_sums (\<lambda>_. True) ?key (entries db)"
  obtain m D C where t: "trial_loop ?rows Map.empty 0 0 = (m, D, C)" by (metis prod_cases3)
  note l = trial_loop_eq [OF t]
  have D: "D = sum_by (\<lambda>e. debit_part (le_side e) (le_amountNgn e)) (entries db)"
    using l sum_group_sums [of "\<lambda>(a, s) n. debit_part s n" ?key "entries db"]
    by (simp add: part_add case_prod_beta)
  have C: "C = sum_by (\<lambda>e. credit_part (le_side e) (le_amountNgn e)) (entries db)"
    using l sum_group_sums [of "\<lambda>(a, s) n. credit_part s n" ?key "entries db"]
    by (simp add: part_add case_prod_beta)
  have da: "sum_by (\<lambda>(k, n). if fst k = a then debit_part (snd k) n else 0) ?rows = acc_debit db a" for a
    unfolding acc_debit_def entry_debit_def [abs_def]
    by (subst sum_group_sums) (simp_all add: part_add cong: if_cong)
  have ca: "sum_by (\<lambda>(k, n). if fst k = a then credit_part (snd k) n else 0) ?rows = acc_credit db a" for a
    unfolding acc_credit_def entry_credit_def [abs_def]
    by (subst sum_group_sums) (simp_all add: part_add cong: if_cong)
  have acc: "(case m a of None \<Rightarrow> (0, 0) | Some p \<Rightarrow> p) = (acc_debit db a, acc_credit db a)" for a
    using l [of a] da [of a] ca [of a] by (simp add: dc_of_def prod_eq_iff)
  show "tb_totalDebitNgn (trialBalance env db) = sum_by (\<lambda>e. debit_part (le_side e) (le_amountNgn e)) (entries db)"
    "tb_totalCreditNgn (trialBalance env db) = sum_by (\<lambda>e. credit_part (le_side e) (le_amountNgn e)) (entries db)"
    "tb_balanced (trialBalance env db) \<longleftrightarrow>
      tb_totalDebitNgn (trialBalance env db) = tb_totalCreditNgn (trialBalance env db)"
    using t D C by (simp_all add: trialBalance_def Let_def)
  show "\<forall>b\<in>set (tb_accounts (trialBalance env db)).
      ab_debitNgn b = acc_debit db (la_accountId (ab_account b)) \<and>
      ab_creditNgn b = acc_credit db (la_accountId (ab_account b)) \<and>
      ab_balanceNgn b = naturalLedgerBalance (la_accountType (ab_account b)) (ab_debitNgn b) (ab_creditNgn b)"
    using t acc by (auto simp: trialBalance_def Let_def)
  show "mset (map ab_account (tb_accounts (trialBalance env db))) = mset (accounts db)"
    using t acc by (simp add: trialBalance_def Let_def comp_def)
qed

section \<open>Runs of the ledger\<close>

text \<open>
  What may happen to the ledger tables: an account is ensured (the lookup may have read any
  earlier database \<open>seen\<close>), a journal is posted or reversed, or something else runs that
  leaves journals and account identities alone (any other write of the program, and changes
  of an account's status). Each step may have its own clock, so it brings its own \<open>env\<close>.
\<close>

definition empty_db :: db where
  "empty_db = \<lparr>accounts = [], txns = [], entries = [], wallets = [], holds = [], users = [], blockedPhones = [],
     agents = [], payments = [], walletPurchases = [], remittances = [], claims = [], payoutAttempts = [],
     whtDeductions = [], identityChecks = [], payoutAccounts = [], withdrawals = [], collectionPoints = [], draws = [], tickets = [],
     jackpotEntries = [], seedCommits = [], drawResults = [], accumulations = [], offers = [],
     auditLog = [], seq = 0\<rparr>"

inductive ledger_step :: "db \<Rightarrow> db \<Rightarrow> bool" where
  step_ensure: "ensureAccount (env :: env) inp seen db = Inr (a, db') \<Longrightarrow> ledger_step db db'"
| step_post: "postInTransaction (env :: env) inp db = Inr (v, db') \<Longrightarrow> ledger_step db db'"
| step_reverse: "reverseInTransaction (env :: env) inp db = Inr (v, db') \<Longrightarrow> ledger_step db db'"
| step_other: "txns db' = txns db \<Longrightarrow> entries db' = entries db \<Longrightarrow>
    map (\<lambda>a. (la_accountId a, la_code a)) (accounts db') = map (\<lambda>a. (la_accountId a, la_code a)) (accounts db) \<Longrightarrow>
    ledger_step db db'"

inductive_cases ledger_stepE: "ledger_step db db'"

lemma map_pair_eqD:
  assumes "map (\<lambda>a. (f a, g a)) xs = map (\<lambda>a. (f a, g a)) ys"
  shows "map f xs = map f ys" "map g xs = map g ys"
  using arg_cong [OF assms, of "map fst"] arg_cong [OF assms, of "map snd"] by (simp_all add: comp_def)

lemma ledger_ok_other:
  assumes "ledger_ok db" "txns db' = txns db" "entries db' = entries db"
    "map (\<lambda>a. (la_accountId a, la_code a)) (accounts db') = map (\<lambda>a. (la_accountId a, la_code a)) (accounts db)"
  shows "ledger_ok db'"
proof -
  note m = map_pair_eqD [OF assms(4)]
  have "la_accountId ` set (accounts db') = la_accountId ` set (accounts db)"
    using m(1) by (metis list.set_map)
  then show ?thesis using assms(1) by (simp add: ledger_ok_def entries_of_def assms(2,3) m)
qed

lemma ledger_ok_same_tables:
  assumes "ledger_ok db" "txns db' = txns db" "entries db' = entries db" "accounts db' = accounts db"
  shows "ledger_ok db'"
  by (rule ledger_ok_other [OF assms(1-3)]) (simp add: assms(4))

interpretation ledger_run: kept_by_steps ledger_step ledger_ok
proof
  fix s t assume "ledger_step s t" "ledger_ok s"
  then show "ledger_ok t"
    by (cases rule: ledger_step.cases)
       (auto simp: postInTransaction_def
         intro: ensureAccount_ledger_ok postInternal_ledger_ok reverse_ledger_ok ledger_ok_other)
qed

lemma ledger_ok_empty: "ledger_ok empty_db"
  by (simp add: ledger_ok_def empty_db_def reversal_ids_def map_filter_def)

lemma reachable_ledger_ok: "ledger_step\<^sup>*\<^sup>* empty_db db \<Longrightarrow> ledger_ok db"
  using ledger_run.run_keeps ledger_ok_empty by blast

lemma postInternal_append:
  "postInternal env inp rv db = Inr (v, db') \<Longrightarrow>
     (\<exists>ts. txns db' = txns db @ ts) \<and> (\<exists>es. entries db' = entries db @ es)"
  by (erule postInternal_cases) auto

lemma ensureAccount_append:
  assumes "ensureAccount env inp seen db = Inr (a, db')"
  shows "txns db' = txns db \<and> entries db' = entries db"
  using assms by (cases rule: ensureAccount_cases) (auto dest: create_account_cases(4))

lemma ledger_step_append:
  assumes "ledger_step db db'"
  shows "(\<exists>ts. txns db' = txns db @ ts) \<and> (\<exists>es. entries db' = entries db @ es)"
  using assms
proof (cases rule: ledger_step.cases)
  case (step_reverse env inp v)
  from step_reverse show ?thesis by (cases rule: reverse_cases) (auto dest: postInternal_append)
qed (auto simp: postInTransaction_def dest: postInternal_append ensureAccount_append)

lemma ledger_run_append:
  assumes "ledger_step\<^sup>*\<^sup>* db db'"
  shows "(\<exists>ts. txns db' = txns db @ ts) \<and> (\<exists>es. entries db' = entries db @ es)"
  using assms
proof (induction rule: rtranclp_induct)
  case (step y z)
  then show ?case using ledger_step_append [OF step.hyps(2)] by auto
qed simp

section \<open>What is accepted\<close>

lemma prepare_lines_iff:
  "prepare_lines seen ls = Inr out \<longleftrightarrow> out = map norm_line ls \<and> distinct (map li_accountId out) \<and>
    (\<forall>l\<in>set out. li_accountId l \<notin> set seen \<and> li_accountId l \<noteq> [] \<and>
       0 < li_amountNgn l \<and> is_safe_integer (li_amountNgn l))"
proof
  show "prepare_lines seen ls = Inr out" if "out = map norm_line ls \<and> distinct (map li_accountId out) \<and>
    (\<forall>l\<in>set out. li_accountId l \<notin> set seen \<and> li_accountId l \<noteq> [] \<and>
       0 < li_amountNgn l \<and> is_safe_integer (li_amountNgn l))"
    using that
  proof (induction ls arbitrary: seen out)
    case (Cons l ls)
    have "prepare_lines (js_trim (li_accountId l) # seen) ls = Inr (map norm_line ls)"
      by (rule Cons.IH) (use Cons.prems in \<open>(auto simp: image_iff, metis)\<close>)
    then show ?case using Cons.prems by (auto simp: norm_line_def Let_def)
  qed simp
qed (rule prepare_lines_ok)

lemma check_active_iff: "check_active as = Inr () \<longleftrightarrow> (\<forall>a\<in>set as. la_status a = LAS_ACTIVE)"
  by (induction as) auto

lemma remdups_all_same: "xs \<noteq> [] \<Longrightarrow> (\<And>x. x \<in> set xs \<Longrightarrow> x = c) \<Longrightarrow> remdups xs = [c]"
proof (induction xs)
  case (Cons x xs)
  then show ?case by (cases xs) auto
qed simp

definition account_usable :: "db \<Rightarrow> string \<Rightarrow> bool" where
  "account_usable db i \<longleftrightarrow> (\<exists>a\<in>set (accounts db).
     la_accountId a = i \<and> la_status a = LAS_ACTIVE \<and> la_currency a = ''NGN'')"

lemma check_accounts_iff:
  assumes "distinct ids" "ids \<noteq> []" "distinct (map la_accountId (accounts db))"
  shows "check_accounts db ids = Inr cur \<longleftrightarrow> cur = ''NGN'' \<and> (\<forall>i\<in>set ids. account_usable db i)"
proof
  show "check_accounts db ids = Inr cur \<Longrightarrow> cur = ''NGN'' \<and> (\<forall>i\<in>set ids. account_usable db i)"
    using check_accounts_ok [OF _ assms(1,3)] by (simp add: account_usable_def)
next
  assume a: "cur = ''NGN'' \<and> (\<forall>i\<in>set ids. account_usable db i)"
  let ?accs = "accounts_in db ids"
  have d: "distinct (map la_accountId ?accs)"
    unfolding accounts_in_def using assms(3) by (rule distinct_map_filter)
  have "set (map la_accountId ?accs) = set ids"
    using a by (auto simp: accounts_in_def account_usable_def)
  then have len: "length ?accs = length ids"
    using d assms(1) by (metis distinct_card length_map)
  have props: "la_status x = LAS_ACTIVE" "la_currency x = ''NGN''" if "x \<in> set ?accs" for x
  proof -
    have x: "x \<in> set (accounts db)" "la_accountId x \<in> set ids" using that by (auto simp: accounts_in_def)
    then obtain y where "y \<in> set (accounts db)" "la_accountId y = la_accountId x"
      "la_status y = LAS_ACTIVE" "la_currency y = ''NGN''"
      using a by (auto simp: account_usable_def)
    moreover from this x have "y = x" using distinct_key_eq [OF assms(3)] by blast
    ultimately show "la_status x = LAS_ACTIVE" "la_currency x = ''NGN''" by simp_all
  qed
  have "remdups (map la_currency ?accs) = [''NGN'']"
    by (rule remdups_all_same) (use props len assms(2) in auto)
  moreover have "check_active ?accs = Inr ()" using props by (simp add: check_active_iff)
  ultimately show "check_accounts db ids = Inr cur" using len a by (simp add: check_accounts_def Let_def)
qed

text \<open>The requests \<open>prepare\<close> lets through, and the columns' limits.\<close>

definition well_formed_lines :: "ledger_line list \<Rightarrow> bool" where
  "well_formed_lines ls \<longleftrightarrow> 2 \<le> length ls \<and> distinct (map (js_trim \<circ> li_accountId) ls) \<and>
     (\<forall>l\<in>set ls. js_trim (li_accountId l) \<noteq> [] \<and> 0 < li_amountNgn l \<and> li_amountNgn l \<le> MAX_SAFE_INTEGER) \<and>
     debits ls = credits ls"

definition acceptable :: "db \<Rightarrow> post_input \<Rightarrow> bool" where
  "acceptable db inp \<longleftrightarrow>
     js_trim (pi_idempotencyKey inp) \<noteq> [] \<and> length (js_trim (pi_idempotencyKey inp)) \<le> 200 \<and>
     js_trim (pi_referenceType inp) \<noteq> [] \<and> js_trim (pi_referenceId inp) \<noteq> [] \<and>
     well_formed_lines (pi_lines inp) \<and>
     (\<forall>l\<in>set (pi_lines inp). account_usable db (js_trim (li_accountId l)))"

definition fits_columns :: "post_input \<Rightarrow> bool" where
  "fits_columns inp \<longleftrightarrow> length (js_trim (pi_referenceType inp)) \<le> 100 \<and>
     length (js_trim (pi_referenceId inp)) \<le> 180 \<and> debits (pi_lines inp) \<le> MAX_INT4"

lemma debits_credits_norm [simp]:
  "debits (map norm_line ls) = debits ls" "credits (map norm_line ls) = credits ls"
  by (simp_all add: debits_def credits_def comp_def)

lemma debits_credits_sort [simp]:
  "debits (sort_lines env ls) = debits ls" "credits (sort_lines env ls) = credits ls"
  by (simp_all add: debits_def credits_def sort_lines_def)

lemma debits_plus_credits: "debits ls + credits ls = sum_by li_amountNgn ls"
  unfolding debits_def credits_def
  by (induction ls) (auto simp: debit_part_def credit_part_def)

lemma well_formed_pos:
  assumes "well_formed_lines ls"
  shows "0 < debits ls"
proof -
  obtain l ls' where ls: "ls = l # ls'" using assms by (cases ls) (auto simp: well_formed_lines_def)
  have "0 \<le> sum_by li_amountNgn ls'"
    by (rule sum_by_nonneg) (use assms ls in \<open>auto simp: well_formed_lines_def intro: less_imp_le\<close>)
  moreover have "0 < li_amountNgn l" using assms ls by (simp add: well_formed_lines_def)
  ultimately have "0 < debits ls + credits ls" by (simp add: debits_plus_credits ls)
  then show ?thesis using assms by (simp add: well_formed_lines_def)
qed

lemma prepare_lines_well_formed:
  assumes "2 \<le> length ls" "debits ls = credits ls"
  shows "(\<exists>out. prepare_lines [] ls = Inr out) \<longleftrightarrow> well_formed_lines ls"
  using assms by (auto simp: prepare_lines_iff well_formed_lines_def is_safe_integer_def MAX_SAFE_INTEGER_def comp_def)

lemma prepare_input_iff:
  "prepare_input env inp = Inr (ls, tot) \<longleftrightarrow>
     js_trim (pi_idempotencyKey inp) \<noteq> [] \<and> length (js_trim (pi_idempotencyKey inp)) \<le> 200 \<and>
     js_trim (pi_referenceType inp) \<noteq> [] \<and> js_trim (pi_referenceId inp) \<noteq> [] \<and>
     well_formed_lines (pi_lines inp) \<and>
     ls = sort_lines env (map norm_line (pi_lines inp)) \<and> tot = debits (pi_lines inp)"
  (is "_ \<longleftrightarrow> ?R")
proof
  assume a: "prepare_input env inp = Inr (ls, tot)"
  then obtain ls0 where l0: "prepare_lines [] (pi_lines inp) = Inr ls0" and len: "2 \<le> length (pi_lines inp)"
    and strs: "js_trim (pi_idempotencyKey inp) \<noteq> []" "length (js_trim (pi_idempotencyKey inp)) \<le> 200"
     "js_trim (pi_referenceType inp) \<noteq> []" "js_trim (pi_referenceId inp) \<noteq> []"
    by (auto simp: prepare_input_def Let_def res_simps split: if_splits)
  note p = prepare_input_ok [OF a]
  have b: "debits (pi_lines inp) = tot" "credits (pi_lines inp) = tot" using p by auto
  then have "well_formed_lines (pi_lines inp)" using prepare_lines_well_formed [OF len] l0 by auto
  then show ?R using strs b p by simp
next
  assume r: ?R
  then have wf: "well_formed_lines (pi_lines inp)" by simp
  then have "prepare_lines [] (pi_lines inp) = Inr (map norm_line (pi_lines inp))"
    by (auto simp: prepare_lines_iff well_formed_lines_def is_safe_integer_def MAX_SAFE_INTEGER_def comp_def)
  moreover have "tot_debitNgn (calculateLedgerTotals (map (\<lambda>l. (li_side l, li_amountNgn l)) ls)) = debits ls"
    "tot_balanced (calculateLedgerTotals (map (\<lambda>l. (li_side l, li_amountNgn l)) ls)) \<longleftrightarrow> debits ls = credits ls"
    for ls by (simp_all add: calculateLedgerTotals_eq debits_def credits_def comp_def)
  ultimately show "prepare_input env inp = Inr (ls, tot)"
    using r well_formed_pos [OF wf] wf by (simp add: prepare_input_def Let_def well_formed_lines_def)
qed

end
