(* ===== verification/Ledger_Laws.thy ===== *)
theory Ledger_Laws
  imports Ledger_Properties
begin

text \<open>
  The promises of the ledger service to its callers, as properties: acceptance, the effect of
  a posting, idempotency under retries (independent of the order of lines and of metadata
  keys), the outcome of a lost race, reversal, the trial balance of every reachable ledger,
  append-only journals and account creation under races.
\<close>

section \<open>Acceptance\<close>

lemma accounts_usable_norm:
  "(\<forall>i\<in>set (map li_accountId (sort_lines env (map norm_line ls))). account_usable db i) \<longleftrightarrow>
   (\<forall>l\<in>set ls. account_usable db (js_trim (li_accountId l)))"
  by (simp add: sort_lines_def)

lemma norm_lines_distinct:
  "well_formed_lines ls \<Longrightarrow> distinct (map li_accountId (sort_lines env (map norm_line ls))) \<and>
     map li_accountId (sort_lines env (map norm_line ls)) \<noteq> []"
proof -
  assume wf: "well_formed_lines ls"
  then have "map li_accountId (sort_lines env (map norm_line ls)) \<noteq> []"
    by (auto simp: well_formed_lines_def sort_lines_def dest: arg_cong [of _ _ length])
  moreover have "distinct (map li_accountId (sort_lines env (map norm_line ls)))"
    using wf by (simp add: well_formed_lines_def sort_lines_def comp_def)
  ultimately show ?thesis by blast
qed

definition prepared_of :: "'a env_scheme \<Rightarrow> post_input \<Rightarrow> string option \<Rightarrow> prepared" where
  "prepared_of env inp rv =
     (let ls = sort_lines env (map norm_line (pi_lines inp)) in
      \<lparr>pr_idempotencyKey = js_trim (pi_idempotencyKey inp),
       pr_referenceType = js_trim (pi_referenceType inp),
       pr_referenceId = js_trim (pi_referenceId inp),
       pr_description = trim_or_null (pi_description inp),
       pr_currency = ''NGN'', pr_lines = ls, pr_totalDebitNgn = debits (pi_lines inp),
       pr_fingerprint = e_sha256 env (canonicalJson (fingerprint_json inp rv ''NGN'' ls))\<rparr>)"

lemma prepare_iff:
  assumes "ledger_ok db"
  shows "prepare env db inp rv = Inr p \<longleftrightarrow> acceptable db inp \<and> p = prepared_of env inp rv"
proof
  assume "prepare env db inp rv = Inr p"
  then obtain ls tot cur where i: "prepare_input env inp = Inr (ls, tot)"
    and c: "check_accounts db (map li_accountId ls) = Inr cur"
    and p: "p = \<lparr>pr_idempotencyKey = js_trim (pi_idempotencyKey inp),
       pr_referenceType = js_trim (pi_referenceType inp),
       pr_referenceId = js_trim (pi_referenceId inp),
       pr_description = trim_or_null (pi_description inp),
       pr_currency = cur, pr_lines = ls, pr_totalDebitNgn = tot,
       pr_fingerprint = e_sha256 env (canonicalJson (fingerprint_json inp rv cur ls))\<rparr>"
    by (auto simp: prepare_def res_simps)
  note i' = i [unfolded prepare_input_iff]
  then have wf: "well_formed_lines (pi_lines inp)" by simp
  note nd = norm_lines_distinct [OF wf, of env]
  have "cur = ''NGN'' \<and> (\<forall>i\<in>set (map li_accountId ls). account_usable db i)"
    using c i' check_accounts_iff [of "map li_accountId ls" db cur] nd ledger_ok_accounts [OF assms] by simp
  then show "acceptable db inp \<and> p = prepared_of env inp rv"
    using i' p accounts_usable_norm [of env "pi_lines inp" db] by (simp add: acceptable_def prepared_of_def Let_def)
next
  assume a: "acceptable db inp \<and> p = prepared_of env inp rv"
  let ?ls = "sort_lines env (map norm_line (pi_lines inp))"
  have wf: "well_formed_lines (pi_lines inp)" using a by (simp add: acceptable_def)
  note nd = norm_lines_distinct [OF wf, of env]
  have "prepare_input env inp = Inr (?ls, debits (pi_lines inp))"
    using a by (simp add: prepare_input_iff acceptable_def)
  moreover have "check_accounts db (map li_accountId ?ls) = Inr ''NGN''"
    using check_accounts_iff [of "map li_accountId ?ls" db "''NGN''"] nd ledger_ok_accounts [OF assms]
      a accounts_usable_norm [of env "pi_lines inp" db] by (simp add: acceptable_def)
  ultimately show "prepare env db inp rv = Inr p" using a by (simp add: prepare_def prepared_of_def Let_def)
qed

lemma prepared_of_sel [simp]:
  "pr_idempotencyKey (prepared_of env inp rv) = js_trim (pi_idempotencyKey inp)"
  "pr_lines (prepared_of env inp rv) = sort_lines env (map norm_line (pi_lines inp))"
  "pr_totalDebitNgn (prepared_of env inp rv) = debits (pi_lines inp)"
  "pr_referenceType (prepared_of env inp rv) = js_trim (pi_referenceType inp)"
  "pr_referenceId (prepared_of env inp rv) = js_trim (pi_referenceId inp)"
  by (simp_all add: prepared_of_def Let_def)

lemma postInternal_accepts:
  assumes "ledger_ok db" "find_txn_by_key db (js_trim (pi_idempotencyKey inp)) = None"
    and "find_txn db (e_uuid env (seq db)) = None" "\<And>r. rv = Some r \<Longrightarrow> find_reversal_of db r = None"
  shows "(\<exists>r. postInternal env inp rv db = Inr r) \<longleftrightarrow> acceptable db inp \<and> fits_columns inp"
proof
  assume "\<exists>r. postInternal env inp rv db = Inr r"
  then obtain p where p: "prepare env db inp rv = Inr p"
    and c: "\<exists>r. create_txn env db (journal_row env inp rv p) = Inr r"
    using assms(2) prepare_iff [OF assms(1), of env inp rv]
    by (fastforce simp: postInternal_def res_simps)
  have a: "acceptable db inp" "p = prepared_of env inp rv" using p prepare_iff [OF assms(1)] by blast+
  then show "acceptable db inp \<and> fits_columns inp"
    using c by (auto simp: create_txn_def Let_def journal_row_def fits_columns_def split: if_splits)
next
  assume a: "acceptable db inp \<and> fits_columns inp"
  let ?p = "prepared_of env inp rv"
  have p: "prepare env db inp rv = Inr ?p" using prepare_iff [OF assms(1)] a by blast
  have "create_txn env db (journal_row env inp rv ?p)
      = Inr ((journal_row env inp rv ?p)\<lparr>lt_ledgerTxnId := e_uuid env (seq db)\<rparr>,
         db\<lparr>txns := txns db @ [(journal_row env inp rv ?p)\<lparr>lt_ledgerTxnId := e_uuid env (seq db)\<rparr>], seq := seq db + 1\<rparr>)"
    using a assms(2-4)
    by (auto simp: create_txn_def Let_def journal_row_def fits_columns_def acceptable_def split: option.splits)
  then show "\<exists>r. postInternal env inp rv db = Inr r"
    using p assms(2,3)
    by (auto simp: postInternal_def create_entries_def Let_def find_txn_def find_append)
qed

section \<open>Retries\<close>

text \<open>
  Two requests that mean the same: equal up to surrounding blanks, the order of the lines and
  the order of the keys of the metadata object.
\<close>

definition same_request :: "post_input \<Rightarrow> post_input \<Rightarrow> bool" where
  "same_request i j \<longleftrightarrow>
     js_trim (pi_idempotencyKey i) = js_trim (pi_idempotencyKey j) \<and> pi_kind i = pi_kind j \<and>
     js_trim (pi_referenceType i) = js_trim (pi_referenceType j) \<and>
     js_trim (pi_referenceId i) = js_trim (pi_referenceId j) \<and>
     trim_or_null (pi_description i) = trim_or_null (pi_description j) \<and>
     pi_occurredAt i = pi_occurredAt j \<and>
     mset (map norm_line (pi_lines i)) = mset (map norm_line (pi_lines j)) \<and>
     (case (pi_metadata i, pi_metadata j) of (None, None) \<Rightarrow> True
      | (Some m, Some n) \<Rightarrow> json_wf m \<and> json_equiv m n | _ \<Rightarrow> False)"

lemma line_key_inj:
  assumes "line_key k = line_key l"
  shows "li_accountId k = li_accountId l \<and> li_side k = li_side l"
proof -
  have "rev (line_key k) = rev (line_key l)" using assms by simp
  then show ?thesis by (cases "li_side k"; cases "li_side l") (auto simp: line_key_def)
qed

lemma comparator_key:
  assumes "comparator cmp (k ` S)" "inj_on k S"
  shows "comparator (\<lambda>a b. cmp (k a) (k b)) S"
proof
  fix x y z assume x: "x \<in> S" and y: "y \<in> S"
  show "cmp (k x) (k y) = 0 \<longleftrightarrow> x = y"
    using comparator.cmp_zero [OF assms(1)] assms(2) x y by (simp add: inj_on_eq_iff)
  show "cmp (k x) (k y) < 0 \<longleftrightarrow> 0 < cmp (k y) (k x)"
    using comparator.cmp_anti [OF assms(1)] x y by simp
  assume "z \<in> S" "cmp (k x) (k y) \<le> 0" "cmp (k y) (k z) \<le> 0"
  then show "cmp (k x) (k z) \<le> 0"
    using comparator.cmp_trans [OF assms(1), of "k x" "k y" "k z"] x y by simp
qed

lemma sort_lines_mset:
  assumes cmp: "comparator (e_localeCompare env) (line_key ` set xs)"
    and eq: "mset xs = mset ys" and d: "distinct (map li_accountId xs)"
  shows "sort_lines env xs = sort_lines env ys"
proof -
  have "inj_on line_key (set xs)"
    by (rule inj_onI) (use line_key_inj distinct_key_eq [OF d] in blast)
  from comparator.sort_cong [OF comparator_key [OF cmp this] eq]
  show ?thesis by (simp add: sort_lines_def)
qed

lemma fingerprint_cong:
  assumes same: "same_request i j"
    and lines: "sort_lines env (map norm_line (pi_lines i)) = sort_lines env' (map norm_line (pi_lines j))"
    and hash: "e_sha256 env' = e_sha256 env"
  shows "pr_fingerprint (prepared_of env i rv) = pr_fingerprint (prepared_of env' j rv)"
proof -
  have "canonicalize (case pi_metadata i of None \<Rightarrow> JNull | Some m \<Rightarrow> m) =
      canonicalize (case pi_metadata j of None \<Rightarrow> JNull | Some m \<Rightarrow> m)"
    using same canonicalize_equiv by (auto simp: same_request_def split: option.splits)
  then have "canonicalize (fingerprint_json i rv ''NGN'' (sort_lines env (map norm_line (pi_lines i)))) =
      canonicalize (fingerprint_json j rv ''NGN'' (sort_lines env' (map norm_line (pi_lines j))))"
    using same lines by (simp add: fingerprint_json_def same_request_def)
  then show ?thesis using hash by (simp add: prepared_of_def Let_def canonicalJson_def)
qed

lemma sorted_request_lines:
  assumes "same_request i j" "well_formed_lines (pi_lines i)"
    and "e_localeCompare env' = e_localeCompare env"
    and "comparator (e_localeCompare env) (line_key ` set (map norm_line (pi_lines i)))"
  shows "sort_lines env (map norm_line (pi_lines i)) = sort_lines env' (map norm_line (pi_lines j))"
proof -
  have "distinct (map li_accountId (map norm_line (pi_lines i)))"
    using assms(2) by (simp add: well_formed_lines_def comp_def)
  then have "sort_lines env (map norm_line (pi_lines i)) = sort_lines env (map norm_line (pi_lines j))"
    using sort_lines_mset [OF assms(4)] assms(1) by (simp add: same_request_def)
  then show ?thesis using assms(3) by (simp add: sort_lines_def)
qed

lemma debits_mset: "mset (map norm_line xs) = mset (map norm_line ys) \<Longrightarrow>
    debits xs = debits ys \<and> credits xs = credits ys"
  by (metis debits_credits_norm debits_def credits_def sum_by_mset)

lemma well_formed_lines_norm:
  "well_formed_lines ls \<longleftrightarrow> well_formed_lines (map norm_line ls)"
  by (simp add: well_formed_lines_def comp_def)

lemma well_formed_lines_mset:
  assumes "mset xs = mset ys" "well_formed_lines xs"
  shows "well_formed_lines ys"
proof -
  have "length ys = length xs" using assms(1) by (metis size_mset)
  moreover have "set ys = set xs" using assms(1) by (metis set_mset_mset)
  moreover have "distinct (map (js_trim \<circ> li_accountId) ys) = distinct (map (js_trim \<circ> li_accountId) xs)"
    using assms(1) by (metis mset_eq_imp_distinct_iff mset_map)
  moreover have "debits ys = debits xs" "credits ys = credits xs"
    unfolding debits_def credits_def using sum_by_mset [OF assms(1)] by metis+
  ultimately show ?thesis using assms(2) by (simp add: well_formed_lines_def)
qed

lemma acceptable_same:
  assumes "same_request i j" "acceptable db i"
    and "\<And>a. account_usable db a \<Longrightarrow> a \<in> js_trim ` li_accountId ` set (pi_lines i) \<Longrightarrow> account_usable db' a"
  shows "acceptable db' j"
proof -
  have m: "mset (map norm_line (pi_lines i)) = mset (map norm_line (pi_lines j))"
    using assms(1) by (simp add: same_request_def)
  have "well_formed_lines (pi_lines j)"
    using m assms(2) well_formed_lines_mset well_formed_lines_norm unfolding acceptable_def by blast
  moreover have "norm_line ` set (pi_lines i) = norm_line ` set (pi_lines j)"
    using m by (metis list.set_map set_mset_mset)
  then have ids: "js_trim ` li_accountId ` set (pi_lines i) = js_trim ` li_accountId ` set (pi_lines j)"
    by (drule_tac f = "image li_accountId" in arg_cong) (simp add: image_image)
  have "\<forall>l\<in>set (pi_lines j). account_usable db' (js_trim (li_accountId l))"
  proof
    fix l assume "l \<in> set (pi_lines j)"
    then have l: "js_trim (li_accountId l) \<in> js_trim ` li_accountId ` set (pi_lines i)" using ids by blast
    then have "account_usable db (js_trim (li_accountId l))" using assms(2) by (auto simp: acceptable_def)
    then show "account_usable db' (js_trim (li_accountId l))" using l by (rule assms(3))
  qed
  ultimately show ?thesis using assms(1,2) by (auto simp: acceptable_def same_request_def)
qed

text \<open>After a posting its key finds its journal, and keeps finding it.\<close>

lemma posted_key_found:
  assumes "postInternal env inp rv db = Inr (v, db')" "ledger_ok db"
  shows "\<exists>t. find_txn_by_key db' (js_trim (pi_idempotencyKey inp)) = Some t \<and> tv_txn v = t \<and>
    lt_fingerprint t = pr_fingerprint (prepared_of env inp rv) \<and> acceptable db inp"
  using assms(1)
proof (cases rule: postInternal_cases)
  case (replay p t)
  have p: "p = prepared_of env inp rv" "acceptable db inp"
    using prepare_iff [OF assms(2)] replay(1) by blast+
  have t: "t \<in> set (txns db)" using replay(2) by (auto simp: find_txn_by_key_def dest: find_Some_set)
  have "distinct (map lt_ledgerTxnId (txns db))" using assms(2) by (simp add: ledger_ok_def)
  then have "find_txn db (lt_ledgerTxnId t) = Some t" using t by (simp add: find_txn_def find_key_distinct)
  then show ?thesis using replay p by (auto simp: txn_view_def)
next
  case (fresh p)
  have p: "p = prepared_of env inp rv" "acceptable db inp"
    using prepare_iff [OF assms(2)] fresh(1) by blast+
  show ?thesis using fresh p by (auto simp: find_txn_by_key_def find_append journal_row_def prepared_of_def Let_def)
qed

lemma find_txn_by_key_append:
  "find_txn_by_key db k = Some t \<Longrightarrow> txns db' = txns db @ ts \<Longrightarrow> find_txn_by_key db' k = Some t"
  by (simp add: find_txn_by_key_def find_append)

lemma post_replays:
  assumes "postInTransaction env inp db = Inr (v, db1)" "ledger_ok db" "ledger_step\<^sup>*\<^sup>* db1 db2"
    and "same_request inp inp'" "\<And>l. l \<in> set (pi_lines inp) \<Longrightarrow> account_usable db2 (js_trim (li_accountId l))"
    and "e_sha256 env' = e_sha256 env" "e_localeCompare env' = e_localeCompare env"
    and "comparator (e_localeCompare env) (line_key ` set (map norm_line (pi_lines inp)))"
  shows "\<exists>v'. postInTransaction env' inp' db2 = Inr (v', db2) \<and> tv_txn v' = tv_txn v"
proof -
  obtain t where t: "find_txn_by_key db1 (js_trim (pi_idempotencyKey inp)) = Some t" "tv_txn v = t"
    "lt_fingerprint t = pr_fingerprint (prepared_of env inp None)" "acceptable db inp"
    using posted_key_found [OF assms(1) [unfolded postInTransaction_def] assms(2)] by blast
  have ok1: "ledger_ok db1" using postInternal_ledger_ok assms(1,2) unfolding postInTransaction_def by blast
  have ok2: "ledger_ok db2" by (rule ledger_run.run_keeps [OF assms(3) ok1])
  have t2: "find_txn_by_key db2 (js_trim (pi_idempotencyKey inp')) = Some t"
  proof -
    have "js_trim (pi_idempotencyKey inp') = js_trim (pi_idempotencyKey inp)"
      using assms(4) by (simp add: same_request_def)
    then show ?thesis using ledger_run_append [OF assms(3)] find_txn_by_key_append [OF t(1)] by metis
  qed
  have acc: "acceptable db2 inp'"
    by (rule acceptable_same [OF assms(4) t(4)]) (blast intro: assms(5))
  have wf: "well_formed_lines (pi_lines inp)" using t(4) by (simp add: acceptable_def)
  have p: "prepare env' db2 inp' None = Inr (prepared_of env' inp' None)"
    using prepare_iff [OF ok2] acc by blast
  have fp: "lt_fingerprint t = pr_fingerprint (prepared_of env' inp' None)"
    using fingerprint_cong [OF assms(4) sorted_request_lines [OF assms(4) wf assms(7,8)] assms(6)] t(3) by simp
  have "t \<in> set (txns db2)" using t2 by (auto simp: find_txn_by_key_def dest: find_Some_set)
  then have f: "find_txn db2 (lt_ledgerTxnId t) = Some t"
    using ok2 by (simp add: find_txn_def find_key_distinct ledger_ok_def)
  show ?thesis
    using p t2 fp f t(2) by (simp add: postInTransaction_def postInternal_def txn_view_def)
qed

section \<open>The lost race\<close>

lemma post_lost_race_cases:
  assumes "post env inp (LostRace cur) db = Inr (v, db')" "ledger_ok cur"
    and "\<And>e. postInTransaction env inp db = Inl e \<Longrightarrow> \<not> is_unique_violation e"
  shows "db' = cur \<and> tv_txn v \<in> set (txns cur) \<and> lt_idempotencyKey (tv_txn v) = js_trim (pi_idempotencyKey inp)
    \<and> lt_fingerprint (tv_txn v) = pr_fingerprint (prepared_of env inp None)"
proof -
  have r: "post_recover env inp cur unique_violation = Inr (v, db')"
    using assms(1,3)
    by (auto simp: post_def post_recover_def [of env inp db] split: sum.splits if_splits)
  then obtain t where t: "find_txn_by_key cur (js_trim (pi_idempotencyKey inp)) = Some t"
    by (auto simp: post_recover_def is_unique_violation_def split: option.splits)
  with r obtain p where p: "prepare env cur inp None = Inr p" "lt_fingerprint t = pr_fingerprint p"
    "getTransaction cur (lt_ledgerTxnId t) = Inr v" "db' = cur"
    by (auto simp: post_recover_def is_unique_violation_def res_simps split: if_splits)
  have mem: "t \<in> set (txns cur)" "lt_idempotencyKey t = js_trim (pi_idempotencyKey inp)"
    using t by (auto simp: find_txn_by_key_def dest: find_Some_set)
  have "find_txn cur (lt_ledgerTxnId t) = Some t"
    using mem assms(2) by (simp add: find_txn_def find_key_distinct ledger_ok_def)
  then have "tv_txn v = t" using p(3) by (auto simp: getTransaction_def txn_view_def)
  moreover have "p = prepared_of env inp None" using prepare_iff [OF assms(2)] p(1) by blast
  ultimately show ?thesis using mem p(2,4) by simp
qed

section \<open>Reversal\<close>

lemma sum_by_filter_net:
  "sum_by (\<lambda>e. entry_credit a e - entry_debit a e) (entries db) = net db a"
  by (simp add: net_eq)

text \<open>What one journal moves on an account.\<close>

definition journal_net :: "db \<Rightarrow> string \<Rightarrow> string \<Rightarrow> int" where
  "journal_net db tid a = sum_by (\<lambda>e. entry_credit a e - entry_debit a e) (entries_of db tid)"

lemma journal_accounts_trimmed:
  assumes "ledger_ok db" "find_txn db i = Some t" "e \<in> set (entries_of db i)"
  shows "js_trim (le_accountId e) = le_accountId e"
proof -
  have t: "t \<in> set (txns db)" "lt_ledgerTxnId t = i" using assms(2) by (auto simp: find_txn_def dest: find_Some_set)
  then have "journal_ok t (entries_of db i)" using assms(1) by (auto simp: ledger_ok_def)
  then show ?thesis using assms(3) by (simp add: journal_ok_def)
qed

lemma line_net_reversal:
  "js_trim (le_accountId e) = le_accountId e \<Longrightarrow>
    line_net a (norm_line (reversal_line o1 e)) = - (entry_credit a e - entry_debit a e)"
  by (cases "le_side e") (auto simp: line_net_def reversal_line_def entry_credit_def entry_debit_def)

lemma reversal_lines_net:
  assumes "ledger_ok db" "find_txn db i = Some t"
  shows "lines_net (map norm_line (pi_lines (reversal_input inp (txn_view db t)))) a = - journal_net db i a"
proof -
  have i: "lt_ledgerTxnId t = i" using assms(2) by (auto simp: find_txn_def dest: find_Some_set)
  let ?es = "sort_key le_lineNo (entries_of db i)"
  have "pi_lines (reversal_input inp (txn_view db t)) = map (reversal_line i) ?es"
    using i by (simp add: reversal_input_def txn_view_def Let_def comp_def)
  then have "lines_net (map norm_line (pi_lines (reversal_input inp (txn_view db t)))) a
      = sum_by (\<lambda>e. line_net a (norm_line (reversal_line i e))) ?es"
    by (simp add: lines_net_def comp_def)
  also have "\<dots> = sum_by (\<lambda>e. - (entry_credit a e - entry_debit a e)) ?es"
    by (rule sum_by_cong) (use journal_accounts_trimmed [OF assms] in \<open>simp add: line_net_reversal\<close>)
  also have "\<dots> = sum_by (\<lambda>e. - (entry_credit a e - entry_debit a e)) (entries_of db i)"
    by (rule sum_by_mset) simp
  finally show ?thesis by (simp add: journal_net_def uminus_sum_list_map comp_def)
qed

lemma reversal_nets:
  assumes "reverseInTransaction env inp db = Inr (v, db')" "ledger_ok db"
    and "find_reversal_of db (ri_originalLedgerTxnId inp) = None"
    and "find_txn_by_key db (js_trim (ri_idempotencyKey inp)) = None"
  shows "net db' a = net db a - journal_net db (ri_originalLedgerTxnId inp) a"
    and "find_reversal_of db' (ri_originalLedgerTxnId inp) = Some (tv_txn v)"
    and "lt_idempotencyKey (tv_txn v) = js_trim (ri_idempotencyKey inp)"
    and "\<exists>o1. find_txn db' (ri_originalLedgerTxnId inp) = Some o1"
proof -
  let ?i = "ri_originalLedgerTxnId inp"
  from assms(1) obtain o1 where o1: "find_txn db ?i = Some o1"
    by (auto elim: reverse_cases)
  then have i: "lt_ledgerTxnId o1 = ?i" by (auto simp: find_txn_def dest: find_Some_set)
  let ?r = "reversal_input inp (txn_view db o1)"
  have k: "pi_idempotencyKey ?r = ri_idempotencyKey inp" by (simp add: reversal_input_def Let_def)
  have p: "postInternal env ?r (Some ?i) db = Inr (v, db')"
    using assms(1,3) o1 i by (auto simp: reverseInTransaction_def)
  show "net db' a = net db a - journal_net db ?i a"
    using postInternal_net [OF p assms(2)] assms(4) k reversal_lines_net [OF assms(2) o1, of inp a] by simp
  from p show "find_reversal_of db' ?i = Some (tv_txn v)" "lt_idempotencyKey (tv_txn v) = js_trim (ri_idempotencyKey inp)"
    "\<exists>o1. find_txn db' (ri_originalLedgerTxnId inp) = Some o1"
  proof (atomize(full), cases rule: postInternal_cases)
    case (replay p t)
    then show "find_reversal_of db' ?i = Some (tv_txn v) \<and> lt_idempotencyKey (tv_txn v) = js_trim (ri_idempotencyKey inp)
      \<and> (\<exists>o1. find_txn db' ?i = Some o1)"
      using assms(4) k by simp
  next
    case (fresh p)
    have "pr_idempotencyKey p = js_trim (ri_idempotencyKey inp)"
      using prepare_iff [OF assms(2), of env ?r "Some ?i" p] fresh(1) k by simp
    then show "find_reversal_of db' ?i = Some (tv_txn v) \<and> lt_idempotencyKey (tv_txn v) = js_trim (ri_idempotencyKey inp)
      \<and> (\<exists>o1. find_txn db' ?i = Some o1)"
      using fresh(4,6,7) o1 by (auto simp: find_reversal_of_def find_txn_def find_append journal_row_def)
  qed
qed

section \<open>Ensuring accounts\<close>

lemma ensure_again:
  assumes "ensureAccount env inp db db = Inr (a, db')" "seen = db \<or> seen = db'"
  shows "ensureAccount env' inp seen db' = Inr (a, db')"
  using assms(1)
proof (cases rule: ensureAccount_cases)
  case (found n)
  then show ?thesis using assms(2) by (auto simp: ensureAccount_def)
next
  case (created n)
  note c = create_account_cases [OF created(3)]
  have code: "la_code a = la_code n" using c(1) by simp
  have f: "find_account_by_code db' (la_code n) = Some a"
    using created(2) c(4) code by (simp add: find_account_by_code_def find_append)
  have same: "assertSameAccountIdentity a n = Inr ()" by (simp add: c(1) assertSameAccountIdentity_def)
  have "length (la_code n) \<le> 180 \<and> length (la_name n) \<le> 180 \<and> length (la_currency n) \<le> 3"
    using created(3) by (auto simp: create_account_def Let_def split: if_splits)
  then have "create_account env' db' n = Inl unique_violation"
    using f by (auto simp: create_account_def Let_def)
  then show ?thesis
    using assms(2) created(1,2) f same by (auto simp: ensureAccount_def is_unique_violation_def)
qed

section \<open>A concrete ledger\<close>

text \<open>
  The inputs of the witnesses: two active accounts, the length as digest in place of SHA-256
  and code-unit order in place of the ICU collation.
\<close>

definition ex_env :: env where
  "ex_env = \<lparr>e_uuid = (\<lambda>n. CHR ''u'' # nat_str n), e_now = 1780000000000, e_sha256 = (\<lambda>s. nat_str (length s)),
     e_localeCompare = str_cmp, e_dbCollate = str_cmp, e_requestId = None\<rparr>"

definition ex_account :: "string \<Rightarrow> LedgerAccountType \<Rightarrow> ledger_account" where
  "ex_account i ty = \<lparr>la_accountId = i, la_code = i, la_name = i, la_accountType = ty,
     la_purpose = SUSPENSE, la_ownerType = SYSTEM, la_ownerId = None, la_currency = ''NGN'',
     la_status = LAS_ACTIVE\<rparr>"

definition ex_db :: db where
  "ex_db = empty_db\<lparr>accounts := [ex_account ''A'' ASSET, ex_account ''B'' LIABILITY]\<rparr>"

definition ex_post :: post_input where
  "ex_post = \<lparr>pi_idempotencyKey = ''k1'', pi_kind = FUNDING, pi_referenceType = ''PAYMENT'',
     pi_referenceId = ''p1'', pi_description = None, pi_occurredAt = None,
     pi_metadata = Some (JObj [(''b'', JNum 1), (''a'', JNum 2)]),
     pi_lines = [\<lparr>li_accountId = '' A'', li_side = DEBIT, li_amountNgn = 500, li_memo = None\<rparr>,
                 \<lparr>li_accountId = ''B'', li_side = CREDIT, li_amountNgn = 500, li_memo = Some ''x''\<rparr>]\<rparr>"

text \<open>The same journal, written the other way round.\<close>

definition ex_post' :: post_input where
  "ex_post' = ex_post\<lparr>pi_idempotencyKey := '' k1 '',
     pi_metadata := Some (JObj [(''a'', JNum 2), (''b'', JNum 1)]),
     pi_lines := rev (pi_lines ex_post)\<rparr>"

text \<open>The database after posting \<open>ex_post\<close>, written out.\<close>

definition ex_posted :: db where
  "ex_posted = ex_db\<lparr>
     txns := [\<lparr>lt_ledgerTxnId = ''u0'', lt_idempotencyKey = ''k1'', lt_kind = FUNDING,
       lt_referenceType = ''PAYMENT'', lt_referenceId = ''p1'', lt_description = None,
       lt_currency = ''NGN'', lt_totalAmountNgn = 500, lt_entryCount = 2, lt_fingerprint = ''309'',
       lt_metadata = Some (JObj [(''b'', JNum 1), (''a'', JNum 2)]), lt_occurredAt = 1780000000000,
       lt_reversesLedgerTxnId = None\<rparr>],
     entries := [\<lparr>le_ledgerTxnId = ''u0'', le_accountId = ''A'', le_lineNo = 1, le_side = DEBIT,
         le_amountNgn = 500, le_memo = None\<rparr>,
       \<lparr>le_ledgerTxnId = ''u0'', le_accountId = ''B'', le_lineNo = 2, le_side = CREDIT,
         le_amountNgn = 500, le_memo = Some ''x''\<rparr>],
     seq := 1\<rparr>"

definition ex_reverse :: reverse_input where
  "ex_reverse = \<lparr>ri_originalLedgerTxnId = ''u0'', ri_idempotencyKey = ''r1'', ri_referenceType = ''X'',
     ri_referenceId = ''x'', ri_description = None, ri_metadata = None\<rparr>"

lemma ex_posts: "\<exists>v. postInTransaction ex_env ex_post ex_db = Inr (v, ex_posted)"
proof -
  have "case postInTransaction ex_env ex_post ex_db of Inr (v, d) \<Rightarrow> d = ex_posted | Inl _ \<Rightarrow> False"
    by code_simp
  then show ?thesis by (auto split: sum.splits)
qed

lemma ex_reverses: "\<exists>v db'. reverseInTransaction ex_env ex_reverse ex_posted = Inr (v, db') \<and> length (txns db') = 2"
proof -
  have "case reverseInTransaction ex_env ex_reverse ex_posted of Inr (v, d) \<Rightarrow> length (txns d) = 2 | Inl _ \<Rightarrow> False"
    by code_simp
  then show ?thesis by (auto split: sum.splits)
qed

lemma ex_posted_ok: "ledger_ok ex_posted"
  by code_simp

lemma ex_ledger_ok: "ledger_ok ex_db"
  by code_simp

lemma ex_cmp: "comparator (e_localeCompare ex_env) A"
proof
  show "e_localeCompare ex_env x y = 0 \<longleftrightarrow> x = y" for x y
    by (simp add: ex_env_def str_cmp_zero)
  show "e_localeCompare ex_env x y < 0 \<longleftrightarrow> 0 < e_localeCompare ex_env y x" for x y
    using str_cmp_neg [of y x] by (simp add: ex_env_def)
  show "e_localeCompare ex_env x y \<le> 0 \<Longrightarrow> e_localeCompare ex_env y z \<le> 0 \<Longrightarrow>
      e_localeCompare ex_env x z \<le> 0" for x y z
    by (simp add: ex_env_def) (rule str_cmp_trans)
qed

lemma ex_same: "same_request ex_post ex_post'"
proof -
  have "json_equiv (JObj [(''b'', JNum 1), (''a'', JNum 2)]) (JObj [(''a'', JNum 2), (''b'', JNum 1)])"
    by (rule json_equiv_obj [of "[(''b'', JNum 1), (''a'', JNum 2)]"]) (auto intro: json_equiv_refl)
  moreover have "js_trim '' k1 '' = js_trim ''k1''" by code_simp
  ultimately show ?thesis by (simp add: same_request_def ex_post_def ex_post'_def)
qed

lemma entries_of_append_kept:
  assumes "ledger_step db db'" "t \<in> set (txns db)" "ledger_ok db"
  shows "entries_of db' (lt_ledgerTxnId t) = entries_of db (lt_ledgerTxnId t)"
proof -
  have post: "entries_of db2 (lt_ledgerTxnId t) = entries_of db (lt_ledgerTxnId t)"
    if "postInternal env inp rv db = Inr (v, db2)" for env inp rv v db2
    using that
  proof (cases rule: postInternal_cases)
    case (fresh p)
    have "lt_ledgerTxnId t \<noteq> e_uuid env (seq db)"
      using fresh(3) assms(2) by (auto simp: find_txn_def find_None_set)
    then show ?thesis using journal_entries_txn by (fastforce simp: entries_of_def fresh(6) filter_empty_conv)
  qed simp
  from assms(1) show ?thesis
  proof (cases rule: ledger_step.cases)
    case (step_reverse env inp v)
    from step_reverse show ?thesis by (cases rule: reverse_cases) (auto intro: post)
  qed (auto simp: postInTransaction_def entries_of_def [of _ "lt_ledgerTxnId t"]
         dest: ensureAccount_append post)
qed

lemma run_journal_kept:
  assumes "ledger_step\<^sup>*\<^sup>* db db'" "ledger_ok db" "t \<in> set (txns db)"
  shows "t \<in> set (txns db') \<and> entries_of db' (lt_ledgerTxnId t) = entries_of db (lt_ledgerTxnId t)"
  using assms(1)
proof (induction rule: rtranclp_induct)
  case base
  then show ?case using assms(3) by simp
next
  case (step y z)
  have "ledger_ok y" by (rule ledger_run.run_keeps [OF step.hyps(1) assms(2)])
  then show ?case
    using entries_of_append_kept [OF step.hyps(2)] ledger_step_append [OF step.hyps(2)] step.IH by auto
qed

section \<open>Properties\<close>



text \<open>C10. Which journals are accepted: with an unused idempotency key and a fresh id, a posting
  succeeds exactly when its key and references are non-blank and fit, it has at least two
  lines on distinct, existing, active naira accounts, every amount is a positive safe
  integer, debits equal credits and the total fits the 32-bit column. Nothing else is
  refused, and nothing unbalanced gets in.\<close>

theorem post_accepts_iff:
  assumes "ledger_ok db" "find_txn_by_key db (js_trim (pi_idempotencyKey inp)) = None"
    and "find_txn db (e_uuid env (seq db)) = None"
  shows "(\<exists>r. postInTransaction env inp db = Inr r) \<longleftrightarrow> acceptable db inp \<and> fits_columns inp"
  unfolding postInTransaction_def by (rule postInternal_accepts [OF assms]) simp

theorem post_accepts_iff_witness: "\<exists>r. postInTransaction ex_env ex_post ex_db = Inr r"
proof -
  have "find_txn_by_key ex_db (js_trim (pi_idempotencyKey ex_post)) = None"
    "find_txn ex_db (e_uuid ex_env (seq ex_db)) = None" "acceptable ex_db ex_post \<and> fits_columns ex_post"
    by code_simp+
  then show ?thesis using post_accepts_iff [OF ex_ledger_ok, of ex_post ex_env] by blast
qed

text \<open>C12. What a posting does: it keeps the double entry invariant (every journal balanced, ids,
  keys and reversal links unique, no orphan entries), writes no table but the journal's, and
  moves the balance of each account by exactly the lines of the request, once: a request
  whose key is known moves nothing.\<close>

theorem post_effect:
  assumes "postInTransaction env inp db = Inr (v, db')" "ledger_ok db"
  shows "ledger_ok db' \<and> same_frame db db' \<and>
    (\<forall>a. net db' a = net db a + (if find_txn_by_key db (js_trim (pi_idempotencyKey inp)) = None
       then sum_by (\<lambda>l. if js_trim (li_accountId l) \<noteq> a then 0
         else if li_side l = CREDIT then li_amountNgn l else - li_amountNgn l) (pi_lines inp) else 0))"
proof -
  have "lines_net (map norm_line (pi_lines inp)) a = sum_by (\<lambda>l. if js_trim (li_accountId l) \<noteq> a then 0
         else if li_side l = CREDIT then li_amountNgn l else - li_amountNgn l) (pi_lines inp)" for a
    unfolding lines_net_def map_map comp_def
    by (rule sum_by_cong)
       (simp add: line_net_def debit_part_def credit_part_def, metis LedgerEntrySide.exhaust)
  note lines = this
  have r: "find_txn_by_key db (js_trim (pi_idempotencyKey inp)) \<noteq> None \<Longrightarrow> db' = db"
    using ledger.post_replay [of "(env, inp)" db v db'] assms(1) by simp
  have f: "find_txn_by_key db (js_trim (pi_idempotencyKey inp)) = None \<Longrightarrow>
      net db' a = net db a + lines_net (map norm_line (pi_lines inp)) a" for a
    using ledger.post_net [of "(env, inp)" db v db' a] assms by simp
  have "ledger_ok db'" "same_frame db db'"
    using ledger.post_ok [of "(env, inp)" db v db'] ledger.post_frame [of "(env, inp)" db v db'] assms by simp_all
  then show ?thesis using r f lines
    by (cases "find_txn_by_key db (js_trim (pi_idempotencyKey inp)) = None") auto
qed

theorem post_effect_witness:
  "net ex_posted ''B'' = net ex_db ''B'' + 500"
proof -
  obtain v where p: "postInTransaction ex_env ex_post ex_db = Inr (v, ex_posted)"
    using ex_posts by blast
  have "find_txn_by_key ex_db (js_trim (pi_idempotencyKey ex_post)) = None" by code_simp
  moreover have "sum_by (\<lambda>l. if js_trim (li_accountId l) \<noteq> ''B'' then 0
         else if li_side l = CREDIT then li_amountNgn l else - li_amountNgn l) (pi_lines ex_post) = 500"
    by code_simp
  ultimately show ?thesis using post_effect [OF p ex_ledger_ok] by simp
qed



text \<open>When \<open>post\<close> loses a race on the idempotency key to a concurrent transaction, it writes
  nothing: it either throws or returns the winner's journal, whose key and fingerprint are
  the ones of this request.\<close>

theorem post_lost_race:
  assumes "post env inp (LostRace cur) db = Inr (v, db')" "ledger_ok cur"
    and "\<And>e. postInTransaction env inp db = Inl e \<Longrightarrow> \<not> is_unique_violation e"
  shows "db' = cur \<and> tv_txn v \<in> set (txns cur) \<and>
    lt_idempotencyKey (tv_txn v) = js_trim (pi_idempotencyKey inp) \<and>
    lt_fingerprint (tv_txn v) = pr_fingerprint (prepared_of env inp None)"
  using assms by (rule post_lost_race_cases)

theorem post_lost_race_witness:
  "\<exists>v. post ex_env ex_post (LostRace ex_posted) ex_db
      = Inr (v, ex_posted) \<and>
    tv_txn v \<in> set (txns ex_posted)"
proof -
  have "case post ex_env ex_post (LostRace ex_posted) ex_db of Inr _ \<Rightarrow> True | Inl _ \<Rightarrow> False" by code_simp
  then obtain v db' where p: "post ex_env ex_post (LostRace ex_posted) ex_db = Inr (v, db')"
    by (auto split: sum.splits)
  have n: "\<And>e. postInTransaction ex_env ex_post ex_db = Inl e \<Longrightarrow> \<not> is_unique_violation e"
    using ex_posts by auto
  show ?thesis using post_lost_race [OF p ex_posted_ok n] p by auto
qed

text \<open>C34. A reversal undoes its journal: every account moves back by exactly what the original
  journal moved it, the reversal is linked to the original, and from then on a reversal of
  the same journal under any other key is refused with a conflict.\<close>

theorem reversal_undoes:
  assumes "reverseInTransaction env inp db = Inr (v, db')" "ledger_ok db"
    and "find_reversal_of db (ri_originalLedgerTxnId inp) = None"
    and "find_txn_by_key db (js_trim (ri_idempotencyKey inp)) = None"
  shows "ledger_ok db' \<and>
    (\<forall>a. net db' a = net db a - journal_net db (ri_originalLedgerTxnId inp) a) \<and>
    (\<forall>env' inp'. ri_originalLedgerTxnId inp' = ri_originalLedgerTxnId inp \<longrightarrow>
       js_trim (ri_idempotencyKey inp') \<noteq> js_trim (ri_idempotencyKey inp) \<longrightarrow>
       reverseInTransaction (env' :: env) inp' db' = Inl (ConflictException ''Ledger transaction has already been reversed''))"
proof -
  note r = reversal_nets [OF assms]
  obtain o1 where o1: "find_txn db' (ri_originalLedgerTxnId inp) = Some o1" using r(4) by blast
  then have "lt_ledgerTxnId o1 = ri_originalLedgerTxnId inp" by (auto simp: find_txn_def dest: find_Some_set)
  then have "reverseInTransaction env' inp' db' = Inl (ConflictException ''Ledger transaction has already been reversed'')"
    if "ri_originalLedgerTxnId inp' = ri_originalLedgerTxnId inp"
      "js_trim (ri_idempotencyKey inp') \<noteq> js_trim (ri_idempotencyKey inp)" for env' :: env and inp'
    using that o1 r(2,3) by (auto simp: reverseInTransaction_def)
  then show ?thesis using r(1) reverse_ledger_ok [OF assms(1,2)] by blast
qed

theorem reversal_undoes_witness:
  "\<exists>v db'. reverseInTransaction ex_env ex_reverse ex_posted = Inr (v, db') \<and>
     net db' ''B'' = net ex_posted ''B'' - 500"
proof -
  obtain v db' where r: "reverseInTransaction ex_env ex_reverse ex_posted = Inr (v, db')"
    using ex_reverses by blast
  have h: "find_reversal_of ex_posted (ri_originalLedgerTxnId ex_reverse) = None"
    "find_txn_by_key ex_posted (js_trim (ri_idempotencyKey ex_reverse)) = None"
    "journal_net ex_posted (ri_originalLedgerTxnId ex_reverse) ''B'' = 500"
    by code_simp+
  show ?thesis using reversal_undoes [OF r ex_posted_ok h(1,2)] h(3) r by auto
qed

text \<open>Journals are immutable: whatever runs later (postings, reversals, account creation,
  status changes), a posted journal keeps its row and all of its entries.\<close>

theorem journal_immutable:
  assumes "ledger_step\<^sup>*\<^sup>* db db'" "ledger_ok db" "t \<in> set (txns db)"
  shows "t \<in> set (txns db') \<and> entries_of db' (lt_ledgerTxnId t) = entries_of db (lt_ledgerTxnId t)"
  using assms by (rule run_journal_kept)

theorem journal_immutable_witness:
  "\<exists>db' t. t \<in> set (txns ex_posted) \<and> length (txns db') = 2 \<and>
     t \<in> set (txns db') \<and> length (entries_of db' (lt_ledgerTxnId t)) = 2"
proof -
  obtain v db' where r: "reverseInTransaction ex_env ex_reverse ex_posted = Inr (v, db')" "length (txns db') = 2"
    using ex_reverses by blast
  have m: "hd (txns ex_posted) \<in> set (txns ex_posted)"
    "length (entries_of ex_posted (lt_ledgerTxnId (hd (txns ex_posted)))) = 2"
    by code_simp+
  have "ledger_step\<^sup>*\<^sup>* ex_posted db'" using step_reverse [OF r(1)] by blast
  then show ?thesis using journal_immutable [OF _ ex_posted_ok m(1)] m r(2) by metis
qed

text \<open>Ensuring an account is idempotent and race-free: once an account has been ensured, the
  same request returns the very same account and writes nothing, also for a caller whose
  lookup ran before the account existed and whose create then hits the unique index.\<close>

theorem ensure_account_idempotent:
  assumes "ensureAccount env inp db db = Inr (a, db')" "seen = db \<or> seen = db'"
  shows "ensureAccount env' inp seen db' = Inr (a, db')"
  using assms by (rule ensure_again)

definition ex_ensure :: ensure_account_input where
  "ex_ensure = \<lparr>ea_code = '' cash'', ea_name = ''Cash'', ea_accountType = ASSET, ea_purpose = BANK_CASH,
     ea_ownerType = SYSTEM, ea_ownerId = None, ea_currency = None\<rparr>"

theorem ensure_account_idempotent_witness:
  "\<exists>a db'. length (accounts db') = 3 \<and> ensureAccount ex_env ex_ensure ex_db db' = Inr (a, db')"
proof -
  have "case ensureAccount ex_env ex_ensure ex_db ex_db of Inr (a, db') \<Rightarrow> length (accounts db') = 3 | Inl _ \<Rightarrow> False"
    by code_simp
  then obtain a db' where e: "ensureAccount ex_env ex_ensure ex_db ex_db = Inr (a, db')"
    and l: "length (accounts db') = 3"
    by (auto split: sum.splits)
  show ?thesis using ensure_account_idempotent [OF e, of ex_db ex_env] l by auto
qed

text \<open>The idempotency fingerprint does not depend on the order in which the keys of a JSON
  object were written, at any depth.\<close>

theorem canonical_json_order:
  assumes "json_equiv v w" "json_wf v"
  shows "canonicalJson v = canonicalJson w"
  using canonicalize_equiv [OF assms] by (simp add: canonicalJson_def)

theorem canonical_json_order_witness:
  "canonicalJson (JObj [(''b'', JNum 1), (''a'', JNull)]) = canonicalJson (JObj [(''a'', JNull), (''b'', JNum 1)])"
  by (rule canonical_json_order, rule json_equiv_obj [of "[(''b'', JNum 1), (''a'', JNull)]"])
     (auto intro: json_equiv_refl)

end
