(* ===== verification/Ledger_Chart.thy ===== *)
theory Ledger_Chart
  imports Ledger_Laws
begin

text \<open>
  \<open>ledger.constants.ts\<close> and \<open>ledger-bootstrap.service.ts\<close>: the chart of system accounts and
  the bootstrap that ensures it when the module starts.
\<close>

section \<open>The chart\<close>

definition PAYSTACK_CLEARING_CODE :: string where "PAYSTACK_CLEARING_CODE = ''SYS:PSP:PAYSTACK''"
definition PAYSTACK_PAYOUT_CLEARING_CODE :: string where "PAYSTACK_PAYOUT_CLEARING_CODE = ''SYS:PAYOUT:PAYSTACK''"
definition MONNIFY_COLLECTION_CLEARING_CODE :: string where "MONNIFY_COLLECTION_CLEARING_CODE = ''SYS:PSP:MONNIFY''"
definition FLUTTERWAVE_CLEARING_CODE :: string where "FLUTTERWAVE_CLEARING_CODE = ''SYS:PSP:FLUTTERWAVE''"
definition MONNIFY_PAYOUT_CLEARING_CODE :: string where "MONNIFY_PAYOUT_CLEARING_CODE = ''SYS:PAYOUT:MONNIFY''"
definition FLUTTERWAVE_PAYOUT_CLEARING_CODE :: string where "FLUTTERWAVE_PAYOUT_CLEARING_CODE = ''SYS:PAYOUT:FLUTTERWAVE''"
definition BANK_CASH_CODE :: string where "BANK_CASH_CODE = ''SYS:BANK:CASH''"
definition TICKET_SALES_REVENUE_CODE :: string where "TICKET_SALES_REVENUE_CODE = ''SYS:SALES:TICKET''"
definition PRIZE_EXPENSE_CODE :: string where "PRIZE_EXPENSE_CODE = ''SYS:PRIZE:EXPENSE''"
definition PRIZE_PAYABLE_CODE :: string where "PRIZE_PAYABLE_CODE = ''SYS:PRIZE:PAYABLE''"
definition WHT_PAYABLE_CODE :: string where "WHT_PAYABLE_CODE = ''SYS:TAX:WHT''"
definition REFUND_PAYABLE_CODE :: string where "REFUND_PAYABLE_CODE = ''SYS:REFUND:PAYABLE''"
definition AGENT_COMMISSION_EXPENSE_CODE :: string where "AGENT_COMMISSION_EXPENSE_CODE = ''SYS:AGENT:COMMISSION''"
definition PAYMENT_PROCESSING_FEES_CODE :: string where "PAYMENT_PROCESSING_FEES_CODE = ''SYS:EXPENSE:PAYMENT-FEES''"
definition PROVIDER_ADJUSTMENT_EXPENSE_CODE :: string where "PROVIDER_ADJUSTMENT_EXPENSE_CODE = ''SYS:EXPENSE:PROVIDER-ADJUSTMENT''"
definition SUSPENSE_CODE :: string where "SUSPENSE_CODE = ''SYS:SUSPENSE''"

definition system_account ::
  "string \<Rightarrow> string \<Rightarrow> LedgerAccountType \<Rightarrow> LedgerAccountPurpose \<Rightarrow> ensure_account_input" where
  "system_account code name ty purpose = \<lparr>ea_code = code, ea_name = name, ea_accountType = ty,
     ea_purpose = purpose, ea_ownerType = SYSTEM, ea_ownerId = None, ea_currency = Some ''NGN''\<rparr>"

definition SYSTEM_LEDGER_ACCOUNTS :: "ensure_account_input list" where
  "SYSTEM_LEDGER_ACCOUNTS =
    [system_account PAYSTACK_CLEARING_CODE ''Paystack Clearing'' ASSET PSP_CLEARING,
     system_account MONNIFY_COLLECTION_CLEARING_CODE ''Monnify Collection Clearing'' ASSET PSP_CLEARING,
     system_account FLUTTERWAVE_CLEARING_CODE ''Flutterwave Clearing'' ASSET PSP_CLEARING,
     system_account MONNIFY_PAYOUT_CLEARING_CODE ''Monnify Payout Clearing'' ASSET PAYOUT_CLEARING,
     system_account FLUTTERWAVE_PAYOUT_CLEARING_CODE ''Flutterwave Payout Clearing'' ASSET PAYOUT_CLEARING,
     system_account BANK_CASH_CODE ''SureWina Bank Cash'' ASSET BANK_CASH,
     system_account TICKET_SALES_REVENUE_CODE ''Ticket Sales Revenue'' REVENUE TICKET_SALES_REVENUE,
     system_account PRIZE_EXPENSE_CODE ''Prize Expense'' EXPENSE PRIZE_EXPENSE,
     system_account PRIZE_PAYABLE_CODE ''Prize Payable'' LIABILITY PRIZE_PAYABLE,
     system_account WHT_PAYABLE_CODE ''Withholding Tax Payable'' LIABILITY TAX_WHT_PAYABLE,
     system_account REFUND_PAYABLE_CODE ''Customer Refund Payable'' LIABILITY REFUND_PAYABLE,
     system_account AGENT_COMMISSION_EXPENSE_CODE ''Agent Commission Expense'' EXPENSE AGENT_COMMISSION_EXPENSE,
     system_account PAYMENT_PROCESSING_FEES_CODE ''Payment Processing Fees'' EXPENSE PAYMENT_PROCESSING_FEES,
     system_account PROVIDER_ADJUSTMENT_EXPENSE_CODE ''Provider Adjustments and Chargebacks'' EXPENSE PROVIDER_ADJUSTMENT_EXPENSE,
     system_account SUSPENSE_CODE ''Financial Suspense'' LIABILITY SUSPENSE,
     system_account PAYSTACK_PAYOUT_CLEARING_CODE ''Paystack Payout Clearing'' ASSET PAYOUT_CLEARING]"

lemmas system_codes = PAYSTACK_CLEARING_CODE_def PAYSTACK_PAYOUT_CLEARING_CODE_def MONNIFY_COLLECTION_CLEARING_CODE_def FLUTTERWAVE_CLEARING_CODE_def MONNIFY_PAYOUT_CLEARING_CODE_def FLUTTERWAVE_PAYOUT_CLEARING_CODE_def BANK_CASH_CODE_def TICKET_SALES_REVENUE_CODE_def PRIZE_EXPENSE_CODE_def PRIZE_PAYABLE_CODE_def WHT_PAYABLE_CODE_def REFUND_PAYABLE_CODE_def AGENT_COMMISSION_EXPENSE_CODE_def PAYMENT_PROCESSING_FEES_CODE_def PROVIDER_ADJUSTMENT_EXPENSE_CODE_def SUSPENSE_CODE_def

section \<open>The bootstrap\<close>

text \<open>
  \<open>onModuleInit\<close>: each account is ensured in turn, outside any transaction, so an account
  with another identity stops the loop and leaves the accounts created so far.
\<close>

fun ensure_all :: "'a env_scheme \<Rightarrow> ensure_account_input list \<Rightarrow> db \<Rightarrow> error option \<times> db" where
  "ensure_all env [] db = (None, db)"
| "ensure_all env (account # rest) db =
     (case ensureAccount env account db db of
        Inl e \<Rightarrow> (Some e, db)
      | Inr (a, db') \<Rightarrow> ensure_all env rest db')"

definition onModuleInit :: "'a env_scheme \<Rightarrow> db \<Rightarrow> error option \<times> db" where
  "onModuleInit env db = ensure_all env SYSTEM_LEDGER_ACCOUNTS db"

section \<open>Lemmas\<close>

definition same_identity :: "ledger_account \<Rightarrow> ensure_account_input \<Rightarrow> bool" where
  "same_identity a s \<longleftrightarrow> la_code a = ea_code s \<and> la_accountType a = ea_accountType s \<and>
     la_purpose a = ea_purpose s \<and> la_ownerType a = SYSTEM \<and> la_ownerId a = None \<and> la_currency a = ''NGN''"

text \<open>The inputs of the chart: already normalized, owned by the system, short enough.\<close>

definition chart_input :: "ensure_account_input \<Rightarrow> bool" where
  "chart_input s \<longleftrightarrow> ea_ownerType s = SYSTEM \<and> ea_ownerId s = None \<and> ea_currency s = Some ''NGN'' \<and>
     ea_code s \<noteq> [] \<and> js_upper (js_trim (ea_code s)) = ea_code s \<and> length (ea_code s) \<le> 180 \<and>
     js_trim (ea_name s) = ea_name s \<and> ea_name s \<noteq> [] \<and> length (ea_name s) \<le> 180"

lemma chart_inputs: "list_all chart_input SYSTEM_LEDGER_ACCOUNTS"
  by code_simp

lemma chart_distinct: "distinct (map ea_code SYSTEM_LEDGER_ACCOUNTS)"
  by code_simp

definition fresh_ids :: "'a env_scheme \<Rightarrow> db \<Rightarrow> bool" where
  "fresh_ids env db \<longleftrightarrow> inj (e_uuid env) \<and> (\<forall>n\<ge>seq db. e_uuid env n \<notin> la_accountId ` set (accounts db))"

lemma normalize_chart:
  assumes "chart_input s"
  shows "normalizeAccountInput s = Inr \<lparr>la_accountId = [], la_code = ea_code s, la_name = ea_name s,
    la_accountType = ea_accountType s, la_purpose = ea_purpose s, la_ownerType = SYSTEM,
    la_ownerId = None, la_currency = ''NGN'', la_status = LAS_ACTIVE\<rparr>"
proof -
  have "js_upper (js_trim ''NGN'') = ''NGN''" by code_simp
  then show ?thesis using assms by (auto simp: normalizeAccountInput_def chart_input_def Let_def)
qed

lemma ensure_chart:
  assumes "chart_input s" "fresh_ids env db"
  shows "ensureAccount env s db db =
    (case find_account_by_code db (ea_code s) of
       Some a \<Rightarrow> if same_identity a s then Inr (a, db) else Inl (ConflictException
          (''Ledger account '' @ ea_code s @ '' already exists with different identity''))
     | None \<Rightarrow>
        let a = \<lparr>la_accountId = e_uuid env (seq db), la_code = ea_code s, la_name = ea_name s,
           la_accountType = ea_accountType s, la_purpose = ea_purpose s, la_ownerType = SYSTEM,
           la_ownerId = None, la_currency = ''NGN'', la_status = LAS_ACTIVE\<rparr> in
        Inr (a, db\<lparr>accounts := accounts db @ [a], seq := seq db + 1\<rparr>))"
proof -
  have "find_account db (e_uuid env (seq db)) = None"
    using assms(2) by (force simp: fresh_ids_def find_account_def find_None_set)
  then show ?thesis
    using assms(1) normalize_chart [OF assms(1)]
    by (auto simp: ensureAccount_def create_account_def Let_def chart_input_def same_identity_def
        assertSameAccountIdentity_def split: option.splits)
qed

lemma fresh_ids_append:
  assumes "fresh_ids env db" "la_accountId a = e_uuid env (seq db)"
  shows "fresh_ids env (db\<lparr>accounts := accounts db @ [a], seq := seq db + 1\<rparr>)"
  using assms by (auto simp: fresh_ids_def inj_eq)

lemma find_code_append:
  "find_account_by_code (db\<lparr>accounts := accounts db @ [a], seq := k\<rparr>) c =
     (case find_account_by_code db c of Some x \<Rightarrow> Some x | None \<Rightarrow> if la_code a = c then Some a else None)"
  by (simp add: find_account_by_code_def find_append split: option.splits)

text \<open>What the loop does: it succeeds exactly when no existing account clashes.\<close>

lemma ensure_all_outcome:
  assumes "list_all chart_input ss" "distinct (map ea_code ss)" "fresh_ids env db"
  shows "(fst (ensure_all env ss db) = None \<longleftrightarrow>
      (\<forall>s\<in>set ss. \<forall>a. find_account_by_code db (ea_code s) = Some a \<longrightarrow> same_identity a s))"
    and "fst (ensure_all env ss db) = None \<longrightarrow>
      (\<forall>s\<in>set ss. \<exists>a. find_account_by_code (snd (ensure_all env ss db)) (ea_code s) = Some a \<and> same_identity a s)"
    and "\<forall>c a. find_account_by_code db c = Some a \<longrightarrow> find_account_by_code (snd (ensure_all env ss db)) c = Some a"
    and "fresh_ids env (snd (ensure_all env ss db))"
  using assms
proof (atomize(full), induction ss arbitrary: db)
  case Nil
  then show ?case by simp
next
  case (Cons s ss)
  have s: "chart_input s" and ss: "list_all chart_input ss" "distinct (map ea_code ss)"
    and new: "ea_code s \<notin> ea_code ` set ss" using Cons.prems by simp_all
  note e = ensure_chart [OF s Cons.prems(3)]
  show ?case
  proof (cases "find_account_by_code db (ea_code s)")
    case (Some a)
    show ?thesis
    proof (cases "same_identity a s")
      case True
      then have "ensure_all env (s # ss) db = ensure_all env ss db" using e Some by simp
      then show ?thesis using Cons.IH [OF ss Cons.prems(3)] Some True by fastforce
    next
      case False
      then show ?thesis using e Some Cons.prems(3) by auto
    qed
  next
    case None
    define a where "a = \<lparr>la_accountId = e_uuid env (seq db), la_code = ea_code s, la_name = ea_name s,
           la_accountType = ea_accountType s, la_purpose = ea_purpose s, la_ownerType = SYSTEM,
           la_ownerId = None, la_currency = ''NGN'', la_status = LAS_ACTIVE\<rparr>"
    define db' where "db' = db\<lparr>accounts := accounts db @ [a], seq := seq db + 1\<rparr>"
    have eq: "ensure_all env (s # ss) db = ensure_all env ss db'"
      using e None by (simp add: a_def db'_def Let_def)
    have id: "same_identity a s" by (simp add: a_def same_identity_def)
    have f: "fresh_ids env db'" unfolding db'_def by (rule fresh_ids_append [OF Cons.prems(3)]) (simp add: a_def)
    have code: "find_account_by_code db' c = (case find_account_by_code db c of Some x \<Rightarrow> Some x
        | None \<Rightarrow> if c = ea_code s then Some a else None)" for c
      by (auto simp: db'_def find_code_append a_def split: option.splits)
    note IH = Cons.IH [OF ss f]
    have other: "find_account_by_code db' (ea_code r) = find_account_by_code db (ea_code r)" if "r \<in> set ss" for r
    proof -
      have "ea_code r \<noteq> ea_code s" using new that by (metis imageI)
      then show ?thesis using code [of "ea_code r"] by (simp split: option.splits)
    qed
    have mine: "find_account_by_code db' (ea_code s) = Some a" using code None by simp
    have old: "find_account_by_code db' c = Some x" if "find_account_by_code db c = Some x" for c x
      using code that by simp
    show ?thesis unfolding eq
      using IH other mine old id None by auto
  qed
qed

lemma ensure_all_again:
  assumes "list_all chart_input ss" "fresh_ids env db"
    and "\<forall>s\<in>set ss. \<exists>a. find_account_by_code db (ea_code s) = Some a \<and> same_identity a s"
  shows "ensure_all env ss db = (None, db)"
  using assms
proof (induction ss)
  case (Cons s ss)
  then show ?case using ensure_chart [of s env db] by auto
qed simp

lemma ensure_all_ledger_ok:
  "ledger_ok db \<Longrightarrow> ledger_ok (snd (ensure_all env ss db))"
proof (induction env ss db rule: ensure_all.induct)
  case (2 env account rest db)
  show ?case
  proof (cases "ensureAccount env account db db")
    case (Inr r)
    obtain a db' where r: "r = (a, db')" by fastforce
    have "ledger_ok db'" using Inr 2(2) unfolding r by (rule ensureAccount_ledger_ok)
    then show ?thesis using 2(1) [OF Inr r [symmetric]] Inr r by simp
  qed (use 2 in simp)
qed simp

section \<open>Property\<close>

text \<open>The bootstrap of the chart of accounts: starting on any ledger, it succeeds exactly when no
  account with a system code has another identity; after it succeeded every one of the 16
  system accounts exists with its type and purpose, accounts that existed are untouched, the
  ledger invariant holds, and a second start changes nothing. A start on an empty database
  creates the whole chart.\<close>

theorem bootstrap_chart:
  assumes "ledger_ok db" "fresh_ids env db"
  shows "(fst (onModuleInit env db) = None \<longleftrightarrow> (\<forall>s\<in>set SYSTEM_LEDGER_ACCOUNTS.
       \<forall>a. find_account_by_code db (ea_code s) = Some a \<longrightarrow> same_identity a s)) \<and>
    ledger_ok (snd (onModuleInit env db)) \<and>
    (\<forall>c a. find_account_by_code db c = Some a \<longrightarrow> find_account_by_code (snd (onModuleInit env db)) c = Some a) \<and>
    (fst (onModuleInit env db) = None \<longrightarrow>
       (\<forall>s\<in>set SYSTEM_LEDGER_ACCOUNTS. \<exists>a. find_account_by_code (snd (onModuleInit env db)) (ea_code s) = Some a
          \<and> same_identity a s) \<and>
       onModuleInit env (snd (onModuleInit env db)) = (None, snd (onModuleInit env db)))"
  unfolding onModuleInit_def
  using ensure_all_outcome [OF chart_inputs chart_distinct assms(2)] ensure_all_ledger_ok [OF assms(1)]
    ensure_all_again [OF chart_inputs] by blast

lemma ex_uuid_inj: "inj (e_uuid ex_env)"
  using nat_str_inj by (simp add: ex_env_def inj_def)

lemma digit_not_space: "n < 10 \<Longrightarrow> \<not> is_js_space (digit_char n)"
  by (simp add: is_js_space_def of_char_digit)

lemma nat_str_last: "\<not> is_js_space (last (nat_str n))"
  by (subst nat_str.simps) (simp add: digit_not_space)

lemma ex_uuid_ok: "uuid_ok ex_env"
proof -
  have "\<not> is_js_space CHR ''u''" by code_simp
  then have "js_trim (CHR ''u'' # nat_str n) = CHR ''u'' # nat_str n" for n
    by (intro js_trim_ends) (simp_all add: nat_str_last)
  then show ?thesis by (simp add: uuid_ok_def ex_env_def)
qed

theorem bootstrap_chart_witness:
  "fst (onModuleInit ex_env empty_db) = None \<and> length (accounts (snd (onModuleInit ex_env empty_db))) = 16 \<and>
     onModuleInit ex_env (snd (onModuleInit ex_env empty_db)) = (None, snd (onModuleInit ex_env empty_db))"
proof -
  have f: "fresh_ids ex_env empty_db" by (simp add: fresh_ids_def ex_uuid_inj empty_db_def)
  have r: "fst (onModuleInit ex_env empty_db) = None" "length (accounts (snd (onModuleInit ex_env empty_db))) = 16"
    by code_simp+
  show ?thesis using bootstrap_chart [OF ledger_ok_empty f] r by blast
qed

end
