(* ===== verification/Payment_Accounting.thy ===== *)
theory Payment_Accounting
  imports Ledger_Chart
begin

text \<open>
  \<open>apps/api/src/ledger/payment-accounting.service.ts\<close>: the journals of an online payment.
  Collection debits the provider's clearing account against revenue or suspense, a refund
  accrual moves the amount to the refund payable, a settlement clears the payable against
  the payout account. Each journal is linked from the payment row, once.
\<close>

section \<open>Operations\<close>

datatype disposition = TO_REVENUE | TO_SUSPENSE

primrec disposition_str :: "disposition \<Rightarrow> string" where
  "disposition_str TO_REVENUE = ''REVENUE''"
| "disposition_str TO_SUSPENSE = ''SUSPENSE''"

record collection_input =
  ci_paymentTxnId :: string
  ci_gateway :: PaymentGateway
  ci_amountNgn :: int
  ci_disposition :: disposition
  ci_providerReference :: string
  ci_providerTransactionId :: "string option"
  ci_occurredAt :: "int option"

record accrual_input =
  ai_paymentTxnId :: string
  ai_amountNgn :: int
  ai_source :: disposition
  ai_reason :: string

record settlement_input =
  si_paymentTxnId :: string
  si_gateway :: PaymentGateway
  si_amountNgn :: int
  si_providerReference :: "string option"

primrec payoutClearingCode :: "PaymentGateway \<Rightarrow> string res" where
  "payoutClearingCode PAYSTACK = Inr PAYSTACK_CLEARING_CODE"
| "payoutClearingCode MONNIFY = Inr MONNIFY_PAYOUT_CLEARING_CODE"
| "payoutClearingCode FLUTTERWAVE = Inr FLUTTERWAVE_PAYOUT_CLEARING_CODE"
| "payoutClearingCode AGENT_CASH =
     Inl (ConflictException ''Gateway AGENT_CASH is not an active payout-wallet provider'')"

primrec collectionClearingCode :: "PaymentGateway \<Rightarrow> string res" where
  "collectionClearingCode PAYSTACK = Inr PAYSTACK_CLEARING_CODE"
| "collectionClearingCode MONNIFY = Inr MONNIFY_COLLECTION_CLEARING_CODE"
| "collectionClearingCode FLUTTERWAVE = Inr FLUTTERWAVE_CLEARING_CODE"
| "collectionClearingCode AGENT_CASH =
     Inl (ConflictException ''Gateway AGENT_CASH is not an active online collection provider'')"

definition disposition_code :: "disposition \<Rightarrow> string" where
  "disposition_code d = (case d of TO_REVENUE \<Rightarrow> TICKET_SALES_REVENUE_CODE | TO_SUSPENSE \<Rightarrow> SUSPENSE_CODE)"

text \<open>A journal with its entries, as the services return it.\<close>

type_synonym journal = "ledger_transaction \<times> ledger_entry list"

definition view_journal :: "LedgerTransactionView \<Rightarrow> journal" where
  "view_journal v = (tv_txn v, map fst (tv_entries v))"

definition existing_journal :: "db \<Rightarrow> string \<Rightarrow> (journal \<times> db) res" where
  "existing_journal db j = bind_res (find_txn_or_throw db j) (\<lambda>t. Inr ((t, entries_of db j), db))"

text \<open>Post the journal, then store its id in the payment row.\<close>

definition post_and_link ::
  "'a env_scheme \<Rightarrow> post_input \<Rightarrow> (payment_transaction \<Rightarrow> string option)
    \<Rightarrow> (string \<Rightarrow> payment_transaction \<Rightarrow> payment_transaction) \<Rightarrow> string \<Rightarrow> db \<Rightarrow> (journal \<times> db) res" where
  "post_and_link env inp col upd txnId db =
     bind_res (postInTransaction env inp db) (\<lambda>(v, db1).
     bind_res (link_row pt_txnId col (upd (lt_ledgerTxnId (tv_txn v))) txnId (lt_ledgerTxnId (tv_txn v))
       (payments db1)) (\<lambda>ps.
     Inr (view_journal v, db1\<lparr>payments := ps\<rparr>)))"

definition transfer_lines :: "string \<Rightarrow> string \<Rightarrow> string \<Rightarrow> string \<Rightarrow> int \<Rightarrow> ledger_line list" where
  "transfer_lines src srcMemo dst dstMemo n =
     [\<lparr>li_accountId = src, li_side = DEBIT, li_amountNgn = n, li_memo = Some srcMemo\<rparr>,
      \<lparr>li_accountId = dst, li_side = CREDIT, li_amountNgn = n, li_memo = Some dstMemo\<rparr>]"

definition collection_post :: "collection_input \<Rightarrow> string \<Rightarrow> string \<Rightarrow> post_input" where
  "collection_post inp clearing destination =
     \<lparr>pi_idempotencyKey = ''ledger:provider-collection:'' @ ci_paymentTxnId inp,
      pi_kind = PROVIDER_COLLECTION, pi_referenceType = ''PaymentTransaction'',
      pi_referenceId = ci_paymentTxnId inp,
      pi_description = Some (case ci_disposition inp of
          TO_REVENUE \<Rightarrow> ''Verified provider ticket collection''
        | TO_SUSPENSE \<Rightarrow> ''Verified provider collection pending finance review''),
      pi_occurredAt = ci_occurredAt inp,
      pi_metadata = Some (JObj [(''gateway'', JStr (gateway_str (ci_gateway inp))),
        (''providerReference'', JStr (ci_providerReference inp)),
        (''providerTransactionId'', json_opt (ci_providerTransactionId inp)),
        (''disposition'', JStr (disposition_str (ci_disposition inp)))]),
      pi_lines = transfer_lines clearing ''Provider funds received'' destination
        (case ci_disposition inp of TO_REVENUE \<Rightarrow> ''Ticket sales revenue''
          | TO_SUSPENSE \<Rightarrow> ''Unallocated successful collection'') (ci_amountNgn inp)\<rparr>"

definition recordProviderCollectionInTransaction ::
  "'a env_scheme \<Rightarrow> collection_input \<Rightarrow> db \<Rightarrow> (journal \<times> db) res" where
  "recordProviderCollectionInTransaction env inp db =
     bind_res (from_option (PrismaError ''P2025'') (find_payment db (ci_paymentTxnId inp))) (\<lambda>payment.
     case pt_collectionLedgerTxnId payment of
       Some j \<Rightarrow> existing_journal db j
     | None \<Rightarrow>
         bind_res (collectionClearingCode (ci_gateway inp)) (\<lambda>code.
         bind_res (requireAccount db code) (\<lambda>clearing.
         bind_res (requireAccount db (disposition_code (ci_disposition inp))) (\<lambda>destination.
         post_and_link env (collection_post inp (la_accountId clearing) (la_accountId destination))
           pt_collectionLedgerTxnId (\<lambda>j p. p\<lparr>pt_collectionLedgerTxnId := Some j\<rparr>)
           (ci_paymentTxnId inp) db))))"

definition accrual_post :: "accrual_input \<Rightarrow> string \<Rightarrow> string \<Rightarrow> post_input" where
  "accrual_post inp source payable =
     \<lparr>pi_idempotencyKey = ''ledger:refund-accrual:'' @ ai_paymentTxnId inp,
      pi_kind = REFUND_ACCRUAL, pi_referenceType = ''PaymentTransaction'',
      pi_referenceId = ai_paymentTxnId inp,
      pi_description = Some ''Customer refund obligation'', pi_occurredAt = None,
      pi_metadata = Some (JObj [(''reason'', JStr (ai_reason inp)),
        (''source'', JStr (disposition_str (ai_source inp)))]),
      pi_lines = transfer_lines source ''Reverse original collection disposition''
        payable ''Customer refund payable'' (ai_amountNgn inp)\<rparr>"

definition recordRefundAccrualInTransaction ::
  "'a env_scheme \<Rightarrow> accrual_input \<Rightarrow> db \<Rightarrow> (journal \<times> db) res" where
  "recordRefundAccrualInTransaction env inp db =
     bind_res (from_option (PrismaError ''P2025'') (find_payment db (ai_paymentTxnId inp))) (\<lambda>payment.
     case pt_refundAccrualLedgerTxnId payment of
       Some j \<Rightarrow> existing_journal db j
     | None \<Rightarrow>
         bind_res (requireAccount db (disposition_code (ai_source inp))) (\<lambda>source.
         bind_res (requireAccount db REFUND_PAYABLE_CODE) (\<lambda>payable.
         post_and_link env (accrual_post inp (la_accountId source) (la_accountId payable))
           pt_refundAccrualLedgerTxnId (\<lambda>j p. p\<lparr>pt_refundAccrualLedgerTxnId := Some j\<rparr>)
           (ai_paymentTxnId inp) db)))"

definition settlement_post :: "settlement_input \<Rightarrow> string \<Rightarrow> string \<Rightarrow> post_input" where
  "settlement_post inp payable clearing =
     \<lparr>pi_idempotencyKey = ''ledger:refund-settlement:'' @ si_paymentTxnId inp,
      pi_kind = REFUND_SETTLEMENT, pi_referenceType = ''PaymentTransaction'',
      pi_referenceId = si_paymentTxnId inp,
      pi_description = Some ''Provider refund settlement'', pi_occurredAt = None,
      pi_metadata = Some (JObj [(''gateway'', JStr (gateway_str (si_gateway inp))),
        (''providerReference'', json_opt (si_providerReference inp))]),
      pi_lines = transfer_lines payable ''Settle customer refund payable''
        clearing ''Provider funds returned to customer'' (si_amountNgn inp)\<rparr>"

definition recordRefundSettlementInTransaction ::
  "'a env_scheme \<Rightarrow> settlement_input \<Rightarrow> db \<Rightarrow> (journal \<times> db) res" where
  "recordRefundSettlementInTransaction env inp db =
     bind_res (from_option (PrismaError ''P2025'') (find_payment db (si_paymentTxnId inp))) (\<lambda>payment.
     if pt_refundAccrualLedgerTxnId payment = None then
       Inl (ConflictException ''Refund settlement cannot be posted before refund accrual'')
     else case pt_refundSettlementLedgerTxnId payment of
       Some j \<Rightarrow> existing_journal db j
     | None \<Rightarrow>
         bind_res (requireAccount db REFUND_PAYABLE_CODE) (\<lambda>payable.
         bind_res (payoutClearingCode (si_gateway inp)) (\<lambda>code.
         bind_res (requireAccount db code) (\<lambda>clearing.
         post_and_link env (settlement_post inp (la_accountId payable) (la_accountId clearing))
           pt_refundSettlementLedgerTxnId (\<lambda>j p. p\<lparr>pt_refundSettlementLedgerTxnId := Some j\<rparr>)
           (si_paymentTxnId inp) db))))"

section \<open>Each journal once\<close>

lemma post_and_link_cases:
  assumes "post_and_link env inp col upd i db = Inr (r, db')"
  obtains v db1 where "postInTransaction env inp db = Inr (v, db1)" "r = view_journal v"
    "\<exists>p\<in>set (payments db). pt_txnId p = i" "same_frame db db1"
    "db' = db1\<lparr>payments := update_where (\<lambda>p. pt_txnId p = i) (upd (lt_ledgerTxnId (tv_txn v))) (payments db)\<rparr>"
proof -
  from assms obtain v db1 where p: "postInTransaction env inp db = Inr (v, db1)"
    and l: "r = view_journal v" "\<exists>p\<in>set (payments db1). pt_txnId p = i"
      "db' = db1\<lparr>payments := update_where (\<lambda>p. pt_txnId p = i) (upd (lt_ledgerTxnId (tv_txn v))) (payments db1)\<rparr>"
    by (auto simp: post_and_link_def res_simps)
  have f: "same_frame db db1" using p postInternal_frame unfolding postInTransaction_def by blast
  then have "payments db1 = payments db" by (rule same_frame_sel)
  then show thesis using that [OF p l(1) _ f] l by simp
qed

lemma find_updated_payment:
  assumes "\<exists>p\<in>set ps. pt_txnId p = i" "\<And>p. pt_txnId (f p) = pt_txnId p"
  shows "\<exists>p. find (\<lambda>p. pt_txnId p = i) ps = Some p \<and>
    find (\<lambda>p. pt_txnId p = k) (update_where (\<lambda>p. pt_txnId p = i) f ps) =
      map_option (\<lambda>p. if k = i then f p else p) (find (\<lambda>p. pt_txnId p = k) ps)"
proof -
  obtain p where p: "find (\<lambda>p. pt_txnId p = i) ps = Some p"
    using assms(1) find_None_set [of "\<lambda>p. pt_txnId p = i" ps] by (cases "find (\<lambda>p. pt_txnId p = i) ps") auto
  show ?thesis
  proof (cases "k = i")
    case True
    then show ?thesis
      using p find_update_where_same [of ps "\<lambda>p. pt_txnId p = k" "\<lambda>p. pt_txnId p = i" f] assms(2) by simp
  next
    case False
    then show ?thesis
      using p find_update_where_other [of ps "\<lambda>p. pt_txnId p = i" "\<lambda>p. pt_txnId p = k" f] assms(2)
      by (simp add: option.map_ident)
  qed
qed

definition linked_by :: "(payment_transaction \<Rightarrow> string option) \<Rightarrow> string \<Rightarrow> db \<Rightarrow> bool" where
  "linked_by col i db \<longleftrightarrow> (\<exists>p. find_payment db i = Some p \<and> col p \<noteq> None)"

lemma post_and_link_links:
  assumes "post_and_link env inp col upd i db = Inr (r, db')"
    and "\<And>j p. pt_txnId (upd j p) = pt_txnId p" "\<And>j p. col (upd j p) = Some j"
  shows "linked_by col i db'"
  using assms(1)
proof (rule post_and_link_cases)
  fix v db1
  assume a: "\<exists>p\<in>set (payments db). pt_txnId p = i"
    "db' = db1\<lparr>payments := update_where (\<lambda>p. pt_txnId p = i) (upd (lt_ledgerTxnId (tv_txn v))) (payments db)\<rparr>"
  show "linked_by col i db'"
    using find_updated_payment [OF a(1), of "upd (lt_ledgerTxnId (tv_txn v))" i] assms(2,3)
    by (auto simp: linked_by_def find_payment_def a(2))
qed

lemma existing_journal_Inr [res_simps]:
  "existing_journal db j = Inr (r, db') \<longleftrightarrow> db' = db \<and> (\<exists>t. find_txn db j = Some t \<and> r = (t, entries_of db j))"
  by (auto simp: existing_journal_def find_txn_or_throw_def res_simps)

lemma collection_cases:
  assumes "recordProviderCollectionInTransaction env inp db = Inr (r, db')"
  obtains (already) p j where "find_payment db (ci_paymentTxnId inp) = Some p" "pt_collectionLedgerTxnId p = Some j"
      "db' = db" "find_txn db j = Some (fst r)"
  | (fresh) p code clearing destination where "find_payment db (ci_paymentTxnId inp) = Some p"
      "pt_collectionLedgerTxnId p = None" "collectionClearingCode (ci_gateway inp) = Inr code"
      "find_account_by_code db code = Some clearing"
      "find_account_by_code db (disposition_code (ci_disposition inp)) = Some destination"
      "post_and_link env (collection_post inp (la_accountId clearing) (la_accountId destination))
         pt_collectionLedgerTxnId (\<lambda>j p. p\<lparr>pt_collectionLedgerTxnId := Some j\<rparr>)
         (ci_paymentTxnId inp) db = Inr (r, db')"
  using assms by (fastforce simp: recordProviderCollectionInTransaction_def res_simps split: option.splits)

lemma accrual_cases:
  assumes "recordRefundAccrualInTransaction env inp db = Inr (r, db')"
  obtains (already) p j where "find_payment db (ai_paymentTxnId inp) = Some p" "pt_refundAccrualLedgerTxnId p = Some j"
      "db' = db" "find_txn db j = Some (fst r)"
  | (fresh) p source payable where "find_payment db (ai_paymentTxnId inp) = Some p"
      "pt_refundAccrualLedgerTxnId p = None"
      "find_account_by_code db (disposition_code (ai_source inp)) = Some source"
      "find_account_by_code db REFUND_PAYABLE_CODE = Some payable"
      "post_and_link env (accrual_post inp (la_accountId source) (la_accountId payable))
         pt_refundAccrualLedgerTxnId (\<lambda>j p. p\<lparr>pt_refundAccrualLedgerTxnId := Some j\<rparr>)
         (ai_paymentTxnId inp) db = Inr (r, db')"
  using assms by (fastforce simp: recordRefundAccrualInTransaction_def res_simps split: option.splits)

lemma settlement_cases:
  assumes "recordRefundSettlementInTransaction env inp db = Inr (r, db')"
  obtains (already) p j where "find_payment db (si_paymentTxnId inp) = Some p" "pt_refundSettlementLedgerTxnId p = Some j"
      "db' = db" "find_txn db j = Some (fst r)"
  | (fresh) p code payable clearing where "find_payment db (si_paymentTxnId inp) = Some p"
      "pt_refundAccrualLedgerTxnId p \<noteq> None" "pt_refundSettlementLedgerTxnId p = None"
      "find_account_by_code db REFUND_PAYABLE_CODE = Some payable"
      "payoutClearingCode (si_gateway inp) = Inr code" "find_account_by_code db code = Some clearing"
      "post_and_link env (settlement_post inp (la_accountId payable) (la_accountId clearing))
         pt_refundSettlementLedgerTxnId (\<lambda>j p. p\<lparr>pt_refundSettlementLedgerTxnId := Some j\<rparr>)
         (si_paymentTxnId inp) db = Inr (r, db')"
  using assms by (fastforce simp: recordRefundSettlementInTransaction_def res_simps split: option.splits if_splits)

interpretation collection: once_per_row
  "\<lambda>(env, inp). recordProviderCollectionInTransaction env inp"
  "\<lambda>(env, inp). linked_by pt_collectionLedgerTxnId (ci_paymentTxnId inp)"
proof (unfold_locales, goal_cases)
  case (1 i s r s')
  obtain env inp where i: "i = (env, inp)" by fastforce
  have "recordProviderCollectionInTransaction env inp s = Inr (r, s')" using 1 i by simp
  then show ?case unfolding i
    by (cases rule: collection_cases) (simp add: linked_by_def, simp, erule post_and_link_links, simp_all)
next
  case (2 i s r s')
  obtain env inp where i: "i = (env, inp)" by fastforce
  have "recordProviderCollectionInTransaction env inp s = Inr (r, s')" using 2 i by simp
  then show ?case using 2(1) unfolding i
    by (cases rule: collection_cases) (auto simp: linked_by_def)
qed

interpretation accrual: once_per_row
  "\<lambda>(env, inp). recordRefundAccrualInTransaction env inp"
  "\<lambda>(env, inp). linked_by pt_refundAccrualLedgerTxnId (ai_paymentTxnId inp)"
proof (unfold_locales, goal_cases)
  case (1 i s r s')
  obtain env inp where i: "i = (env, inp)" by fastforce
  have "recordRefundAccrualInTransaction env inp s = Inr (r, s')" using 1 i by simp
  then show ?case unfolding i
    by (cases rule: accrual_cases) (simp add: linked_by_def, simp, erule post_and_link_links, simp_all)
next
  case (2 i s r s')
  obtain env inp where i: "i = (env, inp)" by fastforce
  have "recordRefundAccrualInTransaction env inp s = Inr (r, s')" using 2 i by simp
  then show ?case using 2(1) unfolding i
    by (cases rule: accrual_cases) (auto simp: linked_by_def)
qed

interpretation settlement: once_per_row
  "\<lambda>(env, inp). recordRefundSettlementInTransaction env inp"
  "\<lambda>(env, inp). linked_by pt_refundSettlementLedgerTxnId (si_paymentTxnId inp)"
proof (unfold_locales, goal_cases)
  case (1 i s r s')
  obtain env inp where i: "i = (env, inp)" by fastforce
  have "recordRefundSettlementInTransaction env inp s = Inr (r, s')" using 1 i by simp
  then show ?case unfolding i
    by (cases rule: settlement_cases) (simp add: linked_by_def, simp, erule post_and_link_links, simp_all)
next
  case (2 i s r s')
  obtain env inp where i: "i = (env, inp)" by fastforce
  have "recordRefundSettlementInTransaction env inp s = Inr (r, s')" using 2 i by simp
  then show ?case using 2(1) unfolding i
    by (cases rule: settlement_cases) (auto simp: linked_by_def)
qed

section \<open>The effect of a linked journal\<close>

lemma ledger_ok_payments [simp]: "ledger_ok (db\<lparr>payments := ps\<rparr>) \<longleftrightarrow> ledger_ok db"
  by (simp add: ledger_ok_def entries_of_def)

lemma net_payments [simp]: "net (db\<lparr>payments := ps\<rparr>) a = net db a"
  by (simp add: net_eq)

lemma find_key_payments [simp]: "find_txn_by_key (db\<lparr>payments := ps\<rparr>) k = find_txn_by_key db k"
  by (simp add: find_txn_by_key_def)

text \<open>What a transfer journal from \<open>src\<close> to \<open>dst\<close> leaves behind.\<close>

definition transferred :: "string \<Rightarrow> string \<Rightarrow> int \<Rightarrow> db \<Rightarrow> db \<Rightarrow> bool" where
  "transferred src dst n db db' \<longleftrightarrow> 0 < n \<and> src \<noteq> dst \<and>
     net db' src = net db src - n \<and> net db' dst = net db dst + n \<and>
     (\<forall>a. a \<noteq> src \<longrightarrow> a \<noteq> dst \<longrightarrow> net db' a = net db a)"

lemma transferred_trans_net:
  "transferred src dst n db db' \<Longrightarrow>
     net db' a = net db a - (if a = src then n else 0) + (if a = dst then n else 0)"
  by (auto simp: transferred_def)

lemma post_transfer_lines:
  assumes "postInTransaction env inp db = Inr (v, db1)" "ledger_ok db"
    and "find_txn_by_key db (js_trim (pi_idempotencyKey inp)) = None"
    and "pi_lines inp = transfer_lines src m1 dst m2 n" "js_trim src = src" "js_trim dst = dst"
  shows "ledger_ok db1" and "same_frame db db1" and "transferred src dst n db db1"
    and "find_txn_by_key db1 (js_trim (pi_idempotencyKey inp)) = Some (tv_txn v)"
    and "find_txn_by_key db1 k \<noteq> None \<longleftrightarrow> find_txn_by_key db k \<noteq> None \<or> k = js_trim (pi_idempotencyKey inp)"
proof -
  let ?i = "(env, inp)"
  have p: "(\<lambda>(env, inp). postInTransaction env inp) ?i db = Inr (v, db1)" using assms(1) by simp
  show "ledger_ok db1" using ledger.post_ok [OF p assms(2)] .
  show "same_frame db db1" using ledger.post_frame [OF p] .
  obtain t where t: "find_txn_by_key db1 (js_trim (pi_idempotencyKey inp)) = Some t" "tv_txn v = t" "acceptable db inp"
    using posted_key_found [OF assms(1) [unfolded postInTransaction_def] assms(2)] by blast
  then show "find_txn_by_key db1 (js_trim (pi_idempotencyKey inp)) = Some (tv_txn v)" by simp
  have wf: "src \<noteq> dst \<and> 0 < n"
    using t(3) assms(4-6) by (simp add: acceptable_def well_formed_lines_def transfer_lines_def)
  have shape: "map (\<lambda>l. (li_accountId l, li_side l, li_amountNgn l)) ((\<lambda>(env, inp). map norm_line (pi_lines inp)) ?i)
      = [(src, DEBIT, n), (dst, CREDIT, n)]"
    using assms(4-6) by (simp add: transfer_lines_def)
  have k: "find_txn_by_key db ((\<lambda>(env, inp). js_trim (pi_idempotencyKey inp)) ?i) = None" using assms(3) by simp
  note tr = ledger.post_transfer [OF p assms(2) k shape]
  show "transferred src dst n db db1" using tr wf by (auto simp: transferred_def)
  show "find_txn_by_key db1 k \<noteq> None \<longleftrightarrow> find_txn_by_key db k \<noteq> None \<or> k = js_trim (pi_idempotencyKey inp)"
    using ledger.post_key [OF p assms(2), of k] by simp
qed

lemma post_and_link_effect:
  assumes "post_and_link env inp col upd i db = Inr (r, db')" "ledger_ok db"
    and "find_txn_by_key db (js_trim (pi_idempotencyKey inp)) = None"
    and "pi_lines inp = transfer_lines src m1 dst m2 n" "js_trim src = src" "js_trim dst = dst"
  shows "ledger_ok db'" and "transferred src dst n db db'" and "accounts db' = accounts db"
    and "find_txn_by_key db' (js_trim (pi_idempotencyKey inp)) = Some (fst r)"
    and "find_txn_by_key db' k \<noteq> None \<longleftrightarrow> find_txn_by_key db k \<noteq> None \<or> k = js_trim (pi_idempotencyKey inp)"
    and "payments db' = update_where (\<lambda>p. pt_txnId p = i) (upd (lt_ledgerTxnId (fst r))) (payments db)"
    and "\<exists>p\<in>set (payments db). pt_txnId p = i"
proof -
  obtain v db1 where p: "postInTransaction env inp db = Inr (v, db1)" "r = view_journal v"
    "\<exists>p\<in>set (payments db). pt_txnId p = i" "same_frame db db1"
    "db' = db1\<lparr>payments := update_where (\<lambda>p. pt_txnId p = i) (upd (lt_ledgerTxnId (tv_txn v))) (payments db)\<rparr>"
    using assms(1) by (rule post_and_link_cases)
  note e = post_transfer_lines [OF p(1) assms(2-6)]
  show "ledger_ok db'" using e(1) p(5) by simp
  show "transferred src dst n db db'" using e(3) p(5) by (simp add: transferred_def)
  show "accounts db' = accounts db" using same_frame_sel(1) [OF p(4)] p(5) by simp
  show "find_txn_by_key db' (js_trim (pi_idempotencyKey inp)) = Some (fst r)"
    using e(4) p(2,5) by (simp add: view_journal_def)
  show "find_txn_by_key db' k \<noteq> None \<longleftrightarrow> find_txn_by_key db k \<noteq> None \<or> k = js_trim (pi_idempotencyKey inp)"
    using e(5) p(5) by simp
  show "payments db' = update_where (\<lambda>p. pt_txnId p = i) (upd (lt_ledgerTxnId (fst r))) (payments db)"
    using p(2,5) by (simp add: view_journal_def)
  show "\<exists>p\<in>set (payments db). pt_txnId p = i" by (rule p)
qed

text \<open>The keys of the three journals of a payment.\<close>

definition collection_key :: "string \<Rightarrow> string" where
  "collection_key i = js_trim (''ledger:provider-collection:'' @ i)"

definition accrual_key :: "string \<Rightarrow> string" where
  "accrual_key i = js_trim (''ledger:refund-accrual:'' @ i)"

definition settlement_key :: "string \<Rightarrow> string" where
  "settlement_key i = js_trim (''ledger:refund-settlement:'' @ i)"

lemma js_trim_prefix:
  assumes "p \<noteq> []" "\<not> is_js_space (hd p)" "i \<noteq> []" "js_trim i = i"
  shows "js_trim (p @ i) = p @ i"
proof (rule js_trim_ends)
  have "\<not> is_js_space (last i)"
  proof
    assume "is_js_space (last i)"
    define d where "d = dropWhile is_js_space i"
    have i: "rev (dropWhile is_js_space (rev d)) = i" using assms(4) by (simp add: js_trim_def d_def)
    then have "dropWhile is_js_space (rev d) = rev i" by (metis rev_rev_ident)
    moreover have "rev i \<noteq> []" using assms(3) by simp
    ultimately have "\<not> is_js_space (hd (rev i))" by (metis hd_dropWhile)
    then show False using \<open>is_js_space (last i)\<close> assms(3) by (simp add: hd_rev)
  qed
  then show "\<not> is_js_space (last (p @ i))" using assms(3) by simp
qed (use assms in auto)

lemma payment_keys:
  assumes "i \<noteq> []" "js_trim i = i"
  shows "collection_key i = ''ledger:provider-collection:'' @ i"
    and "accrual_key i = ''ledger:refund-accrual:'' @ i"
    and "settlement_key i = ''ledger:refund-settlement:'' @ i"
proof -
  have "\<not> is_js_space (CHR ''l'')" by code_simp
  then show "collection_key i = ''ledger:provider-collection:'' @ i"
    "accrual_key i = ''ledger:refund-accrual:'' @ i" "settlement_key i = ''ledger:refund-settlement:'' @ i"
    unfolding collection_key_def accrual_key_def settlement_key_def
    by (simp_all only: js_trim_prefix [OF _ _ assms] list.sel list.distinct not_False_eq_True simp_thms)
qed

lemma collection_effect:
  assumes "recordProviderCollectionInTransaction env inp db = Inr (r, db')" "ledger_ok db" "accounts_trimmed db"
    and "\<not> linked_by pt_collectionLedgerTxnId (ci_paymentTxnId inp) db"
    and "find_txn_by_key db (collection_key (ci_paymentTxnId inp)) = None"
  obtains code clearing destination where "collectionClearingCode (ci_gateway inp) = Inr code"
    "find_account_by_code db code = Some clearing"
    "find_account_by_code db (disposition_code (ci_disposition inp)) = Some destination"
    "transferred (la_accountId clearing) (la_accountId destination) (ci_amountNgn inp) db db'"
    "ledger_ok db'" "accounts db' = accounts db"
    "find_txn_by_key db' (collection_key (ci_paymentTxnId inp)) = Some (fst r)"
    "\<And>k. find_txn_by_key db' k \<noteq> None \<longleftrightarrow> find_txn_by_key db k \<noteq> None \<or> k = collection_key (ci_paymentTxnId inp)"
    "payments db' = update_where (\<lambda>p. pt_txnId p = ci_paymentTxnId inp)
       (\<lambda>p. p\<lparr>pt_collectionLedgerTxnId := Some (lt_ledgerTxnId (fst r))\<rparr>) (payments db)"
  using assms(1)
proof (cases rule: collection_cases)
  case (already p j)
  then show ?thesis using assms(4) by (simp add: linked_by_def)
next
  case (fresh p code clearing destination)
  have k: "js_trim (pi_idempotencyKey (collection_post inp a b)) = collection_key (ci_paymentTxnId inp)" for a b
    by (simp add: collection_post_def collection_key_def)
  note e = post_and_link_effect [OF fresh(6) assms(2), unfolded k, OF assms(5)
      _ accounts_trimmedD [OF assms(3) fresh(4)] accounts_trimmedD [OF assms(3) fresh(5)]]
  show ?thesis by (rule that [OF fresh(3-5)]) (rule e, simp add: collection_post_def)+
qed

lemma accrual_effect:
  assumes "recordRefundAccrualInTransaction env inp db = Inr (r, db')" "ledger_ok db" "accounts_trimmed db"
    and "\<not> linked_by pt_refundAccrualLedgerTxnId (ai_paymentTxnId inp) db"
    and "find_txn_by_key db (accrual_key (ai_paymentTxnId inp)) = None"
  obtains source payable where
    "find_account_by_code db (disposition_code (ai_source inp)) = Some source"
    "find_account_by_code db REFUND_PAYABLE_CODE = Some payable"
    "transferred (la_accountId source) (la_accountId payable) (ai_amountNgn inp) db db'"
    "ledger_ok db'" "accounts db' = accounts db"
    "find_txn_by_key db' (accrual_key (ai_paymentTxnId inp)) = Some (fst r)"
    "\<And>k. find_txn_by_key db' k \<noteq> None \<longleftrightarrow> find_txn_by_key db k \<noteq> None \<or> k = accrual_key (ai_paymentTxnId inp)"
    "payments db' = update_where (\<lambda>p. pt_txnId p = ai_paymentTxnId inp)
       (\<lambda>p. p\<lparr>pt_refundAccrualLedgerTxnId := Some (lt_ledgerTxnId (fst r))\<rparr>) (payments db)"
  using assms(1)
proof (cases rule: accrual_cases)
  case (already p j)
  then show ?thesis using assms(4) by (simp add: linked_by_def)
next
  case (fresh p source payable)
  have k: "js_trim (pi_idempotencyKey (accrual_post inp a b)) = accrual_key (ai_paymentTxnId inp)" for a b
    by (simp add: accrual_post_def accrual_key_def)
  note e = post_and_link_effect [OF fresh(5) assms(2), unfolded k, OF assms(5)
      _ accounts_trimmedD [OF assms(3) fresh(3)] accounts_trimmedD [OF assms(3) fresh(4)]]
  show ?thesis by (rule that [OF fresh(3,4)]) (rule e, simp add: accrual_post_def)+
qed

lemma settlement_effect:
  assumes "recordRefundSettlementInTransaction env inp db = Inr (r, db')" "ledger_ok db" "accounts_trimmed db"
    and "\<not> linked_by pt_refundSettlementLedgerTxnId (si_paymentTxnId inp) db"
    and "find_txn_by_key db (settlement_key (si_paymentTxnId inp)) = None"
  obtains code payable clearing where
    "find_account_by_code db REFUND_PAYABLE_CODE = Some payable"
    "payoutClearingCode (si_gateway inp) = Inr code" "find_account_by_code db code = Some clearing"
    "transferred (la_accountId payable) (la_accountId clearing) (si_amountNgn inp) db db'"
    "ledger_ok db'" "accounts db' = accounts db"
    "find_txn_by_key db' (settlement_key (si_paymentTxnId inp)) = Some (fst r)"
    "\<And>k. find_txn_by_key db' k \<noteq> None \<longleftrightarrow> find_txn_by_key db k \<noteq> None \<or> k = settlement_key (si_paymentTxnId inp)"
    "payments db' = update_where (\<lambda>p. pt_txnId p = si_paymentTxnId inp)
       (\<lambda>p. p\<lparr>pt_refundSettlementLedgerTxnId := Some (lt_ledgerTxnId (fst r))\<rparr>) (payments db)"
  using assms(1)
proof (cases rule: settlement_cases)
  case (already p j)
  then show ?thesis using assms(4) by (simp add: linked_by_def)
next
  case (fresh p code payable clearing)
  have k: "js_trim (pi_idempotencyKey (settlement_post inp a b)) = settlement_key (si_paymentTxnId inp)" for a b
    by (simp add: settlement_post_def settlement_key_def)
  note e = post_and_link_effect [OF fresh(7) assms(2), unfolded k, OF assms(5)
      _ accounts_trimmedD [OF assms(3) fresh(4)] accounts_trimmedD [OF assms(3) fresh(6)]]
  show ?thesis by (rule that [OF fresh(4-6)]) (rule e, simp add: settlement_post_def)+
qed

section \<open>Runs of the payment accounting\<close>

text \<open>
  The payments table with its links, while anything else happens to the ledger. A payment
  row is created unlinked (the other services create it); its id is a generated one.
\<close>

inductive payment_step :: "db \<Rightarrow> db \<Rightarrow> bool" where
  step_collect: "recordProviderCollectionInTransaction (env :: env) inp db = Inr (r, db') \<Longrightarrow> payment_step db db'"
| step_accrue: "recordRefundAccrualInTransaction (env :: env) inp db = Inr (r, db') \<Longrightarrow> payment_step db db'"
| step_settle: "recordRefundSettlementInTransaction (env :: env) inp db = Inr (r, db') \<Longrightarrow> payment_step db db'"
| step_create: "find_payment db (pt_txnId p) = None \<Longrightarrow> pt_txnId p \<noteq> [] \<Longrightarrow> js_trim (pt_txnId p) = pt_txnId p \<Longrightarrow>
    pt_collectionLedgerTxnId p = None \<Longrightarrow> pt_refundAccrualLedgerTxnId p = None \<Longrightarrow>
    pt_refundSettlementLedgerTxnId p = None \<Longrightarrow> payment_step db (db\<lparr>payments := payments db @ [p]\<rparr>)"
| step_ledger: "ledger_step db db' \<Longrightarrow> payments db' = payments db \<Longrightarrow> payment_step db db'"

definition names_journal :: "db \<Rightarrow> string \<Rightarrow> string option \<Rightarrow> bool" where
  "names_journal db key link \<longleftrightarrow>
     (\<forall>j. link = Some j \<longrightarrow> (\<exists>t. find_txn_by_key db key = Some t \<and> lt_ledgerTxnId t = j))"

definition payments_ok :: "db \<Rightarrow> bool" where
  "payments_ok db \<longleftrightarrow> ledger_ok db \<and> distinct (map pt_txnId (payments db)) \<and>
     (\<forall>p\<in>set (payments db). pt_txnId p \<noteq> [] \<and> js_trim (pt_txnId p) = pt_txnId p \<and>
        names_journal db (collection_key (pt_txnId p)) (pt_collectionLedgerTxnId p) \<and>
        names_journal db (accrual_key (pt_txnId p)) (pt_refundAccrualLedgerTxnId p) \<and>
        names_journal db (settlement_key (pt_txnId p)) (pt_refundSettlementLedgerTxnId p) \<and>
        (pt_refundSettlementLedgerTxnId p \<noteq> None \<longrightarrow> pt_refundAccrualLedgerTxnId p \<noteq> None))"

lemma names_journal_append:
  "names_journal db k l \<Longrightarrow> txns db' = txns db @ ts \<Longrightarrow> names_journal db' k l"
  unfolding names_journal_def using find_txn_by_key_append by blast

lemma names_journal_keep:
  assumes "names_journal db k l" "\<exists>ts. txns db' = txns db @ ts"
  shows "names_journal db' k l"
  using assms names_journal_append by blast

lemma post_and_link_keeps:
  assumes "post_and_link env inp col upd i db = Inr (r, db')" "ledger_ok db"
  shows "ledger_ok db'" and "\<exists>ts. txns db' = txns db @ ts"
    and "find_txn_by_key db' (js_trim (pi_idempotencyKey inp)) = Some (fst r)"
    and "payments db' = update_where (\<lambda>p. pt_txnId p = i) (upd (lt_ledgerTxnId (fst r))) (payments db)"
proof -
  obtain v db1 where p: "postInTransaction env inp db = Inr (v, db1)" "r = view_journal v"
    "db' = db1\<lparr>payments := update_where (\<lambda>p. pt_txnId p = i) (upd (lt_ledgerTxnId (tv_txn v))) (payments db)\<rparr>"
    using assms(1) by (rule post_and_link_cases)
  note q = p(1) [unfolded postInTransaction_def]
  show "ledger_ok db'" using postInternal_ledger_ok [OF q assms(2)] p(3) by simp
  show "\<exists>ts. txns db' = txns db @ ts" using postInternal_append [OF q] p(3) by simp
  show "find_txn_by_key db' (js_trim (pi_idempotencyKey inp)) = Some (fst r)"
    using posted_key_found [OF q assms(2)] p(2,3) by (auto simp: view_journal_def)
  show "payments db' = update_where (\<lambda>p. pt_txnId p = i) (upd (lt_ledgerTxnId (fst r))) (payments db)"
    using p(2,3) by (simp add: view_journal_def)
qed

lemma payments_okD:
  assumes "payments_ok db" "p \<in> set (payments db)"
  shows "names_journal db (collection_key (pt_txnId p)) (pt_collectionLedgerTxnId p)"
    and "names_journal db (accrual_key (pt_txnId p)) (pt_refundAccrualLedgerTxnId p)"
    and "names_journal db (settlement_key (pt_txnId p)) (pt_refundSettlementLedgerTxnId p)"
    and "pt_refundSettlementLedgerTxnId p \<noteq> None \<Longrightarrow> pt_refundAccrualLedgerTxnId p \<noteq> None"
  using assms by (auto simp: payments_ok_def)

lemma payments_ok_link:
  assumes ok: "payments_ok db" and link: "post_and_link env inp col upd i db = Inr (r, db')"
    and ids: "\<And>j p. pt_txnId (upd j p) = pt_txnId p"
    and key: "\<And>p. p \<in> set (payments db) \<Longrightarrow> pt_txnId p = i \<Longrightarrow>
      names_journal db' (collection_key i) (pt_collectionLedgerTxnId (upd (lt_ledgerTxnId (fst r)) p)) \<and>
      names_journal db' (accrual_key i) (pt_refundAccrualLedgerTxnId (upd (lt_ledgerTxnId (fst r)) p)) \<and>
      names_journal db' (settlement_key i) (pt_refundSettlementLedgerTxnId (upd (lt_ledgerTxnId (fst r)) p)) \<and>
      (pt_refundSettlementLedgerTxnId (upd (lt_ledgerTxnId (fst r)) p) \<noteq> None \<longrightarrow>
         pt_refundAccrualLedgerTxnId (upd (lt_ledgerTxnId (fst r)) p) \<noteq> None)"
  shows "payments_ok db'"
proof -
  have lok: "ledger_ok db" using ok by (simp add: payments_ok_def)
  note k = post_and_link_keeps [OF link lok]
  note keep = names_journal_keep [OF _ k(2)]
  have "map pt_txnId (payments db') = map pt_txnId (payments db)"
    unfolding k(4) by (rule map_update_where) (simp add: ids)
  then have d: "distinct (map pt_txnId (payments db'))" using ok by (simp add: payments_ok_def)
  show ?thesis
    unfolding payments_ok_def
  proof (intro conjI ballI k(1) d)
    fix p' assume "p' \<in> set (payments db')"
    then obtain p where p: "p \<in> set (payments db)"
      "p' = (if pt_txnId p = i then upd (lt_ledgerTxnId (fst r)) p else p)"
      by (auto simp: k(4) set_update_where)
    have old: "pt_txnId p \<noteq> []" "js_trim (pt_txnId p) = pt_txnId p"
      "names_journal db' (collection_key (pt_txnId p)) (pt_collectionLedgerTxnId p)"
      "names_journal db' (accrual_key (pt_txnId p)) (pt_refundAccrualLedgerTxnId p)"
      "names_journal db' (settlement_key (pt_txnId p)) (pt_refundSettlementLedgerTxnId p)"
      "pt_refundSettlementLedgerTxnId p \<noteq> None \<longrightarrow> pt_refundAccrualLedgerTxnId p \<noteq> None"
      using ok p(1) keep [OF payments_okD(1) [OF ok p(1)]] keep [OF payments_okD(2) [OF ok p(1)]]
        keep [OF payments_okD(3) [OF ok p(1)]] by (simp_all add: payments_ok_def)
    have new: "pt_txnId p = i \<Longrightarrow> names_journal db' (collection_key i) (pt_collectionLedgerTxnId p') \<and>
      names_journal db' (accrual_key i) (pt_refundAccrualLedgerTxnId p') \<and>
      names_journal db' (settlement_key i) (pt_refundSettlementLedgerTxnId p') \<and>
      (pt_refundSettlementLedgerTxnId p' \<noteq> None \<longrightarrow> pt_refundAccrualLedgerTxnId p' \<noteq> None)"
      using key [OF p(1)] p(2) by simp
    have id: "pt_txnId p' = pt_txnId p" using p(2) ids by simp
    show "pt_txnId p' \<noteq> []" "js_trim (pt_txnId p') = pt_txnId p'" using old(1,2) id by simp_all
    show "names_journal db' (collection_key (pt_txnId p')) (pt_collectionLedgerTxnId p')"
      "names_journal db' (accrual_key (pt_txnId p')) (pt_refundAccrualLedgerTxnId p')"
      "names_journal db' (settlement_key (pt_txnId p')) (pt_refundSettlementLedgerTxnId p')"
      "pt_refundSettlementLedgerTxnId p' \<noteq> None \<longrightarrow> pt_refundAccrualLedgerTxnId p' \<noteq> None"
      unfolding id using old(3-6) new p(2) by (cases "pt_txnId p = i"; simp)+
  qed
qed

lemma names_posted:
  "find_txn_by_key db k = Some t \<Longrightarrow> names_journal db k (Some (lt_ledgerTxnId t))"
  by (simp add: names_journal_def)

lemma payment_step_keeps:
  assumes "payment_step db db'" "payments_ok db"
  shows "payments_ok db'"
  using assms(1)
proof (cases rule: payment_step.cases)
  case (step_collect env inp r)
  from step_collect show ?thesis
  proof (cases rule: collection_cases)
    case (fresh p code clearing destination)
    note k = post_and_link_keeps [OF fresh(6)]
    have lok: "ledger_ok db" using assms(2) by (simp add: payments_ok_def)
    have key: "names_journal db' (collection_key (ci_paymentTxnId inp)) (Some (lt_ledgerTxnId (fst r)))"
      using names_posted [OF k(3) [OF lok]] by (simp add: collection_post_def collection_key_def)
    show ?thesis
    proof (rule payments_ok_link [OF assms(2) fresh(6)], simp, goal_cases)
      case (1 q)
      note q = 1
      note old = payments_okD [OF assms(2) q(1), unfolded q(2)] and keep = names_journal_keep [OF _ k(2) [OF lok]]
      show ?case using key keep [OF old(1)] keep [OF old(2)] keep [OF old(3)] old(4) by simp
    qed
  qed (use assms(2) in simp)
next
  case (step_accrue env inp r)
  from step_accrue show ?thesis
  proof (cases rule: accrual_cases)
    case (fresh p source payable)
    note k = post_and_link_keeps [OF fresh(5)]
    have lok: "ledger_ok db" using assms(2) by (simp add: payments_ok_def)
    have key: "names_journal db' (accrual_key (ai_paymentTxnId inp)) (Some (lt_ledgerTxnId (fst r)))"
      using names_posted [OF k(3) [OF lok]] by (simp add: accrual_post_def accrual_key_def)
    show ?thesis
    proof (rule payments_ok_link [OF assms(2) fresh(5)], simp, goal_cases)
      case (1 q)
      note q = 1
      note old = payments_okD [OF assms(2) q(1), unfolded q(2)] and keep = names_journal_keep [OF _ k(2) [OF lok]]
      show ?case using key keep [OF old(1)] keep [OF old(2)] keep [OF old(3)] old(4) by simp
    qed
  qed (use assms(2) in simp)
next
  case (step_settle env inp r)
  from step_settle show ?thesis
  proof (cases rule: settlement_cases)
    case (fresh p code payable clearing)
    note k = post_and_link_keeps [OF fresh(7)]
    have lok: "ledger_ok db" and d: "distinct (map pt_txnId (payments db))"
      using assms(2) by (simp_all add: payments_ok_def)
    have same: "q = p" if "q \<in> set (payments db)" "pt_txnId q = si_paymentTxnId inp" for q
    proof -
      have "p \<in> set (payments db)" "pt_txnId p = si_paymentTxnId inp"
        using fresh(1) by (auto simp: find_payment_def dest: find_Some_set)
      then show ?thesis using distinct_key_eq [OF d that(1)] that(2) by simp
    qed
    have key: "names_journal db' (settlement_key (si_paymentTxnId inp)) (Some (lt_ledgerTxnId (fst r)))"
      using names_posted [OF k(3) [OF lok]] by (simp add: settlement_post_def settlement_key_def)
    show ?thesis
    proof (rule payments_ok_link [OF assms(2) fresh(7)], simp, goal_cases)
      case (1 q)
      note q = 1
      note old = payments_okD [OF assms(2) q(1), unfolded q(2)] and keep = names_journal_keep [OF _ k(2) [OF lok]]
      show ?case using key keep [OF old(1)] keep [OF old(2)] keep [OF old(3)] fresh(2) same [OF q] by simp
    qed
  qed (use assms(2) in simp)
next
  case (step_create p)
  have "pt_txnId p \<notin> pt_txnId ` set (payments db)"
    using step_create(2) by (auto simp: find_payment_def find_None_set)
  moreover have "names_journal (db\<lparr>payments := ps\<rparr>) k l = names_journal db k l" for ps k l
    by (simp add: names_journal_def)
  ultimately show ?thesis
    using assms(2) step_create by (auto simp: payments_ok_def names_journal_def [of _ _ None])
next
  case step_ledger
  have "\<exists>ts. txns db' = txns db @ ts" using ledger_step_append [OF step_ledger(1)] by blast
  then have keep: "\<And>k l. names_journal db k l \<Longrightarrow> names_journal db' k l" using names_journal_append by blast
  have "ledger_ok db'" using ledger_run.step_keeps [OF step_ledger(1)] assms(2) by (simp add: payments_ok_def)
  then show ?thesis using assms(2) keep unfolding payments_ok_def step_ledger(2) by blast
qed

interpretation payment_run: kept_by_steps payment_step payments_ok
  by unfold_locales (rule payment_step_keeps)

lemma payments_ok_empty: "payments_ok empty_db"
  using ledger_ok_empty by (simp add: payments_ok_def empty_db_def)

section \<open>Properties\<close>

lemma linked_update_other:
  assumes "payments db' = update_where (\<lambda>p. pt_txnId p = i) f (payments db)"
    and "\<And>p. pt_txnId (f p) = pt_txnId p" "\<And>p. col (f p) = col p"
  shows "linked_by col k db' = linked_by col k db"
proof (cases "k = i")
  case True
  then have "find_payment db' k = map_option f (find_payment db k)"
    unfolding find_payment_def assms(1)
    by (intro find_update_where_same) (auto simp: assms(2))
  then show ?thesis by (auto simp: linked_by_def assms(3))
next
  case False
  then have "find_payment db' k = find_payment db k"
    unfolding find_payment_def assms(1)
    by (intro find_update_where_other) (auto simp: assms(2))
  then show ?thesis by (simp add: linked_by_def)
qed

lemma accounts_trimmed_cong: "accounts db' = accounts db \<Longrightarrow> accounts_trimmed db' = accounts_trimmed db"
  by (simp add: accounts_trimmed_def)

lemma find_code_cong: "accounts db' = accounts db \<Longrightarrow> find_account_by_code db' c = find_account_by_code db c"
  by (simp add: find_account_by_code_def)

lemma payment_keys_distinct:
  assumes "i \<noteq> []" "js_trim i = i" "k \<noteq> []" "js_trim k = k"
  shows "collection_key i \<noteq> accrual_key k" "collection_key i \<noteq> settlement_key k" "accrual_key i \<noteq> settlement_key k"
    and "collection_key i = collection_key k \<longleftrightarrow> i = k" "accrual_key i = accrual_key k \<longleftrightarrow> i = k"
      "settlement_key i = settlement_key k \<longleftrightarrow> i = k"
  by (simp_all add: payment_keys [OF assms(1,2)] payment_keys [OF assms(3,4)])

text \<open>One link names one journal, under one key.\<close>

lemma names_same_key:
  assumes "ledger_ok db" "names_journal db k (Some j)" "names_journal db k' (Some j)"
  shows "k = k'"
proof -
  obtain t t' where t: "find_txn_by_key db k = Some t" "lt_ledgerTxnId t = j"
    "find_txn_by_key db k' = Some t'" "lt_ledgerTxnId t' = j"
    using assms(2,3) by (auto simp: names_journal_def)
  then have m: "t \<in> set (txns db)" "lt_idempotencyKey t = k" "t' \<in> set (txns db)" "lt_idempotencyKey t' = k'"
    by (auto simp: find_txn_by_key_def dest: find_Some_set)
  have "distinct (map lt_ledgerTxnId (txns db))" using assms(1) by (simp add: ledger_ok_def)
  then have "t = t'" using distinct_key_eq m t by metis
  then show ?thesis using m by simp
qed


text \<open>Recording a collection happens once: on an unlinked payment it debits the gateway's
  clearing account and credits revenue or suspense by exactly the amount, touches no other
  account, and links the journal; recording it again, with whatever input for the same
  payment, changes nothing.\<close>

theorem collection_once:
  assumes "recordProviderCollectionInTransaction env inp db = Inr (r, db')" "ledger_ok db" "accounts_trimmed db"
    and "\<not> linked_by pt_collectionLedgerTxnId (ci_paymentTxnId inp) db"
    and "find_txn_by_key db (collection_key (ci_paymentTxnId inp)) = None"
  shows "(\<exists>code clearing destination. collectionClearingCode (ci_gateway inp) = Inr code \<and>
      find_account_by_code db code = Some clearing \<and>
      find_account_by_code db (disposition_code (ci_disposition inp)) = Some destination \<and>
      transferred (la_accountId clearing) (la_accountId destination) (ci_amountNgn inp) db db') \<and>
    (\<forall>env' inp' r' db''. ci_paymentTxnId inp' = ci_paymentTxnId inp \<longrightarrow>
      recordProviderCollectionInTransaction (env' :: env) inp' db' = Inr (r', db'') \<longrightarrow> db'' = db')"
proof -
  have l: "linked_by pt_collectionLedgerTxnId (ci_paymentTxnId inp) db'"
    using collection.op_links [of "(env, inp)" db r db'] assms(1) by simp
  then have again: "\<forall>env' inp' r' db''. ci_paymentTxnId inp' = ci_paymentTxnId inp \<longrightarrow>
      recordProviderCollectionInTransaction (env' :: env) inp' db' = Inr (r', db'') \<longrightarrow> db'' = db'"
  proof (intro allI impI)
    fix env' :: env and inp' r' db''
    assume "ci_paymentTxnId inp' = ci_paymentTxnId inp"
      "recordProviderCollectionInTransaction env' inp' db' = Inr (r', db'')"
    then show "db'' = db'"
      using l by (elim collection_cases) (auto simp: linked_by_def)
  qed
  show ?thesis by (rule collection_effect [OF assms]) (use again in blast)
qed

text \<open>C33. A full refund leaves no trace outside the providers' accounts: after a collection into
  revenue or suspense, an accrual of the same amount from there and its settlement, every
  account is where it was except the collection clearing account, which the amount was
  debited to, and the payout clearing account, which it was credited to.\<close>

theorem refund_round_trip:
  assumes "ledger_ok db" "accounts_trimmed db" "i \<noteq> []" "js_trim i = i"
    and "find_payment db i = Some p" "pt_collectionLedgerTxnId p = None"
      "pt_refundAccrualLedgerTxnId p = None" "pt_refundSettlementLedgerTxnId p = None"
    and "find_txn_by_key db (collection_key i) = None" "find_txn_by_key db (accrual_key i) = None"
      "find_txn_by_key db (settlement_key i) = None"
    and "recordProviderCollectionInTransaction env1 c db = Inr (r1, db1)"
      "recordRefundAccrualInTransaction env2 a db1 = Inr (r2, db2)"
      "recordRefundSettlementInTransaction env3 s db2 = Inr (r3, db3)"
    and "ci_paymentTxnId c = i" "ai_paymentTxnId a = i" "si_paymentTxnId s = i"
    and "ai_source a = ci_disposition c" "ai_amountNgn a = ci_amountNgn c" "si_amountNgn s = ci_amountNgn c"
  shows "\<exists>cc collect pc payout. collectionClearingCode (ci_gateway c) = Inr cc \<and>
    find_account_by_code db cc = Some collect \<and>
    payoutClearingCode (si_gateway s) = Inr pc \<and> find_account_by_code db pc = Some payout \<and>
    (\<forall>x. net db3 x = net db x - (if x = la_accountId collect then ci_amountNgn c else 0)
       + (if x = la_accountId payout then ci_amountNgn c else 0))"
proof -
  note kd = payment_keys_distinct [OF assms(3,4,3,4)]
  have n1: "\<not> linked_by pt_collectionLedgerTxnId (ci_paymentTxnId c) db"
    using assms(5,6,15) by (simp add: linked_by_def)
  have k1: "find_txn_by_key db (collection_key (ci_paymentTxnId c)) = None" using assms(9,15) by simp
  obtain cc collect dst where e1: "collectionClearingCode (ci_gateway c) = Inr cc"
    "find_account_by_code db cc = Some collect"
    "find_account_by_code db (disposition_code (ci_disposition c)) = Some dst"
    "transferred (la_accountId collect) (la_accountId dst) (ci_amountNgn c) db db1"
    "ledger_ok db1" "accounts db1 = accounts db"
    "\<And>k. find_txn_by_key db1 k \<noteq> None \<longleftrightarrow> find_txn_by_key db k \<noteq> None \<or> k = collection_key (ci_paymentTxnId c)"
    "payments db1 = update_where (\<lambda>p. pt_txnId p = ci_paymentTxnId c)
       (\<lambda>p. p\<lparr>pt_collectionLedgerTxnId := Some (lt_ledgerTxnId (fst r1))\<rparr>) (payments db)"
    using collection_effect [OF assms(12,1,2) n1 k1] by metis
  have t1: "accounts_trimmed db1" using accounts_trimmed_cong [OF e1(6)] assms(2) by simp
  have n2: "\<not> linked_by pt_refundAccrualLedgerTxnId (ai_paymentTxnId a) db1"
    and n2': "\<not> linked_by pt_refundSettlementLedgerTxnId (si_paymentTxnId s) db1"
    using assms(5,7,8,16,17) by (simp_all add: linked_update_other [OF e1(8)], simp_all add: linked_by_def)
  have k2: "find_txn_by_key db1 (accrual_key (ai_paymentTxnId a)) = None"
    using e1(7) [of "accrual_key (ai_paymentTxnId a)"] assms(10,15,16) kd by auto
  obtain src payable where e2: "find_account_by_code db1 (disposition_code (ai_source a)) = Some src"
    "find_account_by_code db1 REFUND_PAYABLE_CODE = Some payable"
    "transferred (la_accountId src) (la_accountId payable) (ai_amountNgn a) db1 db2"
    "ledger_ok db2" "accounts db2 = accounts db1"
    "\<And>k. find_txn_by_key db2 k \<noteq> None \<longleftrightarrow> find_txn_by_key db1 k \<noteq> None \<or> k = accrual_key (ai_paymentTxnId a)"
    "payments db2 = update_where (\<lambda>p. pt_txnId p = ai_paymentTxnId a)
       (\<lambda>p. p\<lparr>pt_refundAccrualLedgerTxnId := Some (lt_ledgerTxnId (fst r2))\<rparr>) (payments db1)"
    using accrual_effect [OF assms(13) e1(5) t1 n2 k2] by metis
  have t2: "accounts_trimmed db2" using accounts_trimmed_cong [OF e2(5)] t1 by simp
  have n3: "\<not> linked_by pt_refundSettlementLedgerTxnId (si_paymentTxnId s) db2"
    using n2' by (simp add: linked_update_other [OF e2(7)])
  have k3: "find_txn_by_key db2 (settlement_key (si_paymentTxnId s)) = None"
    using e2(6) [of "settlement_key (si_paymentTxnId s)"] e1(7) [of "settlement_key (si_paymentTxnId s)"]
      assms(11,15-17) kd by auto
  obtain pc payable' payout where e3: "find_account_by_code db2 REFUND_PAYABLE_CODE = Some payable'"
    "payoutClearingCode (si_gateway s) = Inr pc" "find_account_by_code db2 pc = Some payout"
    "transferred (la_accountId payable') (la_accountId payout) (si_amountNgn s) db2 db3"
    using settlement_effect [OF assms(14) e2(4) t2 n3 k3] by metis
  have same: "src = dst" "payable' = payable" "find_account_by_code db pc = Some payout"
    using e1(3,6) e2(1,2,5) e3(1,3) assms(18) find_code_cong [of db1 db] find_code_cong [of db2 db1] by auto
  have "net db3 x = net db x - (if x = la_accountId collect then ci_amountNgn c else 0)
       + (if x = la_accountId payout then ci_amountNgn c else 0)" for x
    using transferred_trans_net [OF e1(4), of x] transferred_trans_net [OF e2(3), of x]
      transferred_trans_net [OF e3(4), of x] same assms(19,20) by simp
  then show ?thesis using e1(1,2) e3(2) same(3) by blast
qed

section \<open>Witnesses\<close>

definition ex_payment :: payment_transaction where
  "ex_payment = \<lparr>pt_txnId = ''p1'', pt_gatewayReference = ''R'', pt_gateway = MONNIFY, pt_amountNgn = 500, pt_buyerPhone = ''080'',
     pt_buyerUserId = None, pt_channel = CHANNEL_DIRECT, pt_agentId = None, pt_ticketCount = 1, pt_pricingContext = NORMAL, pt_jackpotDiscountOfferId = None, pt_status = PS_CONFIRMED, pt_confirmedAt = Some 0,
     pt_collectionLedgerTxnId = None, pt_refundAccrualLedgerTxnId = None, pt_refundSettlementLedgerTxnId = None\<rparr>"

definition ex_system :: "string \<Rightarrow> string \<Rightarrow> LedgerAccountType \<Rightarrow> ledger_account" where
  "ex_system i code ty = (ex_account i ty)\<lparr>la_code := code\<rparr>"

definition ex_pay_db :: db where
  "ex_pay_db = empty_db\<lparr>accounts := [ex_system ''M'' MONNIFY_COLLECTION_CLEARING_CODE ASSET,
      ex_system ''S'' SUSPENSE_CODE LIABILITY, ex_system ''R'' REFUND_PAYABLE_CODE LIABILITY,
      ex_system ''P'' MONNIFY_PAYOUT_CLEARING_CODE ASSET],
    payments := [ex_payment]\<rparr>"

definition ex_collect :: collection_input where
  "ex_collect = \<lparr>ci_paymentTxnId = ''p1'', ci_gateway = MONNIFY, ci_amountNgn = 500,
     ci_disposition = TO_SUSPENSE, ci_providerReference = ''ref'', ci_providerTransactionId = None,
     ci_occurredAt = None\<rparr>"

definition ex_accrue :: accrual_input where
  "ex_accrue = \<lparr>ai_paymentTxnId = ''p1'', ai_amountNgn = 500, ai_source = TO_SUSPENSE, ai_reason = ''r''\<rparr>"

definition ex_settle :: settlement_input where
  "ex_settle = \<lparr>si_paymentTxnId = ''p1'', si_gateway = MONNIFY, si_amountNgn = 500, si_providerReference = None\<rparr>"

definition ex_refund_run :: "db res" where
  "ex_refund_run =
     bind_res (recordProviderCollectionInTransaction ex_env ex_collect ex_pay_db) (\<lambda>(r1, db1).
     bind_res (recordRefundAccrualInTransaction ex_env ex_accrue db1) (\<lambda>(r2, db2).
     bind_res (recordRefundSettlementInTransaction ex_env ex_settle db2) (\<lambda>(r3, db3). Inr db3)))"

lemma ex_pay_ok: "ledger_ok ex_pay_db" "accounts_trimmed ex_pay_db" "find_payment ex_pay_db ''p1'' = Some ex_payment"
  by code_simp+

lemma ex_refund_runs: "\<exists>db3. ex_refund_run = Inr db3"
proof -
  have "case ex_refund_run of Inr _ \<Rightarrow> True | Inl _ \<Rightarrow> False" by code_simp
  then show ?thesis by (auto split: sum.splits)
qed


theorem collection_once_witness:
  "\<exists>r db'. recordProviderCollectionInTransaction ex_env ex_collect ex_pay_db = Inr (r, db') \<and>
     net db' ''S'' = net ex_pay_db ''S'' + 500"
proof -
  obtain r db' where o: "recordProviderCollectionInTransaction ex_env ex_collect ex_pay_db = Inr (r, db')"
    using ex_refund_runs by (auto simp: ex_refund_run_def res_simps)
  have n: "\<not> linked_by pt_collectionLedgerTxnId (ci_paymentTxnId ex_collect) ex_pay_db"
    using ex_pay_ok(3) by (simp add: linked_by_def ex_collect_def ex_payment_def)
  have k: "find_txn_by_key ex_pay_db (collection_key (ci_paymentTxnId ex_collect)) = None" by code_simp
  have s: "\<exists>a. find_account_by_code ex_pay_db (disposition_code (ci_disposition ex_collect)) = Some a \<and> la_accountId a = ''S''"
    by (simp add: ex_pay_db_def find_account_by_code_def ex_collect_def disposition_code_def ex_system_def ex_account_def
        system_codes)
  have "net db' ''S'' = net ex_pay_db ''S'' + ci_amountNgn ex_collect"
    using collection_once [OF o ex_pay_ok(1,2) n k] s by (auto simp: transferred_def)
  then show ?thesis using o by (auto simp: ex_collect_def)
qed

theorem refund_round_trip_witness:
  "\<exists>db3. ex_refund_run = Inr db3 \<and> net db3 ''S'' = net ex_pay_db ''S'' \<and> net db3 ''R'' = net ex_pay_db ''R''"
proof -
  obtain r1 db1 r2 db2 r3 db3 where o: "recordProviderCollectionInTransaction ex_env ex_collect ex_pay_db = Inr (r1, db1)"
    "recordRefundAccrualInTransaction ex_env ex_accrue db1 = Inr (r2, db2)"
    "recordRefundSettlementInTransaction ex_env ex_settle db2 = Inr (r3, db3)" "ex_refund_run = Inr db3"
    using ex_refund_runs by (auto simp: ex_refund_run_def res_simps)
  have k: "find_txn_by_key ex_pay_db (collection_key ''p1'') = None"
    "find_txn_by_key ex_pay_db (accrual_key ''p1'') = None" "find_txn_by_key ex_pay_db (settlement_key ''p1'') = None"
    "js_trim ''p1'' = ''p1''" by code_simp+
  have a: "\<And>a. find_account_by_code ex_pay_db MONNIFY_COLLECTION_CLEARING_CODE = Some a \<Longrightarrow> la_accountId a = ''M''"
    "\<And>a. find_account_by_code ex_pay_db MONNIFY_PAYOUT_CLEARING_CODE = Some a \<Longrightarrow> la_accountId a = ''P''"
    by (simp_all add: ex_pay_db_def find_account_by_code_def ex_system_def ex_account_def system_codes split: if_splits)
  show ?thesis
    using refund_round_trip [OF ex_pay_ok(1,2) _ k(4) ex_pay_ok(3) _ _ _ k(1-3) o(1-3)] o(4) a
    by (auto simp: ex_payment_def ex_collect_def ex_accrue_def ex_settle_def)
qed

end
