(* ===== verification/Wallet.thy ===== *)
theory Wallet
  imports Payment_Accounting
begin

text \<open>
  \<open>apps/api/src/wallet/wallet.service.ts\<close>: prepaid wallets of customers and agents. A wallet
  owns two liability accounts of the ledger, available and held; its balances are sums over
  ledger entries, and every movement is a ledger journal. A row lock on the wallet
  serialises the movements of one wallet, so each operation reads the database it writes.
\<close>

section \<open>Guards\<close>

definition validateAmount :: "int \<Rightarrow> unit res" where
  "validateAmount amountNgn =
     (if \<not> is_safe_integer amountNgn \<or> amountNgn \<le> 0
      then Inl (BadRequestException ''Wallet amount must be a positive whole naira value'')
      else Inr ())"

definition normalizeIdempotencyKey :: "string \<Rightarrow> string res" where
  "normalizeIdempotencyKey value =
     (let key = js_trim value in
      if key = [] then Inl (BadRequestException ''Idempotency key is required'')
      else if length key > 200 then Inl (BadRequestException ''Idempotency key is too long'')
      else Inr key)"

definition assertCanReceive :: "WalletStatus \<Rightarrow> unit res" where
  "assertCanReceive status =
     (if status = WS_CLOSED then Inl (ConflictException ''Wallet is closed'') else Inr ())"

definition assertCanSpend :: "WalletStatus \<Rightarrow> unit res" where
  "assertCanSpend status =
     (if status \<noteq> WS_ACTIVE then Inl (ConflictException (''Wallet is '' @ wallet_status_str status))
      else Inr ())"

definition assertNotClosed :: "WalletStatus \<Rightarrow> unit res" where
  "assertNotClosed status =
     (if status = WS_CLOSED then Inl (ConflictException ''Wallet is closed'') else Inr ())"

definition assertExternalCounterAccount :: "wallet \<Rightarrow> string \<Rightarrow> unit res" where
  "assertExternalCounterAccount w counterAccountId =
     (if counterAccountId = w_availableAccountId w \<or> counterAccountId = w_heldAccountId w
      then Inl (BadRequestException ''Counter account cannot be one of the wallet accounts'')
      else Inr ())"

definition lockWallet :: "db \<Rightarrow> string \<Rightarrow> wallet res" where
  "lockWallet db walletId =
     (case find_wallet db walletId of
        None \<Rightarrow> Inl (NotFoundException ''Wallet not found'')
      | Some w \<Rightarrow> Inr w)"

section \<open>Balances\<close>

record balances =
  bal_availableNgn :: int
  bal_heldNgn :: int
  bal_totalNgn :: int

text \<open>The loop of \<open>getBalances\<close> over the grouped rows, with its four accumulators.\<close>

fun balances_loop ::
  "string \<Rightarrow> string \<Rightarrow> ((string \<times> LedgerEntrySide) \<times> int) list
    \<Rightarrow> int \<times> int \<times> int \<times> int \<Rightarrow> int \<times> int \<times> int \<times> int" where
  "balances_loop av he [] acc = acc"
| "balances_loop av he (((accountId, side), amount) # rows) (ad, ac, hd1, hc) =
     (let (ad, ac) = (if accountId = av then (if side = DEBIT then (ad + amount, ac) else (ad, ac + amount)) else (ad, ac));
          (hd1, hc) = (if accountId = he then (if side = DEBIT then (hd1 + amount, hc) else (hd1, hc + amount)) else (hd1, hc))
      in balances_loop av he rows (ad, ac, hd1, hc))"

definition getBalances :: "db \<Rightarrow> string \<Rightarrow> string \<Rightarrow> balances" where
  "getBalances db availableAccountId heldAccountId =
     (let rows = group_sums (\<lambda>(a, s). a = availableAccountId \<or> a = heldAccountId)
                   (\<lambda>e. (le_accountId e, le_side e)) (entries db);
          (ad, ac, hd1, hc) = balances_loop availableAccountId heldAccountId rows (0, 0, 0, 0) in
      \<lparr>bal_availableNgn = ac - ad, bal_heldNgn = hc - hd1, bal_totalNgn = ac - ad + hc - hd1\<rparr>)"

definition getBalancesInTx :: "db \<Rightarrow> wallet \<Rightarrow> balances" where
  "getBalancesInTx db w = getBalances db (w_availableAccountId w) (w_heldAccountId w)"

record wallet_view =
  wv_walletId :: string
  wv_ownerType :: LedgerOwnerType
  wv_ownerId :: "string option"
  wv_currency :: string
  wv_status :: WalletStatus
  wv_availableNgn :: int
  wv_heldNgn :: int
  wv_totalNgn :: int
  wv_availableAccountId :: string
  wv_heldAccountId :: string

definition toWalletView :: "db \<Rightarrow> wallet \<Rightarrow> wallet_view" where
  "toWalletView db w =
     (let b = getBalances db (w_availableAccountId w) (w_heldAccountId w) in
      \<lparr>wv_walletId = w_walletId w, wv_ownerType = w_ownerType w,
       wv_ownerId = (case w_userId w of None \<Rightarrow> w_agentId w | Some u \<Rightarrow> Some u),
       wv_currency = w_currency w, wv_status = w_status w,
       wv_availableNgn = bal_availableNgn b, wv_heldNgn = bal_heldNgn b, wv_totalNgn = bal_totalNgn b,
       wv_availableAccountId = w_availableAccountId w, wv_heldAccountId = w_heldAccountId w\<rparr>)"

definition getWallet :: "db \<Rightarrow> string \<Rightarrow> wallet_view res" where
  "getWallet db walletId =
     (case find_wallet db walletId of
        None \<Rightarrow> Inl (NotFoundException ''Wallet not found'')
      | Some w \<Rightarrow> Inr (toWalletView db w))"

definition getHold :: "db \<Rightarrow> string \<Rightarrow> wallet_hold res" where
  "getHold db holdId =
     (case find_hold db holdId of
        None \<Rightarrow> Inl (NotFoundException ''Wallet hold not found'')
      | Some h \<Rightarrow> Inr h)"

section \<open>Credit and debit\<close>

text \<open>\<open>WalletMovementContext\<close> with the wallet, the amount and the counter account.\<close>

record movement_input =
  mv_walletId :: string
  mv_amountNgn :: int
  mv_counterAccountId :: string
  mv_idempotencyKey :: string
  mv_kind :: LedgerTransactionKind
  mv_referenceType :: string
  mv_referenceId :: string
  mv_description :: "string option"
  mv_metadata :: "json option"
  mv_occurredAt :: "int option"

definition movement_post :: "movement_input \<Rightarrow> string \<Rightarrow> string \<Rightarrow> post_input" where
  "movement_post inp debitAccount creditAccount =
     \<lparr>pi_idempotencyKey = mv_idempotencyKey inp, pi_kind = mv_kind inp,
      pi_referenceType = mv_referenceType inp, pi_referenceId = mv_referenceId inp,
      pi_description = mv_description inp, pi_occurredAt = mv_occurredAt inp,
      pi_metadata = mv_metadata inp,
      pi_lines = [\<lparr>li_accountId = debitAccount, li_side = DEBIT, li_amountNgn = mv_amountNgn inp,
                    li_memo = mv_description inp\<rparr>,
                  \<lparr>li_accountId = creditAccount, li_side = CREDIT, li_amountNgn = mv_amountNgn inp,
                    li_memo = mv_description inp\<rparr>]\<rparr>"

definition creditInTransaction :: "'a env_scheme \<Rightarrow> movement_input \<Rightarrow> db \<Rightarrow> (LedgerTransactionView \<times> db) res" where
  "creditInTransaction env inp db =
     bind_res (validateAmount (mv_amountNgn inp)) (\<lambda>_.
     bind_res (lockWallet db (mv_walletId inp)) (\<lambda>w.
     bind_res (assertCanReceive (w_status w)) (\<lambda>_.
     bind_res (assertExternalCounterAccount w (mv_counterAccountId inp)) (\<lambda>_.
     postInTransaction env (movement_post inp (mv_counterAccountId inp) (w_availableAccountId w)) db))))"

definition debitInTransaction :: "'a env_scheme \<Rightarrow> movement_input \<Rightarrow> db \<Rightarrow> (LedgerTransactionView \<times> db) res" where
  "debitInTransaction env inp db =
     bind_res (validateAmount (mv_amountNgn inp)) (\<lambda>_.
     bind_res (lockWallet db (mv_walletId inp)) (\<lambda>w.
     bind_res (assertCanSpend (w_status w)) (\<lambda>_.
     bind_res (assertExternalCounterAccount w (mv_counterAccountId inp)) (\<lambda>_.
     bind_res (if find_txn_by_key db (js_trim (mv_idempotencyKey inp)) = None
                  \<and> bal_availableNgn (getBalancesInTx db w) < mv_amountNgn inp
               then Inl (ConflictException ''Insufficient wallet balance'') else Inr ()) (\<lambda>_.
     postInTransaction env (movement_post inp (w_availableAccountId w) (mv_counterAccountId inp)) db)))))"

definition credit :: "'a env_scheme \<Rightarrow> movement_input \<Rightarrow> db \<Rightarrow> ((LedgerTransactionView \<times> wallet_view) \<times> db) res" where
  "credit env inp db =
     bind_res (creditInTransaction env inp db) (\<lambda>(journal, db').
     bind_res (getWallet db' (mv_walletId inp)) (\<lambda>w. Inr ((journal, w), db')))"

definition debit :: "'a env_scheme \<Rightarrow> movement_input \<Rightarrow> db \<Rightarrow> ((LedgerTransactionView \<times> wallet_view) \<times> db) res" where
  "debit env inp db =
     bind_res (validateAmount (mv_amountNgn inp)) (\<lambda>_.
     bind_res (debitInTransaction env inp db) (\<lambda>(journal, db').
     bind_res (getWallet db' (mv_walletId inp)) (\<lambda>w. Inr ((journal, w), db'))))"

section \<open>Holds\<close>

record create_hold_input =
  ch_walletId :: string
  ch_amountNgn :: int
  ch_idempotencyKey :: string
  ch_referenceType :: string
  ch_referenceId :: string
  ch_description :: string
  ch_metadata :: "json option"
  ch_occurredAt :: "int option"

record release_input =
  rl_holdId :: string
  rl_idempotencyKey :: string
  rl_description :: "string option"
  rl_metadata :: "json option"

record capture_input =
  cp_holdId :: string
  cp_counterAccountId :: string
  cp_idempotencyKey :: string
  cp_description :: string
  cp_kind :: "LedgerTransactionKind option"
  cp_metadata :: "json option"
  cp_occurredAt :: "int option"

text \<open>\<open>walletHold.create\<close> with the columns' limits and unique indexes.\<close>

definition create_hold_row :: "'a env_scheme \<Rightarrow> db \<Rightarrow> wallet_hold \<Rightarrow> (wallet_hold \<times> db) res" where
  "create_hold_row env db h0 =
     (let h = h0\<lparr>wh_holdId := e_uuid env (seq db)\<rparr> in
      if length (wh_idempotencyKey h) > 200 \<or> length (wh_referenceType h) > 100 \<or> length (wh_referenceId h) > 180
      then Inl (PrismaError ''P2000'')
      else if wh_amountNgn h > MAX_INT4 then Inl (PrismaError ''P2020'')
      else if find_hold db (wh_holdId h) \<noteq> None \<or> find_hold_by_key db (wh_idempotencyKey h) \<noteq> None
         \<or> wh_holdLedgerTxnId h \<in> wh_holdLedgerTxnId ` set (holds db)
      then Inl unique_violation
      else Inr (h, db\<lparr>holds := holds db @ [h], seq := seq db + 1\<rparr>))"

definition hold_post :: "create_hold_input \<Rightarrow> string \<Rightarrow> wallet \<Rightarrow> post_input" where
  "hold_post inp key w =
     \<lparr>pi_idempotencyKey = ''LEDGER:'' @ key, pi_kind = WALLET_HOLD,
      pi_referenceType = ch_referenceType inp, pi_referenceId = ch_referenceId inp,
      pi_description = Some (ch_description inp), pi_occurredAt = ch_occurredAt inp,
      pi_metadata = ch_metadata inp,
      pi_lines = transfer_lines (w_availableAccountId w) (ch_description inp)
        (w_heldAccountId w) (ch_description inp) (ch_amountNgn inp)\<rparr>"

definition createHoldInTransaction :: "'a env_scheme \<Rightarrow> create_hold_input \<Rightarrow> db \<Rightarrow> (wallet_hold \<times> db) res" where
  "createHoldInTransaction env inp db =
     bind_res (validateAmount (ch_amountNgn inp)) (\<lambda>_.
     bind_res (normalizeIdempotencyKey (ch_idempotencyKey inp)) (\<lambda>idempotencyKey.
     bind_res (lockWallet db (ch_walletId inp)) (\<lambda>w.
     bind_res (assertCanSpend (w_status w)) (\<lambda>_.
     case find_hold_by_key db idempotencyKey of
       Some existing \<Rightarrow>
         (if wh_walletId existing \<noteq> ch_walletId inp \<or> wh_amountNgn existing \<noteq> ch_amountNgn inp
             \<or> wh_referenceType existing \<noteq> ch_referenceType inp \<or> wh_referenceId existing \<noteq> ch_referenceId inp
          then Inl (ConflictException ''Wallet hold idempotency key was reused with different details'')
          else Inr (existing, db))
     | None \<Rightarrow>
         (if bal_availableNgn (getBalancesInTx db w) < ch_amountNgn inp
          then Inl (ConflictException ''Insufficient wallet balance'')
          else
            bind_res (postInTransaction env (hold_post inp idempotencyKey w) db) (\<lambda>(journal, db1).
            create_hold_row env db1
              \<lparr>wh_holdId = [], wh_walletId = ch_walletId inp, wh_idempotencyKey = idempotencyKey,
               wh_referenceType = ch_referenceType inp, wh_referenceId = ch_referenceId inp,
               wh_amountNgn = ch_amountNgn inp, wh_status = HELD,
               wh_holdLedgerTxnId = lt_ledgerTxnId (tv_txn journal),
               wh_releaseLedgerTxnId = None, wh_captureLedgerTxnId = None,
               wh_releaseIdempotencyKey = None, wh_captureIdempotencyKey = None, wh_resolvedAt = None\<rparr>))))))"

definition createHold :: "'a env_scheme \<Rightarrow> create_hold_input \<Rightarrow> db \<Rightarrow> (wallet_hold \<times> db) res" where
  "createHold env inp db = createHoldInTransaction env inp db"

text \<open>\<open>walletHold.update\<close> of the resolution columns, two of them under unique indexes.\<close>

definition update_hold_row ::
  "(wallet_hold \<Rightarrow> string option) \<Rightarrow> (wallet_hold \<Rightarrow> string option) \<Rightarrow> string \<Rightarrow> string \<Rightarrow> string
    \<Rightarrow> (wallet_hold \<Rightarrow> wallet_hold) \<Rightarrow> db \<Rightarrow> (wallet_hold \<times> db) res" where
  "update_hold_row txnCol keyCol holdId txnId key upd db =
     (if \<exists>h\<in>set (holds db). wh_holdId h \<noteq> holdId \<and> (txnCol h = Some txnId \<or> keyCol h = Some key)
      then Inl unique_violation
      else
        let db' = db\<lparr>holds := update_where (\<lambda>h. wh_holdId h = holdId) upd (holds db)\<rparr> in
        bind_res (from_option (PrismaError ''P2025'') (find_hold db' holdId)) (\<lambda>h. Inr (h, db')))"

definition release_post :: "release_input \<Rightarrow> string \<Rightarrow> wallet \<Rightarrow> wallet_hold \<Rightarrow> post_input" where
  "release_post inp key w h =
     \<lparr>pi_idempotencyKey = key, pi_kind = WALLET_RELEASE,
      pi_referenceType = wh_referenceType h, pi_referenceId = wh_referenceId h,
      pi_description = Some (case rl_description inp of None \<Rightarrow> ''Release wallet hold'' | Some d \<Rightarrow> d),
      pi_occurredAt = None, pi_metadata = rl_metadata inp,
      pi_lines = transfer_lines
        (w_heldAccountId w) (case rl_description inp of None \<Rightarrow> ''Release held funds'' | Some d \<Rightarrow> d)
        (w_availableAccountId w)
        (case rl_description inp of None \<Rightarrow> ''Return funds to available balance'' | Some d \<Rightarrow> d)
        (wh_amountNgn h)\<rparr>"

definition releaseHoldInTransaction :: "'a env_scheme \<Rightarrow> release_input \<Rightarrow> db \<Rightarrow> (wallet_hold \<times> db) res" where
  "releaseHoldInTransaction env inp db =
     (case find_hold db (rl_holdId inp) of
        None \<Rightarrow> Inl (NotFoundException ''Wallet hold not found'')
      | Some hold \<Rightarrow>
         bind_res (normalizeIdempotencyKey (rl_idempotencyKey inp)) (\<lambda>idempotencyKey.
         bind_res (lockWallet db (wh_walletId hold)) (\<lambda>w.
         bind_res (assertNotClosed (w_status w)) (\<lambda>_.
         case wh_status hold of
           RELEASED \<Rightarrow>
             (if wh_releaseIdempotencyKey hold = Some idempotencyKey then Inr (hold, db)
              else Inl (ConflictException ''Wallet hold has already been released''))
         | CAPTURED \<Rightarrow> Inl (ConflictException ''Captured wallet hold cannot be released'')
         | HELD \<Rightarrow>
             bind_res (postInTransaction env (release_post inp idempotencyKey w hold) db) (\<lambda>(journal, db1).
             update_hold_row wh_releaseLedgerTxnId wh_releaseIdempotencyKey (wh_holdId hold)
               (lt_ledgerTxnId (tv_txn journal)) idempotencyKey
               (\<lambda>h. h\<lparr>wh_status := RELEASED,
                  wh_releaseLedgerTxnId := Some (lt_ledgerTxnId (tv_txn journal)),
                  wh_releaseIdempotencyKey := Some idempotencyKey,
                  wh_resolvedAt := Some (e_now env)\<rparr>) db1)))))"

definition releaseHold :: "'a env_scheme \<Rightarrow> release_input \<Rightarrow> db \<Rightarrow> (wallet_hold \<times> db) res" where
  "releaseHold env inp db =
     bind_res (releaseHoldInTransaction env inp db) (\<lambda>(_, db').
     bind_res (getHold db' (rl_holdId inp)) (\<lambda>h. Inr (h, db')))"

definition capture_post :: "capture_input \<Rightarrow> string \<Rightarrow> wallet \<Rightarrow> wallet_hold \<Rightarrow> post_input" where
  "capture_post inp key w h =
     \<lparr>pi_idempotencyKey = ''LEDGER:'' @ key,
      pi_kind = (case cp_kind inp of None \<Rightarrow> WALLET_CAPTURE | Some k \<Rightarrow> k),
      pi_referenceType = wh_referenceType h, pi_referenceId = wh_referenceId h,
      pi_description = Some (cp_description inp), pi_occurredAt = cp_occurredAt inp,
      pi_metadata = cp_metadata inp,
      pi_lines = transfer_lines (w_heldAccountId w) (cp_description inp)
        (cp_counterAccountId inp) (cp_description inp) (wh_amountNgn h)\<rparr>"

definition captureHoldInTransaction :: "'a env_scheme \<Rightarrow> capture_input \<Rightarrow> db \<Rightarrow> (wallet_hold \<times> db) res" where
  "captureHoldInTransaction env inp db =
     bind_res (normalizeIdempotencyKey (cp_idempotencyKey inp)) (\<lambda>idempotencyKey.
     case find_hold db (cp_holdId inp) of
       None \<Rightarrow> Inl (NotFoundException ''Wallet hold not found'')
     | Some hold \<Rightarrow>
         bind_res (lockWallet db (wh_walletId hold)) (\<lambda>w.
         bind_res (assertCanSpend (w_status w)) (\<lambda>_.
         bind_res (assertExternalCounterAccount w (cp_counterAccountId inp)) (\<lambda>_.
         case wh_status hold of
           CAPTURED \<Rightarrow>
             (if wh_captureIdempotencyKey hold = Some idempotencyKey then Inr (hold, db)
              else Inl (ConflictException ''Wallet hold has already been captured''))
         | RELEASED \<Rightarrow> Inl (ConflictException ''Released wallet hold cannot be captured'')
         | HELD \<Rightarrow>
             bind_res (postInTransaction env (capture_post inp idempotencyKey w hold) db) (\<lambda>(journal, db1).
             update_hold_row wh_captureLedgerTxnId wh_captureIdempotencyKey (wh_holdId hold)
               (lt_ledgerTxnId (tv_txn journal)) idempotencyKey
               (\<lambda>h. h\<lparr>wh_status := CAPTURED,
                  wh_captureLedgerTxnId := Some (lt_ledgerTxnId (tv_txn journal)),
                  wh_captureIdempotencyKey := Some idempotencyKey,
                  wh_resolvedAt := Some (e_now env)\<rparr>) db1)))))"

definition captureHold :: "'a env_scheme \<Rightarrow> capture_input \<Rightarrow> db \<Rightarrow> (wallet_hold \<times> db) res" where
  "captureHold env inp db =
     bind_res (captureHoldInTransaction env inp db) (\<lambda>(_, db').
     bind_res (getHold db' (cp_holdId inp)) (\<lambda>h. Inr (h, db')))"

section \<open>Administration\<close>

definition set_wallet_status :: "string \<Rightarrow> WalletStatus \<Rightarrow> db \<Rightarrow> db" where
  "set_wallet_status walletId s db =
     db\<lparr>wallets := update_where (\<lambda>w. w_walletId w = walletId) (\<lambda>w. w\<lparr>w_status := s\<rparr>) (wallets db)\<rparr>"

definition wallet_audit :: "string \<Rightarrow> string \<Rightarrow> string \<Rightarrow> audit_log" where
  "wallet_audit action adminId walletId =
     \<lparr>al_severity = SEV_WARNING, al_actorType = ACTOR_ADMIN, al_actorId = Some adminId,
      al_action = action, al_resourceType = ''Wallet'', al_resourceId = walletId,
      al_metadata = JNull, al_signature = None\<rparr>"

text \<open>\<open>updateMany({ where: { walletId, status: from } })\<close>, then the audit record.\<close>

definition switch_status ::
  "'a env_scheme \<Rightarrow> WalletStatus \<Rightarrow> WalletStatus \<Rightarrow> string \<Rightarrow> string \<Rightarrow> string \<Rightarrow> string \<Rightarrow> db \<Rightarrow> (wallet_view \<times> db) res" where
  "switch_status env from to action walletId adminId cleanReason db =
     (case find_wallet db walletId of
        None \<Rightarrow> Inl (NotFoundException ''Wallet not found'')
      | Some w \<Rightarrow>
          if w_status w \<noteq> from then Inl (ConflictException (''Wallet is '' @ wallet_status_str (w_status w)))
          else
            let db' = write_audit env (wallet_audit action adminId walletId) [(''reason'', JStr cleanReason)]
                        (set_wallet_status walletId to db) in
            bind_res (getWallet db' walletId) (\<lambda>v. Inr (v, db')))"

definition freezeWallet :: "'a env_scheme \<Rightarrow> string \<Rightarrow> string \<Rightarrow> string \<Rightarrow> db \<Rightarrow> (wallet_view \<times> db) res" where
  "freezeWallet env walletId adminId reason db =
     (let cleanReason = js_trim reason in
      if cleanReason = [] then Inl (BadRequestException ''Freeze reason is required'')
      else switch_status env WS_ACTIVE WS_FROZEN ''WALLET_FROZEN'' walletId adminId cleanReason db)"

definition unfreezeWallet :: "'a env_scheme \<Rightarrow> string \<Rightarrow> string \<Rightarrow> string \<Rightarrow> db \<Rightarrow> (wallet_view \<times> db) res" where
  "unfreezeWallet env walletId adminId reason db =
     (let cleanReason = js_trim reason in
      if cleanReason = [] then Inl (BadRequestException ''Unfreeze reason is required'')
      else switch_status env WS_FROZEN WS_ACTIVE ''WALLET_UNFROZEN'' walletId adminId cleanReason db)"

definition closeWallet :: "'a env_scheme \<Rightarrow> string \<Rightarrow> string \<Rightarrow> string \<Rightarrow> db \<Rightarrow> (wallet_view \<times> db) res" where
  "closeWallet env walletId adminId reason db =
     (let cleanReason = js_trim reason in
      if cleanReason = [] then Inl (BadRequestException ''Close reason is required'')
      else
        bind_res (lockWallet db walletId) (\<lambda>w.
        if w_status w = WS_CLOSED then Inl (ConflictException ''Wallet is already closed'')
        else if bal_availableNgn (getBalancesInTx db w) \<noteq> 0 \<or> bal_heldNgn (getBalancesInTx db w) \<noteq> 0
        then Inl (ConflictException ''Wallet must have zero available and held balances before closing'')
        else if filter (\<lambda>h. wh_walletId h = walletId \<and> wh_status h = HELD) (holds db) \<noteq> []
        then Inl (ConflictException ''Wallet still has active holds'')
        else
          let db1 = set_wallet_status walletId WS_CLOSED db;
              db2 = db1\<lparr>accounts := update_where
                (\<lambda>a. la_accountId a = w_availableAccountId w \<or> la_accountId a = w_heldAccountId w)
                (\<lambda>a. a\<lparr>la_status := LAS_CLOSED\<rparr>) (accounts db1)\<rparr>;
              db3 = write_audit env (wallet_audit ''WALLET_CLOSED'' adminId walletId)
                [(''reason'', JStr cleanReason)] db2 in
          bind_res (getWallet db3 walletId) (\<lambda>v. Inr (v, db3))))"

section \<open>Provisioning\<close>

definition find_owner_wallet :: "db \<Rightarrow> LedgerOwnerType \<Rightarrow> string \<Rightarrow> wallet option" where
  "find_owner_wallet db ownerType ownerId =
     (if ownerType = CUSTOMER then find (\<lambda>w. w_userId w = Some ownerId) (wallets db)
      else find (\<lambda>w. w_agentId w = Some ownerId) (wallets db))"

definition create_wallet :: "'a env_scheme \<Rightarrow> db \<Rightarrow> wallet \<Rightarrow> (wallet \<times> db) res" where
  "create_wallet env db w0 =
     (let w = w0\<lparr>w_walletId := e_uuid env (seq db), w_status := WS_ACTIVE\<rparr> in
      if \<exists>x\<in>set (wallets db). w_walletId x = w_walletId w
          \<or> (w_userId w \<noteq> None \<and> w_userId x = w_userId w) \<or> (w_agentId w \<noteq> None \<and> w_agentId x = w_agentId w)
          \<or> w_availableAccountId x = w_availableAccountId w \<or> w_heldAccountId x = w_heldAccountId w
      then Inl unique_violation
      else Inr (w, db\<lparr>wallets := wallets db @ [w], seq := seq db + 1\<rparr>))"

definition wallet_account :: "LedgerOwnerType \<Rightarrow> string \<Rightarrow> bool \<Rightarrow> ledger_account" where
  "wallet_account ownerType ownerId available =
     \<lparr>la_accountId = [],
      la_code = ''WALLET:'' @ owner_str ownerType @ '':'' @ js_upper ownerId
        @ (if available then '':AVAILABLE'' else '':HELD''),
      la_name = (if ownerType = CUSTOMER then ''Customer'' else ''Agent'')
        @ (if available then '' Available Balance'' else '' Held Balance''),
      la_accountType = LIABILITY,
      la_purpose = (if ownerType = CUSTOMER
        then (if available then CUSTOMER_AVAILABLE else CUSTOMER_HELD)
        else (if available then AGENT_AVAILABLE else AGENT_HELD)),
      la_ownerType = ownerType, la_ownerId = Some ownerId, la_currency = ''NGN'', la_status = LAS_ACTIVE\<rparr>"

text \<open>The provisioning transaction: the owner's row is locked, then everything is created.\<close>

definition provision_wallet :: "'a env_scheme \<Rightarrow> LedgerOwnerType \<Rightarrow> string \<Rightarrow> db \<Rightarrow> (string \<times> db) res" where
  "provision_wallet env ownerType ownerId db =
     (if ownerType = CUSTOMER \<and> ownerId \<notin> u_userId ` set (users db) then Inl (NotFoundException ''Customer not found'')
      else if ownerType = AGENT \<and> ownerId \<notin> ag_agentId ` set (agents db) then Inl (NotFoundException ''Agent not found'')
      else case find_owner_wallet db ownerType ownerId of
        Some existing \<Rightarrow> Inr (w_walletId existing, db)
      | None \<Rightarrow>
          bind_res (create_account env db (wallet_account ownerType ownerId True)) (\<lambda>(available, db1).
          bind_res (create_account env db1 (wallet_account ownerType ownerId False)) (\<lambda>(held, db2).
          bind_res (create_wallet env db2
            \<lparr>w_walletId = [], w_ownerType = ownerType,
             w_userId = (if ownerType = CUSTOMER then Some ownerId else None),
             w_agentId = (if ownerType = AGENT then Some ownerId else None),
             w_currency = ''NGN'', w_status = WS_ACTIVE,
             w_availableAccountId = la_accountId available, w_heldAccountId = la_accountId held\<rparr>) (\<lambda>(w, db3).
          Inr (w_walletId w, db3)))))"

text \<open>
  \<open>ensureWallet\<close>: with \<open>LostRace cur\<close> a concurrent request won a unique index, the attempt
  was rolled back with P2002 and the recovery reads \<open>cur\<close>.
\<close>

definition recover_wallet :: "LedgerOwnerType \<Rightarrow> string \<Rightarrow> db \<Rightarrow> error \<Rightarrow> (wallet_view \<times> db) res" where
  "recover_wallet ownerType ownerId cur err =
     (if is_unique_violation err then
        (case find_owner_wallet cur ownerType ownerId of
           Some raced \<Rightarrow> bind_res (getWallet cur (w_walletId raced)) (\<lambda>v. Inr (v, cur))
         | None \<Rightarrow> Inl err)
      else Inl err)"

definition ensureWallet ::
  "'a env_scheme \<Rightarrow> LedgerOwnerType \<Rightarrow> string \<Rightarrow> commit \<Rightarrow> db \<Rightarrow> (wallet_view \<times> db) res" where
  "ensureWallet env ownerType ownerId c db =
     (if ownerType \<noteq> CUSTOMER \<and> ownerType \<noteq> AGENT then
        Inl (BadRequestException ''Wallet owner must be CUSTOMER or AGENT'')
      else case find_owner_wallet db ownerType ownerId of
        Some current \<Rightarrow> Inr (toWalletView db current, db)
      | None \<Rightarrow>
          (case provision_wallet env ownerType ownerId db of
             Inl err \<Rightarrow> recover_wallet ownerType ownerId db err
           | Inr (walletId, db') \<Rightarrow>
               (case c of
                  Commits \<Rightarrow> bind_res (getWallet db' walletId) (\<lambda>v. Inr (v, db'))
                | LostRace cur \<Rightarrow> recover_wallet ownerType ownerId cur unique_violation)))"

definition ensureCustomerWallet :: "'a env_scheme \<Rightarrow> string \<Rightarrow> commit \<Rightarrow> db \<Rightarrow> (wallet_view \<times> db) res" where
  "ensureCustomerWallet env userId c db = ensureWallet env CUSTOMER userId c db"

definition ensureAgentWallet :: "'a env_scheme \<Rightarrow> string \<Rightarrow> commit \<Rightarrow> db \<Rightarrow> (wallet_view \<times> db) res" where
  "ensureAgentWallet env agentId c db = ensureWallet env AGENT agentId c db"

definition getCustomerWallet :: "'a env_scheme \<Rightarrow> string \<Rightarrow> commit \<Rightarrow> db \<Rightarrow> (wallet_view \<times> db) res" where
  "getCustomerWallet env userId c db =
     (case find_owner_wallet db CUSTOMER userId of
        None \<Rightarrow> ensureCustomerWallet env userId c db
      | Some w \<Rightarrow> Inr (toWalletView db w, db))"

end
