(* ===== verification/Wallet_Invariants.thy ===== *)
theory Wallet_Invariants
  imports Wallet
begin

text \<open>
  What the wallet service keeps: the balances read by the code are the ledger's, and under
  every sequence of its operations each wallet's available balance stays non-negative, its
  held balance is the sum of its open holds, and a closed wallet stays empty.
\<close>

section \<open>The balances of the code are the ledger's\<close>

lemma group_sums_filter:
  "group_sums wanted key es = group_sums (\<lambda>_. True) key (filter (\<lambda>e. wanted (key e)) es)"
proof -
  have k: "filter wanted (map key es) = map key (filter (\<lambda>e. wanted (key e)) es)"
    by (induction es) auto
  show ?thesis
    unfolding group_sums_def k filter_True
    by (rule map_cong) (auto simp: filter_filter intro!: arg_cong [of _ _ "sum_by le_amountNgn"] filter_cong)
qed

lemma balances_loop_eq:
  "balances_loop av he rows (ad, ac, hd1, hc) =
     (ad + sum_by (\<lambda>(k, n). if fst k = av then debit_part (snd k) n else 0) rows,
      ac + sum_by (\<lambda>(k, n). if fst k = av then credit_part (snd k) n else 0) rows,
      hd1 + sum_by (\<lambda>(k, n). if fst k = he then debit_part (snd k) n else 0) rows,
      hc + sum_by (\<lambda>(k, n). if fst k = he then credit_part (snd k) n else 0) rows)"
proof (induction rows arbitrary: ad ac hd1 hc)
  case (Cons row rows)
  obtain a s n where "row = ((a, s), n)" by (metis surj_pair)
  then show ?case by (cases s) (auto simp: Cons.IH)
qed simp

lemma sum_wanted_rows:
  assumes "\<And>x. x = a \<Longrightarrow> wanted x"
  shows "sum_by (\<lambda>(k, n). if fst k = a then debit_part (snd k) n else 0)
      (group_sums (\<lambda>(x, s). wanted x) (\<lambda>e. (le_accountId e, le_side e)) es) = sum_by (entry_debit a) es"
    and "sum_by (\<lambda>(k, n). if fst k = a then credit_part (snd k) n else 0)
      (group_sums (\<lambda>(x, s). wanted x) (\<lambda>e. (le_accountId e, le_side e)) es) = sum_by (entry_credit a) es"
proof -
  have "sum_by (\<lambda>e. if le_accountId e = a then debit_part (le_side e) (le_amountNgn e) else 0)
      (filter (\<lambda>e. wanted (le_accountId e)) es) = sum_by (entry_debit a) es"
    unfolding sum_by_filter by (rule sum_by_cong) (auto simp: entry_debit_def assms)
  then show "sum_by (\<lambda>(k, n). if fst k = a then debit_part (snd k) n else 0)
      (group_sums (\<lambda>(x, s). wanted x) (\<lambda>e. (le_accountId e, le_side e)) es) = sum_by (entry_debit a) es"
    by (subst group_sums_filter, subst sum_group_sums) (simp_all add: part_add cong: if_cong)
  have "sum_by (\<lambda>e. if le_accountId e = a then credit_part (le_side e) (le_amountNgn e) else 0)
      (filter (\<lambda>e. wanted (le_accountId e)) es) = sum_by (entry_credit a) es"
    unfolding sum_by_filter by (rule sum_by_cong) (auto simp: entry_credit_def assms)
  then show "sum_by (\<lambda>(k, n). if fst k = a then credit_part (snd k) n else 0)
      (group_sums (\<lambda>(x, s). wanted x) (\<lambda>e. (le_accountId e, le_side e)) es) = sum_by (entry_credit a) es"
    by (subst group_sums_filter, subst sum_group_sums) (simp_all add: part_add cong: if_cong)
qed

lemma getBalances_eq:
  "getBalances db av he = \<lparr>bal_availableNgn = net db av, bal_heldNgn = net db he,
     bal_totalNgn = net db av + net db he\<rparr>"
  using sum_wanted_rows [of av "\<lambda>x. x = av \<or> x = he" "entries db"]
    sum_wanted_rows [of he "\<lambda>x. x = av \<or> x = he" "entries db"]
  by (simp add: getBalances_def balances_loop_eq net_def acc_debit_def acc_credit_def)

lemma getBalancesInTx_eq [simp]:
  "bal_availableNgn (getBalancesInTx db w) = net db (w_availableAccountId w)"
  "bal_heldNgn (getBalancesInTx db w) = net db (w_heldAccountId w)"
  by (simp_all add: getBalancesInTx_def getBalances_eq)

section \<open>The invariant\<close>

definition wallet_accounts :: "db \<Rightarrow> string list" where
  "wallet_accounts db = concat (map (\<lambda>w. [w_availableAccountId w, w_heldAccountId w]) (wallets db))"

definition open_holds :: "db \<Rightarrow> string \<Rightarrow> wallet_hold list" where
  "open_holds db walletId = filter (\<lambda>h. wh_walletId h = walletId \<and> wh_status h = HELD) (holds db)"

definition held_sum :: "db \<Rightarrow> string \<Rightarrow> int" where
  "held_sum db walletId = sum_by wh_amountNgn (open_holds db walletId)"

definition hold_ok :: "wallet_hold \<Rightarrow> bool" where
  "hold_ok h \<longleftrightarrow> 0 < wh_amountNgn h \<and>
     (wh_releaseLedgerTxnId h \<noteq> None \<longleftrightarrow> wh_status h = RELEASED) \<and>
     (wh_captureLedgerTxnId h \<noteq> None \<longleftrightarrow> wh_status h = CAPTURED) \<and>
     (wh_resolvedAt h \<noteq> None \<longleftrightarrow> wh_status h \<noteq> HELD)"

definition wallet_shape :: "db \<Rightarrow> bool" where
  "wallet_shape db \<longleftrightarrow> ledger_ok db \<and> accounts_trimmed db \<and>
     distinct (map w_walletId (wallets db)) \<and> distinct (wallet_accounts db) \<and>
     set (wallet_accounts db) \<subseteq> la_accountId ` set (accounts db) \<and>
     distinct (map wh_holdId (holds db)) \<and> distinct (map wh_idempotencyKey (holds db)) \<and>
     (\<forall>h\<in>set (holds db). hold_ok h \<and> wh_walletId h \<in> w_walletId ` set (wallets db))"

definition wallet_money :: "db \<Rightarrow> wallet \<Rightarrow> bool" where
  "wallet_money db w \<longleftrightarrow> 0 \<le> net db (w_availableAccountId w) \<and>
     net db (w_heldAccountId w) = held_sum db (w_walletId w) \<and>
     (w_status w = WS_CLOSED \<longrightarrow> net db (w_availableAccountId w) = 0 \<and> net db (w_heldAccountId w) = 0)"

definition wallet_ok :: "db \<Rightarrow> bool" where
  "wallet_ok db \<longleftrightarrow> wallet_shape db \<and> (\<forall>w\<in>set (wallets db). wallet_money db w)"

lemma wallet_okD:
  assumes "wallet_ok db"
  shows "wallet_shape db" "ledger_ok db" "accounts_trimmed db" "distinct (map w_walletId (wallets db))"
    and "\<And>w. w \<in> set (wallets db) \<Longrightarrow> wallet_money db w"
  using assms by (auto simp: wallet_ok_def wallet_shape_def)

lemma find_wallet_Some: "find_wallet db i = Some w \<Longrightarrow> w \<in> set (wallets db) \<and> w_walletId w = i"
  by (auto simp: find_wallet_def dest: find_Some_set)

lemma find_hold_Some: "find_hold db i = Some h \<Longrightarrow> h \<in> set (holds db) \<and> wh_holdId h = i"
  by (auto simp: find_hold_def dest: find_Some_set)

lemma lockWallet_Inr [res_simps]: "lockWallet db i = Inr w \<longleftrightarrow> find_wallet db i = Some w"
  by (auto simp: lockWallet_def split: option.splits)

lemma distinct_concat_key:
  assumes "distinct (concat (map f xs))" "x \<in> set xs" "y \<in> set xs" "a \<in> set (f x)" "a \<in> set (f y)"
  shows "x = y"
  using assms
proof (induction xs)
  case (Cons z zs)
  have "a \<in> set (f x)" "a \<in> set (f y)" and d: "set (f z) \<inter> set (concat (map f zs)) = {}"
    using Cons.prems by simp_all
  then have "x = z \<longleftrightarrow> y = z" using Cons.prems(2,3) by auto
  then show ?case using Cons by auto
qed simp

lemma distinct_concat_part: "distinct (concat (map f xs)) \<Longrightarrow> x \<in> set xs \<Longrightarrow> distinct (f x)"
  by (induction xs) auto

text \<open>No account belongs to two wallets, nor twice to one.\<close>

lemma wallet_accounts_apart:
  assumes "wallet_shape db" "w \<in> set (wallets db)"
  shows "w_availableAccountId w \<noteq> w_heldAccountId w"
    and "\<And>w'. w' \<in> set (wallets db) \<Longrightarrow> w' \<noteq> w \<Longrightarrow>
      {w_availableAccountId w', w_heldAccountId w'} \<inter> {w_availableAccountId w, w_heldAccountId w} = {}"
proof -
  have d: "distinct (wallet_accounts db)" using assms(1) by (simp add: wallet_shape_def)
  show "w_availableAccountId w \<noteq> w_heldAccountId w"
    using distinct_concat_part [OF d [unfolded wallet_accounts_def] assms(2)] by simp
  fix w' assume w': "w' \<in> set (wallets db)" "w' \<noteq> w"
  show "{w_availableAccountId w', w_heldAccountId w'} \<inter> {w_availableAccountId w, w_heldAccountId w} = {}"
    using distinct_concat_key [OF d [unfolded wallet_accounts_def] w'(1) assms(2)] w'(2) by auto
qed

lemma wallet_account_member:
  "w \<in> set (wallets db) \<Longrightarrow> w_availableAccountId w \<in> set (wallet_accounts db) \<and> w_heldAccountId w \<in> set (wallet_accounts db)"
  by (auto simp: wallet_accounts_def)

lemma wallet_account_trimmed:
  assumes "wallet_shape db" "a \<in> set (wallet_accounts db)"
  shows "js_trim a = a"
  using assms by (auto simp: wallet_shape_def accounts_trimmed_def)

lemma same_wallet: "wallet_shape db \<Longrightarrow> w \<in> set (wallets db) \<Longrightarrow> w' \<in> set (wallets db) \<Longrightarrow>
    w_walletId w = w_walletId w' \<Longrightarrow> w = w'"
  by (auto simp: wallet_shape_def dest: distinct_key_eq)

lemma wallet_shape_cong:
  assumes "wallet_shape db" "ledger_ok db'" "accounts db' = accounts db" "wallets db' = wallets db" "holds db' = holds db"
  shows "wallet_shape db'"
  using assms by (simp add: wallet_shape_def accounts_trimmed_def wallet_accounts_def)

lemma held_sum_cong: "holds db' = holds db \<Longrightarrow> held_sum db' i = held_sum db i"
  by (simp add: held_sum_def open_holds_def)

section \<open>Journals of two lines\<close>

lemma post_moves:
  assumes "postInTransaction env inp db = Inr (v, db1)" "ledger_ok db"
    and "find_txn_by_key db (js_trim (pi_idempotencyKey inp)) = None"
    and "map (\<lambda>l. (li_accountId l, li_side l, li_amountNgn l)) (pi_lines inp) = [(src, DEBIT, n), (dst, CREDIT, n)]"
  shows "transferred (js_trim src) (js_trim dst) n db db1"
proof -
  let ?i = "(env, inp)"
  have p: "(\<lambda>(env, inp). postInTransaction env inp) ?i db = Inr (v, db1)" using assms(1) by simp
  obtain t where t: "acceptable db inp"
    using posted_key_found [OF assms(1) [unfolded postInTransaction_def] assms(2)] by blast
  obtain l1 l2 where l: "pi_lines inp = [l1, l2]" "li_accountId l1 = src" "li_side l1 = DEBIT" "li_amountNgn l1 = n"
    "li_accountId l2 = dst" "li_side l2 = CREDIT" "li_amountNgn l2 = n"
    using assms(4) by (auto simp: map_eq_Cons_conv)
  have wf: "js_trim src \<noteq> js_trim dst \<and> 0 < n"
    using t l by (simp add: acceptable_def well_formed_lines_def)
  have shape: "map (\<lambda>l. (li_accountId l, li_side l, li_amountNgn l)) ((\<lambda>(env, inp). map norm_line (pi_lines inp)) ?i)
      = [(js_trim src, DEBIT, n), (js_trim dst, CREDIT, n)]"
    using l by simp
  have k: "find_txn_by_key db ((\<lambda>(env, inp). js_trim (pi_idempotencyKey inp)) ?i) = None" using assms(3) by simp
  show ?thesis using ledger.post_transfer [OF p assms(2) k shape] wf by (auto simp: transferred_def)
qed

lemma post_facts:
  assumes "postInTransaction env inp db = Inr (v, db1)" "ledger_ok db"
  shows "ledger_ok db1" "same_frame db db1"
    and "find_txn_by_key db (js_trim (pi_idempotencyKey inp)) \<noteq> None \<Longrightarrow> db1 = db"
  using ledger.post_ok [of "(env, inp)" db v db1] ledger.post_frame [of "(env, inp)" db v db1]
    ledger.post_replay [of "(env, inp)" db v db1] assms by simp_all

text \<open>
  A journal that moves \<open>n\<close> between the accounts of one wallet, or between it and the outside,
  leaves the money of the other wallets alone.
\<close>

lemma other_wallet_money:
  assumes "wallet_shape db" "wallet_money db w'" "w' \<in> set (wallets db)"
    and "transferred src dst n db db'" "src \<notin> {w_availableAccountId w', w_heldAccountId w'}"
      "dst \<notin> {w_availableAccountId w', w_heldAccountId w'}"
    and "held_sum db' (w_walletId w') = held_sum db (w_walletId w')"
  shows "wallet_money db' w'"
  using assms by (auto simp: wallet_money_def transferred_def)

section \<open>Credit and debit\<close>

definition external :: "db \<Rightarrow> string \<Rightarrow> bool" where
  "external db a \<longleftrightarrow> js_trim a \<notin> set (wallet_accounts db)"

lemma external_wallet:
  "external db a \<Longrightarrow> w \<in> set (wallets db) \<Longrightarrow> js_trim a \<notin> {w_availableAccountId w, w_heldAccountId w}"
  using wallet_account_member by (fastforce simp: external_def)

lemma movement_lines:
  "map (\<lambda>l. (li_accountId l, li_side l, li_amountNgn l)) (pi_lines (movement_post inp d c)) =
     [(d, DEBIT, mv_amountNgn inp), (c, CREDIT, mv_amountNgn inp)]"
  "pi_idempotencyKey (movement_post inp d c) = mv_idempotencyKey inp"
  by (simp_all add: movement_post_def)

lemma credit_cases:
  assumes "creditInTransaction env inp db = Inr (v, db')"
  obtains w where "find_wallet db (mv_walletId inp) = Some w" "w_status w \<noteq> WS_CLOSED" "0 < mv_amountNgn inp"
    "postInTransaction env (movement_post inp (mv_counterAccountId inp) (w_availableAccountId w)) db = Inr (v, db')"
  using assms
  by (auto simp: creditInTransaction_def res_simps validateAmount_def assertCanReceive_def split: if_splits)

lemma debit_cases:
  assumes "debitInTransaction env inp db = Inr (v, db')"
  obtains w where "find_wallet db (mv_walletId inp) = Some w" "w_status w = WS_ACTIVE" "0 < mv_amountNgn inp"
    "find_txn_by_key db (js_trim (mv_idempotencyKey inp)) = None \<Longrightarrow> mv_amountNgn inp \<le> net db (w_availableAccountId w)"
    "postInTransaction env (movement_post inp (w_availableAccountId w) (mv_counterAccountId inp)) db = Inr (v, db')"
  using assms
  by (fastforce simp: debitInTransaction_def res_simps validateAmount_def assertCanSpend_def split: if_splits)

lemma credit_keeps:
  assumes "creditInTransaction env inp db = Inr (v, db')" "wallet_ok db" "external db (mv_counterAccountId inp)"
  shows "wallet_ok db'"
  using assms(1)
proof (rule credit_cases)
  fix w assume w: "find_wallet db (mv_walletId inp) = Some w" "w_status w \<noteq> WS_CLOSED"
    and p: "postInTransaction env (movement_post inp (mv_counterAccountId inp) (w_availableAccountId w)) db = Inr (v, db')"
  note ok = wallet_okD [OF assms(2)] and f = post_facts [OF p wallet_okD(2) [OF assms(2)]]
  note fr = same_frame_sel [OF f(2)]
  have wm: "w \<in> set (wallets db)" using find_wallet_Some [OF w(1)] by simp
  show ?thesis
  proof (cases "find_txn_by_key db (js_trim (mv_idempotencyKey inp)) = None")
    case False
    then show ?thesis using f(3) assms(2) by (simp add: movement_lines)
  next
    case True
    have tr: "transferred (js_trim (mv_counterAccountId inp)) (w_availableAccountId w) (mv_amountNgn inp) db db'"
      using post_moves [OF p ok(2) _ movement_lines(1)] True wallet_account_trimmed [OF ok(1)] wallet_account_member [OF wm]
      by (simp add: movement_lines)
    have "wallet_money db' w'" if w': "w' \<in> set (wallets db)" for w'
    proof (cases "w' = w")
      case True
      then show ?thesis
        using ok(5) [OF wm] tr external_wallet [OF assms(3) wm] wallet_accounts_apart(1) [OF ok(1) wm] w(2)
          held_sum_cong [OF fr(3)] by (auto simp: wallet_money_def transferred_def)
    next
      case False
      show ?thesis
        by (rule other_wallet_money [OF ok(1) ok(5) [OF w'] w' tr external_wallet [OF assms(3) w']])
           (use wallet_accounts_apart(2) [OF ok(1) wm w' False] held_sum_cong [OF fr(3)] in auto)
    qed
    then show ?thesis using wallet_shape_cong [OF ok(1) f(1) fr(1-3)] by (simp add: wallet_ok_def fr(2))
  qed
qed

lemma debit_keeps:
  assumes "debitInTransaction env inp db = Inr (v, db')" "wallet_ok db" "external db (mv_counterAccountId inp)"
  shows "wallet_ok db'"
  using assms(1)
proof (rule debit_cases)
  fix w assume w: "find_wallet db (mv_walletId inp) = Some w" "w_status w = WS_ACTIVE"
    and bal: "find_txn_by_key db (js_trim (mv_idempotencyKey inp)) = None \<Longrightarrow> mv_amountNgn inp \<le> net db (w_availableAccountId w)"
    and p: "postInTransaction env (movement_post inp (w_availableAccountId w) (mv_counterAccountId inp)) db = Inr (v, db')"
  note ok = wallet_okD [OF assms(2)] and f = post_facts [OF p wallet_okD(2) [OF assms(2)]]
  note fr = same_frame_sel [OF f(2)]
  have wm: "w \<in> set (wallets db)" using find_wallet_Some [OF w(1)] by simp
  show ?thesis
  proof (cases "find_txn_by_key db (js_trim (mv_idempotencyKey inp)) = None")
    case False
    then show ?thesis using f(3) assms(2) by (simp add: movement_lines)
  next
    case True
    have tr: "transferred (w_availableAccountId w) (js_trim (mv_counterAccountId inp)) (mv_amountNgn inp) db db'"
      using post_moves [OF p ok(2) _ movement_lines(1)] True wallet_account_trimmed [OF ok(1)] wallet_account_member [OF wm]
      by (simp add: movement_lines)
    have "wallet_money db' w'" if w': "w' \<in> set (wallets db)" for w'
    proof (cases "w' = w")
      case True
      then show ?thesis
        using ok(5) [OF wm] tr external_wallet [OF assms(3) wm] wallet_accounts_apart(1) [OF ok(1) wm] w(2)
          held_sum_cong [OF fr(3)] bal \<open>find_txn_by_key db _ = None\<close> by (auto simp: wallet_money_def transferred_def)
    next
      case False
      show ?thesis
        by (rule other_wallet_money [OF ok(1) ok(5) [OF w'] w' tr _ external_wallet [OF assms(3) w']])
           (use wallet_accounts_apart(2) [OF ok(1) wm w' False] held_sum_cong [OF fr(3)] in auto)
    qed
    then show ?thesis using wallet_shape_cong [OF ok(1) f(1) fr(1-3)] by (simp add: wallet_ok_def fr(2))
  qed
qed

section \<open>Holds\<close>

lemma normalizeIdempotencyKey_Inr [res_simps]:
  "normalizeIdempotencyKey v = Inr k \<longleftrightarrow> k = js_trim v \<and> k \<noteq> [] \<and> length k \<le> 200"
  by (auto simp: normalizeIdempotencyKey_def Let_def)

lemma transfer_lines_shape:
  "map (\<lambda>l. (li_accountId l, li_side l, li_amountNgn l)) (transfer_lines a m1 b m2 n) = [(a, DEBIT, n), (b, CREDIT, n)]"
  by (simp add: transfer_lines_def)

text \<open>Ledger keys of hold and capture journals.\<close>

definition hold_ledger_key :: "string \<Rightarrow> string" where
  "hold_ledger_key key = js_trim (''LEDGER:'' @ js_trim key)"

lemma createHold_cases:
  assumes "createHoldInTransaction env inp db = Inr (h, db')"
  obtains (existing) "find_hold_by_key db (js_trim (ch_idempotencyKey inp)) = Some h" "db' = db"
      "wh_walletId h = ch_walletId inp" "wh_amountNgn h = ch_amountNgn inp"
  | (fresh) w v db1 where "find_wallet db (ch_walletId inp) = Some w" "w_status w = WS_ACTIVE" "0 < ch_amountNgn inp"
      "find_hold_by_key db (js_trim (ch_idempotencyKey inp)) = None" "ch_amountNgn inp \<le> net db (w_availableAccountId w)"
      "postInTransaction env (hold_post inp (js_trim (ch_idempotencyKey inp)) w) db = Inr (v, db1)"
      "find_hold db1 (wh_holdId h) = None" "wh_walletId h = ch_walletId inp" "wh_amountNgn h = ch_amountNgn inp"
      "wh_status h = HELD" "hold_ok h" "wh_idempotencyKey h = js_trim (ch_idempotencyKey inp)"
      "db' = db1\<lparr>holds := holds db1 @ [h], seq := seq db1 + 1\<rparr>"
proof (cases "find_hold_by_key db (js_trim (ch_idempotencyKey inp))")
  case (Some x)
  then show thesis using assms existing
    by (auto simp: createHoldInTransaction_def res_simps split: if_splits)
next
  case None
  from assms None obtain w v db1 where w: "find_wallet db (ch_walletId inp) = Some w"
    and st: "w_status w = WS_ACTIVE" "0 < ch_amountNgn inp"
    and bal: "ch_amountNgn inp \<le> net db (w_availableAccountId w)"
    and p: "postInTransaction env (hold_post inp (js_trim (ch_idempotencyKey inp)) w) db = Inr (v, db1)"
    and c: "create_hold_row env db1 \<lparr>wh_holdId = [], wh_walletId = ch_walletId inp,
       wh_idempotencyKey = js_trim (ch_idempotencyKey inp),
       wh_referenceType = ch_referenceType inp, wh_referenceId = ch_referenceId inp,
       wh_amountNgn = ch_amountNgn inp, wh_status = HELD,
       wh_holdLedgerTxnId = lt_ledgerTxnId (tv_txn v),
       wh_releaseLedgerTxnId = None, wh_captureLedgerTxnId = None,
       wh_releaseIdempotencyKey = None, wh_captureIdempotencyKey = None, wh_resolvedAt = None\<rparr> = Inr (h, db')"
    by (auto simp: createHoldInTransaction_def res_simps validateAmount_def assertCanSpend_def split: if_splits)
  show thesis
    by (rule fresh [OF w st None bal p])
       (use c st(2) in \<open>auto simp: create_hold_row_def Let_def hold_ok_def split: if_splits\<close>)
qed

lemma open_holds_append:
  "open_holds (db\<lparr>holds := holds db @ [h], seq := k\<rparr>) i =
     open_holds db i @ (if wh_walletId h = i \<and> wh_status h = HELD then [h] else [])"
  by (simp add: open_holds_def)

lemma createHold_keeps:
  assumes "createHoldInTransaction env inp db = Inr (h, db')" "wallet_ok db"
    and "find_hold_by_key db (js_trim (ch_idempotencyKey inp)) \<noteq> None \<or>
      find_txn_by_key db (hold_ledger_key (ch_idempotencyKey inp)) = None"
  shows "wallet_ok db'"
  using assms(1)
proof (cases rule: createHold_cases)
  case existing
  then show ?thesis using assms(2) by simp
next
  case (fresh w v db1)
  note ok = wallet_okD [OF assms(2)] and f = post_facts [OF fresh(6) wallet_okD(2) [OF assms(2)]]
  note fr = same_frame_sel [OF f(2)]
  have wm: "w \<in> set (wallets db)" and wid: "w_walletId w = ch_walletId inp" using find_wallet_Some [OF fresh(1)] by simp_all
  have k: "find_txn_by_key db (js_trim (pi_idempotencyKey (hold_post inp (js_trim (ch_idempotencyKey inp)) w))) = None"
    using assms(3) fresh(4) by (simp add: hold_post_def hold_ledger_key_def)
  have tr1: "transferred (w_availableAccountId w) (w_heldAccountId w) (ch_amountNgn inp) db db1"
    using post_moves [OF fresh(6) ok(2) k, of "w_availableAccountId w" "ch_amountNgn inp" "w_heldAccountId w"]
      wallet_account_trimmed [OF ok(1)] wallet_account_member [OF wm]
    by (simp add: hold_post_def transfer_lines_shape)
  have net: "net db' a = net db1 a" for a by (rule net_cong) (simp add: fresh(13))
  have tr: "transferred (w_availableAccountId w) (w_heldAccountId w) (ch_amountNgn inp) db db'"
    using tr1 by (simp add: transferred_def net)
  have hs: "held_sum db' i = held_sum db i + (if i = ch_walletId inp then ch_amountNgn inp else 0)" for i
  proof -
    have "held_sum db1 i = held_sum db i" by (rule held_sum_cong) (rule fr)
    moreover have "held_sum db' i = held_sum db1 i + (if i = ch_walletId inp then ch_amountNgn inp else 0)"
      unfolding held_sum_def fresh(13) open_holds_append using fresh(8-10) by auto
    ultimately show ?thesis by simp
  qed
  have money: "wallet_money db' w'" if w': "w' \<in> set (wallets db)" for w'
  proof (cases "w' = w")
    case True
    then show ?thesis
      using ok(5) [OF wm] tr fresh(2,5) hs [of "w_walletId w"] wid by (auto simp: wallet_money_def transferred_def)
  next
    case False
    then have "w_walletId w' \<noteq> ch_walletId inp" using same_wallet [OF ok(1) w' wm] wid by auto
    then show ?thesis
      using other_wallet_money [OF ok(1) ok(5) [OF w'] w' tr] wallet_accounts_apart(2) [OF ok(1) wm w' False] hs by auto
  qed
  have "ledger_ok db'" using f(1) by (simp add: fresh(13) ledger_ok_def entries_of_def)
  moreover have "wh_holdId h \<notin> wh_holdId ` set (holds db)"
    using fresh(7) fr(3) by (auto simp: find_hold_def find_None_set)
  moreover have "wh_idempotencyKey h \<notin> wh_idempotencyKey ` set (holds db)"
    using fresh(4,12) by (auto simp: find_hold_by_key_def find_None_set)
  moreover have "wh_walletId h \<in> w_walletId ` set (wallets db)" using wm wid fresh(8) by (metis imageI)
  ultimately have "wallet_shape db'"
    using ok(1) fresh(11) by (auto simp: wallet_shape_def fresh(13) fr accounts_trimmed_def wallet_accounts_def)
  then show ?thesis using money by (simp add: wallet_ok_def fresh(13) fr)
qed

lemma update_hold_row_Inr:
  assumes "update_hold_row txnCol keyCol i t k upd db = Inr (h, db')"
  shows "db' = db\<lparr>holds := update_where (\<lambda>h. wh_holdId h = i) upd (holds db)\<rparr>" "find_hold db' i = Some h"
  using assms by (auto simp: update_hold_row_def Let_def res_simps split: if_splits)

lemma release_cases:
  assumes "releaseHoldInTransaction env inp db = Inr (h, db')"
  obtains (replay) "find_hold db (rl_holdId inp) = Some h" "wh_status h = RELEASED" "db' = db"
      "wh_releaseIdempotencyKey h = Some (js_trim (rl_idempotencyKey inp))"
  | (fresh) h0 w v db1 where "find_hold db (rl_holdId inp) = Some h0" "wh_status h0 = HELD"
      "find_wallet db (wh_walletId h0) = Some w" "w_status w \<noteq> WS_CLOSED"
      "postInTransaction env (release_post inp (js_trim (rl_idempotencyKey inp)) w h0) db = Inr (v, db1)"
      "db' = db1\<lparr>holds := update_where (\<lambda>h. wh_holdId h = wh_holdId h0)
         (\<lambda>h. h\<lparr>wh_status := RELEASED, wh_releaseLedgerTxnId := Some (lt_ledgerTxnId (tv_txn v)),
            wh_releaseIdempotencyKey := Some (js_trim (rl_idempotencyKey inp)),
            wh_resolvedAt := Some (e_now env)\<rparr>) (holds db1)\<rparr>"
      "find_hold db' (wh_holdId h0) = Some h"
proof -
  from assms obtain h0 w where h0: "find_hold db (rl_holdId inp) = Some h0"
    and w: "find_wallet db (wh_walletId h0) = Some w" "w_status w \<noteq> WS_CLOSED"
    by (auto simp: releaseHoldInTransaction_def res_simps assertNotClosed_def split: option.splits if_splits)
  show thesis
  proof (cases "wh_status h0")
    case HELD
    then obtain v db1 where p: "postInTransaction env (release_post inp (js_trim (rl_idempotencyKey inp)) w h0) db = Inr (v, db1)"
      and u: "update_hold_row wh_releaseLedgerTxnId wh_releaseIdempotencyKey (wh_holdId h0)
         (lt_ledgerTxnId (tv_txn v)) (js_trim (rl_idempotencyKey inp))
         (\<lambda>h. h\<lparr>wh_status := RELEASED, wh_releaseLedgerTxnId := Some (lt_ledgerTxnId (tv_txn v)),
            wh_releaseIdempotencyKey := Some (js_trim (rl_idempotencyKey inp)),
            wh_resolvedAt := Some (e_now env)\<rparr>) db1 = Inr (h, db')"
      using assms h0 w by (auto simp: releaseHoldInTransaction_def res_simps)
    show thesis by (rule fresh [OF h0 HELD w p update_hold_row_Inr [OF u]])
  next
    case RELEASED
    then show thesis using assms h0 w replay
      by (auto simp: releaseHoldInTransaction_def res_simps split: if_splits)
  next
    case CAPTURED
    then show thesis using assms h0 w by (auto simp: releaseHoldInTransaction_def res_simps)
  qed
qed

lemma capture_cases:
  assumes "captureHoldInTransaction env inp db = Inr (h, db')"
  obtains (replay) "find_hold db (cp_holdId inp) = Some h" "wh_status h = CAPTURED" "db' = db"
      "wh_captureIdempotencyKey h = Some (js_trim (cp_idempotencyKey inp))"
  | (fresh) h0 w v db1 where "find_hold db (cp_holdId inp) = Some h0" "wh_status h0 = HELD"
      "find_wallet db (wh_walletId h0) = Some w" "w_status w = WS_ACTIVE"
      "postInTransaction env (capture_post inp (js_trim (cp_idempotencyKey inp)) w h0) db = Inr (v, db1)"
      "db' = db1\<lparr>holds := update_where (\<lambda>h. wh_holdId h = wh_holdId h0)
         (\<lambda>h. h\<lparr>wh_status := CAPTURED, wh_captureLedgerTxnId := Some (lt_ledgerTxnId (tv_txn v)),
            wh_captureIdempotencyKey := Some (js_trim (cp_idempotencyKey inp)),
            wh_resolvedAt := Some (e_now env)\<rparr>) (holds db1)\<rparr>"
      "find_hold db' (wh_holdId h0) = Some h"
proof -
  from assms obtain h0 w where h0: "find_hold db (cp_holdId inp) = Some h0"
    and w: "find_wallet db (wh_walletId h0) = Some w" "w_status w = WS_ACTIVE"
    by (auto simp: captureHoldInTransaction_def res_simps assertCanSpend_def split: option.splits if_splits)
  show thesis
  proof (cases "wh_status h0")
    case HELD
    then obtain v db1 where p: "postInTransaction env (capture_post inp (js_trim (cp_idempotencyKey inp)) w h0) db = Inr (v, db1)"
      and u: "update_hold_row wh_captureLedgerTxnId wh_captureIdempotencyKey (wh_holdId h0)
         (lt_ledgerTxnId (tv_txn v)) (js_trim (cp_idempotencyKey inp))
         (\<lambda>h. h\<lparr>wh_status := CAPTURED, wh_captureLedgerTxnId := Some (lt_ledgerTxnId (tv_txn v)),
            wh_captureIdempotencyKey := Some (js_trim (cp_idempotencyKey inp)),
            wh_resolvedAt := Some (e_now env)\<rparr>) db1 = Inr (h, db')"
      using assms h0 w by (auto simp: captureHoldInTransaction_def res_simps)
    show thesis by (rule fresh [OF h0 HELD w p update_hold_row_Inr [OF u]])
  next
    case RELEASED
    then show thesis using assms h0 w by (auto simp: captureHoldInTransaction_def res_simps)
  next
    case CAPTURED
    then show thesis using assms h0 w replay
      by (auto simp: captureHoldInTransaction_def res_simps split: if_splits)
  qed
qed

text \<open>Resolving a hold takes its amount out of the sum of the open holds.\<close>

lemma held_sum_alt:
  "held_sum db i = sum_by (\<lambda>h. if wh_walletId h = i \<and> wh_status h = HELD then wh_amountNgn h else 0) (holds db)"
  by (simp add: held_sum_def open_holds_def sum_by_filter)

lemma held_sum_resolve:
  assumes "distinct (map wh_holdId (holds db))" "h0 \<in> set (holds db)" "wh_status h0 = HELD"
    and "holds db' = update_where (\<lambda>h. wh_holdId h = wh_holdId h0) upd (holds db)" "wh_status (upd h0) \<noteq> HELD"
  shows "held_sum db' i = held_sum db i - (if i = wh_walletId h0 then wh_amountNgn h0 else 0)"
  unfolding held_sum_alt assms(4) sum_by_update_where_key [OF assms(1,2)] using assms(3,5) by auto

text \<open>Everything the resolution of a hold keeps, for a release and for a capture.\<close>

lemma resolve_keeps:
  assumes ok: "wallet_ok db" and h0: "find_hold db i = Some h0" "wh_status h0 = HELD"
    and w: "find_wallet db (wh_walletId h0) = Some w" "w_status w \<noteq> WS_CLOSED"
    and f: "ledger_ok db1" "same_frame db db1"
    and tr: "transferred (w_heldAccountId w) dst (wh_amountNgn h0) db db1"
    and dst: "dst = w_availableAccountId w \<or> dst \<notin> set (wallet_accounts db)"
    and db': "db' = db1\<lparr>holds := update_where (\<lambda>h. wh_holdId h = wh_holdId h0) upd (holds db1)\<rparr>"
    and upd: "\<And>h. wh_holdId (upd h) = wh_holdId h" "\<And>h. wh_walletId (upd h) = wh_walletId h"
      "\<And>h. wh_idempotencyKey (upd h) = wh_idempotencyKey h" "wh_status (upd h0) \<noteq> HELD" "hold_ok (upd h0)"
  shows "wallet_ok db'"
proof -
  note k = wallet_okD [OF ok] and fr = same_frame_sel [OF f(2)]
  have hm: "h0 \<in> set (holds db)" using find_hold_Some [OF h0(1)] by simp
  have wm: "w \<in> set (wallets db)" and wid: "w_walletId w = wh_walletId h0" using find_wallet_Some [OF w(1)] by simp_all
  have dh: "distinct (map wh_holdId (holds db))" using k(1) by (simp add: wallet_shape_def)
  have net: "net db' a = net db1 a" for a by (rule net_cong) (simp add: db')
  have tr': "transferred (w_heldAccountId w) dst (wh_amountNgn h0) db db'" using tr by (simp add: transferred_def net)
  have hs: "held_sum db' i = held_sum db i - (if i = wh_walletId h0 then wh_amountNgn h0 else 0)" for i
    by (rule held_sum_resolve [where upd = upd, OF dh hm h0(2)]) (simp_all add: db' fr upd(4))
  have money: "wallet_money db' w'" if w': "w' \<in> set (wallets db)" for w'
  proof (cases "w' = w")
    case True
    have "dst \<noteq> w_availableAccountId w \<Longrightarrow> dst \<notin> {w_availableAccountId w, w_heldAccountId w}"
      using dst wallet_account_member [OF wm] by auto
    then show ?thesis
      using True k(5) [OF wm] tr' w(2) hs [of "w_walletId w"] wid wallet_accounts_apart(1) [OF k(1) wm]
      by (auto simp: wallet_money_def transferred_def)
  next
    case False
    have "w_walletId w' \<noteq> wh_walletId h0" using same_wallet [OF k(1) w' wm] wid False by auto
    moreover have "dst \<notin> {w_availableAccountId w', w_heldAccountId w'}"
      using dst wallet_account_member [OF w'] wallet_accounts_apart(2) [OF k(1) wm w' False] by auto
    ultimately show ?thesis
      using other_wallet_money [OF k(1) k(5) [OF w'] w' tr'] wallet_accounts_apart(2) [OF k(1) wm w' False] hs by auto
  qed
  have ids: "map wh_holdId (holds db') = map wh_holdId (holds db)" "map wh_idempotencyKey (holds db') = map wh_idempotencyKey (holds db)"
    by (simp_all add: db' fr map_update_where upd)
  have holds: "\<forall>h\<in>set (holds db'). hold_ok h \<and> wh_walletId h \<in> w_walletId ` set (wallets db)"
  proof
    fix h assume "h \<in> set (holds db')"
    then obtain h1 where h1: "h1 \<in> set (holds db)" "h = (if wh_holdId h1 = wh_holdId h0 then upd h1 else h1)"
      by (auto simp: db' fr set_update_where)
    have "wh_holdId h1 = wh_holdId h0 \<Longrightarrow> h1 = h0" using distinct_key_eq [OF dh h1(1) hm] by simp
    then show "hold_ok h \<and> wh_walletId h \<in> w_walletId ` set (wallets db)"
      using h1 k(1) upd(2,5) by (auto simp: wallet_shape_def)
  qed
  have "ledger_ok db'" using f(1) by (simp add: db' ledger_ok_def entries_of_def)
  then have "wallet_shape db'"
    using k(1) ids holds by (simp add: wallet_shape_def) (simp add: db' fr accounts_trimmed_def wallet_accounts_def)
  then show ?thesis using money by (simp add: wallet_ok_def) (simp add: db' fr)
qed

lemma release_keeps:
  assumes "releaseHoldInTransaction env inp db = Inr (h, db')" "wallet_ok db"
    and "(\<exists>h. find_hold db (rl_holdId inp) = Some h \<and> wh_status h \<noteq> HELD) \<or>
      find_txn_by_key db (js_trim (rl_idempotencyKey inp)) = None"
  shows "wallet_ok db'"
  using assms(1)
proof (cases rule: release_cases)
  case replay
  then show ?thesis using assms(2) by simp
next
  case (fresh h0 w v db1)
  note ok = wallet_okD [OF assms(2)] and f = post_facts [OF fresh(5) wallet_okD(2) [OF assms(2)]]
  have wm: "w \<in> set (wallets db)" using find_wallet_Some [OF fresh(3)] by simp
  have k: "find_txn_by_key db (js_trim (pi_idempotencyKey (release_post inp (js_trim (rl_idempotencyKey inp)) w h0))) = None"
    using assms(3) fresh(1,2) by (auto simp: release_post_def)
  have tr: "transferred (w_heldAccountId w) (w_availableAccountId w) (wh_amountNgn h0) db db1"
    using post_moves [OF fresh(5) ok(2) k, of "w_heldAccountId w" "wh_amountNgn h0" "w_availableAccountId w"]
      wallet_account_trimmed [OF ok(1)] wallet_account_member [OF wm]
    by (simp add: release_post_def transfer_lines_shape)
  have "hold_ok h0" using find_hold_Some [OF fresh(1)] ok(1) by (simp add: wallet_shape_def)
  then show ?thesis
    by (intro resolve_keeps [OF assms(2) fresh(1-4) f(1,2) tr _ fresh(6)]) (auto simp: hold_ok_def fresh(2))
qed

lemma capture_keeps:
  assumes "captureHoldInTransaction env inp db = Inr (h, db')" "wallet_ok db" "external db (cp_counterAccountId inp)"
    and "(\<exists>h. find_hold db (cp_holdId inp) = Some h \<and> wh_status h \<noteq> HELD) \<or>
      find_txn_by_key db (hold_ledger_key (cp_idempotencyKey inp)) = None"
  shows "wallet_ok db'"
  using assms(1)
proof (cases rule: capture_cases)
  case replay
  then show ?thesis using assms(2) by simp
next
  case (fresh h0 w v db1)
  note ok = wallet_okD [OF assms(2)] and f = post_facts [OF fresh(5) wallet_okD(2) [OF assms(2)]]
  have wm: "w \<in> set (wallets db)" using find_wallet_Some [OF fresh(3)] by simp
  have k: "find_txn_by_key db (js_trim (pi_idempotencyKey (capture_post inp (js_trim (cp_idempotencyKey inp)) w h0))) = None"
    using assms(4) fresh(1,2) by (auto simp: capture_post_def hold_ledger_key_def)
  have tr: "transferred (w_heldAccountId w) (js_trim (cp_counterAccountId inp)) (wh_amountNgn h0) db db1"
    using post_moves [OF fresh(5) ok(2) k, of "w_heldAccountId w" "wh_amountNgn h0" "cp_counterAccountId inp"]
      wallet_account_trimmed [OF ok(1)] wallet_account_member [OF wm]
    by (simp add: capture_post_def transfer_lines_shape)
  have ho: "hold_ok h0" using find_hold_Some [OF fresh(1)] ok(1) by (simp add: wallet_shape_def)
  have open1: "w_status w \<noteq> WS_CLOSED" using fresh(4) by simp
  show ?thesis
    by (rule resolve_keeps [OF assms(2) fresh(1-3) open1 f(1,2) tr _ fresh(6)])
       (use assms(3) ho in \<open>auto simp: hold_ok_def fresh(2) external_def\<close>)
qed

end
