(* ===== verification/Wallet_Laws.thy ===== *)
theory Wallet_Laws
  imports Wallet_Invariants
begin

text \<open>
  Administration and provisioning keep the wallet invariant; the step relation of the wallet
  service; its properties: solvency, the exact effect of credit, debit, hold, release and
  capture, refusal of overspending, hold life cycle, retries, freezing and closing.
\<close>

section \<open>Administration\<close>

lemma set_wallet_status_money:
  assumes "wallet_ok db" "find_wallet db i = Some w"
    and "s = WS_CLOSED \<Longrightarrow> net db (w_availableAccountId w) = 0 \<and> net db (w_heldAccountId w) = 0"
    and db': "wallets db' = update_where (\<lambda>w. w_walletId w = i) (\<lambda>w. w\<lparr>w_status := s\<rparr>) (wallets db)"
      "holds db' = holds db" "entries db' = entries db" "txns db' = txns db"
      "map la_accountId (accounts db') = map la_accountId (accounts db)"
      "map la_code (accounts db') = map la_code (accounts db)"
  shows "wallet_ok db'"
proof -
  note ok = wallet_okD [OF assms(1)]
  have wi: "w \<in> set (wallets db)" "w_walletId w = i" using find_wallet_Some [OF assms(2)] by simp_all
  have net: "net db' a = net db a" for a by (rule net_cong) (rule db')
  have hs: "held_sum db' j = held_sum db j" for j by (rule held_sum_cong) (rule db')
  have accs: "la_accountId ` set (accounts db') = la_accountId ` set (accounts db)" using db'(5) by (metis list.set_map)
  have wa: "wallet_accounts db' = wallet_accounts db" by (simp add: wallet_accounts_def db'(1) update_where_def comp_def if_distrib cong: if_cong)
  have wid: "map w_walletId (wallets db') = map w_walletId (wallets db)" by (simp add: db'(1) map_update_where)
  have wids: "w_walletId ` set (wallets db') = w_walletId ` set (wallets db)" using wid by (metis list.set_map)
  have tr: "accounts_trimmed db'"
  proof -
    have "js_trim ` la_accountId ` set (accounts db) = js_trim ` la_accountId ` set (accounts db')" using accs by simp
    show ?thesis unfolding accounts_trimmed_def
    proof
      fix a assume "a \<in> set (accounts db')"
      then have "la_accountId a \<in> la_accountId ` set (accounts db)" using accs by blast
      then show "js_trim (la_accountId a) = la_accountId a" using ok(3) by (auto simp: accounts_trimmed_def)
    qed
  qed
  have "ledger_ok db'"
    using ok(2) accs by (simp add: ledger_ok_def entries_of_def db')
  then have shape: "wallet_shape db'"
    using ok(1) tr wids wa wid accs by (simp add: wallet_shape_def db'(2))
  have "wallet_money db' w'" if w': "w' \<in> set (wallets db')" for w'
  proof -
    obtain w0 where w0: "w0 \<in> set (wallets db)" "w' = (if w_walletId w0 = i then w0\<lparr>w_status := s\<rparr> else w0)"
      using w' unfolding db'(1) set_update_where by blast
    have "w_walletId w0 = i \<Longrightarrow> w0 = w" using distinct_key_eq [OF ok(4) w0(1) wi(1)] wi(2) by simp
    then show ?thesis using ok(5) [OF w0(1)] w0(2) assms(3) by (auto simp: wallet_money_def net hs)
  qed
  then show ?thesis using shape by (simp add: wallet_ok_def)
qed

lemma switch_status_cases:
  assumes "switch_status env from to action i admin reason db = Inr (v, db')"
  obtains w where "find_wallet db i = Some w" "w_status w = from"
    "db' = write_audit env (wallet_audit action admin i) [(''reason'', JStr reason)] (set_wallet_status i to db)"
    "getWallet db' i = Inr v"
  using assms by (auto simp: switch_status_def Let_def res_simps split: option.splits if_splits)

lemma switch_status_keeps:
  assumes "switch_status env from to action i admin reason db = Inr (v, db')" "wallet_ok db" "to \<noteq> WS_CLOSED"
  shows "wallet_ok db'"
  using assms(1)
  by (rule switch_status_cases, intro set_wallet_status_money [OF assms(2), where s = to and db' = db'])
     (use assms(3) in \<open>auto simp: write_audit_def set_wallet_status_def\<close>)

lemma freeze_keeps: "freezeWallet env i admin reason db = Inr (v, db') \<Longrightarrow> wallet_ok db \<Longrightarrow> wallet_ok db'"
  by (auto simp: freezeWallet_def Let_def split: if_splits intro: switch_status_keeps)

lemma unfreeze_keeps: "unfreezeWallet env i admin reason db = Inr (v, db') \<Longrightarrow> wallet_ok db \<Longrightarrow> wallet_ok db'"
  by (auto simp: unfreezeWallet_def Let_def split: if_splits intro: switch_status_keeps)

lemma close_cases:
  assumes "closeWallet env i admin reason db = Inr (v, db')"
  obtains w where "find_wallet db i = Some w" "w_status w \<noteq> WS_CLOSED"
    "net db (w_availableAccountId w) = 0" "net db (w_heldAccountId w) = 0" "open_holds db i = []"
    "js_trim reason \<noteq> []" "getWallet db' i = Inr v"
    "db' = write_audit env (wallet_audit ''WALLET_CLOSED'' admin i) [(''reason'', JStr (js_trim reason))]
       ((set_wallet_status i WS_CLOSED db)\<lparr>accounts := update_where
          (\<lambda>a. la_accountId a = w_availableAccountId w \<or> la_accountId a = w_heldAccountId w)
          (\<lambda>a. a\<lparr>la_status := LAS_CLOSED\<rparr>) (accounts db)\<rparr>)"
  using assms
  by (auto simp: closeWallet_def Let_def res_simps open_holds_def set_wallet_status_def split: if_splits)

lemma close_keeps:
  assumes "closeWallet env i admin reason db = Inr (v, db')" "wallet_ok db"
  shows "wallet_ok db'"
  using assms(1)
proof (rule close_cases)
  fix w
  assume a: "find_wallet db i = Some w" "net db (w_availableAccountId w) = 0" "net db (w_heldAccountId w) = 0"
    "db' = write_audit env (wallet_audit ''WALLET_CLOSED'' admin i) [(''reason'', JStr (js_trim reason))]
       ((set_wallet_status i WS_CLOSED db)\<lparr>accounts := update_where
          (\<lambda>a. la_accountId a = w_availableAccountId w \<or> la_accountId a = w_heldAccountId w)
          (\<lambda>a. a\<lparr>la_status := LAS_CLOSED\<rparr>) (accounts db)\<rparr>)"
  show ?thesis
    by (rule set_wallet_status_money [OF assms(2) a(1), where s = WS_CLOSED])
       (use a(2,3) in \<open>simp_all add: a(4) write_audit_def set_wallet_status_def map_update_where\<close>)
qed

section \<open>Provisioning\<close>

lemma create_account_wallet_shape:
  assumes "create_account env db a0 = Inr (a, db')" "wallet_shape db" "uuid_ok env"
  shows "wallet_shape db'" "la_accountId a \<notin> la_accountId ` set (accounts db)"
    "la_accountId a \<in> la_accountId ` set (accounts db')"
    "accounts db' = accounts db @ [a]" "wallets db' = wallets db" "holds db' = holds db" "entries db' = entries db"
proof -
  note c = create_account_cases [OF assms(1)]
  have "ledger_ok db'" using create_account_ledger_ok [OF assms(1)] assms(2) by (simp add: wallet_shape_def)
  moreover have "js_trim (la_accountId a) = la_accountId a" using assms(3) c(1) by (simp add: uuid_ok_def)
  ultimately show "wallet_shape db'"
    using assms(2) by (auto simp: wallet_shape_def c(4) accounts_trimmed_def wallet_accounts_def)
  show "la_accountId a \<notin> la_accountId ` set (accounts db)"
    using c(2) by (auto simp: find_account_def find_None_set)
  show "la_accountId a \<in> la_accountId ` set (accounts db')" "accounts db' = accounts db @ [a]"
    "wallets db' = wallets db" "holds db' = holds db" "entries db' = entries db"
    by (simp_all add: c(4))
qed

lemma create_wallet_cases:
  assumes "create_wallet env db w0 = Inr (w, db')"
  shows "w = w0\<lparr>w_walletId := e_uuid env (seq db), w_status := WS_ACTIVE\<rparr>"
    "w_walletId w \<notin> w_walletId ` set (wallets db)"
    "db' = db\<lparr>wallets := wallets db @ [w], seq := seq db + 1\<rparr>"
  using assms by (auto simp: create_wallet_def Let_def split: if_splits)

lemma unused_account_net:
  assumes "ledger_ok db" "a \<notin> la_accountId ` set (accounts db)"
  shows "net db a = 0"
  unfolding net_eq
  by (rule sum_by_zero) (use assms in \<open>auto simp: ledger_ok_def entry_credit_def entry_debit_def\<close>)

lemma provision_cases:
  assumes "provision_wallet env ot oid db = Inr (i, db')"
  obtains (existing) w where "find_owner_wallet db ot oid = Some w" "i = w_walletId w" "db' = db"
  | (created) av he db1 db2 w where "find_owner_wallet db ot oid = None"
      "create_account env db (wallet_account ot oid True) = Inr (av, db1)"
      "create_account env db1 (wallet_account ot oid False) = Inr (he, db2)"
      "create_wallet env db2 \<lparr>w_walletId = [], w_ownerType = ot,
             w_userId = (if ot = CUSTOMER then Some oid else None),
             w_agentId = (if ot = AGENT then Some oid else None),
             w_currency = ''NGN'', w_status = WS_ACTIVE,
             w_availableAccountId = la_accountId av, w_heldAccountId = la_accountId he\<rparr> = Inr (w, db')"
      "i = w_walletId w"
proof (cases "find_owner_wallet db ot oid")
  case (Some w)
  then show thesis using assms existing by (auto simp: provision_wallet_def split: if_splits)
next
  case None
  then have "\<exists>av he db1 db2 w. create_account env db (wallet_account ot oid True) = Inr (av, db1) \<and>
      create_account env db1 (wallet_account ot oid False) = Inr (he, db2) \<and>
      create_wallet env db2 \<lparr>w_walletId = [], w_ownerType = ot,
             w_userId = (if ot = CUSTOMER then Some oid else None),
             w_agentId = (if ot = AGENT then Some oid else None),
             w_currency = ''NGN'', w_status = WS_ACTIVE,
             w_availableAccountId = la_accountId av, w_heldAccountId = la_accountId he\<rparr> = Inr (w, db') \<and>
      i = w_walletId w"
    using assms by (auto simp: provision_wallet_def res_simps split: if_splits)
  then show thesis using created None by blast
qed

lemma provision_keeps:
  assumes "provision_wallet env ot oid db = Inr (i, db')" "wallet_ok db" "uuid_ok env"
  shows "wallet_ok db'"
  using assms(1)
proof (cases rule: provision_cases)
  case (existing w)
  then show ?thesis using assms(2) by simp
next
  case (created av he db1 db2 w)
  note ok = wallet_okD [OF assms(2)]
  note a = create_account_wallet_shape [OF created(2) ok(1) assms(3)]
  note h = create_account_wallet_shape [OF created(3) a(1) assms(3)]
  note w = create_wallet_cases [OF created(4)]
  have av: "w_availableAccountId w = la_accountId av" and he: "w_heldAccountId w = la_accountId he" using w(1) by simp_all
  have net: "net db' x = net db x" for x by (rule net_cong) (simp add: w(3) h(7) a(7))
  have hs: "held_sum db' x = held_sum db x" for x by (rule held_sum_cong) (simp add: w(3) h(6) a(6))
  have wa: "set (wallet_accounts db) \<subseteq> la_accountId ` set (accounts db)" using ok(1) by (simp add: wallet_shape_def)
  have fresh: "la_accountId av \<notin> set (wallet_accounts db)" "la_accountId he \<notin> set (wallet_accounts db)"
    "la_accountId av \<noteq> la_accountId he" "la_accountId he \<notin> la_accountId ` set (accounts db)"
    using wa a(2) h(2) by (auto simp: a(4))
  have "ledger_ok db'" using h(1) by (simp add: w(3) wallet_shape_def ledger_ok_def entries_of_def)
  moreover have "wallet_accounts db' = wallet_accounts db @ [la_accountId av, la_accountId he]"
    by (simp add: wallet_accounts_def w(3) h(5) a(5) av he)
  moreover have "accounts_trimmed db'" using h(1) by (simp add: w(3) wallet_shape_def accounts_trimmed_def)
  ultimately have shape: "wallet_shape db'"
    using ok(1) h(1) w(2) fresh wa
    by (auto simp: wallet_shape_def w(3) h(4,5,6) a(4,5,6))
  have "w_walletId w \<notin> w_walletId ` set (wallets db)" using w(2) by (simp add: h(5) a(5))
  moreover have "\<And>x. x \<in> set (holds db) \<Longrightarrow> wh_walletId x \<in> w_walletId ` set (wallets db)"
    using ok(1) by (simp add: wallet_shape_def)
  ultimately have none: "open_holds db (w_walletId w) = []"
    unfolding open_holds_def filter_empty_conv by metis
  have "wallet_money db' w"
    using unused_account_net [OF ok(2) a(2)] unused_account_net [OF ok(2) fresh(4)] none hs
    by (simp add: wallet_money_def net av he held_sum_def)
  moreover have "wallet_money db' w'" if "w' \<in> set (wallets db)" for w'
    using ok(5) [OF that] by (auto simp: wallet_money_def net hs)
  ultimately show ?thesis using shape by (auto simp: wallet_ok_def w(3) h(5) a(5))
qed

lemma recover_wallet_db: "recover_wallet ot oid cur err = Inr (v, db') \<Longrightarrow> db' = cur"
  by (auto simp: recover_wallet_def res_simps split: if_splits option.splits)

lemma ensureWallet_keeps:
  assumes "ensureWallet env ot oid c db = Inr (v, db')" "wallet_ok db" "uuid_ok env"
    and "\<And>cur. c = LostRace cur \<Longrightarrow> wallet_ok cur"
  shows "wallet_ok db'"
proof (cases "find_owner_wallet db ot oid")
  case (Some w)
  then show ?thesis using assms by (auto simp: ensureWallet_def split: if_splits)
next
  case None
  show ?thesis
  proof (cases "provision_wallet env ot oid db")
    case (Inl e)
    then have "recover_wallet ot oid db e = Inr (v, db')"
      using assms(1) None by (auto simp: ensureWallet_def split: if_splits)
    then show ?thesis using recover_wallet_db assms(2) by blast
  next
    case (Inr r)
    obtain i db1 where r: "provision_wallet env ot oid db = Inr (i, db1)" using Inr by (cases r) simp
    show ?thesis
    proof (cases c)
      case Commits
      then have "db' = db1" using assms(1) None r by (auto simp: ensureWallet_def res_simps split: if_splits)
      then show ?thesis using provision_keeps [OF r assms(2,3)] by simp
    next
      case (LostRace cur)
      then have "recover_wallet ot oid cur unique_violation = Inr (v, db')"
        using assms(1) None r by (auto simp: ensureWallet_def split: if_splits)
      then show ?thesis using recover_wallet_db assms(4) [OF LostRace] by blast
    qed
  qed
qed

section \<open>Runs of the wallet service\<close>

text \<open>
  Every operation of the wallet service, and the rest of the program: it posts and reverses
  journals that do not touch wallet accounts, ensures accounts, changes the status of
  accounts and writes its own tables. The counter account of a movement is not an account of
  any wallet, and a new hold, release or capture posts under an unused ledger key.
\<close>

inductive wallet_step :: "db \<Rightarrow> db \<Rightarrow> bool" where
  ws_credit: "creditInTransaction (env :: env) inp db = Inr (v, db') \<Longrightarrow>
    external db (mv_counterAccountId inp) \<Longrightarrow> wallet_step db db'"
| ws_debit: "debitInTransaction (env :: env) inp db = Inr (v, db') \<Longrightarrow>
    external db (mv_counterAccountId inp) \<Longrightarrow> wallet_step db db'"
| ws_hold: "createHoldInTransaction (env :: env) hinp db = Inr (h, db') \<Longrightarrow>
    find_hold_by_key db (js_trim (ch_idempotencyKey hinp)) \<noteq> None \<or>
      find_txn_by_key db (hold_ledger_key (ch_idempotencyKey hinp)) = None \<Longrightarrow> wallet_step db db'"
| ws_release: "releaseHoldInTransaction (env :: env) rinp db = Inr (h, db') \<Longrightarrow>
    (\<exists>h. find_hold db (rl_holdId rinp) = Some h \<and> wh_status h \<noteq> HELD) \<or>
      find_txn_by_key db (js_trim (rl_idempotencyKey rinp)) = None \<Longrightarrow> wallet_step db db'"
| ws_capture: "captureHoldInTransaction (env :: env) cinp db = Inr (h, db') \<Longrightarrow>
    external db (cp_counterAccountId cinp) \<Longrightarrow>
    (\<exists>h. find_hold db (cp_holdId cinp) = Some h \<and> wh_status h \<noteq> HELD) \<or>
      find_txn_by_key db (hold_ledger_key (cp_idempotencyKey cinp)) = None \<Longrightarrow> wallet_step db db'"
| ws_freeze: "freezeWallet (env :: env) i admin reason db = Inr (wv, db') \<Longrightarrow> wallet_step db db'"
| ws_unfreeze: "unfreezeWallet (env :: env) i admin reason db = Inr (wv, db') \<Longrightarrow> wallet_step db db'"
| ws_close: "closeWallet (env :: env) i admin reason db = Inr (wv, db') \<Longrightarrow> wallet_step db db'"
| ws_ensure: "ensureWallet (env :: env) ot oid Commits db = Inr (wv, db') \<Longrightarrow> uuid_ok env \<Longrightarrow> wallet_step db db'"
| ws_post: "postInTransaction (env :: env) pinp db = Inr (v, db') \<Longrightarrow>
    (\<And>l. l \<in> set (pi_lines pinp) \<Longrightarrow> external db (li_accountId l)) \<Longrightarrow> wallet_step db db'"
| ws_account: "ensureAccount (env :: env) einp seen db = Inr (a, db') \<Longrightarrow> uuid_ok env \<Longrightarrow> wallet_step db db'"
| ws_other: "txns db' = txns db \<Longrightarrow> entries db' = entries db \<Longrightarrow> wallets db' = wallets db \<Longrightarrow> holds db' = holds db \<Longrightarrow>
    map (\<lambda>a. (la_accountId a, la_code a)) (accounts db') = map (\<lambda>a. (la_accountId a, la_code a)) (accounts db) \<Longrightarrow>
    wallet_step db db'"

inductive_cases wallet_stepE: "wallet_step db db'"

lemma wallet_ok_same_money:
  assumes "wallet_ok db" "wallet_shape db'" "wallets db' = wallets db" "holds db' = holds db"
    and "\<And>a. a \<in> set (wallet_accounts db) \<Longrightarrow> net db' a = net db a"
  shows "wallet_ok db'"
  unfolding wallet_ok_def
proof (intro conjI assms(2) ballI)
  fix w assume "w \<in> set (wallets db')"
  then have w: "w \<in> set (wallets db)" by (simp add: assms(3))
  show "wallet_money db' w"
    using wallet_okD(5) [OF assms(1) w] assms(5) wallet_account_member [OF w] held_sum_cong [OF assms(4)]
    by (auto simp: wallet_money_def)
qed

lemma wallet_post_keeps:
  assumes "postInTransaction env inp db = Inr (v, db')" "wallet_ok db"
    and "\<And>l. l \<in> set (pi_lines inp) \<Longrightarrow> external db (li_accountId l)"
  shows "wallet_ok db'"
proof -
  note ok = wallet_okD [OF assms(2)] and f = post_facts [OF assms(1) wallet_okD(2) [OF assms(2)]]
  note fr = same_frame_sel [OF f(2)]
  have "net db' a = net db a" if "a \<in> set (wallet_accounts db)" for a
  proof (rule ledger.post_untouched [of "(env, inp)" db v db'])
    show "(\<lambda>(env, inp). postInTransaction env inp) (env, inp) db = Inr (v, db')" using assms(1) by simp
    show "ledger_ok db" by (rule ok)
    fix l assume "l \<in> set ((\<lambda>(env, inp). map norm_line (pi_lines inp)) (env, inp))"
    then show "li_accountId l \<noteq> a" using assms(3) that by (auto simp: external_def)
  qed
  then show ?thesis
    by (rule wallet_ok_same_money [OF assms(2) wallet_shape_cong [OF ok(1) f(1) fr(1-3)] fr(2,3)])
qed

lemma wallet_other_keeps:
  assumes "wallet_ok db" "txns db' = txns db" "entries db' = entries db" "wallets db' = wallets db" "holds db' = holds db"
    "map (\<lambda>a. (la_accountId a, la_code a)) (accounts db') = map (\<lambda>a. (la_accountId a, la_code a)) (accounts db)"
  shows "wallet_ok db'"
proof -
  note ok = wallet_okD [OF assms(1)] and m = map_pair_eqD [OF assms(6)]
  have accs: "la_accountId ` set (accounts db') = la_accountId ` set (accounts db)" using m(1) by (metis list.set_map)
  have "accounts_trimmed db'"
    unfolding accounts_trimmed_def
  proof
    fix a assume "a \<in> set (accounts db')"
    then have "la_accountId a \<in> la_accountId ` set (accounts db)" using accs by blast
    then show "js_trim (la_accountId a) = la_accountId a" using ok(3) by (auto simp: accounts_trimmed_def)
  qed
  then have "wallet_shape db'"
    using ok(1) ledger_ok_other [OF ok(2) assms(2,3,6)] accs by (simp add: wallet_shape_def assms(4,5) wallet_accounts_def)
  then show ?thesis
    by (rule wallet_ok_same_money [OF assms(1) _ assms(4,5)]) (rule net_cong [OF assms(3)])
qed

lemma wallet_account_keeps:
  assumes "ensureAccount env inp seen db = Inr (a, db')" "wallet_ok db" "uuid_ok env"
  shows "wallet_ok db'"
  using assms(1)
proof (cases rule: ensureAccount_cases)
  case (found n)
  then show ?thesis using assms(2) by simp
next
  case (created n)
  note c = create_account_wallet_shape [OF created(3) wallet_okD(1) [OF assms(2)] assms(3)]
  show ?thesis by (rule wallet_ok_same_money [OF assms(2) c(1,5,6)]) (rule net_cong, rule c)
qed

lemma wallet_step_keeps: "wallet_step db db' \<Longrightarrow> wallet_ok db \<Longrightarrow> wallet_ok db'"
proof (induction rule: wallet_step.induct)
  case (ws_ensure env ot oid db wv db')
  then show ?case by (blast intro: ensureWallet_keeps)
next
  case (ws_other db' db)
  show ?case by (rule wallet_other_keeps [OF ws_other.prems ws_other.hyps])
next
  case (ws_post env pinp db v db')
  show ?case by (rule wallet_post_keeps [OF ws_post.hyps(1) ws_post.prems ws_post.hyps(2)])
qed (blast intro: credit_keeps debit_keeps createHold_keeps release_keeps capture_keeps freeze_keeps
    unfreeze_keeps close_keeps wallet_account_keeps)+

interpretation wallet_run: kept_by_steps wallet_step wallet_ok
  by unfold_locales (rule wallet_step_keeps)

lemma wallet_ok_empty: "wallet_ok empty_db"
  using ledger_ok_empty
  by (simp add: wallet_ok_def wallet_shape_def accounts_trimmed_def wallet_accounts_def empty_db_def)

section \<open>Lemmas of the properties\<close>

lemma getWallet_view:
  "getWallet db i = Inr v \<longleftrightarrow> (\<exists>w. find_wallet db i = Some w \<and> v = toWalletView db w)"
  by (auto simp: getWallet_def split: option.splits)

lemma toWalletView_sel:
  "wv_availableNgn (toWalletView db w) = net db (w_availableAccountId w)"
  "wv_heldNgn (toWalletView db w) = net db (w_heldAccountId w)"
  "wv_totalNgn (toWalletView db w) = net db (w_availableAccountId w) + net db (w_heldAccountId w)"
  "wv_status (toWalletView db w) = w_status w" "wv_walletId (toWalletView db w) = w_walletId w"
  by (simp_all add: toWalletView_def getBalances_eq Let_def)

text \<open>The journal of a wallet with a fresh key moves its amount.\<close>

lemma wallet_transfer:
  assumes "postInTransaction env pinp db = Inr (v, db')" "wallet_ok db"
    and "find_txn_by_key db (js_trim (pi_idempotencyKey pinp)) = None"
    and "map (\<lambda>l. (li_accountId l, li_side l, li_amountNgn l)) (pi_lines pinp) = [(src, DEBIT, n), (dst, CREDIT, n)]"
  shows "transferred (js_trim src) (js_trim dst) n db db'"
  using post_moves [OF assms(1) wallet_okD(2) [OF assms(2)] assms(3,4)] .

text \<open>Who can spend nothing: every operation of a closed wallet that moves money is refused.\<close>

lemma closed_refused:
  assumes "find_wallet db i = Some w" "w_status w = WS_CLOSED"
  shows "mv_walletId inp = i \<Longrightarrow> \<exists>e. creditInTransaction env inp db = Inl e"
    and "mv_walletId inp = i \<Longrightarrow> \<exists>e. debitInTransaction env inp db = Inl e"
    and "ch_walletId hinp = i \<Longrightarrow> \<exists>e. createHoldInTransaction env hinp db = Inl e"
proof -
  show "\<exists>e. creditInTransaction env inp db = Inl e" if "mv_walletId inp = i"
    using assms that
    by (auto simp: creditInTransaction_def validateAmount_def lockWallet_def assertCanReceive_def)
  show "\<exists>e. debitInTransaction env inp db = Inl e" if "mv_walletId inp = i"
    using assms that
    by (auto simp: debitInTransaction_def validateAmount_def lockWallet_def assertCanSpend_def)
  show "\<exists>e. createHoldInTransaction env hinp db = Inl e" if "ch_walletId hinp = i"
    using assms that
    by (auto simp: createHoldInTransaction_def validateAmount_def lockWallet_def assertCanSpend_def
        normalizeIdempotencyKey_def Let_def)
qed

text \<open>The statuses of a hold only move forward.\<close>

definition hold_progress :: "wallet_hold \<Rightarrow> wallet_hold \<Rightarrow> bool" where
  "hold_progress h h' \<longleftrightarrow> wh_holdId h' = wh_holdId h \<and> wh_walletId h' = wh_walletId h \<and>
     wh_amountNgn h' = wh_amountNgn h \<and> wh_idempotencyKey h' = wh_idempotencyKey h \<and>
     wh_holdLedgerTxnId h' = wh_holdLedgerTxnId h \<and> (wh_status h \<noteq> HELD \<longrightarrow> h' = h)"

lemma hold_progress_refl [simp]: "hold_progress h h"
  by (simp add: hold_progress_def)

lemma hold_progress_trans: "hold_progress a b \<Longrightarrow> hold_progress b c \<Longrightarrow> hold_progress a c"
  by (auto simp: hold_progress_def)

definition holds_progress :: "db \<Rightarrow> db \<Rightarrow> bool" where
  "holds_progress db db' \<longleftrightarrow> (\<forall>h\<in>set (holds db). \<exists>h'\<in>set (holds db'). hold_progress h h')"

lemma holds_progress_same: "holds db' = holds db \<Longrightarrow> holds_progress db db'"
  unfolding holds_progress_def using hold_progress_refl by metis

lemma holds_progress_update:
  assumes "holds db' = update_where (\<lambda>h. wh_holdId h = wh_holdId h0) upd (holds db)"
    and "\<And>h. h \<in> set (holds db) \<Longrightarrow> wh_holdId h = wh_holdId h0 \<Longrightarrow> hold_progress h (upd h)"
  shows "holds_progress db db'"
  unfolding holds_progress_def assms(1) set_update_where
proof
  fix h assume h: "h \<in> set (holds db)"
  have "hold_progress h (if wh_holdId h = wh_holdId h0 then upd h else h)" using assms(2) [OF h] by simp
  then show "\<exists>h'\<in>(\<lambda>h. if wh_holdId h = wh_holdId h0 then upd h else h) ` set (holds db). hold_progress h h'"
    using h by (rule bexI [OF _ imageI])
qed

lemma wallet_step_progress:
  assumes "wallet_step db db'" "wallet_ok db"
  shows "holds_progress db db'"
proof -
  note ok = wallet_okD [OF assms(2)]
  have d: "distinct (map wh_holdId (holds db))" using ok(1) by (simp add: wallet_shape_def)
  have post: "holds_progress db db1" if "postInTransaction env inp db = Inr (v, db1)" for env :: env and inp v db1
    using same_frame_sel(3) [OF post_facts(2) [OF that ok(2)]] by (rule holds_progress_same)
  from assms(1) show ?thesis
  proof (cases rule: wallet_step.cases)
    case (ws_credit env inp v)
    then show ?thesis using post by (auto elim: credit_cases)
  next
    case (ws_debit env inp v)
    then show ?thesis using post by (auto elim!: debit_cases)
  next
    case (ws_hold env hinp h)
    from ws_hold(1) show ?thesis
    proof (cases rule: createHold_cases)
      case (fresh w v db1)
      have "holds db1 = holds db" using same_frame_sel(3) [OF post_facts(2) [OF fresh(6) ok(2)]] .
      then show ?thesis unfolding holds_progress_def fresh(13) using hold_progress_refl by force
    qed (auto intro: holds_progress_same)
  next
    case (ws_release env rinp h)
    from ws_release(1) show ?thesis
    proof (cases rule: release_cases)
      case (fresh h0 w v db1)
      have h0: "h0 \<in> set (holds db)" using find_hold_Some [OF fresh(1)] by simp
      have "holds db1 = holds db" using same_frame_sel(3) [OF post_facts(2) [OF fresh(5) ok(2)]] .
      then show ?thesis
        using distinct_key_eq [OF d _ h0] fresh(2)
        by (intro holds_progress_update [of db' h0]) (simp add: fresh(6), auto simp: hold_progress_def)
    qed (auto intro: holds_progress_same)
  next
    case (ws_capture env cinp h)
    from ws_capture(1) show ?thesis
    proof (cases rule: capture_cases)
      case (fresh h0 w v db1)
      have h0: "h0 \<in> set (holds db)" using find_hold_Some [OF fresh(1)] by simp
      have "holds db1 = holds db" using same_frame_sel(3) [OF post_facts(2) [OF fresh(5) ok(2)]] .
      then show ?thesis
        using distinct_key_eq [OF d _ h0] fresh(2)
        by (intro holds_progress_update [of db' h0]) (simp add: fresh(6), auto simp: hold_progress_def)
    qed (auto intro: holds_progress_same)
  next
    case (ws_freeze env i admin reason wv)
    then show ?thesis
      by (intro holds_progress_same)
         (auto simp: freezeWallet_def Let_def write_audit_def set_wallet_status_def split: if_splits elim!: switch_status_cases)
  next
    case (ws_unfreeze env i admin reason wv)
    then show ?thesis
      by (intro holds_progress_same)
         (auto simp: unfreezeWallet_def Let_def write_audit_def set_wallet_status_def split: if_splits elim!: switch_status_cases)
  next
    case (ws_close env i admin reason wv)
    then show ?thesis
      by (intro holds_progress_same) (auto simp: write_audit_def set_wallet_status_def elim!: close_cases)
  next
    case (ws_ensure env ot oid wv)
    have prov: "holds db1 = holds db" if "provision_wallet env ot oid db = Inr (i, db1)" for i db1
      using that
    proof (cases rule: provision_cases)
      case (created av he dba dbb w)
      then show ?thesis by (auto dest!: create_account_cases(4) create_wallet_cases(3))
    qed simp
    have "holds db' = holds db"
      using ws_ensure(1) prov
      by (auto simp: ensureWallet_def res_simps split: if_splits option.splits sum.splits dest!: recover_wallet_db)
    then show ?thesis by (rule holds_progress_same)
  next
    case (ws_post env pinp v)
    then show ?thesis using post by blast
  next
    case (ws_account env einp seen a)
    from ws_account(1) show ?thesis
      by (cases rule: ensureAccount_cases) (auto dest!: create_account_cases(4) intro: holds_progress_same)
  next
    case ws_other
    then show ?thesis by (intro holds_progress_same)
  qed
qed

lemma wallet_run_progress:
  assumes "wallet_step\<^sup>*\<^sup>* db db'" "wallet_ok db"
  shows "holds_progress db db'"
  using assms(1)
proof (induction rule: rtranclp_induct)
  case base
  show ?case by (rule holds_progress_same) simp
next
  case (step y z)
  have "holds_progress y z"
    by (rule wallet_step_progress [OF step.hyps(2) wallet_run.run_keeps [OF step.hyps(1) assms(2)]])
  then show ?case using step.IH hold_progress_trans unfolding holds_progress_def by metis
qed

text \<open>A closed wallet stays closed.\<close>

lemma update_status_closed:
  assumes "w \<in> set ws" "w_walletId w \<noteq> i"
  shows "w \<in> set (update_where (\<lambda>w. w_walletId w = i) f ws)"
  using assms by (force simp: set_update_where image_iff)

lemma wallet_step_closed:
  assumes "wallet_step db db'" "wallet_ok db" "w \<in> set (wallets db)" "w_status w = WS_CLOSED"
  shows "w \<in> set (wallets db')"
proof -
  note ok = wallet_okD [OF assms(2)]
  have post: "w \<in> set (wallets db1)" if "postInTransaction env inp db = Inr (v, db1)" for env :: env and inp v db1
    using same_frame_sel(2) [OF post_facts(2) [OF that ok(2)]] assms(3) by simp
  have this_one: "x = w" if "find_wallet db (w_walletId w) = Some x" for x
    using find_wallet_Some [OF that] distinct_key_eq [OF ok(4) _ assms(3)] by simp
  have switch: "w \<in> set (wallets db1)"
    if "switch_status env st0 st1 act i admin r db = Inr (v, db1)" "st0 \<noteq> WS_CLOSED" for env :: env and st0 st1 act i admin r v db1
    using that(1)
  proof (rule switch_status_cases)
    fix x assume x: "find_wallet db i = Some x" "w_status x = st0"
      "db1 = write_audit env (wallet_audit act admin i) [(''reason'', JStr r)] (set_wallet_status i st1 db)"
    have "w_walletId w \<noteq> i" using this_one x(1,2) that(2) assms(4) by auto
    then show ?thesis using update_status_closed [OF assms(3)] by (simp add: x(3) write_audit_def set_wallet_status_def)
  qed
  from assms(1) show ?thesis
  proof (cases rule: wallet_step.cases)
    case (ws_credit env inp v)
    then show ?thesis using post by (auto elim: credit_cases)
  next
    case (ws_debit env inp v)
    then show ?thesis using post by (auto elim!: debit_cases)
  next
    case (ws_hold env hinp h)
    from ws_hold(1) show ?thesis by (cases rule: createHold_cases) (use assms(3) post in auto)
  next
    case (ws_release env rinp h)
    from ws_release(1) show ?thesis by (cases rule: release_cases) (use assms(3) post in auto)
  next
    case (ws_capture env cinp h)
    from ws_capture(1) show ?thesis by (cases rule: capture_cases) (use assms(3) post in auto)
  next
    case (ws_freeze env i admin reason wv)
    then show ?thesis using switch by (auto simp: freezeWallet_def Let_def split: if_splits)
  next
    case (ws_unfreeze env i admin reason wv)
    then show ?thesis using switch by (auto simp: unfreezeWallet_def Let_def split: if_splits)
  next
    case (ws_close env i admin reason wv)
    from ws_close show ?thesis
    proof (rule close_cases)
      fix x assume x: "find_wallet db i = Some x" "w_status x \<noteq> WS_CLOSED"
        "db' = write_audit env (wallet_audit ''WALLET_CLOSED'' admin i) [(''reason'', JStr (js_trim reason))]
         ((set_wallet_status i WS_CLOSED db)\<lparr>accounts := update_where
          (\<lambda>a. la_accountId a = w_availableAccountId x \<or> la_accountId a = w_heldAccountId x)
          (\<lambda>a. a\<lparr>la_status := LAS_CLOSED\<rparr>) (accounts db)\<rparr>)"
      have "w_walletId w \<noteq> i" using this_one x(1,2) assms(4) by auto
      then show ?thesis using update_status_closed [OF assms(3)] by (simp add: x(3) write_audit_def set_wallet_status_def)
    qed
  next
    case (ws_ensure env ot oid wv)
    have prov: "w \<in> set (wallets db1)" if "provision_wallet env ot oid db = Inr (i, db1)" for i db1
      using that
    proof (cases rule: provision_cases)
      case (created av he dba dbb x)
      then show ?thesis using assms(3) by (auto dest!: create_account_cases(4) create_wallet_cases(3))
    qed (use assms(3) in simp)
    show ?thesis
      using ws_ensure(1) prov assms(3)
      by (auto simp: ensureWallet_def res_simps split: if_splits option.splits sum.splits dest!: recover_wallet_db)
  next
    case (ws_post env pinp v)
    then show ?thesis using post by blast
  next
    case (ws_account env einp seen a)
    from ws_account(1) show ?thesis
      by (cases rule: ensureAccount_cases) (use assms(3) in \<open>auto dest!: create_account_cases(4)\<close>)
  next
    case ws_other
    then show ?thesis using assms(3) by simp
  qed
qed

lemma wallet_run_closed:
  assumes "wallet_step\<^sup>*\<^sup>* db db'" "wallet_ok db" "w \<in> set (wallets db)" "w_status w = WS_CLOSED"
  shows "w \<in> set (wallets db')"
  using assms(1)
proof (induction rule: rtranclp_induct)
  case (step y z)
  show ?case
    by (rule wallet_step_closed [OF step.hyps(2) wallet_run.run_keeps [OF step.hyps(1) assms(2)] step.IH assms(4)])
qed (rule assms)

text \<open>After an open hold, its sum is at least its amount.\<close>

lemma held_sum_zero_iff:
  assumes "wallet_shape db" "held_sum db i = 0"
  shows "open_holds db i = []"
proof (rule ccontr)
  assume "open_holds db i \<noteq> []"
  then obtain h hs where h: "open_holds db i = h # hs" by (cases "open_holds db i") auto
  have pos: "0 < wh_amountNgn x" if "x \<in> set (open_holds db i)" for x
    using that assms(1) by (auto simp: open_holds_def wallet_shape_def hold_ok_def)
  have "0 \<le> sum_by wh_amountNgn hs" by (rule sum_by_nonneg) (use pos h in \<open>simp add: less_imp_le\<close>)
  moreover have "0 < wh_amountNgn h" using pos h by simp
  ultimately show False using assms(2) h by (simp add: held_sum_def)
qed

lemma held_sum_nonneg:
  assumes "wallet_shape db"
  shows "0 \<le> held_sum db i"
  unfolding held_sum_def
  by (rule sum_by_nonneg) (use assms in \<open>auto simp: open_holds_def wallet_shape_def hold_ok_def less_imp_le\<close>)

section \<open>Two-step lemmas\<close>

lemma find_wallet_wallets: "wallets db' = wallets db \<Longrightarrow> find_wallet db' i = find_wallet db i"
  by (simp add: find_wallet_def)

lemma created_found:
  assumes "createHoldInTransaction env inp db = Inr (h, db1)" "wallet_ok db"
    and "find_hold_by_key db (js_trim (ch_idempotencyKey inp)) = None"
      "find_txn_by_key db (hold_ledger_key (ch_idempotencyKey inp)) = None"
  shows "find_hold db1 (wh_holdId h) = Some h \<and> wh_status h = HELD \<and> wh_amountNgn h = ch_amountNgn inp \<and>
    wallets db1 = wallets db \<and>
    (\<exists>w. find_wallet db (ch_walletId inp) = Some w \<and> find_wallet db1 (wh_walletId h) = Some w \<and>
       transferred (w_availableAccountId w) (w_heldAccountId w) (ch_amountNgn inp) db db1)"
  using assms(1)
proof (cases rule: createHold_cases)
  case existing
  then show ?thesis using assms(3) by simp
next
  case (fresh w v db0)
  note ok = wallet_okD [OF assms(2)]
  note fr = same_frame_sel [OF post_facts(2) [OF fresh(6) ok(2)]]
  have wm: "w \<in> set (wallets db)" using find_wallet_Some [OF fresh(1)] by simp
  have k: "find_txn_by_key db (js_trim (pi_idempotencyKey (hold_post inp (js_trim (ch_idempotencyKey inp)) w))) = None"
    using assms(4) by (simp add: hold_post_def hold_ledger_key_def)
  have "transferred (w_availableAccountId w) (w_heldAccountId w) (ch_amountNgn inp) db db0"
    using post_moves [OF fresh(6) ok(2) k, of "w_availableAccountId w" "ch_amountNgn inp" "w_heldAccountId w"]
      wallet_account_trimmed [OF ok(1)] wallet_account_member [OF wm]
    by (simp add: hold_post_def transfer_lines_shape)
  then have tr: "transferred (w_availableAccountId w) (w_heldAccountId w) (ch_amountNgn inp) db db1"
    by (simp add: transferred_def fresh(13) net_eq)
  have "find_hold db1 (wh_holdId h) = Some h"
    using fresh(7) by (simp add: fresh(13) find_hold_def find_append)
  moreover have "find_wallet db1 (wh_walletId h) = Some w" "wallets db1 = wallets db"
    using fresh(1,8) by (simp_all add: fresh(13) find_wallet_def fr(2))
  ultimately show ?thesis using fresh(1,9,10) tr by blast
qed

lemma find_updated_hold:
  assumes "find_hold db i = Some h0" "\<And>h. wh_holdId (upd h) = wh_holdId h"
    and "holds db' = update_where (\<lambda>h. wh_holdId h = wh_holdId h0) upd (holds db)"
  shows "find_hold db' i = Some (upd h0)"
proof -
  have i: "wh_holdId h0 = i" using find_hold_Some [OF assms(1)] by simp
  have "find_hold db' i = map_option upd (find_hold db i)"
    unfolding find_hold_def assms(3) i by (rule find_update_where_same) (auto simp: assms(2))
  then show ?thesis using assms(1) by simp
qed

lemma release_effect:
  assumes "releaseHoldInTransaction env inp db = Inr (h, db')" "wallet_ok db"
    and "find_hold db (rl_holdId inp) = Some h0" "wh_status h0 = HELD"
    and "find_txn_by_key db (js_trim (rl_idempotencyKey inp)) = None"
  shows "wh_status h = RELEASED \<and> find_hold db' (rl_holdId inp) = Some h \<and>
    (\<exists>w. find_wallet db (wh_walletId h0) = Some w \<and>
       transferred (w_heldAccountId w) (w_availableAccountId w) (wh_amountNgn h0) db db')"
  using assms(1)
proof (cases rule: release_cases)
  case replay
  then show ?thesis using assms(3,4) by simp
next
  case (fresh h1 w v db1)
  note ok = wallet_okD [OF assms(2)]
  note fr = same_frame_sel [OF post_facts(2) [OF fresh(5) ok(2)]]
  have h1: "h1 = h0" using fresh(1) assms(3) by simp
  have wm: "w \<in> set (wallets db)" using find_wallet_Some [OF fresh(3)] by simp
  have k: "find_txn_by_key db (js_trim (pi_idempotencyKey (release_post inp (js_trim (rl_idempotencyKey inp)) w h1))) = None"
    using assms(5) by (simp add: release_post_def)
  have "transferred (w_heldAccountId w) (w_availableAccountId w) (wh_amountNgn h1) db db1"
    using post_moves [OF fresh(5) ok(2) k, of "w_heldAccountId w" "wh_amountNgn h1" "w_availableAccountId w"]
      wallet_account_trimmed [OF ok(1)] wallet_account_member [OF wm]
    by (simp add: release_post_def transfer_lines_shape)
  then have tr: "transferred (w_heldAccountId w) (w_availableAccountId w) (wh_amountNgn h0) db db'"
    by (simp add: transferred_def fresh(6) net_eq h1)
  have f: "find_hold db' (rl_holdId inp) = Some h"
    using fresh(1,7) find_hold_Some [OF fresh(1)] by simp
  have "find_hold db' (rl_holdId inp) = Some (h1\<lparr>wh_status := RELEASED, wh_releaseLedgerTxnId := Some (lt_ledgerTxnId (tv_txn v)),
            wh_releaseIdempotencyKey := Some (js_trim (rl_idempotencyKey inp)), wh_resolvedAt := Some (e_now env)\<rparr>)"
    by (rule find_updated_hold [OF fresh(1)]) (simp_all add: fresh(6) fr(3))
  then have "wh_status h = RELEASED" using f by auto
  then show ?thesis using f tr fresh(3) h1 by blast
qed

lemma capture_effect:
  assumes "captureHoldInTransaction env inp db = Inr (h, db')" "wallet_ok db"
    and "find_hold db (cp_holdId inp) = Some h0" "wh_status h0 = HELD"
    and "find_txn_by_key db (hold_ledger_key (cp_idempotencyKey inp)) = None"
  shows "wh_status h = CAPTURED \<and> find_hold db' (cp_holdId inp) = Some h \<and>
    (\<exists>w. find_wallet db (wh_walletId h0) = Some w \<and>
       transferred (w_heldAccountId w) (js_trim (cp_counterAccountId inp)) (wh_amountNgn h0) db db')"
  using assms(1)
proof (cases rule: capture_cases)
  case replay
  then show ?thesis using assms(3,4) by simp
next
  case (fresh h1 w v db1)
  note ok = wallet_okD [OF assms(2)]
  note fr = same_frame_sel [OF post_facts(2) [OF fresh(5) ok(2)]]
  have h1: "h1 = h0" using fresh(1) assms(3) by simp
  have wm: "w \<in> set (wallets db)" using find_wallet_Some [OF fresh(3)] by simp
  have k: "find_txn_by_key db (js_trim (pi_idempotencyKey (capture_post inp (js_trim (cp_idempotencyKey inp)) w h1))) = None"
    using assms(5) by (simp add: capture_post_def hold_ledger_key_def)
  have "transferred (w_heldAccountId w) (js_trim (cp_counterAccountId inp)) (wh_amountNgn h1) db db1"
    using post_moves [OF fresh(5) ok(2) k, of "w_heldAccountId w" "wh_amountNgn h1" "cp_counterAccountId inp"]
      wallet_account_trimmed [OF ok(1)] wallet_account_member [OF wm]
    by (simp add: capture_post_def transfer_lines_shape)
  then have tr: "transferred (w_heldAccountId w) (js_trim (cp_counterAccountId inp)) (wh_amountNgn h0) db db'"
    by (simp add: transferred_def fresh(6) net_eq h1)
  have f: "find_hold db' (cp_holdId inp) = Some h"
    using fresh(1,7) find_hold_Some [OF fresh(1)] by simp
  have "find_hold db' (cp_holdId inp) = Some (h1\<lparr>wh_status := CAPTURED, wh_captureLedgerTxnId := Some (lt_ledgerTxnId (tv_txn v)),
            wh_captureIdempotencyKey := Some (js_trim (cp_idempotencyKey inp)), wh_resolvedAt := Some (e_now env)\<rparr>)"
    by (rule find_updated_hold [OF fresh(1)]) (simp_all add: fresh(6) fr(3))
  then have "wh_status h = CAPTURED" using f by auto
  then show ?thesis using f tr fresh(3) h1 by blast
qed

lemma hold_then_release:
  assumes "createHoldInTransaction env1 hinp db = Inr (h, db1)" "wallet_ok db"
    and "find_hold_by_key db (js_trim (ch_idempotencyKey hinp)) = None"
      "find_txn_by_key db (hold_ledger_key (ch_idempotencyKey hinp)) = None"
    and "releaseHoldInTransaction env2 rinp db1 = Inr (h', db2)" "rl_holdId rinp = wh_holdId h"
    and "find_txn_by_key db1 (js_trim (rl_idempotencyKey rinp)) = None"
  shows "wh_status h = HELD \<and> wh_status h' = RELEASED \<and> wallet_ok db2 \<and> (\<forall>a. net db2 a = net db a) \<and>
    (\<exists>w. find_wallet db (ch_walletId hinp) = Some w \<and>
       transferred (w_availableAccountId w) (w_heldAccountId w) (ch_amountNgn hinp) db db1)"
proof -
  note c = created_found [OF assms(1-4)]
  obtain w where w: "find_wallet db (ch_walletId hinp) = Some w" "find_wallet db1 (wh_walletId h) = Some w"
    "transferred (w_availableAccountId w) (w_heldAccountId w) (ch_amountNgn hinp) db db1" using c by blast
  have ok1: "wallet_ok db1" by (rule createHold_keeps [OF assms(1,2)]) (use assms(4) in simp)
  have f: "find_hold db1 (rl_holdId rinp) = Some h" "wh_status h = HELD" using c assms(6) by simp_all
  note r = release_effect [OF assms(5) ok1 f assms(7)]
  have "transferred (w_heldAccountId w) (w_availableAccountId w) (wh_amountNgn h) db1 db2" using r w(2) by auto
  then have "net db2 a = net db a" for a
    using transferred_trans_net [OF w(3), of a] transferred_trans_net [of "w_heldAccountId w" _ _ db1 db2 a] c by auto
  moreover have "wallet_ok db2" by (rule release_keeps [OF assms(5) ok1]) (use assms(7) in simp)
  ultimately show ?thesis using r w f(2) by blast
qed

lemma hold_then_capture:
  assumes "createHoldInTransaction env1 hinp db = Inr (h, db1)" "wallet_ok db"
    and "find_hold_by_key db (js_trim (ch_idempotencyKey hinp)) = None"
      "find_txn_by_key db (hold_ledger_key (ch_idempotencyKey hinp)) = None"
    and "captureHoldInTransaction env2 cinp db1 = Inr (h', db2)" "cp_holdId cinp = wh_holdId h"
    and "find_txn_by_key db1 (hold_ledger_key (cp_idempotencyKey cinp)) = None" "external db1 (cp_counterAccountId cinp)"
  shows "wh_status h' = CAPTURED \<and> wallet_ok db2 \<and>
    (\<exists>w. find_wallet db (ch_walletId hinp) = Some w \<and>
       transferred (w_availableAccountId w) (js_trim (cp_counterAccountId cinp)) (ch_amountNgn hinp) db db2)"
proof -
  note c = created_found [OF assms(1-4)]
  obtain w where w: "find_wallet db (ch_walletId hinp) = Some w" "find_wallet db1 (wh_walletId h) = Some w"
    "transferred (w_availableAccountId w) (w_heldAccountId w) (ch_amountNgn hinp) db db1" using c by blast
  have ok1: "wallet_ok db1" by (rule createHold_keeps [OF assms(1,2)]) (use assms(4) in simp)
  have f: "find_hold db1 (cp_holdId cinp) = Some h" "wh_status h = HELD" using c assms(6) by simp_all
  note r = capture_effect [OF assms(5) ok1 f assms(7)]
  have t2: "transferred (w_heldAccountId w) (js_trim (cp_counterAccountId cinp)) (ch_amountNgn hinp) db1 db2"
    using r w(2) c by auto
  have ext: "js_trim (cp_counterAccountId cinp) \<notin> {w_availableAccountId w, w_heldAccountId w}"
    using external_wallet [OF assms(8)] find_wallet_Some [OF w(2)] by simp
  have "transferred (w_availableAccountId w) (js_trim (cp_counterAccountId cinp)) (ch_amountNgn hinp) db db2"
  proof -
    have "net db2 a = net db a - (if a = w_availableAccountId w then ch_amountNgn hinp else 0)
        + (if a = js_trim (cp_counterAccountId cinp) then ch_amountNgn hinp else 0)" for a
      using transferred_trans_net [OF w(3), of a] transferred_trans_net [OF t2, of a] by simp
    moreover have "0 < ch_amountNgn hinp" using w(3) by (simp add: transferred_def)
    ultimately show ?thesis using ext by (auto simp: transferred_def)
  qed
  moreover have "wallet_ok db2" by (rule capture_keeps [OF assms(5) ok1 assms(8)]) (use assms(7) in simp)
  ultimately show ?thesis using r w by blast
qed

lemma find_closed:
  assumes "find_wallet db i = Some w"
  shows "find (\<lambda>w. w_walletId w = i) (wallets (set_wallet_status i s db)) = Some (w\<lparr>w_status := s\<rparr>)"
proof -
  have "find (\<lambda>w. w_walletId w = i) (wallets (set_wallet_status i s db)) = map_option (\<lambda>w. w\<lparr>w_status := s\<rparr>) (find_wallet db i)"
    unfolding find_wallet_def set_wallet_status_def
    by (simp, rule find_update_where_same) auto
  then show ?thesis using assms by simp
qed

text \<open>Provisioning finds or creates the owner's wallet.\<close>

lemma owner_found:
  assumes "find_owner_wallet db ot oid = Some w" "wallet_ok db"
  shows "find_wallet db (w_walletId w) = Some w"
proof -
  have "w \<in> set (wallets db)"
    using assms(1) by (auto simp: find_owner_wallet_def dest: find_Some_set split: if_splits)
  then show ?thesis using wallet_okD(4) [OF assms(2)] by (simp add: find_wallet_def find_key_distinct)
qed

lemma ensure_wallet_found:
  assumes "ensureWallet env ot oid Commits db = Inr (v, db')" "wallet_ok db" "uuid_ok env"
  shows "\<exists>w. find_owner_wallet db' ot oid = Some w \<and> v = toWalletView db' w \<and> (ot = CUSTOMER \<or> ot = AGENT)"
proof (cases "find_owner_wallet db ot oid")
  case (Some w)
  then show ?thesis using assms(1) by (auto simp: ensureWallet_def split: if_splits)
next
  case None
  have ot: "ot = CUSTOMER \<or> ot = AGENT" using assms(1) by (auto simp: ensureWallet_def split: if_splits)
  obtain i where p: "provision_wallet env ot oid db = Inr (i, db')" and g: "getWallet db' i = Inr v"
    using assms(1) None
    by (auto simp: ensureWallet_def res_simps recover_wallet_def split: if_splits sum.splits)
  have ok': "wallet_ok db'" by (rule provision_keeps [OF p assms(2,3)])
  from p show ?thesis
  proof (cases rule: provision_cases)
    case (existing w)
    then show ?thesis using None by simp
  next
    case (created av he db1 db2 w)
    have "wallets db' = wallets db @ [w]"
      using create_account_cases(4) [OF created(2)] create_account_cases(4) [OF created(3)]
        create_wallet_cases(3) [OF created(4)] by simp
    then have f: "find_owner_wallet db' ot oid = Some w"
      using None ot create_wallet_cases(1) [OF created(4)]
      by (auto simp: find_owner_wallet_def find_append)
    have "find_wallet db' (w_walletId w) = Some w" by (rule owner_found [OF f ok'])
    then have "v = toWalletView db' w" using g created(5) by (simp add: getWallet_def)
    then show ?thesis using f ot by blast
  qed
qed

lemma ensure_wallet_again:
  assumes "ensureWallet env ot oid Commits db = Inr (v, db')" "wallet_ok db" "uuid_ok env"
  shows "ensureWallet env' ot oid c db' = Inr (v, db') \<and> wallet_ok db' \<and>
    (\<forall>w1\<in>set (wallets db'). \<forall>w2\<in>set (wallets db'). w_walletId w1 = w_walletId w2 \<longrightarrow> w1 = w2) \<and>
    (\<forall>seen. find_owner_wallet seen ot oid = None \<longrightarrow> (\<exists>r. provision_wallet env' ot oid seen = Inr r) \<longrightarrow>
      ensureWallet env' ot oid (LostRace db') seen = Inr (v, db'))"
proof (intro conjI)
  obtain w where w: "find_owner_wallet db' ot oid = Some w" "v = toWalletView db' w" "ot = CUSTOMER \<or> ot = AGENT"
    using ensure_wallet_found [OF assms] by blast
  show ok: "wallet_ok db'" by (rule ensureWallet_keeps [OF assms]) simp
  show "ensureWallet env' ot oid c db' = Inr (v, db')"
    using w by (auto simp: ensureWallet_def)
  show "\<forall>w1\<in>set (wallets db'). \<forall>w2\<in>set (wallets db'). w_walletId w1 = w_walletId w2 \<longrightarrow> w1 = w2"
    using same_wallet [OF wallet_okD(1) [OF ok]] by blast
  have "recover_wallet ot oid db' unique_violation = Inr (v, db')"
    using w owner_found [OF w(1) ok] by (simp add: recover_wallet_def is_unique_violation_def getWallet_def)
  then show "\<forall>seen. find_owner_wallet seen ot oid = None \<longrightarrow> (\<exists>r. provision_wallet env' ot oid seen = Inr r) \<longrightarrow>
      ensureWallet env' ot oid (LostRace db') seen = Inr (v, db')"
    using w(3) by (auto simp: ensureWallet_def)
qed

end
