(* ===== verification/Wallet_Properties.thy ===== *)
theory Wallet_Properties
  imports Wallet_Laws
begin

text \<open>
  The promises of the wallet service: solvency of every wallet in every reachable state, the
  exact effect and the refusals of its operations, the life cycle of a hold, closing, and
  provisioning.
\<close>

section \<open>A concrete wallet\<close>

definition ex_wallet :: wallet where
  "ex_wallet = \<lparr>w_walletId = ''w1'', w_ownerType = CUSTOMER, w_userId = Some ''u'', w_agentId = None,
     w_currency = ''NGN'', w_status = WS_ACTIVE, w_availableAccountId = ''V'', w_heldAccountId = ''H''\<rparr>"

definition ex_user :: "string \<Rightarrow> user" where
  "ex_user i = \<lparr>u_userId = i, u_phoneNumber = ''0'' @ i, u_email = None, u_displayName = None,
     u_kycStatus = KYC_NONE, u_loyaltyPointsBalance = 0, u_smsEnabled = True, u_pushEnabled = True,
     u_emailEnabled = False, u_spendLimitPeriod = None, u_spendLimitCapNgn = None,
     u_selfExclusionUntil = None, u_bankCode = None, u_bankAccountLast4 = None, u_bankAccountNameHash = None\<rparr>"

definition ex_funding :: ledger_transaction where
  "ex_funding = \<lparr>lt_ledgerTxnId = ''t0'', lt_idempotencyKey = ''f0'', lt_kind = FUNDING,
     lt_referenceType = ''F'', lt_referenceId = ''f'', lt_description = None, lt_currency = ''NGN'',
     lt_totalAmountNgn = 800, lt_entryCount = 2, lt_fingerprint = [], lt_metadata = None,
     lt_occurredAt = 0, lt_reversesLedgerTxnId = None\<rparr>"

text \<open>A customer with 800 naira available; \<open>X\<close> is an account outside the wallet.\<close>

definition ex_wallet_db :: db where
  "ex_wallet_db = empty_db\<lparr>
     accounts := [ex_account ''X'' REVENUE, ex_account ''V'' LIABILITY, ex_account ''H'' LIABILITY],
     txns := [ex_funding],
     entries := [\<lparr>le_ledgerTxnId = ''t0'', le_accountId = ''X'', le_lineNo = 1, le_side = DEBIT, le_amountNgn = 800, le_memo = None\<rparr>,
       \<lparr>le_ledgerTxnId = ''t0'', le_accountId = ''V'', le_lineNo = 2, le_side = CREDIT, le_amountNgn = 800, le_memo = None\<rparr>],
     wallets := [ex_wallet], users := [ex_user ''u'', ex_user ''u2'']\<rparr>"

definition ex_move :: "int \<Rightarrow> movement_input" where
  "ex_move n = \<lparr>mv_walletId = ''w1'', mv_amountNgn = n, mv_counterAccountId = ''X'', mv_idempotencyKey = ''m1'',
     mv_kind = PURCHASE, mv_referenceType = ''P'', mv_referenceId = ''p'', mv_description = None,
     mv_metadata = None, mv_occurredAt = None\<rparr>"

definition ex_hold :: create_hold_input where
  "ex_hold = \<lparr>ch_walletId = ''w1'', ch_amountNgn = 300, ch_idempotencyKey = ''h1'', ch_referenceType = ''P'',
     ch_referenceId = ''p'', ch_description = ''d'', ch_metadata = None, ch_occurredAt = None\<rparr>"

definition ex_release :: release_input where
  "ex_release = \<lparr>rl_holdId = ''u1'', rl_idempotencyKey = ''r1'', rl_description = None, rl_metadata = None\<rparr>"

definition ex_capture :: capture_input where
  "ex_capture = \<lparr>cp_holdId = ''u1'', cp_counterAccountId = ''X'', cp_idempotencyKey = ''c1'',
     cp_description = ''d'', cp_kind = None, cp_metadata = None, cp_occurredAt = None\<rparr>"

lemma ex_wallet_ok: "wallet_ok ex_wallet_db"
  by code_simp

lemma ex_external: "external ex_wallet_db ''X''"
  by code_simp

lemma ex_debits: "\<exists>v db'. debitInTransaction ex_env (ex_move 500) ex_wallet_db = Inr (v, db')"
proof -
  have "case debitInTransaction ex_env (ex_move 500) ex_wallet_db of Inr _ \<Rightarrow> True | Inl _ \<Rightarrow> False" by code_simp
  then show ?thesis by (auto split: sum.splits)
qed

lemma ex_holds: "\<exists>h db1. createHoldInTransaction ex_env ex_hold ex_wallet_db = Inr (h, db1) \<and> wh_holdId h = ''u1'' \<and>
    find_txn_by_key db1 ''r1'' = None \<and> find_txn_by_key db1 (hold_ledger_key ''c1'') = None \<and>
    external db1 ''X'' \<and>
    (\<exists>h1 db2. releaseHoldInTransaction ex_env ex_release db1 = Inr (h1, db2)) \<and>
    (\<exists>h1 db2. captureHoldInTransaction ex_env ex_capture db1 = Inr (h1, db2))"
proof -
  have "case createHoldInTransaction ex_env ex_hold ex_wallet_db of Inl _ \<Rightarrow> False
    | Inr (h, db1) \<Rightarrow> wh_holdId h = ''u1'' \<and> find_txn_by_key db1 ''r1'' = None \<and>
        find_txn_by_key db1 (hold_ledger_key ''c1'') = None \<and> external db1 ''X'' \<and>
        returned (releaseHoldInTransaction ex_env ex_release db1) \<and>
        returned (captureHoldInTransaction ex_env ex_capture db1)"
    by code_simp
  then show ?thesis using returnedD by (fastforce split: sum.splits)
qed

lemma audit_accounts_wallet:
  "find_wallet (write_audit env a m (db\<lparr>accounts := accs\<rparr>)) i = find_wallet db i"
  by (simp add: write_audit_def find_wallet_def)

section \<open>Properties\<close>

text \<open>C1. Solvency: in every database the services can reach, each wallet reports a non-negative
  available balance and a held balance that is exactly the sum of its open holds, and a
  closed wallet reports zero for both. No check of the database itself is used.\<close>

theorem wallet_solvency:
  assumes "wallet_step\<^sup>*\<^sup>* empty_db db" "getWallet db i = Inr v"
  shows "0 \<le> wv_availableNgn v \<and>
    wv_heldNgn v = sum_by wh_amountNgn (filter (\<lambda>h. wh_walletId h = i \<and> wh_status h = HELD) (holds db)) \<and>
    0 \<le> wv_heldNgn v \<and> wv_totalNgn v = wv_availableNgn v + wv_heldNgn v \<and>
    (wv_status v = WS_CLOSED \<longrightarrow> wv_availableNgn v = 0 \<and> wv_heldNgn v = 0)"
proof -
  have ok: "wallet_ok db" by (rule wallet_run.run_keeps [OF assms(1) wallet_ok_empty])
  obtain w where w: "find_wallet db i = Some w" "v = toWalletView db w" using assms(2) by (auto simp: getWallet_view)
  have "wallet_money db w" "w_walletId w = i" using wallet_okD(5) [OF ok] find_wallet_Some [OF w(1)] by auto
  then show ?thesis
    using held_sum_nonneg [OF wallet_okD(1) [OF ok], of i]
    by (auto simp: w(2) toWalletView_sel wallet_money_def held_sum_def open_holds_def)
qed

theorem wallet_solvency_witness:
  "\<exists>db v. wallet_step\<^sup>*\<^sup>* empty_db db \<and> getWallet db ''u2'' = Inr v \<and> 0 \<le> wv_availableNgn v"
proof -
  let ?db0 = "empty_db\<lparr>users := [ex_user ''u'']\<rparr>"
  have "case ensureWallet ex_env CUSTOMER ''u'' Commits ?db0 of Inr (v, db) \<Rightarrow> getWallet db ''u2'' \<noteq> Inl (NotFoundException ''Wallet not found'')
    | Inl _ \<Rightarrow> False" by code_simp
  then obtain wv db where e: "ensureWallet ex_env CUSTOMER ''u'' Commits ?db0 = Inr (wv, db)"
    and g: "getWallet db ''u2'' \<noteq> Inl (NotFoundException ''Wallet not found'')"
    by (auto split: sum.splits)
  obtain v where v: "getWallet db ''u2'' = Inr v" using g by (auto simp: getWallet_def split: option.splits)
  have "wallet_step empty_db ?db0" by (rule ws_other) simp_all
  then have "wallet_step\<^sup>*\<^sup>* empty_db db" using ws_ensure [OF e ex_uuid_ok] by (meson rtranclp.rtrancl_refl rtranclp.rtrancl_into_rtrancl)
  then show ?thesis using wallet_solvency [OF _ v] v by blast
qed

text \<open>C13. A debit under an unused key succeeds only on an active wallet that can afford it, moves
  exactly its amount from the available balance to the counter account and nothing else,
  leaves every wallet solvent, and debiting again under the same key moves nothing.\<close>

theorem debit_exact:
  assumes "debitInTransaction env inp db = Inr (v, db')" "wallet_ok db" "external db (mv_counterAccountId inp)"
    and "find_txn_by_key db (js_trim (mv_idempotencyKey inp)) = None"
  shows "(\<exists>w. find_wallet db (mv_walletId inp) = Some w \<and> w_status w = WS_ACTIVE \<and>
      mv_amountNgn inp \<le> bal_availableNgn (getBalancesInTx db w) \<and>
      transferred (w_availableAccountId w) (js_trim (mv_counterAccountId inp)) (mv_amountNgn inp) db db') \<and>
    wallet_ok db' \<and>
    (\<forall>env' v' db''. debitInTransaction (env' :: env) inp db' = Inr (v', db'') \<longrightarrow> db'' = db')"
  using assms(1)
proof (rule debit_cases)
  fix w assume w: "find_wallet db (mv_walletId inp) = Some w" "w_status w = WS_ACTIVE"
    and bal: "find_txn_by_key db (js_trim (mv_idempotencyKey inp)) = None \<Longrightarrow> mv_amountNgn inp \<le> net db (w_availableAccountId w)"
    and p: "postInTransaction env (movement_post inp (w_availableAccountId w) (mv_counterAccountId inp)) db = Inr (v, db')"
  have k: "find_txn_by_key db (js_trim (pi_idempotencyKey (movement_post inp (w_availableAccountId w) (mv_counterAccountId inp)))) = None"
    using assms(4) by (simp add: movement_lines)
  have tr: "transferred (w_availableAccountId w) (js_trim (mv_counterAccountId inp)) (mv_amountNgn inp) db db'"
    using wallet_transfer [OF p assms(2) k movement_lines(1)] wallet_account_trimmed [OF wallet_okD(1) [OF assms(2)]]
      wallet_account_member find_wallet_Some [OF w(1)] by simp
  have known: "find_txn_by_key db' (js_trim (mv_idempotencyKey inp)) \<noteq> None"
    using ledger.post_key [of "(env, movement_post inp (w_availableAccountId w) (mv_counterAccountId inp))" db v db']
      p wallet_okD(2) [OF assms(2)] by (simp add: movement_lines)
  have keep: "wallet_ok db'" by (rule debit_keeps [OF assms(1-3)])
  have "db'' = db'" if "debitInTransaction (env' :: env) inp db' = Inr (v', db'')" for env' v' db''
    using that
  proof (rule debit_cases)
    fix w' assume "postInTransaction env' (movement_post inp (w_availableAccountId w') (mv_counterAccountId inp)) db' = Inr (v', db'')"
    from post_facts(3) [OF this wallet_okD(2) [OF keep]] known show ?thesis by (simp add: movement_lines)
  qed
  then show ?thesis using w bal [OF assms(4)] tr keep by auto
qed

theorem debit_exact_witness:
  "\<exists>v db'. debitInTransaction ex_env (ex_move 500) ex_wallet_db = Inr (v, db') \<and> net db' ''V'' = net ex_wallet_db ''V'' - 500"
proof -
  obtain v db' where d: "debitInTransaction ex_env (ex_move 500) ex_wallet_db = Inr (v, db')" using ex_debits by blast
  have h: "external ex_wallet_db (mv_counterAccountId (ex_move 500))"
    "find_txn_by_key ex_wallet_db (js_trim (mv_idempotencyKey (ex_move 500))) = None" by code_simp+
  have w: "find_wallet ex_wallet_db (mv_walletId (ex_move 500)) = Some ex_wallet" by code_simp
  show ?thesis using debit_exact [OF d ex_wallet_ok h] w d
    by (auto simp: transferred_def ex_move_def ex_wallet_def)
qed

text \<open>Overspending is refused: for an active wallet and an unused key, a debit or a hold of more
  than the available balance is a conflict, whatever else the request says, so nothing is
  written.\<close>

theorem overspend_refused:
  assumes "find_wallet db i = Some w" "w_status w = WS_ACTIVE"
    and "net db (w_availableAccountId w) < n" "0 < n" "n \<le> MAX_SAFE_INTEGER"
  shows "(mv_walletId inp = i \<and> mv_amountNgn inp = n \<and>
      mv_counterAccountId inp \<notin> {w_availableAccountId w, w_heldAccountId w} \<and>
      find_txn_by_key db (js_trim (mv_idempotencyKey inp)) = None \<longrightarrow>
      debitInTransaction env inp db = Inl (ConflictException ''Insufficient wallet balance'')) \<and>
    (ch_walletId hinp = i \<and> ch_amountNgn hinp = n \<and> js_trim (ch_idempotencyKey hinp) \<noteq> [] \<and>
      length (js_trim (ch_idempotencyKey hinp)) \<le> 200 \<and>
      find_hold_by_key db (js_trim (ch_idempotencyKey hinp)) = None \<longrightarrow>
      createHoldInTransaction env hinp db = Inl (ConflictException ''Insufficient wallet balance''))"
proof -
  have v: "validateAmount n = Inr ()"
    using assms(4,5) by (simp add: validateAmount_def is_safe_integer_def MAX_SAFE_INTEGER_def)
  show ?thesis
    using assms v
    by (auto simp: debitInTransaction_def createHoldInTransaction_def lockWallet_def assertCanSpend_def
        assertExternalCounterAccount_def normalizeIdempotencyKey_def Let_def)
qed

theorem overspend_refused_witness:
  "debitInTransaction ex_env (ex_move 900) ex_wallet_db = Inl (ConflictException ''Insufficient wallet balance'')"
proof -
  have w: "find_wallet ex_wallet_db ''w1'' = Some ex_wallet" "w_status ex_wallet = WS_ACTIVE"
    "net ex_wallet_db (w_availableAccountId ex_wallet) < 900" "(0::int) < 900" "900 \<le> MAX_SAFE_INTEGER"
    "find_txn_by_key ex_wallet_db (js_trim (mv_idempotencyKey (ex_move 900))) = None" by code_simp+
  show ?thesis using overspend_refused [OF w(1-5), of "ex_move 900" ex_env ex_hold] w(6)
    by (simp add: ex_move_def ex_wallet_def)
qed

text \<open>Placing a hold and releasing it is neutral: after both, every account of the ledger is back
  where it was, and in between exactly the amount sat in the held account.\<close>

theorem hold_release_neutral:
  assumes "createHoldInTransaction env1 hinp db = Inr (h, db1)" "wallet_ok db"
    and "find_hold_by_key db (js_trim (ch_idempotencyKey hinp)) = None"
      "find_txn_by_key db (hold_ledger_key (ch_idempotencyKey hinp)) = None"
    and "releaseHoldInTransaction env2 rinp db1 = Inr (h', db2)" "rl_holdId rinp = wh_holdId h"
    and "find_txn_by_key db1 (js_trim (rl_idempotencyKey rinp)) = None"
  shows "wh_status h = HELD \<and> wh_status h' = RELEASED \<and> wallet_ok db2 \<and> (\<forall>a. net db2 a = net db a) \<and>
    (\<exists>w. find_wallet db (ch_walletId hinp) = Some w \<and>
       transferred (w_availableAccountId w) (w_heldAccountId w) (ch_amountNgn hinp) db db1)"
  using assms by (rule hold_then_release)

theorem hold_release_neutral_witness:
  "\<exists>h db1 h' db2. createHoldInTransaction ex_env ex_hold ex_wallet_db = Inr (h, db1) \<and>
     releaseHoldInTransaction ex_env ex_release db1 = Inr (h', db2) \<and> net db2 ''V'' = net ex_wallet_db ''V''"
proof -
  obtain h db1 h' db2 where r: "createHoldInTransaction ex_env ex_hold ex_wallet_db = Inr (h, db1)"
    "releaseHoldInTransaction ex_env ex_release db1 = Inr (h', db2)" "wh_holdId h = ''u1''" "find_txn_by_key db1 ''r1'' = None"
    using ex_holds by blast
  have k: "find_hold_by_key ex_wallet_db (js_trim (ch_idempotencyKey ex_hold)) = None"
    "find_txn_by_key ex_wallet_db (hold_ledger_key (ch_idempotencyKey ex_hold)) = None"
    "js_trim (rl_idempotencyKey ex_release) = ''r1''" by code_simp+
  have i: "rl_holdId ex_release = wh_holdId h" using r(3) by (simp add: ex_release_def)
  have k3: "find_txn_by_key db1 (js_trim (rl_idempotencyKey ex_release)) = None" using r(4) k(3) by simp
  show ?thesis using hold_release_neutral [OF r(1) ex_wallet_ok k(1,2) r(2) i k3] r by blast
qed

text \<open>C14. Placing a hold and capturing it is a debit: the two steps together move the amount from
  the available balance to the counter account and touch no other account.\<close>

theorem hold_capture_is_debit:
  assumes "createHoldInTransaction env1 hinp db = Inr (h, db1)" "wallet_ok db"
    and "find_hold_by_key db (js_trim (ch_idempotencyKey hinp)) = None"
      "find_txn_by_key db (hold_ledger_key (ch_idempotencyKey hinp)) = None"
    and "captureHoldInTransaction env2 cinp db1 = Inr (h', db2)" "cp_holdId cinp = wh_holdId h"
    and "find_txn_by_key db1 (hold_ledger_key (cp_idempotencyKey cinp)) = None" "external db1 (cp_counterAccountId cinp)"
  shows "wh_status h' = CAPTURED \<and> wallet_ok db2 \<and>
    (\<exists>w. find_wallet db (ch_walletId hinp) = Some w \<and>
       transferred (w_availableAccountId w) (js_trim (cp_counterAccountId cinp)) (ch_amountNgn hinp) db db2)"
  using assms by (rule hold_then_capture)

theorem hold_capture_is_debit_witness:
  "\<exists>h db1 h' db2. createHoldInTransaction ex_env ex_hold ex_wallet_db = Inr (h, db1) \<and>
     captureHoldInTransaction ex_env ex_capture db1 = Inr (h', db2) \<and> net db2 ''V'' = net ex_wallet_db ''V'' - 300"
proof -
  obtain h db1 h' db2 where r: "createHoldInTransaction ex_env ex_hold ex_wallet_db = Inr (h, db1)"
    "captureHoldInTransaction ex_env ex_capture db1 = Inr (h', db2)" "wh_holdId h = ''u1''"
    "find_txn_by_key db1 (hold_ledger_key ''c1'') = None" "external db1 ''X''"
    using ex_holds by blast
  have k: "find_hold_by_key ex_wallet_db (js_trim (ch_idempotencyKey ex_hold)) = None"
    "find_txn_by_key ex_wallet_db (hold_ledger_key (ch_idempotencyKey ex_hold)) = None"
    "find_wallet ex_wallet_db (ch_walletId ex_hold) = Some ex_wallet" by code_simp+
  have i: "cp_holdId ex_capture = wh_holdId h" "find_txn_by_key db1 (hold_ledger_key (cp_idempotencyKey ex_capture)) = None"
    "external db1 (cp_counterAccountId ex_capture)" using r(3-5) by (simp_all add: ex_capture_def)
  show ?thesis using hold_capture_is_debit [OF r(1) ex_wallet_ok k(1,2) r(2) i] r(1,2) k(3)
    by (auto simp: transferred_def ex_wallet_def ex_hold_def)
qed

text \<open>A hold is resolved once: whatever runs after it was placed, a hold never disappears, its
  wallet, amount, key and journal never change, and once it is released or captured its row
  never changes again.\<close>

theorem hold_resolved_once:
  assumes "wallet_step\<^sup>*\<^sup>* db db'" "wallet_ok db" "find_hold db i = Some h"
  shows "\<exists>h'. find_hold db' i = Some h' \<and> wh_walletId h' = wh_walletId h \<and> wh_amountNgn h' = wh_amountNgn h \<and>
    wh_idempotencyKey h' = wh_idempotencyKey h \<and> wh_holdLedgerTxnId h' = wh_holdLedgerTxnId h \<and>
    (wh_status h \<noteq> HELD \<longrightarrow> h' = h)"
proof -
  have h: "h \<in> set (holds db)" "wh_holdId h = i" using find_hold_Some [OF assms(3)] by simp_all
  obtain h' where h': "h' \<in> set (holds db')" "hold_progress h h'"
    using wallet_run_progress [OF assms(1,2)] h(1) by (auto simp: holds_progress_def)
  have "distinct (map wh_holdId (holds db'))"
    using wallet_okD(1) [OF wallet_run.run_keeps [OF assms(1,2)]] by (simp add: wallet_shape_def)
  then have "find (\<lambda>x. wh_holdId x = wh_holdId h') (holds db') = Some h'" using h'(1) by (rule find_key_distinct)
  then show ?thesis using h' h(2) by (simp add: find_hold_def hold_progress_def)
qed

theorem hold_resolved_once_witness:
  "\<exists>db1 db2 h. find_hold db1 ''u1'' = Some h \<and> (\<exists>h'. find_hold db2 ''u1'' = Some h' \<and> wh_amountNgn h' = wh_amountNgn h)
     \<and> db1 \<noteq> db2"
proof -
  obtain h db1 h' db2 where r: "createHoldInTransaction ex_env ex_hold ex_wallet_db = Inr (h, db1)"
    "releaseHoldInTransaction ex_env ex_release db1 = Inr (h', db2)" "wh_holdId h = ''u1''" "find_txn_by_key db1 ''r1'' = None"
    using ex_holds by blast
  have k: "find_txn_by_key ex_wallet_db (hold_ledger_key (ch_idempotencyKey ex_hold)) = None"
    "js_trim (rl_idempotencyKey ex_release) = ''r1''" by code_simp+
  have ok1: "wallet_ok db1" by (rule createHold_keeps [OF r(1) ex_wallet_ok]) (use k(1) in simp)
  have s: "wallet_step db1 db2" by (rule ws_release [OF r(2)]) (use r(4) k(2) in simp)
  have k0: "find_hold_by_key ex_wallet_db (js_trim (ch_idempotencyKey ex_hold)) = None"
    "rl_holdId ex_release = ''u1''" by code_simp+
  have h0: "find_hold db1 ''u1'' = Some h" "wh_status h = HELD"
    using created_found [OF r(1) ex_wallet_ok k0(1) k(1)] r(3) by simp_all
  have "find_hold db2 ''u1'' = Some h'" "wh_status h' = RELEASED"
    using release_effect [OF r(2) ok1, of h] h0 k(2) k0(2) r(4) by simp_all
  then have "db1 \<noteq> db2" using h0 by auto
  then show ?thesis using hold_resolved_once [OF _ ok1 h0(1), of db2] s h0 by blast
qed

text \<open>C38. Closing: a wallet can be closed exactly when it is not closed yet and holds no money (its
  check for open holds never decides), and from then on it stays closed and empty whatever
  runs, and every credit, debit and hold on it is refused.\<close>

theorem close_is_final:
  assumes "wallet_ok db" "find_wallet db i = Some w" "js_trim reason \<noteq> []"
  shows "((\<exists>r. closeWallet env i admin reason db = Inr r) \<longleftrightarrow> w_status w \<noteq> WS_CLOSED \<and>
      net db (w_availableAccountId w) = 0 \<and> net db (w_heldAccountId w) = 0) \<and>
    (\<forall>v db1 db2 env2 inp hinp. closeWallet env i admin reason db = Inr (v, db1) \<longrightarrow> wallet_step\<^sup>*\<^sup>* db1 db2 \<longrightarrow>
      (\<exists>v2. getWallet db2 i = Inr v2 \<and> wv_status v2 = WS_CLOSED \<and> wv_totalNgn v2 = 0) \<and>
      (mv_walletId inp = i \<longrightarrow> (\<exists>e. creditInTransaction (env2 :: env) inp db2 = Inl e) \<and>
         (\<exists>e. debitInTransaction env2 inp db2 = Inl e)) \<and>
      (ch_walletId hinp = i \<longrightarrow> (\<exists>e. createHoldInTransaction env2 hinp db2 = Inl e)))"
proof (intro conjI allI impI)
  note ok = wallet_okD [OF assms(1)]
  have w: "w \<in> set (wallets db)" "w_walletId w = i" using find_wallet_Some [OF assms(2)] by simp_all
  have m: "net db (w_heldAccountId w) = held_sum db i" using ok(5) [OF w(1)] w(2) by (simp add: wallet_money_def)
  show iff: "(\<exists>r. closeWallet env i admin reason db = Inr r) \<longleftrightarrow> w_status w \<noteq> WS_CLOSED \<and>
      net db (w_availableAccountId w) = 0 \<and> net db (w_heldAccountId w) = 0"
  proof
    show "\<exists>r. closeWallet env i admin reason db = Inr r \<Longrightarrow> w_status w \<noteq> WS_CLOSED \<and>
      net db (w_availableAccountId w) = 0 \<and> net db (w_heldAccountId w) = 0"
      using assms(2) by (auto elim!: close_cases)
    assume a: "w_status w \<noteq> WS_CLOSED \<and> net db (w_availableAccountId w) = 0 \<and> net db (w_heldAccountId w) = 0"
    have none: "filter (\<lambda>h. wh_walletId h = i \<and> wh_status h = HELD) (holds db) = []"
      using held_sum_zero_iff [OF ok(1)] a m by (simp add: open_holds_def)
    show "\<exists>r. closeWallet env i admin reason db = Inr r"
      using a none assms(2,3) find_closed [OF assms(2)]
      by (auto simp: closeWallet_def Let_def lockWallet_def getWallet_def audit_accounts_wallet find_wallet_def [of "set_wallet_status _ _ _"])
  qed
  fix v db1 db2 and env2 :: env and inp hinp
  assume c: "closeWallet env i admin reason db = Inr (v, db1)" and r: "wallet_step\<^sup>*\<^sup>* db1 db2"
  have ok1: "wallet_ok db1" by (rule close_keeps [OF c assms(1)])
  have ok2: "wallet_ok db2" by (rule wallet_run.run_keeps [OF r ok1])
  have "find_wallet db1 i = Some (w\<lparr>w_status := WS_CLOSED\<rparr>)"
    using c
    by (rule close_cases) (use assms(2) find_closed [OF assms(2)] in \<open>simp add: write_audit_def find_wallet_def\<close>)
  then have w1: "w\<lparr>w_status := WS_CLOSED\<rparr> \<in> set (wallets db1)" using find_wallet_Some by blast
  have w2: "w\<lparr>w_status := WS_CLOSED\<rparr> \<in> set (wallets db2)" by (rule wallet_run_closed [OF r ok1 w1]) simp
  have f2: "find_wallet db2 i = Some (w\<lparr>w_status := WS_CLOSED\<rparr>)"
    using find_key_distinct [OF wallet_okD(4) [OF ok2] w2] w(2) by (simp add: find_wallet_def)
  have "wallet_money db2 (w\<lparr>w_status := WS_CLOSED\<rparr>)" by (rule wallet_okD(5) [OF ok2 w2])
  then show "\<exists>v2. getWallet db2 i = Inr v2 \<and> wv_status v2 = WS_CLOSED \<and> wv_totalNgn v2 = 0"
    using f2 by (auto simp: getWallet_def toWalletView_sel wallet_money_def)
  note cl = closed_refused [OF f2, simplified]
  show "mv_walletId inp = i \<Longrightarrow> \<exists>e. creditInTransaction env2 inp db2 = Inl e"
    "mv_walletId inp = i \<Longrightarrow> \<exists>e. debitInTransaction env2 inp db2 = Inl e"
    "ch_walletId hinp = i \<Longrightarrow> \<exists>e. createHoldInTransaction env2 hinp db2 = Inl e"
    by (rule cl, assumption)+
qed

theorem close_is_final_witness:
  "\<not> (\<exists>r. closeWallet ex_env ''w1'' ''adm'' ''why'' ex_wallet_db = Inr r) \<and>
   (\<exists>r. closeWallet ex_env ''w1'' ''adm'' ''why'' (ex_wallet_db\<lparr>txns := [], entries := []\<rparr>) = Inr r)"
proof -
  have h: "find_wallet ex_wallet_db ''w1'' = Some ex_wallet" "js_trim ''why'' \<noteq> []"
    "net ex_wallet_db (w_availableAccountId ex_wallet) \<noteq> 0"
    "wallet_ok (ex_wallet_db\<lparr>txns := [], entries := []\<rparr>)"
    "find_wallet (ex_wallet_db\<lparr>txns := [], entries := []\<rparr>) ''w1'' = Some ex_wallet"
    "w_status ex_wallet \<noteq> WS_CLOSED"
    "net (ex_wallet_db\<lparr>txns := [], entries := []\<rparr>) (w_availableAccountId ex_wallet) = 0"
    "net (ex_wallet_db\<lparr>txns := [], entries := []\<rparr>) (w_heldAccountId ex_wallet) = 0"
    by code_simp+
  show ?thesis
    using close_is_final [OF ex_wallet_ok h(1,2), of ex_env "''adm''"]
      close_is_final [OF h(4,5,2), of ex_env "''adm''"] h by blast
qed

text \<open>Each owner has one wallet: once a wallet has been ensured for an owner, ensuring it again, or
  losing the creation race to the request that created it, answers with that wallet and
  writes nothing.\<close>

theorem ensure_wallet_idempotent:
  assumes "ensureWallet env ot oid Commits db = Inr (v, db')" "wallet_ok db" "uuid_ok env"
  shows "ensureWallet env' ot oid c db' = Inr (v, db') \<and> wallet_ok db' \<and>
    (\<forall>w1\<in>set (wallets db'). \<forall>w2\<in>set (wallets db'). w_walletId w1 = w_walletId w2 \<longrightarrow> w1 = w2) \<and>
    (\<forall>seen. find_owner_wallet seen ot oid = None \<longrightarrow> (\<exists>r. provision_wallet env' ot oid seen = Inr r) \<longrightarrow>
      ensureWallet env' ot oid (LostRace db') seen = Inr (v, db'))"
  using assms by (rule ensure_wallet_again)

theorem ensure_wallet_idempotent_witness:
  "\<exists>v db'. ensureWallet ex_env CUSTOMER ''u2'' Commits ex_wallet_db = Inr (v, db') \<and>
     ensureWallet ex_env CUSTOMER ''u2'' Commits db' = Inr (v, db')"
proof -
  have "case ensureWallet ex_env CUSTOMER ''u2'' Commits ex_wallet_db of Inr _ \<Rightarrow> True | Inl _ \<Rightarrow> False" by code_simp
  then obtain v db' where e: "ensureWallet ex_env CUSTOMER ''u2'' Commits ex_wallet_db = Inr (v, db')"
    by (auto split: sum.splits)
  show ?thesis using ensure_wallet_idempotent [OF e ex_wallet_ok ex_uuid_ok] e by blast
qed

end
