(* ===== verification/Node_Buffer.thy ===== *)
theory Node_Buffer
  imports JS_Runtime "HOL-Library.Word"
begin

text \<open>
  Node's \<open>Buffer\<close> as a list of 8-bit words, with the conversions the draw engine uses:
  \<open>Buffer.from(s, 'utf8')\<close>, \<open>toString('hex')\<close> and back, \<open>toString('base64')\<close> and back,
  \<open>readBigUInt64BE(0)\<close>. The decoders behave as Node's: hex stops at the first character that
  is not a digit, base64 skips characters that are not of its alphabet and stops at \<open>=\<close>.
\<close>

type_synonym bytes = "8 word list"

section \<open>UTF-8\<close>

definition utf8_char :: "char \<Rightarrow> bytes" where
  "utf8_char c = (let n = (of_char c :: nat) in
     if n < 128 then [word_of_nat n] else [word_of_nat (192 + n div 64), word_of_nat (128 + n mod 64)])"

definition utf8 :: "string \<Rightarrow> bytes" where
  "utf8 s = concat (map utf8_char s)"

lemma utf8_simps [simp]: "utf8 [] = []" "utf8 (c # s) = utf8_char c @ utf8 s"
  by (simp_all add: utf8_def)

lemma utf8_append: "utf8 (s @ t) = utf8 s @ utf8 t"
  by (simp add: utf8_def)

lemma word8_eq: "m < 256 \<Longrightarrow> n < 256 \<Longrightarrow> (word_of_nat m :: 8 word) = word_of_nat n \<longleftrightarrow> m = n"
  by (simp add: word_of_nat_eq_iff take_bit_nat_eq_self)

lemma char_code: "of_char (c :: char) < (256 :: nat)"
  using of_char_mod_256 [of c, where ?'a = nat] by (metis mod_less_divisor zero_less_numeral)

lemma of_char_inj: "(of_char c :: nat) = of_char d \<longleftrightarrow> c = d"
  by (rule of_char_eq_iff)

lemma utf8_char_prefix: "utf8_char c @ X = utf8_char d @ Y \<longleftrightarrow> c = d \<and> X = Y"
proof
  let ?m = "of_char c :: nat" and ?n = "of_char d :: nat"
  have b: "?m < 256" "?n < 256" by (rule char_code)+
  assume e: "utf8_char c @ X = utf8_char d @ Y"
  have "?m = ?n \<and> X = Y"
  proof (cases "?m < 128"; cases "?n < 128")
    assume "\<not> ?m < 128" "\<not> ?n < 128"
    then have "192 + ?m div 64 = 192 + ?n div 64" "128 + ?m mod 64 = 128 + ?n mod 64" "X = Y"
      using e b by (auto simp: utf8_char_def Let_def word8_eq simp del: of_nat_add)
    then show ?thesis by (metis add_left_cancel div_mult_mod_eq)
  qed (use e b in \<open>auto simp: utf8_char_def Let_def word8_eq simp del: of_nat_add\<close>)
  then show "c = d \<and> X = Y" by (simp add: of_char_inj)
qed simp

lemma utf8_char_not_Nil [simp]: "utf8_char c \<noteq> []"
  by (simp add: utf8_char_def Let_def)

lemma utf8_inj: "utf8 s = utf8 t \<Longrightarrow> s = t"
proof (induction s arbitrary: t)
  case Nil
  then show ?case by (cases t) auto
next
  case (Cons c s)
  then show ?case by (cases t) (auto simp: utf8_char_prefix)
qed

section \<open>Hexadecimal\<close>

definition hex_byte :: "8 word \<Rightarrow> string" where
  "hex_byte b = [hex_digit (unat b div 16), hex_digit (unat b mod 16)]"

definition hex :: "bytes \<Rightarrow> string" where
  "hex bs = concat (map hex_byte bs)"

definition hex_val :: "char \<Rightarrow> nat option" where
  "hex_val c = (let n = (of_char c :: nat) in
     if 48 \<le> n \<and> n \<le> 57 then Some (n - 48)
     else if 97 \<le> n \<and> n \<le> 102 then Some (n - 87)
     else if 65 \<le> n \<and> n \<le> 70 then Some (n - 55) else None)"

fun unhex :: "string \<Rightarrow> bytes" where
  "unhex (a # b # s) =
     (case (hex_val a, hex_val b) of
        (Some x, Some y) \<Rightarrow> word_of_nat (16 * x + y) # unhex s
      | _ \<Rightarrow> [])"
| "unhex _ = []"

lemma hex_simps [simp]: "hex [] = []" "hex (b # bs) = hex_byte b @ hex bs"
  by (simp_all add: hex_def)

lemma length_hex [simp]: "length (hex bs) = 2 * length bs"
  by (induction bs) (simp_all add: hex_byte_def)

lemma hex_val_digit: "n < 16 \<Longrightarrow> hex_val (hex_digit n) = Some n"
  by (auto simp: hex_val_def hex_digit_def Let_def)

lemma unat_byte: "unat (b :: 8 word) < 256"
  using unsigned_less [of b, where ?'a = nat] by simp

lemma unhex_hex [simp]: "unhex (hex bs) = bs"
proof (induction bs)
  case (Cons b bs)
  have "unat b div 16 < 16" using unat_byte [of b] by simp
  moreover have "unat b mod 16 < 16" by simp
  ultimately show ?case using Cons by (simp add: hex_byte_def hex_val_digit)
qed simp

lemma hex_inj: "hex xs = hex ys \<longleftrightarrow> xs = ys"
  by (metis unhex_hex)

section \<open>Base64\<close>

definition b64_char :: "nat \<Rightarrow> char" where
  "b64_char n = (if n < 26 then char_of (65 + n) else if n < 52 then char_of (71 + n)
     else if n < 62 then char_of (n - 4) else if n = 62 then CHR ''+'' else CHR ''/'')"

definition b64_val :: "char \<Rightarrow> nat option" where
  "b64_val c = (let n = (of_char c :: nat) in
     if 65 \<le> n \<and> n \<le> 90 then Some (n - 65)
     else if 97 \<le> n \<and> n \<le> 122 then Some (n - 71)
     else if 48 \<le> n \<and> n \<le> 57 then Some (n + 4)
     else if n = 43 \<or> n = 45 then Some 62
     else if n = 47 \<or> n = 95 then Some 63 else None)"

fun base64 :: "bytes \<Rightarrow> string" where
  "base64 [] = []"
| "base64 [a] = [b64_char (unat a div 4), b64_char (unat a mod 4 * 16), CHR ''='', CHR ''='']"
| "base64 [a, b] = [b64_char (unat a div 4), b64_char (unat a mod 4 * 16 + unat b div 16),
     b64_char (unat b mod 16 * 4), CHR ''='']"
| "base64 (a # b # c # bs) = [b64_char (unat a div 4), b64_char (unat a mod 4 * 16 + unat b div 16),
     b64_char (unat b mod 16 * 4 + unat c div 64), b64_char (unat c mod 64)] @ base64 bs"

fun b64_groups :: "nat list \<Rightarrow> bytes" where
  "b64_groups (p # q # r # s # vs) =
     word_of_nat (p * 4 + q div 16) # word_of_nat (q mod 16 * 16 + r div 4)
       # word_of_nat (r mod 4 * 64 + s) # b64_groups vs"
| "b64_groups [p, q, r] = [word_of_nat (p * 4 + q div 16), word_of_nat (q mod 16 * 16 + r div 4)]"
| "b64_groups [p, q] = [word_of_nat (p * 4 + q div 16)]"
| "b64_groups _ = []"

definition unbase64 :: "string \<Rightarrow> bytes" where
  "unbase64 s = b64_groups (List.map_filter b64_val (takeWhile (\<lambda>c. c \<noteq> CHR ''='') s))"

lemma b64_val_char: "n < 64 \<Longrightarrow> b64_val (b64_char n) = Some n"
  by (auto simp: b64_val_def b64_char_def Let_def)

lemma b64_char_code: "n < 64 \<Longrightarrow> b64_char n \<noteq> CHR ''='' \<and> b64_char n \<noteq> CHR '':''"
  by (auto simp: b64_char_def dest!: arg_cong [where f = "of_char :: char \<Rightarrow> nat"])

lemma mod_div_digits:
  fixes x y k :: nat
  assumes "y < k"
  shows "(x * k + y) div k = x" "(x * k + y) mod k = y"
  using assms by simp_all

lemma sextets:
  fixes a b c :: "8 word"
  shows "unat a div 4 < 64" "unat a mod 4 * 16 + unat b div 16 < 64" "unat b mod 16 * 4 + unat c div 64 < 64"
    "unat c mod 64 < 64" "unat a mod 4 * 16 < 64" "unat b mod 16 * 4 < 64"
proof -
  have "unat a div 4 < 64" "unat b div 16 < 16" "unat c div 64 < 4"
    using unat_byte [of a] unat_byte [of b] unat_byte [of c] by auto
  moreover have "unat a mod 4 < 4" "unat b mod 16 < 16" "unat c mod 64 < 64" by simp_all
  ultimately show "unat a div 4 < 64" "unat a mod 4 * 16 + unat b div 16 < 64"
    "unat b mod 16 * 4 + unat c div 64 < 64" "unat c mod 64 < 64"
    "unat a mod 4 * 16 < 64" "unat b mod 16 * 4 < 64"
    by linarith+
qed

lemma octets:
  fixes a b c :: "8 word"
  shows "unat a div 4 * 4 + (unat a mod 4 * 16 + unat b div 16) div 16 = unat a"
    "(unat a mod 4 * 16 + unat b div 16) mod 16 * 16 + (unat b mod 16 * 4 + unat c div 64) div 4 = unat b"
    "(unat b mod 16 * 4 + unat c div 64) mod 4 * 64 + unat c mod 64 = unat c"
proof -
  have b: "unat b div 16 < 16" "unat c div 64 < 4"
    using unat_byte [of b] unat_byte [of c] by auto
  show "unat a div 4 * 4 + (unat a mod 4 * 16 + unat b div 16) div 16 = unat a"
    unfolding mod_div_digits(1) [OF b(1)] by simp
  show "(unat a mod 4 * 16 + unat b div 16) mod 16 * 16 + (unat b mod 16 * 4 + unat c div 64) div 4 = unat b"
    unfolding mod_div_digits(2) [OF b(1)] mod_div_digits(1) [OF b(2)] by simp
  show "(unat b mod 16 * 4 + unat c div 64) mod 4 * 64 + unat c mod 64 = unat c"
    unfolding mod_div_digits(2) [OF b(2)] by simp
qed

lemma octets_one:
  fixes a b :: "8 word"
  shows "unat a div 4 * 4 + unat a mod 4 * 16 div 16 = unat a"
    "(unat a mod 4 * 16 + unat b div 16) mod 16 * 16 + unat b mod 16 * 4 div 4 = unat b"
  using octets(1) [of a 0] octets(2) [of a b 0] by simp_all

lemma unbase64_groups:
  "unbase64 [] = []"
  "p < 64 \<Longrightarrow> q < 64 \<Longrightarrow> unbase64 [b64_char p, b64_char q, CHR ''='', CHR ''=''] = b64_groups [p, q]"
  "p < 64 \<Longrightarrow> q < 64 \<Longrightarrow> r < 64 \<Longrightarrow>
     unbase64 [b64_char p, b64_char q, b64_char r, CHR ''=''] = b64_groups [p, q, r]"
  "p < 64 \<Longrightarrow> q < 64 \<Longrightarrow> r < 64 \<Longrightarrow> t < 64 \<Longrightarrow>
     unbase64 ([b64_char p, b64_char q, b64_char r, b64_char t] @ s) =
       b64_groups [p, q, r, t] @ unbase64 s"
  by (simp_all add: unbase64_def b64_val_char b64_char_code List.map_filter_def)

lemma unat_of_nat_self: "word_of_nat (unat (w :: 8 word)) = w"
  by simp

lemma unbase64_base64 [simp]: "unbase64 (base64 bs) = bs"
proof (induction bs rule: base64.induct)
  case (2 a)
  show ?case unfolding base64.simps unbase64_groups(2) [OF sextets(1,5)] by (simp only: b64_groups.simps octets_one append_Cons append_Nil unat_of_nat_self)
next
  case (3 a b)
  show ?case unfolding base64.simps unbase64_groups(3) [OF sextets(1,2,6)]
    by (simp only: b64_groups.simps octets octets_one append_Cons append_Nil unat_of_nat_self)
next
  case (4 a b c bs)
  then show ?case unfolding base64.simps unbase64_groups(4) [OF sextets(1-4)]
    by (simp only: b64_groups.simps octets append_Cons append_Nil unat_of_nat_self)
qed (simp add: unbase64_groups)

lemma base64_no_colon: "CHR '':'' \<notin> set (base64 bs)"
proof (induction bs rule: base64.induct)
  case (2 a)
  show ?case using b64_char_code [OF sextets(1)] b64_char_code [OF sextets(5)] by (auto simp: eq_commute)
next
  case (3 a b)
  show ?case using b64_char_code [OF sextets(1)] b64_char_code [OF sextets(2)] b64_char_code [OF sextets(6)]
    by (auto simp: eq_commute)
next
  case (4 a b c bs)
  then show ?case using b64_char_code [OF sextets(1)] b64_char_code [OF sextets(2)]
      b64_char_code [OF sextets(3)] b64_char_code [OF sextets(4)] by (auto simp: eq_commute)
qed simp

lemma base64_Nil: "base64 bs = [] \<longleftrightarrow> bs = []"
  by (cases bs rule: base64.cases) simp_all

section \<open>Base64url\<close>

text \<open>\<open>toString('base64url')\<close>: the URL alphabet, without padding. The decoder takes both alphabets.\<close>

definition url_char :: "char \<Rightarrow> char" where
  "url_char c = (if c = CHR ''+'' then CHR ''-'' else if c = CHR ''/'' then CHR ''_'' else c)"

definition base64url :: "bytes \<Rightarrow> string" where
  "base64url bs = map url_char (filter (\<lambda>c. c \<noteq> CHR ''='') (base64 bs))"

definition is_url_char :: "char \<Rightarrow> bool" where
  "is_url_char c = (let n = (of_char c :: nat) in (65 \<le> n \<and> n \<le> 90) \<or> (97 \<le> n \<and> n \<le> 122) \<or> (48 \<le> n \<and> n \<le> 57)
     \<or> n = 45 \<or> n = 95)"

lemma b64_val_url [simp]: "b64_val (url_char c) = b64_val c"
  by (simp add: url_char_def b64_val_def)

lemma base64_pad_last: "takeWhile (\<lambda>c. c \<noteq> CHR ''='') (base64 bs) = filter (\<lambda>c. c \<noteq> CHR ''='') (base64 bs)"
proof (induction bs rule: base64.induct)
  case (2 a)
  show ?case using b64_char_code [OF sextets(1)] b64_char_code [OF sextets(5)] by simp
next
  case (3 a b)
  show ?case using b64_char_code [OF sextets(1)] b64_char_code [OF sextets(2)] b64_char_code [OF sextets(6)] by simp
next
  case (4 a b c bs)
  then show ?case using b64_char_code [OF sextets(1)] b64_char_code [OF sextets(2)]
      b64_char_code [OF sextets(3)] b64_char_code [OF sextets(4)] by simp
qed simp

lemma map_filter_url: "List.map_filter b64_val (map url_char xs) = List.map_filter b64_val xs"
  by (induction xs) (auto simp: List.map_filter_def)

lemma unbase64_base64url [simp]: "unbase64 (base64url bs) = bs"
proof -
  have "url_char c \<noteq> CHR ''=''" if "c \<noteq> CHR ''=''" for c using that by (simp add: url_char_def)
  then have t: "takeWhile (\<lambda>c. c \<noteq> CHR ''='') (base64url bs) = base64url bs"
    by (auto simp: base64url_def takeWhile_eq_all_conv)
  have "unbase64 (base64url bs) = b64_groups (List.map_filter b64_val (filter (\<lambda>c. c \<noteq> CHR ''='') (base64 bs)))"
    unfolding unbase64_def t unfolding base64url_def map_filter_url by (rule refl)
  also have "\<dots> = bs" using unbase64_base64 [of bs] unfolding unbase64_def base64_pad_last .
  finally show ?thesis .
qed

lemma url_char_b64: "n < 64 \<Longrightarrow> is_url_char (url_char (b64_char n))"
  by (auto simp: is_url_char_def url_char_def b64_char_def Let_def dest: arg_cong [where f = "of_char :: char \<Rightarrow> nat"])

lemma base64_chars: "c \<in> set (base64 bs) \<Longrightarrow> c = CHR ''='' \<or> is_url_char (url_char c)"
proof (induction bs rule: base64.induct)
  case (2 a)
  then show ?case using url_char_b64 [OF sextets(1)] url_char_b64 [OF sextets(5)] by auto
next
  case (3 a b)
  then show ?case using url_char_b64 [OF sextets(1)] url_char_b64 [OF sextets(2)] url_char_b64 [OF sextets(6)] by auto
next
  case (4 a b c bs)
  then show ?case using url_char_b64 [OF sextets(1)] url_char_b64 [OF sextets(2)] url_char_b64 [OF sextets(3)]
      url_char_b64 [OF sextets(4)] by auto
qed simp

lemma base64url_chars: "list_all is_url_char (base64url bs)"
  using base64_chars by (auto simp: base64url_def list_all_iff)

lemma base64url_Nil: "base64url bs = [] \<longleftrightarrow> bs = []"
  by (metis base64.simps(1) base64url_def filter.simps(1) list.map_disc_iff unbase64_base64url)

section \<open>Splitting\<close>

fun js_split :: "char \<Rightarrow> string \<Rightarrow> string list" where
  "js_split c [] = [[]]"
| "js_split c (x # s) = (if x = c then [] # js_split c s
     else (case js_split c s of p # ps \<Rightarrow> (x # p) # ps | [] \<Rightarrow> [[x]]))"

lemma js_split_none: "c \<notin> set s \<Longrightarrow> js_split c s = [s]"
  by (induction s) auto

lemma js_split_append: "c \<notin> set s \<Longrightarrow> js_split c (s @ c # t) = s # js_split c t"
  by (induction s) auto

section \<open>Big-endian reads\<close>

text \<open>\<open>block.readBigUInt64BE(0)\<close>: the first eight bytes, the first most significant.\<close>

definition readBigUInt64BE :: "bytes \<Rightarrow> 64 word" where
  "readBigUInt64BE block = word_rcat (take 8 block)"

end
