(* ===== verification/Draw_Math.thy ===== *)
theory Draw_Math
  imports Node_Buffer
begin

text \<open>
  \<open>apps/engine/src/draw-math.utils.ts\<close>, and its copy in \<open>packages/verify/verify.cjs\<close>: the
  Merkle root over the pool and the winner's index. SHA-256 and HMAC-SHA-256 of Node's
  \<open>crypto\<close> are the arguments \<open>sha\<close> and \<open>hmac\<close>, from bytes to bytes.
\<close>

section \<open>Definitions\<close>

type_synonym digest = "bytes \<Rightarrow> bytes"

definition sha256Hex :: "digest \<Rightarrow> bytes \<Rightarrow> string" where
  "sha256Hex sha data = hex (sha data)"

definition leaf :: "digest \<Rightarrow> string \<Rightarrow> string \<Rightarrow> string" where
  "leaf sha drawCode i = sha256Hex sha (utf8 (i @ '':'' @ drawCode))"

text \<open>One round of the \<open>while\<close> loop: neighbours are joined, a last odd node with itself.\<close>

fun next_level :: "digest \<Rightarrow> string list \<Rightarrow> string list" where
  "next_level sha (left # right # level) = sha256Hex sha (utf8 (left @ right)) # next_level sha level"
| "next_level sha [left] = [sha256Hex sha (utf8 (left @ left))]"
| "next_level sha [] = []"

lemma length_next_level [simp]: "length (next_level sha level) = (length level + 1) div 2"
  by (induction sha level rule: next_level.induct) simp_all

function merkle_loop :: "digest \<Rightarrow> string list \<Rightarrow> string list" where
  "merkle_loop sha level = (if length level > 1 then merkle_loop sha (next_level sha level) else level)"
  by auto
termination by (relation "measure (\<lambda>(_, level). length level)") auto

declare merkle_loop.simps [simp del]

definition computeMerkleRoot :: "digest \<Rightarrow> string list \<Rightarrow> string \<Rightarrow> string" where
  "computeMerkleRoot sha ids drawCode =
     (if ids = [] then sha256Hex sha (utf8 (''EMPTY:'' @ drawCode))
      else merkle_loop sha (map (leaf sha drawCode) ids) ! 0)"

text \<open>
  The winner's index: counter mode over HMAC with rejection of the blocks at or above the
  largest multiple of \<open>n\<close>. The loop has no bound, so it is a partial function: \<open>None\<close> means
  that it does not return.
\<close>

definition rejection_limit :: "nat \<Rightarrow> nat" where
  "rejection_limit n = (2 ^ 64 div n) * n"

definition pick :: "nat \<Rightarrow> 64 word \<Rightarrow> nat option" where
  "pick n x = (if unat x < rejection_limit n then Some (unat x mod n) else None)"

definition winner_block :: "(bytes \<Rightarrow> bytes \<Rightarrow> bytes) \<Rightarrow> bytes \<Rightarrow> nat \<Rightarrow> 64 word" where
  "winner_block hmac key counter = readBigUInt64BE (hmac key (utf8 (nat_str counter)))"

partial_function (option) winner_loop ::
  "(bytes \<Rightarrow> bytes \<Rightarrow> bytes) \<Rightarrow> bytes \<Rightarrow> nat \<Rightarrow> nat \<Rightarrow> nat option" where
  "winner_loop hmac key n counter =
     (case pick n (winner_block hmac key counter) of
        Some i \<Rightarrow> Some i
      | None \<Rightarrow> winner_loop hmac key n (counter + 1))"

definition winner_key :: "digest \<Rightarrow> bytes \<Rightarrow> string \<Rightarrow> bytes" where
  "winner_key sha seed drawCode = sha (seed @ utf8 (drawCode @ '':WINNER_INDEX''))"

definition deterministicWinnerIndex ::
  "digest \<Rightarrow> (bytes \<Rightarrow> bytes \<Rightarrow> bytes) \<Rightarrow> bytes \<Rightarrow> string \<Rightarrow> nat \<Rightarrow> nat res option" where
  "deterministicWinnerIndex sha hmac seed drawCode n =
     (if n = 0 then Some (Inl (JsError ''Pool must be non-empty''))
      else if n = 1 then Some (Inr 0)
      else map_option Inr (winner_loop hmac (winner_key sha seed drawCode) n 0))"

section \<open>The loop returns the first accepted block\<close>

lemma winner_loop_Suc: "pick n (winner_block hmac key c) = None \<Longrightarrow>
    winner_loop hmac key n c = winner_loop hmac key n (Suc c)"
  by (subst winner_loop.simps) simp

lemma winner_loop_hit: "pick n (winner_block hmac key c) = Some i \<Longrightarrow> winner_loop hmac key n c = Some i"
  by (subst winner_loop.simps) simp

lemma winner_loop_skip:
  "(\<And>j. j < k \<Longrightarrow> pick n (winner_block hmac key (c + j)) = None) \<Longrightarrow>
    winner_loop hmac key n c = winner_loop hmac key n (c + k)"
proof (induction k)
  case (Suc k)
  then have "winner_loop hmac key n c = winner_loop hmac key n (c + k)" by simp
  also have "\<dots> = winner_loop hmac key n (Suc (c + k))" by (rule winner_loop_Suc) (use Suc.prems in simp)
  finally show ?case by simp
qed simp

lemma winner_loop_returns:
  assumes "winner_loop hmac key n c = Some i"
  shows "\<exists>k. pick n (winner_block hmac key (c + k)) = Some i \<and>
    (\<forall>j<k. pick n (winner_block hmac key (c + j)) = None)"
proof (rule winner_loop.raw_induct [rotated, OF assms,
    of "\<lambda>hmac key n c i. \<exists>k. pick n (winner_block hmac key (c + k)) = Some i \<and>
      (\<forall>j<k. pick n (winner_block hmac key (c + j)) = None)"])
  fix loop hmac key n c i
  assume IH: "\<And>hmac key n c i. loop hmac key n c = Some i \<Longrightarrow>
      \<exists>k. pick n (winner_block hmac key (c + k)) = Some i \<and>
        (\<forall>j<k. pick n (winner_block hmac key (c + j)) = None)"
    and e: "(case pick n (winner_block hmac key c) of Some i \<Rightarrow> Some i | None \<Rightarrow> loop hmac key n (c + 1)) = Some i"
  show "\<exists>k. pick n (winner_block hmac key (c + k)) = Some i \<and>
      (\<forall>j<k. pick n (winner_block hmac key (c + j)) = None)"
  proof (cases "pick n (winner_block hmac key c)")
    case None
    then obtain k where k: "pick n (winner_block hmac key (c + 1 + k)) = Some i"
        "\<forall>j<k. pick n (winner_block hmac key (c + 1 + j)) = None"
      using IH [of hmac key n "c + 1" i] e by auto
    have "pick n (winner_block hmac key (c + j)) = None" if "j < Suc k" for j
      using None k(2) that by (cases j) auto
    then show ?thesis using k(1) by (intro exI [of _ "Suc k"]) simp
  next
    case (Some x)
    then show ?thesis using e by (intro exI [of _ 0]) simp
  qed
qed

lemma winner_loop_iff:
  "winner_loop hmac key n 0 = Some i \<longleftrightarrow> (\<exists>k. pick n (winner_block hmac key k) = Some i \<and>
    (\<forall>j<k. pick n (winner_block hmac key j) = None))"
proof
  assume "winner_loop hmac key n 0 = Some i"
  from winner_loop_returns [OF this] show "\<exists>k. pick n (winner_block hmac key k) = Some i \<and>
    (\<forall>j<k. pick n (winner_block hmac key j) = None)" by simp
next
  assume "\<exists>k. pick n (winner_block hmac key k) = Some i \<and> (\<forall>j<k. pick n (winner_block hmac key j) = None)"
  then obtain k where k: "pick n (winner_block hmac key (0 + k)) = Some i"
    "\<And>j. j < k \<Longrightarrow> pick n (winner_block hmac key (0 + j)) = None" by auto
  show "winner_loop hmac key n 0 = Some i"
    using winner_loop_skip [OF k(2)] winner_loop_hit [OF k(1)] by simp
qed

lemma first_accepted:
  "pick n (winner_block hmac key k) \<noteq> None \<Longrightarrow>
    \<exists>k i. pick n (winner_block hmac key k) = Some i \<and> (\<forall>j<k. pick n (winner_block hmac key j) = None)"
  using ex_least_nat_le [of "\<lambda>k. pick n (winner_block hmac key k) \<noteq> None" k] by (metis option.exhaust)

section \<open>Rejection removes the bias\<close>

lemma rejection_limit_le: "rejection_limit n \<le> 2 ^ 64"
  by (simp add: rejection_limit_def)

lemma unat_word64: "unat (x :: 64 word) < 2 ^ 64"
  using unsigned_less [of x, where ?'a = nat] by simp

lemma card_words_below:
  "card {x :: 64 word. P (unat x)} = card {m. m < 2 ^ 64 \<and> P m}"
proof -
  have "unat ` {x :: 64 word. P (unat x)} = {m. m < 2 ^ 64 \<and> P m}"
  proof (intro set_eqI iffI)
    fix m assume "m \<in> {m. m < 2 ^ 64 \<and> P m}"
    then have "unat (word_of_nat m :: 64 word) = m" "P m" by (simp_all add: unsigned_of_nat take_bit_nat_eq_self)
    then show "m \<in> unat ` {x :: 64 word. P (unat x)}" by (metis imageI mem_Collect_eq)
  qed (use unat_word64 in auto)
  moreover have "inj_on unat {x :: 64 word. P (unat x)}" by (rule inj_onI) (simp add: word_unat_eq_iff)
  ultimately show ?thesis using card_image by fastforce
qed

lemma card_residue_class:
  assumes "i < n"
  shows "card {m. m < q * n \<and> m mod n = i} = (q :: nat)"
proof -
  have "{m. m < q * n \<and> m mod n = i} = (\<lambda>k. k * n + i) ` {..<q}"
  proof (intro set_eqI iffI)
    fix m assume "m \<in> {m. m < q * n \<and> m mod n = i}"
    then have "m = (m div n) * n + i" "m div n < q"
      by (auto simp: less_mult_imp_div_less)
    then show "m \<in> (\<lambda>k. k * n + i) ` {..<q}" by blast
  next
    fix m assume "m \<in> (\<lambda>k. k * n + i) ` {..<q}"
    then obtain k where k: "m = k * n + i" "k < q" by auto
    have "k * n + n \<le> q * n" using k(2) by (metis add.commute mult_Suc mult_le_mono1 Suc_leI)
    then show "m \<in> {m. m < q * n \<and> m mod n = i}" using k assms by simp
  qed
  moreover have "inj_on (\<lambda>k. k * n + i) {..<q}" using assms by (auto simp: inj_on_def)
  ultimately show ?thesis by (simp add: card_image)
qed

lemma card_pick_Some:
  assumes "i < n"
  shows "card {x. pick n x = Some i} = 2 ^ 64 div n"
proof -
  have "{x. pick n x = Some i} = {x. unat x < rejection_limit n \<and> unat x mod n = i}"
    by (auto simp: pick_def)
  also have "card \<dots> = card {m. m < 2 ^ 64 \<and> m < rejection_limit n \<and> m mod n = i}"
    by (rule card_words_below)
  also have "{m. m < 2 ^ 64 \<and> m < rejection_limit n \<and> m mod n = i} = {m. m < rejection_limit n \<and> m mod n = i}"
    by (auto dest: less_le_trans [OF _ rejection_limit_le [simplified]])
  finally show ?thesis using card_residue_class [OF assms] by (simp add: rejection_limit_def)
qed

lemma card_pick_None:
  assumes "0 < n"
  shows "card {x. pick n x = None} = 2 ^ 64 mod n"
proof -
  have "{x. pick n x = None} = {x. \<not> unat x < rejection_limit n}" by (auto simp: pick_def)
  also have "card \<dots> = card {m. m < 2 ^ 64 \<and> \<not> m < rejection_limit n}"
    by (rule card_words_below [of "\<lambda>m. \<not> m < rejection_limit n"])
  also have "{m. m < (2::nat) ^ 64 \<and> \<not> m < rejection_limit n} = {rejection_limit n..<2 ^ 64}" by auto
  finally show ?thesis by (simp add: rejection_limit_def minus_div_mult_eq_mod)
qed

lemma winner_index_power:
  assumes "n = 2 ^ e" "0 < e" "e \<le> 64"
  shows "deterministicWinnerIndex sha hmac seed drawCode n =
    Some (Inr (unat (winner_block hmac (winner_key sha seed drawCode) 0) mod n))"
proof -
  have "rejection_limit n = 2 ^ 64"
    unfolding rejection_limit_def using assms by (metis dvd_div_mult_self le_imp_power_dvd)
  then have "pick n (winner_block hmac (winner_key sha seed drawCode) 0) =
      Some (unat (winner_block hmac (winner_key sha seed drawCode) 0) mod n)"
    using unat_word64 by (simp add: pick_def)
  moreover have "1 < n" using assms one_less_power [of "2 :: nat" e] by simp
  ultimately show ?thesis by (simp add: deterministicWinnerIndex_def winner_loop_hit)
qed

section \<open>What the root commits to\<close>

text \<open>The byte strings that are hashed while a root is computed, level by level.\<close>

fun level_inputs :: "string list \<Rightarrow> bytes list" where
  "level_inputs (left # right # level) = utf8 (left @ right) # level_inputs level"
| "level_inputs [left] = [utf8 (left @ left)]"
| "level_inputs [] = []"

function loop_inputs :: "digest \<Rightarrow> string list \<Rightarrow> bytes list" where
  "loop_inputs sha level = (if length level > 1
     then level_inputs level @ loop_inputs sha (next_level sha level) else [])"
  by auto
termination by (relation "measure (\<lambda>(_, level). length level)") auto

declare loop_inputs.simps [simp del]

definition merkle_inputs :: "digest \<Rightarrow> string list \<Rightarrow> string \<Rightarrow> bytes list" where
  "merkle_inputs sha ids drawCode =
     map (\<lambda>i. utf8 (i @ '':'' @ drawCode)) ids @ loop_inputs sha (map (leaf sha drawCode) ids)"

definition sha_width :: "digest \<Rightarrow> bool" where
  "sha_width sha \<longleftrightarrow> (\<forall>x. length (sha x) = 32)"

definition hex_digests :: "string list \<Rightarrow> bool" where
  "hex_digests level \<longleftrightarrow> (\<forall>s\<in>set level. length s = 64)"

lemma sha256Hex_length: "sha_width sha \<Longrightarrow> length (sha256Hex sha x) = 64"
  by (simp add: sha_width_def sha256Hex_def)

lemma next_level_digests: "sha_width sha \<Longrightarrow> hex_digests (next_level sha level)"
  by (induction sha level rule: next_level.induct) (auto simp: hex_digests_def sha256Hex_length)

lemma sha256Hex_inj_on: "inj_on sha A \<Longrightarrow> x \<in> A \<Longrightarrow> y \<in> A \<Longrightarrow> sha256Hex sha x = sha256Hex sha y \<Longrightarrow> x = y"
  by (simp add: sha256Hex_def hex_inj inj_on_def)

lemma next_level_binds:
  "\<lbrakk>next_level sha a = next_level sha b; length a = length b; hex_digests a; hex_digests b;
    inj_on sha (set (level_inputs a) \<union> set (level_inputs b))\<rbrakk> \<Longrightarrow> a = b"
proof (induction sha a arbitrary: b rule: next_level.induct)
  case (1 sha l r a)
  then obtain l' r' b' where b: "b = l' # r' # b'" by (auto simp: length_Suc_conv Suc_length_conv)
  have "utf8 (l @ r) = utf8 (l' @ r')"
    by (rule sha256Hex_inj_on [OF 1(6)]) (use 1(2) in \<open>auto simp: b\<close>)
  then have "l @ r = l' @ r'" by (rule utf8_inj)
  then have "l = l' \<and> r = r'" using 1(4,5) by (simp add: b hex_digests_def)
  moreover have "a = b'"
    by (rule 1(1)) (use 1 in \<open>auto simp: b hex_digests_def intro: inj_on_subset\<close>)
  ultimately show ?case by (simp add: b)
next
  case (2 sha l)
  then obtain l' where b: "b = [l']" by (cases b) auto
  have "utf8 (l @ l) = utf8 (l' @ l')"
    by (rule sha256Hex_inj_on [OF 2(5)]) (use 2(1) in \<open>auto simp: b\<close>)
  then have "l @ l = l' @ l'" by (rule utf8_inj)
  then show ?case using 2(3,4) by (simp add: b hex_digests_def)
qed simp

lemma merkle_loop_binds:
  "\<lbrakk>merkle_loop sha a = merkle_loop sha b; length a = length b; hex_digests a; hex_digests b; sha_width sha;
    inj_on sha (set (loop_inputs sha a) \<union> set (loop_inputs sha b))\<rbrakk> \<Longrightarrow> a = b"
proof (induction sha a arbitrary: b rule: merkle_loop.induct)
  case (1 sha a)
  show ?case
  proof (cases "length a > 1")
    case True
    have l: "loop_inputs sha x = level_inputs x @ loop_inputs sha (next_level sha x)"
      "merkle_loop sha x = merkle_loop sha (next_level sha x)" if "length x > 1" for x
      using that by (subst loop_inputs.simps, simp, subst merkle_loop.simps, simp)
    have i: "inj_on sha (set (level_inputs a) \<union> set (level_inputs b))"
      "inj_on sha (set (loop_inputs sha (next_level sha a)) \<union> set (loop_inputs sha (next_level sha b)))"
      using True 1(3) 1(7) by (auto simp: l intro: inj_on_subset)
    have "next_level sha a = next_level sha b"
      by (rule 1(1)) (use True 1 i(2) in \<open>auto simp: l next_level_digests\<close>)
    then show ?thesis by (rule next_level_binds) (use 1 i(1) in auto)
  next
    case False
    then show ?thesis using 1(2,3) by (simp add: merkle_loop.simps [of sha a] merkle_loop.simps [of sha b])
  qed
qed

lemma merkle_loop_one: "level \<noteq> [] \<Longrightarrow> length (merkle_loop sha level) = 1"
proof (induction sha level rule: merkle_loop.induct)
  case (1 sha level)
  show ?case
  proof (cases "length level > 1")
    case True
    then have "length (next_level sha level) > 0" by simp
    then have "next_level sha level \<noteq> []" by (rule length_greater_0_conv [THEN iffD1])
    then show ?thesis using 1 True by (subst merkle_loop.simps) simp
  next
    case False
    then show ?thesis using 1(2) by (subst merkle_loop.simps) (cases level, auto)
  qed
qed

lemma leaves_digests: "sha_width sha \<Longrightarrow> hex_digests (map (leaf sha drawCode) ids)"
  by (auto simp: hex_digests_def leaf_def sha256Hex_length)

lemma root_binds:
  assumes "sha_width sha" "length ids = length ids'"
    and "inj_on sha (set (merkle_inputs sha ids drawCode) \<union> set (merkle_inputs sha ids' drawCode))"
    and "computeMerkleRoot sha ids drawCode = computeMerkleRoot sha ids' drawCode"
  shows "ids = ids'"
proof (cases "ids = []")
  case False
  let ?a = "map (leaf sha drawCode) ids" and ?b = "map (leaf sha drawCode) ids'"
  have ne: "ids' \<noteq> []" using False assms(2) by auto
  have one: "length (merkle_loop sha ?a) = 1" "length (merkle_loop sha ?b) = 1"
    using False ne by (simp_all add: merkle_loop_one)
  have "merkle_loop sha ?a = merkle_loop sha ?b"
    using assms(4) one False ne by (auto simp: computeMerkleRoot_def intro!: nth_equalityI)
  then have "?a = ?b"
    by (rule merkle_loop_binds)
       (use assms(1-3) in \<open>auto simp: merkle_inputs_def leaves_digests intro: inj_on_subset\<close>)
  then have eq: "\<And>k. k < length ids \<Longrightarrow> leaf sha drawCode (ids ! k) = leaf sha drawCode (ids' ! k)"
    using assms(2) by (metis nth_map)
  show ?thesis
  proof (rule nth_equalityI [OF assms(2)])
    fix k assume k: "k < length ids"
    then have "k < length ids'" using assms(2) by simp
    then have "ids ! k \<in> set ids" "ids' ! k \<in> set ids'" using k by simp_all
    then have "utf8 (ids ! k @ '':'' @ drawCode) = utf8 (ids' ! k @ '':'' @ drawCode)"
      by (intro sha256Hex_inj_on [OF assms(3)])
         (use eq [OF k] in \<open>auto simp: merkle_inputs_def leaf_def simp del: append_Cons\<close>)
    then show "ids ! k = ids' ! k" by (auto dest: utf8_inj)
  qed
qed (use assms(2) in simp)

lemma next_level_duplicate: "odd (length level) \<Longrightarrow> next_level sha (level @ [last level]) = next_level sha level"
  by (induction sha level rule: next_level.induct) auto

lemma root_duplicate:
  assumes "odd (length ids)" "1 < length ids"
  shows "computeMerkleRoot sha (ids @ [last ids]) drawCode = computeMerkleRoot sha ids drawCode"
proof -
  let ?a = "map (leaf sha drawCode) ids"
  have "ids \<noteq> []" using assms(2) by auto
  then have m: "map (leaf sha drawCode) (ids @ [last ids]) = ?a @ [last ?a]" by (simp add: last_map)
  have "merkle_loop sha (?a @ [last ?a]) = merkle_loop sha (next_level sha (?a @ [last ?a]))"
    using assms(2) \<open>ids \<noteq> []\<close> by (subst merkle_loop.simps) simp
  also have "next_level sha (?a @ [last ?a]) = next_level sha ?a"
    by (rule next_level_duplicate) (use assms(1) in simp)
  also have "merkle_loop sha (next_level sha ?a) = merkle_loop sha ?a"
    using assms(2) by (simp add: merkle_loop.simps [of sha ?a])
  finally show ?thesis using \<open>ids \<noteq> []\<close> unfolding computeMerkleRoot_def m by simp
qed

section \<open>Properties\<close>

text \<open>A cheap stand-in for SHA-256 and HMAC, 32 bytes wide, for the concrete examples.\<close>

definition ex_sha :: digest where
  "ex_sha x = replicate 31 0 @ [foldl (\<lambda>h b. h * h + h + b) (word_of_nat (length x)) x]"

definition ex_hmac :: "bytes \<Rightarrow> bytes \<Rightarrow> bytes" where
  "ex_hmac key data = drop 31 (ex_sha (data @ key)) @ drop 1 (ex_sha (key @ data))"

lemma ex_sha_width: "sha_width ex_sha"
  by (simp add: sha_width_def ex_sha_def)

text \<open>C20. The draw is unbiased: of the \<open>2 ^ 64\<close> possible blocks, every index of a pool of \<open>n\<close> is
  picked by exactly \<open>2 ^ 64 div n\<close> of them and only \<open>2 ^ 64 mod n\<close> (fewer than \<open>n\<close>) are
  rejected, so plain reduction modulo \<open>n\<close> never favours small indices; and the index returned
  is inside the pool.\<close>

theorem winner_index_unbiased:
  assumes "0 < n"
  shows "(\<forall>i<n. card {x. pick n x = Some i} = 2 ^ 64 div n) \<and>
    card {x. pick n x = None} = 2 ^ 64 mod n \<and>
    (\<forall>i. deterministicWinnerIndex sha hmac seed drawCode n = Some (Inr i) \<longrightarrow> i < n)"
proof -
  have "i < n" if "deterministicWinnerIndex sha hmac seed drawCode n = Some (Inr i)" for i
    using that assms by (auto simp: deterministicWinnerIndex_def winner_loop_iff pick_def split: if_splits)
  then show ?thesis using card_pick_Some card_pick_None [OF assms] by blast
qed

theorem winner_index_unbiased_witness:
  "card {x. pick 3 x = Some 2} = 6148914691236517205 \<and> card {x. pick 3 x = None} = 1"
  using winner_index_unbiased [of 3] by simp

text \<open>C37. When the loop ends: the index is computed exactly if the pool has one member or some
  counter gives a block below the rejection limit, the counter used is the first such one,
  and for a pool whose size is a power of two the first block is always taken. An empty pool
  is an error, not an index.\<close>

theorem winner_index_terminates:
  "(deterministicWinnerIndex sha hmac seed drawCode n \<noteq> None \<longleftrightarrow> n \<le> 1 \<or>
      (\<exists>k. unat (winner_block hmac (winner_key sha seed drawCode) k) < rejection_limit n)) \<and>
   (1 < n \<longrightarrow> (deterministicWinnerIndex sha hmac seed drawCode n = Some (Inr i) \<longleftrightarrow>
      (\<exists>k. pick n (winner_block hmac (winner_key sha seed drawCode) k) = Some i \<and>
        (\<forall>j<k. rejection_limit n \<le> unat (winner_block hmac (winner_key sha seed drawCode) j))))) \<and>
   (n = 2 ^ e \<and> 0 < e \<and> e \<le> 64 \<longrightarrow> deterministicWinnerIndex sha hmac seed drawCode n =
      Some (Inr (unat (winner_block hmac (winner_key sha seed drawCode) 0) mod n))) \<and>
   deterministicWinnerIndex sha hmac seed drawCode 0 = Some (Inl (JsError ''Pool must be non-empty''))"
proof -
  let ?b = "winner_block hmac (winner_key sha seed drawCode)"
  have none: "pick n x = None \<longleftrightarrow> rejection_limit n \<le> unat x" for x by (auto simp: pick_def)
  have loop: "winner_loop hmac (winner_key sha seed drawCode) n 0 \<noteq> None \<longleftrightarrow> (\<exists>k. unat (?b k) < rejection_limit n)"
    using winner_loop_iff [of hmac "winner_key sha seed drawCode" n] first_accepted [of n hmac "winner_key sha seed drawCode"] none
    by (metis linorder_not_le option.exhaust option.distinct(1))
  have pow: "deterministicWinnerIndex sha hmac seed drawCode n = Some (Inr (unat (?b 0) mod n))"
    if "n = 2 ^ e \<and> 0 < e \<and> e \<le> 64"
    using that by (intro winner_index_power [of n e]) auto
  have "1 < n \<longrightarrow> (deterministicWinnerIndex sha hmac seed drawCode n = Some (Inr i) \<longleftrightarrow>
      (\<exists>k. pick n (?b k) = Some i \<and> (\<forall>j<k. rejection_limit n \<le> unat (?b j))))"
    by (auto simp: deterministicWinnerIndex_def winner_loop_iff none)
  moreover have "deterministicWinnerIndex sha hmac seed drawCode n \<noteq> None \<longleftrightarrow> n \<le> 1 \<or> (\<exists>k. unat (?b k) < rejection_limit n)"
    using loop by (cases "n \<le> 1") (auto simp: deterministicWinnerIndex_def)
  ultimately show ?thesis using pow by (simp add: deterministicWinnerIndex_def)
qed

theorem winner_index_terminates_witness:
  "deterministicWinnerIndex ex_sha ex_hmac [1, 2, 3] ''RD'' (2 ^ 4) \<noteq> None"
  using winner_index_terminates [of ex_sha ex_hmac "[1, 2, 3]" "''RD''" "2 ^ 4" 0 4] by simp

text \<open>C35. What the published Merkle root commits to: with SHA-256 injective on the strings hashed
  on the way, two pools of one size with the same root are the same list, in the same order.
  The size has to be published too, as the verifier demands: repeating the last ticket of a
  pool of odd size leaves the root as it is.\<close>

theorem merkle_root_binds:
  assumes "sha_width sha"
  shows "(length ids = length ids' \<longrightarrow>
      inj_on sha (set (merkle_inputs sha ids drawCode) \<union> set (merkle_inputs sha ids' drawCode)) \<longrightarrow>
      computeMerkleRoot sha ids drawCode = computeMerkleRoot sha ids' drawCode \<longrightarrow> ids = ids') \<and>
    (odd (length ids) \<and> 1 < length ids \<longrightarrow>
      computeMerkleRoot sha (ids @ [last ids]) drawCode = computeMerkleRoot sha ids drawCode)"
  using root_binds [OF assms] root_duplicate by blast

theorem merkle_root_binds_witness:
  "computeMerkleRoot ex_sha [''A'', ''B''] ''D'' \<noteq> computeMerkleRoot ex_sha [''B'', ''A''] ''D'' \<and>
   computeMerkleRoot ex_sha [''A'', ''B'', ''C'', ''C''] ''D'' = computeMerkleRoot ex_sha [''A'', ''B'', ''C''] ''D''"
proof -
  have "distinct (map ex_sha (remdups (merkle_inputs ex_sha [''A'', ''B''] ''D'' @ merkle_inputs ex_sha [''B'', ''A''] ''D'')))"
    by code_simp
  then have "inj_on ex_sha (set (merkle_inputs ex_sha [''A'', ''B''] ''D'') \<union> set (merkle_inputs ex_sha [''B'', ''A''] ''D''))"
    by (simp add: distinct_map)
  then show ?thesis
    using merkle_root_binds [OF ex_sha_width, of "[''A'', ''B'']" "[''B'', ''A'']" "''D''"]
      merkle_root_binds [OF ex_sha_width, of "[''A'', ''B'', ''C'']" "[]" "''D''"] by auto
qed

end
