(* ===== verification/Draw_Engine.thy ===== *)
theory Draw_Engine
  imports Schema Draw_Math
begin

text \<open>
  The draw engine (\<open>apps/engine/src\<close>): seed commitment, sales lifecycle, execution of a draw;
  the public evidence (\<open>results.service.ts getVerification\<close>) and the independent verifier
  (\<open>packages/verify/verify.cjs\<close>). The engine writes with single statements, not inside one
  transaction, except for the result itself; an exception in \<open>execute\<close> is caught and leaves
  the writes made before it.
\<close>

section \<open>Keys\<close>

text \<open>
  The environment with Node's \<open>crypto\<close>: SHA-256 and HMAC-SHA-256, AES-256-GCM (key, nonce,
  text to ciphertext and tag; back, unless the tag is wrong), Ed25519 with the engine's key
  pair; \<open>g_queueUp\<close> says whether the job queue accepts jobs.
\<close>

record engine_env = env +
  g_sha :: digest
  g_hmac :: "bytes \<Rightarrow> bytes \<Rightarrow> bytes"
  g_sealKey :: bytes
  g_encrypt :: "bytes \<Rightarrow> bytes \<Rightarrow> bytes \<Rightarrow> bytes \<times> bytes"
  g_decrypt :: "bytes \<Rightarrow> bytes \<Rightarrow> bytes \<Rightarrow> bytes \<Rightarrow> bytes option"
  g_sign :: "bytes \<Rightarrow> bytes"
  g_queueUp :: bool

definition signPayload :: "engine_env \<Rightarrow> string \<Rightarrow> string" where
  "signPayload G payload = base64 (g_sign G (utf8 payload))"

text \<open>\<open>seal\<close>, with the nonce that \<open>randomBytes(12)\<close> returned.\<close>

definition seal :: "engine_env \<Rightarrow> bytes \<Rightarrow> bytes \<Rightarrow> string" where
  "seal G iv plaintext =
     (let (ct, tag) = g_encrypt G (g_sealKey G) iv plaintext in
      base64 iv @ '':'' @ base64 ct @ '':'' @ base64 tag)"

definition unseal :: "engine_env \<Rightarrow> string \<Rightarrow> bytes res" where
  "unseal G sealed =
     (case js_split (CHR '':'') sealed of
        ivB64 # ctB64 # tagB64 # _ \<Rightarrow>
          (if ivB64 = [] \<or> ctB64 = [] \<or> tagB64 = [] then Inl (JsError ''Malformed sealed seed'')
           else from_option (JsError ''Unsupported state or unable to authenticate data'')
             (g_decrypt G (g_sealKey G) (unbase64 ivB64) (unbase64 ctB64) (unbase64 tagB64)))
      | _ \<Rightarrow> Inl (JsError ''Malformed sealed seed''))"

definition engine_audit :: "engine_env \<Rightarrow> AuditSeverity \<Rightarrow> string \<Rightarrow> string \<Rightarrow> (string \<times> json) list \<Rightarrow> db \<Rightarrow> db" where
  "engine_audit G severity action drawId metadata db =
     db\<lparr>auditLog := auditLog db @
       [\<lparr>al_severity = severity, al_actorType = ACTOR_ENGINE, al_actorId = None, al_action = action,
         al_resourceType = ''Draw'', al_resourceId = drawId, al_metadata = JObj metadata,
         al_signature = Some (signPayload G (json_stringify
           (JObj ([(''action'', JStr action), (''drawId'', JStr drawId)] @ metadata))))\<rparr>]\<rparr>"

section \<open>Seed commitment\<close>

definition find_draw :: "db \<Rightarrow> string \<Rightarrow> draw option" where
  "find_draw db drawId = find (\<lambda>d. d_drawId d = drawId) (draws db)"

definition find_commit :: "db \<Rightarrow> string \<Rightarrow> draw_seed_commit option" where
  "find_commit db drawId = find (\<lambda>c. sc_drawId c = drawId) (seedCommits db)"

text \<open>\<open>commitSeed\<close> with the seed and the nonce drawn; an existing commitment wins (P2002).\<close>

definition commitSeed :: "engine_env \<Rightarrow> bytes \<Rightarrow> bytes \<Rightarrow> string \<Rightarrow> string \<Rightarrow> db \<Rightarrow> db" where
  "commitSeed G seed iv drawId drawCode db =
     (let seedHash = sha256Hex (g_sha G) seed in
      if find_commit db drawId \<noteq> None then db
      else engine_audit G SEV_INFO ''DRAW_SEED_COMMITTED'' drawId
        [(''drawCode'', JStr drawCode), (''seedHash'', JStr seedHash)]
        (db\<lparr>seedCommits := seedCommits db @
          [\<lparr>sc_drawId = drawId, sc_seedHash = seedHash, sc_sealedSeed = seal G iv seed,
            sc_committedAt = e_now G\<rparr>]\<rparr>))"

text \<open>One tick: \<open>rnd\<close> gives the random seed and nonce drawn for a draw in this tick.\<close>

definition seed_commit_tick :: "engine_env \<Rightarrow> (string \<Rightarrow> bytes \<times> bytes) \<Rightarrow> db \<Rightarrow> db" where
  "seed_commit_tick G rnd db =
     foldl (\<lambda>s d. commitSeed G (fst (rnd (d_drawId d))) (snd (rnd (d_drawId d))) (d_drawId d) (d_drawCode d) s) db
       (filter (\<lambda>d. d_status d \<in> {DS_SCHEDULED, DS_ACTIVE, DS_SALES_CLOSED} \<and> find_commit db (d_drawId d) = None)
         (draws db))"

section \<open>Sales lifecycle\<close>

definition set_draw_status :: "string \<Rightarrow> DrawStatus \<Rightarrow> DrawStatus \<Rightarrow> db \<Rightarrow> db" where
  "set_draw_status drawId from to db = db\<lparr>draws := update_where
     (\<lambda>d. d_drawId d = drawId \<and> d_status d = from) (\<lambda>d. d\<lparr>d_status := to\<rparr>) (draws db)\<rparr>"

definition transition :: "engine_env \<Rightarrow> string \<Rightarrow> string \<Rightarrow> DrawStatus \<Rightarrow> DrawStatus \<Rightarrow> db \<Rightarrow> db" where
  "transition G drawId drawCode from to db =
     (if \<exists>d\<in>set (draws db). d_drawId d = drawId \<and> d_status d = from then
        engine_audit G SEV_INFO ''DRAW_STATUS_TRANSITION'' drawId
          [(''drawCode'', JStr drawCode), (''from'', JStr (draw_status_str from)), (''to'', JStr (draw_status_str to))]
          (set_draw_status drawId from to db)
      else db)"

definition activateCommittedDraws :: "engine_env \<Rightarrow> db \<Rightarrow> db" where
  "activateCommittedDraws G db =
     foldl (\<lambda>s d. transition G (d_drawId d) (d_drawCode d) DS_SCHEDULED DS_ACTIVE s) db
       (filter (\<lambda>d. d_status d = DS_SCHEDULED \<and> e_now G < d_cutoffAt d \<and> find_commit db (d_drawId d) \<noteq> None)
         (draws db))"

definition closeSalesAtCutoff :: "engine_env \<Rightarrow> db \<Rightarrow> db" where
  "closeSalesAtCutoff G db =
     foldl (\<lambda>s d. transition G (d_drawId d) (d_drawCode d) (d_status d) DS_SALES_CLOSED s) db
       (filter (\<lambda>d. d_status d \<in> {DS_ACTIVE, DS_SCHEDULED} \<and> d_cutoffAt d \<le> e_now G) (draws db))"

definition lifecycle_tick :: "engine_env \<Rightarrow> db \<Rightarrow> db" where
  "lifecycle_tick G db = closeSalesAtCutoff G (activateCommittedDraws G db)"

section \<open>The eligible pool\<close>

datatype unit_kind = TICKET_UNIT | ENTRY_UNIT

record pool_unit =
  pu_id :: string
  pu_kind :: unit_kind
  pu_ticketId :: "string option"
  pu_entryId :: "string option"
  pu_buyerPhone :: string

definition ticket_unit :: "ticket \<Rightarrow> pool_unit" where
  "ticket_unit t = \<lparr>pu_id = t_ticketRef t, pu_kind = TICKET_UNIT, pu_ticketId = Some (t_ticketId t),
     pu_entryId = None, pu_buyerPhone = t_buyerPhone t\<rparr>"

definition entry_unit :: "jackpot_entry \<Rightarrow> pool_unit" where
  "entry_unit e = \<lparr>pu_id = ''ENTRY-'' @ je_entryId e, pu_kind = ENTRY_UNIT, pu_ticketId = None,
     pu_entryId = Some (je_entryId e), pu_buyerPhone = je_buyerPhone e\<rparr>"

text \<open>\<open>findMany\<close> with a status filter and \<open>orderBy\<close>, in the collation of the database.\<close>

definition draw_tickets :: "'a env_scheme \<Rightarrow> TicketStatus set \<Rightarrow> string \<Rightarrow> db \<Rightarrow> ticket list" where
  "draw_tickets env statuses drawId db = js_sort (\<lambda>a b. e_dbCollate env (t_ticketRef a) (t_ticketRef b))
     (filter (\<lambda>t. t_drawId t = drawId \<and> t_status t \<in> statuses) (tickets db))"

definition draw_entries :: "'a env_scheme \<Rightarrow> JackpotEntryStatus set \<Rightarrow> string \<Rightarrow> db \<Rightarrow> jackpot_entry list" where
  "draw_entries env statuses drawId db = js_sort (\<lambda>a b. e_dbCollate env (je_entryId a) (je_entryId b))
     (filter (\<lambda>e. je_drawId e = drawId \<and> je_status e \<in> statuses) (jackpotEntries db))"

definition lock_pool :: "'a env_scheme \<Rightarrow> draw \<Rightarrow> db \<Rightarrow> pool_unit list" where
  "lock_pool env draw db = map ticket_unit (draw_tickets env {TS_ACTIVE} (d_drawId draw) db) @
     (if d_drawType draw = SATURDAY_JACKPOT
      then map entry_unit (draw_entries env {JES_ACTIVE} (d_drawId draw) db) else [])"

section \<open>Execution\<close>

definition ENGINE_VERSION :: string where
  "ENGINE_VERSION = ''1.0.0''"

fun bump :: "string \<Rightarrow> (string \<times> nat) list \<Rightarrow> (string \<times> nat) list" where
  "bump k [] = [(k, 1)]"
| "bump k ((k', n) # m) = (if k' = k then (k', n + 1) # m else (k', n) # bump k m)"

definition state_breakdown :: "ticket list \<Rightarrow> (string \<times> nat) list" where
  "state_breakdown ts = foldl (\<lambda>m t. bump (t_stateOfPlayCode t) m) [] ts"

text \<open>The JSON text that is signed, with the fields in the order written in the source.\<close>

definition result_payload ::
  "string \<Rightarrow> string \<Rightarrow> string \<Rightarrow> int \<Rightarrow> nat \<Rightarrow> nat \<Rightarrow> string \<Rightarrow> string \<Rightarrow> string \<Rightarrow> string \<Rightarrow> string \<Rightarrow> string" where
  "result_payload drawId drawCode winnerTicketRef prizeValueNgn totalTicketsSold totalEligibleParticipants
     rngSeedHash rngSeed merkleRoot engineVersion executedAt =
     json_stringify (JObj [(''drawId'', JStr drawId), (''drawCode'', JStr drawCode),
       (''winnerTicketRef'', JStr winnerTicketRef), (''prizeValueNgn'', JNum prizeValueNgn),
       (''totalTicketsSold'', JNum (int totalTicketsSold)),
       (''totalEligibleParticipants'', JNum (int totalEligibleParticipants)),
       (''rngSeedHash'', JStr rngSeedHash), (''rngSeed'', JStr rngSeed), (''merkleRoot'', JStr merkleRoot),
       (''engineVersion'', JStr engineVersion), (''executedAt'', JStr executedAt)])"

definition draw_result_row ::
  "engine_env \<Rightarrow> draw \<Rightarrow> draw_seed_commit \<Rightarrow> ticket list \<Rightarrow> pool_unit list \<Rightarrow> string \<Rightarrow> bytes \<Rightarrow> pool_unit \<Rightarrow> draw_result" where
  "draw_result_row G draw commit ts pool merkleRoot seed winner =
     \<lparr>dr_drawId = d_drawId draw, dr_winnerTicketRef = pu_id winner, dr_prizeValueNgn = d_prizeValueNgn draw,
      dr_totalTicketsSold = length ts, dr_totalEligibleParticipants = length pool,
      dr_rngSeedHash = sha256Hex (g_sha G) seed, dr_rngSeed = hex seed,
      dr_rngSeedHashedAt = sc_committedAt commit, dr_merkleRoot = merkleRoot,
      dr_stateBreakdown = state_breakdown ts, dr_zeroInterventionConfirmed = True,
      dr_engineVersion = ENGINE_VERSION,
      dr_engineSignature = signPayload G (result_payload (d_drawId draw) (d_drawCode draw) (pu_id winner)
        (d_prizeValueNgn draw) (length ts) (length pool) (sha256Hex (g_sha G) seed) (hex seed) merkleRoot
        ENGINE_VERSION (to_iso_string (e_now G))),
      dr_executedAt = e_now G\<rparr>"

text \<open>Stage 5: the result, the winner's status and the draw's status, in one transaction.\<close>

definition complete_draw :: "engine_env \<Rightarrow> draw \<Rightarrow> draw_result \<Rightarrow> pool_unit \<Rightarrow> db \<Rightarrow> db res" where
  "complete_draw G draw r winner db =
     (if \<exists>x\<in>set (drawResults db). dr_drawId x = d_drawId draw then Inl unique_violation
      else
        let db1 = db\<lparr>drawResults := drawResults db @ [r]\<rparr> in
        bind_res (case pu_kind winner of
            TICKET_UNIT \<Rightarrow>
              (if \<exists>t\<in>set (tickets db1). Some (t_ticketId t) = pu_ticketId winner
               then Inr (db1\<lparr>tickets := update_where (\<lambda>t. Some (t_ticketId t) = pu_ticketId winner)
                 (\<lambda>t. t\<lparr>t_status := TS_WINNING, t_isWinner := True\<rparr>) (tickets db1)\<rparr>)
               else Inl (PrismaError ''P2025''))
          | ENTRY_UNIT \<Rightarrow>
              (if \<exists>e\<in>set (jackpotEntries db1). Some (je_entryId e) = pu_entryId winner
               then Inr (db1\<lparr>jackpotEntries := update_where (\<lambda>e. Some (je_entryId e) = pu_entryId winner)
                 (\<lambda>e. e\<lparr>je_status := JES_WINNING\<rparr>) (jackpotEntries db1)\<rparr>)
               else Inl (PrismaError ''P2025''))) (\<lambda>db2.
        Inr (db2\<lparr>draws := update_where (\<lambda>d. d_drawId d = d_drawId draw)
          (\<lambda>d. d\<lparr>d_status := DS_COMPLETED, d_executedAt := Some (e_now G)\<rparr>) (draws db2)\<rparr>)))"

record winner_job =
  wj_drawId :: string
  wj_drawCode :: string
  wj_drawScheduledAt :: string
  wj_winnerPhone :: string
  wj_winnerRef :: string
  wj_prizeDescription :: string
  wj_prizeValueNgn :: int

text \<open>\<open>queue.add\<close> with \<open>jobId: winner-<drawId>\<close>: a job whose id is known is not added again.\<close>

definition enqueueWinnerSms :: "engine_env \<Rightarrow> winner_job \<Rightarrow> winner_job list \<Rightarrow> winner_job list" where
  "enqueueWinnerSms G job jobs =
     (if g_queueUp G \<and> (\<forall>j\<in>set jobs. wj_drawId j \<noteq> wj_drawId job) then jobs @ [job] else jobs)"

definition cancelEmptyDraw :: "engine_env \<Rightarrow> draw \<Rightarrow> db \<Rightarrow> db" where
  "cancelEmptyDraw G draw db = engine_audit G SEV_WARNING ''DRAW_NO_PARTICIPANTS'' (d_drawId draw)
     [(''drawCode'', JStr (d_drawCode draw))]
     (db\<lparr>draws := update_where (\<lambda>d. d_drawId d = d_drawId draw) (\<lambda>d. d\<lparr>d_status := DS_CANCELLED\<rparr>) (draws db)\<rparr>)"

text \<open>The \<open>try\<close> block of \<open>execute\<close>, for a claimed draw. \<open>None\<close>: the selection never returns.\<close>

definition execute_claimed ::
  "engine_env \<Rightarrow> draw \<Rightarrow> db \<times> winner_job list \<Rightarrow> (db \<times> winner_job list) option" where
  "execute_claimed G draw s =
     (let (db, jobs) = s; drawId = d_drawId draw; drawCode = d_drawCode draw in
      case find_commit db drawId of
        None \<Rightarrow> Some (db, jobs)
      | Some commit \<Rightarrow>
          (let ts = draw_tickets G {TS_ACTIVE} drawId db; pool = lock_pool G draw db in
           if pool = [] then Some (cancelEmptyDraw G draw db, jobs)
           else
             let merkleRoot = computeMerkleRoot (g_sha G) (map pu_id pool) drawCode;
                 db1 = engine_audit G SEV_INFO ''DRAW_TICKETS_LOCKED'' drawId
                   [(''drawCode'', JStr drawCode), (''poolSize'', JNum (int (length pool))),
                    (''ticketCount'', JNum (int (length ts))), (''merkleRoot'', JStr merkleRoot)] db in
             case unseal G (sc_sealedSeed commit) of
               Inl _ \<Rightarrow> Some (db1, jobs)
             | Inr seed \<Rightarrow>
                 if sha256Hex (g_sha G) seed \<noteq> sc_seedHash commit then
                   Some (engine_audit G SEV_CRITICAL ''DRAW_SEED_MISMATCH'' drawId
                     [(''drawCode'', JStr drawCode), (''committedHash'', JStr (sc_seedHash commit)),
                      (''computedHash'', JStr (sha256Hex (g_sha G) seed))] db1, jobs)
                 else
                   case deterministicWinnerIndex (g_sha G) (g_hmac G) seed drawCode (length pool) of
                     None \<Rightarrow> None
                   | Some (Inl _) \<Rightarrow> Some (db1, jobs)
                   | Some (Inr winnerIndex) \<Rightarrow>
                       let winner = pool ! winnerIndex;
                           r = draw_result_row G draw commit ts pool merkleRoot seed winner in
                       case complete_draw G draw r winner db1 of
                         Inl _ \<Rightarrow> Some (db1, jobs)
                       | Inr db2 \<Rightarrow>
                           Some (engine_audit G SEV_INFO ''DRAW_COMPLETED'' drawId
                               [(''drawCode'', JStr drawCode), (''winnerTicketRef'', JStr (pu_id winner)),
                                (''poolSize'', JNum (int (length pool))),
                                (''engineSignature'', JStr (take 24 (dr_engineSignature r)))] db2,
                             enqueueWinnerSms G
                               \<lparr>wj_drawId = drawId, wj_drawCode = drawCode,
                                wj_drawScheduledAt = to_iso_string (d_scheduledAt draw),
                                wj_winnerPhone = pu_buyerPhone winner, wj_winnerRef = pu_id winner,
                                wj_prizeDescription = d_prizeDescription draw,
                                wj_prizeValueNgn = d_prizeValueNgn draw\<rparr> jobs)))"

definition execute :: "engine_env \<Rightarrow> string \<Rightarrow> db \<times> winner_job list \<Rightarrow> (db \<times> winner_job list) option" where
  "execute G drawId s =
     (if \<exists>d\<in>set (draws (fst s)). d_drawId d = drawId \<and> d_status d = DS_SALES_CLOSED then
        (let db = set_draw_status drawId DS_SALES_CLOSED DS_EXECUTING (fst s) in
         case find_draw db drawId of
           None \<Rightarrow> Some (db, snd s)
         | Some draw \<Rightarrow> execute_claimed G draw (db, snd s))
      else Some s)"

fun execute_all :: "engine_env \<Rightarrow> string list \<Rightarrow> db \<times> winner_job list \<Rightarrow> (db \<times> winner_job list) option" where
  "execute_all G [] s = Some s"
| "execute_all G (drawId # due) s =
     (case execute G drawId s of None \<Rightarrow> None | Some s' \<Rightarrow> execute_all G due s')"

definition execution_tick :: "engine_env \<Rightarrow> db \<times> winner_job list \<Rightarrow> (db \<times> winner_job list) option" where
  "execution_tick G s = execute_all G
     (map d_drawId (filter (\<lambda>d. d_status d = DS_SALES_CLOSED \<and> d_scheduledAt d \<le> e_now G) (draws (fst s)))) s"

section \<open>The evidence and the verifier\<close>

record evidence =
  vb_drawId :: string
  vb_drawCode :: string
  vb_winnerTicketRef :: string
  vb_prizeValueNgn :: int
  vb_totalTicketsSold :: nat
  vb_totalEligibleParticipants :: nat
  vb_rngSeedHash :: string
  vb_rngSeed :: string
  vb_merkleRoot :: string
  vb_engineVersion :: string
  vb_engineSignature :: string
  vb_executedAt :: string
  vb_seedCommittedAt :: string
  vb_pool :: "string list"

definition published_pool :: "'a env_scheme \<Rightarrow> draw \<Rightarrow> db \<Rightarrow> string list" where
  "published_pool env draw db = map t_ticketRef (draw_tickets env {TS_ACTIVE, TS_WINNING} (d_drawId draw) db) @
     (if d_drawType draw = SATURDAY_JACKPOT
      then map (\<lambda>e. ''ENTRY-'' @ je_entryId e) (draw_entries env {JES_ACTIVE, JES_WINNING} (d_drawId draw) db) else [])"

definition getVerification :: "'a env_scheme \<Rightarrow> string \<Rightarrow> db \<Rightarrow> evidence res" where
  "getVerification env drawCode db =
     (case find (\<lambda>d. d_drawCode d = drawCode) (draws db) of
        None \<Rightarrow> Inl (NotFoundException ''Verification data not available'')
      | Some draw \<Rightarrow>
          (case find (\<lambda>r. dr_drawId r = d_drawId draw) (drawResults db) of
             None \<Rightarrow> Inl (NotFoundException ''Verification data not available'')
           | Some r \<Rightarrow>
               if d_status draw \<noteq> DS_COMPLETED then
                 Inl (NotFoundException ''Verification data not available'')
               else Inr
                 \<lparr>vb_drawId = d_drawId draw, vb_drawCode = d_drawCode draw,
                  vb_winnerTicketRef = dr_winnerTicketRef r, vb_prizeValueNgn = dr_prizeValueNgn r,
                  vb_totalTicketsSold = dr_totalTicketsSold r,
                  vb_totalEligibleParticipants = dr_totalEligibleParticipants r,
                  vb_rngSeedHash = dr_rngSeedHash r, vb_rngSeed = dr_rngSeed r,
                  vb_merkleRoot = dr_merkleRoot r, vb_engineVersion = dr_engineVersion r,
                  vb_engineSignature = dr_engineSignature r,
                  vb_executedAt = to_iso_string (dr_executedAt r),
                  vb_seedCommittedAt = to_iso_string (dr_rngSeedHashedAt r),
                  vb_pool = published_pool env draw db\<rparr>))"

text \<open>
  The verifier's \<open>main\<close>: \<open>Some (Inr ok)\<close> is its verdict, \<open>Some (Inl _)\<close> an exception, \<open>None\<close> a
  selection that never returns. \<open>pub\<close> is Ed25519 verification under the public key given.
\<close>

definition verify_bundle ::
  "digest \<Rightarrow> (bytes \<Rightarrow> bytes \<Rightarrow> bytes) \<Rightarrow> (bytes \<Rightarrow> bytes \<Rightarrow> bool) option \<Rightarrow> evidence \<Rightarrow> bool res option" where
  "verify_bundle sha hmac pub b =
     (let seed = unhex (vb_rngSeed b);
          seedOk = (sha256Hex sha seed = vb_rngSeedHash b);
          merkleOk = (computeMerkleRoot sha (vb_pool b) (vb_drawCode b) = vb_merkleRoot b);
          sizeOk = (length (vb_pool b) = vb_totalEligibleParticipants b) in
      case deterministicWinnerIndex sha hmac seed (vb_drawCode b) (length (vb_pool b)) of
        None \<Rightarrow> None
      | Some (Inl _) \<Rightarrow> Some (Inl (JsError ''Empty pool''))
      | Some (Inr idx) \<Rightarrow>
          (let winnerOk = (vb_pool b ! idx = vb_winnerTicketRef b);
               sigOk = (case pub of None \<Rightarrow> True
                 | Some vrfy \<Rightarrow> vrfy
                     (utf8 (result_payload (vb_drawId b) (vb_drawCode b) (vb_winnerTicketRef b) (vb_prizeValueNgn b)
                       (vb_totalTicketsSold b) (vb_totalEligibleParticipants b) (vb_rngSeedHash b) (vb_rngSeed b)
                       (vb_merkleRoot b) (vb_engineVersion b) (vb_executedAt b)))
                     (unbase64 (vb_engineSignature b))) in
           Some (Inr (seedOk \<and> merkleOk \<and> sizeOk \<and> winnerOk \<and> sigOk))))"

end
