(* ===== verification/Draws_Service.thy ===== *)
theory Draws_Service
  imports Draw_Engine
begin

text \<open>
  \<open>apps/api/src/draws/draws.service.ts\<close>: creating, editing and cancelling a draw. Editing and
  cancelling read the draw first and write it in a second statement without a guard, so
  they take two databases: \<open>seen\<close>, which the read found, and \<open>cur\<close>, which the write meets; with
  \<open>seen = cur\<close> nobody came in between.
\<close>

section \<open>Dates and codes\<close>

text \<open>A date given as text, with the \<open>getTime()\<close> value it parses to (\<open>None\<close> for \<open>NaN\<close>).\<close>

type_synonym date_text = "string \<times> int option"

definition assertScheduleValid :: "int option \<Rightarrow> int option \<Rightarrow> (int \<times> int) res" where
  "assertScheduleValid scheduledAt cutoffAt =
     (case (scheduledAt, cutoffAt) of
        (Some s, Some c) \<Rightarrow>
          (if c \<ge> s then Inl (BadRequestException ''cutoffAt must be before scheduledAt'') else Inr (s, c))
      | _ \<Rightarrow> Inl (BadRequestException ''Invalid date value''))"

definition generateDrawCode :: "DrawType \<Rightarrow> int \<Rightarrow> string" where
  "generateDrawCode drawType scheduledAt =
     (let (y, m, d) = civil_of_day ((scheduledAt + 60 * 60 * 1000) div MS_PER_DAY) in
      ''RD-DRAW-'' @ int_str y @ pad_int 2 m @ pad_int 2 d @ ''-'' @
      (case drawType of SATURDAY_JACKPOT \<Rightarrow> ''JACKPOT'' | PRODUCT_PRIZE \<Rightarrow> ''PRODUCT'' | DAILY_STANDARD \<Rightarrow> ''DAILY''))"

primrec draw_type_str :: "DrawType \<Rightarrow> string" where
  "draw_type_str DAILY_STANDARD = ''DAILY_STANDARD''"
| "draw_type_str SATURDAY_JACKPOT = ''SATURDAY_JACKPOT''"
| "draw_type_str PRODUCT_PRIZE = ''PRODUCT_PRIZE''"

definition draw_audit :: "AuditSeverity \<Rightarrow> string \<Rightarrow> string \<Rightarrow> string \<Rightarrow> audit_log" where
  "draw_audit severity action adminId drawId =
     \<lparr>al_severity = severity, al_actorType = ACTOR_ADMIN, al_actorId = Some adminId, al_action = action,
      al_resourceType = ''Draw'', al_resourceId = drawId, al_metadata = JNull, al_signature = None\<rparr>"

section \<open>Create\<close>

record create_draw_dto =
  cd_drawType :: DrawType
  cd_prizeDescription :: string
  cd_prizeValueNgn :: int
  cd_prizeImageUrl :: "string option"
  cd_ticketPriceNgn :: int
  cd_ticketQuota :: "int option"
  cd_scheduledAt :: date_text
  cd_cutoffAt :: date_text

definition create_draw :: "'a env_scheme \<Rightarrow> create_draw_dto \<Rightarrow> string \<Rightarrow> db \<Rightarrow> (draw \<times> db) res" where
  "create_draw env dto adminId db =
     bind_res (assertScheduleValid (snd (cd_scheduledAt dto)) (snd (cd_cutoffAt dto))) (\<lambda>(scheduledAt, cutoffAt).
     let drawCode = generateDrawCode (cd_drawType dto) scheduledAt;
         draw = \<lparr>d_drawId = e_uuid env (seq db), d_drawCode = drawCode, d_drawType = cd_drawType dto,
           d_status = DS_SCHEDULED, d_prizeDescription = cd_prizeDescription dto,
           d_prizeValueNgn = cd_prizeValueNgn dto, d_prizeImageUrl = cd_prizeImageUrl dto,
           d_ticketPriceNgn = cd_ticketPriceNgn dto, d_ticketQuota = cd_ticketQuota dto,
           d_scheduledAt = scheduledAt, d_cutoffAt = cutoffAt, d_executedAt = None, d_configVersion = 1\<rparr> in
     if \<exists>d\<in>set (draws db). d_drawId d = d_drawId draw \<or> d_drawCode d = drawCode then
       Inl (ConflictException (''A draw already exists for code '' @ drawCode))
     else
       Inr (draw, write_audit env (draw_audit SEV_INFO ''DRAW_CREATED'' adminId (d_drawId draw))
         [(''drawCode'', JStr drawCode), (''drawType'', JStr (draw_type_str (cd_drawType dto))),
          (''prizeValueNgn'', JNum (cd_prizeValueNgn dto))]
         (db\<lparr>draws := draws db @ [draw], seq := seq db + 1\<rparr>)))"

section \<open>Update\<close>

text \<open>\<open>UpdateDrawDto\<close>: \<open>None\<close> is a field left out; the image may be set to \<open>null\<close>.\<close>

record update_draw_dto =
  ud_prizeDescription :: "string option"
  ud_prizeValueNgn :: "int option"
  ud_prizeImageUrl :: "string option option"
  ud_ticketPriceNgn :: "int option"
  ud_ticketQuota :: "int option"
  ud_scheduledAt :: "date_text option"
  ud_cutoffAt :: "date_text option"

definition given :: "string \<Rightarrow> ('a \<Rightarrow> json) \<Rightarrow> 'a option \<Rightarrow> (string \<times> json) list" where
  "given k f v = (case v of None \<Rightarrow> [] | Some x \<Rightarrow> [(k, f x)])"

definition dto_json :: "update_draw_dto \<Rightarrow> json" where
  "dto_json dto = JObj (given ''prizeDescription'' JStr (ud_prizeDescription dto)
     @ given ''prizeValueNgn'' JNum (ud_prizeValueNgn dto)
     @ given ''prizeImageUrl'' json_opt (ud_prizeImageUrl dto)
     @ given ''ticketPriceNgn'' JNum (ud_ticketPriceNgn dto)
     @ given ''ticketQuota'' JNum (ud_ticketQuota dto)
     @ given ''scheduledAt'' (JStr \<circ> fst) (ud_scheduledAt dto)
     @ given ''cutoffAt'' (JStr \<circ> fst) (ud_cutoffAt dto))"

definition apply_update :: "update_draw_dto \<Rightarrow> int \<Rightarrow> int \<Rightarrow> draw \<Rightarrow> draw" where
  "apply_update dto scheduledAt cutoffAt d = d\<lparr>
     d_prizeDescription := (case ud_prizeDescription dto of None \<Rightarrow> d_prizeDescription d | Some x \<Rightarrow> x),
     d_prizeValueNgn := (case ud_prizeValueNgn dto of None \<Rightarrow> d_prizeValueNgn d | Some x \<Rightarrow> x),
     d_prizeImageUrl := (case ud_prizeImageUrl dto of None \<Rightarrow> d_prizeImageUrl d | Some x \<Rightarrow> x),
     d_ticketPriceNgn := (case ud_ticketPriceNgn dto of None \<Rightarrow> d_ticketPriceNgn d | Some x \<Rightarrow> x),
     d_ticketQuota := (case ud_ticketQuota dto of None \<Rightarrow> d_ticketQuota d | Some x \<Rightarrow> Some x),
     d_scheduledAt := (if ud_scheduledAt dto = None then d_scheduledAt d else scheduledAt),
     d_cutoffAt := (if ud_cutoffAt dto = None then d_cutoffAt d else cutoffAt),
     d_configVersion := d_configVersion d + 1\<rparr>"

definition update_draw ::
  "'a env_scheme \<Rightarrow> string \<Rightarrow> update_draw_dto \<Rightarrow> string \<Rightarrow> db \<Rightarrow> db \<Rightarrow> (draw \<times> db) res" where
  "update_draw env drawId dto adminId seen cur =
     (case find_draw seen drawId of
        None \<Rightarrow> Inl (NotFoundException ''Draw not found'')
      | Some existing \<Rightarrow>
          if d_status existing \<noteq> DS_SCHEDULED then
            Inl (ConflictException (''Only SCHEDULED draws can be edited (current: ''
              @ draw_status_str (d_status existing) @ '')''))
          else
            bind_res (assertScheduleValid
              (case ud_scheduledAt dto of None \<Rightarrow> Some (d_scheduledAt existing) | Some t \<Rightarrow> snd t)
              (case ud_cutoffAt dto of None \<Rightarrow> Some (d_cutoffAt existing) | Some t \<Rightarrow> snd t))
              (\<lambda>(scheduledAt, cutoffAt).
            let cur' = cur\<lparr>draws := update_where (\<lambda>d. d_drawId d = drawId)
                  (apply_update dto scheduledAt cutoffAt) (draws cur)\<rparr> in
            bind_res (from_option (PrismaError ''P2025'') (find_draw cur' drawId)) (\<lambda>draw.
            Inr (draw, write_audit env (draw_audit SEV_INFO ''DRAW_UPDATED'' adminId drawId)
              [(''drawCode'', JStr (d_drawCode draw)), (''changes'', dto_json dto)] cur'))))"

section \<open>Cancel\<close>

definition cancel_draw :: "'a env_scheme \<Rightarrow> string \<Rightarrow> string \<Rightarrow> db \<Rightarrow> db \<Rightarrow> (draw \<times> db) res" where
  "cancel_draw env drawId adminId seen cur =
     (case find_draw seen drawId of
        None \<Rightarrow> Inl (NotFoundException ''Draw not found'')
      | Some existing \<Rightarrow>
          if d_status existing \<notin> {DS_SCHEDULED, DS_ACTIVE, DS_SALES_CLOSED} then
            Inl (ConflictException (''Draw cannot be cancelled from status ''
              @ draw_status_str (d_status existing)))
          else
            let cur' = cur\<lparr>draws := update_where (\<lambda>d. d_drawId d = drawId)
                  (\<lambda>d. d\<lparr>d_status := DS_CANCELLED\<rparr>) (draws cur)\<rparr> in
            bind_res (from_option (PrismaError ''P2025'') (find_draw cur' drawId)) (\<lambda>draw.
            Inr (draw, write_audit env (draw_audit SEV_WARNING ''DRAW_CANCELLED'' adminId drawId)
              [(''drawCode'', JStr (d_drawCode draw)),
               (''previousStatus'', JStr (draw_status_str (d_status existing)))] cur')))"

end
