(* ===== verification/Draw_Invariants.thy ===== *)
theory Draw_Invariants
  imports Draws_Service
begin

text \<open>
  The steps of the draw side of the system, the order of the draw statuses, and the two
  facts every step keeps: the evidence of every result stays complete (\<open>draw_ok\<close>), and
  draws, commitments and results only move forward (\<open>draws_forward\<close>).
\<close>

section \<open>The order of the statuses\<close>

fun draw_rank :: "DrawStatus \<Rightarrow> nat" where
  "draw_rank DS_SCHEDULED = 0"
| "draw_rank DS_ACTIVE = 1"
| "draw_rank DS_SALES_CLOSED = 2"
| "draw_rank DS_EXECUTING = 3"
| "draw_rank DS_COMPLETED = 4"
| "draw_rank DS_POSTPONED = 5"
| "draw_rank DS_CANCELLED = 6"

lemma draw_rank_inj: "draw_rank a = draw_rank b \<longleftrightarrow> a = b"
  by (cases a; cases b) simp_all

text \<open>Statuses are ordered as the enum declares them.\<close>

instantiation DrawStatus :: linorder
begin

definition less_eq_DrawStatus :: "DrawStatus \<Rightarrow> DrawStatus \<Rightarrow> bool" where
  "less_eq_DrawStatus a b \<longleftrightarrow> draw_rank a \<le> draw_rank b"

definition less_DrawStatus :: "DrawStatus \<Rightarrow> DrawStatus \<Rightarrow> bool" where
  "less_DrawStatus a b \<longleftrightarrow> draw_rank a < draw_rank b"

instance
  by intro_classes (auto simp: less_eq_DrawStatus_def less_DrawStatus_def draw_rank_inj [symmetric])

end

lemma status_le_simps [simp]:
  "s \<le> DS_CANCELLED" "DS_SCHEDULED \<le> s"
  by (cases s; simp add: less_eq_DrawStatus_def)+

section \<open>Pools\<close>

lemma insert_cmp_map: "map k (insert_cmp (\<lambda>a b. c (k a) (k b)) x xs) = insert_cmp c (k x) (map k xs)"
  by (induction xs) auto

lemma js_sort_map: "map k (js_sort (\<lambda>a b. c (k a) (k b)) xs) = js_sort c (map k xs)"
  by (induction xs) (auto simp: insert_cmp_map)

lemma draw_tickets_refs: "map t_ticketRef (draw_tickets env S i db) =
    js_sort (e_dbCollate env) (map t_ticketRef (filter (\<lambda>t. t_drawId t = i \<and> t_status t \<in> S) (tickets db)))"
  by (simp add: draw_tickets_def js_sort_map)

lemma draw_entries_ids: "map je_entryId (draw_entries env S i db) =
    js_sort (e_dbCollate env) (map je_entryId (filter (\<lambda>e. je_drawId e = i \<and> je_status e \<in> S) (jackpotEntries db)))"
  by (simp add: draw_entries_def js_sort_map)

lemma published_pool_eq: "published_pool env d db =
    js_sort (e_dbCollate env) (map t_ticketRef
      (filter (\<lambda>t. t_drawId t = d_drawId d \<and> t_status t \<in> {TS_ACTIVE, TS_WINNING}) (tickets db))) @
    (if d_drawType d = SATURDAY_JACKPOT then map (\<lambda>i. ''ENTRY-'' @ i) (js_sort (e_dbCollate env) (map je_entryId
      (filter (\<lambda>e. je_drawId e = d_drawId d \<and> je_status e \<in> {JES_ACTIVE, JES_WINNING}) (jackpotEntries db)))) else [])"
  unfolding published_pool_def draw_tickets_refs draw_entries_ids [symmetric] by simp

lemma lock_pool_ids: "map pu_id (lock_pool env d db) =
    js_sort (e_dbCollate env) (map t_ticketRef
      (filter (\<lambda>t. t_drawId t = d_drawId d \<and> t_status t = TS_ACTIVE) (tickets db))) @
    (if d_drawType d = SATURDAY_JACKPOT then map (\<lambda>i. ''ENTRY-'' @ i) (js_sort (e_dbCollate env) (map je_entryId
      (filter (\<lambda>e. je_drawId e = d_drawId d \<and> je_status e = JES_ACTIVE) (jackpotEntries db)))) else [])"
proof -
  have "map pu_id (map ticket_unit (draw_tickets env {TS_ACTIVE} (d_drawId d) db)) =
      map t_ticketRef (draw_tickets env {TS_ACTIVE} (d_drawId d) db)"
    by (simp add: ticket_unit_def)
  moreover have "map pu_id (map entry_unit (draw_entries env {JES_ACTIVE} (d_drawId d) db)) =
      map (\<lambda>i. ''ENTRY-'' @ i) (map je_entryId (draw_entries env {JES_ACTIVE} (d_drawId d) db))"
    by (simp add: entry_unit_def)
  ultimately show ?thesis
    unfolding lock_pool_def draw_tickets_refs draw_entries_ids by (simp add: draw_tickets_refs draw_entries_ids)
qed

section \<open>Frames\<close>

lemma engine_audit_sel [simp]:
  "draws (engine_audit G sv a i m db) = draws db" "tickets (engine_audit G sv a i m db) = tickets db"
  "jackpotEntries (engine_audit G sv a i m db) = jackpotEntries db"
  "drawResults (engine_audit G sv a i m db) = drawResults db"
  "seedCommits (engine_audit G sv a i m db) = seedCommits db"
  by (simp_all add: engine_audit_def)

lemma write_audit_sel [simp]:
  "draws (write_audit env a m db) = draws db" "tickets (write_audit env a m db) = tickets db"
  "jackpotEntries (write_audit env a m db) = jackpotEntries db"
  "drawResults (write_audit env a m db) = drawResults db"
  "seedCommits (write_audit env a m db) = seedCommits db"
  by (simp_all add: write_audit_def)

lemma find_cong_draws:
  "draws db' = draws db \<Longrightarrow> find_draw db' i = find_draw db i"
  "seedCommits db' = seedCommits db \<Longrightarrow> find_commit db' i = find_commit db i"
  by (simp_all add: find_draw_def find_commit_def)

section \<open>The invariant\<close>

text \<open>The same draw as far as its evidence goes.\<close>

definition same_draw :: "draw \<Rightarrow> draw \<Rightarrow> bool" where
  "same_draw d d' \<longleftrightarrow> d_drawId d' = d_drawId d \<and> d_drawCode d' = d_drawCode d \<and> d_drawType d' = d_drawType d"

definition evidence_ok :: "engine_env \<Rightarrow> draw \<Rightarrow> draw_result \<Rightarrow> db \<Rightarrow> bool" where
  "evidence_ok G d r db \<longleftrightarrow> dr_drawId r = d_drawId d \<and>
     dr_merkleRoot r = computeMerkleRoot (g_sha G) (published_pool G d db) (d_drawCode d) \<and>
     dr_totalEligibleParticipants r = length (published_pool G d db) \<and>
     (\<exists>seed idx. dr_rngSeed r = hex seed \<and> dr_rngSeedHash r = sha256Hex (g_sha G) seed \<and>
       deterministicWinnerIndex (g_sha G) (g_hmac G) seed (d_drawCode d) (length (published_pool G d db)) = Some (Inr idx) \<and>
       published_pool G d db ! idx = dr_winnerTicketRef r) \<and>
     dr_engineSignature r = signPayload G (result_payload (d_drawId d) (d_drawCode d) (dr_winnerTicketRef r)
       (dr_prizeValueNgn r) (dr_totalTicketsSold r) (dr_totalEligibleParticipants r) (dr_rngSeedHash r)
       (dr_rngSeed r) (dr_merkleRoot r) (dr_engineVersion r) (to_iso_string (dr_executedAt r))) \<and>
     (\<exists>c. find_commit db (d_drawId d) = Some c \<and> sc_seedHash c = dr_rngSeedHash r \<and>
       sc_committedAt c = dr_rngSeedHashedAt r)"

definition draw_ok :: "engine_env \<Rightarrow> db \<Rightarrow> bool" where
  "draw_ok G db \<longleftrightarrow>
     distinct (map d_drawId (draws db)) \<and> distinct (map d_drawCode (draws db)) \<and>
     distinct (map t_ticketId (tickets db)) \<and> distinct (map je_entryId (jackpotEntries db)) \<and>
     distinct (map dr_drawId (drawResults db)) \<and>
     (\<forall>t\<in>set (tickets db). t_status t = TS_WINNING \<longrightarrow> t_drawId t \<in> dr_drawId ` set (drawResults db)) \<and>
     (\<forall>e\<in>set (jackpotEntries db). je_status e = JES_WINNING \<longrightarrow> je_drawId e \<in> dr_drawId ` set (drawResults db)) \<and>
     (\<forall>r\<in>set (drawResults db). \<exists>d\<in>set (draws db). evidence_ok G d r db)"

lemma draw_ok_evidence: "draw_ok G db \<Longrightarrow> r \<in> set (drawResults db) \<Longrightarrow> \<exists>d\<in>set (draws db). evidence_ok G d r db"
  by (simp add: draw_ok_def)

lemma draw_ok_winning:
  "draw_ok G db \<Longrightarrow> t \<in> set (tickets db) \<Longrightarrow> t_status t = TS_WINNING \<Longrightarrow> t_drawId t \<in> dr_drawId ` set (drawResults db)"
  "draw_ok G db \<Longrightarrow> e \<in> set (jackpotEntries db) \<Longrightarrow> je_status e = JES_WINNING \<Longrightarrow>
     je_drawId e \<in> dr_drawId ` set (drawResults db)"
  by (simp_all add: draw_ok_def)

lemma evidence_ok_id: "evidence_ok G d r db \<Longrightarrow> d_drawId d = dr_drawId r"
  by (simp add: evidence_ok_def)

lemma evidence_ok_cong:
  assumes "evidence_ok G d r db" "same_draw d d'"
    and "published_pool G d db' = published_pool G d db"
    and "find_commit db' (d_drawId d) = find_commit db (d_drawId d)"
  shows "evidence_ok G d' r db'"
proof -
  have "published_pool G d' db' = published_pool G d db'"
    using assms(2) by (simp add: published_pool_eq same_draw_def)
  then show ?thesis using assms unfolding evidence_ok_def same_draw_def by simp
qed

lemma published_pool_cong:
  "tickets db' = tickets db \<Longrightarrow> jackpotEntries db' = jackpotEntries db \<Longrightarrow>
    published_pool env d db' = published_pool env d db"
  by (simp add: published_pool_eq)

text \<open>What a step does to the draws, commitments and results: they stay, and move forward.\<close>

definition draws_forward :: "db \<Rightarrow> db \<Rightarrow> bool" where
  "draws_forward db db' \<longleftrightarrow>
     (\<forall>d\<in>set (draws db). \<exists>d'\<in>set (draws db'). same_draw d d' \<and> d_status d \<le> d_status d') \<and>
     (\<forall>i c. find_commit db i = Some c \<longrightarrow> find_commit db' i = Some c) \<and>
     set (drawResults db) \<subseteq> set (drawResults db')"

lemma draws_forward_refl [simp]: "draws_forward db db"
  by (auto simp: draws_forward_def same_draw_def)

lemma draws_forward_trans: "draws_forward a b \<Longrightarrow> draws_forward b c \<Longrightarrow> draws_forward a c"
proof -
  assume a: "draws_forward a b" "draws_forward b c"
  have "\<exists>d''\<in>set (draws c). same_draw d d'' \<and> d_status d \<le> d_status d''" if d: "d \<in> set (draws a)" for d
  proof -
    obtain d' where d': "d' \<in> set (draws b)" "same_draw d d'" "d_status d \<le> d_status d'"
      using a(1) d unfolding draws_forward_def by blast
    then obtain d'' where "d'' \<in> set (draws c)" "same_draw d' d''" "d_status d' \<le> d_status d''"
      using a(2) unfolding draws_forward_def by blast
    then show ?thesis using d' order_trans [of "d_status d" "d_status d'"] by (auto simp: same_draw_def)
  qed
  then show ?thesis using a unfolding draws_forward_def by blast
qed

section \<open>Writes to the draws only\<close>

text \<open>The shape of most steps: rows of the draws are rewritten, nothing else that matters changes.\<close>

definition draws_rewritten :: "(draw \<Rightarrow> bool) \<Rightarrow> (draw \<Rightarrow> draw) \<Rightarrow> db \<Rightarrow> db \<Rightarrow> bool" where
  "draws_rewritten P f db db' \<longleftrightarrow> draws db' = update_where P f (draws db) \<and> tickets db' = tickets db \<and>
     jackpotEntries db' = jackpotEntries db \<and> drawResults db' = drawResults db \<and> seedCommits db' = seedCommits db"

lemma draws_rewritten_ok:
  assumes w: "draws_rewritten P f db db'" and f: "\<And>d. same_draw d (f d)" and ok: "draw_ok G db"
  shows "draw_ok G db'"
proof -
  note w' = w [unfolded draws_rewritten_def]
  have m: "map d_drawId (draws db') = map d_drawId (draws db)" "map d_drawCode (draws db') = map d_drawCode (draws db)"
    using w' f by (auto simp: same_draw_def intro!: map_update_where)
  have "\<exists>d\<in>set (draws db'). evidence_ok G d r db'" if r: "r \<in> set (drawResults db')" for r
  proof -
    obtain d where d: "d \<in> set (draws db)" "evidence_ok G d r db" using ok r w' by (auto simp: draw_ok_def)
    let ?d' = "if P d then f d else d"
    have "same_draw d ?d'" using f by (simp add: same_draw_def)
    moreover have "published_pool G d db' = published_pool G d db" by (rule published_pool_cong) (use w' in auto)
    moreover have "find_commit db' (d_drawId d) = find_commit db (d_drawId d)"
      by (rule find_cong_draws) (use w' in auto)
    ultimately have "evidence_ok G ?d' r db'" by (rule evidence_ok_cong [OF d(2)])
    moreover have "?d' \<in> set (draws db')" using d(1) w' by (auto simp: set_update_where)
    ultimately show ?thesis by blast
  qed
  then show ?thesis using ok w' m by (simp add: draw_ok_def)
qed

lemma draws_rewritten_forward:
  assumes "draws_rewritten P f db db'" "\<And>d. same_draw d (f d)"
    and "\<And>d. d \<in> set (draws db) \<Longrightarrow> P d \<Longrightarrow> d_status d \<le> d_status (f d)"
  shows "draws_forward db db'"
proof -
  note w = assms(1) [unfolded draws_rewritten_def]
  have "find_commit db' i = find_commit db i" for i by (rule find_cong_draws) (use w in auto)
  moreover have "\<exists>d'\<in>set (draws db'). same_draw d d' \<and> d_status d \<le> d_status d'" if d: "d \<in> set (draws db)" for d
  proof -
    have "(if P d then f d else d) \<in> set (draws db')" using w d by (auto simp: set_update_where)
    moreover have "same_draw d (if P d then f d else d) \<and> d_status d \<le> d_status (if P d then f d else d)"
      using assms(2,3) d by (simp add: same_draw_def)
    ultimately show ?thesis by blast
  qed
  ultimately show ?thesis using w by (auto simp: draws_forward_def)
qed

section \<open>The steps\<close>

text \<open>
  The engine of the environment with the clock at \<open>now\<close>. A step is one action of the engine
  or of the draws service, at any time; the reads of \<open>update_draw\<close> and \<open>cancel_draw\<close> may be stale.
  \<open>es_other\<close> is anything else the system does: it sells and refunds tickets of other draws,
  but leaves the pool of a draw with a result alone (a refund requires that the draw is not
  executing or completed) and never marks a ticket as winning.
\<close>

definition at_time :: "engine_env \<Rightarrow> int \<Rightarrow> engine_env" where
  "at_time G now = G\<lparr>e_now := now\<rparr>"

lemma at_time_sel [simp]:
  "g_sha (at_time G now) = g_sha G" "g_hmac (at_time G now) = g_hmac G" "g_sealKey (at_time G now) = g_sealKey G"
  "g_encrypt (at_time G now) = g_encrypt G" "g_decrypt (at_time G now) = g_decrypt G" "g_sign (at_time G now) = g_sign G"
  "e_dbCollate (at_time G now) = e_dbCollate G" "e_now (at_time G now) = now"
  "signPayload (at_time G now) = signPayload G" "seal (at_time G now) = seal G"
  by (simp_all add: at_time_def signPayload_def seal_def fun_eq_iff)

lemma at_time_unseal [simp]: "unseal (at_time G now) = unseal G"
  by (rule ext) (simp add: at_time_def unseal_def split: list.split)

definition leaves_draws :: "engine_env \<Rightarrow> db \<Rightarrow> db \<Rightarrow> bool" where
  "leaves_draws G db db' \<longleftrightarrow> draws db' = draws db \<and> seedCommits db' = seedCommits db \<and> drawResults db' = drawResults db \<and>
     distinct (map t_ticketId (tickets db')) \<and> distinct (map je_entryId (jackpotEntries db')) \<and>
     (\<forall>t\<in>set (tickets db'). t_status t = TS_WINNING \<longrightarrow> t_drawId t \<in> dr_drawId ` set (drawResults db)) \<and>
     (\<forall>e\<in>set (jackpotEntries db'). je_status e = JES_WINNING \<longrightarrow> je_drawId e \<in> dr_drawId ` set (drawResults db)) \<and>
     (\<forall>d\<in>set (draws db). d_drawId d \<in> dr_drawId ` set (drawResults db) \<longrightarrow> published_pool G d db' = published_pool G d db)"

inductive engine_step :: "engine_env \<Rightarrow> db \<times> winner_job list \<Rightarrow> db \<times> winner_job list \<Rightarrow> bool" for G where
  es_commit: "d \<in> set (draws db) \<Longrightarrow>
    engine_step G (db, jobs) (commitSeed (at_time G now) seed iv (d_drawId d) (d_drawCode d) db, jobs)"
| es_activate: "find_commit db i \<noteq> None \<Longrightarrow>
    engine_step G (db, jobs) (transition (at_time G now) i code DS_SCHEDULED DS_ACTIVE db, jobs)"
| es_close: "from = DS_ACTIVE \<or> from = DS_SCHEDULED \<Longrightarrow>
    engine_step G (db, jobs) (transition (at_time G now) i code from DS_SALES_CLOSED db, jobs)"
| es_execute: "execute (at_time G now) i s = Some s' \<Longrightarrow> engine_step G s s'"
| es_create: "create_draw (at_time G now) dto admin db = Inr (d, db') \<Longrightarrow> engine_step G (db, jobs) (db', jobs)"
| es_update: "update_draw (at_time G now) i udto admin seen db = Inr (d, db') \<Longrightarrow> engine_step G (db, jobs) (db', jobs)"
| es_cancel: "cancel_draw (at_time G now) i admin seen db = Inr (d, db') \<Longrightarrow> engine_step G (db, jobs) (db', jobs)"
| es_other: "leaves_draws G db db' \<Longrightarrow> engine_step G (db, jobs) (db', jobs)"

inductive_cases engine_stepE: "engine_step G s s'"

section \<open>Every step keeps both\<close>

definition step_fine :: "engine_env \<Rightarrow> db \<Rightarrow> db \<Rightarrow> bool" where
  "step_fine G db db' \<longleftrightarrow> (draw_ok G db \<longrightarrow> draw_ok G db' \<and> draws_forward db db')"

lemma step_fineI: "(draw_ok G db \<Longrightarrow> draw_ok G db') \<Longrightarrow> (draw_ok G db \<Longrightarrow> draws_forward db db') \<Longrightarrow> step_fine G db db'"
  by (simp add: step_fine_def)

lemma step_fine_refl [simp]: "step_fine G db db"
  by (simp add: step_fine_def)

lemma step_fine_trans: "step_fine G a b \<Longrightarrow> step_fine G b c \<Longrightarrow> step_fine G a c"
  unfolding step_fine_def using draws_forward_trans by blast

lemma draws_rewritten_fine:
  assumes "draws_rewritten P f db db'" "\<And>d. same_draw d (f d)"
    and "\<And>d. draw_ok G db \<Longrightarrow> d \<in> set (draws db) \<Longrightarrow> P d \<Longrightarrow> d_status d \<le> d_status (f d)"
  shows "step_fine G db db'"
  by (rule step_fineI) (use draws_rewritten_ok [OF assms(1,2)] draws_rewritten_forward [OF assms(1,2)] assms(3) in auto)

lemma same_content_fine:
  assumes "draws db' = draws db" "tickets db' = tickets db" "jackpotEntries db' = jackpotEntries db"
    "drawResults db' = drawResults db" "seedCommits db' = seedCommits db"
  shows "step_fine G db db'"
  by (rule draws_rewritten_fine [of "\<lambda>_. False" "\<lambda>d. d"])
     (use assms in \<open>auto simp: draws_rewritten_def same_draw_def update_where_def\<close>)

lemma transition_fine:
  assumes "from \<le> to"
  shows "step_fine G db (transition G' i code from to db)"
proof (cases "\<exists>d\<in>set (draws db). d_drawId d = i \<and> d_status d = from")
  case True
  then have "draws_rewritten (\<lambda>d. d_drawId d = i \<and> d_status d = from) (\<lambda>d. d\<lparr>d_status := to\<rparr>) db (transition G' i code from to db)"
    by (simp add: transition_def draws_rewritten_def set_draw_status_def)
  then show ?thesis by (rule draws_rewritten_fine) (use assms in \<open>auto simp: same_draw_def\<close>)
next
  case False
  then show ?thesis unfolding transition_def by (simp only: if_False step_fine_refl)
qed

lemma commitSeed_fine: "step_fine G db (commitSeed G' seed iv i code db)"
proof (cases "find_commit db i")
  case None
  let ?db' = "commitSeed G' seed iv i code db"
  have sel: "draws ?db' = draws db" "tickets ?db' = tickets db" "jackpotEntries ?db' = jackpotEntries db"
    "drawResults ?db' = drawResults db"
    using None by (simp_all add: commitSeed_def Let_def)
  have c: "find_commit ?db' k = Some x" if "find_commit db k = Some x" for k x
    using None that by (auto simp: commitSeed_def Let_def find_commit_def find_append)
  show ?thesis
  proof (rule step_fineI)
    assume ok: "draw_ok G db"
    have "\<exists>d\<in>set (draws ?db'). evidence_ok G d r ?db'" if r: "r \<in> set (drawResults ?db')" for r
    proof -
      obtain d where d: "d \<in> set (draws db)" "evidence_ok G d r db" using ok r sel by (auto simp: draw_ok_def)
      then obtain x where "find_commit db (d_drawId d) = Some x" by (auto simp: evidence_ok_def)
      then have "find_commit ?db' (d_drawId d) = find_commit db (d_drawId d)" using c by simp
      then have "evidence_ok G d r ?db'"
        by (rule evidence_ok_cong [OF d(2) _ published_pool_cong, rotated -1]) (simp_all add: same_draw_def sel)
      then show ?thesis using d(1) sel by auto
    qed
    then show "draw_ok G ?db'" using ok by (simp add: draw_ok_def sel)
  next
    show "draws_forward db ?db'" using c sel by (auto simp: draws_forward_def same_draw_def)
  qed
qed (simp add: commitSeed_def)

lemma create_fine:
  assumes "create_draw G' dto admin db = Inr (d, db')"
  shows "step_fine G db db'"
proof -
  have sel: "draws db' = draws db @ [d]" "tickets db' = tickets db" "jackpotEntries db' = jackpotEntries db"
    "drawResults db' = drawResults db" "seedCommits db' = seedCommits db"
    and new: "\<forall>x\<in>set (draws db). d_drawId x \<noteq> d_drawId d \<and> d_drawCode x \<noteq> d_drawCode d"
    using assms by (auto simp: create_draw_def Let_def res_simps split: prod.splits)
  have pool: "published_pool G x db' = published_pool G x db" for x by (rule published_pool_cong) (use sel in auto)
  have commit: "find_commit db' i = find_commit db i" for i by (rule find_cong_draws) (use sel in auto)
  show ?thesis
  proof (rule step_fineI)
    assume ok: "draw_ok G db"
    have "\<exists>d\<in>set (draws db'). evidence_ok G d r db'" if r: "r \<in> set (drawResults db')" for r
    proof -
      obtain x where x: "x \<in> set (draws db)" "evidence_ok G x r db"
        using draw_ok_evidence [OF ok, of r] r sel by auto
      have "evidence_ok G x r db'" by (rule evidence_ok_cong [OF x(2) _ pool commit]) (simp add: same_draw_def)
      then show ?thesis using x(1) sel by auto
    qed
    then show "draw_ok G db'" using ok new by (auto simp: draw_ok_def sel)
  next
    show "draws_forward db db'" using commit by (auto simp: draws_forward_def same_draw_def sel)
  qed
qed

lemma update_fine:
  assumes "update_draw G' i dto admin seen db = Inr (d, db')"
  shows "step_fine G db db'"
proof -
  from assms obtain sa ca where "draws_rewritten (\<lambda>d. d_drawId d = i) (apply_update dto sa ca) db db'"
    by (auto simp: update_draw_def Let_def res_simps draws_rewritten_def split: option.splits if_splits)
  then show ?thesis by (rule draws_rewritten_fine) (auto simp: same_draw_def apply_update_def)
qed

lemma cancel_fine:
  assumes "cancel_draw G' i admin seen db = Inr (d, db')"
  shows "step_fine G db db'"
proof -
  from assms have "draws_rewritten (\<lambda>d. d_drawId d = i) (\<lambda>d. d\<lparr>d_status := DS_CANCELLED\<rparr>) db db'"
    by (auto simp: cancel_draw_def Let_def res_simps draws_rewritten_def split: option.splits if_splits)
  then show ?thesis by (rule draws_rewritten_fine) (auto simp: same_draw_def)
qed

lemma other_fine:
  assumes "leaves_draws G db db'"
  shows "step_fine G db db'"
proof -
  note l = assms [unfolded leaves_draws_def]
  have commit: "find_commit db' i = find_commit db i" for i by (rule find_cong_draws) (use l in auto)
  show ?thesis
  proof (rule step_fineI)
    assume ok: "draw_ok G db"
    have "\<exists>d\<in>set (draws db'). evidence_ok G d r db'" if r: "r \<in> set (drawResults db')" for r
    proof -
      obtain d where d: "d \<in> set (draws db)" "evidence_ok G d r db" using draw_ok_evidence [OF ok, of r] r l by auto
      have "d_drawId d \<in> dr_drawId ` set (drawResults db)" 
        using evidence_ok_id [OF d(2)] r l by simp
      then have "published_pool G d db' = published_pool G d db" using l d(1) by blast
      then have "evidence_ok G d r db'" using evidence_ok_cong [OF d(2), of d db'] commit by (simp add: same_draw_def)
      then show ?thesis using d(1) l by auto
    qed
    then show "draw_ok G db'" using ok l by (simp add: draw_ok_def)
  next
    show "draws_forward db db'" using l commit by (auto simp: draws_forward_def same_draw_def)
  qed
qed

section \<open>Execution keeps both\<close>

lemma lock_pool_mem:
  assumes "u \<in> set (lock_pool env d db)"
  obtains (ticket) t where "t \<in> set (tickets db)" "t_drawId t = d_drawId d" "t_status t = TS_ACTIVE" "u = ticket_unit t"
  | (entry) e where "e \<in> set (jackpotEntries db)" "je_drawId e = d_drawId d" "je_status e = JES_ACTIVE" "u = entry_unit e"
  using assms by (auto simp: lock_pool_def draw_tickets_def draw_entries_def split: if_splits)

lemma lock_pool_time [simp]: "lock_pool (at_time G now) = lock_pool G"
  by (simp add: fun_eq_iff lock_pool_def draw_tickets_def draw_entries_def)

text \<open>Before its result exists, a draw's published pool is the pool the engine locks.\<close>

lemma published_is_locked:
  assumes "draw_ok G db" "d_drawId d \<notin> dr_drawId ` set (drawResults db)"
  shows "published_pool G d db = map pu_id (lock_pool G d db)"
proof -
  have "\<forall>t\<in>set (tickets db). t_status t = TS_WINNING \<longrightarrow> t_drawId t \<noteq> d_drawId d"
    "\<forall>e\<in>set (jackpotEntries db). je_status e = JES_WINNING \<longrightarrow> je_drawId e \<noteq> d_drawId d"
    using draw_ok_winning(1) [OF assms(1)] draw_ok_winning(2) [OF assms(1)] assms(2) by metis+
  then have f: "filter (\<lambda>t. t_drawId t = d_drawId d \<and> t_status t \<in> {TS_ACTIVE, TS_WINNING}) (tickets db) =
      filter (\<lambda>t. t_drawId t = d_drawId d \<and> t_status t = TS_ACTIVE) (tickets db)"
    "filter (\<lambda>e. je_drawId e = d_drawId d \<and> je_status e \<in> {JES_ACTIVE, JES_WINNING}) (jackpotEntries db) =
      filter (\<lambda>e. je_drawId e = d_drawId d \<and> je_status e = JES_ACTIVE) (jackpotEntries db)"
    by (auto intro!: filter_cong)
  show ?thesis unfolding published_pool_eq lock_pool_ids f ..
qed

text \<open>Marking one active ticket or entry as winning changes no published pool.\<close>

lemma winner_marked_pool:
  assumes "distinct (map t_ticketId (tickets db))" "t \<in> set (tickets db)" "t_status t = TS_ACTIVE"
    and "tickets db' = update_where (\<lambda>x. t_ticketId x = t_ticketId t)
      (\<lambda>x. x\<lparr>t_status := TS_WINNING, t_isWinner := True\<rparr>) (tickets db)" "jackpotEntries db' = jackpotEntries db"
  shows "published_pool env d db' = published_pool env d db"
proof -
  have "x = t" if "x \<in> set (tickets db)" "t_ticketId x = t_ticketId t" for x
    using distinct_key_eq [OF assms(1) that(1) assms(2) that(2)] .
  then have "map t_ticketRef (filter (\<lambda>x. t_drawId x = d_drawId d \<and> t_status x \<in> {TS_ACTIVE, TS_WINNING}) (tickets db')) =
      map t_ticketRef (filter (\<lambda>x. t_drawId x = d_drawId d \<and> t_status x \<in> {TS_ACTIVE, TS_WINNING}) (tickets db))"
    unfolding assms(4) using assms(3) by (intro filter_update_where_key) auto
  then show ?thesis by (simp add: published_pool_eq assms(5))
qed

lemma entry_marked_pool:
  assumes "distinct (map je_entryId (jackpotEntries db))" "e \<in> set (jackpotEntries db)" "je_status e = JES_ACTIVE"
    and "jackpotEntries db' = update_where (\<lambda>x. je_entryId x = je_entryId e)
      (\<lambda>x. x\<lparr>je_status := JES_WINNING\<rparr>) (jackpotEntries db)" "tickets db' = tickets db"
  shows "published_pool env d db' = published_pool env d db"
proof -
  have "x = e" if "x \<in> set (jackpotEntries db)" "je_entryId x = je_entryId e" for x
    using distinct_key_eq [OF assms(1) that(1) assms(2) that(2)] .
  then have "map je_entryId (filter (\<lambda>x. je_drawId x = d_drawId d \<and> je_status x \<in> {JES_ACTIVE, JES_WINNING}) (jackpotEntries db')) =
      map je_entryId (filter (\<lambda>x. je_drawId x = d_drawId d \<and> je_status x \<in> {JES_ACTIVE, JES_WINNING}) (jackpotEntries db))"
    unfolding assms(4) using assms(3) by (intro filter_update_where_key) auto
  then show ?thesis by (simp add: published_pool_eq assms(5))
qed

text \<open>The middle of the result transaction: the result row is in and the winner is marked.\<close>

definition result_added :: "engine_env \<Rightarrow> draw \<Rightarrow> draw_result \<Rightarrow> db \<Rightarrow> db \<Rightarrow> bool" where
  "result_added G d r db db' \<longleftrightarrow> draws db' = draws db \<and> seedCommits db' = seedCommits db \<and>
     drawResults db' = drawResults db @ [r] \<and> d_drawId d \<notin> dr_drawId ` set (drawResults db) \<and> dr_drawId r = d_drawId d \<and>
     distinct (map t_ticketId (tickets db')) \<and> distinct (map je_entryId (jackpotEntries db')) \<and>
     (\<forall>t\<in>set (tickets db'). t_status t = TS_WINNING \<longrightarrow> t \<in> set (tickets db) \<or> t_drawId t = d_drawId d) \<and>
     (\<forall>e\<in>set (jackpotEntries db'). je_status e = JES_WINNING \<longrightarrow> e \<in> set (jackpotEntries db) \<or> je_drawId e = d_drawId d) \<and>
     (\<forall>x. published_pool G x db' = published_pool G x db)"

lemma result_added_fine:
  assumes "result_added G d r db db'" "draw_ok G db" "d \<in> set (draws db)" "evidence_ok G d r db'"
  shows "draw_ok G db' \<and> draws_forward db db'"
proof -
  note a = assms(1) [unfolded result_added_def]
  have commit: "find_commit db' i = find_commit db i" for i by (rule find_cong_draws) (use a in auto)
  have "\<exists>x\<in>set (draws db'). evidence_ok G x q db'" if q: "q \<in> set (drawResults db')" for q
  proof (cases "q = r")
    case True
    then show ?thesis using assms(3,4) a by auto
  next
    case False
    then have "q \<in> set (drawResults db)" using q a by auto
    then obtain x where x: "x \<in> set (draws db)" "evidence_ok G x q db" using draw_ok_evidence [OF assms(2)] by blast
    then have "evidence_ok G x q db'" using evidence_ok_cong [OF x(2), of x db'] commit a by (simp add: same_draw_def)
    then show ?thesis using x(1) a by auto
  qed
  moreover have "\<forall>t\<in>set (tickets db'). t_status t = TS_WINNING \<longrightarrow> t_drawId t \<in> dr_drawId ` set (drawResults db')"
    "\<forall>e\<in>set (jackpotEntries db'). je_status e = JES_WINNING \<longrightarrow> je_drawId e \<in> dr_drawId ` set (drawResults db')"
    using a assms(2) unfolding draw_ok_def by force+
  ultimately have "draw_ok G db'" using a assms(2) by (auto simp: draw_ok_def)
  moreover have "draws_forward db db'" using a commit by (auto simp: draws_forward_def same_draw_def)
  ultimately show ?thesis by blast
qed

lemma complete_draw_cases:
  assumes "complete_draw G' d r u db = Inr db'" "draw_ok G db" "u \<in> set (lock_pool G d db)" "dr_drawId r = d_drawId d"
  obtains db1 where "result_added G d r db db1"
    "draws_rewritten (\<lambda>x. d_drawId x = d_drawId d) (\<lambda>x. x\<lparr>d_status := DS_COMPLETED, d_executedAt := Some (e_now G')\<rparr>) db1 db'"
proof -
  have ids: "distinct (map t_ticketId (tickets db))" "distinct (map je_entryId (jackpotEntries db))"
    using assms(2) by (simp_all add: draw_ok_def)
  have new: "d_drawId d \<notin> dr_drawId ` set (drawResults db)"
    using assms(1) by (auto simp: complete_draw_def split: if_splits)
  show thesis
    using assms(3)
  proof (cases rule: lock_pool_mem)
    case (ticket t)
    let ?db1 = "db\<lparr>drawResults := drawResults db @ [r], tickets := update_where (\<lambda>x. t_ticketId x = t_ticketId t)
      (\<lambda>x. x\<lparr>t_status := TS_WINNING, t_isWinner := True\<rparr>) (tickets db)\<rparr>"
    have "published_pool G x ?db1 = published_pool G x db" for x
      by (rule winner_marked_pool [OF ids(1) ticket(1,3)]) simp_all
    moreover have "t_drawId x = d_drawId d" if "x \<in> set (tickets db)" "t_ticketId x = t_ticketId t" for x
      using distinct_key_eq [OF ids(1) that(1) ticket(1) that(2)] ticket(2) by simp
    moreover have "map t_ticketId (tickets ?db1) = map t_ticketId (tickets db)" by (simp add: map_update_where)
    ultimately have "result_added G d r db ?db1"
      using new assms(4) ids by (auto simp: result_added_def set_update_where split: if_splits)
    moreover have "draws_rewritten (\<lambda>x. d_drawId x = d_drawId d) (\<lambda>x. x\<lparr>d_status := DS_COMPLETED, d_executedAt := Some (e_now G')\<rparr>) ?db1 db'"
      using assms(1) by (auto simp: complete_draw_def ticket(4) ticket_unit_def draws_rewritten_def Let_def res_simps split: if_splits)
    ultimately show thesis by (rule that)
  next
    case (entry e)
    let ?db1 = "db\<lparr>drawResults := drawResults db @ [r], jackpotEntries := update_where (\<lambda>x. je_entryId x = je_entryId e)
      (\<lambda>x. x\<lparr>je_status := JES_WINNING\<rparr>) (jackpotEntries db)\<rparr>"
    have "published_pool G x ?db1 = published_pool G x db" for x
      by (rule entry_marked_pool [OF ids(2) entry(1,3)]) simp_all
    moreover have "je_drawId x = d_drawId d" if "x \<in> set (jackpotEntries db)" "je_entryId x = je_entryId e" for x
      using distinct_key_eq [OF ids(2) that(1) entry(1) that(2)] entry(2) by simp
    moreover have "map je_entryId (jackpotEntries ?db1) = map je_entryId (jackpotEntries db)" by (simp add: map_update_where)
    ultimately have "result_added G d r db ?db1"
      using new assms(4) ids by (auto simp: result_added_def set_update_where split: if_splits)
    moreover have "draws_rewritten (\<lambda>x. d_drawId x = d_drawId d) (\<lambda>x. x\<lparr>d_status := DS_COMPLETED, d_executedAt := Some (e_now G')\<rparr>) ?db1 db'"
      using assms(1) by (auto simp: complete_draw_def entry(4) entry_unit_def draws_rewritten_def Let_def res_simps split: if_splits)
    ultimately show thesis by (rule that)
  qed
qed

end
