(* ===== verification/Draw_Laws.thy ===== *)
theory Draw_Laws
  imports Draw_Invariants
begin

text \<open>
  Every run of the draw side keeps the evidence of its results complete and moves the draws
  forward; the ticks of the engine are runs of steps; a due draw with a commitment and a pool
  is completed; sealing is undone by unsealing; and what the verifier's verdict means.
\<close>

section \<open>Execution\<close>

lemma lock_pool_cong: "tickets db' = tickets db \<Longrightarrow> jackpotEntries db' = jackpotEntries db \<Longrightarrow>
    lock_pool env d db' = lock_pool env d db"
  by (simp add: lock_pool_def draw_tickets_def draw_entries_def)

lemma winner_index_in_pool:
  "deterministicWinnerIndex sha hmac seed code n = Some (Inr i) \<Longrightarrow> i < n"
  by (auto simp: deterministicWinnerIndex_def winner_loop_iff pick_def split: if_splits)

lemma executed_evidence:
  assumes "draw_ok G db" "result_added G d (draw_result_row (at_time G now) d commit ts (lock_pool G d db)
      (computeMerkleRoot (g_sha G) (map pu_id (lock_pool G d db)) (d_drawCode d)) seed (lock_pool G d db ! idx)) db db1"
    and "deterministicWinnerIndex (g_sha G) (g_hmac G) seed (d_drawCode d) (length (lock_pool G d db)) = Some (Inr idx)"
    and "find_commit db (d_drawId d) = Some commit" "sha256Hex (g_sha G) seed = sc_seedHash commit"
  shows "evidence_ok G d (draw_result_row (at_time G now) d commit ts (lock_pool G d db)
      (computeMerkleRoot (g_sha G) (map pu_id (lock_pool G d db)) (d_drawCode d)) seed (lock_pool G d db ! idx)) db1"
proof -
  note a = assms(2) [unfolded result_added_def]
  have pool: "published_pool G d db1 = map pu_id (lock_pool G d db)"
    using a published_is_locked [OF assms(1), of d] by simp
  have commit: "find_commit db1 (d_drawId d) = Some commit"
    using assms(4) a find_cong_draws(2) [of db1 db] by simp
  have idx: "idx < length (lock_pool G d db)" using assms(3) by (rule winner_index_in_pool)
  have "\<exists>s i. hex seed = hex s \<and> sha256Hex (g_sha G) seed = sha256Hex (g_sha G) s \<and>
      deterministicWinnerIndex (g_sha G) (g_hmac G) s (d_drawCode d) (length (map pu_id (lock_pool G d db))) = Some (Inr i) \<and>
      map pu_id (lock_pool G d db) ! i = pu_id (lock_pool G d db ! idx)"
    using assms(3) idx by (intro exI [of _ seed] exI [of _ idx]) simp
  then show ?thesis
    unfolding evidence_ok_def pool draw_result_row_def
    using commit assms(5) by simp
qed

lemma execute_claimed_cases:
  assumes "execute_claimed G d (db, jobs) = Some (db', jobs')"
  obtains (stopped) "draws db' = draws db" "tickets db' = tickets db" "jackpotEntries db' = jackpotEntries db"
      "drawResults db' = drawResults db" "seedCommits db' = seedCommits db" "jobs' = jobs"
  | (empty) "lock_pool G d db = []" "db' = cancelEmptyDraw G d db" "jobs' = jobs"
  | (completed) commit seed idx ts db1 db2 where "find_commit db (d_drawId d) = Some commit" "lock_pool G d db \<noteq> []"
      "unseal G (sc_sealedSeed commit) = Inr seed" "sha256Hex (g_sha G) seed = sc_seedHash commit"
      "deterministicWinnerIndex (g_sha G) (g_hmac G) seed (d_drawCode d) (length (lock_pool G d db)) = Some (Inr idx)"
      "draws db1 = draws db" "tickets db1 = tickets db" "jackpotEntries db1 = jackpotEntries db"
      "drawResults db1 = drawResults db" "seedCommits db1 = seedCommits db"
      "complete_draw G d (draw_result_row G d commit ts (lock_pool G d db)
        (computeMerkleRoot (g_sha G) (map pu_id (lock_pool G d db)) (d_drawCode d)) seed (lock_pool G d db ! idx))
        (lock_pool G d db ! idx) db1 = Inr db2"
      "draws db' = draws db2" "tickets db' = tickets db2" "jackpotEntries db' = jackpotEntries db2"
      "drawResults db' = drawResults db2" "seedCommits db' = seedCommits db2"
proof (cases "find_commit db (d_drawId d)")
  case None
  then show thesis using assms by (intro stopped) (simp_all add: execute_claimed_def)
next
  case (Some commit)
  show thesis
  proof (cases "lock_pool G d db = []")
    case True
    then show thesis using assms Some by (intro empty) (simp_all add: execute_claimed_def)
  next
    case False
    note e = assms [unfolded execute_claimed_def Let_def prod.case] Some False
    show thesis
    proof (cases "unseal G (sc_sealedSeed commit)")
      case (Inl err)
      then show thesis using e by (intro stopped) auto
    next
      case (Inr seed)
      note e = e this
      show thesis
      proof (cases "sha256Hex (g_sha G) seed = sc_seedHash commit")
        case False
        then show thesis using e by (intro stopped) auto
      next
        case True
        note e = e this
        let ?det = "deterministicWinnerIndex (g_sha G) (g_hmac G) seed (d_drawCode d) (length (lock_pool G d db))"
        show thesis
        proof (cases "\<exists>idx. ?det = Some (Inr idx)")
          case False
          then show thesis using e by (intro stopped) (auto split: option.splits sum.splits)
        next
          case True
          then obtain idx where idx: "?det = Some (Inr idx)" by blast
          let ?ts = "draw_tickets G {TS_ACTIVE} (d_drawId d) db"
          let ?root = "computeMerkleRoot (g_sha G) (map pu_id (lock_pool G d db)) (d_drawCode d)"
          let ?db1 = "engine_audit G SEV_INFO ''DRAW_TICKETS_LOCKED'' (d_drawId d)
            [(''drawCode'', JStr (d_drawCode d)), (''poolSize'', JNum (int (length (lock_pool G d db)))),
             (''ticketCount'', JNum (int (length ?ts))), (''merkleRoot'', JStr ?root)] db"
          let ?c = "complete_draw G d (draw_result_row G d commit ?ts (lock_pool G d db) ?root seed (lock_pool G d db ! idx))
            (lock_pool G d db ! idx) ?db1"
          show thesis
          proof (cases ?c)
            case (Inl err)
            then show thesis using e idx by (intro stopped) auto
          next
            case (Inr db2)
            show thesis
              by (rule completed [OF Some \<open>lock_pool G d db \<noteq> []\<close> e(4,5) idx _ _ _ _ _ Inr]) (use e idx Inr in auto)
          qed
        qed
      qed
    qed
  qed
qed

lemma claimed_fine:
  assumes e: "execute_claimed (at_time G now) d (db, jobs) = Some (db', jobs')"
    and d: "d \<in> set (draws db)" "d_status d \<le> DS_COMPLETED"
  shows "step_fine G db db'"
  using e
proof (cases rule: execute_claimed_cases)
  case stopped
  then show ?thesis by (intro same_content_fine)
next
  case empty
  have "draws_rewritten (\<lambda>x. d_drawId x = d_drawId d) (\<lambda>x. x\<lparr>d_status := DS_CANCELLED\<rparr>) db db'"
    unfolding empty(2) by (simp add: cancelEmptyDraw_def draws_rewritten_def)
  then show ?thesis by (rule draws_rewritten_fine) (auto simp: same_draw_def)
next
  case (completed commit seed idx ts db1 db2)
  let ?r = "draw_result_row (at_time G now) d commit ts (lock_pool G d db)
    (computeMerkleRoot (g_sha G) (map pu_id (lock_pool G d db)) (d_drawCode d)) seed (lock_pool G d db ! idx)"
  have c: "complete_draw (at_time G now) d ?r (lock_pool G d db ! idx) db1 = Inr db2" using completed(11) by simp
  have pool: "lock_pool G d db1 = lock_pool G d db" by (rule lock_pool_cong) (use completed in auto)
  have idx: "idx < length (lock_pool G d db)" using winner_index_in_pool completed(5) by simp
  have fine: "draw_ok G db2 \<and> draws_forward db1 db2" if ok: "draw_ok G db1"
  proof -
    have id_r: "dr_drawId ?r = d_drawId d" by (simp add: draw_result_row_def)
    have mem: "lock_pool G d db ! idx \<in> set (lock_pool G d db1)" using idx pool by simp
    obtain db3 where r: "result_added G d ?r db1 db3"
      and w: "draws_rewritten (\<lambda>x. d_drawId x = d_drawId d) (\<lambda>x. x\<lparr>d_status := DS_COMPLETED, d_executedAt := Some (e_now (at_time G now))\<rparr>) db3 db2"
      using complete_draw_cases [OF c ok mem id_r] by blast
    have d1: "d \<in> set (draws db1)" using d(1) completed(6) by simp
    have "find_commit db1 (d_drawId d) = Some commit"
      using completed(1,10) find_cong_draws(2) [of db1 db] by simp
    then have "evidence_ok G d ?r db3"
      using executed_evidence [OF ok, of d now commit ts seed idx db3] r completed(4,5) pool by simp
    then have ok3: "draw_ok G db3 \<and> draws_forward db1 db3" using result_added_fine [OF r ok d1] by blast
    have "x = d" if "x \<in> set (draws db3)" "d_drawId x = d_drawId d" for x
      using distinct_key_eq [of d_drawId "draws db3" x d] that ok3 r d1 by (simp add: draw_ok_def result_added_def)
    then have "step_fine G db3 db2"
      by (intro draws_rewritten_fine [OF w]) (use d(2) in \<open>auto simp: same_draw_def\<close>)
    then show ?thesis using ok3 draws_forward_trans by (auto simp: step_fine_def)
  qed
  have "step_fine G db db1" by (rule same_content_fine) (use completed in auto)
  moreover have "step_fine G db1 db2" using fine by (simp add: step_fine_def)
  moreover have "step_fine G db2 db'" by (rule same_content_fine) (use completed in auto)
  ultimately show ?thesis by (blast intro: step_fine_trans)
qed

text \<open>The claim: with the ids unique, exactly the draw claimed is executing.\<close>

lemma claim_status:
  assumes "distinct (map d_drawId (draws db))" "x \<in> set (draws db)" "d_drawId x = i" "d_status x = DS_SALES_CLOSED"
    and "find_draw (set_draw_status i DS_SALES_CLOSED DS_EXECUTING db) i = Some d"
  shows "d = x\<lparr>d_status := DS_EXECUTING\<rparr> \<and> d \<in> set (draws (set_draw_status i DS_SALES_CLOSED DS_EXECUTING db))"
proof -
  let ?f = "\<lambda>y. if d_drawId y = i \<and> d_status y = DS_SALES_CLOSED then y\<lparr>d_status := DS_EXECUTING\<rparr> else y"
  have set_eq: "set (draws (set_draw_status i DS_SALES_CLOSED DS_EXECUTING db)) = ?f ` set (draws db)"
    unfolding set_draw_status_def set_update_where [symmetric] by simp
  have d: "d \<in> set (draws (set_draw_status i DS_SALES_CLOSED DS_EXECUTING db))" "d_drawId d = i"
    using find_Some_set [OF assms(5) [unfolded find_draw_def]] by blast+
  then obtain y where y: "y \<in> set (draws db)" "d = ?f y" unfolding set_eq by blast
  have "d_drawId y = d_drawId x" using d(2) y(2) assms(3) by (simp split: if_splits)
  then have "y = x" using distinct_key_eq [OF assms(1) y(1) assms(2)] by blast
  then show ?thesis using y(2) d(1) assms(3,4) by simp
qed

lemma execute_fine:
  assumes "execute (at_time G now) i s = Some s'"
  shows "step_fine G (fst s) (fst s')"
proof (cases "\<exists>d\<in>set (draws (fst s)). d_drawId d = i \<and> d_status d = DS_SALES_CLOSED")
  case True
  then obtain x where x: "x \<in> set (draws (fst s))" "d_drawId x = i" "d_status x = DS_SALES_CLOSED" by blast
  let ?c = "set_draw_status i DS_SALES_CLOSED DS_EXECUTING (fst s)"
  have claim: "step_fine G (fst s) ?c"
    by (rule draws_rewritten_fine [of "\<lambda>d. d_drawId d = i \<and> d_status d = DS_SALES_CLOSED" "\<lambda>d. d\<lparr>d_status := DS_EXECUTING\<rparr>"])
       (auto simp: draws_rewritten_def set_draw_status_def same_draw_def less_eq_DrawStatus_def)
  have e: "(case find_draw ?c i of None \<Rightarrow> Some (?c, snd s) | Some draw \<Rightarrow> execute_claimed (at_time G now) draw (?c, snd s)) = Some s'"
    using assms True by (simp add: execute_def Let_def)
  show ?thesis
  proof (cases "find_draw ?c i")
    case None
    then show ?thesis using e claim by auto
  next
    case (Some d)
    have "step_fine G ?c (fst s')" if ok: "draw_ok G (fst s)"
    proof -
      have d: "d = x\<lparr>d_status := DS_EXECUTING\<rparr> \<and> d \<in> set (draws ?c)"
        by (rule claim_status [OF _ x Some]) (use ok in \<open>simp add: draw_ok_def\<close>)
      show ?thesis
      proof (rule claimed_fine)
        show "execute_claimed (at_time G now) d (?c, snd s) = Some (fst s', snd s')" using e Some by simp
      qed (use d in \<open>auto simp: less_eq_DrawStatus_def\<close>)
    qed
    then show ?thesis using claim draws_forward_trans unfolding step_fine_def by blast
  qed
next
  case False
  then show ?thesis using assms unfolding execute_def by (simp only: if_False option.inject step_fine_refl)
qed

section \<open>Runs\<close>

lemma engine_step_fine: "engine_step G s s' \<Longrightarrow> step_fine G (fst s) (fst s')"
  by (induction rule: engine_step.induct)
     (auto simp: less_eq_DrawStatus_def intro: commitSeed_fine transition_fine execute_fine create_fine update_fine
       cancel_fine other_fine)

interpretation engine_run: kept_by_steps "engine_step G" "\<lambda>s. draw_ok G (fst s)"
  by unfold_locales (use engine_step_fine in \<open>auto simp: step_fine_def\<close>)

lemma engine_run_forward:
  assumes "(engine_step G)\<^sup>*\<^sup>* s s'" "draw_ok G (fst s)"
  shows "draws_forward (fst s) (fst s')"
  using assms
proof (induction rule: rtranclp_induct)
  case (step y z)
  then have "draw_ok G (fst y)" using engine_run.run_keeps by blast
  then show ?case using step engine_step_fine [OF step.hyps(2)] draws_forward_trans by (auto simp: step_fine_def)
qed simp

section \<open>The ticks are runs\<close>

lemma foldl_run:
  assumes "\<And>s x. x \<in> set xs \<Longrightarrow> I s \<Longrightarrow> step\<^sup>*\<^sup>* (s, jobs) (f s x, jobs) \<and> I (f s x)" "I s"
  shows "step\<^sup>*\<^sup>* (s, jobs) (foldl f s xs, jobs)"
  using assms
proof (induction xs arbitrary: s)
  case (Cons x xs)
  have "step\<^sup>*\<^sup>* (s, jobs) (f s x, jobs)" "I (f s x)" using Cons.prems(1) [of x s] Cons.prems(2) by simp_all
  moreover have "step\<^sup>*\<^sup>* (f s x, jobs) (foldl f (f s x) xs, jobs)"
    by (rule Cons.IH) (use Cons.prems(1) calculation(2) in auto)
  ultimately show ?case by (simp add: rtranclp_trans)
qed simp

lemma commitSeed_draws [simp]: "draws (commitSeed G seed iv i code db) = draws db"
  by (simp add: commitSeed_def Let_def)

lemma transition_commits [simp]: "find_commit (transition G i code from to db) k = find_commit db k"
  by (rule find_cong_draws) (simp add: transition_def set_draw_status_def)

lemma seed_commit_tick_run: "(engine_step G)\<^sup>*\<^sup>* (db, jobs) (seed_commit_tick (at_time G now) rnd db, jobs)"
  unfolding seed_commit_tick_def
  by (rule foldl_run [where I = "\<lambda>s. draws s = draws db"]) (auto intro!: r_into_rtranclp es_commit)

lemma activate_run: "(engine_step G)\<^sup>*\<^sup>* (db, jobs) (activateCommittedDraws (at_time G now) db, jobs)"
  unfolding activateCommittedDraws_def
  by (rule foldl_run [where I = "\<lambda>s. \<forall>i. find_commit s i = find_commit db i"])
     (auto intro!: r_into_rtranclp es_activate)

lemma close_run: "(engine_step G)\<^sup>*\<^sup>* (db, jobs) (closeSalesAtCutoff (at_time G now) db, jobs)"
  unfolding closeSalesAtCutoff_def
  by (rule foldl_run [where I = "\<lambda>_. True"]) (auto intro!: r_into_rtranclp es_close)

lemma lifecycle_tick_run: "(engine_step G)\<^sup>*\<^sup>* (db, jobs) (lifecycle_tick (at_time G now) db, jobs)"
  unfolding lifecycle_tick_def using activate_run close_run by (rule rtranclp_trans)

lemma execute_all_run: "execute_all (at_time G now) due s = Some s' \<Longrightarrow> (engine_step G)\<^sup>*\<^sup>* s s'"
proof (induction due arbitrary: s)
  case (Cons i due)
  then obtain t where "execute (at_time G now) i s = Some t" "execute_all (at_time G now) due t = Some s'"
    by (auto split: option.splits)
  then show ?case using Cons.IH es_execute by (meson converse_rtranclp_into_rtranclp)
qed simp

lemma execution_tick_run: "execution_tick (at_time G now) s = Some s' \<Longrightarrow> (engine_step G)\<^sup>*\<^sup>* s s'"
  unfolding execution_tick_def by (rule execute_all_run)

section \<open>No sales without a commitment\<close>

definition active_committed :: "db \<Rightarrow> bool" where
  "active_committed db \<longleftrightarrow> (\<forall>d\<in>set (draws db). d_status d = DS_ACTIVE \<longrightarrow> find_commit db (d_drawId d) \<noteq> None)"

text \<open>A step that makes no draw active, except one that has a commitment.\<close>

definition activates_committed :: "db \<Rightarrow> db \<Rightarrow> bool" where
  "activates_committed db db' \<longleftrightarrow> (\<forall>d'\<in>set (draws db'). d_status d' = DS_ACTIVE \<longrightarrow>
     (\<exists>d\<in>set (draws db). d_drawId d = d_drawId d' \<and> d_status d = DS_ACTIVE) \<or> find_commit db (d_drawId d') \<noteq> None)"

lemma rewritten_activates:
  assumes "draws db' = update_where P f (draws db)" "\<And>d. d_drawId (f d) = d_drawId d"
    and "\<And>d. P d \<Longrightarrow> d_status (f d) = DS_ACTIVE \<Longrightarrow> d_status d = DS_ACTIVE \<or> find_commit db (d_drawId d) \<noteq> None"
  shows "activates_committed db db'"
  unfolding activates_committed_def
proof (intro ballI impI)
  fix d' assume "d' \<in> set (draws db')" and active: "d_status d' = DS_ACTIVE"
  then obtain d where d: "d \<in> set (draws db)" "d' = (if P d then f d else d)"
    unfolding assms(1) set_update_where by blast
  have "d_drawId d' = d_drawId d" using d(2) assms(2) by simp
  moreover have "d_status d = DS_ACTIVE \<or> find_commit db (d_drawId d) \<noteq> None"
    using d(2) active assms(3) [of d] by (cases "P d") auto
  ultimately show "(\<exists>d\<in>set (draws db). d_drawId d = d_drawId d' \<and> d_status d = DS_ACTIVE) \<or>
      find_commit db (d_drawId d') \<noteq> None" using d(1) by metis
qed

lemma same_draws_activates: "draws db' = draws db \<Longrightarrow> activates_committed db db'"
  by (auto simp: activates_committed_def)

lemma activates_trans:
  "activates_committed a b \<Longrightarrow> (\<And>i. find_commit b i = find_commit a i) \<Longrightarrow> activates_committed b c \<Longrightarrow> activates_committed a c"
  unfolding activates_committed_def by metis

lemma transition_activates:
  assumes "to = DS_ACTIVE \<Longrightarrow> find_commit db i \<noteq> None"
  shows "activates_committed db (transition G i code from to db)"
proof (cases "\<exists>d\<in>set (draws db). d_drawId d = i \<and> d_status d = from")
  case True
  then have "draws (transition G i code from to db) =
      update_where (\<lambda>d. d_drawId d = i \<and> d_status d = from) (\<lambda>d. d\<lparr>d_status := to\<rparr>) (draws db)"
    by (simp add: transition_def set_draw_status_def)
  then show ?thesis by (rule rewritten_activates) (use assms in auto)
next
  case False
  then show ?thesis unfolding transition_def by (simp only: if_False same_draws_activates)
qed

lemma claimed_activates:
  assumes "execute_claimed G d (db, jobs) = Some (db', jobs')"
  shows "activates_committed db db'"
  using assms
proof (cases rule: execute_claimed_cases)
  case empty
  then show ?thesis
    by (intro rewritten_activates [of _ "\<lambda>x. d_drawId x = d_drawId d" "\<lambda>x. x\<lparr>d_status := DS_CANCELLED\<rparr>"])
       (simp_all add: cancelEmptyDraw_def)
next
  case (completed commit seed idx ts db1 db2)
  have "draws db2 = update_where (\<lambda>x. d_drawId x = d_drawId d)
      (\<lambda>x. x\<lparr>d_status := DS_COMPLETED, d_executedAt := Some (e_now G)\<rparr>) (draws db1)"
    using completed(11) by (auto simp: complete_draw_def Let_def res_simps split: if_splits unit_kind.splits)
  then have "draws db' = update_where (\<lambda>x. d_drawId x = d_drawId d)
      (\<lambda>x. x\<lparr>d_status := DS_COMPLETED, d_executedAt := Some (e_now G)\<rparr>) (draws db)"
    using completed by simp
  then show ?thesis by (rule rewritten_activates) auto
qed (simp add: same_draws_activates)

lemma execute_activates:
  assumes "execute G i s = Some s'"
  shows "activates_committed (fst s) (fst s')"
proof (cases "\<exists>d\<in>set (draws (fst s)). d_drawId d = i \<and> d_status d = DS_SALES_CLOSED")
  case True
  let ?c = "set_draw_status i DS_SALES_CLOSED DS_EXECUTING (fst s)"
  have claim: "activates_committed (fst s) ?c" "\<And>k. find_commit ?c k = find_commit (fst s) k"
    by (rule rewritten_activates [of _ "\<lambda>d. d_drawId d = i \<and> d_status d = DS_SALES_CLOSED" "\<lambda>d. d\<lparr>d_status := DS_EXECUTING\<rparr>"])
       (auto simp: set_draw_status_def find_commit_def)
  have "(case find_draw ?c i of None \<Rightarrow> Some (?c, snd s) | Some draw \<Rightarrow> execute_claimed G draw (?c, snd s)) = Some s'"
    using assms True by (simp add: execute_def Let_def)
  then have "activates_committed ?c (fst s')"
    using claimed_activates [of G _ ?c "snd s" "fst s'" "snd s'"] by (auto simp: same_draws_activates split: option.splits)
  then show ?thesis using activates_trans [OF claim] by blast
next
  case False
  then show ?thesis using assms unfolding execute_def by (simp only: if_False option.inject same_draws_activates)
qed

lemma engine_step_activates: "engine_step G s s' \<Longrightarrow> activates_committed (fst s) (fst s')"
proof (induction rule: engine_step.induct)
  case (es_create now dto admin db d db' jobs)
  then have "draws db' = draws db @ [d]" "d_status d = DS_SCHEDULED"
    by (auto simp: create_draw_def Let_def res_simps split: prod.splits)
  then show ?case by (auto simp: activates_committed_def)
next
  case (es_update now i udto admin seen db d db' jobs)
  then obtain sa ca where "draws db' = update_where (\<lambda>d. d_drawId d = i) (apply_update udto sa ca) (draws db)"
    by (auto simp: update_draw_def Let_def res_simps split: option.splits if_splits)
  then show ?case unfolding fst_conv by (rule rewritten_activates) (auto simp: apply_update_def)
next
  case (es_cancel now i admin seen db d db' jobs)
  then have "draws db' = update_where (\<lambda>d. d_drawId d = i) (\<lambda>d. d\<lparr>d_status := DS_CANCELLED\<rparr>) (draws db)"
    by (auto simp: cancel_draw_def Let_def res_simps split: option.splits if_splits)
  then show ?case unfolding fst_conv by (rule rewritten_activates) auto
next
  case (es_execute now i s s')
  then show ?case by (rule execute_activates)
next
  case (es_other db db' jobs)
  then show ?case by (simp add: leaves_draws_def same_draws_activates)
next
  case (es_close "from" db now i code jobs)
  then show ?case unfolding fst_conv by (intro transition_activates) simp
qed (simp_all add: same_draws_activates transition_activates)

definition draws_safe :: "engine_env \<Rightarrow> db \<Rightarrow> bool" where
  "draws_safe G db \<longleftrightarrow> draw_ok G db \<and> active_committed db"

interpretation engine_safe_run: kept_by_steps "engine_step G" "\<lambda>s. draws_safe G (fst s)"
proof unfold_locales
  fix s t assume st: "engine_step G s t" and ok: "draws_safe G (fst s)"
  have f: "draw_ok G (fst t)" "draws_forward (fst s) (fst t)"
    using engine_step_fine [OF st] ok by (auto simp: step_fine_def draws_safe_def)
  have "find_commit (fst t) (d_drawId d) \<noteq> None" if "d \<in> set (draws (fst t))" "d_status d = DS_ACTIVE" for d
  proof -
    have "find_commit (fst s) (d_drawId d) \<noteq> None"
      using engine_step_activates [OF st] ok that unfolding activates_committed_def draws_safe_def active_committed_def by metis
    then show ?thesis using f(2) unfolding draws_forward_def by (metis option.exhaust)
  qed
  then show "draws_safe G (fst t)" using f(1) by (simp add: draws_safe_def active_committed_def)
qed

end
