(* ===== verification/Draw_Properties.thy ===== *)
theory Draw_Properties
  imports Draw_Laws
begin

text \<open>The properties of the draw engine, with their witnesses on a small draw.\<close>

section \<open>Sealing\<close>

text \<open>What the documentation of AES-256-GCM promises: decryption with the key, nonce and tag of an
  encryption returns the text; the tag has 16 bytes, the ciphertext the length of the text.\<close>

definition aes_gcm :: "engine_env \<Rightarrow> bool" where
  "aes_gcm G \<longleftrightarrow> (\<forall>key iv m. g_decrypt G key iv (fst (g_encrypt G key iv m)) (snd (g_encrypt G key iv m)) = Some m \<and>
     length (fst (g_encrypt G key iv m)) = length m \<and> length (snd (g_encrypt G key iv m)) = 16)"

lemma unseal_seal:
  assumes "aes_gcm G" "iv \<noteq> []" "seed \<noteq> []"
  shows "unseal G (seal G iv seed) = Inr seed"
proof -
  obtain ct tag where e: "g_encrypt G (g_sealKey G) iv seed = (ct, tag)" by fastforce
  have d: "g_decrypt G (g_sealKey G) iv ct tag = Some seed" "length ct = length seed" "length tag = 16"
    using assms(1) e unfolding aes_gcm_def by (metis fst_conv snd_conv)+
  then have "ct \<noteq> []" "tag \<noteq> []" using assms(3) by auto
  moreover have "js_split (CHR '':'') (seal G iv seed) = [base64 iv, base64 ct, base64 tag]"
    using base64_no_colon by (simp add: seal_def e js_split_append js_split_none)
  ultimately show ?thesis using assms(2) d(1) by (simp add: unseal_def base64_Nil)
qed

section \<open>A due draw is completed\<close>

lemma execute_claimed_complete:
  assumes "find_commit db (d_drawId d) = Some commit" "lock_pool G d db \<noteq> []"
    and "unseal G (sc_sealedSeed commit) = Inr seed" "sha256Hex (g_sha G) seed = sc_seedHash commit"
    and "deterministicWinnerIndex (g_sha G) (g_hmac G) seed (d_drawCode d) (length (lock_pool G d db)) = Some (Inr idx)"
    and "d_drawId d \<notin> dr_drawId ` set (drawResults db)"
  shows "\<exists>db' jobs' r. execute_claimed G d (db, jobs) = Some (db', jobs') \<and>
    draws db' = update_where (\<lambda>x. d_drawId x = d_drawId d)
      (\<lambda>x. x\<lparr>d_status := DS_COMPLETED, d_executedAt := Some (e_now G)\<rparr>) (draws db) \<and>
    r \<in> set (drawResults db') \<and> dr_drawId r = d_drawId d \<and>
    dr_winnerTicketRef r = pu_id (lock_pool G d db ! idx) \<and> dr_rngSeed r = hex seed"
proof -
  let ?pool = "lock_pool G d db" and ?ts = "draw_tickets G {TS_ACTIVE} (d_drawId d) db"
  let ?root = "computeMerkleRoot (g_sha G) (map pu_id ?pool) (d_drawCode d)"
  let ?r = "draw_result_row G d commit ?ts ?pool ?root seed (?pool ! idx)"
  let ?db1 = "engine_audit G SEV_INFO ''DRAW_TICKETS_LOCKED'' (d_drawId d)
    [(''drawCode'', JStr (d_drawCode d)), (''poolSize'', JNum (int (length ?pool))),
     (''ticketCount'', JNum (int (length ?ts))), (''merkleRoot'', JStr ?root)] db"
  have idx: "?pool ! idx \<in> set ?pool" using winner_index_in_pool [OF assms(5)] by simp
  have new: "\<forall>x\<in>set (drawResults db). dr_drawId x \<noteq> d_drawId d" using assms(6) by (metis image_eqI)
  have "\<exists>db2. complete_draw G d ?r (?pool ! idx) ?db1 = Inr db2 \<and>
      draws db2 = update_where (\<lambda>x. d_drawId x = d_drawId d)
        (\<lambda>x. x\<lparr>d_status := DS_COMPLETED, d_executedAt := Some (e_now G)\<rparr>) (draws db) \<and> ?r \<in> set (drawResults db2)"
    using idx
  proof (cases rule: lock_pool_mem)
    case (ticket t)
    then show ?thesis using new by (auto simp: complete_draw_def ticket_unit_def Let_def)
  next
    case (entry e)
    then show ?thesis using new by (auto simp: complete_draw_def entry_unit_def Let_def)
  qed
  then obtain db2 where c: "complete_draw G d ?r (?pool ! idx) ?db1 = Inr db2"
    "draws db2 = update_where (\<lambda>x. d_drawId x = d_drawId d)
        (\<lambda>x. x\<lparr>d_status := DS_COMPLETED, d_executedAt := Some (e_now G)\<rparr>) (draws db)" "?r \<in> set (drawResults db2)"
    by blast
  have "dr_drawId ?r = d_drawId d \<and> dr_winnerTicketRef ?r = pu_id (?pool ! idx) \<and> dr_rngSeed ?r = hex seed"
    by (simp add: draw_result_row_def)
  then show ?thesis using assms c by (auto simp: execute_claimed_def Let_def)
qed

section \<open>A small draw\<close>

definition ex_engine :: engine_env where
  "ex_engine = \<lparr>e_uuid = \<lambda>n. nat_str n, e_now = 1000, e_sha256 = \<lambda>s. s, e_localeCompare = str_cmp,
     e_dbCollate = str_cmp, e_requestId = None, g_sha = ex_sha, g_hmac = ex_hmac, g_sealKey = [1],
     g_encrypt = (\<lambda>key iv m. (m, replicate 16 7)), g_decrypt = (\<lambda>key iv ct tag. if tag = replicate 16 7 then Some ct else None),
     g_sign = (\<lambda>m. m), g_queueUp = True\<rparr>"

definition ex_draw :: draw where
  "ex_draw = \<lparr>d_drawId = ''d1'', d_drawCode = ''D'', d_drawType = DAILY_STANDARD, d_status = DS_SALES_CLOSED,
     d_prizeDescription = ''Prize'', d_prizeValueNgn = 1000, d_prizeImageUrl = None, d_ticketPriceNgn = 100,
     d_ticketQuota = None, d_scheduledAt = 900, d_cutoffAt = 800, d_executedAt = None, d_configVersion = 1\<rparr>"

definition ex_ticket :: "string \<Rightarrow> ticket" where
  "ex_ticket i = \<lparr>t_ticketId = i, t_ticketRef = ''SW-'' @ i, t_drawId = ''d1'', t_ticketType = STANDARD,
     t_faceValueNgn = 100, t_buyerPhone = ''080'', t_buyerUserId = None, t_agentId = None,
     t_purchaseChannel = CHANNEL_DIRECT, t_stateOfPlayCode = ''LA'', t_paymentTxnId = None,
     t_walletPurchaseId = None, t_jackpotDiscountOfferId = None, t_status = TS_ACTIVE, t_isWinner = False\<rparr>"

definition ex_draw_db :: db where
  "ex_draw_db = \<lparr>accounts = [], txns = [], entries = [], wallets = [], holds = [], users = [], blockedPhones = [],
     agents = [], payments = [], walletPurchases = [], remittances = [], claims = [], payoutAttempts = [],
     whtDeductions = [], identityChecks = [], payoutAccounts = [], withdrawals = [], collectionPoints = [], draws = [ex_draw],
     tickets = [ex_ticket ''b'', ex_ticket ''a''], jackpotEntries = [],
     seedCommits = [\<lparr>sc_drawId = ''d1'', sc_seedHash = sha256Hex ex_sha [1, 2, 3],
       sc_sealedSeed = seal ex_engine [9] [1, 2, 3], sc_committedAt = 5\<rparr>],
     drawResults = [], accumulations = [], offers = [], auditLog = [], seq = 0\<rparr>"

lemma ex_draws_safe: "draws_safe ex_engine ex_draw_db"
  by (simp add: draws_safe_def draw_ok_def active_committed_def ex_draw_db_def ex_draw_def ex_ticket_def)

lemma ex_draw_ok: "draw_ok ex_engine ex_draw_db"
  using ex_draws_safe by (simp add: draws_safe_def)

lemma ex_aes: "aes_gcm ex_engine"
  by (simp add: aes_gcm_def ex_engine_def)

lemma ex_commit: "find_commit ex_draw_db ''d1'' = Some
    \<lparr>sc_drawId = ''d1'', sc_seedHash = sha256Hex ex_sha [1, 2, 3], sc_sealedSeed = seal ex_engine [9] [1, 2, 3], sc_committedAt = 5\<rparr>"
  by (simp add: find_commit_def ex_draw_db_def)

lemma ex_pool: "map pu_id (lock_pool ex_engine ex_draw ex_draw_db) = [''SW-a'', ''SW-b'']"
  by code_simp

lemma ex_pool_length: "length (lock_pool ex_engine ex_draw ex_draw_db) = 2"
  using arg_cong [OF ex_pool, of length] by simp

lemma ex_index: "\<exists>i. deterministicWinnerIndex (g_sha ex_engine) (g_hmac ex_engine) seed code 2 = Some (Inr i)"
  using winner_index_power [of 2 1 ex_sha ex_hmac seed code] by (simp add: ex_engine_def)

lemma ex_time: "at_time ex_engine 1000 = ex_engine"
  by (simp add: at_time_def ex_engine_def)

text \<open>The example draw runs: some winner, a completed draw, its result.\<close>

lemma ex_executed:
  "\<exists>db' jobs'. execute ex_engine ''d1'' (ex_draw_db, []) = Some (db', jobs') \<and>
    (\<exists>d'. draws db' = [d'] \<and> d_drawId d' = ''d1'' \<and> d_drawCode d' = ''D'' \<and> d_status d' = DS_COMPLETED) \<and>
    (\<exists>r\<in>set (drawResults db'). dr_drawId r = ''d1'')"
proof -
  let ?c = "set_draw_status ''d1'' DS_SALES_CLOSED DS_EXECUTING ex_draw_db"
  let ?d = "ex_draw\<lparr>d_status := DS_EXECUTING\<rparr>"
  have c: "draws ?c = [?d]" "find_draw ?c ''d1'' = Some ?d"
    by (simp_all add: set_draw_status_def find_draw_def ex_draw_db_def ex_draw_def update_where_def)
  have pool: "lock_pool ex_engine ?d ?c = lock_pool ex_engine ex_draw ex_draw_db"
    by (simp add: lock_pool_def draw_tickets_def draw_entries_def set_draw_status_def ex_draw_def)
  have commit: "find_commit ?c ''d1'' = find_commit ex_draw_db ''d1''" by (rule find_cong_draws) (simp add: set_draw_status_def)
  obtain i where i: "deterministicWinnerIndex (g_sha ex_engine) (g_hmac ex_engine) [1, 2, 3] ''D'' 2 = Some (Inr i)"
    using ex_index by blast
  have "\<exists>db' jobs' r. execute_claimed ex_engine ?d (?c, []) = Some (db', jobs') \<and>
    draws db' = update_where (\<lambda>x. d_drawId x = d_drawId ?d)
      (\<lambda>x. x\<lparr>d_status := DS_COMPLETED, d_executedAt := Some (e_now ex_engine)\<rparr>) (draws ?c) \<and>
    r \<in> set (drawResults db') \<and> dr_drawId r = d_drawId ?d \<and>
    dr_winnerTicketRef r = pu_id (lock_pool ex_engine ?d ?c ! i) \<and> dr_rngSeed r = hex [1, 2, 3]"
  proof (rule execute_claimed_complete)
    show "find_commit ?c (d_drawId ?d) = Some \<lparr>sc_drawId = ''d1'', sc_seedHash = sha256Hex ex_sha [1, 2, 3],
        sc_sealedSeed = seal ex_engine [9] [1, 2, 3], sc_committedAt = 5\<rparr>"
      using commit ex_commit by (simp add: ex_draw_def)
    show "lock_pool ex_engine ?d ?c \<noteq> []" using pool ex_pool_length by auto
    show "deterministicWinnerIndex (g_sha ex_engine) (g_hmac ex_engine) [1, 2, 3] (d_drawCode ?d)
        (length (lock_pool ex_engine ?d ?c)) = Some (Inr i)"
      using i pool ex_pool_length by (simp add: ex_draw_def)
    show "sha256Hex (g_sha ex_engine) [1, 2, 3] = sc_seedHash \<lparr>sc_drawId = ''d1'', sc_seedHash = sha256Hex ex_sha [1, 2, 3],
        sc_sealedSeed = seal ex_engine [9] [1, 2, 3], sc_committedAt = 5\<rparr>" by (simp add: ex_engine_def)
  qed (simp_all add: unseal_seal [OF ex_aes] set_draw_status_def ex_draw_db_def)
  moreover have "execute ex_engine ''d1'' (ex_draw_db, []) = execute_claimed ex_engine ?d (?c, [])"
    using c by (simp add: execute_def ex_draw_db_def ex_draw_def)
  ultimately show ?thesis using c by (auto simp: update_where_def ex_draw_def)
qed

section \<open>Properties\<close>

text \<open>C2. Every published draw verifies: after any run of the engine and the draws service (also
  with racing edits and cancellations), the evidence that \<open>getVerification\<close> publishes for a
  draw passes every check of the independent verifier, the engine's signature included, and
  the seed it reveals is the one whose hash was committed.\<close>

theorem completed_draw_verifies:
  assumes "(engine_step G)\<^sup>*\<^sup>* (db0, jobs0) (db, jobs)" "draw_ok G db0"
    and "getVerification G code db = Inr b" "\<And>m. pub m (g_sign G m)"
  shows "verify_bundle (g_sha G) (g_hmac G) (Some pub) b = Some (Inr True) \<and>
    (\<exists>c. find_commit db (vb_drawId b) = Some c \<and> sc_seedHash c = vb_rngSeedHash b)"
proof -
  have ok: "draw_ok G db" using engine_run.run_keeps [OF assms(1)] assms(2) by simp
  obtain d r where d: "d \<in> set (draws db)" and r: "r \<in> set (drawResults db)" "dr_drawId r = d_drawId d"
    and b: "b = \<lparr>vb_drawId = d_drawId d, vb_drawCode = d_drawCode d, vb_winnerTicketRef = dr_winnerTicketRef r,
      vb_prizeValueNgn = dr_prizeValueNgn r, vb_totalTicketsSold = dr_totalTicketsSold r,
      vb_totalEligibleParticipants = dr_totalEligibleParticipants r, vb_rngSeedHash = dr_rngSeedHash r,
      vb_rngSeed = dr_rngSeed r, vb_merkleRoot = dr_merkleRoot r, vb_engineVersion = dr_engineVersion r,
      vb_engineSignature = dr_engineSignature r, vb_executedAt = to_iso_string (dr_executedAt r),
      vb_seedCommittedAt = to_iso_string (dr_rngSeedHashedAt r), vb_pool = published_pool G d db\<rparr>"
    using assms(3) by (auto simp: getVerification_def split: option.splits if_splits dest!: find_Some_set)
  obtain d' where d': "d' \<in> set (draws db)" "evidence_ok G d' r db" using draw_ok_evidence [OF ok r(1)] by blast
  have "d' = d"
    using distinct_key_eq [of d_drawId "draws db" d' d] ok d d' r(2) evidence_ok_id [OF d'(2)] by (simp add: draw_ok_def)
  then have e: "evidence_ok G d r db" using d'(2) by simp
  then show ?thesis
    using assms(4) unfolding b evidence_ok_def by (auto simp: verify_bundle_def signPayload_def)
qed

theorem completed_draw_verifies_witness:
  "\<exists>db b. getVerification ex_engine ''D'' db = Inr b \<and>
     verify_bundle ex_sha ex_hmac (Some (\<lambda>m sig. sig = m)) b = Some (Inr True)"
proof -
  obtain db' jobs' d' r where x: "execute ex_engine ''d1'' (ex_draw_db, []) = Some (db', jobs')"
    "draws db' = [d']" "d_drawId d' = ''d1''" "d_drawCode d' = ''D''" "d_status d' = DS_COMPLETED"
    "r \<in> set (drawResults db')" "dr_drawId r = ''d1''"
    using ex_executed by blast
  have run: "(engine_step ex_engine)\<^sup>*\<^sup>* (ex_draw_db, []) (db', jobs')"
    using es_execute [of ex_engine 1000 "''d1''"] x(1) ex_time by (metis r_into_rtranclp)
  have "find (\<lambda>r. dr_drawId r = ''d1'') (drawResults db') \<noteq> None" using x(6,7) by (auto simp: find_None_set)
  then obtain b where b: "getVerification ex_engine ''D'' db' = Inr b"
    using x(2-5) by (auto simp: getVerification_def)
  have "\<And>m. g_sign ex_engine m = m" by (simp add: ex_engine_def)
  then have "verify_bundle (g_sha ex_engine) (g_hmac ex_engine) (Some (\<lambda>m sig. sig = m)) b = Some (Inr True)"
    using completed_draw_verifies [OF run ex_draw_ok b, of "\<lambda>m sig. sig = m"] by simp
  then show ?thesis using b by (auto simp: ex_engine_def)
qed

text \<open>A verified winner is the only one: two bundles that both pass the verifier and agree on
  the draw code, the committed hash, the Merkle root and the number of participants name the
  same pool and the same winner, as long as SHA-256 does not collide on the strings hashed.\<close>

theorem verified_winner_unique:
  assumes "verify_bundle sha hmac p1 b1 = Some (Inr True)" "verify_bundle sha hmac p2 b2 = Some (Inr True)"
    and "vb_drawCode b1 = vb_drawCode b2" "vb_rngSeedHash b1 = vb_rngSeedHash b2" "vb_merkleRoot b1 = vb_merkleRoot b2"
      "vb_totalEligibleParticipants b1 = vb_totalEligibleParticipants b2"
    and "sha_width sha" "inj_on sha {unhex (vb_rngSeed b1), unhex (vb_rngSeed b2)}"
      "inj_on sha (set (merkle_inputs sha (vb_pool b1) (vb_drawCode b1)) \<union> set (merkle_inputs sha (vb_pool b2) (vb_drawCode b1)))"
  shows "vb_pool b1 = vb_pool b2 \<and> vb_winnerTicketRef b1 = vb_winnerTicketRef b2"
proof -
  have checks: "sha256Hex sha (unhex (vb_rngSeed b)) = vb_rngSeedHash b \<and>
      computeMerkleRoot sha (vb_pool b) (vb_drawCode b) = vb_merkleRoot b \<and>
      length (vb_pool b) = vb_totalEligibleParticipants b \<and>
      (\<exists>i. deterministicWinnerIndex sha hmac (unhex (vb_rngSeed b)) (vb_drawCode b) (length (vb_pool b)) = Some (Inr i) \<and>
        vb_pool b ! i = vb_winnerTicketRef b)" if "verify_bundle sha hmac p b = Some (Inr True)" for p b
    using that by (auto simp: verify_bundle_def Let_def split: option.splits sum.splits)
  note c = checks [OF assms(1)] checks [OF assms(2)]
  have seed: "unhex (vb_rngSeed b1) = unhex (vb_rngSeed b2)"
    by (rule sha256Hex_inj_on [OF assms(8)]) (use c assms(4) in simp_all)
  have "vb_pool b1 = vb_pool b2"
    by (rule root_binds [OF assms(7) _ assms(9)]) (use c assms(3,5,6) in simp_all)
  then show ?thesis using c seed assms(3) by auto
qed

definition ex_bundle :: evidence where
  "ex_bundle = \<lparr>vb_drawId = ''d1'', vb_drawCode = ''D'', vb_winnerTicketRef = ''A'', vb_prizeValueNgn = 5,
     vb_totalTicketsSold = 1, vb_totalEligibleParticipants = 1, vb_rngSeedHash = sha256Hex ex_sha [1, 2],
     vb_rngSeed = hex [1, 2], vb_merkleRoot = computeMerkleRoot ex_sha [''A''] ''D'', vb_engineVersion = ''1'',
     vb_engineSignature = [], vb_executedAt = [], vb_seedCommittedAt = [], vb_pool = [''A'']\<rparr>"

theorem verified_winner_unique_witness:
  "vb_winnerTicketRef (ex_bundle\<lparr>vb_prizeValueNgn := 9\<rparr>) = ''A''"
proof -
  have u: "unhex (hex [1, 2]) = [1, 2]" by (rule unhex_hex)
  have v: "verify_bundle ex_sha ex_hmac None (ex_bundle\<lparr>vb_prizeValueNgn := n\<rparr>) = Some (Inr True)" for n
    by (simp add: verify_bundle_def ex_bundle_def u deterministicWinnerIndex_def del: hex_simps unhex.simps)
  have "merkle_inputs ex_sha [''A''] ''D'' = [utf8 ''A:D'']"
    by (subst merkle_inputs_def, subst loop_inputs.simps) simp
  then have "vb_winnerTicketRef (ex_bundle\<lparr>vb_prizeValueNgn := 5\<rparr>) = vb_winnerTicketRef (ex_bundle\<lparr>vb_prizeValueNgn := 9\<rparr>)"
    using verified_winner_unique [OF v [of 5] v [of 9] _ _ _ _ ex_sha_width]
    by (simp add: ex_bundle_def del: hex_simps unhex.simps)
  then show ?thesis by (simp add: ex_bundle_def)
qed



text \<open>Commit and reveal: what \<open>commitSeed\<close> stores for an uncommitted draw is the hash of the seed
  and a sealed copy from which \<open>unseal\<close> recovers exactly that seed; an existing commitment is
  left as it is.\<close>

theorem commit_then_unseal:
  assumes "aes_gcm G" "seed \<noteq> []" "iv \<noteq> []"
  shows "(find_commit db i = None \<longrightarrow> (\<exists>c. find_commit (commitSeed G seed iv i code db) i = Some c \<and>
      sc_seedHash c = sha256Hex (g_sha G) seed \<and> unseal G (sc_sealedSeed c) = Inr seed)) \<and>
    (\<forall>c. find_commit db i = Some c \<longrightarrow> commitSeed G seed iv i code db = db)"
proof -
  have "unseal G (seal G iv seed) = Inr seed" by (rule unseal_seal [OF assms(1,3,2)])
  then show ?thesis by (auto simp: commitSeed_def Let_def find_commit_def engine_audit_def find_append)
qed

theorem commit_then_unseal_witness:
  "\<exists>c. find_commit (commitSeed ex_engine [1, 2, 3] [9] ''d2'' ''E'' ex_draw_db) ''d2'' = Some c \<and>
     unseal ex_engine (sc_sealedSeed c) = Inr [1, 2, 3]"
proof -
  have "find_commit ex_draw_db ''d2'' = None" by (simp add: find_commit_def ex_draw_db_def)
  then show ?thesis using commit_then_unseal [OF ex_aes, of "[1, 2, 3]" "[9]" ex_draw_db "''d2''" "''E''"] by auto
qed



end
