(* ===== verification/Account.thy ===== *)
theory Account
  imports Schema
begin

text \<open>
  \<open>apps/api/src/account/account.service.ts\<close>: profile, notifications, spend limit, breaks, bank
  details, and the two guards that every purchase passes. The profile operations are single
  statements followed by an audit record. In the messages the naira sign is written \<open>N\<close> and
  the long dash \<open>-\<close>, since strings are lists of code units below 256.
\<close>

section \<open>Spend periods\<close>

definition WAT_MS :: int where
  "WAT_MS = 60 * 60 * 1000"

text \<open>\<open>getUTCDay\<close> of a day number of the epoch, which was a Thursday (4); Sunday is 0.\<close>

definition utc_day :: "int \<Rightarrow> int" where
  "utc_day n = (n + 4) mod 7"

definition utc_date :: "int \<Rightarrow> int" where
  "utc_date n = (case civil_of_day n of (y, m, d) \<Rightarrow> d)"

text \<open>\<open>periodStartWat\<close> at the time \<open>now\<close>: \<open>wat\<close> is the day number after \<open>setUTCHours(0, 0, 0, 0)\<close>.\<close>

definition periodStartWat :: "int \<Rightarrow> SpendPeriod \<Rightarrow> int" where
  "periodStartWat now period =
     (let wat = (now + WAT_MS) div MS_PER_DAY;
          wat' = (case period of
              WEEKLY \<Rightarrow> wat - (utc_day wat + 6) mod 7
            | MONTHLY \<Rightarrow> wat - (utc_date wat - 1)) in
      wat' * MS_PER_DAY - WAT_MS)"

primrec spend_period_str :: "SpendPeriod \<Rightarrow> string" where
  "spend_period_str WEEKLY = ''WEEKLY''"
| "spend_period_str MONTHLY = ''MONTHLY''"

definition lower_char :: "char \<Rightarrow> char" where
  "lower_char c = (let n = (of_char c :: nat) in if 65 \<le> n \<and> n \<le> 90 then char_of (n + 32) else c)"

definition js_lower :: "string \<Rightarrow> string" where
  "js_lower s = map lower_char s"

text \<open>\<open>toLocaleString('en-NG')\<close> of an integer: digits in groups of three.\<close>

fun group_digits :: "nat \<Rightarrow> string" where
  "group_digits n = (if n < 1000 then nat_str n
     else group_digits (n div 1000) @ '','' @ pad_start 3 CHR ''0'' (nat_str (n mod 1000)))"

declare group_digits.simps [simp del]

definition locale_str :: "int \<Rightarrow> string" where
  "locale_str i = (if i < 0 then CHR ''-'' # group_digits (nat (- i)) else group_digits (nat i))"

section \<open>Views\<close>

record user_me =
  me_userId :: string
  me_phoneNumber :: string
  me_email :: "string option"
  me_displayName :: "string option"
  me_kycStatus :: KycStatus
  me_loyaltyPointsBalance :: int
  me_sms :: bool
  me_push :: bool
  me_emailEnabled :: bool
  me_spendLimit :: "(SpendPeriod \<times> int) option"
  me_selfExclusionUntil :: "string option"
  me_bankAccount :: "(string \<times> string \<times> string) option"

definition toUserMe :: "user \<Rightarrow> user_me" where
  "toUserMe u =
     \<lparr>me_userId = u_userId u, me_phoneNumber = u_phoneNumber u, me_email = u_email u,
      me_displayName = u_displayName u, me_kycStatus = u_kycStatus u,
      me_loyaltyPointsBalance = u_loyaltyPointsBalance u,
      me_sms = u_smsEnabled u, me_push = u_pushEnabled u, me_emailEnabled = u_emailEnabled u,
      me_spendLimit = (case (u_spendLimitPeriod u, u_spendLimitCapNgn u) of
          (Some period, Some capNgn) \<Rightarrow> (if capNgn \<noteq> 0 then Some (period, capNgn) else None)
        | _ \<Rightarrow> None),
      me_selfExclusionUntil = map_option to_iso_string (u_selfExclusionUntil u),
      me_bankAccount = (case u_bankAccountLast4 u of
          None \<Rightarrow> None
        | Some last4 \<Rightarrow> (if last4 = [] then None
            else Some (case u_bankCode u of None \<Rightarrow> [] | Some c \<Rightarrow> c, last4, [])))\<rparr>"

definition find_user :: "db \<Rightarrow> string \<Rightarrow> user option" where
  "find_user db userId = find (\<lambda>u. u_userId u = userId) (users db)"

definition getUser :: "db \<Rightarrow> string \<Rightarrow> user res" where
  "getUser db userId = from_option (NotFoundException ''Account not found'') (find_user db userId)"

definition me :: "db \<Rightarrow> string \<Rightarrow> user_me res" where
  "me db userId = bind_res (getUser db userId) (\<lambda>u. Inr (toUserMe u))"

section \<open>Changes of the account\<close>

text \<open>\<open>user.update({ where: { userId }, data })\<close>, and the audit record of the customer.\<close>

definition update_user :: "string \<Rightarrow> (user \<Rightarrow> user) \<Rightarrow> db \<Rightarrow> (user \<times> db) res" where
  "update_user userId upd db =
     (let db' = db\<lparr>users := update_where (\<lambda>u. u_userId u = userId) upd (users db)\<rparr> in
      bind_res (from_option (PrismaError ''P2025'') (find_user db' userId)) (\<lambda>u. Inr (u, db')))"

definition account_audit :: "AuditSeverity \<Rightarrow> string \<Rightarrow> string \<Rightarrow> audit_log" where
  "account_audit severity action userId =
     \<lparr>al_severity = severity, al_actorType = ACTOR_CUSTOMER, al_actorId = Some userId, al_action = action,
      al_resourceType = ''User'', al_resourceId = userId, al_metadata = JNull, al_signature = None\<rparr>"

text \<open>The dto: \<open>None\<close> is a field left out, \<open>Some None\<close> a field set to \<open>null\<close>; \<open>keys\<close> is \<open>Object.keys(dto)\<close>.\<close>

definition updateProfile ::
  "'a env_scheme \<Rightarrow> string \<Rightarrow> string option option \<Rightarrow> string option option \<Rightarrow> string list \<Rightarrow> db \<Rightarrow> (user_me \<times> db) res" where
  "updateProfile env userId displayName email keys db =
     (if find_user db userId \<noteq> None \<and>
         (case email of Some (Some x) \<Rightarrow> (\<exists>u\<in>set (users db). u_userId u \<noteq> userId \<and> u_email u = Some x) | _ \<Rightarrow> False)
      then Inl unique_violation
      else
        bind_res (update_user userId (\<lambda>u. u\<lparr>
          u_displayName := (case displayName of None \<Rightarrow> u_displayName u | Some v \<Rightarrow> v),
          u_email := (case email of None \<Rightarrow> u_email u | Some v \<Rightarrow> v)\<rparr>) db) (\<lambda>(u, db').
        Inr (toUserMe u, write_audit env (account_audit SEV_INFO ''ACCOUNT_PROFILE_UPDATED'' userId)
          [(''fields'', JArr (map JStr keys))] db')))"

definition updateNotifications ::
  "string \<Rightarrow> bool option \<Rightarrow> bool option \<Rightarrow> bool option \<Rightarrow> db \<Rightarrow> (user_me \<times> db) res" where
  "updateNotifications userId sms push email db =
     bind_res (update_user userId (\<lambda>u. u\<lparr>
       u_smsEnabled := (case sms of None \<Rightarrow> u_smsEnabled u | Some v \<Rightarrow> v),
       u_pushEnabled := (case push of None \<Rightarrow> u_pushEnabled u | Some v \<Rightarrow> v),
       u_emailEnabled := (case email of None \<Rightarrow> u_emailEnabled u | Some v \<Rightarrow> v)\<rparr>) db) (\<lambda>(u, db').
     Inr (toUserMe u, db'))"

text \<open>
  The period that \<open>setSpendLimit\<close> accepts is a string type with \<open>DAILY\<close>; the column has only
  \<open>WEEKLY\<close> and \<open>MONTHLY\<close>, and Prisma refuses other values.
\<close>

datatype limit_period = DAILY | Period SpendPeriod

primrec limit_period_str :: "limit_period \<Rightarrow> string" where
  "limit_period_str DAILY = ''DAILY''"
| "limit_period_str (Period p) = spend_period_str p"

definition setSpendLimit :: "'a env_scheme \<Rightarrow> string \<Rightarrow> limit_period \<Rightarrow> int \<Rightarrow> db \<Rightarrow> (user_me \<times> db) res" where
  "setSpendLimit env userId period capNgn db =
     bind_res (getUser db userId) (\<lambda>current.
     if (case u_spendLimitCapNgn current of None \<Rightarrow> False | Some cap \<Rightarrow> capNgn > cap) \<and>
        map_option Period (u_spendLimitPeriod current) = Some period
     then Inl (ConflictException ''Limits can be lowered any time; raising one takes effect after contacting support'')
     else case period of
       DAILY \<Rightarrow> Inl (JsError ''Invalid value for argument spendLimitPeriod. Expected SpendPeriod'')
     | Period p \<Rightarrow>
         if capNgn > MAX_INT4 then Inl (PrismaError ''P2020'')
         else bind_res (update_user userId (\<lambda>u. u\<lparr>u_spendLimitPeriod := Some p, u_spendLimitCapNgn := Some capNgn\<rparr>) db)
           (\<lambda>(u, db').
         Inr (toUserMe u, write_audit env (account_audit SEV_INFO ''SPEND_LIMIT_SET'' userId)
           [(''period'', JStr (limit_period_str period)), (''capNgn'', JNum capNgn)] db')))"

definition removeSpendLimit :: "string \<Rightarrow> db \<Rightarrow> (user_me \<times> db) res" where
  "removeSpendLimit userId db = Inl (ConflictException
     ''Removing a spend limit requires contacting support - this protects the limit you set'')"

definition takeBreak :: "'a env_scheme \<Rightarrow> string \<Rightarrow> int \<Rightarrow> db \<Rightarrow> (user_me \<times> db) res" where
  "takeBreak env userId days db =
     (if days > 90 then Inl (BadRequestException ''Breaks can be 1-90 days'')
      else
        let until = e_now env + days * 86400000 in
        bind_res (update_user userId (\<lambda>u. u\<lparr>u_selfExclusionUntil := Some until\<rparr>) db) (\<lambda>(u, db').
        Inr (toUserMe u, write_audit env (account_audit SEV_WARNING ''RESPONSIBLE_PLAY_BREAK_STARTED'' userId)
          [(''days'', JNum days), (''until'', JStr (to_iso_string until))] db')))"

definition js_slice_last :: "nat \<Rightarrow> 'a list \<Rightarrow> 'a list" where
  "js_slice_last n s = drop (length s - n) s"

text \<open>\<open>resolve\<close> is the bank's name enquiry: the account name, or its exception.\<close>

definition setBank ::
  "'a env_scheme \<Rightarrow> (string \<Rightarrow> string \<Rightarrow> string res) \<Rightarrow> string \<Rightarrow> string \<Rightarrow> string \<Rightarrow> db \<Rightarrow> ((user_me \<times> string) \<times> db) res" where
  "setBank env resolve userId accountNumber bankCode db =
     bind_res (resolve accountNumber bankCode) (\<lambda>accountName.
     bind_res (update_user userId (\<lambda>u. u\<lparr>u_bankCode := Some bankCode,
       u_bankAccountLast4 := Some (js_slice_last 4 accountNumber),
       u_bankAccountNameHash := Some (e_sha256 env accountName)\<rparr>) db) (\<lambda>(u, db').
     Inr ((toUserMe u, accountName), write_audit env (account_audit SEV_INFO ''ACCOUNT_BANK_SET'' userId)
       [(''bankCode'', JStr bankCode), (''last4'', JStr (js_slice_last 4 accountNumber))] db')))"

section \<open>Purchase guards\<close>

definition break_message :: "int \<Rightarrow> string" where
  "break_message until = ''Purchases are paused on this account until '' @ take 10 (to_iso_string until)"

definition limit_message :: "SpendPeriod \<Rightarrow> int \<Rightarrow> int \<Rightarrow> string" where
  "limit_message period already cap =
     ''This purchase would exceed your '' @ js_lower (spend_period_str period) @ '' spend limit - N''
     @ locale_str (max 0 (cap - already)) @ '' remaining of N'' @ locale_str cap"

text \<open>The two aggregates: confirmed online payments of a phone, completed wallet purchases of a user.\<close>

definition provider_spend :: "db \<Rightarrow> string \<Rightarrow> int \<Rightarrow> int" where
  "provider_spend db phone since = sum_by pt_amountNgn
     (filter (\<lambda>p. pt_buyerPhone p = phone \<and> pt_status p = PS_CONFIRMED \<and>
        (case pt_confirmedAt p of None \<Rightarrow> False | Some t \<Rightarrow> since \<le> t)) (payments db))"

definition wallet_spend :: "db \<Rightarrow> string \<Rightarrow> int \<Rightarrow> int" where
  "wallet_spend db userId since = sum_by wp_amountNgn
     (filter (\<lambda>p. wp_buyerUserId p = userId \<and> wp_status p = WPS_COMPLETED \<and>
        (case wp_completedAt p of None \<Rightarrow> False | Some t \<Rightarrow> since \<le> t)) (walletPurchases db))"

definition assert_not_on_break :: "'a env_scheme \<Rightarrow> user \<Rightarrow> unit res" where
  "assert_not_on_break env u =
     (case u_selfExclusionUntil u of
        None \<Rightarrow> Inr ()
      | Some until \<Rightarrow> (if e_now env < until then Inl (ConflictException (break_message until)) else Inr ()))"

text \<open>\<open>assertPurchaseAllowed\<close>: guests pass, a cap of 0 counts as no limit.\<close>

definition assertPurchaseAllowed :: "'a env_scheme \<Rightarrow> string \<Rightarrow> int \<Rightarrow> db \<Rightarrow> unit res" where
  "assertPurchaseAllowed env phoneNumber amountNgn db =
     (case find (\<lambda>u. u_phoneNumber u = phoneNumber) (users db) of
        None \<Rightarrow> Inr ()
      | Some u \<Rightarrow>
          bind_res (assert_not_on_break env u) (\<lambda>_.
          case (u_spendLimitPeriod u, u_spendLimitCapNgn u) of
            (Some period, Some cap) \<Rightarrow>
              (if cap = 0 then Inr ()
               else
                 let already = provider_spend db phoneNumber (periodStartWat (e_now env) period) in
                 if already + amountNgn > cap then Inl (ConflictException (limit_message period already cap))
                 else Inr ())
          | _ \<Rightarrow> Inr ()))"

text \<open>The guard of wallet purchases: under a lock of the user's row, wallet spend included.\<close>

definition assertWalletPurchaseAllowedInTransaction :: "'a env_scheme \<Rightarrow> string \<Rightarrow> int \<Rightarrow> db \<Rightarrow> unit res" where
  "assertWalletPurchaseAllowedInTransaction env userId amountNgn db =
     (case find_user db userId of
        None \<Rightarrow> Inl (NotFoundException ''Account not found'')
      | Some u \<Rightarrow>
          bind_res (assert_not_on_break env u) (\<lambda>_.
          case (u_spendLimitPeriod u, u_spendLimitCapNgn u) of
            (Some period, Some cap) \<Rightarrow>
              (let since = periodStartWat (e_now env) period;
                   already = provider_spend db (u_phoneNumber u) since + wallet_spend db userId since in
               if already + amountNgn > cap then Inl (ConflictException (limit_message period already cap))
               else Inr ())
          | _ \<Rightarrow> Inr ()))"

end
