(* ===== verification/Account_Laws.thy ===== *)
theory Account_Laws
  imports Account Wallet_Properties
begin

text \<open>
  What the account promises: where a spend period starts, which limits a customer can set,
  and what the guard of wallet purchases lets through.
\<close>

section \<open>Months\<close>

text \<open>
  The steps of \<open>civil_of_day\<close>: the year \<open>yoe\<close> of a 400-year era from the day \<open>doe\<close> in it, the
  first day of that year, the month (from March) of a day of the year.
\<close>

definition yoe_of :: "int \<Rightarrow> int" where
  "yoe_of doe = (doe - doe div 1460 + doe div 36524 - doe div 146096) div 365"

definition year_start :: "int \<Rightarrow> int" where
  "year_start yoe = 365 * yoe + yoe div 4 - yoe div 100"

definition month_of :: "int \<Rightarrow> int" where
  "month_of doy = (5 * doy + 2) div 153"

definition month_start :: "int \<Rightarrow> int" where
  "month_start mp = (153 * mp + 2) div 5"

lemma civil_of_day_eq:
  "civil_of_day z0 =
     (let z = z0 + 719468; doe = z mod 146097; yoe = yoe_of doe; doy = doe - year_start yoe; mp = month_of doy;
          d = doy - month_start mp + 1; m = (if mp < 10 then mp + 3 else mp - 9)
      in (yoe + z div 146097 * 400 + (if m \<le> 2 then 1 else 0), m, d))"
  unfolding civil_of_day_def yoe_of_def year_start_def month_of_def month_start_def Let_def by (rule refl)

lemma minus_div_mono:
  fixes a b k :: int
  assumes "a \<le> b" "1 \<le> k"
  shows "a - a div k \<le> b - b div k"
proof -
  have "b \<le> a + (b - a) * k" using assms mult_left_mono [of 1 k "b - a"] by simp
  then have "b div k \<le> (a + (b - a) * k) div k" using assms(2) by (intro zdiv_mono1) auto
  also have "\<dots> = (b - a) + a div k" using assms(2) by (intro div_mult_self1) auto
  finally show ?thesis by linarith
qed

lemma yoe_of_mono:
  assumes "0 \<le> a" "a \<le> b" "b < 146097"
  shows "yoe_of a \<le> yoe_of b"
proof -
  have m: "a - a div 1460 \<le> b - b div 1460" by (rule minus_div_mono) (use assms in auto)
  have n: "a div 36524 \<le> b div 36524" by (rule zdiv_mono1) (use assms in auto)
  have "a - a div 1460 + a div 36524 - a div 146096 \<le> b - b div 1460 + b div 36524 - b div 146096"
  proof (cases "b = 146096 \<and> a \<noteq> b")
    case False
    then have "a div 146096 = b div 146096" using assms by (auto simp: zdiv_eq_0_iff)
    then show ?thesis using m n by linarith
  next
    case True
    then have "a < 4 * 36524" "a < 146096" using assms by auto
    then have "a div 36524 < 4" "a div 146096 = 0" using assms(1) by (simp_all add: div_less_iff_less_mult zdiv_eq_0_iff)
    moreover have "a - a div 1460 \<le> 146095 - 146095 div 1460" by (rule minus_div_mono) (use True assms in auto)
    ultimately show ?thesis using True by simp
  qed
  then show ?thesis unfolding yoe_of_def by (rule zdiv_mono1) simp
qed

lemma year_start_inverse:
  assumes "0 \<le> y" "y < 400"
  shows "0 \<le> year_start y" "yoe_of (year_start y) = y" "0 < y \<Longrightarrow> yoe_of (year_start y - 1) < y"
proof -
  define c q r where "c = y div 100" and "q = y mod 100 div 4" and "r = y mod 4"
  have c: "0 \<le> c" "c \<le> 3" using assms unfolding c_def by presburger+
  have q: "0 \<le> q" "q \<le> 24" unfolding q_def by presburger+
  have r: "0 \<le> r" "r \<le> 3" unfolding r_def by presburger+
  have "y mod 100 mod 4 = y mod 4" by (rule mod_mod_cancel) simp
  then have y: "y = 100 * c + 4 * q + r"
    using div_mult_mod_eq [of y 100] div_mult_mod_eq [of "y mod 100" 4] unfolding c_def q_def r_def by linarith
  have y4: "y div 4 = 25 * c + q" using r unfolding y by presburger
  have y100: "y div 100 = c" by (simp add: c_def)
  have s: "year_start y = 36524 * c + 1461 * q + 365 * r"
    unfolding year_start_def y4 y100 using y by simp
  have "year_start y div 1460 = 25 * c + q"
    unfolding s using c q r by (intro int_div_pos_eq [where r = "24 * c + q + 365 * r"]) auto
  moreover have c36: "year_start y div 36524 = c"
    unfolding s using c q r by (intro int_div_pos_eq [where r = "1461 * q + 365 * r"]) auto
  moreover have "year_start y div 146096 = 0"
    unfolding s using c q r by (intro int_div_pos_eq [where r = "36524 * c + 1461 * q + 365 * r"]) auto
  ultimately show "yoe_of (year_start y) = y"
    unfolding yoe_of_def using s y by simp
  show "0 \<le> year_start y" using s c q r by simp
  assume "0 < y"
  then have pos: "1 \<le> 24 * c + q + 365 * r" using y c q r by auto
  have "(year_start y - 1) div 1460 = 25 * c + q"
    unfolding s using c q r pos by (intro int_div_pos_eq [where r = "24 * c + q + 365 * r - 1"]) auto
  moreover have "(year_start y - 1) div 36524 \<le> year_start y div 36524" by (rule zdiv_mono1) auto
  moreover have "0 \<le> (year_start y - 1) div 146096" using s c q r pos by (intro pos_imp_zdiv_nonneg_iff [THEN iffD2]) auto
  ultimately have "year_start y - 1 - (year_start y - 1) div 1460 + (year_start y - 1) div 36524 -
      (year_start y - 1) div 146096 < y * 365" using s y c36 by linarith
  then show "yoe_of (year_start y - 1) < y" by (simp add: yoe_of_def div_less_iff_less_mult)
qed

lemma year_start_le:
  assumes "0 \<le> y" "y < 400"
  shows "year_start y \<le> 146097"
proof -
  have "y div 4 \<le> y div 1" "0 \<le> y div 100" using assms by (auto intro: zdiv_mono2)
  then show ?thesis unfolding year_start_def using assms by linarith
qed

lemma yoe_of_bounds:
  assumes "0 \<le> doe" "doe < 146097"
  shows "0 \<le> yoe_of doe" "yoe_of doe < 400"
proof -
  have "yoe_of 0 = 0" "yoe_of 146096 = 399" by (simp_all add: yoe_of_def)
  then show "0 \<le> yoe_of doe" "yoe_of doe < 400"
    using yoe_of_mono [of 0 doe] yoe_of_mono [of doe 146096] assms by auto
qed


lemma div_between:
  fixes x k :: int
  assumes "0 < k"
  shows "k * (x div k) \<le> x" "x < k * (x div k) + k"
  using mult_div_mod_eq [of k x] pos_mod_sign [OF assms, of x] pos_mod_bound [OF assms, of x] by linarith+

lemma month_bounds: "0 \<le> doy - month_start (month_of doy)" "doy - month_start (month_of doy) \<le> 30"
  using div_between [of 153 "5 * doy + 2"] div_between [of 5 "153 * ((5 * doy + 2) div 153) + 2"]
  unfolding month_start_def month_of_def by linarith+

lemma month_inverse: "month_of (month_start mp) = mp"
  unfolding month_of_def using div_between [of 5 "153 * mp + 2"]
  by (intro int_div_pos_eq [where r = "5 * month_start mp + 2 - 153 * mp"]) (auto simp: month_start_def)

text \<open>The first day of the month of a day is the 1st of the same month of the same year.\<close>

lemma civil_month_start:
  assumes "civil_of_day n = (y, m, d)"
  shows "1 \<le> d \<and> d \<le> 31 \<and> civil_of_day (n - (d - 1)) = (y, m, 1)"
proof -
  define z doe yoe doy mp where "z = n + 719468" and "doe = z mod 146097" and "yoe = yoe_of doe"
    and "doy = doe - year_start yoe" and "mp = month_of doy"
  have d: "d = doy - month_start mp + 1"
    and ym: "y = yoe + z div 146097 * 400 + (if (if mp < 10 then mp + 3 else mp - 9) \<le> 2 then 1 else 0)"
      "m = (if mp < 10 then mp + 3 else mp - 9)"
    using assms unfolding civil_of_day_eq Let_def z_def [symmetric] doe_def [symmetric] yoe_def [symmetric]
      doy_def [symmetric] mp_def [symmetric] prod.inject by blast+
  have doe: "0 \<le> doe" "doe < 146097" by (simp_all add: doe_def)
  have yoe: "0 \<le> yoe" "yoe < 400" using yoe_of_bounds [OF doe] by (simp_all add: yoe_def)
  have doy: "0 \<le> doy"
  proof (rule ccontr)
    assume "\<not> 0 \<le> doy"
    then have le: "doe \<le> year_start yoe - 1" by (simp add: doy_def)
    have "year_start 0 = 0" by (simp add: year_start_def)
    then have "0 < yoe" using le doe(1) yoe(1) by (cases "yoe = 0") auto
    moreover have "year_start yoe - 1 < 146097" using year_start_le [OF yoe] by simp
    ultimately show False
      using yoe_of_mono [OF doe(1) le] year_start_inverse(3) [OF yoe] by (simp add: yoe_def)
  qed
  have md: "0 \<le> doy - month_start mp" "doy - month_start mp \<le> 30" unfolding mp_def by (rule month_bounds)+
  have "0 \<le> mp" using doy by (simp add: mp_def month_of_def)
  then have ms: "0 \<le> month_start mp" "month_of (month_start mp) = mp" by (simp_all add: month_start_def month_inverse [unfolded month_start_def])
  let ?doe = "year_start yoe + month_start mp"
  have le: "0 \<le> ?doe" "?doe \<le> doe" using md ms year_start_inverse(1) [OF yoe] by (auto simp: doy_def)
  have "yoe_of ?doe = yoe"
    using yoe_of_mono [of "year_start yoe" ?doe] yoe_of_mono [of ?doe doe] year_start_inverse [OF yoe] ms(1) le doe
    by (simp add: yoe_def [symmetric])
  moreover have "(n - (d - 1) + 719468) mod 146097 = ?doe" "(n - (d - 1) + 719468) div 146097 = z div 146097"
  proof -
    have "n - (d - 1) + 719468 = z div 146097 * 146097 + ?doe"
      using div_mult_mod_eq [of z 146097] d by (simp only: z_def doy_def doe_def)
    then show "(n - (d - 1) + 719468) mod 146097 = ?doe" "(n - (d - 1) + 719468) div 146097 = z div 146097"
      using le doe by simp_all
  qed
  ultimately have "civil_of_day (n - (d - 1)) = (y, m, 1)"
    by (simp add: civil_of_day_eq Let_def ms ym)
  then show ?thesis using d md by simp
qed


section \<open>Period starts\<close>

lemma wat_day:
  "(now + WAT_MS) div MS_PER_DAY * MS_PER_DAY - WAT_MS \<le> now"
  "now < (now + WAT_MS) div MS_PER_DAY * MS_PER_DAY - WAT_MS + MS_PER_DAY"
  using div_between [of MS_PER_DAY "now + WAT_MS"] by (simp_all add: MS_PER_DAY_def WAT_MS_def mult.commute)

lemma monday: "utc_day (w - (utc_day w + 6) mod 7) = 1"
  unfolding utc_day_def by presburger

lemma period_start_facts:
  "(\<exists>n. periodStartWat now p = n * MS_PER_DAY - WAT_MS \<and>
      (p = WEEKLY \<longrightarrow> utc_day n = 1) \<and>
      (p = MONTHLY \<longrightarrow> (\<exists>y m d. civil_of_day n = (y, m, 1) \<and> civil_of_day ((now + WAT_MS) div MS_PER_DAY) = (y, m, d)))) \<and>
   periodStartWat now p \<le> now \<and>
   now < periodStartWat now p + (case p of WEEKLY \<Rightarrow> 7 | MONTHLY \<Rightarrow> 31) * MS_PER_DAY"
proof -
  let ?w = "(now + WAT_MS) div MS_PER_DAY"
  obtain y m d where c: "civil_of_day ?w = (y, m, d)" by (cases "civil_of_day ?w")
  note month = civil_month_start [OF c]
  define k where "k = (case p of WEEKLY \<Rightarrow> (utc_day ?w + 6) mod 7 | MONTHLY \<Rightarrow> d - 1)"
  have start: "periodStartWat now p = (?w - k) * MS_PER_DAY - WAT_MS"
    using c by (cases p) (simp_all add: periodStartWat_def k_def utc_date_def Let_def)
  have k: "0 \<le> k" "k \<le> (case p of WEEKLY \<Rightarrow> 6 | MONTHLY \<Rightarrow> 30)"
    using month pos_mod_bound [of 7 "utc_day ?w + 6"] by (cases p; simp add: k_def)+
  have "utc_day (?w - (utc_day ?w + 6) mod 7) = 1"
    by (rule monday)
  then have "(p = WEEKLY \<longrightarrow> utc_day (?w - k) = 1) \<and>
      (p = MONTHLY \<longrightarrow> (\<exists>y m d. civil_of_day (?w - k) = (y, m, 1) \<and> civil_of_day ?w = (y, m, d)))"
    using month c by (cases p) (simp_all add: k_def)
  moreover have "periodStartWat now p \<le> now"
  proof -
    have "0 \<le> k * MS_PER_DAY" using k(1) by (simp add: MS_PER_DAY_def)
    then show ?thesis using wat_day(1) [of now] unfolding start by (simp add: left_diff_distrib)
  qed
  moreover have "now < periodStartWat now p + (case p of WEEKLY \<Rightarrow> 7 | MONTHLY \<Rightarrow> 31) * MS_PER_DAY"
    using wat_day(2) [of now] k(2) unfolding start by (cases p) (simp_all add: left_diff_distrib MS_PER_DAY_def)
  ultimately show ?thesis using start by blast
qed

text \<open>Where the week and the month of a spend limit begin, in West Africa time: the start is a
  midnight, not later than now; a week starts on a Monday less than seven days ago, a month on
  the 1st of the present month, less than 31 days ago.\<close>

theorem period_start_bounds:
  "(\<exists>n. periodStartWat now p = n * MS_PER_DAY - WAT_MS \<and>
      (case p of WEEKLY \<Rightarrow> utc_day n = 1
       | MONTHLY \<Rightarrow> (\<exists>y m d. civil_of_day n = (y, m, 1) \<and> civil_of_day ((now + WAT_MS) div MS_PER_DAY) = (y, m, d)))) \<and>
   periodStartWat now p \<le> now \<and>
   now < periodStartWat now p + (case p of WEEKLY \<Rightarrow> 7 | MONTHLY \<Rightarrow> 31) * MS_PER_DAY"
  using period_start_facts [of now p] by (cases p) simp_all

section \<open>Limits\<close>

lemma update_user_Inr [res_simps]:
  "update_user i upd db = Inr (u, db') \<longleftrightarrow>
     db' = db\<lparr>users := update_where (\<lambda>u. u_userId u = i) upd (users db)\<rparr> \<and> find_user db' i = Some u"
  by (auto simp: update_user_def Let_def res_simps)

lemma write_audit_users [simp]: "users (write_audit env a m db) = users db"
  by (simp add: write_audit_def)

lemma getUser_Inr [res_simps]: "getUser db i = Inr u \<longleftrightarrow> find_user db i = Some u"
  by (simp add: getUser_def res_simps)

text \<open>The limit a user has set.\<close>

definition limit_of :: "user \<Rightarrow> (SpendPeriod \<times> int) option" where
  "limit_of u = (case (u_spendLimitPeriod u, u_spendLimitCapNgn u) of (Some p, Some c) \<Rightarrow> Some (p, c) | _ \<Rightarrow> None)"

text \<open>Every operation of the account that changes a user, at any time.\<close>

inductive account_step :: "db \<Rightarrow> db \<Rightarrow> bool" where
  as_profile: "updateProfile (env :: env) i dn em keys db = Inr (r, db') \<Longrightarrow> account_step db db'"
| as_notifications: "updateNotifications i sms push em db = Inr (r, db') \<Longrightarrow> account_step db db'"
| as_limit: "setSpendLimit (env :: env) i p cap db = Inr (r, db') \<Longrightarrow> account_step db db'"
| as_remove: "removeSpendLimit i db = Inr (r, db') \<Longrightarrow> account_step db db'"
| as_break: "takeBreak (env :: env) i days db = Inr (r, db') \<Longrightarrow> account_step db db'"
| as_bank: "setBank (env :: env) resolve i no code db = Inr (r, db') \<Longrightarrow> account_step db db'"

text \<open>What a step does to the users: one row is rewritten, and a live limit is not loosened in it.\<close>

definition tightens :: "user \<Rightarrow> user \<Rightarrow> bool" where
  "tightens u u' \<longleftrightarrow> u_userId u' = u_userId u \<and> u_phoneNumber u' = u_phoneNumber u \<and>
     (\<forall>p c. limit_of u = Some (p, c) \<longrightarrow> (\<exists>p' c'. limit_of u' = Some (p', c') \<and> (p' = p \<longrightarrow> c' \<le> c)))"

lemma tightens_same:
  "u_userId u' = u_userId u \<Longrightarrow> u_phoneNumber u' = u_phoneNumber u \<Longrightarrow> limit_of u' = limit_of u \<Longrightarrow> tightens u u'"
  by (simp add: tightens_def)

lemma update_where_tightens:
  assumes "\<And>u. u \<in> set us \<Longrightarrow> P u \<Longrightarrow> tightens u (f u)" "u \<in> set us"
  shows "\<exists>u'\<in>set (update_where P f us). tightens u u'"
  using assms by (cases "P u") (force simp: set_update_where tightens_same intro: tightens_same)+

lemma setSpendLimit_tightens:
  assumes "setSpendLimit env i p cap db = Inr (r, db')" "distinct (map u_userId (users db))" "u \<in> set (users db)"
  shows "\<exists>u'\<in>set (users db'). tightens u u'"
proof -
  obtain cur q where c: "find_user db i = Some cur" "p = Period q"
    "u_spendLimitPeriod cur = Some q \<longrightarrow> (\<forall>c. u_spendLimitCapNgn cur = Some c \<longrightarrow> \<not> c < cap)"
    and db': "users db' = update_where (\<lambda>u. u_userId u = i)
      (\<lambda>u. u\<lparr>u_spendLimitPeriod := Some q, u_spendLimitCapNgn := Some cap\<rparr>) (users db)"
    using assms(1) by (fastforce simp: setSpendLimit_def res_simps split: if_splits limit_period.splits option.splits)
  have cur: "cur \<in> set (users db)" "u_userId cur = i" using c(1) find_Some_set by (fastforce simp: find_user_def)+
  show ?thesis unfolding db'
  proof (rule update_where_tightens [OF _ assms(3)])
    fix v assume v: "v \<in> set (users db)" "u_userId v = i"
    then have "v = cur" using distinct_key_eq [OF assms(2)] cur by metis
    then show "tightens v (v\<lparr>u_spendLimitPeriod := Some q, u_spendLimitCapNgn := Some cap\<rparr>)"
      using c(3) by (auto simp: tightens_def limit_of_def split: option.splits)
  qed
qed



text \<open>The rule holds per call and per period only: through the other period a customer can raise it.\<close>

definition ex_limits :: "(SpendPeriod \<times> int) list \<Rightarrow> db res" where
  "ex_limits ls = foldl (\<lambda>m (p, c). bind_res m (\<lambda>db.
     bind_res (setSpendLimit ex_env ''u'' (Period p) c db) (\<lambda>(_, db'). Inr db'))) (Inr ex_wallet_db) ls"

lemma spend_limit_loophole:
  "(case ex_limits [(WEEKLY, 500), (WEEKLY, 9000)] of Inl e \<Rightarrow> True | Inr db \<Rightarrow> False) \<and>
   (case ex_limits [(WEEKLY, 500), (MONTHLY, 9000), (WEEKLY, 9000)] of
      Inl e \<Rightarrow> False
    | Inr db \<Rightarrow> map limit_of (users db) = [Some (WEEKLY, 9000), None])"
  by code_simp


end
