(* ===== verification/Jackpot.thy ===== *)
theory Jackpot
  imports Schema
begin

text \<open>
  \<open>apps/api/src/payments/jackpot-accumulation.service.ts\<close>: every ten tickets of the daily draw
  that one phone number buys within the cycle of a Saturday jackpot unlock one offer to buy a
  jackpot ticket at a discount. The service runs inside the transaction of the purchase.
\<close>

definition TICKETS_PER_DISCOUNT_OFFER :: nat where
  "TICKETS_PER_DISCOUNT_OFFER = 10"

definition JACKPOT_DISCOUNT_PRICE_NGN :: int where
  "JACKPOT_DISCOUNT_PRICE_NGN = 500"

definition ticketsToNextOffer :: "nat \<Rightarrow> nat" where
  "ticketsToNextOffer weeklyTicketCount =
     (let remainder = weeklyTicketCount mod TICKETS_PER_DISCOUNT_OFFER in
      if remainder = 0 then TICKETS_PER_DISCOUNT_OFFER else TICKETS_PER_DISCOUNT_OFFER - remainder)"

record record_params =
  rp_buyerPhone :: string
  rp_buyerUserId :: "string option"
  rp_ticketCount :: nat
  rp_sourcePaymentTxnId :: "string option"
  rp_sourceWalletPurchaseId :: "string option"

record offer_summary =
  os_offerId :: string
  os_jackpotDrawId :: string
  os_thresholdNumber :: nat
  os_regularTicketsAtUnlock :: nat
  os_originalPriceNgn :: int
  os_offerPriceNgn :: int
  os_status :: JackpotDiscountOfferStatus
  os_issuedAt :: string
  os_expiresAt :: string

record offer_unlock =
  ou_accumId :: string
  ou_buyerPhone :: string
  ou_offersUnlocked :: nat
  ou_latestOffer :: "offer_summary option"
  ou_weeklyTicketCount :: nat
  ou_ticketsToNextOffer :: nat
  ou_jackpotDrawId :: string
  ou_jackpotDrawCode :: string
  ou_jackpotScheduledAt :: string

text \<open>The open jackpot with the earliest schedule.\<close>

definition open_jackpot :: "'a env_scheme \<Rightarrow> db \<Rightarrow> draw option" where
  "open_jackpot env db =
     (case js_sort (\<lambda>a b. d_scheduledAt a - d_scheduledAt b)
        (filter (\<lambda>d. d_drawType d = SATURDAY_JACKPOT \<and> d_status d = DS_ACTIVE \<and> d_cutoffAt d > e_now env)
          (draws db)) of
        [] \<Rightarrow> None
      | d # _ \<Rightarrow> Some d)"

definition find_accumulation :: "db \<Rightarrow> string \<Rightarrow> jackpot_accumulation option" where
  "find_accumulation db phone = find (\<lambda>a. ja_buyerPhone a = phone) (accumulations db)"

text \<open>\<open>upsert({ where: { buyerPhone }, create, update })\<close>.\<close>

definition upsert_accumulation ::
  "'a env_scheme \<Rightarrow> string \<Rightarrow> jackpot_accumulation \<Rightarrow> (jackpot_accumulation \<Rightarrow> jackpot_accumulation) \<Rightarrow> db
    \<Rightarrow> jackpot_accumulation \<times> db" where
  "upsert_accumulation env phone row upd db =
     (case find_accumulation db phone of
        None \<Rightarrow> (let a = row\<lparr>ja_accumId := e_uuid env (seq db)\<rparr> in
          (a, db\<lparr>accumulations := accumulations db @ [a], seq := seq db + 1\<rparr>))
      | Some a \<Rightarrow> (upd a, db\<lparr>accumulations := update_where (\<lambda>a. ja_buyerPhone a = phone) upd (accumulations db)\<rparr>))"

definition new_accumulation :: "'a env_scheme \<Rightarrow> record_params \<Rightarrow> nat \<Rightarrow> string option \<Rightarrow> jackpot_accumulation" where
  "new_accumulation env p cumulative cycle =
     \<lparr>ja_accumId = [], ja_buyerPhone = rp_buyerPhone p, ja_buyerUserId = rp_buyerUserId p,
      ja_cumulativeCount = cumulative, ja_jackpotEntriesTotal = 0, ja_cycleDrawId = cycle,
      ja_lifetimeTicketCount = rp_ticketCount p, ja_lastTicketAt = e_now env\<rparr>"

text \<open>What every update does: the lifetime count, the time and, when known, the user.\<close>

definition count_tickets :: "'a env_scheme \<Rightarrow> record_params \<Rightarrow> jackpot_accumulation \<Rightarrow> jackpot_accumulation" where
  "count_tickets env p a = a\<lparr>
     ja_lifetimeTicketCount := ja_lifetimeTicketCount a + rp_ticketCount p,
     ja_lastTicketAt := e_now env,
     ja_buyerUserId := (case rp_buyerUserId p of Some u \<Rightarrow> (if u = [] then ja_buyerUserId a else Some u)
       | None \<Rightarrow> ja_buyerUserId a)\<rparr>"

text \<open>
  \<open>createMany\<close> with \<open>skipDuplicates\<close>: a row that would break a unique index (the id, or phone, draw
  and threshold) is skipped.
\<close>

definition offer_exists :: "string \<Rightarrow> string \<Rightarrow> nat \<Rightarrow> db \<Rightarrow> bool" where
  "offer_exists phone drawId n db \<longleftrightarrow> (\<exists>x\<in>set (offers db).
     jo_buyerPhone x = phone \<and> jo_jackpotDrawId x = drawId \<and> jo_thresholdNumber x = n)"

definition offer_row :: "'a env_scheme \<Rightarrow> record_params \<Rightarrow> draw \<Rightarrow> nat \<Rightarrow> string \<Rightarrow> jackpot_discount_offer" where
  "offer_row env p jackpotDraw thresholdNumber offerId =
     \<lparr>jo_offerId = offerId, jo_buyerPhone = rp_buyerPhone p, jo_buyerUserId = rp_buyerUserId p,
      jo_jackpotDrawId = d_drawId jackpotDraw,
      jo_unlockedByPaymentTxnId = rp_sourcePaymentTxnId p,
      jo_unlockedByWalletPurchaseId = rp_sourceWalletPurchaseId p,
      jo_thresholdNumber = thresholdNumber,
      jo_regularTicketsAtUnlock = thresholdNumber * TICKETS_PER_DISCOUNT_OFFER,
      jo_originalPriceNgn = d_ticketPriceNgn jackpotDraw, jo_offerPriceNgn = JACKPOT_DISCOUNT_PRICE_NGN,
      jo_status = JDO_AVAILABLE, jo_issuedAt = e_now env, jo_expiresAt = d_cutoffAt jackpotDraw,
      jo_claimingAt = None, jo_claimedAt = None, jo_declinedAt = None\<rparr>"

fun create_offers :: "'a env_scheme \<Rightarrow> record_params \<Rightarrow> draw \<Rightarrow> nat list \<Rightarrow> db \<Rightarrow> nat \<times> db" where
  "create_offers env p d [] db = (0, db)"
| "create_offers env p d (n # ns) db =
     (if offer_exists (rp_buyerPhone p) (d_drawId d) n db \<or> e_uuid env (seq db) \<in> jo_offerId ` set (offers db)
      then create_offers env p d ns (db\<lparr>seq := seq db + 1\<rparr>)
      else
        let (count, db') = create_offers env p d ns
          (db\<lparr>offers := offers db @ [offer_row env p d n (e_uuid env (seq db))], seq := seq db + 1\<rparr>)
        in (count + 1, db'))"

definition summarize_offer :: "jackpot_discount_offer \<Rightarrow> offer_summary" where
  "summarize_offer x = \<lparr>os_offerId = jo_offerId x, os_jackpotDrawId = jo_jackpotDrawId x,
     os_thresholdNumber = jo_thresholdNumber x, os_regularTicketsAtUnlock = jo_regularTicketsAtUnlock x,
     os_originalPriceNgn = jo_originalPriceNgn x, os_offerPriceNgn = jo_offerPriceNgn x,
     os_status = jo_status x, os_issuedAt = to_iso_string (jo_issuedAt x),
     os_expiresAt = to_iso_string (jo_expiresAt x)\<rparr>"

definition latest_offer :: "'a env_scheme \<Rightarrow> string \<Rightarrow> string \<Rightarrow> nat list \<Rightarrow> db \<Rightarrow> jackpot_discount_offer option" where
  "latest_offer env phone drawId ns db =
     (case js_sort (\<lambda>a b. int (jo_thresholdNumber b) - int (jo_thresholdNumber a))
        (filter (\<lambda>x. jo_buyerPhone x = phone \<and> jo_jackpotDrawId x = drawId \<and>
          jo_thresholdNumber x \<in> set ns \<and> jo_issuedAt x = e_now env) (offers db)) of
        [] \<Rightarrow> None
      | x # _ \<Rightarrow> Some x)"

definition threshold_numbers :: "nat \<Rightarrow> nat \<Rightarrow> nat list" where
  "threshold_numbers previousCount currentCount =
     (let previousThreshold = previousCount div TICKETS_PER_DISCOUNT_OFFER;
          currentThreshold = currentCount div TICKETS_PER_DISCOUNT_OFFER in
      if currentThreshold > previousThreshold
      then map (\<lambda>index. previousThreshold + index + 1) [0..<currentThreshold - previousThreshold] else [])"

definition recordDailyPurchase :: "'a env_scheme \<Rightarrow> record_params \<Rightarrow> db \<Rightarrow> (offer_unlock option \<times> db) res" where
  "recordDailyPurchase env p db =
     (let phone = rp_buyerPhone p; existing = find_accumulation db phone in
      case open_jackpot env db of
        None \<Rightarrow>
          (let (_, db1) = upsert_accumulation env phone (new_accumulation env p 0 None) (count_tickets env p) db in
           Inr (None, db1))
      | Some d \<Rightarrow>
          (let sameCycle = (case existing of None \<Rightarrow> False | Some a \<Rightarrow> ja_cycleDrawId a = Some (d_drawId d));
               previousCycleCount = (if sameCycle then (case existing of None \<Rightarrow> 0 | Some a \<Rightarrow> ja_cumulativeCount a) else 0);
               (accum, db1) = upsert_accumulation env phone
                 (new_accumulation env p (rp_ticketCount p) (Some (d_drawId d)))
                 (if sameCycle
                  then (\<lambda>a. count_tickets env p (a\<lparr>ja_cumulativeCount := ja_cumulativeCount a + rp_ticketCount p\<rparr>))
                  else (\<lambda>a. count_tickets env p (a\<lparr>ja_cumulativeCount := rp_ticketCount p,
                    ja_jackpotEntriesTotal := 0, ja_cycleDrawId := Some (d_drawId d)\<rparr>))) db;
               ns = threshold_numbers previousCycleCount (ja_cumulativeCount accum);
               (offersUnlocked, db2) = create_offers env p d ns db1;
               latest = (if offersUnlocked > 0 then latest_offer env phone (d_drawId d) ns db2 else None) in
           if offersUnlocked > 0 \<and> latest = None
           then Inl (JsError ''Jackpot discount offer was created but could not be reloaded'')
           else Inr (Some
             \<lparr>ou_accumId = ja_accumId accum, ou_buyerPhone = phone, ou_offersUnlocked = offersUnlocked,
              ou_latestOffer = map_option summarize_offer latest,
              ou_weeklyTicketCount = ja_cumulativeCount accum,
              ou_ticketsToNextOffer = ticketsToNextOffer (ja_cumulativeCount accum),
              ou_jackpotDrawId = d_drawId d, ou_jackpotDrawCode = d_drawCode d,
              ou_jackpotScheduledAt = to_iso_string (d_scheduledAt d)\<rparr>, db2)))"

end
