(* ===== verification/Jackpot_Offers.thy ===== *)
theory Jackpot_Offers
  imports Jackpot
begin

text \<open>
  \<open>apps/api/src/payments/jackpot-offers.service.ts\<close>: the life of a discount offer. A customer
  lists, reserves, releases and declines offers; a purchase reserves an offer, and marks it
  claimed in the transaction that issues the ticket. The transactions of \<open>reserve\<close>, \<open>release\<close>
  and \<open>decline\<close> run at the default isolation level: between their read and their guarded
  update other transactions may commit. What those do is the argument \<open>race\<close>.
\<close>

definition CLAIM_RESERVATION_MS :: int where
  "CLAIM_RESERVATION_MS = 15 * 60 * 1000"

definition ACTIVE_PAYMENT_STATUSES :: "PaymentStatus list" where
  "ACTIVE_PAYMENT_STATUSES = [PS_PENDING, PS_CONFIRMED, PS_REVIEW_REQUIRED, PS_REFUND_PENDING]"

definition ACTIVE_WALLET_PURCHASE_STATUSES :: "WalletPurchaseStatus list" where
  "ACTIVE_WALLET_PURCHASE_STATUSES = [WPS_PENDING, WPS_COMPLETED]"

primrec offer_status_str :: "JackpotDiscountOfferStatus \<Rightarrow> string" where
  "offer_status_str JDO_AVAILABLE = ''AVAILABLE''"
| "offer_status_str JDO_CLAIMING = ''CLAIMING''"
| "offer_status_str JDO_CLAIMED = ''CLAIMED''"
| "offer_status_str JDO_DECLINED = ''DECLINED''"
| "offer_status_str JDO_EXPIRED = ''EXPIRED''"

text \<open>The signed-in customer, and an offer with its draw.\<close>

record customer_jwt =
  cj_sub :: string
  cj_phoneNumber :: string

type_synonym offer_with_draw = "jackpot_discount_offer \<times> draw"

definition find_offer :: "db \<Rightarrow> string \<Rightarrow> jackpot_discount_offer option" where
  "find_offer db offerId = find (\<lambda>x. jo_offerId x = offerId) (offers db)"

text \<open>\<open>include: offerInclude\<close>; the relation is required, so Prisma throws when it is missing.\<close>

definition with_draw :: "db \<Rightarrow> jackpot_discount_offer \<Rightarrow> offer_with_draw res" where
  "with_draw db x = bind_res (from_option (JsError ''Inconsistent query result'')
     (find (\<lambda>d. d_drawId d = jo_jackpotDrawId x) (draws db))) (\<lambda>d. Inr (x, d))"

definition update_offer ::
  "string \<Rightarrow> (jackpot_discount_offer \<Rightarrow> jackpot_discount_offer) \<Rightarrow> db \<Rightarrow> (offer_with_draw \<times> db) res" where
  "update_offer offerId upd db =
     (let db' = db\<lparr>offers := update_where (\<lambda>x. jo_offerId x = offerId) upd (offers db)\<rparr> in
      bind_res (from_option (PrismaError ''P2025'') (find_offer db' offerId)) (\<lambda>x.
      bind_res (with_draw db' x) (\<lambda>xd. Inr (xd, db'))))"

section \<open>Helpers\<close>

text \<open>\<open>none: { status: { in: ACTIVE } }\<close> over both relations, and the count of both.\<close>

definition hasActivePurchaseAttemptInTransaction :: "db \<Rightarrow> string \<Rightarrow> bool" where
  "hasActivePurchaseAttemptInTransaction db offerId \<longleftrightarrow>
     length (filter (\<lambda>p. pt_jackpotDiscountOfferId p = Some offerId \<and> pt_status p \<in> set ACTIVE_PAYMENT_STATUSES)
       (payments db)) > 0 \<or>
     length (filter (\<lambda>p. wp_jackpotDiscountOfferId p = Some offerId \<and>
       wp_status p \<in> set ACTIVE_WALLET_PURCHASE_STATUSES) (walletPurchases db)) > 0"

definition owned :: "customer_jwt \<Rightarrow> jackpot_discount_offer \<Rightarrow> bool" where
  "owned user x \<longleftrightarrow> jo_buyerPhone x = cj_phoneNumber user \<and> jo_buyerUserId x = Some (cj_sub user)"

definition normalizeCustomerOffers :: "'a env_scheme \<Rightarrow> customer_jwt \<Rightarrow> db \<Rightarrow> db" where
  "normalizeCustomerOffers env user db =
     (let now = e_now env;
          bind = update_where (\<lambda>x. jo_buyerPhone x = cj_phoneNumber user \<and> jo_buyerUserId x = None)
            (\<lambda>x. x\<lparr>jo_buyerUserId := Some (cj_sub user)\<rparr>);
          expire = update_where (\<lambda>x. owned user x \<and> jo_status x \<in> {JDO_AVAILABLE, JDO_CLAIMING} \<and>
              jo_expiresAt x \<le> now \<and> \<not> hasActivePurchaseAttemptInTransaction db (jo_offerId x))
            (\<lambda>x. x\<lparr>jo_status := JDO_EXPIRED, jo_claimingAt := None\<rparr>);
          staleBefore = now - CLAIM_RESERVATION_MS;
          unstale = update_where (\<lambda>x. owned user x \<and> jo_status x = JDO_CLAIMING \<and> now < jo_expiresAt x \<and>
              (case jo_claimingAt x of None \<Rightarrow> True | Some t \<Rightarrow> t \<le> staleBefore) \<and>
              \<not> hasActivePurchaseAttemptInTransaction db (jo_offerId x))
            (\<lambda>x. x\<lparr>jo_status := JDO_AVAILABLE, jo_claimingAt := None\<rparr>)
      in db\<lparr>offers := unstale (expire (bind (offers db)))\<rparr>)"

definition findOwnedOffer :: "db \<Rightarrow> customer_jwt \<Rightarrow> string \<Rightarrow> offer_with_draw res" where
  "findOwnedOffer db user offerId =
     bind_res (from_option (NotFoundException ''Jackpot offer not found'')
       (find (\<lambda>x. jo_offerId x = offerId \<and> owned user x) (offers db))) (with_draw db)"

definition ensureNotExpired :: "'a env_scheme \<Rightarrow> jackpot_discount_offer \<Rightarrow> unit res" where
  "ensureNotExpired env x =
     (if jo_status x = JDO_EXPIRED \<or> jo_expiresAt x \<le> e_now env
      then Inl (ConflictException ''Jackpot offer has expired'') else Inr ())"

fun unavailableMessage :: "JackpotDiscountOfferStatus \<Rightarrow> string" where
  "unavailableMessage JDO_CLAIMED = ''Jackpot offer has already been claimed''"
| "unavailableMessage JDO_DECLINED = ''Jackpot offer has been declined''"
| "unavailableMessage JDO_EXPIRED = ''Jackpot offer has expired''"
| "unavailableMessage JDO_CLAIMING = ''Jackpot offer checkout is already in progress''"
| "unavailableMessage JDO_AVAILABLE = ''Jackpot offer is not available''"

record offer_view =
  ov_offerId :: string
  ov_jackpotDrawId :: string
  ov_jackpotDrawCode :: string
  ov_jackpotScheduledAt :: string
  ov_thresholdNumber :: nat
  ov_regularTicketsAtUnlock :: nat
  ov_originalPriceNgn :: int
  ov_offerPriceNgn :: int
  ov_status :: JackpotDiscountOfferStatus
  ov_issuedAt :: string
  ov_expiresAt :: string
  ov_claimingAt :: "string option"
  ov_reservationExpiresAt :: "string option"
  ov_claimedAt :: "string option"
  ov_declinedAt :: "string option"

definition offer_toView :: "offer_with_draw \<Rightarrow> offer_view" where
  "offer_toView xd = (case xd of (x, d) \<Rightarrow>
     \<lparr>ov_offerId = jo_offerId x, ov_jackpotDrawId = jo_jackpotDrawId x, ov_jackpotDrawCode = d_drawCode d,
      ov_jackpotScheduledAt = to_iso_string (d_scheduledAt d), ov_thresholdNumber = jo_thresholdNumber x,
      ov_regularTicketsAtUnlock = jo_regularTicketsAtUnlock x, ov_originalPriceNgn = jo_originalPriceNgn x,
      ov_offerPriceNgn = jo_offerPriceNgn x, ov_status = jo_status x,
      ov_issuedAt = to_iso_string (jo_issuedAt x), ov_expiresAt = to_iso_string (jo_expiresAt x),
      ov_claimingAt = map_option to_iso_string (jo_claimingAt x),
      ov_reservationExpiresAt = (if jo_status x = JDO_CLAIMING
        then map_option (\<lambda>t. to_iso_string (min (t + CLAIM_RESERVATION_MS) (jo_expiresAt x))) (jo_claimingAt x)
        else None),
      ov_claimedAt = map_option to_iso_string (jo_claimedAt x),
      ov_declinedAt = map_option to_iso_string (jo_declinedAt x)\<rparr>)"

section \<open>Reading\<close>

record weekly_progress =
  wk_promotionActive :: bool
  wk_jackpotDrawCode :: "string option"
  wk_jackpotScheduledAt :: "string option"
  wk_weeklyTicketCount :: nat
  wk_completedThresholds :: nat
  wk_ticketsToNextOffer :: nat
  wk_availableOfferCount :: nat

definition progress :: "'a env_scheme \<Rightarrow> customer_jwt \<Rightarrow> db \<Rightarrow> weekly_progress" where
  "progress env user db =
     (case open_jackpot env db of
        None \<Rightarrow>
          \<lparr>wk_promotionActive = False, wk_jackpotDrawCode = None, wk_jackpotScheduledAt = None,
           wk_weeklyTicketCount = 0, wk_completedThresholds = 0,
           wk_ticketsToNextOffer = TICKETS_PER_DISCOUNT_OFFER, wk_availableOfferCount = 0\<rparr>
      | Some d \<Rightarrow>
          (let weeklyTicketCount = (case find_accumulation db (cj_phoneNumber user) of
                 None \<Rightarrow> 0
               | Some a \<Rightarrow> (if ja_cycleDrawId a = Some (d_drawId d) then ja_cumulativeCount a else 0));
               remainder = weeklyTicketCount mod TICKETS_PER_DISCOUNT_OFFER in
           \<lparr>wk_promotionActive = True, wk_jackpotDrawCode = Some (d_drawCode d),
            wk_jackpotScheduledAt = Some (to_iso_string (d_scheduledAt d)),
            wk_weeklyTicketCount = weeklyTicketCount,
            wk_completedThresholds = weeklyTicketCount div TICKETS_PER_DISCOUNT_OFFER,
            wk_ticketsToNextOffer = (if remainder = 0 then TICKETS_PER_DISCOUNT_OFFER
              else TICKETS_PER_DISCOUNT_OFFER - remainder),
            wk_availableOfferCount = length (filter (\<lambda>x. jo_buyerPhone x = cj_phoneNumber user \<and>
              jo_jackpotDrawId x = d_drawId d \<and> jo_status x = JDO_AVAILABLE \<and> e_now env < jo_expiresAt x)
              (offers db))\<rparr>))"

fun collect :: "('a \<Rightarrow> 'b res) \<Rightarrow> 'a list \<Rightarrow> 'b list res" where
  "collect f [] = Inr []"
| "collect f (x # xs) = bind_res (f x) (\<lambda>y. bind_res (collect f xs) (\<lambda>ys. Inr (y # ys)))"

definition current_offers :: "'a env_scheme \<Rightarrow> customer_jwt \<Rightarrow> db \<Rightarrow> (offer_view list \<times> db) res" where
  "current_offers env user db =
     (let db' = normalizeCustomerOffers env user db;
          xs = js_sort (\<lambda>a b. if jo_expiresAt a \<noteq> jo_expiresAt b then jo_expiresAt a - jo_expiresAt b
                 else int (jo_thresholdNumber a) - int (jo_thresholdNumber b))
            (filter (\<lambda>x. owned user x \<and> jo_status x \<in> {JDO_AVAILABLE, JDO_CLAIMING} \<and> e_now env < jo_expiresAt x)
              (offers db')) in
      bind_res (collect (with_draw db') xs) (\<lambda>ys. Inr (map offer_toView ys, db')))"

definition get_offer :: "'a env_scheme \<Rightarrow> customer_jwt \<Rightarrow> string \<Rightarrow> db \<Rightarrow> (offer_view \<times> db) res" where
  "get_offer env user offerId db =
     (let db' = normalizeCustomerOffers env user db in
      bind_res (findOwnedOffer db' user offerId) (\<lambda>xd. Inr (offer_toView xd, db')))"


section \<open>Reserve, release, decline\<close>

text \<open>
  The end that the three share: \<open>updateMany\<close> under the ownership and \<open>guard\<close>; when no row
  matched any more, the offer is read again, rechecked, and returned if somebody else already
  brought it to \<open>target\<close>. The flag says whether this call made the transition.
\<close>

definition switch_offer ::
  "customer_jwt \<Rightarrow> string \<Rightarrow> (jackpot_discount_offer \<Rightarrow> bool) \<Rightarrow> (jackpot_discount_offer \<Rightarrow> jackpot_discount_offer)
    \<Rightarrow> JackpotDiscountOfferStatus \<Rightarrow> (jackpot_discount_offer \<Rightarrow> unit res) \<Rightarrow> db
    \<Rightarrow> ((offer_with_draw \<times> bool) \<times> db) res" where
  "switch_offer user offerId guard upd target recheck db =
     (if \<exists>x\<in>set (offers db). jo_offerId x = offerId \<and> owned user x \<and> guard x then
        let db' = db\<lparr>offers := update_where (\<lambda>x. jo_offerId x = offerId \<and> owned user x \<and> guard x) upd (offers db)\<rparr> in
        bind_res (findOwnedOffer db' user offerId) (\<lambda>offer. Inr ((offer, True), db'))
      else
        bind_res (findOwnedOffer db user offerId) (\<lambda>offer.
        bind_res (recheck (fst offer)) (\<lambda>_.
        if jo_status (fst offer) \<noteq> target then Inl (ConflictException (unavailableMessage (jo_status (fst offer))))
        else Inr ((offer, False), db))))"

definition offer_audit :: "string \<Rightarrow> string \<Rightarrow> string \<Rightarrow> audit_log" where
  "offer_audit action sub offerId =
     \<lparr>al_severity = SEV_INFO, al_actorType = ACTOR_CUSTOMER, al_actorId = Some sub, al_action = action,
      al_resourceType = ''JackpotDiscountOffer'', al_resourceId = offerId, al_metadata = JNull, al_signature = None\<rparr>"

text \<open>After the transaction: the audit record of a transition, and the view.\<close>

definition offer_answer ::
  "'a env_scheme \<Rightarrow> customer_jwt \<Rightarrow> string \<Rightarrow> bool \<Rightarrow> (offer_with_draw \<times> bool) \<times> db \<Rightarrow> (offer_view \<times> db) res" where
  "offer_answer env user action withPrice r =
     (let ((offer, transitioned), db) = r; x = fst offer in
      Inr (offer_toView offer,
        if transitioned then write_audit env (offer_audit action (cj_sub user) (jo_offerId x))
          ([(''jackpotDrawId'', JStr (jo_jackpotDrawId x)), (''thresholdNumber'', JNum (int (jo_thresholdNumber x)))]
            @ (if withPrice then [(''offerPriceNgn'', JNum (jo_offerPriceNgn x))] else [])) db
        else db))"

definition reserve :: "'a env_scheme \<Rightarrow> (db \<Rightarrow> db) \<Rightarrow> customer_jwt \<Rightarrow> string \<Rightarrow> db \<Rightarrow> (offer_view \<times> db) res" where
  "reserve env race user offerId db0 =
     (let db = normalizeCustomerOffers env user db0 in
      bind_res (findOwnedOffer db user offerId) (\<lambda>offer.
      bind_res (ensureNotExpired env (fst offer)) (\<lambda>_.
      bind_res
        (if jo_status (fst offer) = JDO_CLAIMING then Inr ((offer, False), db)
         else if jo_status (fst offer) \<noteq> JDO_AVAILABLE then
           Inl (ConflictException (unavailableMessage (jo_status (fst offer))))
         else switch_offer user offerId (\<lambda>x. jo_status x = JDO_AVAILABLE \<and> e_now env < jo_expiresAt x)
           (\<lambda>x. x\<lparr>jo_status := JDO_CLAIMING, jo_claimingAt := Some (e_now env)\<rparr>) JDO_CLAIMING
           (ensureNotExpired env) (race db))
        (offer_answer env user ''JACKPOT_DISCOUNT_OFFER_RESERVED'' True))))"

definition release :: "'a env_scheme \<Rightarrow> (db \<Rightarrow> db) \<Rightarrow> customer_jwt \<Rightarrow> string \<Rightarrow> db \<Rightarrow> (offer_view \<times> db) res" where
  "release env race user offerId db0 =
     (let db = normalizeCustomerOffers env user db0 in
      bind_res (findOwnedOffer db user offerId) (\<lambda>offer.
      bind_res (ensureNotExpired env (fst offer)) (\<lambda>_.
      bind_res
        (if jo_status (fst offer) = JDO_AVAILABLE then Inr ((offer, False), db)
         else if jo_status (fst offer) \<noteq> JDO_CLAIMING then
           Inl (ConflictException (unavailableMessage (jo_status (fst offer))))
         else if hasActivePurchaseAttemptInTransaction db offerId then
           Inl (ConflictException ''Jackpot offer has an active payment attempt'')
         else switch_offer user offerId (\<lambda>x. jo_status x = JDO_CLAIMING)
           (\<lambda>x. x\<lparr>jo_status := JDO_AVAILABLE, jo_claimingAt := None\<rparr>) JDO_AVAILABLE (\<lambda>_. Inr ()) (race db))
        (offer_answer env user ''JACKPOT_DISCOUNT_OFFER_RELEASED'' False))))"

definition decline :: "'a env_scheme \<Rightarrow> (db \<Rightarrow> db) \<Rightarrow> customer_jwt \<Rightarrow> string \<Rightarrow> db \<Rightarrow> (offer_view \<times> db) res" where
  "decline env race user offerId db0 =
     (let db = normalizeCustomerOffers env user db0 in
      bind_res (findOwnedOffer db user offerId) (\<lambda>offer.
      bind_res (ensureNotExpired env (fst offer)) (\<lambda>_.
      bind_res
        (if jo_status (fst offer) = JDO_DECLINED then Inr ((offer, False), db)
         else if jo_status (fst offer) = JDO_CLAIMING then
           Inl (ConflictException ''Jackpot offer checkout is already in progress'')
         else if jo_status (fst offer) \<noteq> JDO_AVAILABLE then
           Inl (ConflictException (unavailableMessage (jo_status (fst offer))))
         else switch_offer user offerId (\<lambda>x. jo_status x = JDO_AVAILABLE \<and> e_now env < jo_expiresAt x)
           (\<lambda>x. x\<lparr>jo_status := JDO_DECLINED, jo_claimingAt := None, jo_declinedAt := Some (e_now env)\<rparr>) JDO_DECLINED
           (\<lambda>_. Inr ()) (race db))
        (offer_answer env user ''JACKPOT_DISCOUNT_OFFER_DECLINED'' False))))"

section \<open>Guests\<close>

text \<open>The pattern \<open>^SW-PAY-[0-9a-f-]{36}$\<close>, letters in either case.\<close>

definition is_pay_reference :: "string \<Rightarrow> bool" where
  "is_pay_reference s \<longleftrightarrow> js_upper (take 7 s) = ''SW-PAY-'' \<and> length s = 43 \<and>
     list_all (\<lambda>c. c = CHR ''-'' \<or> (let n = of_char c :: nat in
       48 \<le> n \<and> n \<le> 57 \<or> 65 \<le> n \<and> n \<le> 70 \<or> 97 \<le> n \<and> n \<le> 102)) (drop 7 s)"

definition declineFromPurchaseReference ::
  "'a env_scheme \<Rightarrow> (db \<Rightarrow> db) \<Rightarrow> string \<Rightarrow> string \<Rightarrow> db \<Rightarrow> (unit \<times> db) res" where
  "declineFromPurchaseReference env race offerId reference db =
     (if \<not> is_pay_reference reference then Inl (NotFoundException ''Purchase not found'')
      else case find (\<lambda>p. pt_gatewayReference p = reference) (payments db) of
        None \<Rightarrow> Inl (NotFoundException ''Purchase not found'')
      | Some txn \<Rightarrow>
          if pt_status txn \<noteq> PS_CONFIRMED \<or> pt_pricingContext txn \<noteq> NORMAL then
            Inl (NotFoundException ''Purchase not found'')
          else
            let mine = (\<lambda>x. jo_offerId x = offerId \<and> jo_unlockedByPaymentTxnId x = Some (pt_txnId txn) \<and>
                  jo_buyerPhone x = pt_buyerPhone txn) in
            case find mine (offers db) of
              None \<Rightarrow> Inl (NotFoundException ''Jackpot offer not found'')
            | Some x \<Rightarrow>
                if jo_status x = JDO_DECLINED then Inr ((), db)
                else if jo_status x \<noteq> JDO_AVAILABLE \<or> jo_expiresAt x \<le> e_now env then
                  Inl (ConflictException ''This jackpot offer is no longer available to decline'')
                else
                  let cur = race db;
                      hit = (\<lambda>x. mine x \<and> jo_status x = JDO_AVAILABLE \<and> e_now env < jo_expiresAt x) in
                  if length (filter hit (offers cur)) \<noteq> 1 then
                    Inl (ConflictException ''Jackpot offer changed while declining'')
                  else Inr ((), cur\<lparr>offers := update_where hit
                    (\<lambda>x. x\<lparr>jo_status := JDO_DECLINED, jo_declinedAt := Some (e_now env)\<rparr>) (offers cur)\<rparr>))"

section \<open>Inside a purchase\<close>

definition reserveForPurchaseInTransaction ::
  "'a env_scheme \<Rightarrow> customer_jwt \<Rightarrow> string \<Rightarrow> db \<Rightarrow> (offer_with_draw \<times> db) res" where
  "reserveForPurchaseInTransaction env user offerId db =
     (case find_offer db offerId of
        None \<Rightarrow> Inl (NotFoundException ''Jackpot offer not found'')
      | Some locked \<Rightarrow>
          bind_res (with_draw db locked) (\<lambda>offer.
          if jo_buyerPhone locked \<noteq> cj_phoneNumber user \<or>
             (jo_buyerUserId locked \<noteq> None \<and> jo_buyerUserId locked \<noteq> Some (cj_sub user))
          then Inl (NotFoundException ''Jackpot offer not found'')
          else
            bind_res
              (if jo_buyerUserId locked = None
               then update_offer offerId (\<lambda>x. x\<lparr>jo_buyerUserId := Some (cj_sub user)\<rparr>) db
               else Inr (offer, db)) (\<lambda>((x, d), db1).
            bind_res (ensureNotExpired env x) (\<lambda>_.
            if d_drawType d \<noteq> SATURDAY_JACKPOT \<or> d_status d \<noteq> DS_ACTIVE \<or> d_cutoffAt d \<le> e_now env then
              Inl (ConflictException ''Jackpot offer draw is not open for promotional purchase'')
            else if jo_status x = JDO_AVAILABLE then
              update_offer offerId (\<lambda>x. x\<lparr>jo_status := JDO_CLAIMING, jo_claimingAt := Some (e_now env)\<rparr>) db1
            else if jo_status x \<noteq> JDO_CLAIMING then
              Inl (ConflictException (unavailableMessage (jo_status x)))
            else
              let activeAttempt = hasActivePurchaseAttemptInTransaction db1 offerId;
                  stale = (case jo_claimingAt x of None \<Rightarrow> True
                    | Some t \<Rightarrow> t \<le> e_now env - CLAIM_RESERVATION_MS) in
              if stale \<and> \<not> activeAttempt
              then update_offer offerId (\<lambda>x. x\<lparr>jo_claimingAt := Some (e_now env)\<rparr>) db1
              else Inr ((x, d), db1)))))"

record promo_payment =
  pp_offerId :: "string option"
  pp_buyerPhone :: string
  pp_buyerUserId :: "string option"
  pp_purchaseDrawId :: string
  pp_amountNgn :: int
  pp_ticketCount :: int
  pp_effectivePaidAt :: int

definition validatePromotionalPaymentInTransaction ::
  "promo_payment \<Rightarrow> db \<Rightarrow> (offer_with_draw option \<times> string list) res" where
  "validatePromotionalPaymentInTransaction inp db =
     (case pp_offerId inp of
        None \<Rightarrow> Inr (None, [''PROMOTIONAL_PURCHASE_MISSING_OFFER''])
      | Some offerId \<Rightarrow>
          if offerId = [] then Inr (None, [''PROMOTIONAL_PURCHASE_MISSING_OFFER''])
          else case find_offer db offerId of
            None \<Rightarrow> Inr (None, [''PROMOTIONAL_OFFER_NOT_FOUND''])
          | Some x \<Rightarrow>
              bind_res (with_draw db x) (\<lambda>(x, d).
              Inr (Some (x, d),
                (if jo_buyerPhone x \<noteq> pp_buyerPhone inp then [''PROMOTIONAL_OFFER_BUYER_PHONE_MISMATCH''] else [])
                @ (if pp_buyerUserId inp \<in> {None, Some []} \<or> jo_buyerUserId x \<noteq> pp_buyerUserId inp
                   then [''PROMOTIONAL_OFFER_BUYER_USER_MISMATCH''] else [])
                @ (if jo_jackpotDrawId x \<noteq> pp_purchaseDrawId inp then [''PROMOTIONAL_OFFER_DRAW_MISMATCH''] else [])
                @ (if jo_offerPriceNgn x \<noteq> pp_amountNgn inp then [''PROMOTIONAL_OFFER_AMOUNT_MISMATCH''] else [])
                @ (if pp_ticketCount inp \<noteq> 1 then [''PROMOTIONAL_OFFER_QUANTITY_MUST_BE_ONE''] else [])
                @ (if d_drawType d \<noteq> SATURDAY_JACKPOT then [''PROMOTIONAL_OFFER_TARGET_IS_NOT_JACKPOT''] else [])
                @ (if jo_status x \<noteq> JDO_CLAIMING
                   then [''PROMOTIONAL_OFFER_STATUS_'' @ offer_status_str (jo_status x)] else [])
                @ (if \<exists>t\<in>set (tickets db). t_jackpotDiscountOfferId t = Some (jo_offerId x)
                   then [''PROMOTIONAL_OFFER_ALREADY_HAS_TICKET''] else [])
                @ (if pp_effectivePaidAt inp \<ge> jo_expiresAt x
                   then [''PROMOTIONAL_OFFER_PAYMENT_AFTER_EXPIRY''] else []))))"

record claim_input =
  ci_offerId :: string
  ci_buyerPhone :: string
  ci_buyerUserId :: string
  ci_jackpotDrawId :: string
  ci_amountNgn :: int
  ci_claimedAt :: "int option"

definition markClaimedInTransaction :: "'a env_scheme \<Rightarrow> claim_input \<Rightarrow> db \<Rightarrow> (unit \<times> db) res" where
  "markClaimedInTransaction env inp db =
     (let hit = (\<lambda>x. jo_offerId x = ci_offerId inp \<and> jo_buyerPhone x = ci_buyerPhone inp \<and>
            jo_buyerUserId x = Some (ci_buyerUserId inp) \<and> jo_jackpotDrawId x = ci_jackpotDrawId inp \<and>
            jo_offerPriceNgn x = ci_amountNgn inp \<and> jo_status x = JDO_CLAIMING) in
      if length (filter hit (offers db)) \<noteq> 1 then Inl (ConflictException ''Jackpot offer could not be finalized'')
      else Inr ((), db\<lparr>offers := update_where hit
        (\<lambda>x. x\<lparr>jo_status := JDO_CLAIMED, jo_claimingAt := None,
          jo_claimedAt := Some (case ci_claimedAt inp of None \<Rightarrow> e_now env | Some t \<Rightarrow> t)\<rparr>) (offers db)\<rparr>))"

end
