(* ===== verification/Jackpot_Laws.thy ===== *)
theory Jackpot_Laws
  imports Jackpot_Offers Wallet_Properties
begin

text \<open>
  What the promotion promises: how offers evolve, how many a phone number can have, and that
  the offers a customer has earned are there.
\<close>

section \<open>How an offer evolves\<close>

definition offer_key :: "jackpot_discount_offer \<Rightarrow> string \<times> string \<times> nat" where
  "offer_key x = (jo_buyerPhone x, jo_jackpotDrawId x, jo_thresholdNumber x)"

definition final_status :: "JackpotDiscountOfferStatus \<Rightarrow> bool" where
  "final_status s \<longleftrightarrow> s \<in> {JDO_CLAIMED, JDO_DECLINED, JDO_EXPIRED}"

text \<open>The terms of an offer are fixed, an owner is bound once, a final status stays.\<close>

definition offer_evolves :: "jackpot_discount_offer \<Rightarrow> jackpot_discount_offer \<Rightarrow> bool" where
  "offer_evolves x y \<longleftrightarrow> jo_offerId y = jo_offerId x \<and> offer_key y = offer_key x \<and>
     jo_regularTicketsAtUnlock y = jo_regularTicketsAtUnlock x \<and>
     jo_originalPriceNgn y = jo_originalPriceNgn x \<and> jo_offerPriceNgn y = jo_offerPriceNgn x \<and>
     jo_issuedAt y = jo_issuedAt x \<and> jo_expiresAt y = jo_expiresAt x \<and>
     (jo_buyerUserId x \<noteq> None \<longrightarrow> jo_buyerUserId y = jo_buyerUserId x) \<and>
     (final_status (jo_status x) \<longrightarrow> jo_status y = jo_status x \<and> jo_claimedAt y = jo_claimedAt x \<and>
        jo_declinedAt y = jo_declinedAt x)"

lemma offer_evolves_refl [simp, intro]: "offer_evolves x x"
  by (simp add: offer_evolves_def)

lemma offer_evolves_trans: "offer_evolves x y \<Longrightarrow> offer_evolves y z \<Longrightarrow> offer_evolves x z"
  unfolding offer_evolves_def by (metis option.distinct(1))

text \<open>The rows of the offer table keep their places; new ones come at the end.\<close>

definition offers_advance :: "jackpot_discount_offer list \<Rightarrow> jackpot_discount_offer list \<Rightarrow> bool" where
  "offers_advance xs ys \<longleftrightarrow> (\<exists>us vs. ys = us @ vs \<and> list_all2 offer_evolves xs us)"

lemma list_all2_update_where:
  "(\<And>x. x \<in> set xs \<Longrightarrow> P x \<Longrightarrow> offer_evolves x (f x)) \<Longrightarrow> list_all2 offer_evolves xs (update_where P f xs)"
  by (induction xs) (auto simp: update_where_def)

lemma offers_advance_refl [simp, intro]: "offers_advance xs xs"
  unfolding offers_advance_def by (intro exI [of _ xs] exI [of _ "[]"]) (simp add: list_all2_refl)

lemma offers_advance_append [intro]: "offers_advance xs (xs @ ys)"
  unfolding offers_advance_def by (intro exI [of _ xs] exI [of _ ys]) (simp add: list_all2_refl)

lemma offers_advance_trans:
  assumes "offers_advance xs ys" "offers_advance ys zs"
  shows "offers_advance xs zs"
proof -
  obtain us vs where u: "ys = us @ vs" "list_all2 offer_evolves xs us" using assms(1) by (auto simp: offers_advance_def)
  obtain us' vs' where w: "zs = us' @ vs'" "list_all2 offer_evolves ys us'" using assms(2) by (auto simp: offers_advance_def)
  obtain as bs where ab: "us' = as @ bs" "list_all2 offer_evolves us as" using w(2) u(1) by (auto simp: list_all2_append1)
  have "list_all2 offer_evolves xs as" by (rule list_all2_trans [OF offer_evolves_trans u(2) ab(2)])
  then show ?thesis unfolding offers_advance_def using w(1) ab(1) by (intro exI [of _ as] exI [of _ "bs @ vs'"]) simp
qed

lemma offers_advance_update:
  "(\<And>x. x \<in> set xs \<Longrightarrow> P x \<Longrightarrow> offer_evolves x (f x)) \<Longrightarrow> offers_advance xs (update_where P f xs)"
  unfolding offers_advance_def using list_all2_update_where
  by (intro exI [of _ "update_where P f xs"] exI [of _ "[]"]) simp

text \<open>An update that keeps the rows and their keys: the counts of the promotion do not move.\<close>

definition offers_same_keys :: "jackpot_discount_offer list \<Rightarrow> jackpot_discount_offer list \<Rightarrow> bool" where
  "offers_same_keys xs ys \<longleftrightarrow> list_all2 offer_evolves xs ys"

lemma offers_same_keys_refl [simp, intro]: "offers_same_keys xs xs"
  by (simp add: offers_same_keys_def list_all2_refl)

lemma offers_same_keys_trans: "offers_same_keys xs ys \<Longrightarrow> offers_same_keys ys zs \<Longrightarrow> offers_same_keys xs zs"
  unfolding offers_same_keys_def by (rule list_all2_trans [OF offer_evolves_trans])

lemma offers_same_keys_advance: "offers_same_keys xs ys \<Longrightarrow> offers_advance xs ys"
  unfolding offers_same_keys_def offers_advance_def by (intro exI [of _ ys] exI [of _ "[]"]) simp

lemma offers_same_keys_update:
  "(\<And>x. x \<in> set xs \<Longrightarrow> P x \<Longrightarrow> offer_evolves x (f x)) \<Longrightarrow> offers_same_keys xs (update_where P f xs)"
  unfolding offers_same_keys_def by (rule list_all2_update_where)

lemma offers_same_keys_map:
  assumes "offers_same_keys xs ys" "\<And>x y. offer_evolves x y \<Longrightarrow> g y = g x"
  shows "map g ys = map g xs"
  using assms unfolding offers_same_keys_def by (induction rule: list_all2_induct) auto

section \<open>The operations of the offers service\<close>

text \<open>\<open>touches\<close>: the operation changes nothing of the promotion but the offers, and them only so.\<close>

definition touches :: "db \<Rightarrow> db \<Rightarrow> bool" where
  "touches db db' \<longleftrightarrow> offers_same_keys (offers db) (offers db') \<and> accumulations db' = accumulations db"

lemma touches_refl [simp, intro]: "touches db db"
  by (simp add: touches_def)

lemma touches_trans: "touches a b \<Longrightarrow> touches b c \<Longrightarrow> touches a c"
  unfolding touches_def using offers_same_keys_trans by metis

lemma touches_update:
  "(\<And>x. x \<in> set (offers db) \<Longrightarrow> P x \<Longrightarrow> offer_evolves x (f x)) \<Longrightarrow> touches db (db\<lparr>offers := update_where P f (offers db)\<rparr>)"
  by (simp add: touches_def offers_same_keys_update)

lemma touches_audit [simp]: "touches db (write_audit env a m db') = touches db db'"
  by (simp add: touches_def write_audit_def)

lemmas evolve_simps = offer_evolves_def offer_key_def final_status_def

lemma normalize_touches: "touches db (normalizeCustomerOffers env user db)"
proof -
  have acc: "accumulations (normalizeCustomerOffers env user db) = accumulations db"
    by (simp add: normalizeCustomerOffers_def Let_def)
  have bind: "offers_same_keys xs (update_where (\<lambda>x. jo_buyerPhone x = cj_phoneNumber user \<and> jo_buyerUserId x = None)
      (\<lambda>x. x\<lparr>jo_buyerUserId := Some (cj_sub user)\<rparr>) xs)" for xs
    by (rule offers_same_keys_update) (simp add: evolve_simps)
  have expire: "offers_same_keys xs (update_where (\<lambda>x. owned user x \<and> jo_status x \<in> {JDO_AVAILABLE, JDO_CLAIMING} \<and> Q x)
      (\<lambda>x. x\<lparr>jo_status := JDO_EXPIRED, jo_claimingAt := None\<rparr>) xs)" for xs Q
    by (rule offers_same_keys_update) (auto simp: evolve_simps)
  have unstale: "offers_same_keys xs (update_where (\<lambda>x. owned user x \<and> jo_status x = JDO_CLAIMING \<and> Q x)
      (\<lambda>x. x\<lparr>jo_status := JDO_AVAILABLE, jo_claimingAt := None\<rparr>) xs)" for xs Q
    by (rule offers_same_keys_update) (simp add: evolve_simps)
  show ?thesis
    unfolding touches_def using acc offers_same_keys_trans [OF bind offers_same_keys_trans [OF expire unstale]]
    by (simp add: normalizeCustomerOffers_def Let_def)
qed

lemma switch_touches:
  assumes "switch_offer user i guard upd target recheck db = Inr (r, db')"
    and "\<And>x. guard x \<Longrightarrow> offer_evolves x (upd x)"
  shows "touches db db'"
  using assms(1) by (auto simp: switch_offer_def Let_def res_simps split: if_splits intro!: touches_update assms(2))

lemma update_offer_touches:
  assumes "update_offer i upd db = Inr (xd, db')" "\<And>x. x \<in> set (offers db) \<Longrightarrow> jo_offerId x = i \<Longrightarrow> offer_evolves x (upd x)"
  shows "touches db db'"
  using assms(1) by (auto simp: update_offer_def Let_def res_simps intro!: touches_update assms(2))

lemma offer_answer_touches: "offer_answer env user action w (r, db) = Inr (v, db') \<Longrightarrow> touches db db'"
  by (auto simp: offer_answer_def Let_def split: prod.splits if_splits)

lemma read_touches:
  "current_offers env user db = Inr (vs, db') \<Longrightarrow> touches db db'"
  "get_offer env user i db = Inr (v, db') \<Longrightarrow> touches db db'"
  using normalize_touches by (auto simp: current_offers_def get_offer_def Let_def res_simps)

text \<open>The row with an id is the only one, so an update by id rewrites the row that was read.\<close>

lemma update_by_id:
  assumes "distinct (map jo_offerId (offers db))" "find_offer db i = Some x" "update_offer i upd db = Inr (yd, db')"
    and "offer_evolves x (upd x)"
  shows "touches db db' \<and> distinct (map jo_offerId (offers db')) \<and> find_offer db' i = Some (fst yd) \<and> fst yd = upd x"
proof -
  have x: "x \<in> set (offers db)" "jo_offerId x = i" using assms(2) find_Some_set unfolding find_offer_def by fastforce+
  have only: "y = x" if "y \<in> set (offers db)" "jo_offerId y = i" for y
    using distinct_key_eq [OF assms(1) that(1) x(1)] that(2) x(2) by simp
  have t: "touches db db'" by (rule update_offer_touches [OF assms(3)]) (use only assms(4) in metis)
  have ids: "map jo_offerId (offers db') = map jo_offerId (offers db)"
    using t unfolding touches_def by (intro offers_same_keys_map [of _ _ jo_offerId]) (auto simp: evolve_simps)
  have f: "find_offer db' i = Some (fst yd)" and o': "offers db' = update_where (\<lambda>x. jo_offerId x = i) upd (offers db)"
    using assms(3) by (auto simp: update_offer_def with_draw_def Let_def res_simps)
  have "upd x \<in> set (offers db')" using x unfolding o' set_update_where by force
  moreover have "jo_offerId (upd x) = i" using assms(4) x(2) by (simp add: offer_evolves_def)
  moreover have "fst yd \<in> set (offers db') \<and> jo_offerId (fst yd) = i" using f find_Some_set unfolding find_offer_def by fastforce
  ultimately have "fst yd = upd x" using distinct_key_eq [of jo_offerId "offers db'"] assms(1) ids by metis
  then show ?thesis using t ids f assms(1) by simp
qed

lemma reserve_in_purchase_cases:
  assumes "reserveForPurchaseInTransaction env user i db = Inr (xd, db')"
  obtains x0 d0 x d db1 where "find_offer db i = Some x0"
    "(if jo_buyerUserId x0 = None then update_offer i (\<lambda>x. x\<lparr>jo_buyerUserId := Some (cj_sub user)\<rparr>) db
      else Inr ((x0, d0), db)) = Inr ((x, d), db1)"
    "jo_status x = JDO_AVAILABLE \<and>
        update_offer i (\<lambda>x. x\<lparr>jo_status := JDO_CLAIMING, jo_claimingAt := Some (e_now env)\<rparr>) db1 = Inr (xd, db') \<or>
      jo_status x = JDO_CLAIMING \<and>
        (update_offer i (\<lambda>x. x\<lparr>jo_claimingAt := Some (e_now env)\<rparr>) db1 = Inr (xd, db') \<or> xd = (x, d) \<and> db' = db1)"
    "with_draw db x0 = Inr (x0, d0)"
proof -
  obtain x0 where f0: "find_offer db i = Some x0"
    using assms unfolding reserveForPurchaseInTransaction_def by (cases "find_offer db i") auto
  obtain y0 d0 where w: "with_draw db x0 = Inr (y0, d0)"
    using assms f0 unfolding reserveForPurchaseInTransaction_def by (cases "with_draw db x0") auto
  have "y0 = x0" using w by (auto simp: with_draw_def res_simps)
  define m where "m = (if jo_buyerUserId x0 = None
    then update_offer i (\<lambda>x. x\<lparr>jo_buyerUserId := Some (cj_sub user)\<rparr>) db else Inr ((x0, d0), db))"
  obtain x d db1 where m: "m = Inr ((x, d), db1)"
    using assms f0 w \<open>y0 = x0\<close> unfolding reserveForPurchaseInTransaction_def m_def [symmetric]
    by (cases m) (auto simp: m_def [symmetric] split: if_splits)
  show thesis
    using assms f0 w \<open>y0 = x0\<close> m unfolding reserveForPurchaseInTransaction_def Let_def
    by (intro that [OF f0 m [unfolded m_def]])
       (auto simp: m_def [symmetric] res_simps split: if_splits)
qed

lemma reserve_in_purchase_touches:
  assumes "reserveForPurchaseInTransaction env user i db = Inr (xd, db')" "distinct (map jo_offerId (offers db))"
  shows "touches db db'" "find_offer db' i = Some (fst xd)" "jo_status (fst xd) = JDO_CLAIMING"
proof -
  from assms(1) obtain x0 d0 x d db1 where f0: "find_offer db i = Some x0"
    and b: "(if jo_buyerUserId x0 = None then update_offer i (\<lambda>x. x\<lparr>jo_buyerUserId := Some (cj_sub user)\<rparr>) db
      else Inr ((x0, d0), db)) = Inr ((x, d), db1)"
    and c: "jo_status x = JDO_AVAILABLE \<and>
        update_offer i (\<lambda>x. x\<lparr>jo_status := JDO_CLAIMING, jo_claimingAt := Some (e_now env)\<rparr>) db1 = Inr (xd, db') \<or>
      jo_status x = JDO_CLAIMING \<and>
        (update_offer i (\<lambda>x. x\<lparr>jo_claimingAt := Some (e_now env)\<rparr>) db1 = Inr (xd, db') \<or> xd = (x, d) \<and> db' = db1)"
    by (rule reserve_in_purchase_cases)
  have b': "touches db db1 \<and> distinct (map jo_offerId (offers db1)) \<and> find_offer db1 i = Some x"
  proof (cases "jo_buyerUserId x0 = None")
    case True
    then show ?thesis using b update_by_id [OF assms(2) f0, of "\<lambda>x. x\<lparr>jo_buyerUserId := Some (cj_sub user)\<rparr>"]
      by (auto simp: evolve_simps)
  qed (use b f0 assms(2) in auto)
  have "touches db1 db' \<and> find_offer db' i = Some (fst xd) \<and> jo_status (fst xd) = JDO_CLAIMING"
    using c
  proof (elim disjE conjE)
    assume "jo_status x = JDO_AVAILABLE"
      "update_offer i (\<lambda>x. x\<lparr>jo_status := JDO_CLAIMING, jo_claimingAt := Some (e_now env)\<rparr>) db1 = Inr (xd, db')"
    then show ?thesis using update_by_id [of db1 i x _ xd db'] b' by (auto simp: evolve_simps)
  next
    assume "jo_status x = JDO_CLAIMING" "update_offer i (\<lambda>x. x\<lparr>jo_claimingAt := Some (e_now env)\<rparr>) db1 = Inr (xd, db')"
    then show ?thesis using update_by_id [of db1 i x _ xd db'] b' by (auto simp: evolve_simps)
  qed (use b' in auto)
  then show "touches db db'" "find_offer db' i = Some (fst xd)" "jo_status (fst xd) = JDO_CLAIMING"
    using b' touches_trans by blast+
qed

lemma mark_claimed_touches: "markClaimedInTransaction env inp db = Inr (u, db') \<Longrightarrow> touches db db'"
  unfolding markClaimedInTransaction_def Let_def
  by (auto simp: evolve_simps split: if_splits intro!: touches_update)


section \<open>Unlocking offers\<close>

text \<open>The ids that the database generates from now on are new.\<close>

definition fresh_offer_ids :: "'a env_scheme \<Rightarrow> db \<Rightarrow> bool" where
  "fresh_offer_ids env db \<longleftrightarrow> inj_on (e_uuid env) {seq db..} \<and> (\<forall>n\<ge>seq db. e_uuid env n \<notin> jo_offerId ` set (offers db))"

definition phone_offers :: "string \<Rightarrow> db \<Rightarrow> jackpot_discount_offer list" where
  "phone_offers phone db = filter (\<lambda>x. jo_buyerPhone x = phone) (offers db)"

lemma offer_exists_key: "offer_exists phone d n db \<longleftrightarrow> (phone, d, n) \<in> offer_key ` set (offers db)"
  unfolding offer_exists_def offer_key_def by (simp add: image_iff) metis

lemma offer_exists_seq [simp]: "offer_exists phone d n (db\<lparr>seq := k\<rparr>) = offer_exists phone d n db"
  by (simp add: offer_exists_def)

text \<open>The rows that \<open>create_offers\<close> adds: one per threshold that had no offer, in order.\<close>

lemma create_offers_rows:
  assumes "create_offers env p d ns db = (made, db')" "fresh_offer_ids env db" "distinct ns"
  shows "\<exists>new. db' = db\<lparr>offers := offers db @ new, seq := seq db + length ns\<rparr> \<and> made = length new \<and>
    map jo_thresholdNumber new = filter (\<lambda>n. \<not> offer_exists (rp_buyerPhone p) (d_drawId d) n db) ns \<and>
    (\<forall>x\<in>set new. \<exists>n k. seq db \<le> k \<and> n \<in> set ns \<and> x = offer_row env p d n (e_uuid env k)) \<and>
    distinct (map jo_offerId new)"
  using assms
proof (induction ns arbitrary: db made db')
  case (Cons n ns)
  have fresh: "e_uuid env (seq db) \<notin> jo_offerId ` set (offers db)" using Cons.prems(2) by (simp add: fresh_offer_ids_def)
  have inj: "inj_on (e_uuid env) {seq db + 1..}" using Cons.prems(2) by (auto simp: fresh_offer_ids_def inj_on_def)
  show ?case
  proof (cases "offer_exists (rp_buyerPhone p) (d_drawId d) n db")
    case True
    let ?db = "db\<lparr>seq := seq db + 1\<rparr>"
    have f: "fresh_offer_ids env ?db" using Cons.prems(2) inj by (simp add: fresh_offer_ids_def)
    have "create_offers env p d ns ?db = (made, db')" using Cons.prems(1) True by simp
    with Cons.IH [OF _ f] Cons.prems(3) obtain new where new: "db' = ?db\<lparr>offers := offers ?db @ new, seq := seq ?db + length ns\<rparr>"
      "made = length new" "map jo_thresholdNumber new = filter (\<lambda>n. \<not> offer_exists (rp_buyerPhone p) (d_drawId d) n ?db) ns"
      "\<forall>x\<in>set new. \<exists>m k. seq ?db \<le> k \<and> m \<in> set ns \<and> x = offer_row env p d m (e_uuid env k)" "distinct (map jo_offerId new)"
      by auto
    have "\<forall>x\<in>set new. \<exists>m k. seq db \<le> k \<and> m \<in> set (n # ns) \<and> x = offer_row env p d m (e_uuid env k)"
    proof
      fix x assume "x \<in> set new"
      then obtain m k where "seq db + 1 \<le> k" "m \<in> set ns" "x = offer_row env p d m (e_uuid env k)" using new(4) by fastforce
      then show "\<exists>m k. seq db \<le> k \<and> m \<in> set (n # ns) \<and> x = offer_row env p d m (e_uuid env k)"
        by (intro exI [of _ m] exI [of _ k]) auto
    qed
    then show ?thesis using True new by (intro exI [of _ new]) simp
  next
    case False
    let ?x = "offer_row env p d n (e_uuid env (seq db))"
    let ?db = "db\<lparr>offers := offers db @ [?x], seq := seq db + 1\<rparr>"
    obtain c where c: "create_offers env p d ns ?db = (c, db')" "made = c + 1"
      using Cons.prems(1) False fresh by (auto simp: Let_def split: prod.splits)
    have f: "fresh_offer_ids env ?db" unfolding fresh_offer_ids_def
    proof (intro conjI allI impI)
      show "inj_on (e_uuid env) {seq ?db..}" using inj by simp
      fix k assume k: "seq ?db \<le> k"
      have "e_uuid env k \<noteq> e_uuid env (seq db)"
        using Cons.prems(2) k unfolding fresh_offer_ids_def by (auto dest!: inj_onD [where x = k and y = "seq db"])
      then show "e_uuid env k \<notin> jo_offerId ` set (offers ?db)"
        using Cons.prems(2) k by (auto simp: fresh_offer_ids_def offer_row_def)
    qed
    have e: "offer_exists (rp_buyerPhone p) (d_drawId d) m ?db = offer_exists (rp_buyerPhone p) (d_drawId d) m db" if "m \<noteq> n" for m
      using that by (auto simp: offer_exists_def offer_row_def)
    have flt: "filter (\<lambda>m. \<not> offer_exists (rp_buyerPhone p) (d_drawId d) m ?db) ns =
        filter (\<lambda>m. \<not> offer_exists (rp_buyerPhone p) (d_drawId d) m db) ns"
      by (rule filter_cong [OF refl]) (use Cons.prems(3) e in fastforce)
    from Cons.IH [OF c(1) f] Cons.prems(3) obtain new where new: "db' = ?db\<lparr>offers := offers ?db @ new, seq := seq ?db + length ns\<rparr>"
      "c = length new" "map jo_thresholdNumber new = filter (\<lambda>n. \<not> offer_exists (rp_buyerPhone p) (d_drawId d) n ?db) ns"
      "\<forall>x\<in>set new. \<exists>m k. seq ?db \<le> k \<and> m \<in> set ns \<and> x = offer_row env p d m (e_uuid env k)" "distinct (map jo_offerId new)"
      by auto
    have "jo_offerId ?x \<notin> set (map jo_offerId new)"
    proof
      assume "jo_offerId ?x \<in> set (map jo_offerId new)"
      then obtain k where "seq db + 1 \<le> k" "e_uuid env (seq db) = e_uuid env k" using new(4) by (fastforce simp: offer_row_def)
      then show False using Cons.prems(2) unfolding fresh_offer_ids_def by (auto dest!: inj_onD)
    qed
    moreover have "jo_thresholdNumber ?x = n" by (simp add: offer_row_def)
    moreover have "\<forall>x\<in>set (?x # new). \<exists>m k. seq db \<le> k \<and> m \<in> set (n # ns) \<and> x = offer_row env p d m (e_uuid env k)"
    proof
      fix x assume "x \<in> set (?x # new)"
      then consider "x = ?x" | "x \<in> set new" by auto
      then show "\<exists>m k. seq db \<le> k \<and> m \<in> set (n # ns) \<and> x = offer_row env p d m (e_uuid env k)"
      proof cases
        case 2
        then obtain m k where "seq db + 1 \<le> k" "m \<in> set ns" "x = offer_row env p d m (e_uuid env k)" using new(4) by fastforce
        then show ?thesis by (intro exI [of _ m] exI [of _ k]) auto
      next
        case 1
        then show ?thesis by (intro exI [of _ n] exI [of _ "seq db"]) simp
      qed
    qed
    ultimately show ?thesis using new c(2) False flt by (intro exI [of _ "?x # new"]) auto
  qed
next
  case Nil
  then show ?case by (intro exI [of _ "[]"]) simp
qed

section \<open>The invariant of the promotion\<close>

text \<open>
  Keys and ids are unique, an offer states its terms, and for every phone: ten times its offers
  plus the tickets towards the next one are at most the tickets it ever bought, and the
  thresholds passed in the present cycle have their offers.
\<close>

definition accum_ok :: "db \<Rightarrow> jackpot_accumulation \<Rightarrow> bool" where
  "accum_ok db a \<longleftrightarrow>
     10 * length (phone_offers (ja_buyerPhone a) db) + ja_cumulativeCount a mod 10 \<le> ja_lifetimeTicketCount a \<and>
     (\<forall>d k. ja_cycleDrawId a = Some d \<and> 1 \<le> k \<and> k \<le> ja_cumulativeCount a div 10 \<longrightarrow> offer_exists (ja_buyerPhone a) d k db)"

definition jackpot_ok :: "db \<Rightarrow> bool" where
  "jackpot_ok db \<longleftrightarrow> distinct (map jo_offerId (offers db)) \<and> distinct (map offer_key (offers db)) \<and>
     distinct (map ja_buyerPhone (accumulations db)) \<and>
     (\<forall>x\<in>set (offers db). jo_regularTicketsAtUnlock x = jo_thresholdNumber x * 10 \<and> jo_offerPriceNgn x = 500 \<and>
        jo_buyerPhone x \<in> ja_buyerPhone ` set (accumulations db)) \<and>
     (\<forall>a\<in>set (accumulations db). accum_ok db a)"

text \<open>All of it is a matter of the keys and terms of the rows, which \<open>touches\<close> keeps.\<close>

lemma touches_terms:
  assumes "touches db db'" "\<And>x y. offer_evolves x y \<Longrightarrow> g y = g x"
  shows "map g (offers db') = map g (offers db)"
  using assms offers_same_keys_map unfolding touches_def by blast

lemma length_phone_offers:
  "length (phone_offers phone db) = length (filter (\<lambda>p. p = phone) (map jo_buyerPhone (offers db)))"
  by (simp add: phone_offers_def filter_map o_def)

lemma terms_eq:
  assumes "map offer_key (offers db') = map offer_key (offers db)"
  shows "length (phone_offers phone db') = length (phone_offers phone db)"
    "offer_exists phone d k db' = offer_exists phone d k db"
proof -
  have "map jo_buyerPhone (offers db') = map jo_buyerPhone (offers db)"
    using arg_cong [OF assms, of "map fst"] by (simp add: offer_key_def o_def)
  then show "length (phone_offers phone db') = length (phone_offers phone db)" by (simp add: length_phone_offers)
  show "offer_exists phone d k db' = offer_exists phone d k db"
    using arg_cong [OF assms, of set] by (simp add: offer_exists_key)
qed

lemma touches_jackpot_ok:
  assumes "touches db db'" "jackpot_ok db"
  shows "jackpot_ok db'"
proof -
  have k: "map offer_key (offers db') = map offer_key (offers db)" "map jo_offerId (offers db') = map jo_offerId (offers db)"
    by (rule touches_terms [OF assms(1)]; simp add: evolve_simps)+
  let ?g = "\<lambda>x. (jo_regularTicketsAtUnlock x, jo_thresholdNumber x, jo_offerPriceNgn x, jo_buyerPhone x)"
  have t: "map ?g (offers db') = map ?g (offers db)" by (rule touches_terms [OF assms(1)]) (simp add: evolve_simps)
  have a: "accumulations db' = accumulations db" using assms(1) by (simp add: touches_def)
  have "?g ` set (offers db') = ?g ` set (offers db)" using arg_cong [OF t, of set] by simp
  moreover have "\<forall>x\<in>set (offers db). case ?g x of (r, n, p, b) \<Rightarrow> r = n * 10 \<and> p = 500 \<and> b \<in> ja_buyerPhone ` set (accumulations db)"
    using assms(2) by (simp add: jackpot_ok_def)
  ultimately have "\<forall>x\<in>set (offers db'). case ?g x of (r, n, p, b) \<Rightarrow> r = n * 10 \<and> p = 500 \<and> b \<in> ja_buyerPhone ` set (accumulations db)"
    by (metis (no_types, lifting) imageE imageI)
  moreover have "accum_ok db' c = accum_ok db c" for c using terms_eq [OF k(1)] by (simp add: accum_ok_def)
  ultimately show ?thesis using assms(2) k a by (simp add: jackpot_ok_def)
qed


section \<open>Recording a purchase keeps it\<close>

lemma threshold_numbers_facts:
  "set (threshold_numbers a b) = {a div 10 <.. b div 10}" "distinct (threshold_numbers a b)"
  "length (threshold_numbers a b) = b div 10 - a div 10"
proof -
  show "set (threshold_numbers a b) = {a div 10 <.. b div 10}"
  proof (cases "a div 10 < b div 10")
    case True
    have "k \<in> (\<lambda>i. a div 10 + i + 1) ` {0..<b div 10 - a div 10}" if "a div 10 < k" "k \<le> b div 10" for k
      using that by (intro image_eqI [of _ _ "k - a div 10 - 1"]) auto
    then show ?thesis using True
      by (auto simp: threshold_numbers_def TICKETS_PER_DISCOUNT_OFFER_def Let_def)
  qed (auto simp: threshold_numbers_def TICKETS_PER_DISCOUNT_OFFER_def Let_def)
  show "distinct (threshold_numbers a b)" "length (threshold_numbers a b) = b div 10 - a div 10"
    by (auto simp: threshold_numbers_def TICKETS_PER_DISCOUNT_OFFER_def Let_def distinct_map inj_on_def)
qed

lemma disjoint_images: "(\<And>x. x \<in> B \<Longrightarrow> f x \<notin> f ` A) \<Longrightarrow> f ` A \<inter> f ` B = {}"
  by (intro equals0I) (elim IntE imageE; metis imageI)

text \<open>What unlocking the thresholds between two counts does to the offers.\<close>

lemma unlock_offers:
  assumes "create_offers env p d (threshold_numbers a b) db = (made, db')" "fresh_offer_ids env db"
    and "distinct (map jo_offerId (offers db))" "distinct (map offer_key (offers db))"
  shows "length (phone_offers (rp_buyerPhone p) db') \<le> length (phone_offers (rp_buyerPhone p) db) + (b div 10 - a div 10)"
    and "\<And>k. a div 10 < k \<Longrightarrow> k \<le> b div 10 \<Longrightarrow> offer_exists (rp_buyerPhone p) (d_drawId d) k db'"
    and "\<And>ph D k. offer_exists ph D k db \<Longrightarrow> offer_exists ph D k db'"
    and "\<And>ph. ph \<noteq> rp_buyerPhone p \<Longrightarrow> phone_offers ph db' = phone_offers ph db"
    and "distinct (map jo_offerId (offers db'))" "distinct (map offer_key (offers db'))"
    and "\<And>x. x \<in> set (offers db') \<Longrightarrow> x \<in> set (offers db) \<or> (\<exists>n k. x = offer_row env p d n (e_uuid env k) \<and> a div 10 < n)"
    and "accumulations db' = accumulations db" "offers_advance (offers db) (offers db')"
proof -
  let ?ph = "rp_buyerPhone p" and ?ns = "threshold_numbers a b"
  obtain new where db': "db' = db\<lparr>offers := offers db @ new, seq := seq db + length ?ns\<rparr>"
    and th: "map jo_thresholdNumber new = filter (\<lambda>n. \<not> offer_exists ?ph (d_drawId d) n db) ?ns"
    and rows: "\<And>x. x \<in> set new \<Longrightarrow> \<exists>n k. seq db \<le> k \<and> n \<in> set ?ns \<and> x = offer_row env p d n (e_uuid env k)"
    and ids: "distinct (map jo_offerId new)"
    using create_offers_rows [OF assms(1,2) threshold_numbers_facts(2)] by blast
  have sel: "offers db' = offers db @ new" by (simp add: db')
  have key: "offer_key x = (?ph, d_drawId d, jo_thresholdNumber x)" "jo_buyerPhone x = ?ph" if "x \<in> set new" for x
    using rows [OF that] by (auto simp: offer_key_def offer_row_def)
  have th_in: "jo_thresholdNumber x \<in> set ?ns \<and> \<not> offer_exists ?ph (d_drawId d) (jo_thresholdNumber x) db" if "x \<in> set new" for x
    using arg_cong [OF th, of set] that by auto
  have "length new \<le> length ?ns" using arg_cong [OF th, of length] length_filter_le [of _ ?ns] by (metis length_map)
  moreover have "phone_offers ?ph db' = phone_offers ?ph db @ new"
    unfolding phone_offers_def sel using key(2) by (simp add: filter_id_conv)
  ultimately show "length (phone_offers ?ph db') \<le> length (phone_offers ?ph db) + (b div 10 - a div 10)"
    by (simp add: threshold_numbers_facts)
  show "offer_exists ph D k db'" if "offer_exists ph D k db" for ph D k using that by (auto simp: offer_exists_def sel)
  show "offer_exists ?ph (d_drawId d) k db'" if k: "a div 10 < k" "k \<le> b div 10" for k
  proof (cases "offer_exists ?ph (d_drawId d) k db")
    case False
    then have "k \<in> set (map jo_thresholdNumber new)" using k th by (simp add: threshold_numbers_facts)
    then show ?thesis using key unfolding offer_exists_key sel by force
  qed (auto simp: offer_exists_def sel)
  show "phone_offers ph db' = phone_offers ph db" if "ph \<noteq> ?ph" for ph
    unfolding phone_offers_def sel using key(2) that by auto
  show "distinct (map jo_offerId (offers db'))"
  proof -
    have "jo_offerId x \<notin> jo_offerId ` set (offers db)" if "x \<in> set new" for x
      using rows [OF that] assms(2) by (auto simp: fresh_offer_ids_def offer_row_def)
    then have "jo_offerId ` set (offers db) \<inter> jo_offerId ` set new = {}" by (rule disjoint_images)
    then show ?thesis using assms(3) ids unfolding sel by simp
  qed
  show "distinct (map offer_key (offers db'))"
  proof -
    have "distinct (map jo_thresholdNumber new)" unfolding th using threshold_numbers_facts(2) by simp
    moreover have "map offer_key new = map (\<lambda>n. (?ph, d_drawId d, n)) (map jo_thresholdNumber new)" using key by simp
    ultimately have "distinct (map offer_key new)" by (simp add: distinct_map inj_on_def)
    moreover have "offer_key x \<notin> offer_key ` set (offers db)" if "x \<in> set new" for x
      using th_in [OF that] key(1) [OF that] by (simp add: offer_exists_key)
    then have "offer_key ` set (offers db) \<inter> offer_key ` set new = {}" by (rule disjoint_images)
    ultimately show ?thesis using assms(4) unfolding sel by simp
  qed
  show "x \<in> set (offers db) \<or> (\<exists>n k. x = offer_row env p d n (e_uuid env k) \<and> a div 10 < n)" if "x \<in> set (offers db')" for x
    using that rows unfolding sel by (fastforce simp: threshold_numbers_facts)
  show "accumulations db' = accumulations db" "offers_advance (offers db) (offers db')" by (auto simp: db')
qed

lemma upsert_facts:
  assumes "upsert_accumulation env phone row upd db = (a, db1)" "distinct (map ja_buyerPhone (accumulations db))"
    and "ja_buyerPhone row = phone" "\<And>c. ja_buyerPhone (upd c) = ja_buyerPhone c"
  shows "offers db1 = offers db \<and> distinct (map ja_buyerPhone (accumulations db1)) \<and> ja_buyerPhone a = phone \<and>
    (\<forall>c\<in>set (accumulations db1). c = a \<or> c \<in> set (accumulations db) \<and> ja_buyerPhone c \<noteq> phone) \<and>
    ja_buyerPhone ` set (accumulations db1) = insert phone (ja_buyerPhone ` set (accumulations db)) \<and>
    (case find_accumulation db phone of None \<Rightarrow> a = row\<lparr>ja_accumId := e_uuid env (seq db)\<rparr> |
      Some c \<Rightarrow> a = upd c \<and> c \<in> set (accumulations db) \<and> ja_buyerPhone c = phone) \<and> seq db \<le> seq db1"
proof (cases "find_accumulation db phone")
  case None
  then have "phone \<notin> ja_buyerPhone ` set (accumulations db)" by (auto simp: find_accumulation_def find_None_set)
  moreover from this have "ja_buyerPhone c \<noteq> phone" if "c \<in> set (accumulations db)" for c using that by blast
  ultimately show ?thesis using assms None by (auto simp: upsert_accumulation_def Let_def)
next
  case (Some c)
  have c: "c \<in> set (accumulations db)" "ja_buyerPhone c = phone"
    using Some find_Some_set unfolding find_accumulation_def by fastforce+
  let ?u = "update_where (\<lambda>a. ja_buyerPhone a = phone) upd (accumulations db)"
  have u: "a = upd c" "db1 = db\<lparr>accumulations := ?u\<rparr>" using assms(1) Some by (simp_all add: upsert_accumulation_def)
  have m: "map ja_buyerPhone ?u = map ja_buyerPhone (accumulations db)"
    by (rule map_update_where) (simp add: assms(4))
  have "e = c" if "e \<in> set (accumulations db)" "ja_buyerPhone e = phone" for e
    using distinct_key_eq [OF assms(2) that(1) c(1)] that(2) c(2) by simp
  then have "\<forall>e\<in>set ?u. e = a \<or> e \<in> set (accumulations db) \<and> ja_buyerPhone e \<noteq> phone"
    unfolding u(1) set_update_where by auto
  moreover have "ja_buyerPhone ` set ?u = insert phone (ja_buyerPhone ` set (accumulations db))"
    using arg_cong [OF m, of set] c by auto
  ultimately show ?thesis using m u c assms(2,4) Some by simp
qed


text \<open>The two ways through \<open>recordDailyPurchase\<close>.\<close>

lemma recordDailyPurchase_cases:
  assumes "recordDailyPurchase env p db = Inr (r, db')"
  obtains (closed) a where "open_jackpot env db = None" "r = None"
      "upsert_accumulation env (rp_buyerPhone p) (new_accumulation env p 0 None) (count_tickets env p) db = (a, db')"
    | (opened) d same prev a db1 made where "open_jackpot env db = Some d"
      "same \<longleftrightarrow> (\<exists>c. find_accumulation db (rp_buyerPhone p) = Some c \<and> ja_cycleDrawId c = Some (d_drawId d))"
      "prev = (if same then (case find_accumulation db (rp_buyerPhone p) of None \<Rightarrow> 0 | Some c \<Rightarrow> ja_cumulativeCount c) else 0)"
      "upsert_accumulation env (rp_buyerPhone p) (new_accumulation env p (rp_ticketCount p) (Some (d_drawId d)))
        (if same then (\<lambda>a. count_tickets env p (a\<lparr>ja_cumulativeCount := ja_cumulativeCount a + rp_ticketCount p\<rparr>))
         else (\<lambda>a. count_tickets env p (a\<lparr>ja_cumulativeCount := rp_ticketCount p, ja_jackpotEntriesTotal := 0,
           ja_cycleDrawId := Some (d_drawId d)\<rparr>))) db = (a, db1)"
      "create_offers env p d (threshold_numbers prev (ja_cumulativeCount a)) db1 = (made, db')"
      "\<exists>u. r = Some u \<and> ou_offersUnlocked u = made \<and> ou_weeklyTicketCount u = ja_cumulativeCount a \<and> ou_jackpotDrawId u = d_drawId d"
proof (cases "open_jackpot env db")
  case None
  obtain a db1 where u: "upsert_accumulation env (rp_buyerPhone p) (new_accumulation env p 0 None) (count_tickets env p) db = (a, db1)"
    by (cases "upsert_accumulation env (rp_buyerPhone p) (new_accumulation env p 0 None) (count_tickets env p) db")
  then show thesis using assms None by (intro closed [of a]) (auto simp: recordDailyPurchase_def)
next
  case (Some d)
  define same where "same = (case find_accumulation db (rp_buyerPhone p) of None \<Rightarrow> False | Some a \<Rightarrow> ja_cycleDrawId a = Some (d_drawId d))"
  define prev where "prev = (if same then (case find_accumulation db (rp_buyerPhone p) of None \<Rightarrow> 0 | Some c \<Rightarrow> ja_cumulativeCount c) else 0)"
  define up where "up = upsert_accumulation env (rp_buyerPhone p) (new_accumulation env p (rp_ticketCount p) (Some (d_drawId d)))
        (if same then (\<lambda>a. count_tickets env p (a\<lparr>ja_cumulativeCount := ja_cumulativeCount a + rp_ticketCount p\<rparr>))
         else (\<lambda>a. count_tickets env p (a\<lparr>ja_cumulativeCount := rp_ticketCount p, ja_jackpotEntriesTotal := 0,
           ja_cycleDrawId := Some (d_drawId d)\<rparr>))) db"
  obtain a db1 where up: "up = (a, db1)" by (cases up)
  obtain made db2 where mk: "create_offers env p d (threshold_numbers prev (ja_cumulativeCount a)) db1 = (made, db2)"
    by (cases "create_offers env p d (threshold_numbers prev (ja_cumulativeCount a)) db1")
  have "db2 = db' \<and> (\<exists>u. r = Some u \<and> ou_offersUnlocked u = made \<and> ou_weeklyTicketCount u = ja_cumulativeCount a \<and>
      ou_jackpotDrawId u = d_drawId d)"
    using assms Some up mk unfolding recordDailyPurchase_def Let_def same_def [symmetric] prev_def [symmetric] up_def [symmetric]
    by (auto simp: same_def [symmetric] prev_def [symmetric] up_def [symmetric] split: if_splits)
  then show thesis using Some up mk prev_def same_def
    by (intro opened [of d same prev a db1 made]) (auto simp: up_def split: option.splits)
qed

lemma count_tickets_sel [simp]:
  "ja_buyerPhone (count_tickets env p a) = ja_buyerPhone a"
  "ja_cumulativeCount (count_tickets env p a) = ja_cumulativeCount a"
  "ja_cycleDrawId (count_tickets env p a) = ja_cycleDrawId a"
  "ja_lifetimeTicketCount (count_tickets env p a) = ja_lifetimeTicketCount a + rp_ticketCount p"
  by (simp_all add: count_tickets_def)

lemma phone_offers_cong: "offers db' = offers db \<Longrightarrow> phone_offers ph db' = phone_offers ph db"
  by (simp add: phone_offers_def)

lemma offer_exists_cong: "offers db' = offers db \<Longrightarrow> offer_exists ph d k db' = offer_exists ph d k db"
  by (simp add: offer_exists_def)

lemma recordDailyPurchase_ok:
  assumes "recordDailyPurchase env p db = Inr (r, db')" "jackpot_ok db" "fresh_offer_ids env db"
  shows "jackpot_ok db' \<and> offers_advance (offers db) (offers db')"
proof -
  let ?ph = "rp_buyerPhone p"
  note ok = assms(2) [unfolded jackpot_ok_def]
  have old: "10 * length (phone_offers ?ph db) + ja_cumulativeCount c mod 10 \<le> ja_lifetimeTicketCount c \<and>
      (\<forall>d k. ja_cycleDrawId c = Some d \<and> 1 \<le> k \<and> k \<le> ja_cumulativeCount c div 10 \<longrightarrow> offer_exists ?ph d k db)"
    if "c \<in> set (accumulations db)" "ja_buyerPhone c = ?ph" for c
    using ok that by (auto simp: accum_ok_def)
  have none: "phone_offers ?ph db = []" if "find_accumulation db ?ph = None"
    using that ok by (auto simp: phone_offers_def filter_empty_conv find_accumulation_def find_None_set)
  show ?thesis
    using assms(1)
  proof (cases rule: recordDailyPurchase_cases)
    case (closed a)
    note u = upsert_facts [OF closed(3)]
    have u: "offers db' = offers db" "distinct (map ja_buyerPhone (accumulations db'))" "ja_buyerPhone a = ?ph"
      "\<forall>c\<in>set (accumulations db'). c = a \<or> c \<in> set (accumulations db) \<and> ja_buyerPhone c \<noteq> ?ph"
      "ja_buyerPhone ` set (accumulations db') = insert ?ph (ja_buyerPhone ` set (accumulations db))"
      "case find_accumulation db ?ph of None \<Rightarrow> a = (new_accumulation env p 0 None)\<lparr>ja_accumId := e_uuid env (seq db)\<rparr> |
        Some c \<Rightarrow> a = count_tickets env p c \<and> c \<in> set (accumulations db) \<and> ja_buyerPhone c = ?ph"
      using u ok by (simp_all add: new_accumulation_def)
    have "accum_ok db a"
    proof (cases "find_accumulation db ?ph")
      case None
      then show ?thesis using u(6) none by (simp add: accum_ok_def new_accumulation_def)
    next
      case (Some c)
      then show ?thesis using u(6) old [of c] by (simp add: accum_ok_def trans_le_add1)
    qed
    moreover have "accum_ok db' c = accum_ok db c" for c
      by (simp add: accum_ok_def phone_offers_cong [OF u(1)] offer_exists_cong [OF u(1)])
    moreover have "\<forall>c\<in>set (accumulations db'). c = a \<or> accum_ok db c" using u(4) ok by blast
    ultimately have "\<forall>c\<in>set (accumulations db'). accum_ok db' c" by metis
    then have "jackpot_ok db'" unfolding jackpot_ok_def using u(1,2,5) ok by simp
    then show ?thesis using u(1) by simp
  next
    case (opened d same prev a db1 made)
    note u0 = upsert_facts [OF opened(4)]
    have u: "offers db1 = offers db" "distinct (map ja_buyerPhone (accumulations db1))" "ja_buyerPhone a = ?ph"
      "\<forall>c\<in>set (accumulations db1). c = a \<or> c \<in> set (accumulations db) \<and> ja_buyerPhone c \<noteq> ?ph"
      "ja_buyerPhone ` set (accumulations db1) = insert ?ph (ja_buyerPhone ` set (accumulations db))"
      "seq db \<le> seq db1"
      using u0 ok by (simp_all add: new_accumulation_def)
    have fresh: "fresh_offer_ids env db1"
      using assms(3) u(1,6) by (auto simp: fresh_offer_ids_def intro: inj_on_subset)
    note v = unlock_offers [OF opened(5) fresh] 
    have v: "length (phone_offers ?ph db') \<le> length (phone_offers ?ph db) + (ja_cumulativeCount a div 10 - prev div 10)"
      "\<And>k. prev div 10 < k \<Longrightarrow> k \<le> ja_cumulativeCount a div 10 \<Longrightarrow> offer_exists ?ph (d_drawId d) k db'"
      "\<And>ph D k. offer_exists ph D k db \<Longrightarrow> offer_exists ph D k db'"
      "\<And>ph. ph \<noteq> ?ph \<Longrightarrow> phone_offers ph db' = phone_offers ph db"
      "distinct (map jo_offerId (offers db'))" "distinct (map offer_key (offers db'))"
      "\<And>x. x \<in> set (offers db') \<Longrightarrow> x \<in> set (offers db) \<or> (\<exists>n k. x = offer_row env p d n (e_uuid env k) \<and> prev div 10 < n)"
      "accumulations db' = accumulations db1" "offers_advance (offers db) (offers db')"
      using v ok u(1) phone_offers_cong [OF u(1)] offer_exists_cong [OF u(1)] by auto
    have a: "ja_cycleDrawId a = Some (d_drawId d) \<and> (\<exists>L. ja_lifetimeTicketCount a = L + rp_ticketCount p \<and>
        ja_cumulativeCount a = prev + rp_ticketCount p \<and> 10 * length (phone_offers ?ph db) + prev mod 10 \<le> L) \<and>
        (\<forall>k. 1 \<le> k \<and> k \<le> prev div 10 \<longrightarrow> offer_exists ?ph (d_drawId d) k db)"
    proof (cases "find_accumulation db ?ph")
      case None
      then show ?thesis using u0 opened(2,3) none by (simp add: new_accumulation_def ok)
    next
      case (Some c)
      then have c: "c \<in> set (accumulations db)" "ja_buyerPhone c = ?ph"
        using find_Some_set unfolding find_accumulation_def by fastforce+
      show ?thesis
        using u0 opened(2,3) old [OF c] Some by (cases same) (auto simp: new_accumulation_def ok)
    qed
    have "accum_ok db' a"
    proof -
      obtain L where L: "ja_lifetimeTicketCount a = L + rp_ticketCount p" "ja_cumulativeCount a = prev + rp_ticketCount p"
        "10 * length (phone_offers ?ph db) + prev mod 10 \<le> L" using a by blast
      have "10 * length (phone_offers ?ph db') + ja_cumulativeCount a mod 10 \<le> ja_lifetimeTicketCount a"
      proof -
        have "prev div 10 \<le> ja_cumulativeCount a div 10" using L(2) by (simp add: div_le_mono)
        then have "10 * (ja_cumulativeCount a div 10 - prev div 10) + ja_cumulativeCount a mod 10 + prev = ja_cumulativeCount a + prev mod 10"
          using mult_div_mod_eq [of 10 "ja_cumulativeCount a"] mult_div_mod_eq [of 10 prev] by linarith
        then show ?thesis using v(1) L by linarith
      qed
      moreover have "offer_exists ?ph (d_drawId d) k db'" if "1 \<le> k" "k \<le> ja_cumulativeCount a div 10" for k
        using v(2,3) a that by (cases "k \<le> prev div 10") auto
      ultimately show ?thesis using a u(3) by (auto simp: accum_ok_def)
    qed
    moreover have "accum_ok db' c" if "c \<in> set (accumulations db)" "ja_buyerPhone c \<noteq> ?ph" for c
      using ok that v(3,4) by (auto simp: accum_ok_def)
    ultimately have "\<forall>c\<in>set (accumulations db'). accum_ok db' c" using u(4) v(8) by metis
    moreover have "\<forall>x\<in>set (offers db'). jo_regularTicketsAtUnlock x = jo_thresholdNumber x * 10 \<and> jo_offerPriceNgn x = 500 \<and>
        jo_buyerPhone x \<in> ja_buyerPhone ` set (accumulations db')"
      using v(7,8) ok u(5)
      by (fastforce simp: offer_row_def TICKETS_PER_DISCOUNT_OFFER_def JACKPOT_DISCOUNT_PRICE_NGN_def)
    ultimately show ?thesis unfolding jackpot_ok_def using u(2) v(5,6,8,9) by simp
  qed
qed


section \<open>Every operation keeps it\<close>

text \<open>
  \<open>keeps\<close> is what each operation guarantees and what it relies on for the transactions that
  commit between its read and its write.
\<close>

definition keeps :: "db \<Rightarrow> db \<Rightarrow> bool" where
  "keeps db db' \<longleftrightarrow> (jackpot_ok db \<longrightarrow> jackpot_ok db' \<and> offers_advance (offers db) (offers db'))"

lemma touches_keeps: "touches db db' \<Longrightarrow> keeps db db'"
  unfolding keeps_def touches_def using touches_jackpot_ok [unfolded touches_def] offers_same_keys_advance by blast

lemma keeps_trans: "keeps a b \<Longrightarrow> keeps b c \<Longrightarrow> keeps a c"
  unfolding keeps_def using offers_advance_trans by blast

lemma customer_op_keeps:
  assumes race: "\<And>db. keeps db (race db)"
  shows "reserve env race user i db = Inr (v, db') \<Longrightarrow> keeps db db'"
    and "release env race user i db = Inr (v, db') \<Longrightarrow> keeps db db'"
    and "decline env race user i db = Inr (v, db') \<Longrightarrow> keeps db db'"
proof -
  let ?n = "normalizeCustomerOffers env user db"
  have n: "keeps db ?n" by (rule touches_keeps [OF normalize_touches])
  have step: "keeps db db'"
    if "switch_offer user i guard upd target recheck (race ?n) = Inr (r, db1)"
      "\<And>x. guard x \<Longrightarrow> offer_evolves x (upd x)" "offer_answer env user action w (r, db1) = Inr (v, db')"
    for guard upd target recheck r db1 action w
    using keeps_trans [OF n keeps_trans [OF race keeps_trans [OF touches_keeps [OF switch_touches [OF that(1,2)]]
      touches_keeps [OF offer_answer_touches [OF that(3)]]]]] .
  have skip: "keeps db db'" if "offer_answer env user action w (r, ?n) = Inr (v, db')" for action w r
    using keeps_trans [OF n touches_keeps [OF offer_answer_touches [OF that]]] .
  show "reserve env race user i db = Inr (v, db') \<Longrightarrow> keeps db db'"
    unfolding reserve_def Let_def
    by (auto simp: res_simps split: if_splits intro: skip elim!: step simp: evolve_simps)
  show "release env race user i db = Inr (v, db') \<Longrightarrow> keeps db db'"
    unfolding release_def Let_def
    by (auto simp: res_simps split: if_splits intro: skip elim!: step simp: evolve_simps)
  show "decline env race user i db = Inr (v, db') \<Longrightarrow> keeps db db'"
    unfolding decline_def Let_def
    by (auto simp: res_simps split: if_splits intro: skip elim!: step simp: evolve_simps)
qed

lemma decline_reference_keeps:
  assumes "\<And>db. keeps db (race db)" "declineFromPurchaseReference env race i ref db = Inr (u, db')"
  shows "keeps db db'"
  using assms(2) unfolding declineFromPurchaseReference_def Let_def
  by (auto simp: evolve_simps split: if_splits option.splits
      intro!: touches_keeps keeps_trans [OF assms(1) touches_keeps [OF touches_update]])

text \<open>The writes of the promotion, and of other services, which leave its two tables alone.\<close>

inductive jackpot_step :: "db \<Rightarrow> db \<Rightarrow> bool" where
  js_record: "recordDailyPurchase (env :: env) p db = Inr (r, db') \<Longrightarrow> fresh_offer_ids env db \<Longrightarrow> jackpot_step db db'"
| js_current: "current_offers (env :: env) user db = Inr (vs, db') \<Longrightarrow> jackpot_step db db'"
| js_get: "get_offer (env :: env) user i db = Inr (v, db') \<Longrightarrow> jackpot_step db db'"
| js_reserve: "reserve (env :: env) race user i db = Inr (v, db') \<Longrightarrow> (\<And>db. keeps db (race db)) \<Longrightarrow> jackpot_step db db'"
| js_release: "release (env :: env) race user i db = Inr (v, db') \<Longrightarrow> (\<And>db. keeps db (race db)) \<Longrightarrow> jackpot_step db db'"
| js_decline: "decline (env :: env) race user i db = Inr (v, db') \<Longrightarrow> (\<And>db. keeps db (race db)) \<Longrightarrow> jackpot_step db db'"
| js_guest: "declineFromPurchaseReference (env :: env) race i ref db = Inr (u, db') \<Longrightarrow> (\<And>db. keeps db (race db)) \<Longrightarrow>
    jackpot_step db db'"
| js_reserve_purchase: "reserveForPurchaseInTransaction (env :: env) user i db = Inr (xd, db') \<Longrightarrow> jackpot_step db db'"
| js_claimed: "markClaimedInTransaction (env :: env) inp db = Inr (w, db') \<Longrightarrow> jackpot_step db db'"
| js_other: "offers db' = offers db \<Longrightarrow> accumulations db' = accumulations db \<Longrightarrow> jackpot_step db db'"

lemma jackpot_step_keeps: "jackpot_step db db' \<Longrightarrow> keeps db db'"
proof (induction rule: jackpot_step.induct)
  case (js_record env p db r db')
  then show ?case using recordDailyPurchase_ok unfolding keeps_def by blast
next
  case (js_reserve_purchase env user i db xd db')
  then show ?case using reserve_in_purchase_touches(1) touches_keeps unfolding keeps_def jackpot_ok_def by blast
next
  case (js_other db' db)
  then show ?case by (intro touches_keeps) (simp add: touches_def)
qed (auto intro: touches_keeps read_touches mark_claimed_touches customer_op_keeps decline_reference_keeps)

interpretation jackpot_run: kept_by_steps jackpot_step jackpot_ok
  by unfold_locales (use jackpot_step_keeps keeps_def in blast)

lemma jackpot_run_advance: "jackpot_step\<^sup>*\<^sup>* db db' \<Longrightarrow> jackpot_ok db \<Longrightarrow> offers_advance (offers db) (offers db')"
proof (induction rule: rtranclp_induct)
  case (step y z)
  then have "jackpot_ok y" using jackpot_run.run_keeps by blast
  then show ?case using step jackpot_step_keeps [OF step(2)] offers_advance_trans unfolding keeps_def by blast
qed simp


section \<open>An example\<close>

definition ex_env0 :: env where
  "ex_env0 = ex_env\<lparr>e_now := 100\<rparr>"

definition ex_jackpot :: draw where
  "ex_jackpot = \<lparr>d_drawId = ''j1'', d_drawCode = ''J'', d_drawType = SATURDAY_JACKPOT, d_status = DS_ACTIVE,
     d_prizeDescription = ''Car'', d_prizeValueNgn = 9000000, d_prizeImageUrl = None, d_ticketPriceNgn = 1000,
     d_ticketQuota = None, d_scheduledAt = 900, d_cutoffAt = 800, d_executedAt = None,
     d_configVersion = 1\<rparr>"

definition ex_record :: "nat \<Rightarrow> record_params" where
  "ex_record n = \<lparr>rp_buyerPhone = ''080'', rp_buyerUserId = Some ''c'', rp_ticketCount = n,
     rp_sourcePaymentTxnId = Some ''p1'', rp_sourceWalletPurchaseId = None\<rparr>"

definition ex_jackpot_db :: db where
  "ex_jackpot_db = empty_db\<lparr>draws := [ex_jackpot]\<rparr>"

definition ex_customer :: customer_jwt where
  "ex_customer = \<lparr>cj_sub = ''c'', cj_phoneNumber = ''080''\<rparr>"

lemma ex_fresh: "offers db = [] \<Longrightarrow> fresh_offer_ids ex_env0 db"
  using nat_str_inj by (simp add: fresh_offer_ids_def ex_env0_def ex_env_def inj_on_def)

text \<open>Twelve tickets unlock one offer; an offer under checkout is then claimed by its purchase.\<close>

lemma ex_promotion:
  "\<exists>r db. recordDailyPurchase ex_env0 (ex_record 12) ex_jackpot_db = Inr (r, db) \<and>
     wk_completedThresholds (progress ex_env0 ex_customer db) = 1 \<and> open_jackpot ex_env0 db = Some ex_jackpot"
proof -
  have "case recordDailyPurchase ex_env0 (ex_record 12) ex_jackpot_db of Inl e \<Rightarrow> False | Inr (r, db) \<Rightarrow>
     wk_completedThresholds (progress ex_env0 ex_customer db) = 1 \<and> open_jackpot ex_env0 db = Some ex_jackpot"
    by code_simp
  then show ?thesis by (fastforce split: sum.splits)
qed

definition ex_offer :: jackpot_discount_offer where
  "ex_offer = (offer_row ex_env0 (ex_record 12) ex_jackpot 1 ''o1'')\<lparr>jo_status := JDO_CLAIMING, jo_claimingAt := Some 200\<rparr>"

definition ex_offer_db :: db where
  "ex_offer_db = ex_jackpot_db\<lparr>offers := [ex_offer], accumulations := [new_accumulation ex_env0 (ex_record 12) 12 (Some ''j1'')]\<rparr>"

definition ex_claim :: claim_input where
  "ex_claim = \<lparr>ci_offerId = ''o1'', ci_buyerPhone = ''080'', ci_buyerUserId = ''c'', ci_jackpotDrawId = ''j1'',
     ci_amountNgn = 500, ci_claimedAt = Some 300\<rparr>"

lemmas ex_offer_defs = ex_offer_db_def ex_offer_def ex_claim_def ex_record_def ex_jackpot_def ex_env0_def offer_row_def
  new_accumulation_def JACKPOT_DISCOUNT_PRICE_NGN_def TICKETS_PER_DISCOUNT_OFFER_def

lemma ex_offer_ok: "jackpot_ok ex_offer_db"
  by (auto simp: jackpot_ok_def accum_ok_def phone_offers_def offer_exists_def ex_offer_defs)

lemma ex_claimed: "\<exists>db. markClaimedInTransaction ex_env0 ex_claim ex_offer_db = Inr ((), db) \<and>
    map jo_status (offers db) = [JDO_CLAIMED] \<and> accumulations db = accumulations ex_offer_db"
  by (simp add: markClaimedInTransaction_def ex_offer_defs update_where_def)

lemma jackpot_ok_empty: "offers db = [] \<Longrightarrow> accumulations db = [] \<Longrightarrow> jackpot_ok db"
  by (simp add: jackpot_ok_def)

lemma keeps_refl: "keeps db db"
  by (auto simp: keeps_def)

lemma ex_promotion_run:
  assumes "recordDailyPurchase ex_env0 (ex_record 12) ex_jackpot_db = Inr (r, db)"
  shows "jackpot_step\<^sup>*\<^sup>* ex_jackpot_db db"
proof -
  have "offers ex_jackpot_db = []" by (simp add: ex_jackpot_db_def empty_db_def)
  then show ?thesis using js_record [OF assms ex_fresh] by blast
qed

section \<open>Properties\<close>

text \<open>C26. The promotion pays exactly what was earned: starting without offers, after any sequence of
  purchases and of operations on offers, a phone number has at most one offer for every ten
  tickets it ever bought, each with its own threshold in its jackpot and at the price of 500
  naira; and every threshold that \<open>progress\<close> reports as completed in the open jackpot has its
  offer.\<close>

theorem offers_earned:
  assumes "jackpot_step\<^sup>*\<^sup>* db0 db" "offers db0 = []" "accumulations db0 = []"
  shows "(\<forall>x\<in>set (offers db). \<exists>a. find_accumulation db (jo_buyerPhone x) = Some a \<and>
      10 * length (phone_offers (jo_buyerPhone x) db) \<le> ja_lifetimeTicketCount a \<and>
      jo_offerPriceNgn x = 500 \<and> jo_regularTicketsAtUnlock x = jo_thresholdNumber x * TICKETS_PER_DISCOUNT_OFFER) \<and>
    distinct (map offer_key (offers db)) \<and>
    (\<forall>d k. open_jackpot env db = Some d \<and> 1 \<le> k \<and> k \<le> wk_completedThresholds (progress env user db) \<longrightarrow>
      offer_exists (cj_phoneNumber user) (d_drawId d) k db)"
proof -
  have ok: "jackpot_ok db" using jackpot_run.run_keeps [OF assms(1)] jackpot_ok_empty [OF assms(2,3)] by blast
  have acc: "a \<in> set (accumulations db) \<and> ja_buyerPhone a = ph \<and> accum_ok db a" if "find_accumulation db ph = Some a" for a ph
    using that ok find_Some_set unfolding find_accumulation_def jackpot_ok_def by fastforce
  have "\<exists>a. find_accumulation db (jo_buyerPhone x) = Some a \<and>
      10 * length (phone_offers (jo_buyerPhone x) db) \<le> ja_lifetimeTicketCount a \<and>
      jo_offerPriceNgn x = 500 \<and> jo_regularTicketsAtUnlock x = jo_thresholdNumber x * TICKETS_PER_DISCOUNT_OFFER"
    if x: "x \<in> set (offers db)" for x
  proof -
    have t: "jo_regularTicketsAtUnlock x = jo_thresholdNumber x * 10" "jo_offerPriceNgn x = 500"
      "jo_buyerPhone x \<in> ja_buyerPhone ` set (accumulations db)" using ok x by (simp_all add: jackpot_ok_def)
    obtain a where a: "find_accumulation db (jo_buyerPhone x) = Some a"
      using t(3) by (cases "find_accumulation db (jo_buyerPhone x)") (auto simp: find_accumulation_def find_None_set)
    then show ?thesis using acc [OF a] t by (auto simp: accum_ok_def TICKETS_PER_DISCOUNT_OFFER_def)
  qed
  moreover have "offer_exists (cj_phoneNumber user) (d_drawId d) k db"
    if "open_jackpot env db = Some d" "1 \<le> k" "k \<le> wk_completedThresholds (progress env user db)" for d k
  proof (cases "find_accumulation db (cj_phoneNumber user)")
    case (Some a)
    then show ?thesis using acc [OF Some] that
      by (auto simp: progress_def accum_ok_def TICKETS_PER_DISCOUNT_OFFER_def Let_def split: if_splits)
  qed (use that in \<open>simp add: progress_def TICKETS_PER_DISCOUNT_OFFER_def Let_def\<close>)
  ultimately show ?thesis using ok by (simp add: jackpot_ok_def)
qed

theorem offers_earned_witness:
  "\<exists>db. jackpot_step\<^sup>*\<^sup>* ex_jackpot_db db \<and> offer_exists ''080'' ''j1'' 1 db"
proof -
  obtain r db where x: "recordDailyPurchase ex_env0 (ex_record 12) ex_jackpot_db = Inr (r, db)"
    "wk_completedThresholds (progress ex_env0 ex_customer db) = 1" "open_jackpot ex_env0 db = Some ex_jackpot"
    using ex_promotion by blast
  have e: "offers ex_jackpot_db = []" "accumulations ex_jackpot_db = []" by (simp_all add: ex_jackpot_db_def empty_db_def)
  show ?thesis
    using offers_earned [OF ex_promotion_run [OF x(1)] e, of ex_env0 ex_customer] x(2,3) ex_promotion_run [OF x(1)]
    by (intro exI [of _ db]) (simp add: ex_customer_def ex_jackpot_def)
qed

text \<open>The life of an offer: in any run an offer keeps its id, phone, jackpot, threshold, price and
  expiry, a customer bound to it stays bound, and once it is claimed, declined or expired it
  stays so, with its dates.\<close>

theorem offer_final:
  assumes "jackpot_step\<^sup>*\<^sup>* db db'" "jackpot_ok db" "x \<in> set (offers db)"
  shows "\<exists>y\<in>set (offers db'). jo_offerId y = jo_offerId x \<and> offer_key y = offer_key x \<and>
    jo_offerPriceNgn y = jo_offerPriceNgn x \<and> jo_expiresAt y = jo_expiresAt x \<and>
    (jo_buyerUserId x \<noteq> None \<longrightarrow> jo_buyerUserId y = jo_buyerUserId x) \<and>
    (jo_status x \<in> {JDO_CLAIMED, JDO_DECLINED, JDO_EXPIRED} \<longrightarrow>
      jo_status y = jo_status x \<and> jo_claimedAt y = jo_claimedAt x \<and> jo_declinedAt y = jo_declinedAt x)"
proof -
  obtain us vs where "offers db' = us @ vs" "list_all2 offer_evolves (offers db) us"
    using jackpot_run_advance [OF assms(1,2)] by (auto simp: offers_advance_def)
  moreover from this assms(3) obtain i where "i < length us" "x = offers db ! i" "offer_evolves x (us ! i)"
    by (metis in_set_conv_nth list_all2_conv_all_nth)
  ultimately obtain y where "y \<in> set (offers db')" "offer_evolves x y" by (metis UnI1 nth_mem set_append)
  then show ?thesis by (auto simp: offer_evolves_def final_status_def)
qed

theorem offer_final_witness:
  "\<exists>db. jackpot_step\<^sup>*\<^sup>* ex_offer_db db \<and> (\<exists>y\<in>set (offers db). jo_offerId y = ''o1'' \<and> jo_offerPriceNgn y = 500)"
proof -
  obtain db where "markClaimedInTransaction ex_env0 ex_claim ex_offer_db = Inr ((), db)" using ex_claimed by blast
  then have run: "jackpot_step\<^sup>*\<^sup>* ex_offer_db db" by (blast intro: js_claimed)
  have "ex_offer \<in> set (offers ex_offer_db)" by (simp add: ex_offer_db_def)
  from offer_final [OF run ex_offer_ok this] run show ?thesis by (auto simp: ex_offer_defs)
qed

end
