(* ===== verification/Wallet_Purchase.thy ===== *)
theory Wallet_Purchase
  imports Wallet Account Jackpot_Offers Ledger_Chart
begin

text \<open>
  \<open>apps/api/src/payments/wallet-ticket-purchase.service.ts\<close>: buying tickets with wallet money.
  One serializable transaction reserves the promotional offer, checks the draw and the account,
  holds the money, issues the tickets, counts them for the jackpot promotion, captures the hold
  to revenue and completes the purchase; a retry with the same key is answered from the stored
  purchase. The jobs for the notification queue are left out.
\<close>

section \<open>Ticket references\<close>

text \<open>\<open>ticket-ref.util.ts\<close>: \<open>rnd i\<close> is the i-th \<open>randomInt(ALPHABET.length)\<close>.\<close>

definition ALPHABET :: string where
  "ALPHABET = ''ABCDEFGHJKLMNPQRSTUVWXYZ23456789''"

definition generateTicketRef :: "(nat \<Rightarrow> nat) \<Rightarrow> string" where
  "generateTicketRef rnd =
     (let block = (\<lambda>k. map (\<lambda>i. ALPHABET ! rnd (k + i)) [0..<4]) in ''SW-'' @ block 0 @ ''-'' @ block 4)"

section \<open>Input and result\<close>

record wallet_purchase_dto =
  wd_drawCode :: string
  wd_quantity :: nat
  wd_stateOfPlayCode :: string
  wd_idempotencyKey :: string
  wd_jackpotDiscountOfferId :: "string option"

record purchase_view =
  pv_purchaseId :: string
  pv_walletId :: "string option"
  pv_drawId :: string
  pv_drawCode :: string
  pv_drawType :: DrawType
  pv_drawScheduledAt :: string
  pv_amountNgn :: int
  pv_ticketCount :: nat
  pv_pricingContext :: PurchasePricingContext
  pv_jackpotDiscountOfferId :: "string option"
  pv_ticketRefs :: "string list"
  pv_jackpotOfferUnlock :: "offer_unlock option"
  pv_completedAt :: "string option"
  pv_status :: WalletPurchaseStatus
  pv_wallet :: "wallet_view option"
  pv_replayed :: bool

text \<open>\<open>replayResult\<close>; the tickets of one purchase share their creation time, here they keep their order.\<close>

definition replayResult :: "db \<Rightarrow> string \<Rightarrow> wallet_purchase_dto \<Rightarrow> wallet_purchase \<Rightarrow> purchase_view res" where
  "replayResult db userId dto p =
     bind_res (from_option (JsError ''Inconsistent query result'') (find (\<lambda>d. d_drawId d = wp_drawId p) (draws db))) (\<lambda>d.
     if wp_buyerUserId p \<noteq> userId then Inl (ConflictException ''Idempotency key belongs to another purchase'')
     else if d_drawCode d \<noteq> wd_drawCode dto \<or> wp_ticketCount p \<noteq> wd_quantity dto \<or>
         wp_stateOfPlayCode p \<noteq> js_trim (wd_stateOfPlayCode dto) \<or>
         wp_jackpotDiscountOfferId p \<noteq> wd_jackpotDiscountOfferId dto
     then Inl (ConflictException ''Idempotency key was reused with different purchase details'')
     else Inr
       \<lparr>pv_purchaseId = wp_purchaseId p, pv_walletId = None, pv_drawId = d_drawId d, pv_drawCode = d_drawCode d,
        pv_drawType = d_drawType d, pv_drawScheduledAt = to_iso_string (d_scheduledAt d),
        pv_amountNgn = wp_amountNgn p, pv_ticketCount = wp_ticketCount p, pv_pricingContext = wp_pricingContext p,
        pv_jackpotDiscountOfferId = wp_jackpotDiscountOfferId p,
        pv_ticketRefs = map t_ticketRef (filter (\<lambda>t. t_walletPurchaseId t = Some (wp_purchaseId p)) (tickets db)),
        pv_jackpotOfferUnlock = None, pv_completedAt = map_option to_iso_string (wp_completedAt p),
        pv_status = wp_status p, pv_wallet = None, pv_replayed = True\<rparr>)"

section \<open>The rows of a purchase\<close>

definition find_purchase :: "db \<Rightarrow> string \<Rightarrow> wallet_purchase option" where
  "find_purchase db key = find (\<lambda>p. wp_idempotencyKey p = key) (walletPurchases db)"

definition create_purchase :: "'a env_scheme \<Rightarrow> wallet_purchase \<Rightarrow> db \<Rightarrow> (wallet_purchase \<times> db) res" where
  "create_purchase env p0 db =
     (let p = p0\<lparr>wp_purchaseId := e_uuid env (seq db)\<rparr> in
      if length (wp_idempotencyKey p) > 200 \<or> length (wp_stateOfPlayCode p) > 32 then Inl (PrismaError ''P2000'')
      else if wp_amountNgn p > MAX_INT4 then Inl (PrismaError ''P2020'')
      else if find_purchase db (wp_idempotencyKey p) \<noteq> None \<or>
          (\<exists>x\<in>set (walletPurchases db). wp_purchaseId x = wp_purchaseId p)
      then Inl unique_violation
      else Inr (p, db\<lparr>walletPurchases := walletPurchases db @ [p], seq := seq db + 1\<rparr>))"

definition complete_purchase :: "string \<Rightarrow> string \<Rightarrow> int \<Rightarrow> db \<Rightarrow> db res" where
  "complete_purchase purchaseId holdId completedAt db =
     (if \<exists>x\<in>set (walletPurchases db). wp_purchaseId x \<noteq> purchaseId \<and> wp_holdId x = Some holdId
      then Inl unique_violation
      else if \<forall>x\<in>set (walletPurchases db). wp_purchaseId x \<noteq> purchaseId then Inl (PrismaError ''P2025'')
      else Inr (db\<lparr>walletPurchases := update_where (\<lambda>x. wp_purchaseId x = purchaseId)
        (\<lambda>x. x\<lparr>wp_status := WPS_COMPLETED, wp_holdId := Some holdId, wp_completedAt := Some completedAt\<rparr>)
        (walletPurchases db)\<rparr>))"

text \<open>\<open>ticket.createMany\<close>: one row after the other, each under the unique indexes.\<close>

fun create_tickets :: "'a env_scheme \<Rightarrow> ticket list \<Rightarrow> db \<Rightarrow> db res" where
  "create_tickets env [] db = Inr db"
| "create_tickets env (t # ts) db =
     (if \<exists>x\<in>set (tickets db). t_ticketId x = e_uuid env (seq db) \<or> t_ticketRef x = t_ticketRef t \<or>
          (t_jackpotDiscountOfferId t \<noteq> None \<and> t_jackpotDiscountOfferId x = t_jackpotDiscountOfferId t)
      then Inl unique_violation
      else create_tickets env ts
        (db\<lparr>tickets := tickets db @ [t\<lparr>t_ticketId := e_uuid env (seq db)\<rparr>], seq := seq db + 1\<rparr>))"

text \<open>The context of the purchase: the offer redeemed (if any), the draw, the buyer.\<close>

record purchase_ctx =
  px_offer :: "jackpot_discount_offer option"
  px_draw :: draw
  px_user :: user
  px_walletId :: string

definition px_offerId :: "purchase_ctx \<Rightarrow> string option" where
  "px_offerId c = map_option jo_offerId (px_offer c)"

definition px_pricing :: "purchase_ctx \<Rightarrow> PurchasePricingContext" where
  "px_pricing c = (if px_offer c = None then NORMAL else PROMOTIONAL_JACKPOT)"

definition px_price :: "purchase_ctx \<Rightarrow> int" where
  "px_price c = (case px_offer c of None \<Rightarrow> d_ticketPriceNgn (px_draw c) | Some x \<Rightarrow> jo_offerPriceNgn x)"

primrec pricing_str :: "PurchasePricingContext \<Rightarrow> string" where
  "pricing_str NORMAL = ''NORMAL''"
| "pricing_str PROMOTIONAL_JACKPOT = ''PROMOTIONAL_JACKPOT''"

definition purchase_metadata :: "purchase_ctx \<Rightarrow> wallet_purchase_dto \<Rightarrow> string \<Rightarrow> json" where
  "purchase_metadata c dto purchaseId =
     JObj [(''purchaseId'', JStr purchaseId), (''drawId'', JStr (d_drawId (px_draw c))),
       (''drawCode'', JStr (d_drawCode (px_draw c))), (''ticketCount'', JNum (int (wd_quantity dto))),
       (''pricingContext'', JStr (pricing_str (px_pricing c))),
       (''jackpotDiscountOfferId'', json_opt (px_offerId c))]"

definition purchase_row :: "purchase_ctx \<Rightarrow> wallet_purchase_dto \<Rightarrow> int \<Rightarrow> wallet_purchase" where
  "purchase_row c dto amountNgn =
     \<lparr>wp_purchaseId = [], wp_idempotencyKey = wd_idempotencyKey dto, wp_walletId = px_walletId c,
      wp_buyerUserId = u_userId (px_user c), wp_buyerPhone = u_phoneNumber (px_user c),
      wp_drawId = d_drawId (px_draw c), wp_stateOfPlayCode = js_trim (wd_stateOfPlayCode dto),
      wp_ticketCount = wd_quantity dto, wp_amountNgn = amountNgn, wp_pricingContext = px_pricing c,
      wp_jackpotDiscountOfferId = px_offerId c, wp_status = WPS_PENDING, wp_holdId = None, wp_completedAt = None\<rparr>"

definition purchase_hold :: "purchase_ctx \<Rightarrow> wallet_purchase_dto \<Rightarrow> int \<Rightarrow> string \<Rightarrow> create_hold_input" where
  "purchase_hold c dto amountNgn purchaseId =
     \<lparr>ch_walletId = px_walletId c, ch_amountNgn = amountNgn,
      ch_idempotencyKey = ''WALLET-PURCHASE-HOLD:'' @ purchaseId, ch_referenceType = ''WalletPurchase'',
      ch_referenceId = purchaseId, ch_description = ''Hold for ticket purchase '' @ purchaseId,
      ch_metadata = Some (purchase_metadata c dto purchaseId), ch_occurredAt = None\<rparr>"

definition purchase_ticket :: "purchase_ctx \<Rightarrow> wallet_purchase_dto \<Rightarrow> string \<Rightarrow> (nat \<Rightarrow> nat) \<Rightarrow> ticket" where
  "purchase_ticket c dto purchaseId rnd =
     \<lparr>t_ticketId = [], t_ticketRef = generateTicketRef rnd, t_drawId = d_drawId (px_draw c),
      t_ticketType = (if d_drawType (px_draw c) = SATURDAY_JACKPOT then JACKPOT else STANDARD),
      t_faceValueNgn = px_price c, t_buyerPhone = u_phoneNumber (px_user c),
      t_buyerUserId = Some (u_userId (px_user c)), t_agentId = None, t_purchaseChannel = CHANNEL_DIRECT,
      t_stateOfPlayCode = js_trim (wd_stateOfPlayCode dto), t_paymentTxnId = None,
      t_walletPurchaseId = Some purchaseId, t_jackpotDiscountOfferId = px_offerId c,
      t_status = TS_ACTIVE, t_isWinner = False\<rparr>"

definition purchase_capture :: "purchase_ctx \<Rightarrow> wallet_purchase_dto \<Rightarrow> string \<Rightarrow> string \<Rightarrow> string \<Rightarrow> capture_input" where
  "purchase_capture c dto purchaseId holdId revenueAccountId =
     \<lparr>cp_holdId = holdId, cp_counterAccountId = revenueAccountId,
      cp_idempotencyKey = ''WALLET-PURCHASE-CAPTURE:'' @ purchaseId,
      cp_description = ''Ticket purchase '' @ purchaseId, cp_kind = Some PURCHASE,
      cp_metadata = Some (purchase_metadata c dto purchaseId), cp_occurredAt = None\<rparr>"

section \<open>The transaction\<close>

text \<open>Its checks: the offer, the draw, the amount and the limits of the account.\<close>

definition purchase_context ::
  "'a env_scheme \<Rightarrow> user \<Rightarrow> string \<Rightarrow> wallet_purchase_dto \<Rightarrow> db \<Rightarrow> ((purchase_ctx \<times> int) \<times> db) res" where
  "purchase_context env user walletId dto db =
     bind_res (case wd_jackpotDiscountOfferId dto of
         None \<Rightarrow> Inr (None, db)
       | Some offerId \<Rightarrow>
           (if offerId = [] then Inr (None, db)
            else bind_res (reserveForPurchaseInTransaction env
              \<lparr>cj_sub = u_userId user, cj_phoneNumber = u_phoneNumber user\<rparr> offerId db) (\<lambda>(xd, db1). Inr (Some xd, db1))))
       (\<lambda>(promotionalOffer, db1).
     if promotionalOffer \<noteq> None \<and> wd_quantity dto \<noteq> 1 then
       Inl (ConflictException ''Promotional jackpot purchases must contain exactly one ticket'')
     else if (case promotionalOffer of None \<Rightarrow> False | Some (x, _) \<Rightarrow>
         \<exists>p\<in>set (payments db1). pt_jackpotDiscountOfferId p = Some (jo_offerId x) \<and>
           pt_status p \<in> {PS_PENDING, PS_CONFIRMED, PS_REVIEW_REQUIRED, PS_REFUND_PENDING}) then
       Inl (ConflictException ''Jackpot offer already has an active Paystack purchase attempt'')
     else case find (\<lambda>d. case promotionalOffer of None \<Rightarrow> d_drawCode d = wd_drawCode dto
         | Some (x, _) \<Rightarrow> d_drawId d = jo_jackpotDrawId x) (draws db1) of
       None \<Rightarrow> Inl (NotFoundException ''Draw not found'')
     | Some draw \<Rightarrow>
         if (case promotionalOffer of None \<Rightarrow> False | Some (_, d) \<Rightarrow> d_drawCode draw \<noteq> d_drawCode d) then
           Inl (ConflictException ''Promotional jackpot offer draw mismatch'')
         else if d_status draw \<noteq> DS_ACTIVE then Inl (ConflictException ''Draw is not open for ticket sales'')
         else if d_cutoffAt draw \<le> e_now env then Inl (ConflictException ''Ticket sales for this draw have closed'')
         else
           let c = \<lparr>px_offer = map_option fst promotionalOffer, px_draw = draw, px_user = user, px_walletId = walletId\<rparr>;
               amountNgn = (case promotionalOffer of None \<Rightarrow> d_ticketPriceNgn draw * int (wd_quantity dto)
                 | Some (x, _) \<Rightarrow> jo_offerPriceNgn x) in
           if \<not> is_safe_integer amountNgn \<or> amountNgn \<le> 0 then Inl (ConflictException ''Invalid purchase amount'')
           else bind_res (assertWalletPurchaseAllowedInTransaction env (u_userId user) amountNgn db1) (\<lambda>_.
             Inr ((c, amountNgn), db1)))"

text \<open>Its writes.\<close>

definition purchase_writes ::
  "'a env_scheme \<Rightarrow> (nat \<Rightarrow> nat \<Rightarrow> nat) \<Rightarrow> purchase_ctx \<Rightarrow> wallet_purchase_dto \<Rightarrow> int \<Rightarrow> db \<Rightarrow> (purchase_view \<times> db) res" where
  "purchase_writes env rnd c dto amountNgn db1 =
     (case find_account_by_code db1 TICKET_SALES_REVENUE_CODE of
        None \<Rightarrow> Inl (ConflictException ''Ticket sales ledger account is missing'')
      | Some revenueAccount \<Rightarrow>
          bind_res (create_purchase env (purchase_row c dto amountNgn) db1) (\<lambda>(purchase, db2).
          let purchaseId = wp_purchaseId purchase; draw = px_draw c in
          bind_res (createHoldInTransaction env (purchase_hold c dto amountNgn purchaseId) db2) (\<lambda>(hold, db3).
          let rows = map (\<lambda>k. purchase_ticket c dto purchaseId (rnd k)) [0..<wd_quantity dto] in
          bind_res (create_tickets env rows db3) (\<lambda>db4.
          bind_res
            (if d_drawType draw = DAILY_STANDARD
             then recordDailyPurchase env
               \<lparr>rp_buyerPhone = u_phoneNumber (px_user c), rp_buyerUserId = Some (u_userId (px_user c)),
                rp_ticketCount = wd_quantity dto, rp_sourcePaymentTxnId = None,
                rp_sourceWalletPurchaseId = Some purchaseId\<rparr> db4
             else Inr (None, db4)) (\<lambda>(unlock, db5).
          bind_res (captureHoldInTransaction env
            (purchase_capture c dto purchaseId (wh_holdId hold) (la_accountId revenueAccount)) db5) (\<lambda>(_, db6).
          bind_res (complete_purchase purchaseId (wh_holdId hold) (e_now env) db6) (\<lambda>db7.
          bind_res (case px_offer c of None \<Rightarrow> Inr ((), db7)
            | Some x \<Rightarrow> markClaimedInTransaction env
                \<lparr>ci_offerId = jo_offerId x, ci_buyerPhone = u_phoneNumber (px_user c),
                 ci_buyerUserId = u_userId (px_user c), ci_jackpotDrawId = d_drawId draw,
                 ci_amountNgn = amountNgn, ci_claimedAt = Some (e_now env)\<rparr> db7) (\<lambda>(_, db8).
          Inr
            (\<lparr>pv_purchaseId = purchaseId, pv_walletId = Some (px_walletId c), pv_drawId = d_drawId draw,
              pv_drawCode = d_drawCode draw, pv_drawType = d_drawType draw,
              pv_drawScheduledAt = to_iso_string (d_scheduledAt draw), pv_amountNgn = amountNgn,
              pv_ticketCount = wd_quantity dto, pv_pricingContext = px_pricing c,
              pv_jackpotDiscountOfferId = px_offerId c, pv_ticketRefs = map t_ticketRef rows,
              pv_jackpotOfferUnlock = unlock, pv_completedAt = Some (to_iso_string (e_now env)),
              pv_status = WPS_COMPLETED, pv_wallet = None, pv_replayed = False\<rparr>, db8)))))))))"

definition purchase_tx ::
  "'a env_scheme \<Rightarrow> (nat \<Rightarrow> nat \<Rightarrow> nat) \<Rightarrow> user \<Rightarrow> string \<Rightarrow> wallet_purchase_dto \<Rightarrow> db \<Rightarrow> (purchase_view \<times> db) res" where
  "purchase_tx env rnd user walletId dto db =
     bind_res (purchase_context env user walletId dto db) (\<lambda>((c, amountNgn), db1).
     purchase_writes env rnd c dto amountNgn db1)"

section \<open>The operation\<close>

definition assertNotBlocked :: "string \<Rightarrow> db \<Rightarrow> unit res" where
  "assertNotBlocked phoneNumber db =
     (if phoneNumber \<in> set (blockedPhones db)
      then Inl (ConflictException ''Purchases are not available for this account'') else Inr ())"

definition purchase_audit :: "'a env_scheme \<Rightarrow> string \<Rightarrow> purchase_view \<Rightarrow> db \<Rightarrow> db" where
  "purchase_audit env userId v db =
     write_audit env \<lparr>al_severity = SEV_INFO, al_actorType = ACTOR_CUSTOMER, al_actorId = Some userId,
       al_action = ''WALLET_TICKET_PURCHASE_COMPLETED'', al_resourceType = ''WalletPurchase'',
       al_resourceId = pv_purchaseId v, al_metadata = JNull, al_signature = None\<rparr>
       [(''walletId'', json_opt (pv_walletId v)), (''drawId'', JStr (pv_drawId v)), (''drawCode'', JStr (pv_drawCode v)),
        (''ticketCount'', JNum (int (pv_ticketCount v))), (''amountNgn'', JNum (pv_amountNgn v)),
        (''pricingContext'', JStr (pricing_str (pv_pricingContext v))),
        (''jackpotDiscountOfferId'', json_opt (pv_jackpotDiscountOfferId v)),
        (''jackpotOffersUnlocked'', JNum (case pv_jackpotOfferUnlock v of None \<Rightarrow> 0 | Some u \<Rightarrow> int (ou_offersUnlocked u)))] db"

text \<open>
  \<open>purchase\<close>. \<open>cw\<close> says how the transaction that may create the wallet ends, \<open>c\<close> how the purchase's
  own one does: with \<open>LostRace cur\<close> another request with the key committed first, this one failed
  with P2002 and was rolled back, and the recovery reads \<open>cur\<close>. A refused purchase returns the
  error alone; the empty wallet that \<open>getCustomerWallet\<close> may have created before stays.
\<close>

definition recover_purchase :: "string \<Rightarrow> wallet_purchase_dto \<Rightarrow> db \<Rightarrow> error \<Rightarrow> (purchase_view \<times> db) res" where
  "recover_purchase userId dto cur err =
     (if is_unique_violation err then
        (case find_purchase cur (wd_idempotencyKey dto) of
           Some existing \<Rightarrow> bind_res (replayResult cur userId dto existing) (\<lambda>v. Inr (v, cur))
         | None \<Rightarrow> Inl err)
      else Inl err)"

definition purchase ::
  "'a env_scheme \<Rightarrow> (nat \<Rightarrow> nat \<Rightarrow> nat) \<Rightarrow> string \<Rightarrow> wallet_purchase_dto \<Rightarrow> commit \<Rightarrow> commit \<Rightarrow> db \<Rightarrow> (purchase_view \<times> db) res" where
  "purchase env rnd userId dto cw c db =
     (case find_purchase db (wd_idempotencyKey dto) of
        Some replay \<Rightarrow> bind_res (replayResult db userId dto replay) (\<lambda>v. Inr (v, db))
      | None \<Rightarrow>
          bind_res (from_option (NotFoundException ''Customer not found'') (find_user db userId)) (\<lambda>user.
          bind_res (assertNotBlocked (u_phoneNumber user) db) (\<lambda>_.
          bind_res (getCustomerWallet env userId cw db) (\<lambda>(wallet, db0).
          case purchase_tx env rnd user (wv_walletId wallet) dto db0 of
            Inl err \<Rightarrow> recover_purchase userId dto db0 err
          | Inr (v, db1) \<Rightarrow>
              (case c of
                 LostRace cur \<Rightarrow> recover_purchase userId dto cur unique_violation
               | Commits \<Rightarrow>
                   let db2 = purchase_audit env userId v db1 in
                   bind_res (getCustomerWallet env userId Commits db2) (\<lambda>(w, db3).
                   Inr (v\<lparr>pv_wallet := Some w\<rparr>, db3)))))))"

text \<open>\<open>getPurchase\<close>.\<close>

record purchase_detail =
  pd_purchaseId :: string
  pd_reference :: string
  pd_drawCode :: string
  pd_amountNgn :: int
  pd_ticketCount :: nat
  pd_pricingContext :: PurchasePricingContext
  pd_jackpotDiscountOfferId :: "string option"
  pd_stateOfPlayCode :: string
  pd_status :: WalletPurchaseStatus
  pd_ticketRefs :: "string list"
  pd_hold :: "wallet_hold option"
  pd_completedAt :: "string option"

definition getPurchase :: "db \<Rightarrow> string \<Rightarrow> string \<Rightarrow> purchase_detail res" where
  "getPurchase db userId purchaseId =
     (case find (\<lambda>p. wp_purchaseId p = purchaseId \<and> wp_buyerUserId p = userId) (walletPurchases db) of
        None \<Rightarrow> Inl (NotFoundException ''Wallet purchase not found'')
      | Some p \<Rightarrow>
          bind_res (from_option (JsError ''Inconsistent query result'') (find (\<lambda>d. d_drawId d = wp_drawId p) (draws db))) (\<lambda>d.
          Inr \<lparr>pd_purchaseId = wp_purchaseId p, pd_reference = wp_idempotencyKey p, pd_drawCode = d_drawCode d,
            pd_amountNgn = wp_amountNgn p, pd_ticketCount = wp_ticketCount p, pd_pricingContext = wp_pricingContext p,
            pd_jackpotDiscountOfferId = wp_jackpotDiscountOfferId p, pd_stateOfPlayCode = wp_stateOfPlayCode p,
            pd_status = wp_status p,
            pd_ticketRefs = map t_ticketRef (filter (\<lambda>t. t_walletPurchaseId t = Some (wp_purchaseId p)) (tickets db)),
            pd_hold = (case wp_holdId p of None \<Rightarrow> None | Some h \<Rightarrow> find_hold db h),
            pd_completedAt = map_option to_iso_string (wp_completedAt p)\<rparr>))"

end
