(* ===== verification/Wallet_Purchase_Laws.thy ===== *)
theory Wallet_Purchase_Laws
  imports Wallet_Purchase Account_Laws Jackpot_Laws
begin

text \<open>
  What the parts of a wallet purchase write and leave alone: the transaction taken apart step by
  step, the rows and the money of its writes, the wallet of the buyer, the whole operation.
\<close>

section \<open>Which tables each part touches\<close>

definition hold_frame :: "db \<Rightarrow> db \<Rightarrow> bool" where
  "hold_frame db db' \<longleftrightarrow>
     db' = db\<lparr>txns := txns db', entries := entries db', holds := holds db', seq := seq db'\<rparr>"

lemma hold_frame_sel:
  assumes "hold_frame db db'"
  shows "accounts db' = accounts db" "wallets db' = wallets db" "users db' = users db" "payments db' = payments db"
    "walletPurchases db' = walletPurchases db" "draws db' = draws db" "tickets db' = tickets db"
    "accumulations db' = accumulations db" "offers db' = offers db"
  by (subst assms [unfolded hold_frame_def], simp)+

lemma hold_frame_refl: "hold_frame db db"
  by (simp add: hold_frame_def)

lemma same_frame_hold:
  assumes "same_frame db db1"
  shows "hold_frame db (db1\<lparr>holds := hs, seq := n\<rparr>)" "hold_frame db (db1\<lparr>holds := hs\<rparr>)"
  using assms by (auto simp: same_frame_def hold_frame_def)

lemma createHold_frame:
  assumes "createHoldInTransaction env inp db = Inr (h, db')" "ledger_ok db"
  shows "hold_frame db db'"
  using assms(1)
proof (cases rule: createHold_cases)
  case (fresh w v db1)
  then show ?thesis using same_frame_hold(1) [OF post_facts(2) [OF fresh(6) assms(2)]] by simp
qed (simp add: hold_frame_refl)

lemma captureHold_frame:
  assumes "captureHoldInTransaction env inp db = Inr (h, db')" "ledger_ok db"
  shows "hold_frame db db'"
  using assms(1)
proof (cases rule: capture_cases)
  case (fresh h0 w v db1)
  then show ?thesis using same_frame_hold(2) [OF post_facts(2) [OF fresh(5) assms(2)]] by simp
qed (simp add: hold_frame_refl)

definition promo_frame :: "db \<Rightarrow> db \<Rightarrow> bool" where
  "promo_frame db db' \<longleftrightarrow> db' = db\<lparr>accumulations := accumulations db', offers := offers db', seq := seq db'\<rparr>"

lemma promo_frame_sel:
  assumes "promo_frame db db'"
  shows "accounts db' = accounts db" "wallets db' = wallets db" "holds db' = holds db" "txns db' = txns db"
    "entries db' = entries db" "users db' = users db" "payments db' = payments db"
    "walletPurchases db' = walletPurchases db" "draws db' = draws db" "tickets db' = tickets db"
  by (subst assms [unfolded promo_frame_def], simp)+

lemma promo_frame_refl: "promo_frame db db"
  by (simp add: promo_frame_def)

lemma promo_frame_trans:
  assumes "promo_frame a b" "promo_frame b c"
  shows "promo_frame a c"
proof -
  have "c = b\<lparr>accumulations := accumulations c, offers := offers c, seq := seq c\<rparr>" using assms(2) by (simp add: promo_frame_def)
  also have "\<dots> = a\<lparr>accumulations := accumulations c, offers := offers c, seq := seq c\<rparr>"
    by (subst assms(1) [unfolded promo_frame_def]) simp
  finally show ?thesis by (simp only: promo_frame_def)
qed

lemma promo_frame_writes: "promo_frame db (db\<lparr>offers := os\<rparr>)" "promo_frame db (db\<lparr>accumulations := acs\<rparr>)"
  "promo_frame db (db\<lparr>accumulations := acs, seq := n\<rparr>)" "promo_frame db (db\<lparr>offers := os, seq := n\<rparr>)"
  "promo_frame db (db\<lparr>seq := n\<rparr>)"
  by (simp_all add: promo_frame_def)

lemma create_offers_frame: "create_offers env p d ns db = (n, db') \<Longrightarrow> promo_frame db db'"
proof (induction ns arbitrary: db n)
  case (Cons k ns)
  show ?case
  proof (cases "offer_exists (rp_buyerPhone p) (d_drawId d) k db \<or> e_uuid env (seq db) \<in> jo_offerId ` set (offers db)")
    case True
    then have "promo_frame (db\<lparr>seq := seq db + 1\<rparr>) db'" using Cons by simp
    with promo_frame_writes(5) show ?thesis by (rule promo_frame_trans)
  next
    case False
    then obtain m where "create_offers env p d ns
        (db\<lparr>offers := offers db @ [offer_row env p d k (e_uuid env (seq db))], seq := seq db + 1\<rparr>) = (m, db')"
      using Cons.prems by (auto simp: Let_def split: prod.splits)
    then have "promo_frame (db\<lparr>offers := offers db @ [offer_row env p d k (e_uuid env (seq db))], seq := seq db + 1\<rparr>) db'"
      by (rule Cons.IH)
    with promo_frame_writes(4) show ?thesis by (rule promo_frame_trans)
  qed
qed (simp add: promo_frame_refl)

lemma upsert_frame: "upsert_accumulation env phone row upd db = (a, db1) \<Longrightarrow> promo_frame db db1"
  by (auto simp: upsert_accumulation_def Let_def split: option.splits intro: promo_frame_writes)

lemma recordDailyPurchase_frame:
  assumes "recordDailyPurchase env p db = Inr (r, db')"
  shows "promo_frame db db'"
  using assms
proof (cases rule: recordDailyPurchase_cases)
  case (closed a)
  show ?thesis by (rule upsert_frame [OF closed(3)])
next
  case (opened d same prev a db1 made)
  show ?thesis by (rule promo_frame_trans [OF upsert_frame [OF opened(4)] create_offers_frame [OF opened(5)]])
qed

lemma reserve_in_purchase_frame:
  assumes "reserveForPurchaseInTransaction env user i db = Inr (xd, db')"
  shows "promo_frame db db'"
proof -
  have u: "promo_frame a b" if "update_offer i upd a = Inr (yd, b)" for upd a b yd
    using that by (auto simp: update_offer_def Let_def res_simps intro: promo_frame_writes)
  show ?thesis
    by (rule reserve_in_purchase_cases [OF assms]) (auto simp: promo_frame_refl split: if_splits intro: u promo_frame_trans)
qed

lemma mark_claimed_frame: "markClaimedInTransaction env inp db = Inr (u, db') \<Longrightarrow> promo_frame db db'"
  by (auto simp: markClaimedInTransaction_def Let_def split: if_splits intro: promo_frame_writes)

text \<open>The tickets issued are the rows asked for, with new ids; their references are new.\<close>

lemma create_tickets_rows:
  assumes "create_tickets env ts db = Inr db'"
  shows "\<exists>new n. db' = db\<lparr>tickets := tickets db @ new, seq := n\<rparr> \<and>
    list_all2 (\<lambda>t t'. \<exists>i. t' = t\<lparr>t_ticketId := i\<rparr>) ts new \<and> distinct (map t_ticketRef new) \<and>
    set (map t_ticketRef new) \<inter> set (map t_ticketRef (tickets db)) = {}"
  using assms
proof (induction ts arbitrary: db)
  case (Cons t ts)
  let ?t = "t\<lparr>t_ticketId := e_uuid env (seq db)\<rparr>"
  let ?db = "db\<lparr>tickets := tickets db @ [?t], seq := seq db + 1\<rparr>"
  have c: "t_ticketRef t \<notin> set (map t_ticketRef (tickets db))" "create_tickets env ts ?db = Inr db'"
    using Cons.prems by (auto split: if_splits)
  from Cons.IH [OF c(2)] obtain new n where new: "db' = ?db\<lparr>tickets := tickets ?db @ new, seq := n\<rparr>"
    "list_all2 (\<lambda>t t'. \<exists>i. t' = t\<lparr>t_ticketId := i\<rparr>) ts new" "distinct (map t_ticketRef new)"
    "set (map t_ticketRef new) \<inter> set (map t_ticketRef (tickets ?db)) = {}" by blast
  have "db' = db\<lparr>tickets := tickets db @ (?t # new), seq := n\<rparr>" using new(1) by simp
  moreover have "list_all2 (\<lambda>t t'. \<exists>i. t' = t\<lparr>t_ticketId := i\<rparr>) (t # ts) (?t # new)" using new(2) by auto
  moreover have "distinct (map t_ticketRef (?t # new))" using new(3,4) by auto
  moreover have "set (map t_ticketRef (?t # new)) \<inter> set (map t_ticketRef (tickets db)) = {}" using new(4) c(1) by auto
  ultimately show ?case by blast
next
  case Nil
  then show ?case by (intro exI [of _ "[]"] exI [of _ "seq db"]) simp
qed

section \<open>The parts of the transaction\<close>

lemma createHold_ledger_ok:
  assumes "createHoldInTransaction env inp db = Inr (h, db')" "ledger_ok db"
  shows "ledger_ok db'"
  using assms(1)
proof (cases rule: createHold_cases)
  case (fresh w v db1)
  then show ?thesis using post_facts(1) [OF fresh(6) assms(2)] by (simp add: ledger_ok_def entries_of_def)
qed (use assms(2) in simp)

lemma reserved_id:
  assumes "reserveForPurchaseInTransaction env user i db = Inr (xd, db')"
  shows "jo_offerId (fst xd) = i"
proof -
  have f: "jo_offerId x = i" if "find_offer a i = Some x" for a x
    using that by (auto simp: find_offer_def dest: find_Some_set)
  have u: "jo_offerId (fst yd) = i" if "update_offer i upd a = Inr (yd, b)" for upd a b yd
    using that by (auto simp: update_offer_def with_draw_def Let_def res_simps intro: f)
  show ?thesis
    by (rule reserve_in_purchase_cases [OF assms]) (auto split: if_splits dest: u intro: f)
qed

lemma purchase_context_cases:
  assumes "purchase_context env user walletId dto db = Inr ((c, n), db1)"
  obtains "promo_frame db db1" "px_user c = user" "px_walletId c = walletId" "px_draw c \<in> set (draws db)"
    "d_status (px_draw c) = DS_ACTIVE" "e_now env < d_cutoffAt (px_draw c)" "0 < n"
    "n = px_price c * int (wd_quantity dto)" "assertWalletPurchaseAllowedInTransaction env (u_userId user) n db1 = Inr ()"
    "wd_jackpotDiscountOfferId dto = None \<Longrightarrow> px_offer c = None \<and> d_drawCode (px_draw c) = wd_drawCode dto \<and> db1 = db"
    "wd_jackpotDiscountOfferId dto \<noteq> Some [] \<Longrightarrow> px_offerId c = wd_jackpotDiscountOfferId dto"
proof -
  define promo where "promo = (case wd_jackpotDiscountOfferId dto of
         None \<Rightarrow> Inr (None, db)
       | Some offerId \<Rightarrow>
           (if offerId = [] then Inr (None, db)
            else bind_res (reserveForPurchaseInTransaction env
              \<lparr>cj_sub = u_userId user, cj_phoneNumber = u_phoneNumber user\<rparr> offerId db) (\<lambda>(xd, db1). Inr (Some xd, db1))))"
  obtain po db0 where p: "promo = Inr (po, db0)"
    using assms unfolding purchase_context_def promo_def [symmetric] by (cases promo) auto
  have f: "promo_frame db db0" and none: "wd_jackpotDiscountOfferId dto = None \<Longrightarrow> po = None \<and> db0 = db"
    and pid: "wd_jackpotDiscountOfferId dto \<noteq> Some [] \<Longrightarrow> map_option (jo_offerId \<circ> fst) po = wd_jackpotDiscountOfferId dto"
    using p unfolding promo_def
    by (auto simp: res_simps promo_frame_refl split: option.splits if_splits dest: reserve_in_purchase_frame reserved_id)
  note s = assms [unfolded purchase_context_def promo_def [symmetric] p Let_def, simplified]
  show thesis
  proof (cases po)
    case None
    then show ?thesis using s f none pid
      by (intro that) (auto simp: res_simps promo_frame_sel [OF f] px_price_def px_offerId_def split: option.splits if_splits dest: find_Some_set)
  next
    case (Some xd)
    obtain x d where xd: "xd = (x, d)" by (cases xd)
    show ?thesis using s f none pid Some xd
      by (intro that) (auto simp: res_simps promo_frame_sel [OF f] px_price_def px_offerId_def split: option.splits if_splits dest: find_Some_set)
  qed
qed

lemma create_purchase_cases:
  assumes "create_purchase env p0 db = Inr (p, db')"
  shows "p = p0\<lparr>wp_purchaseId := e_uuid env (seq db)\<rparr>" "db' = db\<lparr>walletPurchases := walletPurchases db @ [p], seq := seq db + 1\<rparr>"
    "find_purchase db (wp_idempotencyKey p0) = None" "wp_purchaseId p \<notin> wp_purchaseId ` set (walletPurchases db)"
  using assms by (auto simp: create_purchase_def Let_def split: if_splits)

lemma complete_purchase_cases:
  assumes "complete_purchase i h t db = Inr db'" "walletPurchases db = ps @ [p]" "wp_purchaseId p = i"
    "i \<notin> wp_purchaseId ` set ps"
  shows "db' = db\<lparr>walletPurchases := ps @ [p\<lparr>wp_status := WPS_COMPLETED, wp_holdId := Some h, wp_completedAt := Some t\<rparr>]\<rparr>"
proof -
  have "update_where (\<lambda>x. wp_purchaseId x = i) upd ps = ps" for upd
    using assms(4) unfolding update_where_def by (intro map_idI) auto
  then show ?thesis using assms(1-3) by (auto simp: complete_purchase_def update_where_def split: if_splits)
qed

lemma purchase_writes_cases:
  assumes "purchase_writes env rnd c dto n db1 = Inr (v, db')"
  obtains ra p db2 hold db3 db4 unlock db5 h db6 db7 where
    "find_account_by_code db1 TICKET_SALES_REVENUE_CODE = Some ra"
    "create_purchase env (purchase_row c dto n) db1 = Inr (p, db2)"
    "createHoldInTransaction env (purchase_hold c dto n (wp_purchaseId p)) db2 = Inr (hold, db3)"
    "create_tickets env (map (\<lambda>k. purchase_ticket c dto (wp_purchaseId p) (rnd k)) [0..<wd_quantity dto]) db3 = Inr db4"
    "promo_frame db4 db5"
    "captureHoldInTransaction env (purchase_capture c dto (wp_purchaseId p) (wh_holdId hold) (la_accountId ra)) db5 = Inr (h, db6)"
    "complete_purchase (wp_purchaseId p) (wh_holdId hold) (e_now env) db6 = Inr db7"
    "promo_frame db7 db'"
    "pv_purchaseId v = wp_purchaseId p" "pv_amountNgn v = n" "pv_ticketCount v = wd_quantity dto"
    "pv_ticketRefs v = map (\<lambda>k. generateTicketRef (rnd k)) [0..<wd_quantity dto]" "pv_drawId v = d_drawId (px_draw c)"
    "pv_drawCode v = d_drawCode (px_draw c)" "pv_replayed v = False" "pv_walletId v = Some (px_walletId c)"
    "pv_jackpotDiscountOfferId v = px_offerId c" "pv_pricingContext v = px_pricing c"
    "pv_completedAt v = Some (to_iso_string (e_now env))" "pv_status v = WPS_COMPLETED"
    "pv_drawType v = d_drawType (px_draw c)" "pv_drawScheduledAt v = to_iso_string (d_scheduledAt (px_draw c))"
proof -
  obtain ra where 1: "find_account_by_code db1 TICKET_SALES_REVENUE_CODE = Some ra"
    using assms by (auto simp: purchase_writes_def split: option.splits)
  note s = assms [unfolded purchase_writes_def 1 Let_def, simplified]
  obtain p db2 where 2: "create_purchase env (purchase_row c dto n) db1 = Inr (p, db2)"
    using s by (auto simp: res_simps)
  note s = s [unfolded 2, simplified]
  obtain hold db3 where 3: "createHoldInTransaction env (purchase_hold c dto n (wp_purchaseId p)) db2 = Inr (hold, db3)"
    using s by (auto simp: res_simps)
  note s = s [unfolded 3, simplified]
  obtain db4 where 4: "create_tickets env (map (\<lambda>k. purchase_ticket c dto (wp_purchaseId p) (rnd k)) [0..<wd_quantity dto]) db3 = Inr db4"
    using s by (auto simp: res_simps)
  note s = s [unfolded 4, simplified]
  define rec where "rec = (if d_drawType (px_draw c) = DAILY_STANDARD
             then recordDailyPurchase env
               \<lparr>rp_buyerPhone = u_phoneNumber (px_user c), rp_buyerUserId = Some (u_userId (px_user c)),
                rp_ticketCount = wd_quantity dto, rp_sourcePaymentTxnId = None,
                rp_sourceWalletPurchaseId = Some (wp_purchaseId p)\<rparr> db4
             else Inr (None, db4))"
  obtain unlock db5 where 5: "rec = Inr (unlock, db5)"
    using s unfolding rec_def [symmetric] by (cases rec) auto
  have f5: "promo_frame db4 db5"
    using 5 unfolding rec_def by (auto simp: promo_frame_refl split: if_splits dest: recordDailyPurchase_frame)
  note s = s [folded rec_def, unfolded 5, simplified]
  obtain h db6 where 6: "captureHoldInTransaction env (purchase_capture c dto (wp_purchaseId p) (wh_holdId hold) (la_accountId ra)) db5 = Inr (h, db6)"
    using s by (auto simp: res_simps)
  note s = s [unfolded 6, simplified]
  obtain db7 where 7: "complete_purchase (wp_purchaseId p) (wh_holdId hold) (e_now env) db6 = Inr db7"
    using s by (auto simp: res_simps)
  note s = s [unfolded 7, simplified]
  define mk where "mk = (case px_offer c of None \<Rightarrow> Inr ((), db7)
            | Some x \<Rightarrow> markClaimedInTransaction env
                \<lparr>ci_offerId = jo_offerId x, ci_buyerPhone = u_phoneNumber (px_user c),
                 ci_buyerUserId = u_userId (px_user c), ci_jackpotDrawId = d_drawId (px_draw c),
                 ci_amountNgn = n, ci_claimedAt = Some (e_now env)\<rparr> db7)"
  obtain u db8 where 8: "mk = Inr (u, db8)"
    using s unfolding mk_def [symmetric] by (cases mk) auto
  have f8: "promo_frame db7 db8"
    using 8 unfolding mk_def by (auto simp: promo_frame_refl split: option.splits dest: mark_claimed_frame)
  note s = s [folded mk_def, unfolded 8, simplified]
  have db8: "db8 = db'" using s by auto
  have v: "pv_purchaseId v = wp_purchaseId p" "pv_amountNgn v = n" "pv_ticketCount v = wd_quantity dto"
    "pv_ticketRefs v = map (\<lambda>k. generateTicketRef (rnd k)) [0..<wd_quantity dto]" "pv_drawId v = d_drawId (px_draw c)"
    "pv_drawCode v = d_drawCode (px_draw c)" "pv_replayed v = False" "pv_walletId v = Some (px_walletId c)"
    "pv_jackpotDiscountOfferId v = px_offerId c" "pv_pricingContext v = px_pricing c"
    "pv_completedAt v = Some (to_iso_string (e_now env))" "pv_status v = WPS_COMPLETED"
    "pv_drawType v = d_drawType (px_draw c)" "pv_drawScheduledAt v = to_iso_string (d_scheduledAt (px_draw c))"
    using s by (auto simp: comp_def purchase_ticket_def)
  show thesis using 1 2 3 4 f5 6 7 f8 [unfolded db8] v by (rule that)
qed


text \<open>The row of a completed purchase.\<close>

definition completed_row :: "'a env_scheme \<Rightarrow> purchase_ctx \<Rightarrow> wallet_purchase_dto \<Rightarrow> int \<Rightarrow> string \<Rightarrow> string \<Rightarrow> wallet_purchase" where
  "completed_row env c dto n pid hid =
     (purchase_row c dto n)\<lparr>wp_purchaseId := pid, wp_status := WPS_COMPLETED, wp_holdId := Some hid, wp_completedAt := Some (e_now env)\<rparr>"

lemma purchase_writes_rows:
  assumes "purchase_writes env rnd c dto n db1 = Inr (v, db')" "ledger_ok db1"
  shows "users db' = users db1" "payments db' = payments db1" "wallets db' = wallets db1" "accounts db' = accounts db1"
    "draws db' = draws db1"
    "\<exists>hid. walletPurchases db' = walletPurchases db1 @ [completed_row env c dto n (pv_purchaseId v) hid]"
    "find_purchase db1 (wd_idempotencyKey dto) = None" "pv_purchaseId v \<notin> wp_purchaseId ` set (walletPurchases db1)"
    "\<exists>new. tickets db' = tickets db1 @ new \<and> map t_ticketRef new = pv_ticketRefs v \<and> length new = wd_quantity dto \<and>
      distinct (map t_ticketRef new) \<and> set (map t_ticketRef new) \<inter> set (map t_ticketRef (tickets db1)) = {} \<and>
      (\<forall>t\<in>set new. t_faceValueNgn t = px_price c \<and> t_drawId t = d_drawId (px_draw c) \<and> t_status t = TS_ACTIVE \<and>
        t_buyerUserId t = Some (u_userId (px_user c)) \<and> t_walletPurchaseId t = Some (pv_purchaseId v))"
proof -
  from assms(1) obtain ra p db2 hold db3 db4 unlock db5 h db6 db7 where
    "find_account_by_code db1 TICKET_SALES_REVENUE_CODE = Some ra"
    and w: "create_purchase env (purchase_row c dto n) db1 = Inr (p, db2)"
    "createHoldInTransaction env (purchase_hold c dto n (wp_purchaseId p)) db2 = Inr (hold, db3)"
    "create_tickets env (map (\<lambda>k. purchase_ticket c dto (wp_purchaseId p) (rnd k)) [0..<wd_quantity dto]) db3 = Inr db4"
    "promo_frame db4 db5"
    "captureHoldInTransaction env (purchase_capture c dto (wp_purchaseId p) (wh_holdId hold) (la_accountId ra)) db5 = Inr (h, db6)"
    "complete_purchase (wp_purchaseId p) (wh_holdId hold) (e_now env) db6 = Inr db7"
    "promo_frame db7 db'"
    and v: "pv_purchaseId v = wp_purchaseId p" "pv_ticketRefs v = map (\<lambda>k. generateTicketRef (rnd k)) [0..<wd_quantity dto]"
    by (rule purchase_writes_cases) (rule that; assumption)
  note p = create_purchase_cases [OF w(1)]
  have k: "wp_idempotencyKey (purchase_row c dto n) = wd_idempotencyKey dto" by (simp add: purchase_row_def)
  have l2: "ledger_ok db2" using assms(2) by (simp add: p(2) ledger_ok_def entries_of_def)
  note f3 = createHold_frame [OF w(2) l2]
  have l3: "ledger_ok db3" by (rule createHold_ledger_ok [OF w(2) l2])
  obtain new m where new: "db4 = db3\<lparr>tickets := tickets db3 @ new, seq := m\<rparr>"
    "list_all2 (\<lambda>t t'. \<exists>i. t' = t\<lparr>t_ticketId := i\<rparr>) (map (\<lambda>k. purchase_ticket c dto (wp_purchaseId p) (rnd k)) [0..<wd_quantity dto]) new"
    "distinct (map t_ticketRef new)" "set (map t_ticketRef new) \<inter> set (map t_ticketRef (tickets db3)) = {}"
    using create_tickets_rows [OF w(3)] by blast
  note f5 = promo_frame_sel [OF w(4)]
  have l5: "ledger_ok db5" using l3 by (simp add: ledger_ok_def entries_of_def f5 new(1))
  note f6 = hold_frame_sel [OF captureHold_frame [OF w(5) l5]]
  note f3 = hold_frame_sel [OF f3]
  have wp6: "walletPurchases db6 = walletPurchases db1 @ [p]" by (simp add: f6 f5 new(1) f3 p(2))
  note c7 = complete_purchase_cases [OF w(6) wp6 refl p(4)]
  note f8 = promo_frame_sel [OF w(7)]
  show "users db' = users db1" "payments db' = payments db1" "wallets db' = wallets db1" "accounts db' = accounts db1"
    "draws db' = draws db1"
    by (simp_all add: f8 c7 f6 f5 new(1) f3 p(2))
  show "\<exists>hid. walletPurchases db' = walletPurchases db1 @ [completed_row env c dto n (pv_purchaseId v) hid]"
    by (intro exI [of _ "wh_holdId hold"]) (simp add: f8 c7 completed_row_def p(1) v(1))
  show "find_purchase db1 (wd_idempotencyKey dto) = None" using p(3) k by simp
  show "pv_purchaseId v \<notin> wp_purchaseId ` set (walletPurchases db1)" using p(4) v(1) by simp
  have t: "tickets db' = tickets db1 @ new" by (simp add: f8 c7 f6 f5 new(1) f3 p(2))
  have len: "length new = wd_quantity dto" using list_all2_lengthD [OF new(2)] by simp
  have row: "\<exists>i. new ! k = (purchase_ticket c dto (wp_purchaseId p) (rnd k))\<lparr>t_ticketId := i\<rparr>" if "k < wd_quantity dto" for k
    using list_all2_nthD2 [OF new(2), of k] len that by simp
  have refs: "map t_ticketRef new = pv_ticketRefs v"
    unfolding v(2)
  proof (rule nth_equalityI)
    fix k assume "k < length (map t_ticketRef new)"
    then show "map t_ticketRef new ! k = map (\<lambda>k. generateTicketRef (rnd k)) [0..<wd_quantity dto] ! k"
      using row [of k] len by (auto simp: purchase_ticket_def)
  qed (simp add: len)
  have "\<forall>t\<in>set new. t_faceValueNgn t = px_price c \<and> t_drawId t = d_drawId (px_draw c) \<and> t_status t = TS_ACTIVE \<and>
        t_buyerUserId t = Some (u_userId (px_user c)) \<and> t_walletPurchaseId t = Some (pv_purchaseId v)"
  proof
    fix t assume "t \<in> set new"
    then obtain k where "k < wd_quantity dto" "t = new ! k" using len by (metis in_set_conv_nth)
    then show "t_faceValueNgn t = px_price c \<and> t_drawId t = d_drawId (px_draw c) \<and> t_status t = TS_ACTIVE \<and>
        t_buyerUserId t = Some (u_userId (px_user c)) \<and> t_walletPurchaseId t = Some (pv_purchaseId v)"
      using row [of k] by (auto simp: purchase_ticket_def v(1))
  qed
  then show "\<exists>new. tickets db' = tickets db1 @ new \<and> map t_ticketRef new = pv_ticketRefs v \<and> length new = wd_quantity dto \<and>
      distinct (map t_ticketRef new) \<and> set (map t_ticketRef new) \<inter> set (map t_ticketRef (tickets db1)) = {} \<and>
      (\<forall>t\<in>set new. t_faceValueNgn t = px_price c \<and> t_drawId t = d_drawId (px_draw c) \<and> t_status t = TS_ACTIVE \<and>
        t_buyerUserId t = Some (u_userId (px_user c)) \<and> t_walletPurchaseId t = Some (pv_purchaseId v))"
    using t refs len new(3,4) f3(7) p(2) by (intro exI [of _ new]) auto
qed

text \<open>
  The money. The keys under which the purchase posts carry its new id, so no journal has used
  them; revenue is not an account of a wallet.
\<close>

definition purchase_keys_unused :: "db \<Rightarrow> string \<Rightarrow> bool" where
  "purchase_keys_unused db pid \<longleftrightarrow>
     find_hold_by_key db (js_trim (''WALLET-PURCHASE-HOLD:'' @ pid)) = None \<and>
     find_txn_by_key db (hold_ledger_key (''WALLET-PURCHASE-HOLD:'' @ pid)) = None \<and>
     find_txn_by_key db (hold_ledger_key (''WALLET-PURCHASE-CAPTURE:'' @ pid)) = None"

lemma js_trim_fixed_ends: "js_trim s = s \<Longrightarrow> s \<noteq> [] \<Longrightarrow> \<not> is_js_space (last s)"
  unfolding js_trim_def by (metis dropWhile_eq_Nil_conv hd_dropWhile hd_rev rev.simps(1) rev_is_Nil_conv rev_rev_ident)

lemma key_trim:
  assumes "js_trim pid = pid" "pid \<noteq> []"
  shows "js_trim (''WALLET-PURCHASE-HOLD:'' @ pid) = ''WALLET-PURCHASE-HOLD:'' @ pid"
    "js_trim (''WALLET-PURCHASE-CAPTURE:'' @ pid) = ''WALLET-PURCHASE-CAPTURE:'' @ pid"
    "hold_ledger_key (''WALLET-PURCHASE-HOLD:'' @ pid) = ''LEDGER:WALLET-PURCHASE-HOLD:'' @ pid"
    "hold_ledger_key (''WALLET-PURCHASE-CAPTURE:'' @ pid) = ''LEDGER:WALLET-PURCHASE-CAPTURE:'' @ pid"
proof -
  have e: "js_trim (c # s @ pid) = c # s @ pid" if "\<not> is_js_space c" for c s
    by (rule js_trim_ends) (use that js_trim_fixed_ends [OF assms] assms(2) in auto)
  have c: "\<not> is_js_space CHR ''W''" "\<not> is_js_space CHR ''L''" by code_simp+
  show "js_trim (''WALLET-PURCHASE-HOLD:'' @ pid) = ''WALLET-PURCHASE-HOLD:'' @ pid"
    "js_trim (''WALLET-PURCHASE-CAPTURE:'' @ pid) = ''WALLET-PURCHASE-CAPTURE:'' @ pid"
    using e [OF c(1), of "''ALLET-PURCHASE-HOLD:''"] e [OF c(1), of "''ALLET-PURCHASE-CAPTURE:''"] by simp_all
  then show "hold_ledger_key (''WALLET-PURCHASE-HOLD:'' @ pid) = ''LEDGER:WALLET-PURCHASE-HOLD:'' @ pid"
    "hold_ledger_key (''WALLET-PURCHASE-CAPTURE:'' @ pid) = ''LEDGER:WALLET-PURCHASE-CAPTURE:'' @ pid"
    using e [OF c(2), of "''EDGER:WALLET-PURCHASE-HOLD:''"] e [OF c(2), of "''EDGER:WALLET-PURCHASE-CAPTURE:''"]
    by (simp_all add: hold_ledger_key_def)
qed

lemma createHold_key:
  assumes "createHoldInTransaction env inp db = Inr (h, db')" "ledger_ok db" "find_txn_by_key db k = None"
    "k \<noteq> hold_ledger_key (ch_idempotencyKey inp)"
  shows "find_txn_by_key db' k = None"
  using assms(1)
proof (cases rule: createHold_cases)
  case existing
  then show ?thesis using assms(3) by simp
next
  case (fresh w v db1)
  have "find_txn_by_key db1 k = None"
    using ledger.post_key [of "(env, hold_post inp (js_trim (ch_idempotencyKey inp)) w)" db v db1 k] fresh(6) assms(2-4)
    by (auto simp: hold_post_def hold_ledger_key_def)
  then show ?thesis by (simp add: fresh(13) find_txn_by_key_def)
qed

lemma capture_row:
  assumes "captureHoldInTransaction env inp db = Inr (h, db')" "ledger_ok db" "find_hold db (cp_holdId inp) = Some h0" "wh_status h0 = HELD"
  shows "wh_amountNgn h = wh_amountNgn h0 \<and> wh_holdId h = wh_holdId h0"
  using assms(1)
proof (cases rule: capture_cases)
  case replay
  then show ?thesis using assms(3,4) by simp
next
  case (fresh h1 w v db1)
  note fr = same_frame_sel [OF post_facts(2) [OF fresh(5) assms(2)]]
  have "find_hold db' (cp_holdId inp) = Some (h1\<lparr>wh_status := CAPTURED, wh_captureLedgerTxnId := Some (lt_ledgerTxnId (tv_txn v)),
            wh_captureIdempotencyKey := Some (js_trim (cp_idempotencyKey inp)), wh_resolvedAt := Some (e_now env)\<rparr>)"
    by (rule find_updated_hold [OF fresh(1)]) (simp_all add: fresh(6) fr(3))
  moreover have "find_hold db' (cp_holdId inp) = Some h" using fresh(1,7) find_hold_Some [OF fresh(1)] by simp
  ultimately show ?thesis using fresh(1) assms(3) by auto
qed

text \<open>An amount that passes through an account moves from the first account to the last.\<close>

lemma transferred_through:
  assumes "transferred a h n x y" "transferred h b n y z" "b \<noteq> a"
  shows "transferred a b n x z"
  unfolding transferred_def
proof (intro conjI allI impI)
  fix c assume "c \<noteq> a" "c \<noteq> b"
  then show "net z c = net x c" using assms by (cases "c = h") (auto simp: transferred_def)
qed (use assms in \<open>auto simp: transferred_def\<close>)

lemma purchase_writes_money:
  assumes "purchase_writes env rnd c dto n db1 = Inr (v, db')" "wallet_ok db1" "uuid_ok env"
    and unused: "purchase_keys_unused db1 (pv_purchaseId v)"
    and rva: "find_account_by_code db1 TICKET_SALES_REVENUE_CODE = Some ra" "la_accountId ra \<notin> set (wallet_accounts db1)"
  shows "wallet_ok db' \<and>
    (\<exists>w. find_wallet db1 (px_walletId c) = Some w \<and>
       transferred (w_availableAccountId w) (la_accountId ra) n db1 db') \<and>
    (\<exists>p h. walletPurchases db' = walletPurchases db1 @ [p] \<and> wp_holdId p = Some (wh_holdId h) \<and>
       find_hold db' (wh_holdId h) = Some h \<and> wh_status h = CAPTURED \<and> wh_amountNgn h = n)"
proof -
  have o1: "ledger_ok db1" by (rule wallet_okD [OF assms(2)])
  from assms(1) obtain ra' p db2 hold db3 db4 unlock db5 h db6 db7 where w:
    "find_account_by_code db1 TICKET_SALES_REVENUE_CODE = Some ra'"
    "create_purchase env (purchase_row c dto n) db1 = Inr (p, db2)"
    "createHoldInTransaction env (purchase_hold c dto n (wp_purchaseId p)) db2 = Inr (hold, db3)"
    "create_tickets env (map (\<lambda>k. purchase_ticket c dto (wp_purchaseId p) (rnd k)) [0..<wd_quantity dto]) db3 = Inr db4"
    "promo_frame db4 db5"
    "captureHoldInTransaction env (purchase_capture c dto (wp_purchaseId p) (wh_holdId hold) (la_accountId ra')) db5 = Inr (h, db6)"
    "complete_purchase (wp_purchaseId p) (wh_holdId hold) (e_now env) db6 = Inr db7"
    "promo_frame db7 db'" and v: "pv_purchaseId v = wp_purchaseId p"
    by (rule purchase_writes_cases) (rule that; assumption)
  have rv: "ra' = ra" using w(1) rva(1) by simp
  let ?hi = "purchase_hold c dto n (wp_purchaseId p)"
  let ?ci = "purchase_capture c dto (wp_purchaseId p) (wh_holdId hold) (la_accountId ra)"
  note p = create_purchase_cases [OF w(2)]
  have pid: "js_trim (wp_purchaseId p) = wp_purchaseId p" "wp_purchaseId p \<noteq> []"
    using assms(3) by (simp_all add: p(1) uuid_ok_def)
  note kt = key_trim [OF pid]
  have k: "ch_idempotencyKey ?hi = ''WALLET-PURCHASE-HOLD:'' @ wp_purchaseId p"
    "cp_idempotencyKey ?ci = ''WALLET-PURCHASE-CAPTURE:'' @ wp_purchaseId p" "ch_walletId ?hi = px_walletId c" "ch_amountNgn ?hi = n"
    "cp_holdId ?ci = wh_holdId hold" "cp_counterAccountId ?ci = la_accountId ra"
    by (simp_all add: purchase_hold_def purchase_capture_def)
  have ok2: "wallet_ok db2" by (rule wallet_other_keeps [OF assms(2)]) (simp_all add: p(2))
  have u: "find_hold_by_key db2 (js_trim (ch_idempotencyKey ?hi)) = None" "find_txn_by_key db2 (hold_ledger_key (ch_idempotencyKey ?hi)) = None"
    "find_txn_by_key db2 (hold_ledger_key (cp_idempotencyKey ?ci)) = None"
    using unused by (simp_all add: purchase_keys_unused_def k v p(2) find_hold_by_key_def find_txn_by_key_def)
  note ok2' = wallet_okD [OF ok2]
  note c3 = created_found [OF w(3) ok2 u(1,2)]
  have ok3: "wallet_ok db3" by (rule createHold_keeps [OF w(3) ok2]) (use u(2) in simp)
  have u3: "find_txn_by_key db3 (hold_ledger_key (cp_idempotencyKey ?ci)) = None"
    by (rule createHold_key [OF w(3) ok2'(2) u(3)]) (unfold k kt, simp)
  obtain new m where new: "db4 = db3\<lparr>tickets := tickets db3 @ new, seq := m\<rparr>" using create_tickets_rows [OF w(4)] by blast
  note f5 = promo_frame_sel [OF w(5)]
  have same5: "txns db5 = txns db3" "entries db5 = entries db3" "wallets db5 = wallets db3" "holds db5 = holds db3"
    "accounts db5 = accounts db3" by (simp_all add: f5 new)
  have ok5: "wallet_ok db5" by (rule wallet_other_keeps [OF ok3]) (simp_all add: same5)
  have h5: "find_hold db5 (cp_holdId ?ci) = Some hold" "wh_status hold = HELD" using c3 by (simp_all add: find_hold_def same5 k)
  have u5: "find_txn_by_key db5 (hold_ledger_key (cp_idempotencyKey ?ci)) = None" using u3 by (simp add: find_txn_by_key_def same5)
  note w6 = w(6) [unfolded rv]
  note c6 = capture_effect [OF w6 ok5 h5 u5]
  note r6 = capture_row [OF w6 wallet_okD(2) [OF ok5] h5]
  have tr: "js_trim (la_accountId ra) = la_accountId ra" by (rule accounts_trimmedD [OF wallet_okD(3) [OF assms(2)] rva(1)])
  have wa5: "wallet_accounts db5 = wallet_accounts db1" using c3 by (simp add: wallet_accounts_def same5 p(2))
  have ext: "external db5 (cp_counterAccountId ?ci)" using rva(2) by (simp add: external_def k tr wa5)
  have ok6: "wallet_ok db6" by (rule capture_keeps [OF w6 ok5 ext]) (use u5 in simp)
  note f6 = hold_frame_sel [OF captureHold_frame [OF w6 wallet_okD(2) [OF ok5]]]
  note f3 = hold_frame_sel [OF createHold_frame [OF w(3) ok2'(2)]]
  have wp6: "walletPurchases db6 = walletPurchases db1 @ [p]" by (simp add: f6 f5 new f3 p(2))
  note c7 = complete_purchase_cases [OF w(7) wp6 refl p(4)]
  note f8 = promo_frame_sel [OF w(8)]
  have ok': "wallet_ok db'" by (rule wallet_other_keeps [OF ok6]) (simp_all add: f8 c7)
  obtain wl where wl: "find_wallet db2 (px_walletId c) = Some wl" "find_wallet db3 (wh_walletId hold) = Some wl"
    "transferred (w_availableAccountId wl) (w_heldAccountId wl) n db2 db3" using c3 k by auto
  have t6: "transferred (w_heldAccountId wl) (la_accountId ra) n db5 db6"
    using c6 wl(2) c3 k tr by (auto simp: find_wallet_def same5)
  have wm: "wl \<in> set (wallets db1)" using find_wallet_Some [OF wl(1)] by (simp add: p(2))
  have other: "la_accountId ra \<notin> {w_availableAccountId wl, w_heldAccountId wl}"
    using wallet_account_member [OF wm] rva(2) by auto
  have n2: "net db2 a = net db1 a" for a by (rule net_cong) (simp add: p(2))
  have n5: "net db5 a = net db3 a" for a by (rule net_cong) (rule same5)
  have n': "net db' a = net db6 a" for a by (rule net_cong) (simp add: f8 c7)
  have t3: "transferred (w_availableAccountId wl) (w_heldAccountId wl) n db1 db5"
    using wl(3) by (simp add: transferred_def n2 n5)
  have "transferred (w_availableAccountId wl) (la_accountId ra) n db1 db'"
    using transferred_through [OF t3 t6] other by (auto simp: transferred_def n')
  moreover have "find_wallet db1 (px_walletId c) = Some wl" using wl(1) by (simp add: find_wallet_def p(2))
  moreover have "\<exists>p h. walletPurchases db' = walletPurchases db1 @ [p] \<and> wp_holdId p = Some (wh_holdId h) \<and>
       find_hold db' (wh_holdId h) = Some h \<and> wh_status h = CAPTURED \<and> wh_amountNgn h = n"
    by (intro exI [of _ "p\<lparr>wp_status := WPS_COMPLETED, wp_holdId := Some (wh_holdId hold), wp_completedAt := Some (e_now env)\<rparr>"]
        exI [of _ h] conjI)
       (use c6 r6 c3 k(4,5) in \<open>simp_all add: f8 c7 find_hold_def\<close>)
  ultimately show ?thesis using ok' by blast
qed


section \<open>The wallet of the buyer\<close>

lemma provision_frame:
  assumes "provision_wallet env ot oid db = Inr (i, db')"
  shows "db' = db\<lparr>accounts := accounts db', wallets := wallets db', seq := seq db'\<rparr> \<and>
    (\<exists>as. accounts db' = accounts db @ as) \<and>
    (\<forall>a\<in>set (wallet_accounts db'). a \<in> set (wallet_accounts db) \<or> a \<notin> la_accountId ` set (accounts db))"
  using assms
proof (cases rule: provision_cases)
  case (created av he db1 db2 w)
  note a = create_account_cases [OF created(2)] and h = create_account_cases [OF created(3)] and w = create_wallet_cases [OF created(4)]
  have n: "la_accountId av \<notin> la_accountId ` set (accounts db)" "la_accountId he \<notin> la_accountId ` set (accounts db1)"
    using a(2) h(2) by (auto simp: find_account_def find_None_set)
  show ?thesis
    using n by (auto simp: w(3) h(4) a(4) wallet_accounts_def w(1))
qed (auto simp: find_None_set)

lemma ensure_cases:
  assumes "getCustomerWallet env uid Commits db = Inr (wv, db0)"
  obtains i where "provision_wallet env CUSTOMER uid db = Inr (i, db0)" | "db0 = db"
  using assms
  by (auto simp: getCustomerWallet_def ensureCustomerWallet_def ensureWallet_def res_simps
      split: option.splits sum.splits dest: recover_wallet_db)

lemma buyer_wallet:
  assumes "getCustomerWallet env uid Commits db = Inr (wv, db0)" "wallet_ok db" "uuid_ok env"
  shows "wallet_ok db0" "db0 = db\<lparr>accounts := accounts db0, wallets := wallets db0, seq := seq db0\<rparr>"
    "find_account_by_code db k = Some ra \<Longrightarrow> find_account_by_code db0 k = Some ra"
    "la_accountId ra \<in> la_accountId ` set (accounts db) \<Longrightarrow> la_accountId ra \<notin> set (wallet_accounts db) \<Longrightarrow>
      la_accountId ra \<notin> set (wallet_accounts db0)"
    "\<exists>w. find_owner_wallet db0 CUSTOMER uid = Some w \<and> wv = toWalletView db0 w"
proof -
  have "wallet_ok db0 \<and> db0 = db\<lparr>accounts := accounts db0, wallets := wallets db0, seq := seq db0\<rparr> \<and>
    (\<exists>as. accounts db0 = accounts db @ as) \<and>
    (\<forall>a\<in>set (wallet_accounts db0). a \<in> set (wallet_accounts db) \<or> a \<notin> la_accountId ` set (accounts db))"
    using assms(1)
  proof (cases rule: ensure_cases)
    case (1 i)
    then show ?thesis using provision_frame provision_keeps assms(2,3) by blast
  next
    case 2
    then show ?thesis using assms(2) by simp
  qed
  then show "wallet_ok db0" "db0 = db\<lparr>accounts := accounts db0, wallets := wallets db0, seq := seq db0\<rparr>"
    "find_account_by_code db k = Some ra \<Longrightarrow> find_account_by_code db0 k = Some ra"
    "la_accountId ra \<in> la_accountId ` set (accounts db) \<Longrightarrow> la_accountId ra \<notin> set (wallet_accounts db) \<Longrightarrow>
      la_accountId ra \<notin> set (wallet_accounts db0)"
    by (auto simp: find_account_by_code_def find_append)
  show "\<exists>w. find_owner_wallet db0 CUSTOMER uid = Some w \<and> wv = toWalletView db0 w"
  proof (cases "find_owner_wallet db CUSTOMER uid")
    case None
    then have "ensureWallet env CUSTOMER uid Commits db = Inr (wv, db0)"
      using assms(1) by (simp add: getCustomerWallet_def ensureCustomerWallet_def)
    then show ?thesis using ensure_wallet_found assms(2,3) by blast
  qed (use assms(1) in \<open>auto simp: getCustomerWallet_def\<close>)
qed

section \<open>The whole operation\<close>

lemma purchase_fresh_cases:
  assumes "purchase env rnd uid dto Commits Commits db = Inr (v, db')" "\<not> pv_replayed v" "wallet_ok db" "uuid_ok env"
  obtains user wv db0 c n db1 v0 db2 w where "find_purchase db (wd_idempotencyKey dto) = None"
    "find_user db uid = Some user" "u_phoneNumber user \<notin> set (blockedPhones db)"
    "getCustomerWallet env uid Commits db = Inr (wv, db0)"
    "purchase_context env user (wv_walletId wv) dto db0 = Inr ((c, n), db1)"
    "purchase_writes env rnd c dto n db1 = Inr (v0, db2)"
    "v = v0\<lparr>pv_wallet := Some w\<rparr>" "db' = purchase_audit env uid v0 db2"
proof -
  have none: "find_purchase db (wd_idempotencyKey dto) = None"
    using assms(1,2) by (auto simp: purchase_def replayResult_def res_simps split: option.splits if_splits)
  note s = assms(1) [unfolded purchase_def none, simplified]
  obtain user where u: "find_user db uid = Some user" using s by (auto simp: res_simps)
  note s = s [unfolded u, simplified]
  have b: "u_phoneNumber user \<notin> set (blockedPhones db)" using s by (auto simp: assertNotBlocked_def split: if_splits)
  note s = s [unfolded assertNotBlocked_def, simplified b, simplified]
  obtain wv db0 where w: "getCustomerWallet env uid Commits db = Inr (wv, db0)" using s by (auto simp: res_simps)
  note s = s [unfolded w, simplified]
  have no_replay: "recover_purchase uid dto db0 e \<noteq> Inr (v, db')" for e
    using assms(2) by (auto simp: recover_purchase_def replayResult_def res_simps split: option.splits if_splits)
  obtain v0 db2 where t: "purchase_tx env rnd user (wv_walletId wv) dto db0 = Inr (v0, db2)"
    using s no_replay by (auto split: sum.splits)
  note s = s [unfolded t Let_def, simplified]
  obtain c n db1 where x: "purchase_context env user (wv_walletId wv) dto db0 = Inr ((c, n), db1)"
    "purchase_writes env rnd c dto n db1 = Inr (v0, db2)" using t by (auto simp: purchase_tx_def res_simps)
  note bw = buyer_wallet [OF w assms(3,4)]
  obtain wl where wl: "find_owner_wallet db0 CUSTOMER uid = Some wl" using bw(5) by blast
  have f1: "promo_frame db0 db1" using x(1) by (rule purchase_context_cases)
  have "wallets db2 = wallets db0"
    using purchase_writes_rows(3) [OF x(2)] promo_frame_sel [OF f1] wallet_okD(2) [OF bw(1)]
    by (simp add: ledger_ok_def entries_of_def)
  then have "find_owner_wallet (purchase_audit env uid v0 db2) CUSTOMER uid = Some wl"
    using wl by (simp add: find_owner_wallet_def purchase_audit_def write_audit_def)
  then have "v = v0\<lparr>pv_wallet := Some (toWalletView (purchase_audit env uid v0 db2) wl)\<rparr>"
    "db' = purchase_audit env uid v0 db2"
    using s by (auto simp: getCustomerWallet_def)
  then show thesis by (rule that [OF none u b w x])
qed

text \<open>A request whose transaction loses the race on the key answers from what the winner left.\<close>

lemma purchase_lost_race:
  assumes "purchase env rnd uid dto Commits Commits seen = Inr r" "\<not> pv_replayed (fst r)"
    and "recover_purchase uid dto cur unique_violation = Inr (v, cur)"
  shows "purchase env rnd uid dto Commits (LostRace cur) seen = Inr (v, cur)"
proof -
  have no_replay: "recover_purchase uid dto db0 e \<noteq> Inr r" for db0 e
    using assms(2) by (auto simp: recover_purchase_def replayResult_def res_simps split: option.splits if_splits)
  have none: "find_purchase seen (wd_idempotencyKey dto) = None"
    using assms(1,2) by (auto simp: purchase_def replayResult_def res_simps split: option.splits if_splits)
  note s = assms(1) [unfolded purchase_def none, simplified]
  obtain user where u: "find_user seen uid = Some user" using s by (auto simp: res_simps)
  note s = s [unfolded u, simplified]
  have b: "assertNotBlocked (u_phoneNumber user) seen = Inr ()" using s by (auto simp: res_simps)
  note s = s [unfolded b, simplified]
  obtain wv db0 where w: "getCustomerWallet env uid Commits seen = Inr (wv, db0)" using s by (auto simp: res_simps)
  note s = s [unfolded w, simplified]
  obtain t where t: "purchase_tx env rnd user (wv_walletId wv) dto db0 = Inr t"
    using s no_replay by (auto split: sum.splits)
  show ?thesis unfolding purchase_def none by (simp add: u b w t assms(3) split: prod.splits)
qed

lemma wallet_guard_cong:
  assumes "users db' = users db" "payments db' = payments db" "walletPurchases db' = walletPurchases db"
  shows "assertWalletPurchaseAllowedInTransaction env uid n db' = assertWalletPurchaseAllowedInTransaction env uid n db"
proof -
  have "find_user db' = find_user db" "provider_spend db' = provider_spend db" "wallet_spend db' = wallet_spend db"
    using assms by (simp_all add: fun_eq_iff find_user_def provider_spend_def wallet_spend_def)
  then show ?thesis by (simp only: assertWalletPurchaseAllowedInTransaction_def)
qed

text \<open>What the rest of a fresh purchase leaves from the state it started in.\<close>

lemma purchase_fresh_rows:
  assumes "purchase env rnd uid dto Commits Commits db = Inr (v, db')" "\<not> pv_replayed v" "wallet_ok db" "uuid_ok env"
  obtains user c n hid where "find_user db uid = Some user" "u_phoneNumber user \<notin> set (blockedPhones db)" "px_user c = user"
    "px_draw c \<in> set (draws db)" "d_status (px_draw c) = DS_ACTIVE" "e_now env < d_cutoffAt (px_draw c)" "0 < n"
    "n = px_price c * int (wd_quantity dto)" "assertWalletPurchaseAllowedInTransaction env (u_userId user) n db = Inr ()"
    "users db' = users db" "payments db' = payments db" "draws db' = draws db"
    "find_purchase db (wd_idempotencyKey dto) = None"
    "pv_purchaseId v \<notin> wp_purchaseId ` set (walletPurchases db)"
    "walletPurchases db' = walletPurchases db @ [completed_row env c dto n (pv_purchaseId v) hid]"
    "pv_amountNgn v = n" "pv_ticketCount v = wd_quantity dto" "pv_drawId v = d_drawId (px_draw c)" "pv_drawCode v = d_drawCode (px_draw c)"
    "pv_jackpotDiscountOfferId v = px_offerId c" "pv_pricingContext v = px_pricing c"
    "pv_completedAt v = Some (to_iso_string (e_now env))" "pv_status v = WPS_COMPLETED"
    "pv_drawType v = d_drawType (px_draw c)" "pv_drawScheduledAt v = to_iso_string (d_scheduledAt (px_draw c))"
    "\<exists>new. tickets db' = tickets db @ new \<and> map t_ticketRef new = pv_ticketRefs v \<and> length new = wd_quantity dto \<and>
      distinct (map t_ticketRef new) \<and> set (map t_ticketRef new) \<inter> set (map t_ticketRef (tickets db)) = {} \<and>
      (\<forall>t\<in>set new. t_faceValueNgn t = px_price c \<and> t_drawId t = d_drawId (px_draw c) \<and> t_status t = TS_ACTIVE \<and>
        t_buyerUserId t = Some (u_userId user) \<and> t_walletPurchaseId t = Some (pv_purchaseId v))"
    "wd_jackpotDiscountOfferId dto \<noteq> Some [] \<Longrightarrow> px_offerId c = wd_jackpotDiscountOfferId dto"
proof -
  from assms obtain user wv db0 c n db1 v0 db2 w where x: "find_user db uid = Some user" "u_phoneNumber user \<notin> set (blockedPhones db)"
    "getCustomerWallet env uid Commits db = Inr (wv, db0)"
    "purchase_context env user (wv_walletId wv) dto db0 = Inr ((c, n), db1)"
    "purchase_writes env rnd c dto n db1 = Inr (v0, db2)"
    "v = v0\<lparr>pv_wallet := Some w\<rparr>" "db' = purchase_audit env uid v0 db2"
    by (rule purchase_fresh_cases) (rule that; assumption)
  note bw = buyer_wallet [OF x(3) assms(3,4)]
  have s0: "users db0 = users db" "payments db0 = payments db" "draws db0 = draws db" "walletPurchases db0 = walletPurchases db"
    "tickets db0 = tickets db" by (subst bw(2), simp)+
  from x(4) have c: "promo_frame db0 db1" "px_user c = user" "px_draw c \<in> set (draws db0)" "d_status (px_draw c) = DS_ACTIVE"
    "e_now env < d_cutoffAt (px_draw c)" "0 < n" "n = px_price c * int (wd_quantity dto)"
    "assertWalletPurchaseAllowedInTransaction env (u_userId user) n db1 = Inr ()"
    "wd_jackpotDiscountOfferId dto \<noteq> Some [] \<Longrightarrow> px_offerId c = wd_jackpotDiscountOfferId dto"
    by (rule purchase_context_cases, simp)+
  note s1 = promo_frame_sel [OF c(1)]
  have l1: "ledger_ok db1" using wallet_okD(2) [OF bw(1)] by (simp add: ledger_ok_def entries_of_def s1)
  note r = purchase_writes_rows [OF x(5) l1]
  have a': "users db' = users db2" "payments db' = payments db2" "draws db' = draws db2" "walletPurchases db' = walletPurchases db2"
    "tickets db' = tickets db2" by (simp_all add: x(7) purchase_audit_def write_audit_def)
  have al: "assertWalletPurchaseAllowedInTransaction env (u_userId user) n db = Inr ()"
    using c(8) wallet_guard_cong [of db1 db env] s1 s0 by simp
  have v0: "pv_amountNgn v0 = n \<and> pv_ticketCount v0 = wd_quantity dto \<and> pv_drawId v0 = d_drawId (px_draw c) \<and>
    pv_drawCode v0 = d_drawCode (px_draw c) \<and> pv_jackpotDiscountOfferId v0 = px_offerId c \<and> pv_pricingContext v0 = px_pricing c \<and>
    pv_completedAt v0 = Some (to_iso_string (e_now env)) \<and> pv_status v0 = WPS_COMPLETED \<and>
    pv_drawType v0 = d_drawType (px_draw c) \<and> pv_drawScheduledAt v0 = to_iso_string (d_scheduledAt (px_draw c))"
    using x(5) by (rule purchase_writes_cases) (intro conjI; assumption)
  have v: "pv_purchaseId v = pv_purchaseId v0" "pv_ticketRefs v = pv_ticketRefs v0" by (simp_all add: x(6))
  obtain hid where hid: "walletPurchases db2 = walletPurchases db1 @ [completed_row env c dto n (pv_purchaseId v0) hid]" using r(6) by blast
  have fp: "find_purchase db (wd_idempotencyKey dto) = None" using r(7) by (simp add: find_purchase_def s1 s0)
  show thesis
    by (rule that [of user c n hid])
       (use x(1,2) c al r fp v0 hid in \<open>simp_all add: x(6) v s1 s0 a'\<close>)
qed

end
