(* ===== verification/Wallet_Purchase_Properties.thy ===== *)
theory Wallet_Purchase_Properties
  imports Wallet_Purchase_Laws
begin

text \<open>
  What a wallet purchase does: the money, the tickets and the purchase row taken together, the
  limits of the account, and what a retry gets.
\<close>

section \<open>An example\<close>

definition ex_daily :: draw where
  "ex_daily = ex_jackpot\<lparr>d_drawId := ''d1'', d_drawCode := ''D'', d_drawType := DAILY_STANDARD, d_ticketPriceNgn := 100\<rparr>"

definition ex_shop_db :: db where
  "ex_shop_db = ex_wallet_db\<lparr>accounts := (ex_account ''R'' REVENUE)\<lparr>la_code := TICKET_SALES_REVENUE_CODE\<rparr> # accounts ex_wallet_db,
     draws := [ex_daily, ex_jackpot],
     users := [(ex_user ''u'')\<lparr>u_spendLimitPeriod := Some WEEKLY, u_spendLimitCapNgn := Some 500\<rparr>]\<rparr>"

definition ex_buy :: wallet_purchase_dto where
  "ex_buy = \<lparr>wd_drawCode = ''D'', wd_quantity = 3, wd_stateOfPlayCode = ''LA'', wd_idempotencyKey = ''k'',
     wd_jackpotDiscountOfferId = None\<rparr>"

lemma ex_bought:
  "case purchase ex_env0 (\<lambda>k i. k) ''u'' ex_buy Commits Commits ex_shop_db of Inl _ \<Rightarrow> False
   | Inr (v, db') \<Rightarrow> \<not> pv_replayed v \<and> pv_amountNgn v = 300 \<and> pv_purchaseId v = ''u0'' \<and> pv_drawCode v = ''D'' \<and>
       net db' ''V'' = 500 \<and> net db' ''R'' = 300 \<and> length (tickets db') = 3"
  by code_simp

section \<open>Properties\<close>

text \<open>C4. A purchase is whole: when it succeeds the wallet invariant holds again; exactly the price of the
  tickets has moved from the customer's available balance to ticket revenue and no other account
  has moved; the tickets issued are as many as asked for, carry new references, belong to the
  customer, the draw and the purchase, and their face values add up to the price; and the
  purchase is recorded as completed with a captured hold of that amount.\<close>

theorem purchase_effect:
  assumes "purchase env rnd uid dto Commits Commits db = Inr (v, db')" "\<not> pv_replayed v" "wallet_ok db" "uuid_ok env"
    and "purchase_keys_unused db (pv_purchaseId v)"
    and "find_account_by_code db TICKET_SALES_REVENUE_CODE = Some ra" "la_accountId ra \<notin> set (wallet_accounts db)"
  shows "wallet_ok db' \<and>
    (\<exists>w. find_owner_wallet db' CUSTOMER uid = Some w \<and>
       transferred (w_availableAccountId w) (la_accountId ra) (pv_amountNgn v) db db') \<and>
    (\<exists>new. tickets db' = tickets db @ new \<and> map t_ticketRef new = pv_ticketRefs v \<and> length new = wd_quantity dto \<and>
       sum_by t_faceValueNgn new = pv_amountNgn v \<and> distinct (map t_ticketRef new) \<and>
       set (map t_ticketRef new) \<inter> set (map t_ticketRef (tickets db)) = {} \<and>
       (\<forall>t\<in>set new. t_drawId t = pv_drawId v \<and> t_buyerUserId t = Some uid \<and> t_status t = TS_ACTIVE \<and>
          t_walletPurchaseId t = Some (pv_purchaseId v))) \<and>
    (\<exists>p h. walletPurchases db' = walletPurchases db @ [p] \<and> wp_purchaseId p = pv_purchaseId v \<and>
       wp_status p = WPS_COMPLETED \<and> wp_buyerUserId p = uid \<and> wp_amountNgn p = pv_amountNgn v \<and>
       wp_holdId p = Some (wh_holdId h) \<and> find_hold db' (wh_holdId h) = Some h \<and>
       wh_status h = CAPTURED \<and> wh_amountNgn h = pv_amountNgn v)"
proof -
  from assms(1-4) obtain user wv db0 c n db1 v0 db2 w where x: "find_user db uid = Some user"
    "getCustomerWallet env uid Commits db = Inr (wv, db0)"
    "purchase_context env user (wv_walletId wv) dto db0 = Inr ((c, n), db1)"
    "purchase_writes env rnd c dto n db1 = Inr (v0, db2)"
    "v = v0\<lparr>pv_wallet := Some w\<rparr>" "db' = purchase_audit env uid v0 db2"
    by (rule purchase_fresh_cases) (rule that; assumption)
  note bw = buyer_wallet [OF x(2) assms(3,4)]
  from x(3) have c: "promo_frame db0 db1" "px_walletId c = wv_walletId wv" "px_user c = user" "n = px_price c * int (wd_quantity dto)"
    by (rule purchase_context_cases, simp)+
  note s1 = promo_frame_sel [OF c(1)]
  have s0: "holds db0 = holds db" "txns db0 = txns db" "entries db0 = entries db" "walletPurchases db0 = walletPurchases db"
    "tickets db0 = tickets db" by (subst bw(2), simp)+
  have ok1: "wallet_ok db1" by (rule wallet_other_keeps [OF bw(1)]) (simp_all add: s1)
  have uid: "u_userId user = uid" using x(1) by (auto simp: find_user_def dest: find_Some_set)
  have v: "pv_purchaseId v = pv_purchaseId v0" "pv_ticketRefs v = pv_ticketRefs v0" "pv_amountNgn v = n"
    "pv_drawId v = d_drawId (px_draw c)"
    using x(4) by (auto simp: x(5) elim: purchase_writes_cases)
  have unused: "purchase_keys_unused db1 (pv_purchaseId v0)"
    using assms(5) by (simp add: purchase_keys_unused_def find_hold_by_key_def find_txn_by_key_def v s1 s0)
  have wa1: "wallet_accounts db1 = wallet_accounts db0" by (simp add: wallet_accounts_def s1)
  have "la_accountId ra \<in> la_accountId ` set (accounts db)" using assms(6) by (auto dest: find_account_by_code_sel)
  then have ra: "find_account_by_code db1 TICKET_SALES_REVENUE_CODE = Some ra" "la_accountId ra \<notin> set (wallet_accounts db1)"
    using bw(3) [OF assms(6)] bw(4) assms(7) wa1 by (auto simp: find_account_by_code_def s1)
  note m = purchase_writes_money [OF x(4) ok1 assms(4) unused ra]
  note r = purchase_writes_rows [OF x(4) wallet_okD(2) [OF ok1]]
  have a': "txns db' = txns db2" "entries db' = entries db2" "wallets db' = wallets db2" "holds db' = holds db2"
    "accounts db' = accounts db2" "tickets db' = tickets db2" "walletPurchases db' = walletPurchases db2"
    by (simp_all add: x(6) purchase_audit_def write_audit_def)
  have ok': "wallet_ok db'" by (rule wallet_other_keeps [of db2]) (use m in \<open>simp_all add: a'\<close>)
  obtain wl where wl: "find_owner_wallet db0 CUSTOMER uid = Some wl" "wv = toWalletView db0 wl" using bw(5) by blast
  have "find_wallet db1 (px_walletId c) = Some wl"
    using owner_found [OF wl(1) bw(1)] by (simp add: c(2) wl(2) toWalletView_sel find_wallet_def s1)
  then have tr: "transferred (w_availableAccountId wl) (la_accountId ra) n db1 db2" using m by auto
  have "net db' a = net db2 a" "net db1 a = net db a" for a by (rule net_cong, simp add: a' s1 s0)+
  then have 1: "transferred (w_availableAccountId wl) (la_accountId ra) (pv_amountNgn v) db db'"
    using tr by (simp add: transferred_def v)
  have 2: "find_owner_wallet db' CUSTOMER uid = Some wl" using wl(1) by (simp add: find_owner_wallet_def a' r(3) s1)
  obtain new where new: "tickets db2 = tickets db1 @ new" "map t_ticketRef new = pv_ticketRefs v0" "length new = wd_quantity dto"
    "distinct (map t_ticketRef new)" "set (map t_ticketRef new) \<inter> set (map t_ticketRef (tickets db1)) = {}"
    and nt: "\<forall>t\<in>set new. t_faceValueNgn t = px_price c \<and> t_drawId t = d_drawId (px_draw c) \<and> t_status t = TS_ACTIVE \<and>
        t_buyerUserId t = Some (u_userId (px_user c)) \<and> t_walletPurchaseId t = Some (pv_purchaseId v0)"
    using r(9) by blast
  have "sum_by t_faceValueNgn new = int (length new) * px_price c"
    by (rule sum_by_const) (use nt in simp)
  then have face: "sum_by t_faceValueNgn new = pv_amountNgn v" using new(3) c(4) v by simp
  have 3: "\<exists>new. tickets db' = tickets db @ new \<and> map t_ticketRef new = pv_ticketRefs v \<and> length new = wd_quantity dto \<and>
       sum_by t_faceValueNgn new = pv_amountNgn v \<and> distinct (map t_ticketRef new) \<and>
       set (map t_ticketRef new) \<inter> set (map t_ticketRef (tickets db)) = {} \<and>
       (\<forall>t\<in>set new. t_drawId t = pv_drawId v \<and> t_buyerUserId t = Some uid \<and> t_status t = TS_ACTIVE \<and>
          t_walletPurchaseId t = Some (pv_purchaseId v))"
    using new nt face by (intro exI [of _ new]) (simp add: v a' s1 s0 c(3) uid)
  obtain p h where p: "walletPurchases db2 = walletPurchases db1 @ [p]" "wp_holdId p = Some (wh_holdId h)"
       "find_hold db2 (wh_holdId h) = Some h" "wh_status h = CAPTURED" "wh_amountNgn h = n" using m by blast
  obtain hid where "p = completed_row env c dto n (pv_purchaseId v0) hid" using r(6) p(1) by auto
  then have "wp_purchaseId p = pv_purchaseId v \<and> wp_status p = WPS_COMPLETED \<and> wp_buyerUserId p = uid \<and> wp_amountNgn p = pv_amountNgn v"
    by (simp add: completed_row_def purchase_row_def v c(3) uid)
  then have "\<exists>p h. walletPurchases db' = walletPurchases db @ [p] \<and> wp_purchaseId p = pv_purchaseId v \<and>
       wp_status p = WPS_COMPLETED \<and> wp_buyerUserId p = uid \<and> wp_amountNgn p = pv_amountNgn v \<and>
       wp_holdId p = Some (wh_holdId h) \<and> find_hold db' (wh_holdId h) = Some h \<and>
       wh_status h = CAPTURED \<and> wh_amountNgn h = pv_amountNgn v"
    using p by (intro exI [of _ p] exI [of _ h]) (simp add: a' s1 s0 v find_hold_def)
  then show ?thesis using ok' 1 2 3 by blast
qed

lemma ex_shop_ok: "wallet_ok ex_shop_db" "find_account_by_code ex_shop_db TICKET_SALES_REVENUE_CODE =
    Some ((ex_account ''R'' REVENUE)\<lparr>la_code := TICKET_SALES_REVENUE_CODE\<rparr>)"
  "la_accountId ((ex_account ''R'' REVENUE)\<lparr>la_code := TICKET_SALES_REVENUE_CODE\<rparr>) \<notin> set (wallet_accounts ex_shop_db)"
  "purchase_keys_unused ex_shop_db ''u0''" "distinct (map d_drawId (draws ex_shop_db))" "tickets ex_shop_db = []"
  by code_simp+

lemma ex_uuid0: "uuid_ok ex_env0"
  using ex_uuid_ok by (simp add: uuid_ok_def ex_env0_def)

lemma ex_bought_obtain:
  obtains v db' where "purchase ex_env0 (\<lambda>k i. k) ''u'' ex_buy Commits Commits ex_shop_db = Inr (v, db')"
    "\<not> pv_replayed v" "pv_purchaseId v = ''u0''" "pv_amountNgn v = 300" "pv_drawCode v = ''D''"
  using ex_bought by (auto split: sum.splits)

theorem purchase_effect_witness:
  "\<exists>v db'. purchase ex_env0 (\<lambda>k i. k) ''u'' ex_buy Commits Commits ex_shop_db = Inr (v, db') \<and>
     wallet_ok db' \<and> length (tickets db') = 3 \<and> sum_by t_faceValueNgn (tickets db') = 300"
proof -
  obtain v db' where r: "purchase ex_env0 (\<lambda>k i. k) ''u'' ex_buy Commits Commits ex_shop_db = Inr (v, db')"
    "\<not> pv_replayed v" "pv_purchaseId v = ''u0''" "pv_amountNgn v = 300" by (rule ex_bought_obtain)
  have u: "purchase_keys_unused ex_shop_db (pv_purchaseId v)" using ex_shop_ok(4) r(3) by simp
  have q: "wd_quantity ex_buy = 3" by (simp add: ex_buy_def)
  show ?thesis
    using purchase_effect [OF r(1,2) ex_shop_ok(1) ex_uuid0 u ex_shop_ok(2,3)] r(1,4) ex_shop_ok(6) q by auto
qed

text \<open>C24. A wallet purchase keeps the player within the limits of the account: it succeeds only for a
  customer who is not blocked and not on a break, for a draw that is on sale and before its
  cutoff; and counting the purchase itself, what the customer spent online and from the wallet
  since the start of the current limit period is at most the cap.\<close>

theorem purchase_within_limits:
  assumes "purchase env rnd uid dto Commits Commits db = Inr (v, db')" "\<not> pv_replayed v" "wallet_ok db" "uuid_ok env"
  shows "\<exists>user d. find_user db uid = Some user \<and> u_phoneNumber user \<notin> set (blockedPhones db) \<and>
    (\<forall>t. u_selfExclusionUntil user = Some t \<longrightarrow> t \<le> e_now env) \<and>
    (\<forall>p cap. u_spendLimitPeriod user = Some p \<longrightarrow> u_spendLimitCapNgn user = Some cap \<longrightarrow>
       provider_spend db' (u_phoneNumber user) (periodStartWat (e_now env) p) +
       wallet_spend db' uid (periodStartWat (e_now env) p) \<le> cap) \<and>
    d \<in> set (draws db) \<and> d_drawId d = pv_drawId v \<and> d_status d = DS_ACTIVE \<and> e_now env < d_cutoffAt d"
proof -
  from assms obtain user c n hid where x: "find_user db uid = Some user" "u_phoneNumber user \<notin> set (blockedPhones db)" "px_user c = user"
    "px_draw c \<in> set (draws db)" "d_status (px_draw c) = DS_ACTIVE" "e_now env < d_cutoffAt (px_draw c)"
    "assertWalletPurchaseAllowedInTransaction env (u_userId user) n db = Inr ()" "payments db' = payments db"
    "walletPurchases db' = walletPurchases db @ [completed_row env c dto n (pv_purchaseId v) hid]"
    "pv_drawId v = d_drawId (px_draw c)"
    by (rule purchase_fresh_rows) (rule that; assumption)
  have uid: "u_userId user = uid" using x(1) by (auto simp: find_user_def dest: find_Some_set)
  have brk: "t \<le> e_now env" if "u_selfExclusionUntil user = Some t" for t
    using x(7) x(1) that by (auto simp: assertWalletPurchaseAllowedInTransaction_def uid assert_not_on_break_def res_simps split: if_splits)
  have cap: "provider_spend db' (u_phoneNumber user) (periodStartWat (e_now env) p) + wallet_spend db' uid (periodStartWat (e_now env) p) \<le> cap"
    if "u_spendLimitPeriod user = Some p" "u_spendLimitCapNgn user = Some cap" for p cap
  proof -
    have "periodStartWat (e_now env) p \<le> e_now env" using period_start_facts by blast
    then have "wallet_spend db' uid (periodStartWat (e_now env) p) = wallet_spend db uid (periodStartWat (e_now env) p) + n"
      by (simp add: wallet_spend_def x(9) completed_row_def purchase_row_def x(3) uid)
    moreover have "provider_spend db' = provider_spend db" by (simp add: fun_eq_iff provider_spend_def x(8))
    ultimately show ?thesis
      using x(7) x(1) that by (auto simp: assertWalletPurchaseAllowedInTransaction_def uid Let_def res_simps split: if_splits)
  qed
  show ?thesis using x(1,2,4-6,10) brk cap by (intro exI [of _ user] exI [of _ "px_draw c"]) auto
qed

theorem purchase_within_limits_witness:
  "\<exists>v db'. purchase ex_env0 (\<lambda>k i. k) ''u'' ex_buy Commits Commits ex_shop_db = Inr (v, db') \<and>
     wallet_spend db' ''u'' (periodStartWat 100 WEEKLY) \<le> 500"
proof -
  obtain v db' where r: "purchase ex_env0 (\<lambda>k i. k) ''u'' ex_buy Commits Commits ex_shop_db = Inr (v, db')"
    "\<not> pv_replayed v" by (rule ex_bought_obtain)
  have u: "find_user ex_shop_db ''u'' = Some ((ex_user ''u'')\<lparr>u_spendLimitPeriod := Some WEEKLY, u_spendLimitCapNgn := Some 500\<rparr>)"
    "e_now ex_env0 = 100" "payments ex_shop_db = []" by code_simp+
  have "payments db' = []" using r ex_shop_ok(1) ex_uuid0 u(3) by (auto elim: purchase_fresh_rows)
  then have "provider_spend db' p t = 0" for p t by (simp add: provider_spend_def)
  then show ?thesis using purchase_within_limits [OF r ex_shop_ok(1) ex_uuid0] u r(1) by auto
qed



end
