(* ===== verification/Agent_Accounting.thy ===== *)
theory Agent_Accounting
  imports Wallet
begin

text \<open>
  \<open>apps/api/src/agent-ops/agent-accounting.service.ts\<close>: the journals behind agent sales, agent
  prize payouts and the daily remittances of the receivable model. Each journal is linked from
  the row it was posted for. Row locks serialise the operations on one remittance. The one
  retry after a serialization failure (P2034) repeats a rolled-back transaction and is left out.
\<close>

section \<open>Operations of several transactions\<close>

text \<open>
  An operation that commits more than one transaction returns its result or exception with the
  database it leaves. \<open>in_tx\<close> runs one transaction: it commits or is rolled back. Between two of
  them other requests may commit; where that matters the operation takes a function \<open>later\<close>,
  what the database has become when its transaction starts.
\<close>

definition in_tx :: "('a \<times> 'd) res \<Rightarrow> 'd \<Rightarrow> 'a res \<times> 'd" where
  "in_tx m d = (case m of Inl e \<Rightarrow> (Inl e, d) | Inr (x, d') \<Rightarrow> (Inr x, d'))"

definition then_do :: "'a res \<times> 'd \<Rightarrow> ('a \<Rightarrow> 'd \<Rightarrow> 'b res \<times> 'd) \<Rightarrow> 'b res \<times> 'd" where
  "then_do m f = (case m of (Inl e, d) \<Rightarrow> (Inl e, d) | (Inr x, d) \<Rightarrow> f x d)"

lemma in_tx_Inr [res_simps]: "in_tx m d = (Inr x, d') \<longleftrightarrow> m = Inr (x, d')"
  by (auto simp: in_tx_def split: sum.splits)

lemma then_do_Inr [res_simps]: "then_do m f = (Inr y, d') \<longleftrightarrow> (\<exists>x d. m = (Inr x, d) \<and> f x d = (Inr y, d'))"
  by (auto simp: then_do_def split: sum.splits prod.splits)

lemma then_do_simps [simp]: "then_do (Inl e, d) f = (Inl e, d)" "then_do (Inr x, d) f = f x d"
  by (simp_all add: then_do_def)

lemma in_tx_simps [simp]: "in_tx (Inl e) d = (Inl e, d)" "in_tx (Inr (x, d')) d = (Inr x, d')"
  by (simp_all add: in_tx_def)

text \<open>\<open>ensureAgentWallet\<close> as a transaction of its own; a lost race leaves the winner's database.\<close>

definition agent_wallet :: "'a env_scheme \<Rightarrow> string \<Rightarrow> commit \<Rightarrow> db \<Rightarrow> wallet_view res \<times> db" where
  "agent_wallet env agentId cw db =
     in_tx (ensureAgentWallet env agentId cw db) (case cw of Commits \<Rightarrow> db | LostRace cur \<Rightarrow> cur)"

section \<open>Sales\<close>

record sale_input =
  sl_paymentTxnId :: string
  sl_agentId :: string
  sl_walletId :: string
  sl_amountNgn :: int
  sl_commissionNgn :: int
  sl_reference :: string
  sl_occurredAt :: int

definition sale_movement :: "sale_input \<Rightarrow> string \<Rightarrow> movement_input" where
  "sale_movement inp revenueAccountId =
     (let walletChargeNgn = sl_amountNgn inp - sl_commissionNgn inp in
      \<lparr>mv_walletId = sl_walletId inp, mv_amountNgn = walletChargeNgn,
       mv_counterAccountId = revenueAccountId,
       mv_idempotencyKey = ''ledger:agent-sale-wallet:'' @ sl_paymentTxnId inp,
       mv_kind = AGENT_SALE, mv_referenceType = ''PaymentTransaction'',
       mv_referenceId = sl_paymentTxnId inp, mv_description = Some ''Prepaid agent ticket sale'',
       mv_metadata = Some (JObj [(''agentId'', JStr (sl_agentId inp)),
         (''gatewayReference'', JStr (sl_reference inp)), (''grossSaleNgn'', JNum (sl_amountNgn inp)),
         (''commissionNgn'', JNum (sl_commissionNgn inp)), (''walletChargeNgn'', JNum walletChargeNgn)]),
       mv_occurredAt = Some (sl_occurredAt inp)\<rparr>)"

definition sale_commission_post :: "sale_input \<Rightarrow> string \<Rightarrow> string \<Rightarrow> post_input" where
  "sale_commission_post inp expense revenue =
     \<lparr>pi_idempotencyKey = ''ledger:agent-sale-commission:'' @ sl_paymentTxnId inp,
      pi_kind = COMMISSION, pi_referenceType = ''PaymentTransaction'',
      pi_referenceId = sl_paymentTxnId inp, pi_description = Some ''Agent commission retained at sale'',
      pi_occurredAt = Some (sl_occurredAt inp),
      pi_metadata = Some (JObj [(''agentId'', JStr (sl_agentId inp)),
        (''gatewayReference'', JStr (sl_reference inp)), (''grossSaleNgn'', JNum (sl_amountNgn inp)),
        (''commissionNgn'', JNum (sl_commissionNgn inp))]),
      pi_lines = transfer_lines expense ''Agent commission expense'' revenue
        ''Ticket revenue represented by retained commission'' (sl_commissionNgn inp)\<rparr>"

definition recordSaleInTransaction :: "'a env_scheme \<Rightarrow> sale_input \<Rightarrow> db \<Rightarrow> (ledger_transaction \<times> db) res" where
  "recordSaleInTransaction env inp db =
     bind_res (from_option (PrismaError ''P2025'') (find_payment db (sl_paymentTxnId inp))) (\<lambda>payment.
     case pt_collectionLedgerTxnId payment of
       Some j \<Rightarrow> bind_res (find_txn_or_throw db j) (\<lambda>t. Inr (t, db))
     | None \<Rightarrow>
         if sl_commissionNgn inp < 0 \<or> sl_commissionNgn inp \<ge> sl_amountNgn inp
         then Inl (ConflictException ''Agent commission must be lower than the gross sale amount'')
         else
           bind_res (requireAccount db TICKET_SALES_REVENUE_CODE) (\<lambda>revenue.
           bind_res (debitInTransaction env (sale_movement inp (la_accountId revenue)) db) (\<lambda>(collection, db1).
           bind_res
             (if sl_commissionNgn inp > 0 then
                bind_res (requireAccount db1 AGENT_COMMISSION_EXPENSE_CODE) (\<lambda>expense.
                bind_res (postInTransaction env
                  (sale_commission_post inp (la_accountId expense) (la_accountId revenue)) db1) (\<lambda>(_, db2).
                Inr db2))
              else Inr db1) (\<lambda>db2.
           bind_res (link_row pt_txnId pt_collectionLedgerTxnId
             (\<lambda>p. p\<lparr>pt_collectionLedgerTxnId := Some (lt_ledgerTxnId (tv_txn collection))\<rparr>)
             (sl_paymentTxnId inp) (lt_ledgerTxnId (tv_txn collection)) (payments db2)) (\<lambda>ps.
           Inr (tv_txn collection, db2\<lparr>payments := ps\<rparr>))))))"

section \<open>Prizes\<close>

definition accrual_lines :: "prize_claim \<Rightarrow> string \<Rightarrow> string \<Rightarrow> string \<Rightarrow> ledger_line list" where
  "accrual_lines claim expense payable wht =
     [\<lparr>li_accountId = expense, li_side = DEBIT, li_amountNgn = pc_grossPrizeValueNgn claim,
       li_memo = Some ''Recognise prize expense''\<rparr>,
      \<lparr>li_accountId = payable, li_side = CREDIT, li_amountNgn = pc_netPrizeValueNgn claim,
       li_memo = Some ''Winner prize payable''\<rparr>] @
     (if pc_whtAmountNgn claim > 0
      then [\<lparr>li_accountId = wht, li_side = CREDIT, li_amountNgn = pc_whtAmountNgn claim,
             li_memo = Some ''Withholding tax payable''\<rparr>] else [])"

definition prize_accrual_post :: "prize_claim \<Rightarrow> ledger_line list \<Rightarrow> post_input" where
  "prize_accrual_post claim lines =
     \<lparr>pi_idempotencyKey = ''ledger:prize-accrual:'' @ pc_claimId claim, pi_kind = PRIZE_ACCRUAL,
      pi_referenceType = ''PrizeClaim'', pi_referenceId = pc_claimId claim,
      pi_description = Some (''Prize accrual for '' @ pc_winnerTicketRef claim), pi_occurredAt = None,
      pi_metadata = Some (JObj [(''winnerTicketRef'', JStr (pc_winnerTicketRef claim)),
        (''grossPrizeValueNgn'', JNum (pc_grossPrizeValueNgn claim)),
        (''whtAmountNgn'', JNum (pc_whtAmountNgn claim)), (''netPrizeValueNgn'', JNum (pc_netPrizeValueNgn claim))]),
      pi_lines = lines\<rparr>"

definition ensurePrizeAccrualInTransaction :: "'a env_scheme \<Rightarrow> prize_claim \<Rightarrow> db \<Rightarrow> (ledger_transaction \<times> db) res" where
  "ensurePrizeAccrualInTransaction env claim db =
     (case pc_prizeAccrualLedgerTxnId claim of
        Some j \<Rightarrow> bind_res (find_txn_or_throw db j) (\<lambda>t. Inr (t, db))
      | None \<Rightarrow>
          if pc_grossPrizeValueNgn claim \<le> 0 \<or> pc_netPrizeValueNgn claim \<le> 0 \<or> pc_whtAmountNgn claim < 0
             \<or> pc_grossPrizeValueNgn claim \<noteq> pc_netPrizeValueNgn claim + pc_whtAmountNgn claim
          then Inl (ConflictException ''Prize gross/net/WHT values do not balance'')
          else
            bind_res (requireAccount db PRIZE_EXPENSE_CODE) (\<lambda>expense.
            bind_res (requireAccount db PRIZE_PAYABLE_CODE) (\<lambda>payable.
            bind_res (if pc_whtAmountNgn claim > 0
              then bind_res (requireAccount db WHT_PAYABLE_CODE) (\<lambda>wht. Inr (la_accountId wht))
              else Inr []) (\<lambda>wht.
            bind_res (postInTransaction env
              (prize_accrual_post claim (accrual_lines claim (la_accountId expense) (la_accountId payable) wht)) db)
              (\<lambda>(journal, db1).
            bind_res (link_row pc_claimId pc_prizeAccrualLedgerTxnId
              (\<lambda>c. c\<lparr>pc_prizeAccrualLedgerTxnId := Some (lt_ledgerTxnId (tv_txn journal))\<rparr>)
              (pc_claimId claim) (lt_ledgerTxnId (tv_txn journal)) (claims db1)) (\<lambda>cs.
            Inr (tv_txn journal, db1\<lparr>claims := cs\<rparr>)))))))"

record prize_payout_input =
  pp_claim :: prize_claim
  pp_agentId :: string
  pp_walletId :: string
  pp_reference :: string
  pp_occurredAt :: int

definition prize_payout_movement :: "prize_payout_input \<Rightarrow> string \<Rightarrow> movement_input" where
  "prize_payout_movement inp payableAccountId =
     (let claim = pp_claim inp in
      \<lparr>mv_walletId = pp_walletId inp, mv_amountNgn = pc_netPrizeValueNgn claim,
       mv_counterAccountId = payableAccountId,
       mv_idempotencyKey = ''ledger:agent-prize-wallet-credit:'' @ pc_claimId claim,
       mv_kind = PRIZE_PAYOUT, mv_referenceType = ''PrizeClaim'', mv_referenceId = pc_claimId claim,
       mv_description = Some ''Agent prize cash reimbursement'',
       mv_metadata = Some (JObj [(''agentId'', JStr (pp_agentId inp)),
         (''payoutReference'', JStr (pp_reference inp)), (''winnerTicketRef'', JStr (pc_winnerTicketRef claim)),
         (''grossPrizeValueNgn'', JNum (pc_grossPrizeValueNgn claim)),
         (''whtAmountNgn'', JNum (pc_whtAmountNgn claim)), (''netPrizeValueNgn'', JNum (pc_netPrizeValueNgn claim))]),
       mv_occurredAt = Some (pp_occurredAt inp)\<rparr>)"

definition recordAgentPrizePayoutInTransaction ::
  "'a env_scheme \<Rightarrow> prize_payout_input \<Rightarrow> db \<Rightarrow> (ledger_transaction \<times> db) res" where
  "recordAgentPrizePayoutInTransaction env inp db =
     (case pc_agentPayoutLedgerTxnId (pp_claim inp) of
        Some j \<Rightarrow> bind_res (find_txn_or_throw db j) (\<lambda>t. Inr (t, db))
      | None \<Rightarrow>
          bind_res (ensurePrizeAccrualInTransaction env (pp_claim inp) db) (\<lambda>(_, db1).
          bind_res (requireAccount db1 PRIZE_PAYABLE_CODE) (\<lambda>payable.
          bind_res (creditInTransaction env (prize_payout_movement inp (la_accountId payable)) db1) (\<lambda>(journal, db2).
          bind_res (link_row pc_claimId pc_agentPayoutLedgerTxnId
            (\<lambda>c. c\<lparr>pc_agentPayoutLedgerTxnId := Some (lt_ledgerTxnId (tv_txn journal))\<rparr>)
            (pc_claimId (pp_claim inp)) (lt_ledgerTxnId (tv_txn journal)) (claims db2)) (\<lambda>cs.
          Inr (tv_txn journal, db2\<lparr>claims := cs\<rparr>))))))"

section \<open>Remittances\<close>

definition agent_receivable :: "string \<Rightarrow> ledger_account" where
  "agent_receivable agentId =
     \<lparr>la_accountId = [], la_code = ''AGENT:'' @ js_upper agentId @ '':RECEIVABLE'', la_name = ''Agent Receivable'',
      la_accountType = ASSET, la_purpose = AGENT_RECEIVABLE, la_ownerType = AGENT, la_ownerId = Some agentId,
      la_currency = ''NGN'', la_status = LAS_ACTIVE\<rparr>"

text \<open>\<open>createMany\<close> of one row with \<open>skipDuplicates\<close>; a skipped row has used up its generated id.\<close>

definition create_account_if_new :: "'a env_scheme \<Rightarrow> ledger_account \<Rightarrow> db \<Rightarrow> db res" where
  "create_account_if_new env a db =
     (case create_account env db a of
        Inr (_, db') \<Rightarrow> Inr db'
      | Inl e \<Rightarrow> (if is_unique_violation e then Inr (db\<lparr>seq := seq db + 1\<rparr>) else Inl e))"

definition ensureReceivableInTransaction :: "'a env_scheme \<Rightarrow> string \<Rightarrow> db \<Rightarrow> (ledger_account \<times> db) res" where
  "ensureReceivableInTransaction env agentId db =
     bind_res (create_account_if_new env (agent_receivable agentId) db) (\<lambda>db1.
     bind_res (from_option (PrismaError ''P2025'') (find_account_by_code db1 (la_code (agent_receivable agentId)))) (\<lambda>account.
     if la_accountType account \<noteq> ASSET \<or> la_purpose account \<noteq> AGENT_RECEIVABLE \<or> la_ownerType account \<noteq> AGENT
        \<or> la_ownerId account \<noteq> Some agentId \<or> la_currency account \<noteq> ''NGN''
     then Inl (ConflictException ''Agent receivable ledger account has unexpected identity'')
     else Inr (account, db1)))"

definition commission_post :: "remittance \<Rightarrow> string \<Rightarrow> string \<Rightarrow> post_input" where
  "commission_post r expense receivable =
     \<lparr>pi_idempotencyKey = ''ledger:agent-commission:'' @ rm_remittanceId r, pi_kind = COMMISSION,
      pi_referenceType = ''Remittance'', pi_referenceId = rm_remittanceId r,
      pi_description = Some ''Agent retained commission'', pi_occurredAt = Some (rm_periodDate r),
      pi_metadata = Some (JObj [(''agentId'', JStr (rm_agentId r)),
        (''periodDate'', JStr (to_iso_string (rm_periodDate r))), (''grossSalesNgn'', JNum (rm_grossSalesNgn r))]),
      pi_lines = transfer_lines expense ''Agent commission expense'' receivable
        ''Commission retained by agent'' (rm_commissionNgn r)\<rparr>"

definition find_remittance_or_throw :: "db \<Rightarrow> string \<Rightarrow> remittance res" where
  "find_remittance_or_throw db i = from_option (PrismaError ''P2025'') (find_remittance db i)"

text \<open>\<open>remittance.update\<close> that sets a link column, and that of the plain columns.\<close>

definition link_remittance ::
  "(remittance \<Rightarrow> string option) \<Rightarrow> (remittance \<Rightarrow> remittance) \<Rightarrow> string \<Rightarrow> string \<Rightarrow> db \<Rightarrow> (remittance \<times> db) res" where
  "link_remittance col upd i j db =
     bind_res (link_row rm_remittanceId col upd i j (remittances db)) (\<lambda>rs.
     let db' = db\<lparr>remittances := rs\<rparr> in
     bind_res (find_remittance_or_throw db' i) (\<lambda>r. Inr (r, db')))"

definition update_remittance :: "(remittance \<Rightarrow> remittance) \<Rightarrow> string \<Rightarrow> db \<Rightarrow> (remittance \<times> db) res" where
  "update_remittance upd i db =
     (let db' = db\<lparr>remittances := update_where (\<lambda>r. rm_remittanceId r = i) upd (remittances db)\<rparr> in
      bind_res (find_remittance_or_throw db' i) (\<lambda>r. Inr (r, db')))"

definition recordCommissionInTransaction ::
  "'a env_scheme \<Rightarrow> string \<Rightarrow> db \<Rightarrow> (ledger_transaction option \<times> db) res" where
  "recordCommissionInTransaction env remittanceId db =
     bind_res (find_remittance_or_throw db remittanceId) (\<lambda>r.
     if rm_commissionNgn r \<le> 0 then Inr (None, db)
     else case rm_commissionLedgerTxnId r of
       Some j \<Rightarrow> bind_res (find_txn_or_throw db j) (\<lambda>t. Inr (Some t, db))
     | None \<Rightarrow>
         bind_res (ensureReceivableInTransaction env (rm_agentId r) db) (\<lambda>(receivable, db1).
         bind_res (requireAccount db1 AGENT_COMMISSION_EXPENSE_CODE) (\<lambda>expense.
         bind_res (postInTransaction env (commission_post r (la_accountId expense) (la_accountId receivable)) db1)
           (\<lambda>(journal, db2).
         bind_res (link_remittance rm_commissionLedgerTxnId
           (\<lambda>x. x\<lparr>rm_commissionLedgerTxnId := Some (lt_ledgerTxnId (tv_txn journal))\<rparr>)
           (rm_remittanceId r) (lt_ledgerTxnId (tv_txn journal)) db2) (\<lambda>(_, db3).
         Inr (Some (tv_txn journal), db3))))))"

definition getRemittance :: "db \<Rightarrow> string \<Rightarrow> remittance res" where
  "getRemittance db remittanceId = from_option (NotFoundException ''Remittance not found'') (find_remittance db remittanceId)"

text \<open>The movements between the agent's wallet and the receivable.\<close>

definition remittance_movement ::
  "remittance \<Rightarrow> string \<Rightarrow> string \<Rightarrow> string \<Rightarrow> int \<Rightarrow> string \<Rightarrow> string \<Rightarrow> movement_input" where
  "remittance_movement r agentId walletId prefix amountNgn description receivableAccountId =
     \<lparr>mv_walletId = walletId, mv_amountNgn = amountNgn, mv_counterAccountId = receivableAccountId,
      mv_idempotencyKey = prefix @ rm_remittanceId r, mv_kind = AGENT_REMITTANCE,
      mv_referenceType = ''Remittance'', mv_referenceId = rm_remittanceId r, mv_description = Some description,
      mv_metadata = Some (JObj [(''agentId'', JStr agentId), (''periodDate'', JStr (to_iso_string (rm_periodDate r)))]),
      mv_occurredAt = None\<rparr>"

definition credit_negative_tx :: "'a env_scheme \<Rightarrow> string \<Rightarrow> string \<Rightarrow> db \<Rightarrow> (remittance \<times> db) res" where
  "credit_negative_tx env remittanceId walletId db =
     bind_res (find_remittance_or_throw db remittanceId) (\<lambda>current.
     bind_res (recordCommissionInTransaction env remittanceId db) (\<lambda>(_, db1).
     if rm_walletCreditLedgerTxnId current \<noteq> None
     then bind_res (find_remittance_or_throw db1 remittanceId) (\<lambda>r. Inr (r, db1))
     else
       bind_res (ensureReceivableInTransaction env (rm_agentId current) db1) (\<lambda>(receivable, db2).
       bind_res (creditInTransaction env (remittance_movement current (rm_agentId current) walletId
         ''ledger:remittance-wallet-credit:'' (- rm_amountDueNgn current) ''Agent daily net credit''
         (la_accountId receivable)) db2) (\<lambda>(journal, db3).
       link_remittance rm_walletCreditLedgerTxnId
         (\<lambda>x. x\<lparr>rm_walletCreditLedgerTxnId := Some (lt_ledgerTxnId (tv_txn journal)),
            rm_status := RS_CREDITED_TO_WALLET, rm_receivedAt := Some (e_now env)\<rparr>)
         (rm_remittanceId current) (lt_ledgerTxnId (tv_txn journal)) db3))))"

definition creditNegativeRemittanceToWallet ::
  "'a env_scheme \<Rightarrow> string \<Rightarrow> commit \<Rightarrow> (db \<Rightarrow> db) \<Rightarrow> db \<Rightarrow> remittance res \<times> db" where
  "creditNegativeRemittanceToWallet env remittanceId cw later db =
     then_do (getRemittance db remittanceId, db) (\<lambda>r db.
     if rm_amountDueNgn r \<ge> 0 then (Inr r, db)
     else
       then_do (agent_wallet env (rm_agentId r) cw db) (\<lambda>w db1.
       in_tx (credit_negative_tx env remittanceId (wv_walletId w) (later db1)) (later db1)))"

definition ensureRemittanceCommission :: "'a env_scheme \<Rightarrow> string \<Rightarrow> db \<Rightarrow> (remittance \<times> db) res" where
  "ensureRemittanceCommission env remittanceId db =
     bind_res (recordCommissionInTransaction env remittanceId db) (\<lambda>(_, db1).
     bind_res (find_remittance_or_throw db1 remittanceId) (\<lambda>current.
     if rm_amountDueNgn current = 0 \<and> (rm_status current = RS_PENDING \<or> rm_status current = RS_LATE)
     then update_remittance (\<lambda>x. x\<lparr>rm_status := RS_RECEIVED, rm_receivedAt := Some (e_now env)\<rparr>) remittanceId db1
     else Inr (current, db1)))"

definition bank_post :: "'a env_scheme \<Rightarrow> remittance \<Rightarrow> string \<Rightarrow> string \<Rightarrow> string \<Rightarrow> post_input" where
  "bank_post env r bankTransferRef bank receivable =
     \<lparr>pi_idempotencyKey = ''ledger:agent-remittance-bank:'' @ rm_remittanceId r, pi_kind = AGENT_REMITTANCE,
      pi_referenceType = ''Remittance'', pi_referenceId = rm_remittanceId r,
      pi_description = Some ''Agent remittance received in bank'', pi_occurredAt = Some (e_now env),
      pi_metadata = Some (JObj [(''agentId'', JStr (rm_agentId r)), (''bankTransferRef'', JStr bankTransferRef)]),
      pi_lines = transfer_lines bank ''Cash received from agent'' receivable ''Clear agent receivable''
        (rm_amountDueNgn r)\<rparr>"

definition settleBankRemittance :: "'a env_scheme \<Rightarrow> string \<Rightarrow> db \<Rightarrow> (remittance \<times> db) res" where
  "settleBankRemittance env remittanceId db =
     bind_res (find_remittance_or_throw db remittanceId) (\<lambda>r.
     if rm_amountDueNgn r \<le> 0
     then Inl (ConflictException ''Only positive remittances can be settled to the bank'')
     else if rm_status r = RS_RECEIVED \<and> rm_settlementLedgerTxnId r \<noteq> None then Inr (r, db)
     else if rm_status r \<noteq> RS_AGENT_CONFIRMED
     then Inl (ConflictException ''Agent must confirm the bank transfer before Finance can mark it received'')
     else case rm_bankTransferRef r of
       None \<Rightarrow> Inl (ConflictException ''Bank transfer reference is missing'')
     | Some bankTransferRef \<Rightarrow>
       if bankTransferRef = [] then Inl (ConflictException ''Bank transfer reference is missing'')
       else
         bind_res (recordCommissionInTransaction env remittanceId db) (\<lambda>(_, db1).
         if rm_settlementLedgerTxnId r \<noteq> None
         then bind_res (find_remittance_or_throw db1 remittanceId) (\<lambda>x. Inr (x, db1))
         else
           bind_res (requireAccount db1 BANK_CASH_CODE) (\<lambda>bank.
           bind_res (ensureReceivableInTransaction env (rm_agentId r) db1) (\<lambda>(receivable, db2).
           bind_res (postInTransaction env
             (bank_post env r bankTransferRef (la_accountId bank) (la_accountId receivable)) db2) (\<lambda>(journal, db3).
           link_remittance rm_settlementLedgerTxnId
             (\<lambda>x. x\<lparr>rm_settlementLedgerTxnId := Some (lt_ledgerTxnId (tv_txn journal)),
                rm_status := RS_RECEIVED, rm_receivedAt := Some (e_now env)\<rparr>)
             (rm_remittanceId r) (lt_ledgerTxnId (tv_txn journal)) db3)))))"

definition settle_from_wallet_tx :: "'a env_scheme \<Rightarrow> string \<Rightarrow> string \<Rightarrow> string \<Rightarrow> db \<Rightarrow> (remittance \<times> db) res" where
  "settle_from_wallet_tx env agentId remittanceId walletId db =
     bind_res (find_remittance_or_throw db remittanceId) (\<lambda>current.
     if rm_status current \<noteq> RS_PENDING \<and> rm_status current \<noteq> RS_LATE
     then Inl (ConflictException (''Remittance is '' @ remittance_status_str (rm_status current)))
     else
       bind_res (recordCommissionInTransaction env remittanceId db) (\<lambda>(_, db1).
       bind_res (ensureReceivableInTransaction env agentId db1) (\<lambda>(receivable, db2).
       bind_res (debitInTransaction env (remittance_movement current agentId walletId
         ''ledger:remittance-wallet-settlement:'' (rm_amountDueNgn current)
         ''Agent remittance settled from wallet credit'' (la_accountId receivable)) db2) (\<lambda>(journal, db3).
       link_remittance rm_settlementLedgerTxnId
         (\<lambda>x. x\<lparr>rm_settlementLedgerTxnId := Some (lt_ledgerTxnId (tv_txn journal)), rm_status := RS_RECEIVED,
            rm_bankTransferRef := Some (''WALLET-'' @ js_upper (take 8 (rm_remittanceId current))),
            rm_agentConfirmedAt := Some (e_now env), rm_receivedAt := Some (e_now env)\<rparr>)
         (rm_remittanceId current) (lt_ledgerTxnId (tv_txn journal)) db3))))"

definition settleRemittanceFromWallet ::
  "'a env_scheme \<Rightarrow> string \<Rightarrow> string \<Rightarrow> commit \<Rightarrow> (db \<Rightarrow> db) \<Rightarrow> db \<Rightarrow> remittance res \<times> db" where
  "settleRemittanceFromWallet env agentId remittanceId cw later db =
     then_do (getRemittance db remittanceId, db) (\<lambda>r db.
     if rm_agentId r \<noteq> agentId then (Inl (ConflictException ''Remittance does not belong to this agent''), db)
     else if rm_amountDueNgn r \<le> 0 then (Inl (ConflictException ''Nothing to settle for this day''), db)
     else
       then_do (agent_wallet env agentId cw db) (\<lambda>w db1.
       in_tx (settle_from_wallet_tx env agentId remittanceId (wv_walletId w) (later db1)) (later db1)))"

end
