(* ===== verification/JS_Number.thy ===== *)
theory JS_Number
  imports Complex_Main
begin

text \<open>
  JavaScript numbers where the program leaves the integers: a rate read from a decimal column
  becomes the nearest IEEE double, a product is rounded again, \<open>Math.floor\<close> is exact. A
  non-negative double is a pair (m, e) for m * 2^e.
\<close>

function bit_length :: "int \<Rightarrow> int" where
  "bit_length n = (if n \<le> 0 then 0 else 1 + bit_length (n div 2))"
  by pat_completeness auto

termination bit_length
  by (relation "measure nat") auto

declare bit_length.simps [simp del]

text \<open>Round half to even.\<close>

definition round_half_even :: "int \<Rightarrow> int \<Rightarrow> int" where
  "round_half_even p q = (let d = p div q; r = p mod q in
     if 2 * r > q \<or> (2 * r = q \<and> odd d) then d + 1 else d)"

text \<open>p / q divided by the power 2^e, as a fraction.\<close>

definition scale_down :: "int \<Rightarrow> int \<Rightarrow> int \<Rightarrow> int \<times> int" where
  "scale_down e p q = (if e \<ge> 0 then (p, q * 2 ^ nat e) else (p * 2 ^ nat (- e), q))"

text \<open>The double nearest to p / q: 53 significant bits.\<close>

definition to_double :: "int \<Rightarrow> int \<Rightarrow> int \<times> int" where
  "to_double p q =
     (if p = 0 then (0, 0)
      else let e0 = bit_length p - bit_length q - 53;
               e = (case scale_down e0 p q of (P, Q) \<Rightarrow> if P div Q < 2 ^ 53 then e0 else e0 + 1)
           in (case scale_down e p q of (P, Q) \<Rightarrow> round_half_even P Q, e))"

definition double_times :: "int \<Rightarrow> int \<times> int \<Rightarrow> int \<times> int" where
  "double_times n d = (case d of (m, e) \<Rightarrow>
     if e \<ge> 0 then to_double (n * m * 2 ^ nat e) 1 else to_double (n * m) (2 ^ nat (- e)))"

text \<open>A double divided by a positive integer.\<close>

definition double_div :: "int \<times> int \<Rightarrow> int \<Rightarrow> int \<times> int" where
  "double_div d n = (case d of (m, e) \<Rightarrow>
     if e \<ge> 0 then to_double (m * 2 ^ nat e) n else to_double m (n * 2 ^ nat (- e)))"

definition double_floor :: "int \<times> int \<Rightarrow> int" where
  "double_floor d = (case d of (m, e) \<Rightarrow> if e \<ge> 0 then m * 2 ^ nat e else m div 2 ^ nat (- e))"

section \<open>Rounding errors\<close>

definition double_val :: "int \<times> int \<Rightarrow> real" where
  "double_val d = real_of_int (fst d) * 2 powi (snd d)"

lemma bit_length_pos: "n > 0 \<Longrightarrow> bit_length n > 0"
proof (induction n rule: bit_length.induct)
  case (1 n)
  have "bit_length (n div 2) \<ge> 0"
  proof (cases "n div 2 \<le> 0")
    case True
    then show ?thesis by (simp add: bit_length.simps [of "n div 2"])
  qed (use 1 in simp)
  then show ?case using 1(2) by (simp add: bit_length.simps [of n])
qed

lemma bit_length_bounds:
  assumes "n > 0"
  shows "2 powi (bit_length n - 1) \<le> real_of_int n \<and> real_of_int n < 2 powi bit_length n"
  using assms
proof (induction n rule: bit_length.induct)
  case (1 n)
  have b: "bit_length n = 1 + bit_length (n div 2)" using 1(2) by (simp add: bit_length.simps [of n])
  show ?case
  proof (cases "n = 1")
    case True
    then show ?thesis using b by (simp add: bit_length.simps [of 0] bit_length.simps [of 1])
  next
    case False
    then have h: "n div 2 > 0" using 1(2) by simp
    have ih: "2 powi (bit_length (n div 2) - 1) \<le> real_of_int (n div 2)" "real_of_int (n div 2) < 2 powi bit_length (n div 2)"
      using 1 h by simp_all
    have d: "2 * (n div 2) \<le> n" "n \<le> 2 * (n div 2) + 1" by presburger+
    have low: "2 powi bit_length (n div 2) \<le> real_of_int n"
    proof -
      have "(2::real) powi bit_length (n div 2) = 2 * 2 powi (bit_length (n div 2) - 1)" by (simp add: power_int_diff)
      also have "\<dots> \<le> 2 * real_of_int (n div 2)" using ih(1) by simp
      also have "\<dots> \<le> real_of_int n" using d(1) by linarith
      finally show ?thesis .
    qed
    have z: "(2::real) powi bit_length (n div 2) = real_of_int (2 ^ nat (bit_length (n div 2)))"
      using bit_length_pos [OF h] by (simp add: power_int_def)
    have "n div 2 < 2 ^ nat (bit_length (n div 2))" using ih(2) unfolding z by (simp only: of_int_less_iff)
    then have "n < 2 * 2 ^ nat (bit_length (n div 2))" using d(2) by linarith
    then have "real_of_int n < 2 * 2 powi bit_length (n div 2)"
      unfolding z by (metis of_int_less_iff of_int_mult of_int_numeral)
    then show ?thesis using low by (simp add: b power_int_add)
  qed
qed

lemma fraction_parts:
  assumes "q > 0"
  shows "real_of_int p / real_of_int q = real_of_int (p div q) + real_of_int (p mod q) / real_of_int q"
proof -
  have "real_of_int p = real_of_int q * real_of_int (p div q) + real_of_int (p mod q)"
    by (metis mult_div_mod_eq of_int_add of_int_mult)
  then show ?thesis using assms by (simp add: field_simps)
qed

lemma round_half_even_error:
  assumes "q > 0"
  shows "\<bar>real_of_int (round_half_even p q) - real_of_int p / real_of_int q\<bar> \<le> 1 / 2"
proof -
  note pq = fraction_parts [OF assms, of p]
  have r: "p mod q < q" "0 \<le> p mod q" using assms by simp_all
  show ?thesis
  proof (cases "2 * (p mod q) > q \<or> (2 * (p mod q) = q \<and> odd (p div q))")
    case True
    then have "1 / 2 \<le> real_of_int (p mod q) / real_of_int q" "real_of_int (p mod q) / real_of_int q \<le> 1"
      using assms r by (auto simp: field_simps)
    then show ?thesis using True pq by (simp add: round_half_even_def Let_def)
  next
    case False
    then have "2 * (p mod q) \<le> q" by auto
    then have "real_of_int (2 * (p mod q)) \<le> real_of_int q" by (simp only: of_int_le_iff)
    then have "real_of_int (p mod q) / real_of_int q \<le> 1 / 2" "0 \<le> real_of_int (p mod q) / real_of_int q"
      using assms r by (simp_all add: divide_le_eq)
    moreover have "round_half_even p q = p div q" unfolding round_half_even_def Let_def using False by (rule if_not_P)
    ultimately show ?thesis using pq by linarith
  qed
qed

lemma scale_down_val:
  assumes "q > 0" "scale_down e p q = (P, Q)"
  shows "Q > 0" "real_of_int p / real_of_int q = real_of_int P / real_of_int Q * 2 powi e"
  using assms by (auto simp: scale_down_def power_int_def field_simps split: if_splits)

text \<open>The scaled fraction is rounded to an integer, and its exponent leaves 53 bits to the value.\<close>

lemma to_double_scale:
  assumes "q > 0" "p > 0"
  obtains P Q e where "scale_down e p q = (P, Q)" "to_double p q = (round_half_even P Q, e)" "Q > 0"
    "real_of_int p / real_of_int q = real_of_int P / real_of_int Q * 2 powi e" "2 powi (e + 52) \<le> real_of_int p / real_of_int q"
proof -
  define x where "x = real_of_int p / real_of_int q"
  define e0 where "e0 = bit_length p - bit_length q - 53"
  obtain P0 Q0 where s0: "scale_down e0 p q = (P0, Q0)" by (cases "scale_down e0 p q")
  define e where "e = (if P0 div Q0 < 2 ^ 53 then e0 else e0 + 1)"
  obtain P Q where s: "scale_down e p q = (P, Q)" by (cases "scale_down e p q")
  have d: "to_double p q = (round_half_even P Q, e)"
    unfolding to_double_def Let_def e0_def [symmetric] s0 prod.case e_def [symmetric] s using assms(2) by simp
  note v0 = scale_down_val [OF assms(1) s0] and v = scale_down_val [OF assms(1) s]
  have low: "2 powi (e0 + 52) < x"
  proof -
    have "2 powi (bit_length p - 1) * real_of_int q < real_of_int p * 2 powi bit_length q"
      using bit_length_bounds [OF assms(2)] bit_length_bounds [OF assms(1)] assms
      by (intro mult_le_less_imp_less) auto
    then have "2 powi (bit_length p - 1) / 2 powi bit_length q < x"
      using assms(1) by (simp add: x_def field_simps)
    moreover have "(2::real) powi (e0 + 52) = 2 powi (bit_length p - 1) / 2 powi bit_length q"
      by (simp add: e0_def power_int_diff [symmetric] algebra_simps)
    ultimately show ?thesis by simp
  qed
  have "2 powi (e + 52) \<le> x"
  proof (cases "P0 div Q0 < 2 ^ 53")
    case True
    then show ?thesis using low by (simp add: e_def)
  next
    case False
    have "real_of_int (2 ^ 53) \<le> real_of_int (P0 div Q0)" using False by (simp only: of_int_le_iff not_less)
    also have "\<dots> \<le> real_of_int P0 / real_of_int Q0"
      unfolding fraction_parts [OF v0(1), of P0] using v0(1) by simp
    finally have "2 ^ 53 * 2 powi e0 \<le> x" unfolding x_def v0(2) by (intro mult_right_mono) auto
    moreover have "(2::real) ^ 53 * 2 powi e0 = 2 powi (e0 + 53)" by (simp add: power_int_add)
    ultimately show ?thesis using False by (simp add: e_def algebra_simps)
  qed
  then show thesis by (intro that [OF s d v]) (simp add: x_def)
qed

lemma to_double_error:
  assumes "q > 0" "p \<ge> 0"
  shows "\<bar>double_val (to_double p q) - real_of_int p / real_of_int q\<bar> \<le> real_of_int p / real_of_int q / 2 ^ 53"
proof (cases "p = 0")
  case True
  then show ?thesis by (simp add: to_double_def double_val_def)
next
  case False
  define x where "x = real_of_int p / real_of_int q"
  have p: "p > 0" using False assms(2) by simp
  obtain P Q e where v: "to_double p q = (round_half_even P Q, e)" "Q > 0"
    "real_of_int p / real_of_int q = real_of_int P / real_of_int Q * 2 powi e" "2 powi (e + 52) \<le> x"
    unfolding x_def by (rule to_double_scale [OF assms(1) p])
  have "\<bar>real_of_int (round_half_even P Q) - real_of_int P / real_of_int Q\<bar> * 2 powi e \<le> 1 / 2 * 2 powi e"
    by (rule mult_right_mono [OF round_half_even_error [OF v(2)]]) simp
  moreover have "double_val (to_double p q) - x = (real_of_int (round_half_even P Q) - real_of_int P / real_of_int Q) * 2 powi e"
    by (simp add: v(1,3) double_val_def x_def left_diff_distrib)
  ultimately have "\<bar>double_val (to_double p q) - x\<bar> \<le> 2 powi e / 2" by (simp add: abs_mult)
  also have "\<dots> = 2 powi (e + 52) / 2 ^ 53" by (simp add: power_int_add)
  also have "\<dots> \<le> x / 2 ^ 53" using v(4) by (simp add: divide_right_mono)
  finally show ?thesis by (simp add: x_def)
qed

text \<open>A whole number below 2 ^ 53 is exact.\<close>

lemma to_double_exact:
  assumes "q > 0" "k \<ge> 0" "k < 2 ^ 53"
  shows "double_val (to_double (k * q) q) = real_of_int k"
proof (cases "k = 0")
  case True
  then show ?thesis by (simp add: to_double_def double_val_def)
next
  case False
  have p: "k * q > 0" using False assms by simp
  obtain P Q e where v: "scale_down e (k * q) q = (P, Q)" "to_double (k * q) q = (round_half_even P Q, e)" "Q > 0"
    "real_of_int (k * q) / real_of_int q = real_of_int P / real_of_int Q * 2 powi e" "2 powi (e + 52) \<le> real_of_int (k * q) / real_of_int q"
    by (rule to_double_scale [OF assms(1) p])
  have x: "real_of_int (k * q) / real_of_int q = real_of_int k" using assms(1) by simp
  have "real_of_int k < real_of_int (2 ^ 53)" using assms(3) by (simp only: of_int_less_iff)
  then have "(2::real) powi (e + 52) < 2 powi 53" using v(5) x by simp
  then have "e \<le> 0" using power_int_increasing [of 53 "e + 52" "2::real"] by (cases "e \<le> 0") simp_all
  then have "Q dvd P" using v(1) by (auto simp: scale_down_def split: if_splits)
  then have "real_of_int (round_half_even P Q) = real_of_int P / real_of_int Q"
    using v(3) by (auto simp: round_half_even_def Let_def)
  then show ?thesis using v(4) x by (simp add: v(2) double_val_def)
qed

lemma double_times_error:
  assumes "n \<ge> 0" "fst d \<ge> 0"
  shows "\<bar>double_val (double_times n d) - real_of_int n * double_val d\<bar> \<le> real_of_int n * double_val d / 2 ^ 53"
proof -
  obtain m e where d: "d = (m, e)" by (cases d)
  have m: "m \<ge> 0" using assms(2) d by simp
  show ?thesis
  proof (cases "e \<ge> 0")
    case True
    have h: "real_of_int (n * m * 2 ^ nat e) / real_of_int 1 = real_of_int n * double_val d"
      using True by (simp add: d double_val_def power_int_def)
    have "double_times n d = to_double (n * m * 2 ^ nat e) 1" using True by (simp add: d double_times_def)
    then show ?thesis using to_double_error [of 1 "n * m * 2 ^ nat e"] assms(1) m unfolding h by simp
  next
    case False
    have h: "real_of_int (n * m) / real_of_int (2 ^ nat (- e)) = real_of_int n * double_val d"
      using False by (simp add: d double_val_def power_int_def field_simps)
    have "double_times n d = to_double (n * m) (2 ^ nat (- e))" using False by (simp add: d double_times_def)
    then show ?thesis using to_double_error [of "2 ^ nat (- e)" "n * m"] assms(1) m unfolding h by simp
  qed
qed

lemma double_div_error:
  assumes "n > 0" "fst d \<ge> 0"
  shows "\<bar>double_val (double_div d n) - double_val d / real_of_int n\<bar> \<le> double_val d / real_of_int n / 2 ^ 53"
proof -
  obtain m e where d: "d = (m, e)" by (cases d)
  have m: "m \<ge> 0" using assms(2) d by simp
  show ?thesis
  proof (cases "e \<ge> 0")
    case True
    have h: "real_of_int (m * 2 ^ nat e) / real_of_int n = double_val d / real_of_int n"
      using True by (simp add: d double_val_def power_int_def)
    have "double_div d n = to_double (m * 2 ^ nat e) n" using True by (simp add: d double_div_def)
    then show ?thesis using to_double_error [of n "m * 2 ^ nat e"] assms(1) m unfolding h by simp
  next
    case False
    have h: "real_of_int m / real_of_int (n * 2 ^ nat (- e)) = double_val d / real_of_int n"
      using False by (simp add: d double_val_def power_int_def field_simps)
    have "double_div d n = to_double m (n * 2 ^ nat (- e))" using False by (simp add: d double_div_def)
    then show ?thesis using to_double_error [of "n * 2 ^ nat (- e)" m] assms(1) m unfolding h by simp
  qed
qed

lemma double_floor_le: "real_of_int (double_floor d) \<le> double_val d" "double_val d < real_of_int (double_floor d) + 1"
proof -
  obtain m e where d: "d = (m, e)" by (cases d)
  define k where "k = (2::int) ^ nat (- e)"
  have k: "k > 0" by (simp add: k_def)
  have "real_of_int (double_floor d) \<le> double_val d \<and> double_val d < real_of_int (double_floor d) + 1"
  proof (cases "e \<ge> 0")
    case True
    then show ?thesis by (simp add: d double_floor_def double_val_def power_int_def)
  next
    case False
    then have "double_val d = real_of_int m / real_of_int k"
      by (simp add: d double_val_def power_int_def field_simps k_def)
    moreover have "double_floor d = m div k" using False by (simp add: d double_floor_def k_def)
    moreover have "0 \<le> real_of_int (m mod k) / real_of_int k" "real_of_int (m mod k) / real_of_int k < 1"
      using k by simp_all
    ultimately show ?thesis using fraction_parts [OF k, of m] by simp
  qed
  then show "real_of_int (double_floor d) \<le> double_val d" "double_val d < real_of_int (double_floor d) + 1" by simp_all
qed

lemma to_double_nonneg:
  assumes "q > 0" "p \<ge> 0"
  shows "fst (to_double p q) \<ge> 0"
proof (rule ccontr)
  assume "\<not> fst (to_double p q) \<ge> 0"
  then have "double_val (to_double p q) < 0" by (simp add: double_val_def mult_less_0_iff)
  moreover have "0 \<le> real_of_int p / real_of_int q" using assms by simp
  moreover have "real_of_int p / real_of_int q / 2 ^ 53 \<le> real_of_int p / real_of_int q"
    using assms by (simp add: divide_le_eq)
  ultimately show False using to_double_error [OF assms] by linarith
qed

lemma floor_near:
  assumes "\<bar>double_val d - real_of_int n / 10000\<bar> < 1 / 10000"
  shows "double_floor d = n div 10000 \<or> (10000 dvd n \<and> double_floor d = n div 10000 - 1)"
proof -
  define c where "c = double_floor d"
  define y where "y = double_val d"
  have f: "real_of_int c \<le> y" "y < real_of_int c + 1" unfolding c_def y_def by (rule double_floor_le)+
  define x where "x = real_of_int n / 10000"
  have e: "10000 * x = real_of_int n" by (simp add: x_def)
  have "y - x < 1 / 10000" "x - y < 1 / 10000" using assms unfolding x_def y_def by linarith+
  then have "10000 * real_of_int c < real_of_int n + 1" "real_of_int n < 10000 * (real_of_int c + 1) + 1"
    unfolding e [symmetric] using f by (simp_all add: field_simps)
  then have "real_of_int (10000 * c) < real_of_int (n + 1)" "real_of_int n < real_of_int (10000 * (c + 1) + 1)" by simp_all
  then have "10000 * c < n + 1" "n < 10000 * (c + 1) + 1" by (simp_all only: of_int_less_iff)
  then have "10000 * c \<le> n" "n \<le> 10000 * (c + 1)" by simp_all
  moreover have "m div 10000 = c" if "10000 * c \<le> m" "m < 10000 * (c + 1)" for m
    using that by (intro int_div_pos_eq [of m 10000 c "m - 10000 * c"]) simp_all
  ultimately have "c = n div 10000 \<or> n = 10000 * (c + 1)" by (metis order_le_less)
  then show ?thesis by (auto simp: c_def)
qed

lemma double_times_nonneg:
  assumes "n \<ge> 0" "fst d \<ge> 0"
  shows "fst (double_times n d) \<ge> 0"
proof -
  obtain m e where d: "d = (m, e)" by (cases d)
  then show ?thesis using assms by (auto simp: double_times_def intro!: to_double_nonneg)
qed

text \<open>
  A product of an integer and a decimal with four digits, floored: exact, except that a whole
  product may come out one below.
\<close>

lemma floor_of_product:
  assumes "n \<ge> 0" "r \<ge> 0" "n * r < 2 ^ 48"
  shows "double_floor (double_times n (to_double r 10000)) = n * r div 10000 \<or>
    (10000 dvd n * r \<and> double_floor (double_times n (to_double r 10000)) = n * r div 10000 - 1)"
proof -
  define x where "x = real_of_int (n * r) / 10000"
  define a where "a = double_val (to_double r 10000)"
  define y where "y = double_val (double_times n (to_double r 10000))"
  have a: "\<bar>a - real_of_int r / 10000\<bar> \<le> real_of_int r / 10000 / 2 ^ 53"
    using to_double_error [of 10000 r] assms(2) by (simp add: a_def)
  have xa: "real_of_int n * a - x = real_of_int n * (a - real_of_int r / 10000)" by (simp add: x_def right_diff_distrib)
  have "\<bar>real_of_int n * a - x\<bar> \<le> real_of_int n * (real_of_int r / 10000 / 2 ^ 53)"
    unfolding xa abs_mult using mult_left_mono [OF a, of "real_of_int n"] assms(1) by simp
  then have 1: "\<bar>real_of_int n * a - x\<bar> \<le> x / 2 ^ 53" by (simp add: x_def)
  have 2: "\<bar>y - real_of_int n * a\<bar> \<le> real_of_int n * a / 2 ^ 53"
    unfolding y_def a_def by (rule double_times_error [OF assms(1) to_double_nonneg]) (use assms(2) in simp_all)
  have x0: "0 \<le> x" using assms(1,2) by (simp add: x_def)
  have "real_of_int (n * r) < real_of_int (2 ^ 48)" using assms(3) by (simp only: of_int_less_iff)
  then have xb: "x < 2 ^ 48 / 10000" by (simp add: x_def)
  have "x / 2 ^ 53 \<le> x" using x0 by (simp add: divide_le_eq)
  then have "real_of_int n * a \<le> 2 * x" using 1 by linarith
  then have "real_of_int n * a / 2 ^ 53 \<le> 2 * x / 2 ^ 53" by (rule divide_right_mono) simp
  then have "\<bar>y - x\<bar> \<le> 3 * x / 2 ^ 53" using 1 2 by linarith
  also have "\<dots> < 1 / 10000" using xb by (simp add: divide_less_eq)
  finally have err: "\<bar>y - x\<bar> < 1 / 10000" .
  show ?thesis by (rule floor_near) (use err in \<open>simp add: y_def x_def\<close>)
qed

text \<open>
  A product with a rate in hundredths of a percent, by a hundred: three roundings, so the floor is exact or one
  below a whole result. A whole percentage is exact.
\<close>

lemma floor_of_share:
  assumes "n \<ge> 0" "r \<ge> 0" "n * r < 2 ^ 48"
  shows "double_floor (double_div (double_times n (to_double r 100)) 100) = n * r div 10000 \<or>
    (10000 dvd n * r \<and> double_floor (double_div (double_times n (to_double r 100)) 100) = n * r div 10000 - 1)"
proof (rule floor_near)
  define x where "x = real_of_int (n * r) / 10000"
  define a where "a = double_val (to_double r 100)"
  define t where "t = double_val (double_times n (to_double r 100))"
  define y where "y = double_val (double_div (double_times n (to_double r 100)) 100)"
  have a0: "fst (to_double r 100) \<ge> 0" by (rule to_double_nonneg) (use assms(2) in simp_all)
  have a: "\<bar>a - real_of_int r / 100\<bar> \<le> real_of_int r / 100 / 2 ^ 53"
    using to_double_error [of 100 r] assms(2) by (simp add: a_def)
  have xa: "real_of_int n * a - 100 * x = real_of_int n * (a - real_of_int r / 100)" by (simp add: x_def right_diff_distrib)
  have "\<bar>real_of_int n * a - 100 * x\<bar> \<le> real_of_int n * (real_of_int r / 100 / 2 ^ 53)"
    unfolding xa abs_mult using mult_left_mono [OF a, of "real_of_int n"] assms(1) by simp
  then have 1: "\<bar>real_of_int n * a - 100 * x\<bar> \<le> 100 * x / 2 ^ 53" by (simp add: x_def)
  have 2: "\<bar>t - real_of_int n * a\<bar> \<le> real_of_int n * a / 2 ^ 53"
    unfolding t_def a_def by (rule double_times_error [OF assms(1) a0])
  have 3: "\<bar>y - t / 100\<bar> \<le> t / 100 / 2 ^ 53"
    unfolding y_def t_def using double_div_error [OF _ double_times_nonneg [OF assms(1) a0], of 100] by simp
  have x0: "0 \<le> x" using assms(1,2) by (simp add: x_def)
  have "real_of_int (n * r) < real_of_int (2 ^ 48)" using assms(3) by (simp only: of_int_less_iff)
  then have xb: "x < 2 ^ 48 / 10000" by (simp add: x_def)
  have s: "z / 2 ^ 53 \<le> z / 8" if "0 \<le> z" for z :: real using that by (intro divide_left_mono) simp_all
  have na: "real_of_int n * a \<le> 200 * x" using 1 s [of "100 * x"] x0 by linarith
  then have na': "real_of_int n * a / 2 ^ 53 \<le> 200 * x / 2 ^ 53" by (rule divide_right_mono) simp
  have "200 * x / 2 ^ 53 \<le> 25 * x" using s [of "200 * x"] x0 by simp
  then have t: "t \<le> 300 * x" using 1 2 s [of "100 * x"] na' x0 by linarith
  then have "t / 100 / 2 ^ 53 \<le> 3 * x / 2 ^ 53" by (simp add: divide_right_mono)
  moreover have "\<bar>t - 100 * x\<bar> \<le> 300 * x / 2 ^ 53" using 1 2 na' by linarith
  then have "\<bar>t / 100 - x\<bar> \<le> 3 * x / 2 ^ 53" by linarith
  ultimately have "\<bar>y - x\<bar> \<le> 6 * x / 2 ^ 53" using 3 by linarith
  also have "\<dots> < 1 / 10000" using xb by (simp add: divide_less_eq)
  finally show "\<bar>double_val (double_div (double_times n (to_double r 100)) 100) - real_of_int (n * r) / 10000\<bar> < 1 / 10000"
    by (simp add: y_def x_def)
qed

lemma double_val_whole:
  assumes "double_val (m, e) = real_of_int k"
  shows "if e \<ge> 0 then m * 2 ^ nat e = k else m = k * 2 ^ nat (- e)"
proof (cases "e \<ge> 0")
  case True
  then have "real_of_int (m * 2 ^ nat e) = real_of_int k" using assms by (simp add: double_val_def power_int_def)
  then show ?thesis using True by (simp only: of_int_eq_iff if_P)
next
  case False
  then have "real_of_int m = real_of_int (k * 2 ^ nat (- e))"
    using assms by (simp add: double_val_def power_int_def field_simps)
  then show ?thesis using False by (simp only: of_int_eq_iff if_False)
qed

lemma double_times_exact:
  assumes "double_val d = real_of_int k" "n \<ge> 0" "k \<ge> 0" "n * k < 2 ^ 53"
  shows "double_val (double_times n d) = real_of_int (n * k)"
proof -
  obtain m e where d: "d = (m, e)" by (cases d)
  have w: "if e \<ge> 0 then m * 2 ^ nat e = k else m = k * 2 ^ nat (- e)" using double_val_whole [of m e k] assms(1) d by simp
  have "double_times n d = (if e \<ge> 0 then to_double (n * k * 1) 1 else to_double (n * k * 2 ^ nat (- e)) (2 ^ nat (- e)))"
    using w by (auto simp: d double_times_def mult.assoc)
  then show ?thesis using to_double_exact [OF _ _ assms(4), of 1] to_double_exact [OF _ _ assms(4), of "2 ^ nat (- e)"] assms(2,3) by simp
qed

lemma double_div_exact:
  assumes "double_val d = real_of_int (k * n)" "n > 0" "k \<ge> 0" "k < 2 ^ 53"
  shows "double_val (double_div d n) = real_of_int k"
proof -
  obtain m e where d: "d = (m, e)" by (cases d)
  have w: "if e \<ge> 0 then m * 2 ^ nat e = k * n else m = k * n * 2 ^ nat (- e)"
    using double_val_whole [of m e "k * n"] assms(1) d by simp
  have "double_div d n = (if e \<ge> 0 then to_double (k * n) n else to_double (k * (n * 2 ^ nat (- e))) (n * 2 ^ nat (- e)))"
    using w by (auto simp: d double_div_def mult.assoc)
  then show ?thesis
    using to_double_exact [OF assms(2-4)] to_double_exact [OF _ assms(3,4), of "n * 2 ^ nat (- e)"] assms(2) by simp
qed

lemma floor_of_whole_percent:
  assumes "n \<ge> 0" "k \<ge> 0" "n * k < 2 ^ 41"
  shows "double_floor (double_div (double_times n (to_double (100 * k) 100)) 100) = n * k div 100"
proof -
  define c where "c = double_floor (double_div (double_times n (to_double (100 * k) 100)) 100)"
  have e: "n * (100 * k) = n * k * 100" by simp
  have d: "n * (100 * k) div 10000 = n * k div 100" unfolding e using div_mult_mult2 [of 100 "n * k" 100] by simp
  have "c = n * k div 100 \<or> (10000 dvd n * (100 * k) \<and> c = n * k div 100 - 1)"
  proof -
    have "n * k * 100 < 2 ^ 41 * 100" using assms(3) by (rule mult_strict_right_mono) simp
    also have "\<dots> < (2 :: int) ^ 48" by simp
    finally have "n * (100 * k) < 2 ^ 48" unfolding e .
    then show ?thesis using floor_of_share [OF assms(1), of "100 * k"] assms(2) unfolding d c_def by simp
  qed
  then show ?thesis
  proof
    assume "10000 dvd n * (100 * k) \<and> c = n * k div 100 - 1"
    then obtain j where "n * k * 100 = 10000 * j" unfolding e by blast
    then have j: "n * k = j * 100" by linarith
    have j0: "0 \<le> j" "j < 2 ^ 53" "n * k < 2 ^ 53" using assms(3) mult_nonneg_nonneg [OF assms(1,2)] j by simp_all
    have "k < 2 ^ 53 \<or> n = 0"
    proof (cases "n = 0")
      case False
      then have "k \<le> n * k" using assms(1,2) mult_right_mono [of 1 n k] by simp
      then show ?thesis using j0(3) by simp
    qed simp
    then show ?thesis
    proof
      assume k: "k < 2 ^ 53"
      have "double_val (to_double (k * 100) 100) = real_of_int k" by (rule to_double_exact) (use assms(2) k in simp_all)
      then have "double_val (double_times n (to_double (k * 100) 100)) = real_of_int (j * 100)"
        using double_times_exact [OF _ assms(1,2) j0(3)] j by simp
      then have "double_val (double_div (double_times n (to_double (100 * k) 100)) 100) = real_of_int j"
        using double_div_exact [OF _ _ j0(1,2), of _ 100] by (simp add: mult.commute)
      then have "c = j" using double_floor_le [of "double_div (double_times n (to_double (100 * k) 100)) 100"]
        unfolding c_def by linarith
      then show ?thesis using j by (simp add: c_def)
    next
      assume "n = 0"
      then have "double_val (double_div (double_times n (to_double (100 * k) 100)) 100) = 0"
        by (simp add: double_times_def double_div_def to_double_def double_val_def split: prod.split)
      then have "c = 0" using double_floor_le [of "double_div (double_times n (to_double (100 * k) 100)) 100"]
        unfolding c_def by linarith
      then show ?thesis using \<open>n = 0\<close> by (simp add: c_def)
    qed
  qed (simp add: c_def)
qed

lemma rounding_example: "double_floor (double_times 100 (to_double 2900 10000)) = 28"
  by code_simp

end
