(* ===== verification/Agent_Sales.thy ===== *)
theory Agent_Sales
  imports Agent_Accounting Wallet_Purchase JS_Number
begin

text \<open>
  \<open>apps/api/src/agent-ops/agent-sales.service.ts\<close> and the payment half of
  \<open>agent-prizes.service.ts\<close>: an agent sells tickets for cash from a prepaid wallet and pays
  small prizes from the till. Tickets, journals and promotion are one transaction; the checks on
  the agent, the draw and the customer are read before it, so both operations take the function
  \<open>later\<close>. The notification jobs, the receipt for reprints and the withholding certificate are
  left out.
\<close>

section \<open>Selling tickets\<close>

record sell_dto =
  sd_drawCode :: string
  sd_quantity :: nat
  sd_customerPhone :: "string option"
  sd_stateOfPlayCode :: string

record sale_view =
  sv_saleReference :: string
  sv_drawCode :: string
  sv_quantity :: nat
  sv_amountNgn :: int
  sv_commissionNgn :: int
  sv_walletChargeNgn :: int
  sv_ticketRefs :: "string list"
  sv_customerNotified :: bool
  sv_soldAt :: string
  sv_jackpotOfferUnlock :: "offer_unlock option"

text \<open>
  \<open>Math.floor(amountNgn * Number(agent.commissionRate))\<close>: the rate becomes a double, the product
  is rounded to a double, then floored. Amounts and rates are not negative.
\<close>

definition sale_commission :: "int \<Rightarrow> nat \<Rightarrow> int" where
  "sale_commission amountNgn commissionRate =
     double_floor (double_times amountNgn (to_double (int commissionRate) 10000))"

text \<open>\<open>dto.customerPhone\<close> where it is tested for truth: the empty string is falsy.\<close>

definition given_phone :: "sell_dto \<Rightarrow> string option" where
  "given_phone dto = (case sd_customerPhone dto of None \<Rightarrow> None | Some p \<Rightarrow> (if p = [] then None else Some p))"

definition create_payment :: "'a env_scheme \<Rightarrow> payment_transaction \<Rightarrow> db \<Rightarrow> (payment_transaction \<times> db) res" where
  "create_payment env p0 db =
     (let p = p0\<lparr>pt_txnId := e_uuid env (seq db)\<rparr> in
      if pt_amountNgn p > MAX_INT4 then Inl (PrismaError ''P2020'')
      else if find_payment db (pt_txnId p) \<noteq> None
          \<or> (\<exists>x\<in>set (payments db). pt_gatewayReference x = pt_gatewayReference p)
      then Inl unique_violation
      else Inr (p, db\<lparr>payments := payments db @ [p], seq := seq db + 1\<rparr>))"

text \<open>What the transaction takes from the checks before it.\<close>

record sale_ctx =
  sc_agent :: agent
  sc_draw :: draw
  sc_walletId :: string
  sc_reference :: string
  sc_amountNgn :: int
  sc_commissionNgn :: int

definition sale_buyer :: "sale_ctx \<Rightarrow> sell_dto \<Rightarrow> string" where
  "sale_buyer c dto = (case sd_customerPhone dto of None \<Rightarrow> ag_phoneNumber (sc_agent c) | Some p \<Rightarrow> p)"

definition sale_payment :: "'a env_scheme \<Rightarrow> sale_ctx \<Rightarrow> sell_dto \<Rightarrow> payment_transaction" where
  "sale_payment env c dto =
     \<lparr>pt_txnId = [], pt_gatewayReference = sc_reference c, pt_gateway = AGENT_CASH,
      pt_amountNgn = sc_amountNgn c, pt_buyerPhone = sale_buyer c dto, pt_buyerUserId = None,
      pt_channel = CHANNEL_AGENT, pt_agentId = Some (ag_agentId (sc_agent c)), pt_ticketCount = sd_quantity dto,
      pt_pricingContext = NORMAL, pt_jackpotDiscountOfferId = None, pt_status = PS_CONFIRMED,
      pt_confirmedAt = Some (e_now env), pt_collectionLedgerTxnId = None, pt_refundAccrualLedgerTxnId = None,
      pt_refundSettlementLedgerTxnId = None\<rparr>"

definition sale_entry :: "'a env_scheme \<Rightarrow> sale_ctx \<Rightarrow> string \<Rightarrow> sale_input" where
  "sale_entry env c txnId =
     \<lparr>sl_paymentTxnId = txnId, sl_agentId = ag_agentId (sc_agent c), sl_walletId = sc_walletId c,
      sl_amountNgn = sc_amountNgn c, sl_commissionNgn = sc_commissionNgn c, sl_reference = sc_reference c,
      sl_occurredAt = e_now env\<rparr>"

definition sale_ticket :: "sale_ctx \<Rightarrow> sell_dto \<Rightarrow> string \<Rightarrow> (nat \<Rightarrow> nat) \<Rightarrow> ticket" where
  "sale_ticket c dto txnId rnd =
     \<lparr>t_ticketId = [], t_ticketRef = generateTicketRef rnd, t_drawId = d_drawId (sc_draw c),
      t_ticketType = (if d_drawType (sc_draw c) = SATURDAY_JACKPOT then JACKPOT else STANDARD),
      t_faceValueNgn = d_ticketPriceNgn (sc_draw c), t_buyerPhone = sale_buyer c dto, t_buyerUserId = None,
      t_agentId = Some (ag_agentId (sc_agent c)), t_purchaseChannel = CHANNEL_AGENT,
      t_stateOfPlayCode = sd_stateOfPlayCode dto, t_paymentTxnId = Some txnId, t_walletPurchaseId = None,
      t_jackpotDiscountOfferId = None, t_status = TS_ACTIVE, t_isWinner = False\<rparr>"

text \<open>The transaction: payment row, journals, tickets, promotion. \<open>rnd k\<close> draws the k-th reference.\<close>

definition sale_tx ::
  "'a env_scheme \<Rightarrow> (nat \<Rightarrow> nat \<Rightarrow> nat) \<Rightarrow> sale_ctx \<Rightarrow> sell_dto \<Rightarrow> db
    \<Rightarrow> ((payment_transaction \<times> string list \<times> offer_unlock option) \<times> db) res" where
  "sale_tx env rnd c dto db =
     bind_res (create_payment env (sale_payment env c dto) db) (\<lambda>(txn, db1).
     bind_res (recordSaleInTransaction env (sale_entry env c (pt_txnId txn)) db1) (\<lambda>(_, db2).
     let rows = map (\<lambda>k. sale_ticket c dto (pt_txnId txn) (rnd k)) [0..<sd_quantity dto] in
     bind_res (create_tickets env rows db2) (\<lambda>db3.
     bind_res
       (case given_phone dto of
          None \<Rightarrow> Inr (None, db3)
        | Some phone \<Rightarrow>
            (if d_drawType (sc_draw c) = DAILY_STANDARD
             then recordDailyPurchase env
               \<lparr>rp_buyerPhone = phone, rp_buyerUserId = None, rp_ticketCount = sd_quantity dto,
                rp_sourcePaymentTxnId = Some (pt_txnId txn), rp_sourceWalletPurchaseId = None\<rparr> db3
             else Inr (None, db3))) (\<lambda>(unlock, db4).
     Inr ((txn, map t_ticketRef rows, unlock), db4)))))"

definition sale_audit :: "'a env_scheme \<Rightarrow> sale_ctx \<Rightarrow> sell_dto \<Rightarrow> string \<Rightarrow> offer_unlock option \<Rightarrow> db \<Rightarrow> db" where
  "sale_audit env c dto txnId unlock db =
     write_audit env \<lparr>al_severity = SEV_INFO, al_actorType = ACTOR_AGENT, al_actorId = Some (ag_agentId (sc_agent c)),
       al_action = ''AGENT_SALE_RECORDED'', al_resourceType = ''PaymentTransaction'', al_resourceId = txnId,
       al_metadata = JNull, al_signature = None\<rparr>
       [(''drawCode'', JStr (d_drawCode (sc_draw c))), (''quantity'', JNum (int (sd_quantity dto))),
        (''amountNgn'', JNum (sc_amountNgn c)), (''commissionNgn'', JNum (sc_commissionNgn c)),
        (''walletChargeNgn'', JNum (sc_amountNgn c - sc_commissionNgn c)),
        (''customerPhoneProvided'', JBool (given_phone dto \<noteq> None)),
        (''jackpotOffersUnlocked'', JNum (case unlock of None \<Rightarrow> 0 | Some u \<Rightarrow> int (ou_offersUnlocked u)))] db"

definition agent_not_active :: error where
  "agent_not_active = ForbiddenException ''Agent account is not active''"

text \<open>The checks before the wallet is read.\<close>

definition sale_checks :: "'a env_scheme \<Rightarrow> string \<Rightarrow> sell_dto \<Rightarrow> db \<Rightarrow> (agent \<times> draw) res" where
  "sale_checks env agentId dto db =
     bind_res (from_option agent_not_active (find_agent db agentId)) (\<lambda>agent.
     if ag_status agent \<noteq> AGS_ACTIVE then Inl agent_not_active
     else
       bind_res (case given_phone dto of None \<Rightarrow> Inr () | Some phone \<Rightarrow> assertNotBlocked phone db) (\<lambda>_.
       bind_res (from_option (NotFoundException ''Draw not found'')
         (find (\<lambda>d. d_drawCode d = sd_drawCode dto) (draws db))) (\<lambda>draw.
       if d_status draw \<noteq> DS_ACTIVE \<or> d_cutoffAt draw \<le> e_now env
       then Inl (ConflictException ''Draw is not open for ticket sales'')
       else Inr (agent, draw))))"

text \<open>
  \<open>sell\<close>: \<open>uuid\<close> is the \<open>randomUUID()\<close> of the reference, \<open>cw\<close> how the transaction that may create the
  wallet ends.
\<close>

definition sell ::
  "'a env_scheme \<Rightarrow> (nat \<Rightarrow> nat \<Rightarrow> nat) \<Rightarrow> string \<Rightarrow> string \<Rightarrow> sell_dto \<Rightarrow> commit \<Rightarrow> (db \<Rightarrow> db) \<Rightarrow> db
    \<Rightarrow> sale_view res \<times> db" where
  "sell env rnd uuid agentId dto cw later db =
     then_do (sale_checks env agentId dto db, db) (\<lambda>(agent, draw) db.
     let amountNgn = d_ticketPriceNgn draw * int (sd_quantity dto);
         commissionNgn = sale_commission amountNgn (ag_commissionRate agent) in
     if amountNgn - commissionNgn \<le> 0
     then (Inl (ConflictException ''Agent commission configuration leaves no payable ticket amount''), db)
     else
       then_do (agent_wallet env agentId cw db) (\<lambda>w db1.
       then_do (case given_phone dto of None \<Rightarrow> Inr ()
           | Some phone \<Rightarrow> assertPurchaseAllowed env phone amountNgn db1, db1) (\<lambda>_ db1.
       let c = \<lparr>sc_agent = agent, sc_draw = draw, sc_walletId = wv_walletId w,
                sc_reference = ''SW-AGT-'' @ uuid, sc_amountNgn = amountNgn, sc_commissionNgn = commissionNgn\<rparr> in
       then_do (in_tx (sale_tx env rnd c dto (later db1)) (later db1)) (\<lambda>(txn, refs, unlock) db2.
       (Inr \<lparr>sv_saleReference = sc_reference c, sv_drawCode = d_drawCode draw, sv_quantity = sd_quantity dto,
             sv_amountNgn = amountNgn, sv_commissionNgn = commissionNgn,
             sv_walletChargeNgn = amountNgn - commissionNgn, sv_ticketRefs = refs,
             sv_customerNotified = (given_phone dto \<noteq> None), sv_soldAt = to_iso_string (e_now env),
             sv_jackpotOfferUnlock = unlock\<rparr>,
        sale_audit env c dto (pt_txnId txn) unlock db2)))))"

section \<open>Paying a prize\<close>

definition AGENT_PAYABLE :: "PrizeClaimStatus list" where
  "AGENT_PAYABLE = [PCS_NOTIFIED, PCS_SELECTION_MADE]"

definition resolve :: "db \<Rightarrow> string \<Rightarrow> prize_claim option res" where
  "resolve db ticketRefRaw =
     (let ticketRef = js_upper ticketRefRaw in
      bind_res (from_option (NotFoundException ''Ticket not found'')
        (find (\<lambda>t. t_ticketRef t = ticketRef) (tickets db))) (\<lambda>t.
      Inr (if t_isWinner t then find (\<lambda>c. pc_winnerTicketRef c = t_ticketRef t) (claims db) else None)))"

definition mark_cash_paid :: "string \<Rightarrow> string \<Rightarrow> int \<Rightarrow> prize_claim \<Rightarrow> prize_claim" where
  "mark_cash_paid agentId reference paidAt c = c\<lparr>pc_status := PCS_CASH_PAID, pc_claimType := Some CT_CASH,
     pc_claimTypeSelectedAt := Some (case pc_claimTypeSelectedAt c of None \<Rightarrow> paidAt | Some t \<Rightarrow> t),
     pc_payoutReference := Some reference, pc_payoutInitiatedAt := Some paidAt,
     pc_payoutCompletedAt := Some paidAt, pc_fulfilledAt := Some paidAt, pc_paidByAgentId := Some agentId,
     pc_paidByAgentAt := Some paidAt\<rparr>"

text \<open>The transaction, on the claim re-read under its lock; \<open>maxNgn\<close> is the limit read before.\<close>

definition prize_payout_tx ::
  "'a env_scheme \<Rightarrow> string \<Rightarrow> string \<Rightarrow> string \<Rightarrow> string \<Rightarrow> int \<Rightarrow> db \<Rightarrow> (int \<times> db) res" where
  "prize_payout_tx env agentId walletId reference claimId maxNgn db =
     bind_res (from_option (NotFoundException ''Claim not found'') (find_claim db claimId)) (\<lambda>current.
     if pc_status current \<notin> set AGENT_PAYABLE
     then Inl (ConflictException ''This prize can no longer be paid by an agent'')
     else if pc_grossPrizeValueNgn current > maxNgn
     then Inl (ConflictException ''Prize exceeds the agent-payable limit'')
     else
       bind_res (recordAgentPrizePayoutInTransaction env
         \<lparr>pp_claim = current, pp_agentId = agentId, pp_walletId = walletId, pp_reference = reference,
          pp_occurredAt = e_now env\<rparr> db) (\<lambda>(_, db1).
       Inr (pc_netPrizeValueNgn current, db1\<lparr>claims := update_where (\<lambda>c. pc_claimId c = claimId)
         (mark_cash_paid agentId reference (e_now env)) (claims db1)\<rparr>)))"

record prize_paid_view =
  pz_reference :: string
  pz_ticketRef :: string
  pz_amountNgn :: int
  pz_walletCreditedNgn :: int
  pz_walletBalanceNgn :: int

text \<open>\<open>logPayment\<close>, with the setting \<open>AGENT_PAYOUT_MAX_NGN\<close> as an argument.\<close>

definition logPayment ::
  "'a env_scheme \<Rightarrow> int \<Rightarrow> string \<Rightarrow> string \<Rightarrow> commit \<Rightarrow> (db \<Rightarrow> db) \<Rightarrow> db \<Rightarrow> prize_paid_view res \<times> db" where
  "logPayment env maxNgn agentId ticketRefRaw cw later db =
     then_do (bind_res (from_option (ConflictException ''Agent account is not active'') (find_agent db agentId)) (\<lambda>agent.
         if ag_status agent \<noteq> AGS_ACTIVE then Inl (ConflictException ''Agent account is not active'')
         else
           bind_res (resolve db ticketRefRaw) (\<lambda>claim0.
           bind_res (from_option (NotFoundException ''No claim found for this ticket'') claim0) (\<lambda>claim.
           if pc_grossPrizeValueNgn claim > maxNgn then Inl (ConflictException ''Prize exceeds the agent-payable limit'')
           else Inr (agent, claim)))), db) (\<lambda>(agent, claim) db.
     then_do (agent_wallet env agentId cw db) (\<lambda>w db1.
     let reference = ''AGT-CASH-'' @ ag_agentCode agent @ ''-'' @ int_str (e_now env) in
     then_do (in_tx (prize_payout_tx env agentId (wv_walletId w) reference (pc_claimId claim) maxNgn (later db1))
       (later db1)) (\<lambda>amountNgn db2.
     then_do (getWallet db2 (wv_walletId w), db2) (\<lambda>after db2.
     (Inr \<lparr>pz_reference = reference, pz_ticketRef = pc_winnerTicketRef claim, pz_amountNgn = amountNgn,
           pz_walletCreditedNgn = amountNgn, pz_walletBalanceNgn = wv_availableNgn after\<rparr>,
      write_audit env \<lparr>al_severity = SEV_INFO, al_actorType = ACTOR_AGENT, al_actorId = Some agentId,
        al_action = ''AGENT_PRIZE_PAID'', al_resourceType = ''PrizeClaim'', al_resourceId = pc_claimId claim,
        al_metadata = JNull, al_signature = None\<rparr>
        [(''agentCode'', JStr (ag_agentCode agent)), (''ticketRef'', JStr (pc_winnerTicketRef claim)),
         (''amountNgn'', JNum amountNgn), (''grossPrizeValueNgn'', JNum (pc_grossPrizeValueNgn claim)),
         (''walletCreditedNgn'', JNum amountNgn), (''walletBalanceNgn'', JNum (wv_availableNgn after)),
         (''reference'', JStr reference)] db2)))))"

end
