(* ===== verification/Agent_Remittance.thy ===== *)
theory Agent_Remittance
  imports Agent_Accounting
begin

text \<open>
  The daily remittances around their accounting: what the agent sees and does
  (\<open>apps/api/src/agent-ops/agent-remittance.service.ts\<close>), what finance does
  (\<open>admin-finance-agents.controller.ts\<close>), the recovery sweep of the accounting
  (\<open>agent-remittance-accounting-recovery.service.ts\<close>) and the deadline of the worker
  (\<open>apps/worker/src/remittance-deadline.service.ts\<close>).
\<close>

section \<open>The agent\<close>

record remittance_view =
  rv_remittanceId :: string
  rv_periodDate :: string
  rv_grossSalesNgn :: int
  rv_commissionNgn :: int
  rv_amountDueNgn :: int
  rv_ticketCount :: nat
  rv_standardTicketCount :: nat
  rv_jackpotTicketCount :: nat
  rv_standardSalesNgn :: int
  rv_jackpotSalesNgn :: int
  rv_winningsPaidOutNgn :: int
  rv_status :: RemittanceStatus
  rv_bankTransferRef :: "string option"

definition toView :: "remittance \<Rightarrow> remittance_view" where
  "toView r = \<lparr>rv_remittanceId = rm_remittanceId r, rv_periodDate = take 10 (to_iso_string (rm_periodDate r)),
     rv_grossSalesNgn = rm_grossSalesNgn r, rv_commissionNgn = rm_commissionNgn r,
     rv_amountDueNgn = rm_amountDueNgn r, rv_ticketCount = rm_ticketCount r,
     rv_standardTicketCount = rm_standardTicketCount r, rv_jackpotTicketCount = rm_jackpotTicketCount r,
     rv_standardSalesNgn = rm_standardSalesNgn r, rv_jackpotSalesNgn = rm_jackpotSalesNgn r,
     rv_winningsPaidOutNgn = rm_winningsPaidOutNgn r, rv_status = rm_status r,
     rv_bankTransferRef = rm_bankTransferRef r\<rparr>"

record remittance_overview =
  ro_totalOwedNgn :: int
  ro_walletBalanceNgn :: int
  ro_remittances :: "remittance_view list"

definition open_remittances :: "db \<Rightarrow> string \<Rightarrow> remittance list" where
  "open_remittances db agentId =
     js_sort (\<lambda>a b. rm_periodDate a - rm_periodDate b)
       (filter (\<lambda>r. rm_agentId r = agentId \<and> rm_status r \<in> {RS_PENDING, RS_AGENT_CONFIRMED, RS_LATE}) (remittances db))"

definition current_remittances :: "'a env_scheme \<Rightarrow> string \<Rightarrow> commit \<Rightarrow> db \<Rightarrow> remittance_overview res \<times> db" where
  "current_remittances env agentId cw db =
     (let opened = open_remittances db agentId;
          totalOwedNgn = sum_list (map rm_amountDueNgn
            (filter (\<lambda>r. rm_status r \<noteq> RS_AGENT_CONFIRMED \<and> rm_amountDueNgn r > 0) opened)) in
      then_do (agent_wallet env agentId cw db) (\<lambda>w db1.
      (Inr \<lparr>ro_totalOwedNgn = totalOwedNgn, ro_walletBalanceNgn = wv_availableNgn w,
            ro_remittances = map toView opened\<rparr>, db1)))"

definition remittance_audit ::
  "'a env_scheme \<Rightarrow> AuditActorType \<Rightarrow> string \<Rightarrow> string \<Rightarrow> string \<Rightarrow> (string \<times> json) list \<Rightarrow> db \<Rightarrow> db" where
  "remittance_audit env actor actorId action remittanceId metadata db =
     write_audit env \<lparr>al_severity = SEV_INFO, al_actorType = actor, al_actorId = Some actorId, al_action = action,
       al_resourceType = ''Remittance'', al_resourceId = remittanceId, al_metadata = JNull, al_signature = None\<rparr>
       metadata db"

text \<open>\<open>confirmPayment\<close> writes without a lock and without repeating its check on the status.\<close>

definition confirmPayment ::
  "'a env_scheme \<Rightarrow> string \<Rightarrow> string \<Rightarrow> string \<Rightarrow> (db \<Rightarrow> db) \<Rightarrow> db \<Rightarrow> remittance_view res \<times> db" where
  "confirmPayment env agentId remittanceId bankTransferRef later db =
     then_do (bind_res (from_option (NotFoundException ''Remittance not found'')
         (find (\<lambda>r. rm_remittanceId r = remittanceId \<and> rm_agentId r = agentId) (remittances db))) (\<lambda>r.
         if rm_amountDueNgn r \<le> 0
         then Inl (ConflictException ''Nothing to remit for this day - your prize payouts covered your sales.'')
         else if rm_status r \<noteq> RS_PENDING \<and> rm_status r \<noteq> RS_LATE
         then Inl (ConflictException (''Remittance is '' @ remittance_status_str (rm_status r)))
         else Inr r), db) (\<lambda>r db.
     then_do (in_tx (update_remittance (\<lambda>x. x\<lparr>rm_status := RS_AGENT_CONFIRMED,
         rm_bankTransferRef := Some bankTransferRef, rm_agentConfirmedAt := Some (e_now env)\<rparr>)
       remittanceId (later db)) (later db)) (\<lambda>updated db1.
     (Inr (toView updated),
      remittance_audit env ACTOR_AGENT agentId ''REMITTANCE_AGENT_CONFIRMED'' remittanceId
        [(''bankTransferRef'', JStr bankTransferRef), (''amountDueNgn'', JNum (rm_amountDueNgn r))] db1)))"

definition settleFromWallet ::
  "'a env_scheme \<Rightarrow> string \<Rightarrow> string \<Rightarrow> commit \<Rightarrow> (db \<Rightarrow> db) \<Rightarrow> db \<Rightarrow> remittance_view res \<times> db" where
  "settleFromWallet env agentId remittanceId cw later db =
     then_do (settleRemittanceFromWallet env agentId remittanceId cw later db) (\<lambda>settled db1.
     (Inr (toView settled),
      remittance_audit env ACTOR_AGENT agentId ''REMITTANCE_SETTLED_FROM_WALLET'' remittanceId
        [(''amountDueNgn'', JNum (rm_amountDueNgn settled)),
         (''settlementLedgerTxnId'', json_opt (rm_settlementLedgerTxnId settled))] db1))"

section \<open>Finance\<close>

definition markReceived :: "'a env_scheme \<Rightarrow> string \<Rightarrow> string \<Rightarrow> (db \<Rightarrow> db) \<Rightarrow> db \<Rightarrow> remittance res \<times> db" where
  "markReceived env adminId remittanceId later db =
     then_do (getRemittance db remittanceId, db) (\<lambda>r db.
     if rm_status r = RS_RECEIVED then (Inl (ConflictException ''Remittance is already marked received''), db)
     else
       then_do (in_tx (settleBankRemittance env remittanceId (later db)) (later db)) (\<lambda>updated db1.
       (Inr updated,
        remittance_audit env ACTOR_ADMIN adminId ''REMITTANCE_RECEIVED'' remittanceId
          [(''amountDueNgn'', JNum (rm_amountDueNgn r)), (''bankTransferRef'', json_opt (rm_bankTransferRef r)),
           (''settlementLedgerTxnId'', json_opt (rm_settlementLedgerTxnId updated))] db1)))"

section \<open>Recovery of the accounting\<close>

definition RECOVERY_BATCH :: nat where
  "RECOVERY_BATCH = 100"

definition needs_accounting :: "int \<Rightarrow> remittance \<Rightarrow> bool" where
  "needs_accounting cutover r \<longleftrightarrow> rm_createdAt r \<ge> cutover \<and>
     ((rm_commissionNgn r > 0 \<and> rm_commissionLedgerTxnId r = None) \<or>
      (rm_amountDueNgn r < 0 \<and> rm_walletCreditLedgerTxnId r = None) \<or>
      (rm_amountDueNgn r = 0 \<and> rm_receivedAt r = None))"

text \<open>
  One row of the sweep: a failure is logged and skipped, what it committed before stays. \<open>sched\<close>
  says how other requests interleave with it.
\<close>

definition recover_row ::
  "'a env_scheme \<Rightarrow> (string \<Rightarrow> commit \<times> (db \<Rightarrow> db)) \<Rightarrow> remittance \<Rightarrow> db \<Rightarrow> db" where
  "recover_row env sched r db =
     (case sched (rm_remittanceId r) of (cw, later) \<Rightarrow>
        if rm_amountDueNgn r < 0
        then snd (creditNegativeRemittanceToWallet env (rm_remittanceId r) cw later db)
        else snd (in_tx (ensureRemittanceCommission env (rm_remittanceId r) (later db)) (later db)))"

text \<open>
  \<open>tick\<close>, \<open>cutover\<close> being the configured date: without one, or with one that is no date, recovery is
  paused. The flag that keeps two sweeps of a process apart is left out.
\<close>

definition recovery_tick ::
  "'a env_scheme \<Rightarrow> int option \<Rightarrow> (string \<Rightarrow> commit \<times> (db \<Rightarrow> db)) \<Rightarrow> db \<Rightarrow> db" where
  "recovery_tick env cutover sched db =
     (case cutover of
        None \<Rightarrow> db
      | Some t \<Rightarrow>
          (let rows = take RECOVERY_BATCH (js_sort (\<lambda>a b. rm_createdAt a - rm_createdAt b)
             (filter (needs_accounting t) (remittances db))) in
           fold (recover_row env sched) rows db))"

section \<open>The deadline\<close>

definition DEADLINE_BATCH :: nat where
  "DEADLINE_BATCH = 200"

definition late_audit :: "db \<Rightarrow> remittance \<Rightarrow> audit_log" where
  "late_audit db r =
     \<lparr>al_severity = SEV_WARNING, al_actorType = ACTOR_SYSTEM, al_actorId = None, al_action = ''REMITTANCE_MARKED_LATE'',
      al_resourceType = ''Remittance'', al_resourceId = rm_remittanceId r,
      al_metadata = JObj [(''agentId'', JStr (rm_agentId r)),
        (''agentCode'', json_opt (map_option ag_agentCode (find_agent db (rm_agentId r)))),
        (''amountDueNgn'', JNum (rm_amountDueNgn r)),
        (''periodDate'', JStr (take 10 (to_iso_string (rm_periodDate r)))), (''sellingBlocked'', JBool False),
        (''settlementModel'', JStr ''HISTORICAL_REMITTANCE'')],
      al_signature = None\<rparr>"

text \<open>\<open>updateMany({ where: { remittanceId, status: PENDING } })\<close> and its audit row.\<close>

definition mark_late :: "remittance \<Rightarrow> db \<Rightarrow> db" where
  "mark_late r db =
     (let hit = (\<lambda>x. rm_remittanceId x = rm_remittanceId r \<and> rm_status x = RS_PENDING) in
      if \<exists>x\<in>set (remittances db). hit x
      then db\<lparr>remittances := update_where hit (\<lambda>x. x\<lparr>rm_status := RS_LATE\<rparr>) (remittances db),
              auditLog := auditLog db @ [late_audit db r]\<rparr>
      else db)"

definition markOverdue :: "db \<Rightarrow> db" where
  "markOverdue db =
     fold mark_late (take DEADLINE_BATCH
       (filter (\<lambda>r. rm_status r = RS_PENDING \<and> rm_amountDueNgn r > 0) (remittances db))) db"

text \<open>
  The warning at nine: the row is stamped before the message is sent. A message is the phone, the
  amount, the day and the provider's reference; its wording is left out.
\<close>

record due_warning =
  dw_phoneNumber :: string
  dw_amountNgn :: int
  dw_periodDate :: int
  dw_reference :: string

definition warn_row :: "'a env_scheme \<Rightarrow> remittance \<Rightarrow> db \<times> due_warning list \<Rightarrow> db \<times> due_warning list" where
  "warn_row env r s =
     (case s of (db, sent) \<Rightarrow>
        let hit = (\<lambda>x. rm_remittanceId x = rm_remittanceId r \<and> rm_deadlineWarnedAt x = None) in
        if list_ex hit (remittances db)
        then (db\<lparr>remittances := update_where hit (\<lambda>x. x\<lparr>rm_deadlineWarnedAt := Some (e_now env)\<rparr>) (remittances db)\<rparr>,
          sent @ [\<lparr>dw_phoneNumber = (case find_agent db (rm_agentId r) of None \<Rightarrow> [] | Some a \<Rightarrow> ag_phoneNumber a),
            dw_amountNgn = rm_amountDueNgn r, dw_periodDate = rm_periodDate r, dw_reference = ''rem-warn-'' @ rm_remittanceId r\<rparr>])
        else (db, sent))"

definition warnDueToday :: "'a env_scheme \<Rightarrow> db \<Rightarrow> db \<times> due_warning list" where
  "warnDueToday env db =
     fold (warn_row env) (take DEADLINE_BATCH (filter (\<lambda>r. rm_status r = RS_PENDING \<and> rm_amountDueNgn r > 0 \<and>
       rm_deadlineWarnedAt r = None) (remittances db))) (db, [])"

text \<open>Suspensions for debt alone are lifted, with the remittances left as they are.\<close>

definition DEBT_SUSPENSION_REASON :: string where
  "DEBT_SUSPENSION_REASON = ''UNSETTLED_REMITTANCE''"

definition debt_suspended :: "agent \<Rightarrow> bool" where
  "debt_suspended a \<longleftrightarrow> ag_status a = AGS_SUSPENDED \<and> ag_suspensionReason a = Some DEBT_SUSPENSION_REASON"

definition retired_audit :: "agent \<Rightarrow> remittance list \<Rightarrow> audit_log" where
  "retired_audit a owed =
     \<lparr>al_severity = SEV_INFO, al_actorType = ACTOR_SYSTEM, al_actorId = None,
      al_action = ''AGENT_REACTIVATED_DEBT_SUSPENSION_RETIRED'', al_resourceType = ''Agent'', al_resourceId = ag_agentId a,
      al_metadata = JObj [(''agentCode'', JStr (ag_agentCode a)), (''retiredReason'', JStr DEBT_SUSPENSION_REASON),
        (''openRemittanceCount'', JNum (int (length owed))),
        (''outstandingRemittanceNgn'', JNum (sum_by rm_amountDueNgn owed)), (''remittancesPreserved'', JBool True),
        (''settlementModel'', JStr ''PREPAID_WALLET'')],
      al_signature = None\<rparr>"

definition retire_row :: "agent \<times> remittance list \<Rightarrow> db \<Rightarrow> db" where
  "retire_row row db =
     (case row of (a, owed) \<Rightarrow>
        let hit = (\<lambda>x. ag_agentId x = ag_agentId a \<and> debt_suspended x) in
        if list_ex hit (agents db)
        then db\<lparr>agents := update_where hit (\<lambda>x. x\<lparr>ag_status := AGS_ACTIVE, ag_suspensionReason := None,
                  ag_suspendedAt := None\<rparr>) (agents db),
                auditLog := auditLog db @ [retired_audit a owed]\<rparr>
        else db)"

definition retireDebtSuspensions :: "db \<Rightarrow> db" where
  "retireDebtSuspensions db =
     fold retire_row (map (\<lambda>a. (a, filter (\<lambda>r. rm_agentId r = ag_agentId a \<and>
         rm_status r \<in> {RS_PENDING, RS_LATE} \<and> rm_amountDueNgn r > 0) (remittances db)))
       (take DEADLINE_BATCH (filter debt_suspended (agents db)))) db"

text \<open>\<open>tick\<close>, without its running flag; \<open>DEADLINE_MINUTES_WAT\<close> is eleven, \<open>WARNING_MINUTES_WAT\<close> nine in the morning.\<close>

definition watMinutes :: "int \<Rightarrow> int" where
  "watMinutes now = ((now + 60 * 60 * 1000) mod MS_PER_DAY) div 60000"

definition deadline_tick :: "'a env_scheme \<Rightarrow> db \<Rightarrow> db \<times> due_warning list" where
  "deadline_tick env db =
     (let db1 = retireDebtSuspensions db; minutes = watMinutes (e_now env) in
      if minutes \<ge> 11 * 60 then (markOverdue db1, [])
      else if minutes \<ge> 9 * 60 then warnDueToday env db1
      else (db1, []))"

end
