(* ===== verification/Agent_Laws.thy ===== *)
theory Agent_Laws
  imports Agent_Sales Agent_Remittance Wallet_Purchase_Laws
begin

text \<open>
  What the agent operations write: the frames of the postings they make, the effect of a sale and
  of a prize payout on every account, and the settlement of remittances.
\<close>

section \<open>Postings with a key of their own\<close>

lemma row_key:
  assumes "js_trim i = i" "i \<noteq> []" "\<not> is_js_space (hd p)" "p \<noteq> []"
  shows "js_trim (p @ i) = p @ i"
  by (rule js_trim_prefix) (use assms in auto)

lemma l_no_space: "\<not> is_js_space CHR ''l''"
  by code_simp

lemma post_fresh:
  assumes "postInTransaction env inp db = Inr (v, db')" "ledger_ok db"
    and "find_txn_by_key db (js_trim (pi_idempotencyKey inp)) = None"
  shows "net db' a = net db a + lines_net (map norm_line (pi_lines inp)) a"
    "find_txn_by_key db' k \<noteq> None \<longleftrightarrow> find_txn_by_key db k \<noteq> None \<or> k = js_trim (pi_idempotencyKey inp)"
    "find_txn_by_key db' (js_trim (pi_idempotencyKey inp)) = Some (tv_txn v)"
  using ledger.post_net [of "(env, inp)" db v db' a] ledger.post_key [of "(env, inp)" db v db' k] assms
    posted_key_found [OF assms(1) [unfolded postInTransaction_def] assms(2)] by auto

lemma key_kept:
  assumes "postInTransaction env inp db = Inr (v, db')" "ledger_ok db" "find_txn_by_key db k = None"
    "k \<noteq> js_trim (pi_idempotencyKey inp)"
  shows "find_txn_by_key db' k = None"
  using ledger.post_key [of "(env, inp)" db v db' k] assms by auto

lemma debit_moves:
  assumes "debitInTransaction env inp db = Inr (v, db')" "wallet_ok db"
    and "find_txn_by_key db (js_trim (mv_idempotencyKey inp)) = None"
    and "mv_counterAccountId inp \<notin> set (wallet_accounts db)" "js_trim (mv_counterAccountId inp) = mv_counterAccountId inp"
  obtains w where "find_wallet db (mv_walletId inp) = Some w" "w_status w = WS_ACTIVE"
    "mv_amountNgn inp \<le> net db (w_availableAccountId w)"
    "transferred (w_availableAccountId w) (mv_counterAccountId inp) (mv_amountNgn inp) db db'"
    "same_frame db db'" "wallet_ok db'" "find_txn_by_key db' (js_trim (mv_idempotencyKey inp)) = Some (tv_txn v)"
    "\<And>k. find_txn_by_key db k = None \<Longrightarrow> k \<noteq> js_trim (mv_idempotencyKey inp) \<Longrightarrow> find_txn_by_key db' k = None"
  using assms(1)
proof (rule debit_cases)
  fix w assume w: "find_wallet db (mv_walletId inp) = Some w" "w_status w = WS_ACTIVE"
    and bal: "find_txn_by_key db (js_trim (mv_idempotencyKey inp)) = None \<Longrightarrow> mv_amountNgn inp \<le> net db (w_availableAccountId w)"
    and p: "postInTransaction env (movement_post inp (w_availableAccountId w) (mv_counterAccountId inp)) db = Inr (v, db')"
  note ok = wallet_okD [OF assms(2)]
  have wm: "w \<in> set (wallets db)" using find_wallet_Some [OF w(1)] by simp
  have t: "transferred (w_availableAccountId w) (mv_counterAccountId inp) (mv_amountNgn inp) db db'"
    using post_moves [OF p ok(2) _ movement_lines(1)] assms(3,5) wallet_account_trimmed [OF ok(1)] wallet_account_member [OF wm]
    by (simp add: movement_lines)
  have e: "external db (mv_counterAccountId inp)" using assms(4,5) by (simp add: external_def)
  show thesis
    by (rule that [OF w bal [OF assms(3)] t post_facts(2) [OF p ok(2)] debit_keeps [OF assms(1,2) e]])
       (use post_fresh(3) [OF p ok(2)] key_kept [OF p ok(2)] assms(3) in \<open>auto simp: movement_lines\<close>)
qed

lemma credit_moves:
  assumes "creditInTransaction env inp db = Inr (v, db')" "wallet_ok db"
    and "find_txn_by_key db (js_trim (mv_idempotencyKey inp)) = None"
    and "mv_counterAccountId inp \<notin> set (wallet_accounts db)" "js_trim (mv_counterAccountId inp) = mv_counterAccountId inp"
  obtains w where "find_wallet db (mv_walletId inp) = Some w" "w_status w \<noteq> WS_CLOSED"
    "transferred (mv_counterAccountId inp) (w_availableAccountId w) (mv_amountNgn inp) db db'"
    "same_frame db db'" "wallet_ok db'" "find_txn_by_key db' (js_trim (mv_idempotencyKey inp)) = Some (tv_txn v)"
    "\<And>k. find_txn_by_key db k = None \<Longrightarrow> k \<noteq> js_trim (mv_idempotencyKey inp) \<Longrightarrow> find_txn_by_key db' k = None"
  using assms(1)
proof (rule credit_cases)
  fix w assume w: "find_wallet db (mv_walletId inp) = Some w" "w_status w \<noteq> WS_CLOSED"
    and p: "postInTransaction env (movement_post inp (mv_counterAccountId inp) (w_availableAccountId w)) db = Inr (v, db')"
  note ok = wallet_okD [OF assms(2)]
  have wm: "w \<in> set (wallets db)" using find_wallet_Some [OF w(1)] by simp
  have t: "transferred (mv_counterAccountId inp) (w_availableAccountId w) (mv_amountNgn inp) db db'"
    using post_moves [OF p ok(2) _ movement_lines(1)] assms(3,5) wallet_account_trimmed [OF ok(1)] wallet_account_member [OF wm]
    by (simp add: movement_lines)
  have e: "external db (mv_counterAccountId inp)" using assms(4,5) by (simp add: external_def)
  show thesis
    by (rule that [OF w t post_facts(2) [OF p ok(2)] credit_keeps [OF assms(1,2) e]])
       (use post_fresh(3) [OF p ok(2)] key_kept [OF p ok(2)] assms(3) in \<open>auto simp: movement_lines\<close>)
qed

section \<open>Sales\<close>

definition sale_keys_unused :: "db \<Rightarrow> string \<Rightarrow> bool" where
  "sale_keys_unused db i \<longleftrightarrow> find_txn_by_key db (''ledger:agent-sale-wallet:'' @ i) = None \<and>
     find_txn_by_key db (''ledger:agent-sale-commission:'' @ i) = None"

text \<open>The system accounts are not accounts of a wallet.\<close>

definition system_accounts_apart :: "db \<Rightarrow> bool" where
  "system_accounts_apart db \<longleftrightarrow> (\<forall>a\<in>set (accounts db).
     la_code a \<in> {TICKET_SALES_REVENUE_CODE, AGENT_COMMISSION_EXPENSE_CODE, PRIZE_EXPENSE_CODE, PRIZE_PAYABLE_CODE, WHT_PAYABLE_CODE}
     \<longrightarrow> la_accountId a \<notin> set (wallet_accounts db))"

lemma system_apartD:
  assumes "system_accounts_apart db" "find_account_by_code db c = Some a"
    and "c \<in> {TICKET_SALES_REVENUE_CODE, AGENT_COMMISSION_EXPENSE_CODE, PRIZE_EXPENSE_CODE, PRIZE_PAYABLE_CODE, WHT_PAYABLE_CODE}"
  shows "la_accountId a \<notin> set (wallet_accounts db)"
  using assms find_account_by_code_sel [OF assms(2)] by (auto simp: system_accounts_apart_def)

lemma recordSale_cases:
  assumes "recordSaleInTransaction env inp db = Inr (t, db')"
    "find_payment db (sl_paymentTxnId inp) = Some p" "pt_collectionLedgerTxnId p = None"
  obtains ra v db1 db2 where "0 \<le> sl_commissionNgn inp" "sl_commissionNgn inp < sl_amountNgn inp"
    "find_account_by_code db TICKET_SALES_REVENUE_CODE = Some ra"
    "debitInTransaction env (sale_movement inp (la_accountId ra)) db = Inr (v, db1)"
    "sl_commissionNgn inp = 0 \<and> db2 = db1 \<or> 0 < sl_commissionNgn inp \<and>
       (\<exists>ea u. find_account_by_code db1 AGENT_COMMISSION_EXPENSE_CODE = Some ea \<and>
         postInTransaction env (sale_commission_post inp (la_accountId ea) (la_accountId ra)) db1 = Inr (u, db2))"
    "t = tv_txn v"
    "db' = db2\<lparr>payments := update_where (\<lambda>p. pt_txnId p = sl_paymentTxnId inp)
       (\<lambda>p. p\<lparr>pt_collectionLedgerTxnId := Some (lt_ledgerTxnId (tv_txn v))\<rparr>) (payments db2)\<rparr>"
proof -
  note s = assms(1) [unfolded recordSaleInTransaction_def assms(2) from_option_Some bind_res_Inr assms(3) option.simps]
  have c: "0 \<le> sl_commissionNgn inp" "sl_commissionNgn inp < sl_amountNgn inp" using s by (auto split: if_splits)
  note s = s [unfolded if_res_eq_Inr]
  obtain ra v db1 where r: "find_account_by_code db TICKET_SALES_REVENUE_CODE = Some ra"
    "debitInTransaction env (sale_movement inp (la_accountId ra)) db = Inr (v, db1)"
    using s by (auto simp: res_simps)
  note s = s [unfolded requireAccount_def r(1) option.simps bind_res_Inr r(2) prod.case]
  show thesis
  proof (cases "sl_commissionNgn inp > 0")
    case True
    then obtain ea u db2 where e: "find_account_by_code db1 AGENT_COMMISSION_EXPENSE_CODE = Some ea"
      "postInTransaction env (sale_commission_post inp (la_accountId ea) (la_accountId ra)) db1 = Inr (u, db2)"
      using s by (auto simp: res_simps split: option.splits)
    then show thesis using that [OF c r, of db2] s True by (auto simp: res_simps)
  next
    case False
    then show thesis using that [OF c r, of db1] s c by (auto simp: res_simps)
  qed
qed

definition journals_frame :: "db \<Rightarrow> db \<Rightarrow> bool" where
  "journals_frame db db' \<longleftrightarrow> (\<exists>ts es ps cs n. db' = db\<lparr>txns := ts, entries := es, payments := ps, claims := cs, seq := n\<rparr>)"

lemma journals_frame_sel:
  assumes "journals_frame db db'"
  shows "accounts db' = accounts db" "wallets db' = wallets db" "holds db' = holds db" "users db' = users db"
    "agents db' = agents db" "remittances db' = remittances db" "draws db' = draws db" "tickets db' = tickets db"
    "accumulations db' = accumulations db" "offers db' = offers db" "walletPurchases db' = walletPurchases db"
    "auditLog db' = auditLog db"
  using assms by (auto simp: journals_frame_def)

lemma journals_frame_intro:
  assumes "same_frame db db'"
  shows "journals_frame db db'" "journals_frame db (db'\<lparr>payments := ps\<rparr>)" "journals_frame db (db'\<lparr>claims := cs\<rparr>)"
proof -
  obtain ts es n where d: "db' = db\<lparr>txns := ts, entries := es, seq := n\<rparr>" using assms by (auto simp: same_frame_def)
  have "db' = db\<lparr>txns := ts, entries := es, payments := payments db, claims := claims db, seq := n\<rparr>" by (simp add: d)
  then show "journals_frame db db'" unfolding journals_frame_def by blast
  have "db'\<lparr>payments := ps\<rparr> = db\<lparr>txns := ts, entries := es, payments := ps, claims := claims db, seq := n\<rparr>" by (simp add: d)
  then show "journals_frame db (db'\<lparr>payments := ps\<rparr>)" unfolding journals_frame_def by blast
  have "db'\<lparr>claims := cs\<rparr> = db\<lparr>txns := ts, entries := es, payments := payments db, claims := cs, seq := n\<rparr>" by (simp add: d)
  then show "journals_frame db (db'\<lparr>claims := cs\<rparr>)" unfolding journals_frame_def by blast
qed

lemma journals_frame_trans:
  assumes "journals_frame a b" "journals_frame b c"
  shows "journals_frame a c"
proof -
  obtain ts es ps cs n where b: "b = a\<lparr>txns := ts, entries := es, payments := ps, claims := cs, seq := n\<rparr>"
    using assms(1) by (auto simp: journals_frame_def)
  obtain ts' es' ps' cs' n' where c: "c = b\<lparr>txns := ts', entries := es', payments := ps', claims := cs', seq := n'\<rparr>"
    using assms(2) by (auto simp: journals_frame_def)
  have "c = a\<lparr>txns := ts', entries := es', payments := ps', claims := cs', seq := n'\<rparr>" by (simp add: b c)
  then show ?thesis unfolding journals_frame_def by blast
qed

lemma system_apart_cong:
  assumes "accounts db' = accounts db" "wallets db' = wallets db"
  shows "find_account_by_code db' c = find_account_by_code db c" "wallet_accounts db' = wallet_accounts db"
  using assms by (simp_all add: find_account_by_code_def wallet_accounts_def)

lemma recordSale_effect:
  assumes "recordSaleInTransaction env inp db = Inr (t, db')" "wallet_ok db" "system_accounts_apart db"
    "find_payment db (sl_paymentTxnId inp) = Some p" "pt_collectionLedgerTxnId p = None"
    "js_trim (sl_paymentTxnId inp) = sl_paymentTxnId inp" "sl_paymentTxnId inp \<noteq> []"
    "sale_keys_unused db (sl_paymentTxnId inp)"
  obtains w ra ea where "0 \<le> sl_commissionNgn inp" "sl_commissionNgn inp < sl_amountNgn inp"
    "find_account_by_code db TICKET_SALES_REVENUE_CODE = Some ra"
    "0 < sl_commissionNgn inp \<Longrightarrow> find_account_by_code db AGENT_COMMISSION_EXPENSE_CODE = Some ea"
    "find_wallet db (sl_walletId inp) = Some w"
    "sl_amountNgn inp - sl_commissionNgn inp \<le> net db (w_availableAccountId w)"
    "\<And>a. net db' a = net db a - (if a = w_availableAccountId w then sl_amountNgn inp - sl_commissionNgn inp else 0)
       + (if a = la_accountId ra then sl_amountNgn inp else 0)
       - (if a = la_accountId ea then sl_commissionNgn inp else 0)"
    "wallet_ok db'" "journals_frame db db'" "claims db' = claims db"
    "payments db' = update_where (\<lambda>p. pt_txnId p = sl_paymentTxnId inp)
       (\<lambda>p. p\<lparr>pt_collectionLedgerTxnId := Some (lt_ledgerTxnId t)\<rparr>) (payments db)"
    "find_txn_by_key db' (''ledger:agent-sale-wallet:'' @ sl_paymentTxnId inp) = Some t"
proof -
  let ?i = "sl_paymentTxnId inp" and ?n = "sl_amountNgn inp" and ?c = "sl_commissionNgn inp"
  obtain ra v db1 db2 where r: "0 \<le> ?c" "?c < ?n" "find_account_by_code db TICKET_SALES_REVENUE_CODE = Some ra"
    "debitInTransaction env (sale_movement inp (la_accountId ra)) db = Inr (v, db1)"
    "?c = 0 \<and> db2 = db1 \<or> 0 < ?c \<and> (\<exists>ea u. find_account_by_code db1 AGENT_COMMISSION_EXPENSE_CODE = Some ea \<and>
         postInTransaction env (sale_commission_post inp (la_accountId ea) (la_accountId ra)) db1 = Inr (u, db2))"
    "t = tv_txn v"
    "db' = db2\<lparr>payments := update_where (\<lambda>p. pt_txnId p = ?i)
       (\<lambda>p. p\<lparr>pt_collectionLedgerTxnId := Some (lt_ledgerTxnId (tv_txn v))\<rparr>) (payments db2)\<rparr>"
    using assms(1,4,5) by (rule recordSale_cases) (rule that; assumption)
  have ks: "js_trim (''ledger:agent-sale-wallet:'' @ ?i) = ''ledger:agent-sale-wallet:'' @ ?i"
    "js_trim (''ledger:agent-sale-commission:'' @ ?i) = ''ledger:agent-sale-commission:'' @ ?i"
    by (rule row_key [OF assms(6,7)]; simp add: l_no_space)+
  have m: "mv_counterAccountId (sale_movement inp (la_accountId ra)) = la_accountId ra"
    "mv_amountNgn (sale_movement inp (la_accountId ra)) = ?n - ?c" "mv_walletId (sale_movement inp (la_accountId ra)) = sl_walletId inp"
    "js_trim (mv_idempotencyKey (sale_movement inp (la_accountId ra))) = ''ledger:agent-sale-wallet:'' @ ?i"
    using ks(1) by (simp_all add: sale_movement_def Let_def)
  have rt: "la_accountId ra \<notin> set (wallet_accounts db)" "js_trim (la_accountId ra) = la_accountId ra"
    using system_apartD [OF assms(3) r(3)] r(3) accounts_trimmedD [OF wallet_okD(3) [OF assms(2)]] by auto
  obtain w where w: "find_wallet db (sl_walletId inp) = Some w" "?n - ?c \<le> net db (w_availableAccountId w)"
    "transferred (w_availableAccountId w) (la_accountId ra) (?n - ?c) db db1" "same_frame db db1" "wallet_ok db1"
    "find_txn_by_key db1 (''ledger:agent-sale-wallet:'' @ ?i) = Some (tv_txn v)"
    "find_txn_by_key db1 (''ledger:agent-sale-commission:'' @ ?i) = None"
  proof (rule debit_moves [OF r(4) assms(2), unfolded m])
    show "find_txn_by_key db (''ledger:agent-sale-wallet:'' @ ?i) = None" using assms(8) by (simp add: sale_keys_unused_def)
  qed (use rt assms(8) that in \<open>auto simp: sale_keys_unused_def\<close>)
  note f1 = same_frame_sel [OF w(4)] and c1 = system_apart_cong [OF same_frame_sel(1,2) [OF w(4)]]
  have "\<exists>ea. (0 < ?c \<longrightarrow> find_account_by_code db AGENT_COMMISSION_EXPENSE_CODE = Some ea) \<and>
    (\<forall>a. net db2 a = net db1 a - (if a = la_accountId ea then ?c else 0) + (if a = la_accountId ra then ?c else 0)) \<and>
    wallet_ok db2 \<and> same_frame db1 db2 \<and>
    find_txn_by_key db2 (''ledger:agent-sale-wallet:'' @ ?i) = Some (tv_txn v)"
  proof (cases "?c = 0")
    case True
    then show ?thesis using r(5) w(5,6) by (intro exI [of _ ra]) auto
  next
    case False
    then obtain ea u where e: "0 < ?c" "find_account_by_code db AGENT_COMMISSION_EXPENSE_CODE = Some ea"
      "postInTransaction env (sale_commission_post inp (la_accountId ea) (la_accountId ra)) db1 = Inr (u, db2)"
      using r(5) by (auto simp: c1)
    have et: "la_accountId ea \<notin> set (wallet_accounts db)" "js_trim (la_accountId ea) = la_accountId ea"
      using system_apartD [OF assms(3) e(2)] e(2) accounts_trimmedD [OF wallet_okD(3) [OF assms(2)]] by auto
    note l1 = wallet_okD(2) [OF w(5)]
    have k: "pi_idempotencyKey (sale_commission_post inp x y) = ''ledger:agent-sale-commission:'' @ ?i"
      "pi_lines (sale_commission_post inp x y) = transfer_lines x ''Agent commission expense'' y
        ''Ticket revenue represented by retained commission'' ?c" for x y
      by (simp_all add: sale_commission_post_def)
    note p = post_transfer_lines [OF e(3) l1 _ k(2) et(2) rt(2), unfolded k ks(2), OF w(7)]
    have "wallet_ok db2"
      by (rule wallet_post_keeps [OF e(3) w(5)])
         (use et rt in \<open>auto simp: k transfer_lines_def external_def c1\<close>)
    moreover have "find_txn_by_key db2 (''ledger:agent-sale-wallet:'' @ ?i) = Some (tv_txn v)"
    proof -
      obtain ts where "txns db2 = txns db1 @ ts" using postInternal_append [OF e(3) [unfolded postInTransaction_def]] by blast
      then show ?thesis using w(6) find_txn_by_key_append by blast
    qed
    ultimately show ?thesis
      using e(2) p(2) transferred_trans_net [OF p(3)] by (intro exI [of _ ea]) auto
  qed
  then obtain ea where e: "0 < ?c \<Longrightarrow> find_account_by_code db AGENT_COMMISSION_EXPENSE_CODE = Some ea"
    "\<And>a. net db2 a = net db1 a - (if a = la_accountId ea then ?c else 0) + (if a = la_accountId ra then ?c else 0)"
    "wallet_ok db2" "same_frame db1 db2" "find_txn_by_key db2 (''ledger:agent-sale-wallet:'' @ ?i) = Some (tv_txn v)"
    by blast
  have ok: "wallet_ok db'" by (rule wallet_other_keeps [OF e(3)]) (simp_all add: r(7))
  have nets: "net db' a = net db a - (if a = w_availableAccountId w then ?n - ?c else 0)
       + (if a = la_accountId ra then ?n else 0) - (if a = la_accountId ea then ?c else 0)" for a
    using transferred_trans_net [OF w(3), of a] e(2) [of a] by (simp add: r(7))
  show thesis
    by (rule that [OF r(1-3) e(1) w(1,2) nets])
       (use e ok r(6) journals_frame_trans [OF journals_frame_intro(1) [OF w(4)] journals_frame_intro(2) [OF e(4)]]
         same_frame_sel(6,9) [OF e(4)] f1(6,9) in \<open>simp_all add: r(7)\<close>)
qed

lemma create_payment_cases:
  assumes "create_payment env p0 db = Inr (p, db')"
  shows "p = p0\<lparr>pt_txnId := e_uuid env (seq db)\<rparr>" "find_payment db (e_uuid env (seq db)) = None"
    "pt_amountNgn p0 \<le> MAX_INT4" "db' = db\<lparr>payments := payments db @ [p], seq := seq db + 1\<rparr>"
  using assms by (auto simp: create_payment_def Let_def split: if_splits)

text \<open>The payment row of a sale as it is after the transaction.\<close>

definition sold_payment :: "'a env_scheme \<Rightarrow> sale_ctx \<Rightarrow> sell_dto \<Rightarrow> string \<Rightarrow> string \<Rightarrow> payment_transaction" where
  "sold_payment env c dto txnId j =
     (sale_payment env c dto)\<lparr>pt_txnId := txnId, pt_collectionLedgerTxnId := Some j\<rparr>"

lemma sale_tx_cases:
  assumes "sale_tx env rnd c dto db = Inr ((txn, refs, unlock), db')"
  obtains db1 t db2 db3 where "create_payment env (sale_payment env c dto) db = Inr (txn, db1)"
    "recordSaleInTransaction env (sale_entry env c (pt_txnId txn)) db1 = Inr (t, db2)"
    "create_tickets env (map (\<lambda>k. sale_ticket c dto (pt_txnId txn) (rnd k)) [0..<sd_quantity dto]) db2 = Inr db3"
    "refs = map t_ticketRef (map (\<lambda>k. sale_ticket c dto (pt_txnId txn) (rnd k)) [0..<sd_quantity dto])"
    "promo_frame db3 db'"
proof -
  from assms obtain db1 t db2 db3 where a: "create_payment env (sale_payment env c dto) db = Inr (txn, db1)"
    "recordSaleInTransaction env (sale_entry env c (pt_txnId txn)) db1 = Inr (t, db2)"
    "create_tickets env (map (\<lambda>k. sale_ticket c dto (pt_txnId txn) (rnd k)) [0..<sd_quantity dto]) db2 = Inr db3"
    and r: "refs = map t_ticketRef (map (\<lambda>k. sale_ticket c dto (pt_txnId txn) (rnd k)) [0..<sd_quantity dto])"
    and u: "(case given_phone dto of None \<Rightarrow> Inr (None, db3)
        | Some phone \<Rightarrow>
            (if d_drawType (sc_draw c) = DAILY_STANDARD
             then recordDailyPurchase env
               \<lparr>rp_buyerPhone = phone, rp_buyerUserId = None, rp_ticketCount = sd_quantity dto,
                rp_sourcePaymentTxnId = Some (pt_txnId txn), rp_sourceWalletPurchaseId = None\<rparr> db3
             else Inr (None, db3))) = Inr (unlock, db')"
    unfolding sale_tx_def by (auto simp: res_simps Let_def)
  have "promo_frame db3 db'" using u by (auto simp: promo_frame_refl split: option.splits if_splits intro: recordDailyPurchase_frame)
  then show thesis by (rule that [OF a r])
qed

lemma list_all2_map_eq:
  assumes "list_all2 (\<lambda>t t'. \<exists>i. t' = t\<lparr>t_ticketId := i\<rparr>) ts new" "\<And>t i. f (t\<lparr>t_ticketId := i\<rparr>) = f t"
  shows "map f new = map f ts"
  using assms(1) by (induction rule: list_all2_induct) (auto simp: assms(2))

lemma sale_tx_effect:
  assumes "sale_tx env rnd c dto db = Inr ((txn, refs, unlock), db')" "wallet_ok db" "system_accounts_apart db"
    "uuid_ok env" "sale_keys_unused db (e_uuid env (seq db))"
  obtains w ra ea t new where "pt_txnId txn = e_uuid env (seq db)" "0 \<le> sc_commissionNgn c" "sc_commissionNgn c < sc_amountNgn c"
    "find_account_by_code db TICKET_SALES_REVENUE_CODE = Some ra"
    "0 < sc_commissionNgn c \<Longrightarrow> find_account_by_code db AGENT_COMMISSION_EXPENSE_CODE = Some ea"
    "find_wallet db (sc_walletId c) = Some w"
    "sc_amountNgn c - sc_commissionNgn c \<le> net db (w_availableAccountId w)"
    "\<And>a. net db' a = net db a - (if a = w_availableAccountId w then sc_amountNgn c - sc_commissionNgn c else 0)
       + (if a = la_accountId ra then sc_amountNgn c else 0)
       - (if a = la_accountId ea then sc_commissionNgn c else 0)"
    "wallet_ok db'"
    "payments db' = payments db @ [sold_payment env c dto (e_uuid env (seq db)) (lt_ledgerTxnId t)]"
    "find_txn_by_key db' (''ledger:agent-sale-wallet:'' @ e_uuid env (seq db)) = Some t"
    "tickets db' = tickets db @ new" "map t_ticketRef new = refs" "length new = sd_quantity dto"
    "distinct (map t_ticketRef new)" "set (map t_ticketRef new) \<inter> set (map t_ticketRef (tickets db)) = {}"
    "\<And>x. x \<in> set new \<Longrightarrow> t_drawId x = d_drawId (sc_draw c) \<and> t_faceValueNgn x = d_ticketPriceNgn (sc_draw c) \<and>
      t_agentId x = Some (ag_agentId (sc_agent c)) \<and> t_paymentTxnId x = Some (e_uuid env (seq db)) \<and> t_status x = TS_ACTIVE"
proof -
  let ?i = "e_uuid env (seq db)"
  obtain db1 t db2 db3 where s: "create_payment env (sale_payment env c dto) db = Inr (txn, db1)"
    "recordSaleInTransaction env (sale_entry env c (pt_txnId txn)) db1 = Inr (t, db2)"
    "create_tickets env (map (\<lambda>k. sale_ticket c dto (pt_txnId txn) (rnd k)) [0..<sd_quantity dto]) db2 = Inr db3"
    "refs = map t_ticketRef (map (\<lambda>k. sale_ticket c dto (pt_txnId txn) (rnd k)) [0..<sd_quantity dto])"
    "promo_frame db3 db'"
    using assms(1) by (rule sale_tx_cases) (rule that; assumption)
  note p = create_payment_cases [OF s(1)]
  have i: "pt_txnId txn = ?i" by (simp add: p(1))
  have id: "js_trim ?i = ?i" "?i \<noteq> []" using assms(4) by (simp_all add: uuid_ok_def)
  have ok1: "wallet_ok db1" by (rule wallet_other_keeps [OF assms(2)]) (simp_all add: p(4))
  have ap1: "system_accounts_apart db1" using assms(3) by (simp add: system_accounts_apart_def p(4) wallet_accounts_def)
  have f1: "find_payment db1 (sl_paymentTxnId (sale_entry env c ?i)) = Some txn"
    using p(2) i by (simp add: p(4) find_payment_def find_append sale_entry_def)
  have e1: "sl_paymentTxnId (sale_entry env c ?i) = ?i" "sl_amountNgn (sale_entry env c ?i) = sc_amountNgn c"
    "sl_commissionNgn (sale_entry env c ?i) = sc_commissionNgn c" "sl_walletId (sale_entry env c ?i) = sc_walletId c"
    by (simp_all add: sale_entry_def)
  have col: "pt_collectionLedgerTxnId txn = None" by (simp add: p(1) sale_payment_def)
  have ku: "sale_keys_unused db1 ?i" using assms(5) by (simp add: sale_keys_unused_def p(4) find_txn_by_key_def)
  obtain w ra ea where e: "0 \<le> sc_commissionNgn c" "sc_commissionNgn c < sc_amountNgn c"
    "find_account_by_code db1 TICKET_SALES_REVENUE_CODE = Some ra"
    "0 < sc_commissionNgn c \<Longrightarrow> find_account_by_code db1 AGENT_COMMISSION_EXPENSE_CODE = Some ea"
    "find_wallet db1 (sc_walletId c) = Some w"
    "sc_amountNgn c - sc_commissionNgn c \<le> net db1 (w_availableAccountId w)"
    "\<And>a. net db2 a = net db1 a - (if a = w_availableAccountId w then sc_amountNgn c - sc_commissionNgn c else 0)
       + (if a = la_accountId ra then sc_amountNgn c else 0)
       - (if a = la_accountId ea then sc_commissionNgn c else 0)"
    "wallet_ok db2" "journals_frame db1 db2"
    "payments db2 = update_where (\<lambda>p. pt_txnId p = ?i)
       (\<lambda>p. p\<lparr>pt_collectionLedgerTxnId := Some (lt_ledgerTxnId t)\<rparr>) (payments db1)"
    "find_txn_by_key db2 (''ledger:agent-sale-wallet:'' @ ?i) = Some t"
    by (rule recordSale_effect [OF s(2) [unfolded i] ok1 ap1 f1 col, unfolded e1, OF id ku]) (rule that; assumption)
  obtain new m where n: "db3 = db2\<lparr>tickets := tickets db2 @ new, seq := m\<rparr>"
    "list_all2 (\<lambda>t t'. \<exists>i. t' = t\<lparr>t_ticketId := i\<rparr>) (map (\<lambda>k. sale_ticket c dto (pt_txnId txn) (rnd k)) [0..<sd_quantity dto]) new"
    "distinct (map t_ticketRef new)" "set (map t_ticketRef new) \<inter> set (map t_ticketRef (tickets db2)) = {}"
    using create_tickets_rows [OF s(3)] by blast
  note f5 = promo_frame_sel [OF s(5)] and f2 = journals_frame_sel [OF e(9)]
  have old: "pt_txnId x \<noteq> ?i" if "x \<in> set (payments db)" for x
    using p(2) that by (auto simp: find_payment_def find_None_set)
  have pay: "payments db2 = payments db @ [sold_payment env c dto ?i (lt_ledgerTxnId t)]"
    using update_where_none [of "payments db" "\<lambda>p. pt_txnId p = ?i"] old
    by (simp add: e(10) p(4) p(1) sold_payment_def) (simp add: update_where_def)
  have tk: "tickets db2 = tickets db" by (simp add: f2 p(4))
  have nd: "net db1 a = net db a" for a by (rule net_cong) (simp add: p(4))
  have nd': "net db' a = net db2 a" for a by (rule net_cong) (simp add: f5 n(1))
  have ok': "wallet_ok db'" by (rule wallet_other_keeps [OF e(8)]) (simp_all add: f5 n(1))
  have rows: "t_drawId x = d_drawId (sc_draw c) \<and> t_faceValueNgn x = d_ticketPriceNgn (sc_draw c) \<and>
      t_agentId x = Some (ag_agentId (sc_agent c)) \<and> t_paymentTxnId x = Some ?i \<and> t_status x = TS_ACTIVE" if "x \<in> set new" for x
    using n(2) that by (fastforce simp: list_all2_conv_all_nth in_set_conv_nth sale_ticket_def i)
  show thesis
    by (rule that [of ra ea w t new])
       (use i e nd nd' ok' pay n list_all2_map_eq [OF n(2), of t_ticketRef] list_all2_lengthD [OF n(2)] rows s(4) tk in
         \<open>simp_all add: p(4) f5 find_account_by_code_def find_wallet_def find_txn_by_key_def\<close>)
qed

lemma sell_cases:
  assumes "sell env rnd uuid agentId dto cw later db = (Inr v, db')"
  obtains agent d wv db1 c txn unlock db2 where "find_agent db agentId = Some agent" "ag_status agent = AGS_ACTIVE"
    "\<And>ph. given_phone dto = Some ph \<Longrightarrow> ph \<notin> set (blockedPhones db)"
    "d \<in> set (draws db)" "d_drawCode d = sd_drawCode dto" "d_status d = DS_ACTIVE" "e_now env < d_cutoffAt d"
    "agent_wallet env agentId cw db = (Inr wv, db1)"
    "c = \<lparr>sc_agent = agent, sc_draw = d, sc_walletId = wv_walletId wv, sc_reference = ''SW-AGT-'' @ uuid,
       sc_amountNgn = d_ticketPriceNgn d * int (sd_quantity dto),
       sc_commissionNgn = sale_commission (d_ticketPriceNgn d * int (sd_quantity dto)) (ag_commissionRate agent)\<rparr>"
    "sale_tx env rnd c dto (later db1) = Inr ((txn, sv_ticketRefs v, unlock), db2)"
    "sv_amountNgn v = sc_amountNgn c" "sv_commissionNgn v = sc_commissionNgn c"
    "db' = sale_audit env c dto (pt_txnId txn) unlock db2"
proof -
  note s = assms [unfolded sell_def]
  obtain agent d where k: "sale_checks env agentId dto db = Inr (agent, d)"
    using s by (cases "sale_checks env agentId dto db") auto
  have kk: "find_agent db agentId = Some agent" "ag_status agent = AGS_ACTIVE"
    "\<And>ph. given_phone dto = Some ph \<Longrightarrow> ph \<notin> set (blockedPhones db)"
    "find (\<lambda>d. d_drawCode d = sd_drawCode dto) (draws db) = Some d" "d_status d = DS_ACTIVE" "e_now env < d_cutoffAt d"
    using k by (auto simp: sale_checks_def res_simps assertNotBlocked_def split: if_splits option.splits)
  note s = s [unfolded k then_do_simps prod.case Let_def]
  let ?n = "d_ticketPriceNgn d * int (sd_quantity dto)"
  have pos: "\<not> ?n - sale_commission ?n (ag_commissionRate agent) \<le> 0" using s by (auto split: if_splits)
  note s = s [unfolded if_not_P [OF pos]]
  obtain wv db1 where w: "agent_wallet env agentId cw db = (Inr wv, db1)"
    using s by (auto simp: then_do_Inr)
  note s = s [unfolded w then_do_simps]
  define c where "c = \<lparr>sc_agent = agent, sc_draw = d, sc_walletId = wv_walletId wv, sc_reference = ''SW-AGT-'' @ uuid,
       sc_amountNgn = ?n, sc_commissionNgn = sale_commission ?n (ag_commissionRate agent)\<rparr>"
  note s = s [folded c_def]
  obtain txn refs unlock db2 where t: "sale_tx env rnd c dto (later db1) = Inr ((txn, refs, unlock), db2)"
    "v = \<lparr>sv_saleReference = sc_reference c, sv_drawCode = d_drawCode d, sv_quantity = sd_quantity dto,
             sv_amountNgn = ?n, sv_commissionNgn = sale_commission ?n (ag_commissionRate agent),
             sv_walletChargeNgn = ?n - sale_commission ?n (ag_commissionRate agent), sv_ticketRefs = refs,
             sv_customerNotified = (given_phone dto \<noteq> None), sv_soldAt = to_iso_string (e_now env),
             sv_jackpotOfferUnlock = unlock\<rparr>" "db' = sale_audit env c dto (pt_txnId txn) unlock db2"
    using s by (auto simp: then_do_Inr in_tx_Inr)
  have dm: "d \<in> set (draws db)" "d_drawCode d = sd_drawCode dto" using kk(4) by (auto dest: find_Some_set)
  show thesis
    by (rule that [OF kk(1-3) dm kk(5,6) w c_def, of txn unlock db2]) (use t in \<open>simp_all add: c_def\<close>)
qed

section \<open>Prizes\<close>

definition prize_keys_unused :: "db \<Rightarrow> string \<Rightarrow> bool" where
  "prize_keys_unused db i \<longleftrightarrow> find_txn_by_key db (''ledger:prize-accrual:'' @ i) = None \<and>
     find_txn_by_key db (''ledger:agent-prize-wallet-credit:'' @ i) = None"

lemma prize_accrual_cases:
  assumes "ensurePrizeAccrualInTransaction env claim db = Inr (t, db')" "pc_prizeAccrualLedgerTxnId claim = None"
  obtains ea pa wa v db1 where "0 < pc_netPrizeValueNgn claim" "0 \<le> pc_whtAmountNgn claim"
    "pc_grossPrizeValueNgn claim = pc_netPrizeValueNgn claim + pc_whtAmountNgn claim"
    "find_account_by_code db PRIZE_EXPENSE_CODE = Some ea" "find_account_by_code db PRIZE_PAYABLE_CODE = Some pa"
    "0 < pc_whtAmountNgn claim \<Longrightarrow> find_account_by_code db WHT_PAYABLE_CODE = Some wa"
    "postInTransaction env (prize_accrual_post claim
       (accrual_lines claim (la_accountId ea) (la_accountId pa) (la_accountId wa))) db = Inr (v, db1)"
    "\<exists>c\<in>set (claims db1). pc_claimId c = pc_claimId claim"
    "db' = db1\<lparr>claims := update_where (\<lambda>c. pc_claimId c = pc_claimId claim)
       (\<lambda>c. c\<lparr>pc_prizeAccrualLedgerTxnId := Some (lt_ledgerTxnId (tv_txn v))\<rparr>) (claims db1)\<rparr>"
proof -
  note s = assms(1) [unfolded ensurePrizeAccrualInTransaction_def assms(2) option.simps if_res_eq_Inr]
  have b: "0 < pc_netPrizeValueNgn claim" "0 \<le> pc_whtAmountNgn claim"
    "pc_grossPrizeValueNgn claim = pc_netPrizeValueNgn claim + pc_whtAmountNgn claim"
    using s by auto
  obtain ea pa where r: "find_account_by_code db PRIZE_EXPENSE_CODE = Some ea" "find_account_by_code db PRIZE_PAYABLE_CODE = Some pa"
    using s by (auto simp: res_simps)
  note s = s [unfolded requireAccount_def r option.simps bind_res_Inr]
  have same: "accrual_lines claim x y z = accrual_lines claim x y z'" if "pc_whtAmountNgn claim = 0" for x y z z'
    using that by (simp add: accrual_lines_def)
  obtain wa where wa: "0 < pc_whtAmountNgn claim \<Longrightarrow> find_account_by_code db WHT_PAYABLE_CODE = Some wa"
    using s by (cases "0 < pc_whtAmountNgn claim") (auto simp: res_simps split: option.splits)
  have "bind_res (postInTransaction env (prize_accrual_post claim
              (accrual_lines claim (la_accountId ea) (la_accountId pa) (la_accountId wa))) db)
              (\<lambda>(journal, db1).
            bind_res (link_row pc_claimId pc_prizeAccrualLedgerTxnId
              (\<lambda>c. c\<lparr>pc_prizeAccrualLedgerTxnId := Some (lt_ledgerTxnId (tv_txn journal))\<rparr>)
              (pc_claimId claim) (lt_ledgerTxnId (tv_txn journal)) (claims db1)) (\<lambda>cs.
            Inr (tv_txn journal, db1\<lparr>claims := cs\<rparr>))) = Inr (t, db')"
  proof (cases "0 < pc_whtAmountNgn claim")
    case True
    then show ?thesis using s wa by simp
  next
    case False
    then have "pc_whtAmountNgn claim = 0" using b by simp
    then show ?thesis using s same [of _ _ "la_accountId wa" "[]"] by simp
  qed
  then show thesis using that [OF b r wa] by (auto simp: res_simps)
qed

lemma prize_accrual_nets:
  assumes "distinct [x, y, z] \<or> x \<noteq> y" "0 \<le> pc_whtAmountNgn c" "js_trim x = x" "js_trim y = y" "0 < pc_whtAmountNgn c \<Longrightarrow> js_trim z = z"
  shows "lines_net (map norm_line (accrual_lines c x y z)) a =
    (if a = y then pc_netPrizeValueNgn c else 0) + (if a = z then pc_whtAmountNgn c else 0) - (if a = x then pc_grossPrizeValueNgn c else 0)"
  using assms by (cases "0 < pc_whtAmountNgn c") (auto simp: accrual_lines_def lines_net_def line_net_def)

lemma prize_accrual_effect:
  assumes "ensurePrizeAccrualInTransaction env claim db = Inr (t, db')" "pc_prizeAccrualLedgerTxnId claim = None"
    "wallet_ok db" "system_accounts_apart db" "js_trim (pc_claimId claim) = pc_claimId claim" "pc_claimId claim \<noteq> []"
    "prize_keys_unused db (pc_claimId claim)"
  obtains ea pa wa j where "0 < pc_netPrizeValueNgn claim" "0 \<le> pc_whtAmountNgn claim"
    "pc_grossPrizeValueNgn claim = pc_netPrizeValueNgn claim + pc_whtAmountNgn claim"
    "find_account_by_code db PRIZE_EXPENSE_CODE = Some ea" "find_account_by_code db PRIZE_PAYABLE_CODE = Some pa"
    "0 < pc_whtAmountNgn claim \<Longrightarrow> find_account_by_code db WHT_PAYABLE_CODE = Some wa"
    "\<And>a. net db' a = net db a - (if a = la_accountId ea then pc_grossPrizeValueNgn claim else 0)
       + (if a = la_accountId pa then pc_netPrizeValueNgn claim else 0)
       + (if a = la_accountId wa then pc_whtAmountNgn claim else 0)"
    "wallet_ok db'" "journals_frame db db'" "payments db' = payments db"
    "find_txn_by_key db' (''ledger:agent-prize-wallet-credit:'' @ pc_claimId claim) = None"
    "claims db' = update_where (\<lambda>c. pc_claimId c = pc_claimId claim) (\<lambda>c. c\<lparr>pc_prizeAccrualLedgerTxnId := Some j\<rparr>) (claims db)"
proof -
  obtain ea pa wa v db1 where c: "0 < pc_netPrizeValueNgn claim" "0 \<le> pc_whtAmountNgn claim"
    "pc_grossPrizeValueNgn claim = pc_netPrizeValueNgn claim + pc_whtAmountNgn claim"
    "find_account_by_code db PRIZE_EXPENSE_CODE = Some ea" "find_account_by_code db PRIZE_PAYABLE_CODE = Some pa"
    "0 < pc_whtAmountNgn claim \<Longrightarrow> find_account_by_code db WHT_PAYABLE_CODE = Some wa"
    "postInTransaction env (prize_accrual_post claim
       (accrual_lines claim (la_accountId ea) (la_accountId pa) (la_accountId wa))) db = Inr (v, db1)"
    "db' = db1\<lparr>claims := update_where (\<lambda>c. pc_claimId c = pc_claimId claim)
       (\<lambda>c. c\<lparr>pc_prizeAccrualLedgerTxnId := Some (lt_ledgerTxnId (tv_txn v))\<rparr>) (claims db1)\<rparr>"
    using assms(1,2) by (rule prize_accrual_cases) (rule that; assumption)
  have ks: "js_trim (''ledger:prize-accrual:'' @ pc_claimId claim) = ''ledger:prize-accrual:'' @ pc_claimId claim"
    by (rule row_key [OF assms(5,6)]; simp add: l_no_space)
  note ok = wallet_okD [OF assms(3)] and tr = accounts_trimmedD [OF wallet_okD(3) [OF assms(3)]]
  have k: "pi_idempotencyKey (prize_accrual_post claim ls) = ''ledger:prize-accrual:'' @ pc_claimId claim"
    "pi_lines (prize_accrual_post claim ls) = ls" for ls by (simp_all add: prize_accrual_post_def)
  have un: "find_txn_by_key db (''ledger:prize-accrual:'' @ pc_claimId claim) = None"
    "find_txn_by_key db (''ledger:agent-prize-wallet-credit:'' @ pc_claimId claim) = None"
    using assms(7) by (simp_all add: prize_keys_unused_def)
  note p = post_fresh [OF c(7) ok(2), unfolded k ks, OF un(1)] and fr = post_facts(2) [OF c(7) ok(2)]
  have codes: "PRIZE_EXPENSE_CODE \<noteq> PRIZE_PAYABLE_CODE" by code_simp
  have diff: "la_accountId ea \<noteq> la_accountId pa"
  proof
    assume e: "la_accountId ea = la_accountId pa"
    note m = find_account_by_code_sel [OF c(4)] find_account_by_code_sel [OF c(5)]
    have "ea = pa" using distinct_key_eq [of la_accountId "accounts db" ea pa] e m ledger_ok_accounts [OF ok(2)] by blast
    then show False using m codes by simp
  qed
  have nets: "net db' a = net db a - (if a = la_accountId ea then pc_grossPrizeValueNgn claim else 0)
       + (if a = la_accountId pa then pc_netPrizeValueNgn claim else 0)
       + (if a = la_accountId wa then pc_whtAmountNgn claim else 0)" for a
  proof -
    have "lines_net (map norm_line (accrual_lines claim (la_accountId ea) (la_accountId pa) (la_accountId wa))) a =
      (if a = la_accountId pa then pc_netPrizeValueNgn claim else 0) + (if a = la_accountId wa then pc_whtAmountNgn claim else 0)
       - (if a = la_accountId ea then pc_grossPrizeValueNgn claim else 0)"
      by (rule prize_accrual_nets) (use diff c(2,4-6) tr in auto)
    moreover have "net db' a = net db1 a" by (simp add: c(8) net_def acc_credit_def acc_debit_def)
    ultimately show ?thesis using p(1) [of a] by simp
  qed
  have apart: "la_accountId ea \<notin> set (wallet_accounts db)" "la_accountId pa \<notin> set (wallet_accounts db)"
    "0 < pc_whtAmountNgn claim \<Longrightarrow> la_accountId wa \<notin> set (wallet_accounts db)"
    using system_apartD [OF assms(4) c(4)] system_apartD [OF assms(4) c(5)] system_apartD [OF assms(4) c(6)] by auto
  have "wallet_ok db1"
    by (rule wallet_post_keeps [OF c(7) assms(3)])
       (use apart c(4-6) tr in \<open>auto simp: k accrual_lines_def external_def split: if_splits\<close>)
  then have ok': "wallet_ok db'" by (rule wallet_other_keeps) (simp_all add: c(8))
  have un': "find_txn_by_key db' (''ledger:agent-prize-wallet-credit:'' @ pc_claimId claim) = None"
    using key_kept [OF c(7) ok(2) un(2), unfolded k ks] by (simp add: c(8) find_txn_by_key_def)
  have cl: "claims db' = update_where (\<lambda>c. pc_claimId c = pc_claimId claim)
      (\<lambda>c. c\<lparr>pc_prizeAccrualLedgerTxnId := Some (lt_ledgerTxnId (tv_txn v))\<rparr>) (claims db)"
    using same_frame_sel(9) [OF fr] by (simp add: c(8))
  show thesis
    by (rule that [OF c(1-6) nets ok' _ _ un' cl])
       (use journals_frame_intro(3) [OF fr] same_frame_sel(6) [OF fr] in \<open>simp_all add: c(8)\<close>)
qed

lemma update_where_twice:
  assumes "\<And>x. P (f x) = P x"
  shows "update_where P g (update_where P f xs) = update_where P (\<lambda>x. g (f x)) xs"
  using assms by (simp add: update_where_def)

lemma prize_payout_effect:
  assumes "recordAgentPrizePayoutInTransaction env inp db = Inr (t, db')"
    "pc_agentPayoutLedgerTxnId (pp_claim inp) = None" "pc_prizeAccrualLedgerTxnId (pp_claim inp) = None"
    "wallet_ok db" "system_accounts_apart db" "js_trim (pc_claimId (pp_claim inp)) = pc_claimId (pp_claim inp)"
    "pc_claimId (pp_claim inp) \<noteq> []" "prize_keys_unused db (pc_claimId (pp_claim inp))"
  obtains ea wa w j where "0 < pc_netPrizeValueNgn (pp_claim inp)" "0 \<le> pc_whtAmountNgn (pp_claim inp)"
    "pc_grossPrizeValueNgn (pp_claim inp) = pc_netPrizeValueNgn (pp_claim inp) + pc_whtAmountNgn (pp_claim inp)"
    "find_account_by_code db PRIZE_EXPENSE_CODE = Some ea"
    "0 < pc_whtAmountNgn (pp_claim inp) \<Longrightarrow> find_account_by_code db WHT_PAYABLE_CODE = Some wa"
    "find_wallet db (pp_walletId inp) = Some w"
    "\<And>a. net db' a = net db a + (if a = w_availableAccountId w then pc_netPrizeValueNgn (pp_claim inp) else 0)
       + (if a = la_accountId wa then pc_whtAmountNgn (pp_claim inp) else 0)
       - (if a = la_accountId ea then pc_grossPrizeValueNgn (pp_claim inp) else 0)"
    "wallet_ok db'" "journals_frame db db'"
    "claims db' = update_where (\<lambda>c. pc_claimId c = pc_claimId (pp_claim inp))
       (\<lambda>c. c\<lparr>pc_prizeAccrualLedgerTxnId := Some j, pc_agentPayoutLedgerTxnId := Some (lt_ledgerTxnId t)\<rparr>) (claims db)"
    "find_txn_by_key db' (''ledger:agent-prize-wallet-credit:'' @ pc_claimId (pp_claim inp)) = Some t"
proof -
  let ?c = "pp_claim inp" and ?k = "''ledger:agent-prize-wallet-credit:'' @ pc_claimId (pp_claim inp)"
  from assms(1) obtain ta db1 pa v db2 where s: "ensurePrizeAccrualInTransaction env ?c db = Inr (ta, db1)"
    "find_account_by_code db1 PRIZE_PAYABLE_CODE = Some pa"
    "creditInTransaction env (prize_payout_movement inp (la_accountId pa)) db1 = Inr (v, db2)" "t = tv_txn v"
    "db' = db2\<lparr>claims := update_where (\<lambda>c. pc_claimId c = pc_claimId ?c)
       (\<lambda>c. c\<lparr>pc_agentPayoutLedgerTxnId := Some (lt_ledgerTxnId (tv_txn v))\<rparr>) (claims db2)\<rparr>"
    unfolding recordAgentPrizePayoutInTransaction_def assms(2) by (auto simp: res_simps)
  obtain ea pa' wa j where e: "0 < pc_netPrizeValueNgn ?c" "0 \<le> pc_whtAmountNgn ?c"
    "pc_grossPrizeValueNgn ?c = pc_netPrizeValueNgn ?c + pc_whtAmountNgn ?c"
    "find_account_by_code db PRIZE_EXPENSE_CODE = Some ea" "find_account_by_code db PRIZE_PAYABLE_CODE = Some pa'"
    "0 < pc_whtAmountNgn ?c \<Longrightarrow> find_account_by_code db WHT_PAYABLE_CODE = Some wa"
    "\<And>a. net db1 a = net db a - (if a = la_accountId ea then pc_grossPrizeValueNgn ?c else 0)
       + (if a = la_accountId pa' then pc_netPrizeValueNgn ?c else 0)
       + (if a = la_accountId wa then pc_whtAmountNgn ?c else 0)"
    "wallet_ok db1" "journals_frame db db1" "find_txn_by_key db1 ?k = None"
    "claims db1 = update_where (\<lambda>c. pc_claimId c = pc_claimId ?c) (\<lambda>c. c\<lparr>pc_prizeAccrualLedgerTxnId := Some j\<rparr>) (claims db)"
    by (rule prize_accrual_effect [OF s(1) assms(3-8)]) (rule that; assumption)
  note f1 = journals_frame_sel [OF e(9)] and c1 = system_apart_cong [OF journals_frame_sel(1,2) [OF e(9)]]
  have pa: "pa' = pa" using s(2) e(5) by (simp add: c1)
  have ks: "js_trim ?k = ?k" by (rule row_key [OF assms(6,7)]; simp add: l_no_space)
  have m: "mv_counterAccountId (prize_payout_movement inp x) = x" "mv_amountNgn (prize_payout_movement inp x) = pc_netPrizeValueNgn ?c"
    "mv_walletId (prize_payout_movement inp x) = pp_walletId inp" "js_trim (mv_idempotencyKey (prize_payout_movement inp x)) = ?k" for x
    using ks by (simp_all add: prize_payout_movement_def Let_def)
  have pt: "la_accountId pa \<notin> set (wallet_accounts db1)" "js_trim (la_accountId pa) = la_accountId pa"
    using system_apartD [OF assms(5) e(5)] accounts_trimmedD [OF wallet_okD(3) [OF e(8)] s(2)] by (simp_all add: c1 pa)
  obtain w where w: "find_wallet db1 (pp_walletId inp) = Some w"
    "transferred (la_accountId pa) (w_availableAccountId w) (pc_netPrizeValueNgn ?c) db1 db2" "same_frame db1 db2" "wallet_ok db2"
    "find_txn_by_key db2 ?k = Some (tv_txn v)"
    by (rule credit_moves [OF s(3) e(8), unfolded m, OF e(10) pt]) (rule that)
  have fw: "find_wallet db (pp_walletId inp) = Some w" using w(1) by (simp add: find_wallet_def f1)
  have nets: "net db' a = net db a + (if a = w_availableAccountId w then pc_netPrizeValueNgn ?c else 0)
       + (if a = la_accountId wa then pc_whtAmountNgn ?c else 0)
       - (if a = la_accountId ea then pc_grossPrizeValueNgn ?c else 0)" for a
  proof -
    have "net db' a = net db2 a" by (rule net_cong) (simp add: s(5))
    then show ?thesis using transferred_trans_net [OF w(2), of a] e(7) [of a] by (simp add: pa)
  qed
  have ok': "wallet_ok db'" by (rule wallet_other_keeps [OF w(4)]) (simp_all add: s(5))
  have fr: "journals_frame db db'"
    using journals_frame_trans [OF e(9) journals_frame_intro(3) [OF w(3)]] by (simp add: s(5))
  have cl: "claims db' = update_where (\<lambda>c. pc_claimId c = pc_claimId ?c)
       (\<lambda>c. c\<lparr>pc_prizeAccrualLedgerTxnId := Some j, pc_agentPayoutLedgerTxnId := Some (lt_ledgerTxnId t)\<rparr>) (claims db)"
    using same_frame_sel(9) [OF w(3)] by (simp add: s(4,5) e(11) update_where_twice)
  show thesis
    by (rule that [OF e(1-4) e(6) fw nets ok' fr cl]) (use w(5) s(4) in \<open>simp_all add: s(5) find_txn_by_key_def\<close>)
qed

lemma logPayment_cases:
  assumes "logPayment env maxNgn agentId ticketRefRaw cw later db = (Inr v, db')"
  obtains agent claim wv db1 db2 where "find_agent db agentId = Some agent" "ag_status agent = AGS_ACTIVE"
    "resolve db ticketRefRaw = Inr (Some claim)" "agent_wallet env agentId cw db = (Inr wv, db1)"
    "prize_payout_tx env agentId (wv_walletId wv) (pz_reference v) (pc_claimId claim) maxNgn (later db1) = Inr (pz_amountNgn v, db2)"
    "pz_walletCreditedNgn v = pz_amountNgn v"
    "\<exists>a. db' = db2\<lparr>auditLog := a\<rparr>"
proof -
  note s = assms [unfolded logPayment_def Let_def]
  obtain agent claim where k: "bind_res (from_option (ConflictException ''Agent account is not active'') (find_agent db agentId)) (\<lambda>agent.
         if ag_status agent \<noteq> AGS_ACTIVE then Inl (ConflictException ''Agent account is not active'')
         else
           bind_res (resolve db ticketRefRaw) (\<lambda>claim0.
           bind_res (from_option (NotFoundException ''No claim found for this ticket'') claim0) (\<lambda>claim.
           if pc_grossPrizeValueNgn claim > maxNgn then Inl (ConflictException ''Prize exceeds the agent-payable limit'')
           else Inr (agent, claim)))) = Inr (agent, claim)"
    using s by (auto simp: then_do_Inr)
  have kk: "find_agent db agentId = Some agent" "ag_status agent = AGS_ACTIVE" "resolve db ticketRefRaw = Inr (Some claim)"
    using k by (auto simp: res_simps split: if_splits)
  note s = s [unfolded k then_do_simps prod.case]
  obtain wv db1 where w: "agent_wallet env agentId cw db = (Inr wv, db1)" using s by (auto simp: then_do_Inr)
  note s = s [unfolded w then_do_simps]
  show thesis using s by (auto simp: then_do_Inr in_tx_Inr write_audit_def intro: that [OF kk w])
qed

end
