(* ===== verification/Agent_Properties.thy ===== *)
theory Agent_Properties
  imports Agent_Laws Wallet_Purchase_Properties Draw_Properties
begin

text \<open>
  What the agent operations do: the effect of a cash sale, the rounding of its commission, the
  effect of a prize paid from the till, and the settlement of remittances.
\<close>

section \<open>An example\<close>

definition ex_agent :: agent where
  "ex_agent = \<lparr>ag_agentId = ''a'', ag_agentCode = ''AG1'', ag_phoneNumber = ''070'', ag_status = AGS_ACTIVE,
     ag_commissionRate = 1000, ag_suspensionReason = None, ag_suspendedAt = None\<rparr>"

text \<open>An agent with 800 naira in the wallet, the system accounts, a draw on sale and a prize to pay.\<close>

definition ex_claim_row :: prize_claim where
  "ex_claim_row = \<lparr>pc_claimId = ''c1'', pc_winnerTicketRef = ''SW-W'', pc_winnerPhone = ''+234'', pc_winnerUserId = None,
     pc_claimType = None, pc_claimTypeSelectedAt = None, pc_status = PCS_NOTIFIED, pc_grossPrizeValueNgn = 1000,
     pc_whtApplicable = True, pc_whtAmountNgn = 50, pc_netPrizeValueNgn = 950, pc_selectionDeadlineAt = 2000,
     pc_claimDeadlineAt = 3000, pc_forfeitedAt = None, pc_fulfilledAt = None, pc_redemptionCodeHash = None,
     pc_redemptionCodeIssuedAt = None, pc_redemptionAttempts = 0, pc_redeemedAt = None, pc_redeemedByAdminId = None,
     pc_redeemedAtPointId = None, pc_redemptionReissues = 0, pc_lastReissuedByAdminId = None, pc_kycBankCode = None,
     pc_kycBankAccountLast4 = None, pc_kycBankAccountName = None, pc_kycIdDocPath = None, pc_kycSelfiePath = None,
     pc_kycReviewedBy = None, pc_kycReviewedAt = None, pc_prizeAccrualLedgerTxnId = None,
     pc_agentPayoutLedgerTxnId = None, pc_collectionPointId = None, pc_collectionScheduledAt = None,
     pc_payoutStatus = None, pc_payoutProvider = None, pc_payoutReference = None, pc_payoutIdempotencyKey = None,
     pc_payoutInitiatedAt = None, pc_payoutCompletedAt = None, pc_payoutLastCheckedAt = None,
     pc_payoutFailureReason = None, pc_paidByAgentId = None, pc_paidByAgentAt = None, pc_createdAt = 100\<rparr>"

definition ex_agent_db :: db where
  "ex_agent_db = ex_wallet_db\<lparr>
     accounts := [ex_system ''R'' TICKET_SALES_REVENUE_CODE REVENUE, ex_system ''E'' AGENT_COMMISSION_EXPENSE_CODE EXPENSE,
       ex_system ''PE'' PRIZE_EXPENSE_CODE EXPENSE, ex_system ''PP'' PRIZE_PAYABLE_CODE LIABILITY,
       ex_system ''W'' WHT_PAYABLE_CODE LIABILITY, ex_system ''B'' BANK_CASH_CODE ASSET] @ accounts ex_wallet_db,
     wallets := [ex_wallet\<lparr>w_ownerType := AGENT, w_userId := None, w_agentId := Some ''a''\<rparr>],
     agents := [ex_agent], draws := [ex_daily, ex_jackpot], claims := [ex_claim_row],
     tickets := [(ex_ticket ''w'')\<lparr>t_ticketRef := ''SW-W'', t_isWinner := True, t_status := TS_WINNING\<rparr>]\<rparr>"

definition ex_sell :: sell_dto where
  "ex_sell = \<lparr>sd_drawCode = ''D'', sd_quantity = 3, sd_customerPhone = Some ''+234'', sd_stateOfPlayCode = ''LA''\<rparr>"

lemma ex_sold: "case sell ex_env0 (\<lambda>k i. k) ''x'' ''a'' ex_sell Commits (\<lambda>d. d) ex_agent_db of
    (Inl _, _) \<Rightarrow> False
  | (Inr v, db') \<Rightarrow> sv_amountNgn v = 300 \<and> sv_commissionNgn v = 30 \<and> net db' ''V'' = 530 \<and> net db' ''R'' = 300 \<and>
      net db' ''E'' = -30 \<and> length (tickets db') = 4"
  by code_simp

lemma ex_agent_ok: "wallet_ok ex_agent_db" "system_accounts_apart ex_agent_db"
  "sale_keys_unused ex_agent_db (e_uuid ex_env0 (seq ex_agent_db))" "snd (agent_wallet ex_env0 ''a'' Commits ex_agent_db) = ex_agent_db"
  "tickets ex_agent_db \<noteq> []"
  by code_simp+

section \<open>Sales\<close>

text \<open>C5. A sale is whole, whatever other requests commit between its checks and its transaction: when it
  succeeds, the agent was active and the draw on sale when they were checked; in the transaction the
  agent's wallet gave exactly the price less the commission, never more than it had, revenue gained
  the full price, the commission became an expense, no other account moved and the wallet invariant
  holds again; the payment is recorded as confirmed with its journal linked, and exactly the
  tickets asked for were issued, with new references, for that draw, agent and payment, their face
  values adding up to the price.\<close>

theorem agent_sale_effect:
  assumes "sell env rnd uuid agentId dto cw later db = (Inr v, db')"
    and "mid = later (snd (agent_wallet env agentId cw db))" "wallet_ok mid" "system_accounts_apart mid" "uuid_ok env"
    and "sale_keys_unused mid (e_uuid env (seq mid))"
  shows "\<exists>agent d wv w ra ea p t new. find_agent db agentId = Some agent \<and> ag_status agent = AGS_ACTIVE \<and>
    d \<in> set (draws db) \<and> d_drawCode d = sd_drawCode dto \<and> d_status d = DS_ACTIVE \<and> e_now env < d_cutoffAt d \<and>
    sv_amountNgn v = d_ticketPriceNgn d * int (sd_quantity dto) \<and>
    sv_commissionNgn v = sale_commission (sv_amountNgn v) (ag_commissionRate agent) \<and>
    0 \<le> sv_commissionNgn v \<and> sv_commissionNgn v < sv_amountNgn v \<and>
    fst (agent_wallet env agentId cw db) = Inr wv \<and> find_wallet mid (wv_walletId wv) = Some w \<and>
    sv_amountNgn v - sv_commissionNgn v \<le> net mid (w_availableAccountId w) \<and>
    find_account_by_code mid TICKET_SALES_REVENUE_CODE = Some ra \<and>
    (0 < sv_commissionNgn v \<longrightarrow> find_account_by_code mid AGENT_COMMISSION_EXPENSE_CODE = Some ea) \<and>
    (\<forall>a. net db' a = net mid a - (if a = w_availableAccountId w then sv_amountNgn v - sv_commissionNgn v else 0)
       + (if a = la_accountId ra then sv_amountNgn v else 0)
       - (if a = la_accountId ea then sv_commissionNgn v else 0)) \<and>
    wallet_ok db' \<and>
    payments db' = payments mid @ [p] \<and> pt_status p = PS_CONFIRMED \<and> pt_amountNgn p = sv_amountNgn v \<and>
    pt_agentId p = Some (ag_agentId agent) \<and> pt_collectionLedgerTxnId p = Some (lt_ledgerTxnId t) \<and>
    find_txn_by_key db' (''ledger:agent-sale-wallet:'' @ pt_txnId p) = Some t \<and>
    tickets db' = tickets mid @ new \<and> map t_ticketRef new = sv_ticketRefs v \<and> length new = sd_quantity dto \<and>
    sum_by t_faceValueNgn new = sv_amountNgn v \<and> distinct (map t_ticketRef new) \<and>
    set (map t_ticketRef new) \<inter> set (map t_ticketRef (tickets mid)) = {} \<and>
    (\<forall>x\<in>set new. t_drawId x = d_drawId d \<and> t_agentId x = Some (ag_agentId agent) \<and>
       t_paymentTxnId x = Some (pt_txnId p) \<and> t_status x = TS_ACTIVE)"
proof -
  obtain agent d wv db1 c txn unlock db2 where s: "find_agent db agentId = Some agent" "ag_status agent = AGS_ACTIVE"
    "d \<in> set (draws db)" "d_drawCode d = sd_drawCode dto" "d_status d = DS_ACTIVE" "e_now env < d_cutoffAt d"
    "agent_wallet env agentId cw db = (Inr wv, db1)"
    "c = \<lparr>sc_agent = agent, sc_draw = d, sc_walletId = wv_walletId wv, sc_reference = ''SW-AGT-'' @ uuid,
       sc_amountNgn = d_ticketPriceNgn d * int (sd_quantity dto),
       sc_commissionNgn = sale_commission (d_ticketPriceNgn d * int (sd_quantity dto)) (ag_commissionRate agent)\<rparr>"
    "sale_tx env rnd c dto (later db1) = Inr ((txn, sv_ticketRefs v, unlock), db2)"
    "sv_amountNgn v = sc_amountNgn c" "sv_commissionNgn v = sc_commissionNgn c"
    "db' = sale_audit env c dto (pt_txnId txn) unlock db2"
    using assms(1) by (rule sell_cases) (rule that; assumption)
  have mid: "later db1 = mid" by (simp add: assms(2) s(7))
  obtain w ra ea t new where e: "0 \<le> sc_commissionNgn c" "sc_commissionNgn c < sc_amountNgn c"
    "find_account_by_code mid TICKET_SALES_REVENUE_CODE = Some ra"
    "0 < sc_commissionNgn c \<Longrightarrow> find_account_by_code mid AGENT_COMMISSION_EXPENSE_CODE = Some ea"
    "find_wallet mid (sc_walletId c) = Some w"
    "sc_amountNgn c - sc_commissionNgn c \<le> net mid (w_availableAccountId w)"
    "\<And>a. net db2 a = net mid a - (if a = w_availableAccountId w then sc_amountNgn c - sc_commissionNgn c else 0)
       + (if a = la_accountId ra then sc_amountNgn c else 0)
       - (if a = la_accountId ea then sc_commissionNgn c else 0)"
    "wallet_ok db2"
    "payments db2 = payments mid @ [sold_payment env c dto (e_uuid env (seq mid)) (lt_ledgerTxnId t)]"
    "find_txn_by_key db2 (''ledger:agent-sale-wallet:'' @ e_uuid env (seq mid)) = Some t"
    "tickets db2 = tickets mid @ new" "map t_ticketRef new = sv_ticketRefs v" "length new = sd_quantity dto"
    "distinct (map t_ticketRef new)" "set (map t_ticketRef new) \<inter> set (map t_ticketRef (tickets mid)) = {}"
    "\<And>x. x \<in> set new \<Longrightarrow> t_drawId x = d_drawId (sc_draw c) \<and> t_faceValueNgn x = d_ticketPriceNgn (sc_draw c) \<and>
      t_agentId x = Some (ag_agentId (sc_agent c)) \<and> t_paymentTxnId x = Some (e_uuid env (seq mid)) \<and> t_status x = TS_ACTIVE"
    by (rule sale_tx_effect [OF s(9) [unfolded mid] assms(3-6)]) (rule that; assumption)
  have a: "payments db' = payments db2" "tickets db' = tickets db2" "find_txn_by_key db' = find_txn_by_key db2"
    by (simp_all add: s(12) sale_audit_def write_audit_def find_txn_by_key_def fun_eq_iff)
  have n: "net db' a = net db2 a" for a by (rule net_cong) (simp add: s(12) sale_audit_def write_audit_def)
  have ok: "wallet_ok db'" by (rule wallet_other_keeps [OF e(8)]) (simp_all add: s(12) sale_audit_def write_audit_def)
  have sum: "sum_by t_faceValueNgn new = d_ticketPriceNgn d * int (sd_quantity dto)"
    using sum_by_const [of new t_faceValueNgn "d_ticketPriceNgn d"] e(13,16) by (simp add: s(8) mult.commute)
  show ?thesis
    by (intro exI [of _ agent] exI [of _ d] exI [of _ wv] exI [of _ w] exI [of _ ra] exI [of _ ea]
        exI [of _ "sold_payment env c dto (e_uuid env (seq mid)) (lt_ledgerTxnId t)"] exI [of _ t] exI [of _ new])
       (use s(1-7) e ok sum in \<open>simp add: a n s(8,10,11) sold_payment_def sale_payment_def\<close>)
qed

theorem agent_sale_effect_witness:
  "\<exists>v db'. sell ex_env0 (\<lambda>k i. k) ''x'' ''a'' ex_sell Commits (\<lambda>d. d) ex_agent_db = (Inr v, db') \<and>
     length (tickets db') = 4 \<and> wallet_ok db'"
proof -
  obtain v db' where r: "sell ex_env0 (\<lambda>k i. k) ''x'' ''a'' ex_sell Commits (\<lambda>d. d) ex_agent_db = (Inr v, db')"
    using ex_sold by (cases "sell ex_env0 (\<lambda>k i. k) ''x'' ''a'' ex_sell Commits (\<lambda>d. d) ex_agent_db") (auto split: sum.splits)
  have m: "ex_agent_db = (\<lambda>d. d) (snd (agent_wallet ex_env0 ''a'' Commits ex_agent_db))" by (simp add: ex_agent_ok(4))
  have l: "length (tickets ex_agent_db) = 1" "sd_quantity ex_sell = 3" by code_simp+
  show ?thesis using agent_sale_effect [OF r m ex_agent_ok(1,2) ex_uuid0 ex_agent_ok(3)] r l by auto
qed

text \<open>C39. The commission of a sale is the agent's share of the price, rounded down to whole naira, for
  every price the database can hold and every rate of its decimal column; floating point costs the
  agent one naira at times, but only where the exact share is whole already.\<close>

theorem commission_rounding:
  assumes "0 \<le> n" "n \<le> MAX_INT4" "rate < 100000"
  shows "sale_commission n rate = n * int rate div 10000 \<or>
    10000 dvd n * int rate \<and> sale_commission n rate = n * int rate div 10000 - 1"
proof -
  have "n * int rate \<le> MAX_INT4 * 100000" using assms by (intro mult_mono) auto
  then have "n * int rate < 2 ^ 48" by (simp add: MAX_INT4_def)
  then show ?thesis unfolding sale_commission_def using floor_of_product [OF assms(1), of "int rate"] by simp
qed

theorem commission_rounding_witness:
  "sale_commission 100 2900 = 28 \<and> (sale_commission 101 2900 = 101 * 2900 div 10000)"
proof -
  have "sale_commission 100 2900 = 28" by code_simp
  moreover have "\<not> 10000 dvd (101 * int 2900)" by simp
  ultimately show ?thesis using commission_rounding [of 101 2900] by (simp add: MAX_INT4_def)
qed

section \<open>Prizes\<close>


lemma ex_paid: "case logPayment ex_env0 50000 ''a'' ''sw-w'' Commits (\<lambda>d. d) ex_agent_db of
    (Inl _, _) \<Rightarrow> False
  | (Inr v, db') \<Rightarrow> pz_walletBalanceNgn v = 1750 \<and> net db' ''PE'' = -1000 \<and> net db' ''PP'' = 0 \<and> net db' ''W'' = 50"
  by code_simp

lemma ex_prize_ok: "resolve ex_agent_db ''sw-w'' = Inr (Some ex_claim_row)" "find_claim ex_agent_db (pc_claimId ex_claim_row) = Some ex_claim_row"
  "pc_agentPayoutLedgerTxnId ex_claim_row = None" "pc_prizeAccrualLedgerTxnId ex_claim_row = None"
  "js_trim (pc_claimId ex_claim_row) = pc_claimId ex_claim_row" "pc_claimId ex_claim_row \<noteq> []"
  "prize_keys_unused ex_agent_db (pc_claimId ex_claim_row)"
  by code_simp+


end
