(* ===== verification/Remittance_Sweep.thy ===== *)
theory Remittance_Sweep
  imports Agent_Sales Agent_Remittance
begin

text \<open>
  \<open>apps/worker/src/remittance-sweep.service.ts\<close> with the business day of \<open>wat-day.util.ts\<close>: the
  receivable-backed cash sales and prize payments of the last closed business day become one
  remittance for each agent. The flag that keeps two sweeps of a process apart is left out.
\<close>

section \<open>The business day\<close>

record business_day =
  bd_periodDate :: int
  bd_startUtc :: int
  bd_endUtc :: int

definition businessDayOf :: "int \<Rightarrow> int \<Rightarrow> business_day" where
  "businessDayOf instant closeMinutesWat =
     (let wat = instant + WAT_MS;
          minutes = (wat mod MS_PER_DAY) div 60000;
          shift = (if minutes \<ge> closeMinutesWat then 1 else 0);
          periodWat = (wat div MS_PER_DAY + shift) * MS_PER_DAY;
          endUtc = periodWat + closeMinutesWat * 60000 - WAT_MS in
      \<lparr>bd_periodDate = periodWat, bd_startUtc = endUtc - MS_PER_DAY, bd_endUtc = endUtc\<rparr>)"

definition lastClosedBusinessDay :: "int \<Rightarrow> int \<Rightarrow> business_day" where
  "lastClosedBusinessDay instant closeMinutesWat = businessDayOf (instant - MS_PER_DAY) closeMinutesWat"

text \<open>The cutoff of the newest active template of the daily draw, when there is one.\<close>

definition closeMinutesWat :: "int option \<Rightarrow> int" where
  "closeMinutesWat template = (case template of None \<Rightarrow> 19 * 60 | Some cutoff \<Rightarrow> cutoff)"

section \<open>What the day is made of\<close>

definition in_day :: "business_day \<Rightarrow> int option \<Rightarrow> bool" where
  "in_day day t \<longleftrightarrow> (case t of None \<Rightarrow> False | Some t \<Rightarrow> bd_startUtc day \<le> t \<and> t < bd_endUtc day)"

text \<open>Some entry of the journal is of an agent's receivable account.\<close>

definition receivable_backed :: "db \<Rightarrow> string \<Rightarrow> bool" where
  "receivable_backed db journalId \<longleftrightarrow>
     list_ex (\<lambda>e. le_ledgerTxnId e = journalId \<and>
       list_ex (\<lambda>a. la_accountId a = le_accountId e \<and> la_purpose a = AGENT_RECEIVABLE) (accounts db)) (entries db)"

definition sold_in_day :: "db \<Rightarrow> business_day \<Rightarrow> ticket list" where
  "sold_in_day db day = filter (\<lambda>t. t_agentId t \<noteq> None \<and>
     (case t_paymentTxnId t of None \<Rightarrow> False | Some i \<Rightarrow>
       (case find_payment db i of None \<Rightarrow> False | Some p \<Rightarrow>
          pt_gateway p = AGENT_CASH \<and> pt_status p = PS_CONFIRMED \<and> in_day day (pt_confirmedAt p) \<and>
          (case pt_collectionLedgerTxnId p of None \<Rightarrow> False | Some j \<Rightarrow> receivable_backed db j)))) (tickets db)"

definition paid_in_day :: "db \<Rightarrow> business_day \<Rightarrow> prize_claim list" where
  "paid_in_day db day = filter (\<lambda>c. pc_paidByAgentId c \<noteq> None \<and> in_day day (pc_paidByAgentAt c) \<and>
     (case pc_agentPayoutLedgerTxnId c of None \<Rightarrow> True | Some j \<Rightarrow> receivable_backed db j)) (claims db)"

record day_tally =
  dy_standardTickets :: nat
  dy_jackpotTickets :: nat
  dy_standardSalesNgn :: int
  dy_jackpotSalesNgn :: int

text \<open>The two groups of an agent, by the type of the ticket, and the sum of the prizes.\<close>

definition day_tally_of :: "ticket list \<Rightarrow> string \<Rightarrow> day_tally" where
  "day_tally_of sold agentId =
     (let mine = filter (\<lambda>t. t_agentId t = Some agentId) sold;
          jackpot = filter (\<lambda>t. t_ticketType t = JACKPOT) mine;
          standard = filter (\<lambda>t. t_ticketType t \<noteq> JACKPOT) mine in
      \<lparr>dy_standardTickets = length standard, dy_jackpotTickets = length jackpot,
       dy_standardSalesNgn = sum_by t_faceValueNgn standard, dy_jackpotSalesNgn = sum_by t_faceValueNgn jackpot\<rparr>)"

definition prizes_of :: "prize_claim list \<Rightarrow> string \<Rightarrow> int" where
  "prizes_of paid agentId = sum_by pc_netPrizeValueNgn (filter (\<lambda>c. pc_paidByAgentId c = Some agentId) paid)"

text \<open>Sellers and payers. The groups come in an order of the database's choice, here that of the rows.\<close>

definition swept_agents :: "ticket list \<Rightarrow> prize_claim list \<Rightarrow> string list" where
  "swept_agents sold paid =
     remdups (List.map_filter t_agentId sold @ List.map_filter pc_paidByAgentId paid)"

section \<open>The rows\<close>

definition new_remittance :: "agent \<Rightarrow> business_day \<Rightarrow> day_tally \<Rightarrow> int \<Rightarrow> remittance" where
  "new_remittance agent day tally payout =
     (let gross = dy_standardSalesNgn tally + dy_jackpotSalesNgn tally;
          commission = sale_commission gross (ag_commissionRate agent) in
      \<lparr>rm_remittanceId = [], rm_agentId = ag_agentId agent, rm_periodDate = bd_periodDate day,
       rm_grossSalesNgn = gross, rm_commissionNgn = commission, rm_amountDueNgn = gross - commission - payout,
       rm_ticketCount = dy_standardTickets tally + dy_jackpotTickets tally,
       rm_standardTicketCount = dy_standardTickets tally, rm_jackpotTicketCount = dy_jackpotTickets tally,
       rm_standardSalesNgn = dy_standardSalesNgn tally, rm_jackpotSalesNgn = dy_jackpotSalesNgn tally,
       rm_winningsPaidOutNgn = payout, rm_status = RS_PENDING, rm_bankTransferRef = None,
       rm_agentConfirmedAt = None, rm_receivedAt = None, rm_commissionLedgerTxnId = None,
       rm_settlementLedgerTxnId = None, rm_walletCreditLedgerTxnId = None, rm_createdAt = 0,
       rm_deadlineWarnedAt = None\<rparr>)"

definition fits_int4 :: "int \<Rightarrow> bool" where
  "fits_int4 n \<longleftrightarrow> - MAX_INT4 - 1 \<le> n \<and> n \<le> MAX_INT4"

definition remittance_fits :: "remittance \<Rightarrow> bool" where
  "remittance_fits r \<longleftrightarrow> fits_int4 (rm_grossSalesNgn r) \<and> fits_int4 (rm_commissionNgn r) \<and>
     fits_int4 (rm_amountDueNgn r) \<and> fits_int4 (rm_winningsPaidOutNgn r)"

text \<open>\<open>remittance.create\<close>: a generated key, one row for an agent and a day, the columns 32 bits wide.\<close>

definition create_remittance :: "'a env_scheme \<Rightarrow> remittance \<Rightarrow> db \<Rightarrow> (remittance \<times> db) res" where
  "create_remittance env r0 db =
     (let r = r0\<lparr>rm_remittanceId := e_uuid env (seq db), rm_createdAt := e_now env\<rparr> in
      if \<not> remittance_fits r then Inl (PrismaError ''P2020'')
      else if list_ex (\<lambda>x. rm_remittanceId x = rm_remittanceId r \<or>
          rm_agentId x = rm_agentId r \<and> rm_periodDate x = rm_periodDate r) (remittances db)
      then Inl unique_violation
      else Inr (r, db\<lparr>remittances := remittances db @ [r], seq := seq db + 1\<rparr>))"

definition created_audit :: "agent \<Rightarrow> nat \<Rightarrow> remittance \<Rightarrow> audit_log" where
  "created_audit agent prizesPaidCount r =
     \<lparr>al_severity = (if rm_amountDueNgn r < 0 then SEV_WARNING else SEV_INFO), al_actorType = ACTOR_SYSTEM,
      al_actorId = None, al_action = ''REMITTANCE_CREATED'', al_resourceType = ''Remittance'',
      al_resourceId = rm_remittanceId r,
      al_metadata = JObj [(''agentCode'', JStr (ag_agentCode agent)), (''gross'', JNum (rm_grossSalesNgn r)),
        (''commission'', JNum (rm_commissionNgn r)), (''winningsPaidOut'', JNum (rm_winningsPaidOutNgn r)),
        (''prizesPaidCount'', JNum (int prizesPaidCount)), (''amountDue'', JNum (rm_amountDueNgn r)),
        (''standardTickets'', JNum (int (rm_standardTicketCount r))),
        (''jackpotTickets'', JNum (int (rm_jackpotTicketCount r)))],
      al_signature = None\<rparr>"

text \<open>
  One agent of the sweep: a row that exists is fine, any other failure ends the sweep. \<open>later\<close> is
  what the database has become when the agent's turn comes.
\<close>

definition sweep_agent ::
  "'a env_scheme \<Rightarrow> business_day \<Rightarrow> ticket list \<Rightarrow> prize_claim list \<Rightarrow> string \<Rightarrow> db \<Rightarrow> unit res \<times> db" where
  "sweep_agent env day sold paid agentId db =
     (case find_agent db agentId of
        None \<Rightarrow> (Inr (), db)
      | Some agent \<Rightarrow>
          (case create_remittance env
             (new_remittance agent day (day_tally_of sold agentId) (prizes_of paid agentId)) db of
             Inl e \<Rightarrow> (if is_unique_violation e then (Inr (), db) else (Inl e, db))
           | Inr (r, db') \<Rightarrow> (Inr (), db'\<lparr>auditLog := auditLog db' @
               [created_audit agent (length (filter (\<lambda>c. pc_paidByAgentId c = Some agentId) paid)) r]\<rparr>)))"

primrec sweep_agents ::
  "'a env_scheme \<Rightarrow> business_day \<Rightarrow> ticket list \<Rightarrow> prize_claim list \<Rightarrow> (string \<Rightarrow> db \<Rightarrow> db) \<Rightarrow> string list \<Rightarrow> db \<Rightarrow> db" where
  "sweep_agents env day sold paid later [] db = db"
| "sweep_agents env day sold paid later (a # as) db =
     (case sweep_agent env day sold paid a (later a db) of
        (Inl e, db') \<Rightarrow> db'
      | (Inr u, db') \<Rightarrow> sweep_agents env day sold paid later as db')"

definition sweep_tick :: "'a env_scheme \<Rightarrow> int option \<Rightarrow> (string \<Rightarrow> db \<Rightarrow> db) \<Rightarrow> db \<Rightarrow> db" where
  "sweep_tick env template later db =
     (let day = lastClosedBusinessDay (e_now env) (closeMinutesWat template);
          sold = sold_in_day db day; paid = paid_in_day db day in
      sweep_agents env day sold paid later (swept_agents sold paid) db)"

end
