(* ===== verification/Agent_Remittance_Laws.thy ===== *)
theory Agent_Remittance_Laws
  imports Agent_Laws Remittance_Sweep
begin

text \<open>
  Runs of the remittance operations, in any order and on stale reads, next to everything else the
  program does: a remittance names the journals posted for it, and it is paid at most once.
\<close>

section \<open>The journals of a remittance\<close>

definition commission_key :: "string \<Rightarrow> string" where
  "commission_key i = ''ledger:agent-commission:'' @ i"

definition bank_key :: "string \<Rightarrow> string" where
  "bank_key i = ''ledger:agent-remittance-bank:'' @ i"

definition wallet_key :: "string \<Rightarrow> string" where
  "wallet_key i = ''ledger:remittance-wallet-settlement:'' @ i"

definition credit_key :: "string \<Rightarrow> string" where
  "credit_key i = ''ledger:remittance-wallet-credit:'' @ i"

definition remit_keys :: "string \<Rightarrow> string set" where
  "remit_keys i = {commission_key i, bank_key i, wallet_key i, credit_key i}"

lemmas remit_key_defs = commission_key_def bank_key_def wallet_key_def credit_key_def

lemma remit_keys_distinct:
  "commission_key i \<noteq> bank_key j" "commission_key i \<noteq> wallet_key j" "commission_key i \<noteq> credit_key j"
  "bank_key i \<noteq> wallet_key j" "bank_key i \<noteq> credit_key j" "wallet_key i \<noteq> credit_key j"
  "commission_key i = commission_key j \<longleftrightarrow> i = j" "bank_key i = bank_key j \<longleftrightarrow> i = j"
  "wallet_key i = wallet_key j \<longleftrightarrow> i = j" "credit_key i = credit_key j \<longleftrightarrow> i = j"
  by (simp_all add: remit_key_defs)

lemma remit_keys_disjoint: "k \<in> remit_keys i \<Longrightarrow> k \<in> remit_keys j \<Longrightarrow> i = j"
  unfolding remit_keys_def
  by (auto simp: remit_keys_distinct remit_keys_distinct(1-6) [THEN not_sym])

lemma remit_keys_mem: "commission_key i \<in> remit_keys i" "bank_key i \<in> remit_keys i" "wallet_key i \<in> remit_keys i"
  "credit_key i \<in> remit_keys i"
  by (simp_all add: remit_keys_def)

text \<open>A link names the journal under the key, which is for the amount; without one there is no journal.\<close>

definition link_ok :: "db \<Rightarrow> string \<Rightarrow> int \<Rightarrow> string option \<Rightarrow> bool" where
  "link_ok db k n l \<longleftrightarrow> (case l of None \<Rightarrow> find_txn_by_key db k = None
     | Some j \<Rightarrow> (\<exists>t. find_txn_by_key db k = Some t \<and> lt_ledgerTxnId t = j \<and> lt_totalAmountNgn t = n))"

definition settled_ok :: "db \<Rightarrow> string \<Rightarrow> int \<Rightarrow> string option \<Rightarrow> bool" where
  "settled_ok db i n l \<longleftrightarrow>
     link_ok db (bank_key i) n l \<and> find_txn_by_key db (wallet_key i) = None \<or>
     link_ok db (wallet_key i) n l \<and> find_txn_by_key db (bank_key i) = None"

lemma link_ok_cong: "find_txn_by_key db' k = find_txn_by_key db k \<Longrightarrow> link_ok db' k n l = link_ok db k n l"
  unfolding link_ok_def by (simp only:)

lemma link_ok_posted: "find_txn_by_key db k = Some t \<Longrightarrow> link_ok db k (lt_totalAmountNgn t) (Some (lt_ledgerTxnId t))"
  by (simp add: link_ok_def)

lemma link_ok_None: "link_ok db k n None \<longleftrightarrow> find_txn_by_key db k = None"
  by (simp add: link_ok_def)

lemma settled_ok_cong:
  assumes "find_txn_by_key db' (bank_key i) = find_txn_by_key db (bank_key i)"
    "find_txn_by_key db' (wallet_key i) = find_txn_by_key db (wallet_key i)"
  shows "settled_ok db' i n l = settled_ok db i n l"
  unfolding settled_ok_def link_ok_def by (simp only: assms)

lemma settled_ok_None: "settled_ok db i n None \<longleftrightarrow> find_txn_by_key db (bank_key i) = None \<and> find_txn_by_key db (wallet_key i) = None"
  by (auto simp: settled_ok_def link_ok_None)

definition remit_row :: "db \<Rightarrow> remittance \<Rightarrow> bool" where
  "remit_row db r \<longleftrightarrow>
     js_trim (rm_remittanceId r) = rm_remittanceId r \<and> rm_remittanceId r \<noteq> [] \<and>
     link_ok db (commission_key (rm_remittanceId r)) (rm_commissionNgn r) (rm_commissionLedgerTxnId r) \<and>
     settled_ok db (rm_remittanceId r) (rm_amountDueNgn r) (rm_settlementLedgerTxnId r) \<and>
     link_ok db (credit_key (rm_remittanceId r)) (- rm_amountDueNgn r) (rm_walletCreditLedgerTxnId r) \<and>
     (rm_settlementLedgerTxnId r \<noteq> None \<longrightarrow> rm_status r \<in> {RS_RECEIVED, RS_AGENT_CONFIRMED} \<and> 0 < rm_amountDueNgn r) \<and>
     (rm_walletCreditLedgerTxnId r \<noteq> None \<longrightarrow> rm_amountDueNgn r < 0) \<and>
     (rm_status r = RS_RECEIVED \<longrightarrow> 0 < rm_amountDueNgn r \<longrightarrow> rm_settlementLedgerTxnId r \<noteq> None) \<and>
     (rm_status r = RS_CREDITED_TO_WALLET \<longrightarrow> rm_walletCreditLedgerTxnId r \<noteq> None)"

definition row_id :: "remittance \<Rightarrow> string \<times> string \<times> int" where
  "row_id r = (rm_remittanceId r, rm_agentId r, rm_periodDate r)"

lemma row_idD: "row_id x = row_id y \<Longrightarrow> rm_remittanceId x = rm_remittanceId y"
  by (simp add: row_id_def)

definition agent_day :: "remittance \<Rightarrow> string \<times> int" where
  "agent_day r = (rm_agentId r, rm_periodDate r)"

definition remit_ok :: "db \<Rightarrow> bool" where
  "remit_ok db \<longleftrightarrow> ledger_ok db \<and> distinct (map rm_remittanceId (remittances db)) \<and>
     distinct (map agent_day (remittances db)) \<and>
     (\<forall>r\<in>set (remittances db). remit_row db r)"

lemma remit_row_cong:
  assumes "\<And>k. k \<in> remit_keys (rm_remittanceId r) \<Longrightarrow> find_txn_by_key db' k = find_txn_by_key db k"
  shows "remit_row db' r = remit_row db r"
  unfolding remit_row_def settled_ok_def link_ok_def by (simp only: assms [OF remit_keys_mem(1)]
    assms [OF remit_keys_mem(2)] assms [OF remit_keys_mem(3)] assms [OF remit_keys_mem(4)])

lemma find_remittance_sel: "find_remittance db i = Some r \<Longrightarrow> r \<in> set (remittances db) \<and> rm_remittanceId r = i"
  by (auto simp: find_remittance_def dest: find_Some_set)

lemma find_remittance_or_throw_Inr [res_simps]: "find_remittance_or_throw db i = Inr r \<longleftrightarrow> find_remittance db i = Some r"
  by (auto simp: find_remittance_or_throw_def res_simps)

lemma find_remittance_unique:
  assumes "remit_ok db" "find_remittance db i = Some r" "x \<in> set (remittances db)" "rm_remittanceId x = i"
  shows "x = r"
  using assms find_remittance_sel [OF assms(2)] by (auto simp: remit_ok_def dest: distinct_key_eq)

lemma find_updated_remittance:
  assumes "remittances db' = update_where (\<lambda>r. rm_remittanceId r = i) f (remittances db)" "\<And>r. row_id (f r) = row_id r"
  shows "find_remittance db' i = map_option f (find_remittance db i)"
proof -
  have "rm_remittanceId (f r) = rm_remittanceId r" for r by (rule row_idD [OF assms(2)])
  then show ?thesis unfolding find_remittance_def assms(1) by (intro find_update_where_same) auto
qed

text \<open>What an operation on the remittance \<open>i\<close> has to keep.\<close>

lemma remit_update:
  assumes "remit_ok db" "ledger_ok db'"
    and "remittances db' = update_where (\<lambda>r. rm_remittanceId r = i) f (remittances db)" "\<And>r. row_id (f r) = row_id r"
    and "\<And>k. k \<notin> remit_keys i \<Longrightarrow> find_txn_by_key db' k = find_txn_by_key db k"
    and "\<And>r. find_remittance db i = Some r \<Longrightarrow> remit_row db r \<Longrightarrow> remit_row db' (f r)"
  shows "remit_ok db'"
  unfolding remit_ok_def
proof (intro conjI ballI assms(2))
  have m: "map rm_remittanceId (remittances db') = map rm_remittanceId (remittances db)"
    unfolding assms(3) by (rule map_update_where) (use assms(4) in \<open>simp add: row_id_def\<close>)
  have d: "map agent_day (remittances db') = map agent_day (remittances db)"
    unfolding assms(3) by (rule map_update_where) (use assms(4) in \<open>simp add: row_id_def agent_day_def\<close>)
  show "distinct (map rm_remittanceId (remittances db'))" "distinct (map agent_day (remittances db'))"
    using assms(1) by (simp_all add: remit_ok_def m d)
  fix r' assume "r' \<in> set (remittances db')"
  then obtain r where r: "r \<in> set (remittances db)" "r' = (if rm_remittanceId r = i then f r else r)"
    by (auto simp: assms(3) set_update_where)
  have ok: "remit_row db r" using assms(1) r(1) by (simp add: remit_ok_def)
  show "remit_row db' r'"
  proof (cases "rm_remittanceId r = i")
    case True
    obtain r0 where "find_remittance db i = Some r0"
      using r(1) True find_None_set [of "\<lambda>r. rm_remittanceId r = i" "remittances db"]
      by (cases "find_remittance db i") (auto simp: find_remittance_def)
    then show ?thesis using find_remittance_unique [OF assms(1) _ r(1) True] assms(6) [of r] ok r(2) True by auto
  next
    case False
    have "find_txn_by_key db' k = find_txn_by_key db k" if "k \<in> remit_keys (rm_remittanceId r)" for k
      using assms(5) [of k] remit_keys_disjoint [OF that] False by blast
    then show ?thesis using remit_row_cong [of r db' db] ok r(2) False by simp
  qed
qed

section \<open>Postings for a remittance\<close>

definition posts :: "string \<Rightarrow> int \<Rightarrow> string \<Rightarrow> db \<Rightarrow> db \<Rightarrow> bool" where
  "posts k n j db db' \<longleftrightarrow> ledger_ok db' \<and> remittances db' = remittances db \<and>
     (\<exists>t. lt_ledgerTxnId t = j \<and> lt_totalAmountNgn t = n \<and>
        (\<forall>k'. find_txn_by_key db' k' = (if k' = k then Some t else find_txn_by_key db k')))"

definition quiet :: "db \<Rightarrow> db \<Rightarrow> bool" where
  "quiet db db' \<longleftrightarrow> ledger_ok db' \<and> remittances db' = remittances db \<and> txns db' = txns db"

lemma quiet_find: "quiet db db' \<Longrightarrow> find_txn_by_key db' k = find_txn_by_key db k"
  by (simp add: quiet_def find_txn_by_key_def)

lemma quiet_keeps: "quiet db db' \<Longrightarrow> remit_ok db \<Longrightarrow> remit_ok db'"
  using remit_row_cong quiet_find unfolding remit_ok_def quiet_def by metis

lemma post_posts:
  assumes "postInTransaction env inp db = Inr (v, db')" "ledger_ok db" "js_trim (pi_idempotencyKey inp) = k"
    and "find_txn_by_key db k = None" "debits (pi_lines inp) = n"
  shows "posts k n (lt_ledgerTxnId (tv_txn v)) db db'"
  using assms(1) [unfolded postInTransaction_def]
proof (cases rule: postInternal_cases)
  case (replay p t)
  then show ?thesis using assms(3,4) by simp
next
  case (fresh p)
  have p: "p = prepared_of env inp None" using prepare_iff [OF assms(2)] fresh(1) by blast
  have row: "lt_idempotencyKey (tv_txn v) = k" "lt_totalAmountNgn (tv_txn v) = n"
    using assms(3,5) by (simp_all add: fresh(7) journal_row_def p)
  have "find_txn_by_key db' k' = (if k' = k then Some (tv_txn v) else find_txn_by_key db k')" for k'
    using row(1) assms(4) by (auto simp: fresh(6,7) find_txn_by_key_def find_append split: option.splits)
  then show ?thesis
    using post_facts(1) [OF assms(1,2)] same_frame_sel(8) [OF post_facts(2) [OF assms(1,2)]] row(2)
    by (auto simp: posts_def)
qed

lemma movement_debits: "debits (pi_lines (movement_post inp d c)) = mv_amountNgn inp"
  by (simp add: movement_post_def debits_def)

lemma transfer_debits: "debits (transfer_lines a m1 b m2 n) = n"
  by (simp add: transfer_lines_def debits_def)

lemma receivable_quiet:
  assumes "ensureReceivableInTransaction env agentId db = Inr (a, db')" "ledger_ok db"
  shows "quiet db db'"
proof -
  have "create_account_if_new env (agent_receivable agentId) db = Inr db'"
    using assms(1) by (auto simp: ensureReceivableInTransaction_def res_simps)
  then show ?thesis
    using assms(2) create_account_ledger_ok create_account_cases(4)
    by (fastforce simp: create_account_if_new_def quiet_def ledger_ok_def entries_of_def split: sum.splits if_splits)
qed

lemma link_remittance_cases:
  assumes "link_remittance col f i j db = Inr (r, db')"
  shows "db' = db\<lparr>remittances := update_where (\<lambda>r. rm_remittanceId r = i) f (remittances db)\<rparr>" "find_remittance db' i = Some r"
  using assms by (auto simp: link_remittance_def Let_def res_simps)

lemma update_remittance_cases:
  assumes "update_remittance f i db = Inr (r, db')"
  shows "db' = db\<lparr>remittances := update_where (\<lambda>r. rm_remittanceId r = i) f (remittances db)\<rparr>" "find_remittance db' i = Some r"
  using assms by (auto simp: update_remittance_def Let_def res_simps)

lemma remittances_found: "remittances db' = remittances db \<Longrightarrow> find_remittance db' i = find_remittance db i"
  by (simp add: find_remittance_def)

text \<open>A journal posted for a remittance and linked from it.\<close>

lemma posted_link:
  assumes "remit_ok db" "posts k n j db db1" "k \<in> remit_keys i" "link_remittance col f i j db1 = Inr (x, db')"
    and "\<And>r. row_id (f r) = row_id r"
    and "\<And>r t. find_remittance db i = Some r \<Longrightarrow> remit_row db r \<Longrightarrow> lt_ledgerTxnId t = j \<Longrightarrow> lt_totalAmountNgn t = n \<Longrightarrow>
      \<forall>k'. find_txn_by_key db' k' = (if k' = k then Some t else find_txn_by_key db k') \<Longrightarrow> remit_row db' (f r)"
  shows "remit_ok db'"
proof -
  note l = link_remittance_cases [OF assms(4)]
  obtain t where t: "lt_ledgerTxnId t = j" "lt_totalAmountNgn t = n"
    "\<forall>k'. find_txn_by_key db' k' = (if k' = k then Some t else find_txn_by_key db k')"
    using assms(2) by (auto simp: posts_def l(1) find_txn_by_key_def)
  show ?thesis
  proof (rule remit_update [OF assms(1) _ _ assms(5)])
    show "ledger_ok db'" using assms(2) by (simp add: posts_def l(1) ledger_ok_def entries_of_def)
    show "remittances db' = update_where (\<lambda>r. rm_remittanceId r = i) f (remittances db)"
      using assms(2) by (simp add: posts_def l(1))
    show "find_txn_by_key db' k' = find_txn_by_key db k'" if "k' \<notin> remit_keys i" for k'
      using that t(3) assms(3) by auto
    show "remit_row db' (f r)" if "find_remittance db i = Some r" "remit_row db r" for r
      by (rule assms(6) [OF that t])
  qed
qed

lemma remit_row_trim: "remit_row db r \<Longrightarrow> rm_remittanceId r = i \<Longrightarrow> k \<in> remit_keys i \<Longrightarrow> js_trim k = k"
  using row_key [of i] l_no_space by (auto simp: remit_row_def remit_keys_def remit_key_defs simp del: append.simps)

lemma commission_keeps:
  assumes "recordCommissionInTransaction env i db = Inr (x, db')" "remit_ok db" "find_remittance db i = Some r"
  shows "remit_ok db' \<and> (\<forall>k. k \<noteq> commission_key i \<longrightarrow> find_txn_by_key db' k = find_txn_by_key db k) \<and>
    (\<exists>l. find_remittance db' i = Some (r\<lparr>rm_commissionLedgerTxnId := l\<rparr>))"
proof (cases "db' = db")
  case True
  then have "find_remittance db' i = Some (r\<lparr>rm_commissionLedgerTxnId := rm_commissionLedgerTxnId r\<rparr>)" using assms(3) by simp
  then show ?thesis using True assms(2) by blast
next
  case False
  have id: "rm_remittanceId r = i" "remit_row db r" using assms(2,3) by (auto simp: remit_ok_def dest: find_remittance_sel)
  obtain a db1 e v db2 y where s: "0 < rm_commissionNgn r" "rm_commissionLedgerTxnId r = None"
    "ensureReceivableInTransaction env (rm_agentId r) db = Inr (a, db1)"
    "postInTransaction env (commission_post r (la_accountId e) (la_accountId a)) db1 = Inr (v, db2)"
    "link_remittance rm_commissionLedgerTxnId (\<lambda>x. x\<lparr>rm_commissionLedgerTxnId := Some (lt_ledgerTxnId (tv_txn v))\<rparr>)
      i (lt_ledgerTxnId (tv_txn v)) db2 = Inr (y, db')"
    "find_account_by_code db1 AGENT_COMMISSION_EXPENSE_CODE = Some e"
    using assms(1,3) False by (auto simp: recordCommissionInTransaction_def res_simps id(1) split: if_splits option.splits)
  have l0: "ledger_ok db" using assms(2) by (simp add: remit_ok_def)
  have q: "quiet db db1" by (rule receivable_quiet [OF s(3) l0])
  have r1: "remit_ok db1" by (rule quiet_keeps [OF q assms(2)])
  have l1: "ledger_ok db1" using q by (simp add: quiet_def)
  have none: "find_txn_by_key db1 (commission_key i) = None"
    using id(2) s(2) quiet_find [OF q] by (simp add: remit_row_def id(1) link_ok_def)
  have p: "posts (commission_key i) (rm_commissionNgn r) (lt_ledgerTxnId (tv_txn v)) db1 db2"
    by (rule post_posts [OF s(4) l1 _ none])
       (use remit_row_trim [OF id(2,1) remit_keys_mem(1)] in \<open>simp_all add: commission_post_def transfer_debits id(1) commission_key_def\<close>)
  note l = link_remittance_cases [OF s(5)]
  have fr: "find_remittance db1 i = Some r" using assms(3) q remittances_found by (simp add: quiet_def find_remittance_def)
  have ok: "remit_ok db'"
  proof (rule posted_link [OF r1 p remit_keys_mem(1) s(5)])
    fix x t assume x: "find_remittance db1 i = Some x" "remit_row db1 x" and t: "lt_ledgerTxnId t = lt_ledgerTxnId (tv_txn v)"
      "lt_totalAmountNgn t = rm_commissionNgn r"
      "\<forall>k'. find_txn_by_key db' k' = (if k' = commission_key i then Some t else find_txn_by_key db1 k')"
    have "x = r" using x(1) fr by simp
    moreover have "find_txn_by_key db' (bank_key i) = find_txn_by_key db1 (bank_key i)"
      "find_txn_by_key db' (wallet_key i) = find_txn_by_key db1 (wallet_key i)"
      "find_txn_by_key db' (credit_key i) = find_txn_by_key db1 (credit_key i)" "find_txn_by_key db' (commission_key i) = Some t"
      using t(3) by (simp_all add: remit_keys_distinct(1-3) [THEN not_sym])
    ultimately show "remit_row db' (x\<lparr>rm_commissionLedgerTxnId := Some (lt_ledgerTxnId (tv_txn v))\<rparr>)"
      using x(2) link_ok_posted [of db' "commission_key i" t] t(1,2)
      by (simp add: remit_row_def id(1) settled_ok_cong [of db' i db1] link_ok_cong [of db' "credit_key i" db1])
  qed (simp add: row_id_def)
  have f: "find_txn_by_key db' k = find_txn_by_key db k" if "k \<noteq> commission_key i" for k
    using p that quiet_find [OF q, of k] by (auto simp: posts_def l(1) find_txn_by_key_def)
  have "find_remittance db' i = map_option (\<lambda>x. x\<lparr>rm_commissionLedgerTxnId := Some (lt_ledgerTxnId (tv_txn v))\<rparr>) (find_remittance db2 i)"
    by (rule find_updated_remittance) (simp_all add: l(1) row_id_def)
  moreover have "find_remittance db2 i = Some r" using fr p remittances_found by (simp add: posts_def find_remittance_def)
  ultimately show ?thesis using ok f by auto
qed

text \<open>The settlement journal, from the bank or from the wallet.\<close>

lemma settlement_posted:
  assumes "remit_ok db" "find_remittance db i = Some r" "rm_settlementLedgerTxnId r = None" "0 < rm_amountDueNgn r"
    and "posts k (rm_amountDueNgn r) j db db1" "k = bank_key i \<or> k = wallet_key i"
    and "link_remittance rm_settlementLedgerTxnId f i j db1 = Inr (x, db')"
    and f: "\<And>r. row_id (f r) = row_id r" "rm_commissionNgn (f r) = rm_commissionNgn r"
      "rm_amountDueNgn (f r) = rm_amountDueNgn r" "rm_commissionLedgerTxnId (f r) = rm_commissionLedgerTxnId r"
      "rm_walletCreditLedgerTxnId (f r) = rm_walletCreditLedgerTxnId r" "rm_settlementLedgerTxnId (f r) = Some j"
      "rm_status (f r) = RS_RECEIVED"
  shows "remit_ok db'"
proof (rule posted_link [OF assms(1,5) _ assms(7) f(1)])
  show "k \<in> remit_keys i" using assms(6) remit_keys_mem by auto
  fix x t assume x: "find_remittance db i = Some x" "remit_row db x" and t: "lt_ledgerTxnId t = j" "lt_totalAmountNgn t = rm_amountDueNgn r"
    "\<forall>k'. find_txn_by_key db' k' = (if k' = k then Some t else find_txn_by_key db k')"
  have xr: "x = r" and id: "rm_remittanceId r = i" using x(1) assms(2) by (auto dest: find_remittance_sel)
  have none: "find_txn_by_key db (bank_key i) = None" "find_txn_by_key db (wallet_key i) = None"
    using x(2) assms(3) by (simp_all add: xr remit_row_def id settled_ok_None)
  have c: "find_txn_by_key db' (commission_key i) = find_txn_by_key db (commission_key i)"
    "find_txn_by_key db' (credit_key i) = find_txn_by_key db (credit_key i)"
    using t(3) assms(6) by (auto simp: remit_keys_distinct remit_keys_distinct(1-6) [THEN not_sym])
  have "settled_ok db' i (rm_amountDueNgn r) (Some j)"
    using assms(6)
  proof
    assume k: "k = bank_key i"
    have "find_txn_by_key db' (bank_key i) = Some t" "find_txn_by_key db' (wallet_key i) = None"
      using t(3) none by (simp_all add: k remit_keys_distinct(4) [THEN not_sym])
    then show ?thesis using t(1,2) by (simp add: settled_ok_def link_ok_def)
  next
    assume k: "k = wallet_key i"
    have "find_txn_by_key db' (wallet_key i) = Some t" "find_txn_by_key db' (bank_key i) = None"
      using t(3) none by (simp_all add: k remit_keys_distinct(4))
    then show ?thesis using t(1,2) by (simp add: settled_ok_def link_ok_def)
  qed
  moreover have "rm_walletCreditLedgerTxnId r = None" using x(2) assms(4) by (auto simp: xr remit_row_def)
  ultimately show "remit_row db' (f x)"
    using x(2) assms(4) by (simp add: xr remit_row_def f id link_ok_cong [OF c(1)] link_ok_cong [OF c(2)] row_idD [OF f(1)])
qed

lemma settle_bank_keeps:
  assumes "settleBankRemittance env i db = Inr (x, db')" "remit_ok db"
  shows "remit_ok db'"
proof (cases "db' = db")
  case False
  from assms(1) obtain r where r: "find_remittance db i = Some r" by (auto simp: settleBankRemittance_def res_simps)
  have id: "rm_remittanceId r = i" by (rule find_remittance_sel [OF r, THEN conjunct2])
  show ?thesis
  proof (cases "rm_settlementLedgerTxnId r = None")
    case settled: False
    from assms(1) False settled obtain c where "recordCommissionInTransaction env i db = Inr (c, db')"
      by (auto simp: settleBankRemittance_def r res_simps split: if_split_asm option.split_asm)
    then show ?thesis using commission_keeps [OF _ assms(2) r] by blast
  next
    case True
    from assms(1) False True obtain bref c db1 bank a db2 v db3 where s: "0 < rm_amountDueNgn r"
      "recordCommissionInTransaction env i db = Inr (c, db1)" and q: "find_account_by_code db1 BANK_CASH_CODE = Some bank"
      "ensureReceivableInTransaction env (rm_agentId r) db1 = Inr (a, db2)"
      "postInTransaction env (bank_post env r bref (la_accountId bank) (la_accountId a)) db2 = Inr (v, db3)"
      "link_remittance rm_settlementLedgerTxnId
             (\<lambda>x. x\<lparr>rm_settlementLedgerTxnId := Some (lt_ledgerTxnId (tv_txn v)),
                rm_status := RS_RECEIVED, rm_receivedAt := Some (e_now env)\<rparr>) i (lt_ledgerTxnId (tv_txn v)) db3 = Inr (x, db')"
      by (auto simp: settleBankRemittance_def r id res_simps split: if_split_asm option.split_asm)
    note k = commission_keeps [OF s(2) assms(2) r]
    then have ok1: "remit_ok db1" by simp
    obtain l where r1: "find_remittance db1 i = Some (r\<lparr>rm_commissionLedgerTxnId := l\<rparr>)" using k by blast
    let ?r = "r\<lparr>rm_commissionLedgerTxnId := l\<rparr>"
    have qu: "quiet db1 db2" by (rule receivable_quiet [OF q(2)]) (use ok1 in \<open>simp add: remit_ok_def\<close>)
    have ok2: "remit_ok db2" by (rule quiet_keeps [OF qu ok1])
    have r2: "find_remittance db2 i = Some ?r" using r1 qu by (simp add: quiet_def find_remittance_def)
    have row: "remit_row db2 ?r" using ok2 find_remittance_sel [OF r2] by (simp add: remit_ok_def)
    have p: "posts (bank_key i) (rm_amountDueNgn ?r) (lt_ledgerTxnId (tv_txn v)) db2 db3"
    proof (rule post_posts [OF q(3)])
      show "find_txn_by_key db2 (bank_key i) = None" using row True by (simp add: remit_row_def settled_ok_None id)
      show "js_trim (pi_idempotencyKey (bank_post env r bref (la_accountId bank) (la_accountId a))) = bank_key i"
        using remit_row_trim [OF row _ remit_keys_mem(2), of i] by (simp add: bank_post_def bank_key_def id)
    qed (use ok2 in \<open>simp_all add: remit_ok_def bank_post_def transfer_debits\<close>)
    show ?thesis
      by (rule settlement_posted [OF ok2 r2 _ _ p disjI1 [OF refl] q(4)]) (use True s(1) in \<open>simp_all add: row_id_def\<close>)
  qed
qed (use assms(2) in simp)

lemma settle_wallet_keeps:
  assumes "settle_from_wallet_tx env agentId i walletId db = Inr (x, db')" "remit_ok db"
    and "\<And>r. find_remittance db i = Some r \<Longrightarrow> 0 < rm_amountDueNgn r"
  shows "remit_ok db'"
proof -
  from assms(1) obtain r c db1 a db2 v db3 where s: "find_remittance db i = Some r" "rm_status r = RS_PENDING \<or> rm_status r = RS_LATE"
    "recordCommissionInTransaction env i db = Inr (c, db1)" "ensureReceivableInTransaction env agentId db1 = Inr (a, db2)"
    "debitInTransaction env (remittance_movement r agentId walletId ''ledger:remittance-wallet-settlement:'' (rm_amountDueNgn r)
         ''Agent remittance settled from wallet credit'' (la_accountId a)) db2 = Inr (v, db3)"
    "link_remittance rm_settlementLedgerTxnId
         (\<lambda>x. x\<lparr>rm_settlementLedgerTxnId := Some (lt_ledgerTxnId (tv_txn v)), rm_status := RS_RECEIVED,
            rm_bankTransferRef := Some (''WALLET-'' @ js_upper (take 8 (rm_remittanceId r))),
            rm_agentConfirmedAt := Some (e_now env), rm_receivedAt := Some (e_now env)\<rparr>)
         (rm_remittanceId r) (lt_ledgerTxnId (tv_txn v)) db3 = Inr (x, db')"
    by (auto simp: settle_from_wallet_tx_def res_simps split: if_splits)
  have id: "rm_remittanceId r = i" by (rule find_remittance_sel [OF s(1), THEN conjunct2])
  note k = commission_keeps [OF s(3) assms(2) s(1)]
  then have ok1: "remit_ok db1" by simp
  obtain l where r1: "find_remittance db1 i = Some (r\<lparr>rm_commissionLedgerTxnId := l\<rparr>)" using k by blast
  let ?r = "r\<lparr>rm_commissionLedgerTxnId := l\<rparr>"
  have qu: "quiet db1 db2" by (rule receivable_quiet [OF s(4)]) (use ok1 in \<open>simp add: remit_ok_def\<close>)
  have ok2: "remit_ok db2" by (rule quiet_keeps [OF qu ok1])
  have r2: "find_remittance db2 i = Some ?r" using r1 qu by (simp add: quiet_def find_remittance_def)
  have row: "remit_row db2 ?r" using ok2 find_remittance_sel [OF r2] by (simp add: remit_ok_def)
  have none: "rm_settlementLedgerTxnId r = None" using row s(2) by (auto simp: remit_row_def)
  let ?m = "remittance_movement r agentId walletId ''ledger:remittance-wallet-settlement:'' (rm_amountDueNgn r)
         ''Agent remittance settled from wallet credit'' (la_accountId a)"
  obtain w where w: "postInTransaction env (movement_post ?m (w_availableAccountId w) (mv_counterAccountId ?m)) db2 = Inr (v, db3)"
    "find_wallet db2 (mv_walletId ?m) = Some w"
    using s(5) by (rule debit_cases) (rule that; assumption)
  have p: "posts (wallet_key i) (rm_amountDueNgn ?r) (lt_ledgerTxnId (tv_txn v)) db2 db3"
  proof (rule post_posts [OF w(1)])
    show "find_txn_by_key db2 (wallet_key i) = None" using row none by (simp add: remit_row_def settled_ok_None id)
    show "js_trim (pi_idempotencyKey (movement_post ?m (w_availableAccountId w) (mv_counterAccountId ?m))) = wallet_key i"
      using remit_row_trim [OF row _ remit_keys_mem(3), of i] by (simp add: movement_lines(2) remittance_movement_def wallet_key_def id)
  qed (use ok2 in \<open>simp_all add: remit_ok_def movement_debits remittance_movement_def\<close>)
  show ?thesis
    by (rule settlement_posted [OF ok2 r2 _ _ p disjI2 [OF refl] s(6) [unfolded id]]) (use none assms(3) [OF s(1)] in \<open>simp_all add: row_id_def\<close>)
qed

text \<open>The credit of a negative day, the commission of a closed one, and the plain updates.\<close>

lemma credit_negative_keeps:
  assumes "credit_negative_tx env i walletId db = Inr (x, db')" "remit_ok db"
    and "\<And>r. find_remittance db i = Some r \<Longrightarrow> rm_amountDueNgn r < 0"
  shows "remit_ok db'"
proof -
  from assms(1) obtain r where r: "find_remittance db i = Some r" by (auto simp: credit_negative_tx_def res_simps)
  have id: "rm_remittanceId r = i" by (rule find_remittance_sel [OF r, THEN conjunct2])
  show ?thesis
  proof (cases "rm_walletCreditLedgerTxnId r = None")
    case False
    with assms(1) obtain c where "recordCommissionInTransaction env i db = Inr (c, db')"
      by (auto simp: credit_negative_tx_def r res_simps split: if_split_asm)
    then show ?thesis using commission_keeps [OF _ assms(2) r] by blast
  next
    case True
    with assms(1) obtain c db1 a db2 v db3 where s: "recordCommissionInTransaction env i db = Inr (c, db1)"
      "ensureReceivableInTransaction env (rm_agentId r) db1 = Inr (a, db2)"
      "creditInTransaction env (remittance_movement r (rm_agentId r) walletId ''ledger:remittance-wallet-credit:''
         (- rm_amountDueNgn r) ''Agent daily net credit'' (la_accountId a)) db2 = Inr (v, db3)"
      "link_remittance rm_walletCreditLedgerTxnId
         (\<lambda>x. x\<lparr>rm_walletCreditLedgerTxnId := Some (lt_ledgerTxnId (tv_txn v)),
            rm_status := RS_CREDITED_TO_WALLET, rm_receivedAt := Some (e_now env)\<rparr>)
         i (lt_ledgerTxnId (tv_txn v)) db3 = Inr (x, db')"
      by (auto simp: credit_negative_tx_def r id res_simps split: if_split_asm)
    note k = commission_keeps [OF s(1) assms(2) r]
    then have ok1: "remit_ok db1" by simp
    obtain l where r1: "find_remittance db1 i = Some (r\<lparr>rm_commissionLedgerTxnId := l\<rparr>)" using k by blast
    let ?r = "r\<lparr>rm_commissionLedgerTxnId := l\<rparr>"
    have qu: "quiet db1 db2" by (rule receivable_quiet [OF s(2)]) (use ok1 in \<open>simp add: remit_ok_def\<close>)
    have ok2: "remit_ok db2" by (rule quiet_keeps [OF qu ok1])
    have r2: "find_remittance db2 i = Some ?r" using r1 qu by (simp add: quiet_def find_remittance_def)
    have row: "remit_row db2 ?r" using ok2 find_remittance_sel [OF r2] by (simp add: remit_ok_def)
    have neg: "rm_amountDueNgn r < 0" by (rule assms(3) [OF r])
    let ?m = "remittance_movement r (rm_agentId r) walletId ''ledger:remittance-wallet-credit:''
         (- rm_amountDueNgn r) ''Agent daily net credit'' (la_accountId a)"
    obtain w where w: "postInTransaction env (movement_post ?m (mv_counterAccountId ?m) (w_availableAccountId w)) db2 = Inr (v, db3)"
      "find_wallet db2 (mv_walletId ?m) = Some w"
      using s(3) by (rule credit_cases) (rule that; assumption)
    have p: "posts (credit_key i) (- rm_amountDueNgn ?r) (lt_ledgerTxnId (tv_txn v)) db2 db3"
    proof (rule post_posts [OF w(1)])
      show "find_txn_by_key db2 (credit_key i) = None" using row True by (simp add: remit_row_def link_ok_None id)
      show "js_trim (pi_idempotencyKey (movement_post ?m (mv_counterAccountId ?m) (w_availableAccountId w))) = credit_key i"
        using remit_row_trim [OF row _ remit_keys_mem(4), of i] by (simp add: movement_lines(2) remittance_movement_def credit_key_def id)
    qed (use ok2 in \<open>simp_all add: remit_ok_def movement_debits remittance_movement_def\<close>)
    show ?thesis
    proof (rule posted_link [OF ok2 p remit_keys_mem(4) s(4)])
      fix x t assume x: "find_remittance db2 i = Some x" "remit_row db2 x" and t: "lt_ledgerTxnId t = lt_ledgerTxnId (tv_txn v)"
        "lt_totalAmountNgn t = - rm_amountDueNgn ?r"
        "\<forall>k'. find_txn_by_key db' k' = (if k' = credit_key i then Some t else find_txn_by_key db2 k')"
      have xr: "x = ?r" using x(1) r2 by simp
      have c: "find_txn_by_key db' (commission_key i) = find_txn_by_key db2 (commission_key i)"
        "find_txn_by_key db' (bank_key i) = find_txn_by_key db2 (bank_key i)"
        "find_txn_by_key db' (wallet_key i) = find_txn_by_key db2 (wallet_key i)" "find_txn_by_key db' (credit_key i) = Some t"
        using t(3) by (simp_all add: remit_keys_distinct)
      have "link_ok db' (credit_key i) (- rm_amountDueNgn r) (Some (lt_ledgerTxnId (tv_txn v)))"
        using c(4) t(1,2) by (simp add: link_ok_def)
      moreover have "rm_settlementLedgerTxnId r = None" using x(2) neg by (auto simp: xr remit_row_def)
      ultimately show "remit_row db' (x\<lparr>rm_walletCreditLedgerTxnId := Some (lt_ledgerTxnId (tv_txn v)),
            rm_status := RS_CREDITED_TO_WALLET, rm_receivedAt := Some (e_now env)\<rparr>)"
        using x(2) neg by (simp add: xr remit_row_def id settled_ok_cong [OF c(2,3)] link_ok_cong [OF c(1)])
    qed (simp add: row_id_def)
  qed
qed

lemma update_keeps:
  assumes "update_remittance f i db = Inr (x, db')" "remit_ok db" "\<And>r. row_id (f r) = row_id r"
    and "\<And>r. find_remittance db i = Some r \<Longrightarrow> remit_row db r \<Longrightarrow> remit_row db (f r)"
  shows "remit_ok db'"
proof -
  note u = update_remittance_cases(1) [OF assms(1)]
  show ?thesis
  proof (rule remit_update [OF assms(2) _ _ assms(3)])
    show "ledger_ok db'" using assms(2) by (simp add: u remit_ok_def ledger_ok_def entries_of_def)
    show "remit_row db' (f r)" if "find_remittance db i = Some r" "remit_row db r" for r
      using assms(4) [OF that] remit_row_cong [of "f r" db' db] by (simp add: u find_txn_by_key_def)
  qed (simp_all add: u find_txn_by_key_def)
qed

lemma ensure_commission_keeps:
  assumes "ensureRemittanceCommission env i db = Inr (x, db')" "remit_ok db"
  shows "remit_ok db'"
proof -
  from assms(1) obtain c db1 r where s: "recordCommissionInTransaction env i db = Inr (c, db1)" "find_remittance db1 i = Some r"
    "(if rm_amountDueNgn r = 0 \<and> (rm_status r = RS_PENDING \<or> rm_status r = RS_LATE)
      then update_remittance (\<lambda>x. x\<lparr>rm_status := RS_RECEIVED, rm_receivedAt := Some (e_now env)\<rparr>) i db1
      else Inr (r, db1)) = Inr (x, db')"
    by (auto simp: ensureRemittanceCommission_def res_simps)
  from s(1) obtain r0 where r0: "find_remittance db i = Some r0" by (auto simp: recordCommissionInTransaction_def res_simps)
  have ok1: "remit_ok db1" using commission_keeps [OF s(1) assms(2) r0] by simp
  show ?thesis
  proof (cases "rm_amountDueNgn r = 0 \<and> (rm_status r = RS_PENDING \<or> rm_status r = RS_LATE)")
    case True
    have u: "update_remittance (\<lambda>x. x\<lparr>rm_status := RS_RECEIVED, rm_receivedAt := Some (e_now env)\<rparr>) i db1 = Inr (x, db')"
      using s(3) unfolding if_P [OF True] .
    show ?thesis by (rule update_keeps [OF u ok1]) (use True s(2) in \<open>auto simp: remit_row_def row_id_def\<close>)
  next
    case False
    then have "db1 = db'" using s(3) unfolding if_not_P [OF False] by simp
    then show ?thesis using ok1 by simp
  qed
qed

lemma confirm_keeps:
  assumes "update_remittance (\<lambda>x. x\<lparr>rm_status := RS_AGENT_CONFIRMED, rm_bankTransferRef := Some ref,
      rm_agentConfirmedAt := Some n\<rparr>) i db = Inr (x, db')" "remit_ok db"
  shows "remit_ok db'"
  by (rule update_keeps [OF assms]) (auto simp: remit_row_def row_id_def)

lemma late_keeps:
  assumes "remit_ok db"
  shows "remit_ok (mark_late r db)"
proof (cases "\<exists>x\<in>set (remittances db). rm_remittanceId x = rm_remittanceId r \<and> rm_status x = RS_PENDING")
  case True
  let ?hit = "\<lambda>x. rm_remittanceId x = rm_remittanceId r \<and> rm_status x = RS_PENDING"
  let ?f = "\<lambda>x. if rm_status x = RS_PENDING then x\<lparr>rm_status := RS_LATE\<rparr> else x"
  have m: "remittances (mark_late r db) = update_where (\<lambda>x. rm_remittanceId x = rm_remittanceId r) ?f (remittances db)"
    using True by (auto simp: mark_late_def Let_def update_where_def)
  have t: "find_txn_by_key (mark_late r db) = find_txn_by_key db" using True by (simp add: mark_late_def Let_def find_txn_by_key_def fun_eq_iff)
  show ?thesis
  proof (rule remit_update [OF assms _ m])
    show "ledger_ok (mark_late r db)"
      using assms True by (simp add: mark_late_def Let_def remit_ok_def ledger_ok_def entries_of_def)
    show "remit_row (mark_late r db) (?f x)" if "remit_row db x" for x
    proof -
      have "remit_row db (?f x)" using that by (auto simp: remit_row_def)
      then show ?thesis using remit_row_cong [of "?f x" "mark_late r db" db] by (simp only: t)
    qed
  qed (simp_all add: t row_id_def)
next
  case False
  show ?thesis unfolding mark_late_def Let_def if_not_P [OF False] by (rule assms)
qed


lemma warn_keeps:
  assumes "warn_row env r (db, sent) = (db', sent')" "remit_ok db"
  shows "remit_ok db'"
proof (cases "\<exists>x\<in>set (remittances db). rm_remittanceId x = rm_remittanceId r \<and> rm_deadlineWarnedAt x = None")
  case True
  let ?f = "\<lambda>x. if rm_deadlineWarnedAt x = None then x\<lparr>rm_deadlineWarnedAt := Some (e_now env)\<rparr> else x"
  have d: "db' = db\<lparr>remittances := update_where (\<lambda>x. rm_remittanceId x = rm_remittanceId r) ?f (remittances db)\<rparr>"
    using assms(1) True by (auto simp: warn_row_def Let_def list_ex_iff update_where_def)
  have t: "find_txn_by_key db' = find_txn_by_key db" by (simp add: d find_txn_by_key_def fun_eq_iff)
  show ?thesis
  proof (rule remit_update [OF assms(2), of db' "rm_remittanceId r" ?f])
    show "ledger_ok db'" using assms(2) by (simp add: d remit_ok_def ledger_ok_def entries_of_def)
    show "remit_row db' (?f x)" if "remit_row db x" for x
    proof -
      have "remit_row db (?f x)" using that by (auto simp: remit_row_def)
      then show ?thesis using remit_row_cong [of "?f x" db' db] by (simp only: t)
    qed
  qed (simp_all only: t, simp_all add: d row_id_def)
next
  case False
  have "db' = db" using assms(1) unfolding warn_row_def Let_def prod.case list_ex_iff if_not_P [OF False] by simp
  then show ?thesis using assms(2) by simp
qed

section \<open>Runs\<close>

text \<open>
  The writes of the remittance operations, one transaction at a time. Each operation reads before
  its transaction; what the steps take over from that read are the amount, which never changes,
  and nothing for the confirmation, which writes whatever the status has become. Rows come from
  the sweep. Other services post, reverse and open accounts as they like, but not under the keys of
  a remittance.
\<close>

inductive remittance_step :: "db \<Rightarrow> db \<Rightarrow> bool" where
  rs_create: "create_remittance (env :: env) (new_remittance agent day tally payout) db = Inr (r, db') \<Longrightarrow> uuid_ok env \<Longrightarrow>
    (\<And>k. k \<in> remit_keys (rm_remittanceId r) \<Longrightarrow> find_txn_by_key db k = None) \<Longrightarrow> remittance_step db db'"
| rs_commission: "ensureRemittanceCommission (env :: env) i db = Inr (r, db') \<Longrightarrow> remittance_step db db'"
| rs_credit: "credit_negative_tx (env :: env) i walletId db = Inr (r, db') \<Longrightarrow>
    (\<And>r. find_remittance db i = Some r \<Longrightarrow> rm_amountDueNgn r < 0) \<Longrightarrow> remittance_step db db'"
| rs_confirm: "update_remittance (\<lambda>x. x\<lparr>rm_status := RS_AGENT_CONFIRMED, rm_bankTransferRef := Some ref,
      rm_agentConfirmedAt := Some now\<rparr>) i db = Inr (r, db') \<Longrightarrow> remittance_step db db'"
| rs_bank: "settleBankRemittance (env :: env) i db = Inr (r, db') \<Longrightarrow> remittance_step db db'"
| rs_wallet: "settle_from_wallet_tx (env :: env) agentId i walletId db = Inr (r, db') \<Longrightarrow>
    (\<And>r. find_remittance db i = Some r \<Longrightarrow> 0 < rm_amountDueNgn r) \<Longrightarrow> remittance_step db db'"
| rs_late: "remittance_step db (mark_late r db)"
| rs_warn: "warn_row (env :: env) r (db, sent) = (db', sent') \<Longrightarrow> remittance_step db db'"
| rs_other: "ledger_step\<^sup>*\<^sup>* db db' \<Longrightarrow> remittances db' = remittances db \<Longrightarrow>
    (\<And>r k. r \<in> set (remittances db) \<Longrightarrow> k \<in> remit_keys (rm_remittanceId r) \<Longrightarrow>
      find_txn_by_key db' k = find_txn_by_key db k) \<Longrightarrow> remittance_step db db'"

inductive_cases remittance_stepE: "remittance_step db db'"

lemma create_remittance_cases:
  assumes "create_remittance env r0 db = Inr (r, db')"
  shows "r = r0\<lparr>rm_remittanceId := e_uuid env (seq db), rm_createdAt := e_now env\<rparr>"
    "db' = db\<lparr>remittances := remittances db @ [r], seq := seq db + 1\<rparr>" "remittance_fits r"
    "\<And>x. x \<in> set (remittances db) \<Longrightarrow> rm_remittanceId x \<noteq> rm_remittanceId r \<and> agent_day x \<noteq> agent_day r"
  using assms by (auto simp: create_remittance_def Let_def list_ex_iff agent_day_def split: if_splits)

lemma create_remittance_keeps:
  assumes "create_remittance env (new_remittance agent day tally payout) db = Inr (r, db')" "uuid_ok env" "remit_ok db"
    and "\<And>k. k \<in> remit_keys (rm_remittanceId r) \<Longrightarrow> find_txn_by_key db k = None"
  shows "remit_ok db'"
proof -
  note c = create_remittance_cases [OF assms(1)]
  have row: "remit_row db r"
    using assms(2) assms(4) [OF remit_keys_mem(1)] assms(4) [OF remit_keys_mem(2)] assms(4) [OF remit_keys_mem(3)]
      assms(4) [OF remit_keys_mem(4)]
    by (simp add: remit_row_def c(1) new_remittance_def Let_def link_ok_None settled_ok_None uuid_ok_def)
  have f: "find_txn_by_key db' = find_txn_by_key db" by (simp add: c(2) find_txn_by_key_def fun_eq_iff)
  have "remit_row db' x = remit_row db x" for x by (rule remit_row_cong) (simp add: f)
  moreover have "rm_remittanceId r \<notin> rm_remittanceId ` set (remittances db)" "agent_day r \<notin> agent_day ` set (remittances db)"
    using c(4) by (metis imageE)+
  moreover have "ledger_ok db'" using assms(3) by (simp add: remit_ok_def c(2) ledger_ok_def entries_of_def)
  moreover have "remittances db' = remittances db @ [r]" by (simp add: c(2))
  ultimately show ?thesis using assms(3) row by (auto simp: remit_ok_def)
qed

lemma remittance_step_keeps: "remittance_step db db' \<Longrightarrow> remit_ok db \<Longrightarrow> remit_ok db'"
proof (erule remittance_stepE)
  assume "ledger_step\<^sup>*\<^sup>* db db'" "remit_ok db" and r: "remittances db' = remittances db"
    and k: "\<And>r k. r \<in> set (remittances db) \<Longrightarrow> k \<in> remit_keys (rm_remittanceId r) \<Longrightarrow>
      find_txn_by_key db' k = find_txn_by_key db k"
  have "ledger_ok db'" using \<open>remit_ok db\<close> by (auto simp: remit_ok_def intro: ledger_run.run_keeps [OF \<open>ledger_step\<^sup>*\<^sup>* db db'\<close>])
  moreover have "remit_row db' x" if "x \<in> set (remittances db)" for x
    using \<open>remit_ok db\<close> that remit_row_cong [OF k [OF that]] by (simp add: remit_ok_def)
  ultimately show "remit_ok db'" using \<open>remit_ok db\<close> by (simp add: remit_ok_def r)
qed (auto intro: create_remittance_keeps ensure_commission_keeps credit_negative_keeps confirm_keeps settle_bank_keeps
    settle_wallet_keeps late_keeps warn_keeps)

interpretation remittance_run: kept_by_steps remittance_step remit_ok
  by unfold_locales (rule remittance_step_keeps)

lemma remit_ok_empty: "remit_ok empty_db"
  using ledger_ok_empty by (simp add: remit_ok_def empty_db_def)

lemma reachable_remit_ok: "remittance_step\<^sup>*\<^sup>* empty_db db \<Longrightarrow> remit_ok db"
  using remittance_run.run_keeps remit_ok_empty by blast

lemma link_ok_found: "link_ok db k n l \<Longrightarrow> find_txn_by_key db k = Some t \<Longrightarrow> l = Some (lt_ledgerTxnId t) \<and> lt_totalAmountNgn t = n"
  by (auto simp: link_ok_def split: option.splits)

lemma link_ok_some: "link_ok db k n (Some j) \<Longrightarrow> \<exists>t. find_txn_by_key db k = Some t"
  by (auto simp: link_ok_def)

end
