(* ===== verification/Agent_Day.thy ===== *)
theory Agent_Day
  imports Remittance_Sweep
begin

text \<open>
  The line by line backing of an agent's day: \<open>apps/api/src/agent-ops/agent-day-record.service.ts\<close> with
  the day of \<open>apps/api/src/common/sales-window.util.ts\<close>.
\<close>

text \<open>\<open>businessDayBounds\<close> of \<open>apps/api/src/common/sales-window.util.ts\<close>, the same day seen from its date.\<close>

definition businessDayBounds :: "int \<Rightarrow> int \<Rightarrow> int \<times> int" where
  "businessDayBounds periodDate closeMinutes =
     (let d = (periodDate div MS_PER_DAY) * MS_PER_DAY;
          endUtc = d + closeMinutes * 60000 - WAT_MS in
      (endUtc - MS_PER_DAY, endUtc))"

record ticket_line =
  tl_ticketRef :: string
  tl_ticketType :: TicketType
  tl_drawCode :: string
  tl_faceValueNgn :: int
  tl_buyerPhone :: string
  tl_status :: TicketStatus
  tl_isWinner :: bool

record prize_line =
  pl_claimId :: string
  pl_winnerTicketRef :: string
  pl_grossPrizeValueNgn :: int
  pl_whtAmountNgn :: int
  pl_netPrizeValueNgn :: int
  pl_payoutReference :: "string option"
  pl_paidAt :: "string option"
  pl_legacy :: bool

record line_totals =
  ln_ticketCount :: nat
  ln_standardTicketCount :: nat
  ln_jackpotTicketCount :: nat
  ln_grossSalesNgn :: int
  ln_prizesPaidCount :: nat
  ln_winningsPaidOutNgn :: int
  ln_walletReimbursedNgn :: int

text \<open>The agent's name and phone are left out.\<close>

record day_record =
  dd_windowStartUtc :: string
  dd_windowEndUtc :: string
  dd_sealed :: "remittance option"
  dd_tickets :: "ticket_line list"
  dd_prizesPaid :: "prize_line list"
  dd_lineTotals :: line_totals
  dd_reconciles :: "bool option"

text \<open>Tickets come in the order they were created, which is that of the table.\<close>

definition day_tickets :: "db \<Rightarrow> string \<Rightarrow> int \<times> int \<Rightarrow> ticket list" where
  "day_tickets db agentId window = filter (\<lambda>t. t_agentId t = Some agentId \<and>
     (case t_paymentTxnId t of None \<Rightarrow> False | Some i \<Rightarrow>
       (case find_payment db i of None \<Rightarrow> False | Some p \<Rightarrow>
          pt_gateway p = AGENT_CASH \<and> pt_status p = PS_CONFIRMED \<and>
          (case pt_confirmedAt p of None \<Rightarrow> False | Some c \<Rightarrow> fst window \<le> c \<and> c < snd window)))) (tickets db)"

definition day_prizes :: "db \<Rightarrow> string \<Rightarrow> int \<times> int \<Rightarrow> prize_claim list" where
  "day_prizes db agentId window =
     js_sort (\<lambda>a b. the (pc_paidByAgentAt a) - the (pc_paidByAgentAt b))
       (filter (\<lambda>c. pc_paidByAgentId c = Some agentId \<and>
         (case pc_paidByAgentAt c of None \<Rightarrow> False | Some t \<Rightarrow> fst window \<le> t \<and> t < snd window)) (claims db))"

definition ticket_line_of :: "db \<Rightarrow> ticket \<Rightarrow> ticket_line" where
  "ticket_line_of db t =
     \<lparr>tl_ticketRef = t_ticketRef t, tl_ticketType = t_ticketType t,
      tl_drawCode = (case find (\<lambda>d. d_drawId d = t_drawId t) (draws db) of None \<Rightarrow> [] | Some d \<Rightarrow> d_drawCode d),
      tl_faceValueNgn = t_faceValueNgn t, tl_buyerPhone = t_buyerPhone t, tl_status = t_status t,
      tl_isWinner = t_isWinner t\<rparr>"

text \<open>\<open>usesLegacyReceivable\<close>: no payout journal, or one that touches a receivable account.\<close>

definition prize_line_of :: "db \<Rightarrow> prize_claim \<Rightarrow> prize_line" where
  "prize_line_of db c =
     \<lparr>pl_claimId = pc_claimId c, pl_winnerTicketRef = pc_winnerTicketRef c,
      pl_grossPrizeValueNgn = pc_grossPrizeValueNgn c, pl_whtAmountNgn = pc_whtAmountNgn c,
      pl_netPrizeValueNgn = pc_netPrizeValueNgn c, pl_payoutReference = pc_payoutReference c,
      pl_paidAt = map_option to_iso_string (pc_paidByAgentAt c),
      pl_legacy = (case pc_agentPayoutLedgerTxnId c of None \<Rightarrow> True | Some j \<Rightarrow> receivable_backed db j)\<rparr>"

definition line_totals_of :: "ticket_line list \<Rightarrow> prize_line list \<Rightarrow> line_totals" where
  "line_totals_of ticketRows prizeRows =
     \<lparr>ln_ticketCount = length ticketRows,
      ln_standardTicketCount = length (filter (\<lambda>t. tl_ticketType t = STANDARD) ticketRows),
      ln_jackpotTicketCount = length (filter (\<lambda>t. tl_ticketType t = JACKPOT) ticketRows),
      ln_grossSalesNgn = sum_by tl_faceValueNgn ticketRows,
      ln_prizesPaidCount = length prizeRows,
      ln_winningsPaidOutNgn = sum_by pl_netPrizeValueNgn (filter pl_legacy prizeRows),
      ln_walletReimbursedNgn = sum_by pl_netPrizeValueNgn (filter (\<lambda>p. \<not> pl_legacy p) prizeRows)\<rparr>"

definition dayRecord :: "db \<Rightarrow> string \<Rightarrow> int \<Rightarrow> int option \<Rightarrow> day_record res" where
  "dayRecord db agentId periodDate template =
     (let window = businessDayBounds periodDate (closeMinutesWat template);
          sealed = find (\<lambda>r. rm_agentId r = agentId \<and> rm_periodDate r = periodDate) (remittances db);
          ticketRows = map (ticket_line_of db) (day_tickets db agentId window);
          prizeRows = map (prize_line_of db) (day_prizes db agentId window);
          totals = line_totals_of ticketRows prizeRows in
      if find_agent db agentId = None then Inl (NotFoundException ''Agent not found'')
      else Inr \<lparr>dd_windowStartUtc = to_iso_string (fst window), dd_windowEndUtc = to_iso_string (snd window),
        dd_sealed = sealed, dd_tickets = ticketRows, dd_prizesPaid = prizeRows, dd_lineTotals = totals,
        dd_reconciles = map_option (\<lambda>s. rm_ticketCount s = ln_ticketCount totals \<and>
          rm_grossSalesNgn s = ln_grossSalesNgn totals \<and> rm_winningsPaidOutNgn s = ln_winningsPaidOutNgn totals) sealed\<rparr>)"

end
