(* ===== verification/Remittance_Properties.thy ===== *)
theory Remittance_Properties
  imports Agent_Properties Agent_Remittance_Laws Agent_Day
begin

text \<open>
  The remittances from the sweep that creates them to their settlement: the business day, what a
  sweep collects, and that a remittance is settled at most once.
\<close>

section \<open>The business day\<close>

text \<open>Every instant belongs to the business day the code gives it: the day ends at the next close of
  sales and is 24 hours long, an instant belongs to the same day exactly when it is in that window,
  the drill-down of a day (\<open>businessDayBounds\<close>) uses the window the sweep sealed, and the last
  closed business day has really closed, less than a day ago.\<close>

theorem business_day_windows:
  fixes t c :: int
  assumes "0 \<le> c" "c \<le> 1440"
  shows "bd_startUtc (businessDayOf t c) \<le> t \<and> t < bd_endUtc (businessDayOf t c) \<and>
    bd_endUtc (businessDayOf t c) - bd_startUtc (businessDayOf t c) = MS_PER_DAY \<and>
    (businessDayOf t' c = businessDayOf t c \<longleftrightarrow> in_day (businessDayOf t c) (Some t')) \<and>
    businessDayBounds (bd_periodDate (businessDayOf t c)) c =
      (bd_startUtc (businessDayOf t c), bd_endUtc (businessDayOf t c)) \<and>
    bd_endUtc (lastClosedBusinessDay t c) \<le> t \<and> t < bd_endUtc (lastClosedBusinessDay t c) + MS_PER_DAY"
proof -
  define n where "n x = (x + WAT_MS) div MS_PER_DAY + (if ((x + WAT_MS) mod MS_PER_DAY) div 60000 \<ge> c then 1 else 0)" for x
  have day: "businessDayOf x c = \<lparr>bd_periodDate = n x * MS_PER_DAY, bd_startUtc = n x * MS_PER_DAY + c * 60000 - WAT_MS - MS_PER_DAY,
      bd_endUtc = n x * MS_PER_DAY + c * 60000 - WAT_MS\<rparr>" for x
    by (simp add: businessDayOf_def Let_def n_def)
  have u: "n x * MS_PER_DAY + c * 60000 - WAT_MS - MS_PER_DAY \<le> x \<and> x < n x * MS_PER_DAY + c * 60000 - WAT_MS" for x
  proof -
    define q r where qr: "q = (x + WAT_MS) div MS_PER_DAY" "r = (x + WAT_MS) mod MS_PER_DAY"
    have x: "x + WAT_MS = q * MS_PER_DAY + r" by (simp add: qr)
    have r: "0 \<le> r" "r < MS_PER_DAY" by (simp_all add: qr MS_PER_DAY_def)
    have "r = 60000 * (r div 60000) + r mod 60000" "0 \<le> r mod 60000" "r mod 60000 < 60000" by simp_all
    then have "r div 60000 \<ge> c \<longleftrightarrow> c * 60000 \<le> r" by linarith
    then have m: "n x = q + (if c * 60000 \<le> r then 1 else 0)" by (simp add: n_def qr)
    show ?thesis using x r assms by (auto simp: m MS_PER_DAY_def)
  qed
  have eq: "n x = m" if "m * MS_PER_DAY + c * 60000 - WAT_MS - MS_PER_DAY \<le> x" "x < m * MS_PER_DAY + c * 60000 - WAT_MS" for x m
  proof -
    have "(n x - m) * MS_PER_DAY < MS_PER_DAY" "(m - n x) * MS_PER_DAY < MS_PER_DAY"
      using u [of x] that by (simp_all add: left_diff_distrib)
    then show ?thesis by (simp add: MS_PER_DAY_def)
  qed
  have "businessDayOf t' c = businessDayOf t c \<longleftrightarrow> n t' = n t" by (auto simp: day MS_PER_DAY_def)
  moreover have "n t' = n t \<longleftrightarrow> in_day (businessDayOf t c) (Some t')"
    using u [of t'] eq [of "n t" t'] by (auto simp: in_day_def day)
  moreover have "businessDayBounds (n t * MS_PER_DAY) c = (n t * MS_PER_DAY + c * 60000 - WAT_MS - MS_PER_DAY, n t * MS_PER_DAY + c * 60000 - WAT_MS)"
    by (simp add: businessDayBounds_def Let_def MS_PER_DAY_def)
  ultimately show ?thesis using u [of t] u [of "t - MS_PER_DAY"] by (simp add: day lastClosedBusinessDay_def)
qed

text \<open>One o'clock in West Africa on the first of January 2026, with the close at seven in the evening.\<close>

theorem business_day_windows_witness:
  "bd_endUtc (lastClosedBusinessDay 1767225600000 1140) = 1767204000000 \<and>
   bd_endUtc (businessDayOf 1767225600000 1140) = 1767290400000 \<and>
   (1767225600000::int) < bd_endUtc (businessDayOf 1767225600000 1140)"
proof -
  have "bd_endUtc (lastClosedBusinessDay 1767225600000 1140) = 1767204000000"
    "bd_endUtc (businessDayOf 1767225600000 1140) = 1767290400000" by code_simp+
  then show ?thesis using business_day_windows [of 1140 1767225600000 0] by simp
qed

section \<open>The sweep\<close>

lemma find_agent_id: "find_agent db a = Some ag \<Longrightarrow> ag_agentId ag = a"
  by (auto simp: find_agent_def dest: find_Some_set)

definition swept_row :: "'a env_scheme \<Rightarrow> db \<Rightarrow> business_day \<Rightarrow> ticket list \<Rightarrow> prize_claim list \<Rightarrow> remittance \<Rightarrow> bool" where
  "swept_row env db day sold paid r \<longleftrightarrow> (\<exists>ag i. find_agent db (rm_agentId r) = Some ag \<and>
     r = (new_remittance ag day (day_tally_of sold (rm_agentId r)) (prizes_of paid (rm_agentId r)))
       \<lparr>rm_remittanceId := i, rm_createdAt := e_now env\<rparr>)"

lemma create_fresh_remittance:
  assumes "remittance_fits r0" "e_uuid env (seq db) \<notin> rm_remittanceId ` set (remittances db)"
    and "agent_day r0 \<notin> agent_day ` set (remittances db)"
  shows "create_remittance env r0 db = (let r = r0\<lparr>rm_remittanceId := e_uuid env (seq db), rm_createdAt := e_now env\<rparr>
    in Inr (r, db\<lparr>remittances := remittances db @ [r], seq := seq db + 1\<rparr>))"
  using assms by (auto simp: create_remittance_def Let_def remittance_fits_def list_ex_iff agent_day_def image_iff)

lemma sweep_agents_rows:
  assumes "distinct as" "inj (e_uuid env)" "\<forall>n\<ge>seq db. e_uuid env n \<notin> rm_remittanceId ` set (remittances db)"
    and "\<forall>a\<in>set as. \<exists>ag. find_agent db a = Some ag \<and> remittance_fits (new_remittance ag day (day_tally_of sold a) (prizes_of paid a))"
    and "\<forall>r\<in>set (remittances db). rm_periodDate r = bd_periodDate day \<longrightarrow> rm_agentId r \<notin> set as"
  shows "\<exists>new l s. sweep_agents env day sold paid (\<lambda>_ d. d) as db =
      db\<lparr>remittances := remittances db @ new, auditLog := l, seq := s\<rparr> \<and>
    map rm_agentId new = as \<and> (\<forall>r\<in>set new. swept_row env db day sold paid r)"
  using assms
proof (induction as arbitrary: db)
  case Nil
  show ?case by (intro exI [of _ "[]"] exI [of _ "auditLog db"] exI [of _ "seq db"]) simp
next
  case (Cons a as)
  obtain ag where ag: "find_agent db a = Some ag" "remittance_fits (new_remittance ag day (day_tally_of sold a) (prizes_of paid a))"
    using Cons.prems(4) by auto
  have id: "ag_agentId ag = a" by (rule find_agent_id [OF ag(1)])
  let ?row = "new_remittance ag day (day_tally_of sold a) (prizes_of paid a)"
  let ?r = "?row\<lparr>rm_remittanceId := e_uuid env (seq db), rm_createdAt := e_now env\<rparr>"
  have r0: "rm_agentId ?row = a" "rm_periodDate ?row = bd_periodDate day" by (simp_all add: new_remittance_def Let_def id)
  have "agent_day ?row \<notin> agent_day ` set (remittances db)" using Cons.prems(5) by (auto simp: agent_day_def r0)
  then have c: "create_remittance env ?row db = Inr (?r, db\<lparr>remittances := remittances db @ [?r], seq := seq db + 1\<rparr>)"
    using Cons.prems(3) by (intro create_fresh_remittance [OF ag(2), unfolded Let_def]) auto
  define db1 where "db1 = db\<lparr>remittances := remittances db @ [?r], seq := seq db + 1, auditLog := auditLog db @
    [created_audit ag (length (filter (\<lambda>c. pc_paidByAgentId c = Some a) paid)) ?r]\<rparr>"
  have s: "sweep_agents env day sold paid (\<lambda>_ d. d) (a # as) db = sweep_agents env day sold paid (\<lambda>_ d. d) as db1"
    by (simp add: sweep_agent_def ag(1) c db1_def)
  have fa: "find_agent db1 = find_agent db" by (simp add: db1_def find_agent_def fun_eq_iff)
  have "\<exists>new l s. sweep_agents env day sold paid (\<lambda>_ d. d) as db1 =
      db1\<lparr>remittances := remittances db1 @ new, auditLog := l, seq := s\<rparr> \<and>
    map rm_agentId new = as \<and> (\<forall>r\<in>set new. swept_row env db1 day sold paid r)"
  proof (rule Cons.IH)
    show "distinct as" "inj (e_uuid env)" using Cons.prems(1,2) by auto
    show "\<forall>n\<ge>seq db1. e_uuid env n \<notin> rm_remittanceId ` set (remittances db1)"
      using Cons.prems(2,3) by (auto simp: db1_def inj_eq)
    show "\<forall>a\<in>set as. \<exists>ag. find_agent db1 a = Some ag \<and> remittance_fits (new_remittance ag day (day_tally_of sold a) (prizes_of paid a))"
      using Cons.prems(4) by (simp add: fa)
    show "\<forall>r\<in>set (remittances db1). rm_periodDate r = bd_periodDate day \<longrightarrow> rm_agentId r \<notin> set as"
      using Cons.prems(1,5) by (auto simp: db1_def r0)
  qed
  then obtain new l sq where n: "sweep_agents env day sold paid (\<lambda>_ d. d) as db1 =
      db1\<lparr>remittances := remittances db1 @ new, auditLog := l, seq := sq\<rparr>" "map rm_agentId new = as"
    "\<forall>r\<in>set new. swept_row env db1 day sold paid r" by blast
  have "swept_row env db day sold paid ?r"
    unfolding swept_row_def by (rule exI [of _ ag], rule exI [of _ "e_uuid env (seq db)"]) (simp add: r0 ag(1))
  moreover have "\<forall>r\<in>set new. swept_row env db day sold paid r" using n(3) by (simp add: swept_row_def fa)
  ultimately show ?case
    by (intro exI [of _ "?r # new"] exI [of _ l] exI [of _ sq]) (unfold s n(1), simp add: n(2) db1_def r0)
qed

lemma swept_agents_of: "distinct (swept_agents sold paid)"
  "(\<And>t. t \<in> set sold \<Longrightarrow> t_agentId t \<noteq> None) \<Longrightarrow> the ` t_agentId ` set sold \<subseteq> set (swept_agents sold paid)"
  "(\<And>c. c \<in> set paid \<Longrightarrow> pc_paidByAgentId c \<noteq> None) \<Longrightarrow> the ` pc_paidByAgentId ` set paid \<subseteq> set (swept_agents sold paid)"
  by (force simp: swept_agents_def map_filter_def)+

text \<open>A sum over the rows of a list of owners, each row counted with its owner.\<close>

lemma sum_over_owners:
  fixes amt :: "'a \<Rightarrow> int"
  assumes "distinct as" "\<And>x. x \<in> set xs \<Longrightarrow> owner x \<noteq> None" "the ` owner ` set xs \<subseteq> set as"
  shows "sum_by (\<lambda>a. sum_by amt (filter (\<lambda>x. owner x = Some a) xs)) as = sum_by amt xs"
proof -
  have "filter (\<lambda>x. owner x = Some a) xs = filter (\<lambda>x. the (owner x) = a) xs" for a
    using assms(2) by (intro filter_cong) auto
  then have "sum_by (\<lambda>a. sum_by amt (filter (\<lambda>x. owner x = Some a) xs)) as =
      (\<Sum>a\<in>set as. sum_by amt (filter (\<lambda>x. the (owner x) = a) xs))"
    using assms(1) by (simp add: sum_list_distinct_conv_sum_set)
  also have "\<dots> = sum_by amt xs"
    using sum_by_partition [of "\<lambda>_ x. x" "set as" "\<lambda>x. the (owner x)" xs amt] assms(3) by (simp add: image_image)
  finally show ?thesis .
qed

lemma swept_row_amounts:
  assumes "swept_row env db day sold paid r"
  shows "rm_grossSalesNgn r = sum_by t_faceValueNgn (filter (\<lambda>t. t_agentId t = Some (rm_agentId r)) sold)"
    "rm_winningsPaidOutNgn r = sum_by pc_netPrizeValueNgn (filter (\<lambda>c. pc_paidByAgentId c = Some (rm_agentId r)) paid)"
    "int (rm_ticketCount r) = sum_by (\<lambda>_. 1) (filter (\<lambda>t. t_agentId t = Some (rm_agentId r)) sold)"
    "rm_amountDueNgn r = rm_grossSalesNgn r - rm_commissionNgn r - rm_winningsPaidOutNgn r"
    "rm_periodDate r = bd_periodDate day" "rm_status r = RS_PENDING"
    "\<exists>ag. find_agent db (rm_agentId r) = Some ag \<and> rm_commissionNgn r = sale_commission (rm_grossSalesNgn r) (ag_commissionRate ag)"
proof -
  obtain ag i where r: "find_agent db (rm_agentId r) = Some ag"
    "r = (new_remittance ag day (day_tally_of sold (rm_agentId r)) (prizes_of paid (rm_agentId r)))
       \<lparr>rm_remittanceId := i, rm_createdAt := e_now env\<rparr>"
    using assms by (auto simp: swept_row_def)
  let ?mine = "filter (\<lambda>t. t_agentId t = Some (rm_agentId r)) sold"
  let ?y = "day_tally_of sold (rm_agentId r)"
  have split: "sum_by f xs = sum_by f (filter (\<lambda>t. t_ticketType t \<noteq> JACKPOT) xs) + sum_by f (filter (\<lambda>t. t_ticketType t = JACKPOT) xs)"
    for f and xs :: "ticket list" by (induction xs) auto
  have t: "dy_standardSalesNgn ?y + dy_jackpotSalesNgn ?y = sum_by t_faceValueNgn ?mine"
    "int (dy_standardTickets ?y + dy_jackpotTickets ?y) = sum_by (\<lambda>_. 1) ?mine"
    using split [of t_faceValueNgn ?mine] split [of "\<lambda>_. 1" ?mine]
    by (simp_all add: day_tally_of_def Let_def sum_list_triv)
  have g: "rm_grossSalesNgn r = dy_standardSalesNgn ?y + dy_jackpotSalesNgn ?y"
    by (subst r(2)) (simp add: new_remittance_def Let_def)
  show "rm_grossSalesNgn r = sum_by t_faceValueNgn ?mine" using g t(1) by simp
  show "rm_winningsPaidOutNgn r = sum_by pc_netPrizeValueNgn (filter (\<lambda>c. pc_paidByAgentId c = Some (rm_agentId r)) paid)"
    by (subst r(2)) (simp add: new_remittance_def Let_def prizes_of_def)
  show "int (rm_ticketCount r) = sum_by (\<lambda>_. 1) ?mine" using t(2) by (subst r(2)) (simp add: new_remittance_def Let_def)
  have c: "rm_commissionNgn r = sale_commission (dy_standardSalesNgn ?y + dy_jackpotSalesNgn ?y) (ag_commissionRate ag)"
    "rm_winningsPaidOutNgn r = prizes_of paid (rm_agentId r)"
    "rm_amountDueNgn r = dy_standardSalesNgn ?y + dy_jackpotSalesNgn ?y -
       sale_commission (dy_standardSalesNgn ?y + dy_jackpotSalesNgn ?y) (ag_commissionRate ag) - prizes_of paid (rm_agentId r)"
    "rm_periodDate r = bd_periodDate day" "rm_status r = RS_PENDING"
    by (subst r(2), simp add: new_remittance_def Let_def)+
  show "rm_amountDueNgn r = rm_grossSalesNgn r - rm_commissionNgn r - rm_winningsPaidOutNgn r"
    "rm_periodDate r = bd_periodDate day" "rm_status r = RS_PENDING" using c g by simp_all
  show "\<exists>ag. find_agent db (rm_agentId r) = Some ag \<and> rm_commissionNgn r = sale_commission (rm_grossSalesNgn r) (ag_commissionRate ag)"
    using r(1) c(1) g by auto
qed

lemma sweep_agents_again:
  assumes "\<forall>a\<in>set as. \<exists>r\<in>set (remittances db). agent_day r = (a, bd_periodDate day)"
  shows "sweep_agents env day sold paid (\<lambda>_ d. d) as db = db"
  using assms
proof (induction as)
  case (Cons a as)
  have "snd (sweep_agent env day sold paid a db) = db"
  proof (cases "find_agent db a")
    case (Some ag)
    obtain r where r: "r \<in> set (remittances db)" "agent_day r = (a, bd_periodDate day)" using Cons.prems by auto
    have "\<exists>e. create_remittance env (new_remittance ag day (day_tally_of sold a) (prizes_of paid a)) db = Inl e"
      using r find_agent_id [OF Some]
      by (auto simp: create_remittance_def Let_def new_remittance_def list_ex_iff agent_day_def)
    then show ?thesis by (auto simp: sweep_agent_def Some)
  qed (simp add: sweep_agent_def)
  then have "sweep_agent env day sold paid a db = (fst (sweep_agent env day sold paid a db), db)"
    by (metis prod.collapse)
  then show ?case using Cons by (auto split: prod.splits sum.splits)
qed simp

lemma day_cong:
  assumes "tickets db' = tickets db" "payments db' = payments db" "claims db' = claims db" "entries db' = entries db"
    "accounts db' = accounts db"
  shows "sold_in_day db' day = sold_in_day db day" "paid_in_day db' day = paid_in_day db day"
  unfolding sold_in_day_def paid_in_day_def receivable_backed_def find_payment_def assms by (rule refl)+


definition ex_sale_day :: db where
  "ex_sale_day = empty_db\<lparr>
     accounts := [(ex_account ''RC'' ASSET)\<lparr>la_purpose := AGENT_RECEIVABLE\<rparr>],
     entries := [\<lparr>le_ledgerTxnId = ''J'', le_accountId = ''RC'', le_lineNo = 1, le_side = DEBIT, le_amountNgn = 100, le_memo = None\<rparr>],
     agents := [ex_agent],
     payments := [ex_payment\<lparr>pt_gateway := AGENT_CASH, pt_confirmedAt := Some (e_now ex_env - MS_PER_DAY),
       pt_collectionLedgerTxnId := Some ''J''\<rparr>],
     tickets := [(ex_ticket ''1'')\<lparr>t_agentId := Some ''a'', t_paymentTxnId := Some ''p1''\<rparr>,
       (ex_ticket ''2'')\<lparr>t_agentId := Some ''a'', t_paymentTxnId := Some ''p1'', t_ticketType := JACKPOT, t_faceValueNgn := 200\<rparr>]\<rparr>"


section \<open>Settlement\<close>

text \<open>C7. A remittance is settled at most once, whatever the order in which the sweep, the recovery, the
  agent and finance act, on stale reads too: of the bank settlement and the wallet settlement at most one
  is ever posted, for exactly the amount due, which is positive, and the remittance names it and is then
  received, or confirmed again by an agent who read it before; a received remittance with an amount due has
  been settled; the wallet credit is posted for exactly what SureWina owes, only when the
  amount is negative; the commission is posted once, for exactly its amount; and an agent has one
  remittance a day.\<close>

theorem remittance_settled_once:
  assumes "remittance_step\<^sup>*\<^sup>* empty_db db" "r \<in> set (remittances db)" "i = rm_remittanceId r"
  shows "(find_txn_by_key db (bank_key i) = None \<or> find_txn_by_key db (wallet_key i) = None) \<and>
    (\<forall>t. find_txn_by_key db (bank_key i) = Some t \<or> find_txn_by_key db (wallet_key i) = Some t \<longrightarrow>
       rm_settlementLedgerTxnId r = Some (lt_ledgerTxnId t) \<and> lt_totalAmountNgn t = rm_amountDueNgn r \<and>
       0 < rm_amountDueNgn r \<and> rm_status r \<in> {RS_RECEIVED, RS_AGENT_CONFIRMED}) \<and>
    (rm_status r = RS_RECEIVED \<and> 0 < rm_amountDueNgn r \<longrightarrow>
       find_txn_by_key db (bank_key i) \<noteq> None \<or> find_txn_by_key db (wallet_key i) \<noteq> None) \<and>
    (\<forall>t. find_txn_by_key db (credit_key i) = Some t \<longrightarrow>
       rm_walletCreditLedgerTxnId r = Some (lt_ledgerTxnId t) \<and> lt_totalAmountNgn t = - rm_amountDueNgn r \<and> rm_amountDueNgn r < 0) \<and>
    (rm_status r = RS_CREDITED_TO_WALLET \<longrightarrow> find_txn_by_key db (credit_key i) \<noteq> None) \<and>
    (\<forall>t. find_txn_by_key db (commission_key i) = Some t \<longrightarrow>
       rm_commissionLedgerTxnId r = Some (lt_ledgerTxnId t) \<and> lt_totalAmountNgn t = rm_commissionNgn r) \<and>
    (\<forall>r'\<in>set (remittances db). rm_agentId r' = rm_agentId r \<and> rm_periodDate r' = rm_periodDate r \<longrightarrow> r' = r)"
proof -
  have ok: "remit_ok db" by (rule reachable_remit_ok [OF assms(1)])
  have row: "remit_row db r" using ok assms(2) by (simp add: remit_ok_def)
  have one: "r' = r" if "r' \<in> set (remittances db)" "agent_day r' = agent_day r" for r'
    using ok that assms(2) by (auto simp: remit_ok_def dest: distinct_key_eq)
  have settled: "settled_ok db i (rm_amountDueNgn r) (rm_settlementLedgerTxnId r)"
    and credit: "link_ok db (credit_key i) (- rm_amountDueNgn r) (rm_walletCreditLedgerTxnId r)"
    and commission: "link_ok db (commission_key i) (rm_commissionNgn r) (rm_commissionLedgerTxnId r)"
    using row by (simp_all add: remit_row_def assms(3))
  have once: "find_txn_by_key db (bank_key i) = None \<or> find_txn_by_key db (wallet_key i) = None"
    using settled by (auto simp: settled_ok_def)
  have found: "rm_settlementLedgerTxnId r = Some (lt_ledgerTxnId t) \<and> lt_totalAmountNgn t = rm_amountDueNgn r"
    if "find_txn_by_key db (bank_key i) = Some t \<or> find_txn_by_key db (wallet_key i) = Some t" for t
    using settled that by (auto simp: settled_ok_def dest: link_ok_found)
  have received: "find_txn_by_key db (bank_key i) \<noteq> None \<or> find_txn_by_key db (wallet_key i) \<noteq> None"
    if "rm_settlementLedgerTxnId r \<noteq> None"
    using settled that by (auto simp: settled_ok_def link_ok_def)
  have credited: "find_txn_by_key db (credit_key i) \<noteq> None" if "rm_walletCreditLedgerTxnId r \<noteq> None"
    using credit that by (auto dest: link_ok_some)
  show ?thesis
    using row once found received credited link_ok_found [OF credit] link_ok_found [OF commission] one
    by (auto simp: remit_row_def agent_day_def)
qed

text \<open>From nothing to a settled remittance: two accounts are opened, the day is swept, the agent confirms, finance books.\<close>

definition result_of :: "('a \<times> db) res \<Rightarrow> db" where
  "result_of m = (case m of Inl _ \<Rightarrow> empty_db | Inr (_, d) \<Rightarrow> d)"

lemma result_of_Inr: "\<not> isl m \<Longrightarrow> \<exists>x. m = Inr (x, result_of m)"
  by (cases m) (auto simp: result_of_def)

definition ex_chart :: db where
  "ex_chart = (let d = result_of (ensureAccount ex_env (system_account BANK_CASH_CODE ''Bank'' ASSET BANK_CASH) empty_db empty_db) in
     result_of (ensureAccount ex_env (system_account AGENT_COMMISSION_EXPENSE_CODE ''Commission'' EXPENSE AGENT_COMMISSION_EXPENSE) d d))"

definition ex_tally :: day_tally where
  "ex_tally = \<lparr>dy_standardTickets = 3, dy_jackpotTickets = 0, dy_standardSalesNgn = 300, dy_jackpotSalesNgn = 0\<rparr>"

definition ex_swept :: "(remittance \<times> db) res" where
  "ex_swept = create_remittance ex_env (new_remittance ex_agent (businessDayOf 0 1140) ex_tally 0) ex_chart"

definition ex_confirmed :: "(remittance \<times> db) res" where
  "ex_confirmed = update_remittance (\<lambda>x. x\<lparr>rm_status := RS_AGENT_CONFIRMED, rm_bankTransferRef := Some ''T1'',
     rm_agentConfirmedAt := Some 0\<rparr>) (e_uuid ex_env 2) (result_of ex_swept)"

definition ex_booked :: "(remittance \<times> db) res" where
  "ex_booked = settleBankRemittance ex_env (e_uuid ex_env 2) (result_of ex_confirmed)"

lemma ex_run: "remittance_step\<^sup>*\<^sup>* empty_db (result_of ex_booked)"
proof -
  have c: "\<not> isl (ensureAccount ex_env (system_account BANK_CASH_CODE ''Bank'' ASSET BANK_CASH) empty_db empty_db)"
    "\<not> isl ex_swept" "\<not> isl ex_confirmed" "\<not> isl ex_booked" by code_simp+
  let ?d = "result_of (ensureAccount ex_env (system_account BANK_CASH_CODE ''Bank'' ASSET BANK_CASH) empty_db empty_db)"
  have c2: "\<not> isl (ensureAccount ex_env (system_account AGENT_COMMISSION_EXPENSE_CODE ''Commission'' EXPENSE AGENT_COMMISSION_EXPENSE) ?d ?d)"
    by code_simp
  have "ledger_step empty_db ?d" using result_of_Inr [OF c(1)] by (blast intro: step_ensure)
  moreover have "ledger_step ?d ex_chart" using result_of_Inr [OF c2] unfolding ex_chart_def Let_def by (blast intro: step_ensure)
  ultimately have "ledger_step\<^sup>*\<^sup>* empty_db ex_chart" by auto
  moreover have e: "remittances empty_db = []" "remittances ex_chart = []" "txns ex_chart = []" by code_simp+
  ultimately have 1: "remittance_step empty_db ex_chart" by (intro rs_other) simp_all
  obtain x where "ex_swept = Inr (x, result_of ex_swept)" using result_of_Inr [OF c(2)] by blast
  then have x: "create_remittance ex_env (new_remittance ex_agent (businessDayOf 0 1140) ex_tally 0) ex_chart = Inr (x, result_of ex_swept)"
    unfolding ex_swept_def [symmetric] .
  have 2: "remittance_step ex_chart (result_of ex_swept)"
    by (rule rs_create [OF x ex_uuid_ok]) (simp add: find_txn_by_key_def e)
  have 3: "remittance_step (result_of ex_swept) (result_of ex_confirmed)"
    using result_of_Inr [OF c(3)] rs_confirm unfolding ex_confirmed_def by blast
  have 4: "remittance_step (result_of ex_confirmed) (result_of ex_booked)"
    using result_of_Inr [OF c(4)] rs_bank unfolding ex_booked_def by blast
  show ?thesis using 1 2 3 4 by (meson converse_rtranclp_into_rtranclp rtranclp.rtrancl_refl)
qed

theorem remittance_settled_once_witness:
  "\<exists>r t. remittances (result_of ex_booked) = [r] \<and> rm_amountDueNgn r = 270 \<and>
     find_txn_by_key (result_of ex_booked) (bank_key (rm_remittanceId r)) = Some t \<and> lt_totalAmountNgn t = 270 \<and>
     find_txn_by_key (result_of ex_booked) (wallet_key (rm_remittanceId r)) = None"
proof -
  have "case ex_booked of Inl _ \<Rightarrow> False | Inr (r, d) \<Rightarrow> length (remittances d) = 1 \<and> rm_amountDueNgn (hd (remittances d)) = 270 \<and>
    rm_status (hd (remittances d)) = RS_RECEIVED \<and> find_txn_by_key d (wallet_key (rm_remittanceId (hd (remittances d)))) = None" by code_simp
  then obtain a d where d: "ex_booked = Inr (a, d)" "length (remittances d) = 1" "rm_amountDueNgn (hd (remittances d)) = 270"
    "rm_status (hd (remittances d)) = RS_RECEIVED" "find_txn_by_key d (wallet_key (rm_remittanceId (hd (remittances d)))) = None"
    by (auto split: sum.splits prod.splits)
  then obtain r where "remittances d = [r]" by (cases "remittances d") auto
  moreover have "result_of ex_booked = d" by (simp add: d(1) result_of_def)
  ultimately have r: "remittances (result_of ex_booked) = [r]" "rm_amountDueNgn r = 270" "rm_status r = RS_RECEIVED"
    "find_txn_by_key (result_of ex_booked) (wallet_key (rm_remittanceId r)) = None" using d by simp_all
  then show ?thesis using remittance_settled_once [OF ex_run _ refl, of r] by auto
qed

section \<open>The deadline\<close>

lemma update_where_no_hit: "\<not> (\<exists>x\<in>set xs. P x) \<Longrightarrow> update_where P f xs = xs"
  by (auto simp: update_where_def intro: map_idI)

definition overdue :: "remittance \<Rightarrow> bool" where
  "overdue r \<longleftrightarrow> rm_status r = RS_PENDING \<and> 0 < rm_amountDueNgn r"

lemma markOverdue_rows:
  assumes "distinct (map rm_remittanceId (remittances db))" "length (filter overdue (remittances db)) \<le> DEADLINE_BATCH"
  shows "remittances (markOverdue db) = map (\<lambda>r. if overdue r then r\<lparr>rm_status := RS_LATE\<rparr> else r) (remittances db)"
    "agents (markOverdue db) = agents db"
proof -
  have "remittances (mark_late x s) = update_where (\<lambda>r. rm_remittanceId r = rm_remittanceId x \<and> rm_status r = RS_PENDING)
      (\<lambda>r. r\<lparr>rm_status := RS_LATE\<rparr>) (remittances s)" for x s
    using update_where_no_hit [of "remittances s" "\<lambda>r. rm_remittanceId r = rm_remittanceId x \<and> rm_status r = RS_PENDING"]
    by (auto simp: mark_late_def Let_def)
  moreover have "filter (\<lambda>r. rm_status r = RS_PENDING \<and> rm_amountDueNgn r > 0) (remittances db) = filter overdue (remittances db)"
    by (simp add: overdue_def [abs_def])
  ultimately have "remittances (markOverdue db) = fold (\<lambda>x. update_where (\<lambda>r. rm_remittanceId r = rm_remittanceId x \<and> rm_status r = RS_PENDING)
      (\<lambda>r. r\<lparr>rm_status := RS_LATE\<rparr>)) (filter overdue (remittances db)) (remittances db)"
    using assms(2) by (simp add: markOverdue_def fold_field [of remittances])
  also have "\<dots> = map (\<lambda>r. if overdue r \<and> rm_status r = RS_PENDING then r\<lparr>rm_status := RS_LATE\<rparr> else r) (remittances db)"
    by (rule fold_rewrite_rows [OF assms(1)]) simp
  also have "\<dots> = map (\<lambda>r. if overdue r then r\<lparr>rm_status := RS_LATE\<rparr> else r) (remittances db)"
    by (auto simp: overdue_def)
  finally show "remittances (markOverdue db) = \<dots>" .
  have "agents (mark_late x s) = agents s" for x s by (simp add: mark_late_def Let_def)
  then have "agents (fold mark_late xs s) = agents s" for xs s by (induction xs arbitrary: s) simp_all
  then show "agents (markOverdue db) = agents db" by (simp add: markOverdue_def)
qed

lemma retire_rows:
  assumes "distinct (map ag_agentId (agents db))" "length (filter debt_suspended (agents db)) \<le> DEADLINE_BATCH"
  shows "agents (retireDebtSuspensions db) = map (\<lambda>a. if debt_suspended a
      then a\<lparr>ag_status := AGS_ACTIVE, ag_suspensionReason := None, ag_suspendedAt := None\<rparr> else a) (agents db)"
    "remittances (retireDebtSuspensions db) = remittances db"
proof -
  let ?g = "\<lambda>a. a\<lparr>ag_status := AGS_ACTIVE, ag_suspensionReason := None, ag_suspendedAt := None\<rparr>"
  have "agents (retire_row x s) = update_where (\<lambda>a. ag_agentId a = ag_agentId (fst x) \<and> debt_suspended a) ?g (agents s)" for x s
    using update_where_no_hit [of "agents s" "\<lambda>a. ag_agentId a = ag_agentId (fst x) \<and> debt_suspended a"]
    by (cases x) (auto simp: retire_row_def Let_def list_ex_iff)
  then have "agents (fold retire_row (map (\<lambda>a. (a, f a)) xs) s) =
      fold (\<lambda>x. update_where (\<lambda>a. ag_agentId a = ag_agentId x \<and> debt_suspended a) ?g) xs (agents s)" for xs f s
    by (induction xs arbitrary: s) simp_all
  then have "agents (retireDebtSuspensions db) = fold (\<lambda>x. update_where (\<lambda>a. ag_agentId a = ag_agentId x \<and> debt_suspended a) ?g)
      (filter debt_suspended (agents db)) (agents db)"
    using assms(2) by (simp add: retireDebtSuspensions_def)
  also have "\<dots> = map (\<lambda>a. if debt_suspended a \<and> debt_suspended a then ?g a else a) (agents db)"
    by (rule fold_rewrite_rows [OF assms(1)]) simp
  finally show "agents (retireDebtSuspensions db) = map (\<lambda>a. if debt_suspended a then ?g a else a) (agents db)" by simp
  have "remittances (retire_row x s) = remittances s" for x s by (cases x) (simp add: retire_row_def Let_def)
  then have "remittances (fold retire_row xs s) = remittances s" for xs s by (induction xs arbitrary: s) simp_all
  then show "remittances (retireDebtSuspensions db) = remittances db" by (simp add: retireDebtSuspensions_def)
qed

definition to_warn :: "remittance \<Rightarrow> bool" where
  "to_warn r \<longleftrightarrow> overdue r \<and> rm_deadlineWarnedAt r = None"

definition warning_of :: "db \<Rightarrow> remittance \<Rightarrow> due_warning" where
  "warning_of db r =
     \<lparr>dw_phoneNumber = (case find_agent db (rm_agentId r) of None \<Rightarrow> [] | Some a \<Rightarrow> ag_phoneNumber a),
      dw_amountNgn = rm_amountDueNgn r, dw_periodDate = rm_periodDate r, dw_reference = ''rem-warn-'' @ rm_remittanceId r\<rparr>"

lemma warn_sent:
  assumes "distinct (map rm_remittanceId xs)"
    and "\<forall>x\<in>set xs. \<exists>r\<in>set (remittances db). rm_remittanceId r = rm_remittanceId x \<and> rm_deadlineWarnedAt r = None"
  shows "snd (fold (warn_row env) xs (db, sent)) = sent @ map (warning_of db) xs"
  using assms
proof (induction xs arbitrary: db sent)
  case (Cons x xs)
  let ?P = "\<lambda>r. rm_remittanceId r = rm_remittanceId x \<and> rm_deadlineWarnedAt r = None"
  define db' where "db' = db\<lparr>remittances := update_where ?P (\<lambda>r. r\<lparr>rm_deadlineWarnedAt := Some (e_now env)\<rparr>) (remittances db)\<rparr>"
  have "\<exists>r\<in>set (remittances db). ?P r" using Cons.prems(2) by simp
  then have w: "warn_row env x (db, sent) = (db', sent @ [warning_of db x])"
    by (simp add: warn_row_def Let_def list_ex_iff warning_of_def db'_def)
  have "\<forall>y\<in>set xs. \<exists>r\<in>set (remittances db'). rm_remittanceId r = rm_remittanceId y \<and> rm_deadlineWarnedAt r = None"
  proof
    fix y assume y: "y \<in> set xs"
    then obtain r where r: "r \<in> set (remittances db)" "rm_remittanceId r = rm_remittanceId y" "rm_deadlineWarnedAt r = None"
      using Cons.prems(2) by auto
    have "rm_remittanceId y \<noteq> rm_remittanceId x" using Cons.prems(1) y by (auto simp: image_iff)
    then have "r \<in> set (remittances db')" using r by (force simp: db'_def set_update_where)
    then show "\<exists>r\<in>set (remittances db'). rm_remittanceId r = rm_remittanceId y \<and> rm_deadlineWarnedAt r = None" using r by blast
  qed
  then have "snd (fold (warn_row env) xs (db', sent @ [warning_of db x])) = (sent @ [warning_of db x]) @ map (warning_of db') xs"
    using Cons.prems(1) by (intro Cons.IH) simp_all
  moreover have "warning_of db' = warning_of db" by (simp add: warning_of_def db'_def find_agent_def fun_eq_iff)
  ultimately show ?case by (simp add: w)
qed simp

lemma warn_rows:
  assumes "distinct (map rm_remittanceId (remittances db))" "length (filter to_warn (remittances db)) \<le> DEADLINE_BATCH"
  shows "remittances (fst (warnDueToday env db)) =
      map (\<lambda>r. if to_warn r then r\<lparr>rm_deadlineWarnedAt := Some (e_now env)\<rparr> else r) (remittances db)"
    "snd (warnDueToday env db) = map (warning_of db) (filter to_warn (remittances db))"
    "agents (fst (warnDueToday env db)) = agents db"
proof -
  let ?g = "\<lambda>r. r\<lparr>rm_deadlineWarnedAt := Some (e_now env)\<rparr>"
  have f: "take DEADLINE_BATCH (filter (\<lambda>r. rm_status r = RS_PENDING \<and> rm_amountDueNgn r > 0 \<and>
       rm_deadlineWarnedAt r = None) (remittances db)) = filter to_warn (remittances db)"
    using assms(2) by (simp add: to_warn_def [abs_def] overdue_def)
  have "remittances (fst (warn_row env x s)) = update_where (\<lambda>r. rm_remittanceId r = rm_remittanceId x \<and> rm_deadlineWarnedAt r = None)
      ?g (remittances (fst s))" for x s
    using update_where_no_hit [of "remittances (fst s)" "\<lambda>r. rm_remittanceId r = rm_remittanceId x \<and> rm_deadlineWarnedAt r = None"]
    by (cases s) (auto simp: warn_row_def Let_def list_ex_iff)
  then have "remittances (fst (warnDueToday env db)) = fold (\<lambda>x. update_where (\<lambda>r. rm_remittanceId r = rm_remittanceId x \<and>
      rm_deadlineWarnedAt r = None) ?g) (filter to_warn (remittances db)) (remittances db)"
    using fold_field [of "\<lambda>s. remittances (fst s)" "warn_row env"] by (simp add: warnDueToday_def f)
  also have "\<dots> = map (\<lambda>r. if to_warn r \<and> rm_deadlineWarnedAt r = None then ?g r else r) (remittances db)"
    by (rule fold_rewrite_rows [OF assms(1)]) simp
  also have "\<dots> = map (\<lambda>r. if to_warn r then ?g r else r) (remittances db)" by (auto simp: to_warn_def)
  finally show "remittances (fst (warnDueToday env db)) = \<dots>" .
  have "distinct (map rm_remittanceId (filter to_warn (remittances db)))" using assms(1) by (simp add: distinct_map_filter)
  then show "snd (warnDueToday env db) = map (warning_of db) (filter to_warn (remittances db))"
    unfolding warnDueToday_def f by (subst warn_sent) (auto simp: to_warn_def)
  have "agents (fst (warn_row env x s)) = agents (fst s)" for x s by (cases s) (simp add: warn_row_def Let_def)
  then have "agents (fst (fold (warn_row env) xs s)) = agents (fst s)" for xs s by (induction xs arbitrary: s) simp_all
  then show "agents (fst (warnDueToday env db)) = agents db" by (simp add: warnDueToday_def)
qed


definition ex_owed :: remittance where
  "ex_owed = (new_remittance ex_agent (businessDayOf 0 1140) ex_tally 0)\<lparr>rm_remittanceId := ''r1''\<rparr>"


end
