(* ===== verification/Payout_Account.thy ===== *)
theory Payout_Account
  imports Schema Node_Buffer Agent_Accounting
begin

text \<open>
  Where the money of a cash prize may go: the encryption of account numbers
  (\<open>apps/api/src/payout-accounts/payout-account-cipher.service.ts\<close>), the evidence of ownership
  (\<open>claims/kyc/kyc-identity-evidence.service.ts\<close>) and the one destination a payout may use
  (\<open>payout-accounts/locked-payout-destination.service.ts\<close>).
\<close>

text \<open>
  The environment with two keys of the configuration and Node's \<open>crypto\<close>: HMAC-SHA-256, AES-256-GCM
  with additional data (key, nonce, data, text to ciphertext and tag; back, unless the tag is
  wrong), the nonce \<open>randomBytes(12)\<close>.
\<close>

record payout_env = env +
  po_fingerprintKey :: "string option"
  po_encryptionKey :: "string option"
  po_hmac :: "bytes \<Rightarrow> bytes \<Rightarrow> bytes"
  po_gcmEncrypt :: "bytes \<Rightarrow> bytes \<Rightarrow> bytes \<Rightarrow> bytes \<Rightarrow> bytes \<times> bytes"
  po_gcmDecrypt :: "bytes \<Rightarrow> bytes \<Rightarrow> bytes \<Rightarrow> bytes \<Rightarrow> bytes \<Rightarrow> bytes option"
  po_iv :: bytes

section \<open>Patterns\<close>

definition is_digit :: "char \<Rightarrow> bool" where
  "is_digit c = (let n = (of_char c :: nat) in 48 \<le> n \<and> n \<le> 57)"

definition is_hex :: "char \<Rightarrow> bool" where
  "is_hex c = (let n = (of_char c :: nat) in (48 \<le> n \<and> n \<le> 57) \<or> (97 \<le> n \<and> n \<le> 102) \<or> (65 \<le> n \<and> n \<le> 70))"

definition is_b64_char :: "char \<Rightarrow> bool" where
  "is_b64_char c = (let n = (of_char c :: nat) in (65 \<le> n \<and> n \<le> 90) \<or> (97 \<le> n \<and> n \<le> 122) \<or> (48 \<le> n \<and> n \<le> 57)
     \<or> n = 43 \<or> n = 47)"

text \<open>\<open>^\d{10}$\<close>, \<open>^\d{3,6}$\<close>, \<open>^[a-f0-9]{64}$\<close> without case, \<open>^[0-9a-f]{8}-[0-9a-f-]{27,}$\<close> without case.\<close>

definition ten_digits :: "string \<Rightarrow> bool" where
  "ten_digits s \<longleftrightarrow> length s = 10 \<and> list_all is_digit s"

definition bank_code_form :: "string \<Rightarrow> bool" where
  "bank_code_form s \<longleftrightarrow> 3 \<le> length s \<and> length s \<le> 6 \<and> list_all is_digit s"

definition fingerprint_form :: "string \<Rightarrow> bool" where
  "fingerprint_form s \<longleftrightarrow> length s = 64 \<and> list_all is_hex s"

definition user_id_form :: "string \<Rightarrow> bool" where
  "user_id_form s \<longleftrightarrow> length s \<ge> 36 \<and> list_all is_hex (take 8 s) \<and> s ! 8 = CHR ''-'' \<and>
     list_all (\<lambda>c. is_hex c \<or> c = CHR ''-'') (drop 9 s)"

definition last4 :: "string \<Rightarrow> string" where
  "last4 s = drop (length s - 4) s"

text \<open>A nullable string tested for truth: null and the empty string are falsy.\<close>

definition filled :: "string option \<Rightarrow> bool" where
  "filled s = (case s of None \<Rightarrow> False | Some t \<Rightarrow> t \<noteq> [])"

text \<open>\<open>replace(/\s+/g, ' ')\<close>; \<open>normalizeName\<close>.\<close>

fun collapse_spaces :: "string \<Rightarrow> string" where
  "collapse_spaces [] = []"
| "collapse_spaces [c] = (if is_js_space c then '' '' else [c])"
| "collapse_spaces (c # d # s) =
     (if is_js_space c then (if is_js_space d then collapse_spaces (d # s) else CHR '' '' # collapse_spaces (d # s))
      else c # collapse_spaces (d # s))"

definition normalizeName :: "string \<Rightarrow> string" where
  "normalizeName value = js_upper (collapse_spaces (js_trim value))"

section \<open>Encryption of account numbers\<close>

definition encryption_key :: "payout_env \<Rightarrow> bytes res" where
  "encryption_key G =
     (let encoded = (case po_encryptionKey G of None \<Rightarrow> [] | Some s \<Rightarrow> js_trim s) in
      if length encoded \<noteq> 44 \<or> \<not> list_all is_b64_char (take 43 encoded) \<or> encoded ! 43 \<noteq> CHR ''=''
      then Inl (ServiceUnavailableException ''Payout account encryption is not configured'')
      else if length (unbase64 encoded) \<noteq> 32 \<or> base64 (unbase64 encoded) \<noteq> encoded
      then Inl (ServiceUnavailableException ''Invalid payout account encryption configuration'')
      else Inr (unbase64 encoded))"

definition cipher_context :: "string \<Rightarrow> string \<Rightarrow> bytes res" where
  "cipher_context userId bankCode =
     (if \<not> user_id_form userId \<or> \<not> bank_code_form bankCode
      then Inl (BadRequestException ''Invalid payout account context'')
      else Inr (utf8 (''surewina:payout-account:v1:'' @ userId @ '':'' @ bankCode)))"

definition encrypt :: "payout_env \<Rightarrow> string \<Rightarrow> string \<Rightarrow> string \<Rightarrow> string res" where
  "encrypt G userId bankCode accountNumber =
     (if \<not> ten_digits accountNumber
      then Inl (BadRequestException ''Bank account number must contain exactly 10 digits'')
      else
        bind_res (cipher_context userId bankCode) (\<lambda>aad.
        bind_res (encryption_key G) (\<lambda>key.
        case po_gcmEncrypt G key (po_iv G) aad (utf8 accountNumber) of (encrypted, tag) \<Rightarrow>
          Inr (join ''.'' [''v1'', base64url (po_iv G), base64url tag, base64url encrypted]))))"

text \<open>
  The decrypted bytes read as UTF-8 and tested against \<open>^\d{10}$\<close>: they pass exactly when they are
  ten ASCII digits.
\<close>

definition digits_of :: "bytes \<Rightarrow> string option" where
  "digits_of bs = (let s = map (\<lambda>b. char_of (unat b) :: char) bs in if ten_digits s then Some s else None)"

definition cipher_failed :: error where
  "cipher_failed = ConflictException ''Payout account encryption validation failed''"

definition decrypt :: "payout_env \<Rightarrow> string \<Rightarrow> string \<Rightarrow> string \<Rightarrow> string res" where
  "decrypt G userId bankCode envelope =
     bind_res (cipher_context userId bankCode) (\<lambda>aad.
     bind_res (encryption_key G) (\<lambda>key.
     case js_split (CHR ''.'') envelope of
       [v, p1, p2, p3] \<Rightarrow>
         (if v \<noteq> ''v1'' \<or> \<not> list_all (\<lambda>p. p \<noteq> [] \<and> list_all is_url_char p) [p1, p2, p3] then Inl cipher_failed
          else if length (unbase64 p1) \<noteq> 12 \<or> length (unbase64 p2) \<noteq> 16 \<or> length (unbase64 p3) \<noteq> 10
          then Inl cipher_failed
          else (case po_gcmDecrypt G key (unbase64 p1) aad (unbase64 p3) (unbase64 p2) of
              None \<Rightarrow> Inl cipher_failed
            | Some result \<Rightarrow> from_option cipher_failed (digits_of result)))
     | _ \<Rightarrow> Inl cipher_failed))"

section \<open>Evidence of ownership\<close>

text \<open>\<open>findFirst({ orderBy: { attemptNumber: 'desc' } })\<close>.\<close>

definition latest_by :: "('r \<Rightarrow> nat) \<Rightarrow> 'r list \<Rightarrow> 'r option" where
  "latest_by f rows = (case js_sort (\<lambda>a b. int (f b) - int (f a)) rows of [] \<Rightarrow> None | r # _ \<Rightarrow> Some r)"

definition latest_check :: "db \<Rightarrow> string \<Rightarrow> identity_check option" where
  "latest_check db claimId = latest_by ki_attemptNumber (filter (\<lambda>k. ki_claimId k = claimId) (identityChecks db))"

definition find_check :: "db \<Rightarrow> string \<Rightarrow> identity_check option" where
  "find_check db i = find (\<lambda>k. ki_checkId k = i) (identityChecks db)"

text \<open>What every use of a check asks of it.\<close>

definition check_verified :: "identity_check \<Rightarrow> bool" where
  "check_verified k \<longleftrightarrow> ki_provider k = ''PAYSTACK'' \<and> ki_status k = KIC_VERIFIED \<and> ki_verifiedAt k \<noteq> None \<and>
     filled (ki_paystackCustomerCode k)"

definition requireVerified :: "db \<Rightarrow> prize_claim \<Rightarrow> identity_check res" where
  "requireVerified db claim =
     bind_res (from_option (ConflictException ''Successful Paystack identity verification is required'')
       (latest_check db (pc_claimId claim))) (\<lambda>latest.
     if \<not> check_verified latest
     then Inl (ConflictException ''Successful Paystack identity verification is required'')
     else if pc_claimType claim = Some CT_CASH \<and>
       (\<not> filled (pc_kycBankAccountName claim) \<or> \<not> filled (pc_kycBankCode claim) \<or> \<not> filled (pc_kycBankAccountLast4 claim)
        \<or> Some (ki_bankCode latest) \<noteq> pc_kycBankCode claim \<or> Some (ki_bankAccountLast4 latest) \<noteq> pc_kycBankAccountLast4 claim)
     then Inl (ConflictException ''Verified bank account does not match this claim'')
     else Inr latest)"

definition fingerprintAccount :: "payout_env \<Rightarrow> string \<Rightarrow> string \<Rightarrow> string res" where
  "fingerprintAccount G bankCode accountNumber =
     (if \<not> bank_code_form bankCode \<or> \<not> ten_digits accountNumber
      then Inl (ConflictException ''Invalid bank destination'')
      else
        let key = (case po_fingerprintKey G of None \<Rightarrow> [] | Some s \<Rightarrow> js_trim s) in
        if length key < 32 then Inl (ServiceUnavailableException ''Bank ownership verification is not configured'')
        else Inr (hex (po_hmac G (utf8 key) (utf8 (''surewina:bank:v1:'' @ bankCode @ '':'' @ accountNumber)))))"

text \<open>\<open>timingSafeEqual\<close> throws when the lengths differ.\<close>

definition assertDestinationMatches :: "payout_env \<Rightarrow> identity_check \<Rightarrow> string \<Rightarrow> string \<Rightarrow> unit res" where
  "assertDestinationMatches G check bankCode accountNumber =
     bind_res (fingerprintAccount G bankCode accountNumber) (\<lambda>expected.
     let stored = ki_bankAccountFingerprint check in
     if \<not> fingerprint_form stored
     then Inl (ConflictException ''Payout destination does not match the verified account'')
     else if length (unhex expected) \<noteq> length (unhex stored)
     then Inl (JsError ''Input buffers must have the same byte length'')
     else if unhex expected \<noteq> unhex stored \<or> ki_bankCode check \<noteq> bankCode
       \<or> ki_bankAccountLast4 check \<noteq> last4 accountNumber
     then Inl (ConflictException ''Payout destination does not match the verified account'')
     else Inr ())"

section \<open>The locked destination\<close>

definition find_user_by_phone :: "db \<Rightarrow> string \<Rightarrow> user option" where
  "find_user_by_phone db p = find (\<lambda>u. u_phoneNumber u = p) (users db)"

text \<open>The customer of a claim: the account with its phone, unless the claim names another.\<close>

definition owns_claim :: "user \<Rightarrow> prize_claim \<Rightarrow> bool" where
  "owns_claim u claim \<longleftrightarrow> \<not> filled (pc_winnerUserId claim) \<or> pc_winnerUserId claim = Some (u_userId u)"

text \<open>The check a payout account was verified by, with its claim.\<close>

definition source_of :: "db \<Rightarrow> payout_account \<Rightarrow> (identity_check \<times> prize_claim) option" where
  "source_of db a = Option.bind (vp_identityCheckId a) (\<lambda>i. Option.bind (find_check db i) (\<lambda>k.
     map_option (\<lambda>c. (k, c)) (find_claim db (ki_claimId k))))"

record destination =
  ds_userId :: string
  ds_payoutAccountId :: string
  ds_bankCode :: string
  ds_accountNumber :: string
  ds_accountName :: string
  ds_accountLast4 :: string
  ds_fingerprint :: string
  ds_snapshotCiphertext :: string

definition source_ok :: "prize_claim \<Rightarrow> user \<Rightarrow> identity_check \<times> prize_claim \<Rightarrow> bool" where
  "source_ok claim u s = (case s of (k, c) \<Rightarrow>
     check_verified k \<and> pc_winnerPhone c = pc_winnerPhone claim \<and> owns_claim u c)"

definition account_matches :: "prize_claim \<Rightarrow> identity_check \<Rightarrow> payout_account \<Rightarrow> identity_check \<times> prize_claim \<Rightarrow> bool" where
  "account_matches claim current a s = (case s of (k, c) \<Rightarrow>
     filled (pc_kycBankCode claim) \<and> filled (pc_kycBankAccountName claim) \<and>
     pc_kycBankCode claim = Some (vp_bankCode a) \<and> pc_kycBankAccountLast4 claim = Some (vp_accountLast4 a) \<and>
     vp_accountFingerprint a = ki_bankAccountFingerprint current \<and>
     ki_bankCode k = vp_bankCode a \<and> ki_bankAccountLast4 k = vp_accountLast4 a \<and>
     ki_bankAccountFingerprint k = vp_accountFingerprint a \<and>
     map_option normalizeName (pc_kycBankAccountName claim) = Some (normalizeName (vp_resolvedAccountName a)) \<and>
     filled (pc_kycBankAccountName c) \<and>
     map_option normalizeName (pc_kycBankAccountName c) = Some (normalizeName (vp_resolvedAccountName a)))"

definition requireLocked :: "payout_env \<Rightarrow> db \<Rightarrow> prize_claim \<Rightarrow> destination res" where
  "requireLocked G db claim =
     (if pc_claimType claim \<noteq> Some CT_CASH then Inl (ConflictException ''Only cash claims can use bank payouts'')
      else
        bind_res (from_option (ConflictException ''Customer ownership mismatch'')
          (find_user_by_phone db (pc_winnerPhone claim))) (\<lambda>user.
        bind_res (require (owns_claim user claim) (ConflictException ''Customer ownership mismatch'')) (\<lambda>_.
        bind_res (requireVerified db claim) (\<lambda>currentCheck.
        bind_res (from_option (ConflictException ''A locked and verified payout account is required'')
          (find (\<lambda>a. vp_userId a = u_userId user \<and> vp_status a = VPA_LOCKED) (payoutAccounts db))) (\<lambda>account.
        bind_res (require (vp_verifiedAt account \<noteq> None \<and> vp_lockedAt account \<noteq> None \<and> vp_revokedAt account = None
            \<and> vp_currency account = ''NGN'')
          (ConflictException ''A locked and verified payout account is required'')) (\<lambda>_.
        bind_res (from_option (ConflictException ''Payout account verification evidence is invalid'')
          (source_of db account)) (\<lambda>source.
        bind_res (require (source_ok claim user source)
          (ConflictException ''Payout account verification evidence is invalid'')) (\<lambda>_.
        bind_res (require (account_matches claim currentCheck account source)
          (ConflictException ''Payout account does not match verified KYC evidence'')) (\<lambda>_.
        bind_res (decrypt G (u_userId user) (vp_bankCode account) (vp_accountCiphertext account)) (\<lambda>accountNumber.
        bind_res (require (vp_accountLast4 account = last4 accountNumber)
          (ConflictException ''Stored payout account metadata mismatch'')) (\<lambda>_.
        bind_res (assertDestinationMatches G currentCheck (vp_bankCode account) accountNumber) (\<lambda>_.
        bind_res (assertDestinationMatches G (fst source) (vp_bankCode account) accountNumber) (\<lambda>_.
        bind_res (encrypt G (u_userId user) (vp_bankCode account) accountNumber) (\<lambda>snapshot.
        Inr \<lparr>ds_userId = u_userId user, ds_payoutAccountId = vp_payoutAccountId account,
             ds_bankCode = vp_bankCode account, ds_accountNumber = accountNumber,
             ds_accountName = vp_resolvedAccountName account, ds_accountLast4 = vp_accountLast4 account,
             ds_fingerprint = vp_accountFingerprint account, ds_snapshotCiphertext = snapshot\<rparr>))))))))))))))"

end
