(* ===== verification/Claims.thy ===== *)
theory Claims
  imports Payout_Account JS_Number
begin

text \<open>
  Prize claims: what the winner and the compliance officer do
  (\<open>apps/api/src/claims/claims.service.ts\<close>), the certificate of withheld tax
  (\<open>wht-deduction.service.ts\<close>), the counter where prizes are handed over
  (\<open>redemption.service.ts\<close>) and the worker that forfeits abandoned claims
  (\<open>apps/worker/src/claims-sweep.service.ts\<close>). An operation that reads a claim and writes it in a
  later statement takes the function \<open>later\<close>, the work committed in between. The columns of the
  draw that views join in, and the messages to winners, are left out.
\<close>

section \<open>Rows\<close>

text \<open>\<open>update({ where: { claimId }, data })\<close> and \<open>updateMany\<close>, which reports how many rows it wrote.\<close>

definition update_claim :: "(prize_claim \<Rightarrow> prize_claim) \<Rightarrow> string \<Rightarrow> db \<Rightarrow> (prize_claim \<times> db) res" where
  "update_claim f i db =
     (let db' = db\<lparr>claims := update_where (\<lambda>c. pc_claimId c = i) f (claims db)\<rparr> in
      bind_res (from_option (PrismaError ''P2025'') (find_claim db' i)) (\<lambda>c. Inr (c, db')))"

definition update_many :: "('r \<Rightarrow> bool) \<Rightarrow> ('r \<Rightarrow> 'r) \<Rightarrow> 'r list \<Rightarrow> nat \<times> 'r list" where
  "update_many P f rows = (length (filter P rows), update_where P f rows)"

definition claim_audit ::
  "'a env_scheme \<Rightarrow> AuditSeverity \<Rightarrow> AuditActorType \<Rightarrow> string option \<Rightarrow> string \<Rightarrow> string \<Rightarrow> (string \<times> json) list \<Rightarrow> db \<Rightarrow> db" where
  "claim_audit env severity actor actorId action claimId metadata db =
     write_audit env \<lparr>al_severity = severity, al_actorType = actor, al_actorId = actorId, al_action = action,
       al_resourceType = ''PrizeClaim'', al_resourceId = claimId, al_metadata = JNull, al_signature = None\<rparr> metadata db"

section \<open>Withholding tax\<close>

text \<open>The two settings: the rate in hundredths of a percent, the threshold in naira.\<close>

record claim_settings =
  cs_whtRatePercent :: nat
  cs_whtThresholdNgn :: int

text \<open>
  \<open>Math.floor((grossNgn * rate) / 100)\<close> in doubles; gross prizes are not negative. The result is
  applicability, tax and net.
\<close>

definition wht_of :: "int \<Rightarrow> nat \<Rightarrow> int" where
  "wht_of grossNgn rate = double_floor (double_div (double_times grossNgn (to_double (int rate) 100)) 100)"

definition computeWht :: "claim_settings \<Rightarrow> int \<Rightarrow> ClaimType \<Rightarrow> bool \<times> int \<times> int" where
  "computeWht S grossNgn path =
     (if path \<noteq> CT_CASH \<or> grossNgn < cs_whtThresholdNgn S \<or> cs_whtRatePercent S = 0 then (False, 0, grossNgn)
      else let whtAmountNgn = wht_of grossNgn (cs_whtRatePercent S) in (True, whtAmountNgn, grossNgn - whtAmountNgn))"

definition with_wht :: "bool \<times> int \<times> int \<Rightarrow> prize_claim \<Rightarrow> prize_claim" where
  "with_wht wht c = (case wht of (applicable, amount, netNgn) \<Rightarrow>
     c\<lparr>pc_whtApplicable := applicable, pc_whtAmountNgn := amount, pc_netPrizeValueNgn := netNgn\<rparr>)"

text \<open>
  \<open>recordForClaim\<close>: the certificate is created under a provisional reference and renamed after its
  sequence number, in one transaction whose failure is logged only. Numbers skipped by failed
  inserts are left out.
\<close>

definition deduction_ref :: "'a env_scheme \<Rightarrow> nat \<Rightarrow> string" where
  "deduction_ref env n = ''WHD-'' @ int_str (fst (civil_of_day (e_now env div MS_PER_DAY))) @ ''-'' @
     pad_start 6 CHR ''0'' (nat_str n)"

definition deduction_row :: "prize_claim \<Rightarrow> nat \<Rightarrow> nat \<Rightarrow> string \<Rightarrow> wht_deduction" where
  "deduction_row claim rate n ref =
     \<lparr>wd_deductionSeq = n, wd_deductionRef = ref, wd_claimId = pc_claimId claim,
      wd_winnerTicketRef = pc_winnerTicketRef claim, wd_winnerPhone = pc_winnerPhone claim,
      wd_grossPrizeNgn = pc_grossPrizeValueNgn claim, wd_whtRatePercent = rate,
      wd_whtAmountNgn = pc_whtAmountNgn claim, wd_netPrizeNgn = pc_netPrizeValueNgn claim\<rparr>"

definition deduction_tx :: "'a env_scheme \<Rightarrow> prize_claim \<Rightarrow> nat \<Rightarrow> db \<Rightarrow> (string \<times> db) res" where
  "deduction_tx env claim rate db =
     (let n = length (whtDeductions db) + 1; ref = deduction_ref env n in
      if rate \<ge> 100000 then Inl (PrismaError ''P2020'')
      else if \<exists>d\<in>set (whtDeductions db). wd_claimId d = pc_claimId claim
          \<or> wd_deductionRef d = ''PENDING-'' @ pc_claimId claim \<or> wd_deductionRef d = ref
      then Inl unique_violation
      else Inr (ref, db\<lparr>whtDeductions := whtDeductions db @ [deduction_row claim rate n ref]\<rparr>))"

definition recordForClaim :: "'a env_scheme \<Rightarrow> claim_settings \<Rightarrow> string \<Rightarrow> (db \<Rightarrow> db) \<Rightarrow> db \<Rightarrow> db" where
  "recordForClaim env S claimId later db =
     (case find_claim db claimId of
        None \<Rightarrow> db
      | Some claim \<Rightarrow>
          if \<not> pc_whtApplicable claim \<or> pc_whtAmountNgn claim \<le> 0
             \<or> (\<exists>d\<in>set (whtDeductions db). wd_claimId d = claimId) then db
          else snd (in_tx (deduction_tx env claim (cs_whtRatePercent S) (later db)) (later db)))"

section \<open>Views\<close>

record claim_bank =
  cb_bankCode :: "string option"
  cb_accountLast4 :: "string option"
  cb_accountName :: "string option"

text \<open>\<open>cv_kycIdentityStatus\<close>: no value for \<open>NOT_STARTED\<close>.\<close>

record claim_view =
  cv_claimId :: string
  cv_winnerTicketRef :: string
  cv_status :: PrizeClaimStatus
  cv_claimType :: "ClaimType option"
  cv_grossPrizeValueNgn :: int
  cv_whtAmountNgn :: int
  cv_netPrizeValueNgn :: int
  cv_selectionDeadlineAt :: string
  cv_claimDeadlineAt :: string
  cv_createdAt :: string
  cv_payoutStatus :: "PrizePayoutStatus option"
  cv_kycIdentityStatus :: "KycIdentityCheckStatus option"
  cv_kycBvnVerified :: bool
  cv_kycHasDocs :: bool
  cv_kycBank :: "claim_bank option"

definition identity_bound :: "prize_claim \<Rightarrow> identity_check \<Rightarrow> bool" where
  "identity_bound c latest \<longleftrightarrow> check_verified latest \<and> fingerprint_form (ki_bankAccountFingerprint latest) \<and>
     (pc_claimType c \<noteq> Some CT_CASH \<or>
      filled (pc_kycBankAccountName c) \<and> Some (ki_bankCode latest) = pc_kycBankCode c \<and>
      Some (ki_bankAccountLast4 latest) = pc_kycBankAccountLast4 c)"

definition claim_to_view :: "db \<Rightarrow> prize_claim \<Rightarrow> claim_view" where
  "claim_to_view db c =
     (let latest = latest_check db (pc_claimId c);
          identityVerified = (case latest of None \<Rightarrow> False | Some k \<Rightarrow> identity_bound c k) in
      \<lparr>cv_claimId = pc_claimId c, cv_winnerTicketRef = pc_winnerTicketRef c, cv_status = pc_status c,
       cv_claimType = pc_claimType c, cv_grossPrizeValueNgn = pc_grossPrizeValueNgn c,
       cv_whtAmountNgn = pc_whtAmountNgn c, cv_netPrizeValueNgn = pc_netPrizeValueNgn c,
       cv_selectionDeadlineAt = to_iso_string (pc_selectionDeadlineAt c),
       cv_claimDeadlineAt = to_iso_string (pc_claimDeadlineAt c), cv_createdAt = to_iso_string (pc_createdAt c),
       cv_payoutStatus = pc_payoutStatus c,
       cv_kycIdentityStatus = (if identityVerified then Some KIC_VERIFIED
         else case latest of None \<Rightarrow> None
           | Some k \<Rightarrow> Some (if ki_status k = KIC_VERIFIED then KIC_UNKNOWN else ki_status k)),
       cv_kycBvnVerified = identityVerified,
       cv_kycHasDocs = (filled (pc_kycIdDocPath c) \<and> filled (pc_kycSelfiePath c)),
       cv_kycBank = (if identityVerified \<and> filled (pc_kycBankAccountName c)
         then Some \<lparr>cb_bankCode = pc_kycBankCode c, cb_accountLast4 = pc_kycBankAccountLast4 c,
                    cb_accountName = pc_kycBankAccountName c\<rparr>
         else None)\<rparr>)"

definition claim_not_found :: error where
  "claim_not_found = NotFoundException ''Claim not found''"

text \<open>A claim of another customer is not found.\<close>

definition findOwned :: "db \<Rightarrow> string \<Rightarrow> string \<Rightarrow> prize_claim res" where
  "findOwned db claimId phoneNumber =
     bind_res (from_option claim_not_found (find_claim db claimId)) (\<lambda>claim.
     if pc_winnerPhone claim \<noteq> phoneNumber then Inl claim_not_found else Inr claim)"

definition listMine :: "db \<Rightarrow> string \<Rightarrow> claim_view list" where
  "listMine db phoneNumber =
     map (claim_to_view db) (js_sort (\<lambda>a b. pc_createdAt b - pc_createdAt a)
       (filter (\<lambda>c. pc_winnerPhone c = phoneNumber) (claims db)))"

definition getMine :: "db \<Rightarrow> string \<Rightarrow> string \<Rightarrow> claim_view res" where
  "getMine db claimId phoneNumber = bind_res (findOwned db claimId phoneNumber) (\<lambda>c. Inr (claim_to_view db c))"

record review_item =
  ri_view :: claim_view
  ri_winnerPhone :: string
  ri_kycVerifiedAt :: "string option"
  ri_identityVerified :: bool
  ri_hasIdDoc :: bool
  ri_hasSelfie :: bool
  ri_bankResolved :: bool

definition listForReview :: "db \<Rightarrow> PrizeClaimStatus option \<Rightarrow> review_item list" where
  "listForReview db status =
     map (\<lambda>c. let view = claim_to_view db c in
       \<lparr>ri_view = view, ri_winnerPhone = pc_winnerPhone c,
        ri_kycVerifiedAt = (if cv_kycBvnVerified view
          then Option.bind (latest_check db (pc_claimId c)) (\<lambda>k. map_option to_iso_string (ki_verifiedAt k)) else None),
        ri_identityVerified = cv_kycBvnVerified view, ri_hasIdDoc = filled (pc_kycIdDocPath c),
        ri_hasSelfie = filled (pc_kycSelfiePath c), ri_bankResolved = filled (pc_kycBankAccountName c)\<rparr>)
     (js_sort (\<lambda>a b. pc_createdAt a - pc_createdAt b)
       (filter (\<lambda>c. case status of None \<Rightarrow> True | Some s \<Rightarrow> pc_status c = s) (claims db)))"

section \<open>The winner\<close>

definition CHOOSABLE :: "PrizeClaimStatus list" where
  "CHOOSABLE = [PCS_NOTIFIED, PCS_SELECTION_MADE]"

definition choosePrize ::
  "'a env_scheme \<Rightarrow> claim_settings \<Rightarrow> string \<Rightarrow> string \<Rightarrow> ClaimType \<Rightarrow> (db \<Rightarrow> db) \<Rightarrow> db \<Rightarrow> claim_view res \<times> db" where
  "choosePrize env S claimId phoneNumber path later db =
     then_do (bind_res (findOwned db claimId phoneNumber) (\<lambda>claim.
         if pc_status claim \<notin> set CHOOSABLE
         then Inl (ConflictException (''Prize option can no longer be changed (status: '' @ claim_status_str (pc_status claim) @ '')''))
         else if pc_selectionDeadlineAt claim \<le> e_now env
         then Inl (ConflictException ''The selection window for this claim has closed'')
         else Inr claim), db) (\<lambda>claim db.
     then_do (in_tx (update_claim (\<lambda>c. with_wht (computeWht S (pc_grossPrizeValueNgn claim) path)
         (c\<lparr>pc_claimType := Some path, pc_claimTypeSelectedAt := Some (e_now env), pc_status := PCS_SELECTION_MADE\<rparr>))
       claimId (later db)) (later db)) (\<lambda>updated db1.
     (Inr (claim_to_view db1 updated),
      claim_audit env SEV_INFO ACTOR_CUSTOMER (Some phoneNumber) ''CLAIM_TYPE_SELECTED'' claimId
        [(''path'', JStr (claim_type_str path)), (''previous'', json_opt (map_option claim_type_str (pc_claimType claim))),
         (''winnerTicketRef'', JStr (pc_winnerTicketRef claim))] db1)))"

text \<open>\<open>submitBvn\<close> and \<open>submitBank\<close> are closed.\<close>

definition submitClosed :: "db \<Rightarrow> string \<Rightarrow> string \<Rightarrow> unit res" where
  "submitClosed db claimId phoneNumber = bind_res (findOwned db claimId phoneNumber) (\<lambda>_.
     Inl (ConflictException ''Use the combined Paystack identity verification process''))"

datatype doc_kind = ID_DOC | SELFIE

primrec doc_kind_str :: "doc_kind \<Rightarrow> string" where
  "doc_kind_str ID_DOC = ''idDoc''"
| "doc_kind_str SELFIE = ''selfie''"

text \<open>\<open>save\<close> is the storage service: the path a file was stored under. Each file brings kind and extension.\<close>

definition stored_doc :: "'a env_scheme \<Rightarrow> (string \<Rightarrow> string) \<Rightarrow> string \<Rightarrow> doc_kind \<times> string \<Rightarrow> prize_claim \<Rightarrow> prize_claim" where
  "stored_doc env save claimId f c =
     (case f of (kind, ext) \<Rightarrow>
        let stored = save (''kyc/'' @ claimId @ ''/'' @ doc_kind_str kind @ ''-'' @ int_str (e_now env) @ ''.'' @ ext) in
        case kind of ID_DOC \<Rightarrow> c\<lparr>pc_kycIdDocPath := Some stored\<rparr> | SELFIE \<Rightarrow> c\<lparr>pc_kycSelfiePath := Some stored\<rparr>)"

definition submitDocuments ::
  "'a env_scheme \<Rightarrow> (string \<Rightarrow> string) \<Rightarrow> string \<Rightarrow> string \<Rightarrow> (doc_kind \<times> string) list \<Rightarrow> (db \<Rightarrow> db) \<Rightarrow> db
    \<Rightarrow> claim_view res \<times> db" where
  "submitDocuments env save claimId phoneNumber files later db =
     then_do (bind_res (findOwned db claimId phoneNumber) (\<lambda>claim.
         if pc_status claim \<notin> {PCS_SELECTION_MADE, PCS_KYC_PENDING}
         then Inl (ConflictException (if pc_status claim = PCS_NOTIFIED
             then ''Choose your prize option before uploading documents''
             else ''Documents cannot be submitted on this claim (status: '' @ claim_status_str (pc_status claim) @ '')''))
         else if pc_claimDeadlineAt claim \<le> e_now env then Inl (ConflictException ''The claim window has closed'')
         else if files = [] then Inl (BadRequestException ''Attach at least one file field named idDoc or selfie'')
         else Inr claim), db) (\<lambda>claim db.
     then_do (in_tx (update_claim (fold (stored_doc env save claimId) files) claimId (later db)) (later db)) (\<lambda>updated db1.
     (Inr (claim_to_view db1 updated),
      claim_audit env SEV_INFO ACTOR_CUSTOMER (Some phoneNumber) ''CLAIM_KYC_DOCUMENTS_UPLOADED'' claimId
        [(''kinds'', JArr (map (JStr \<circ> doc_kind_str \<circ> fst) files))] db1)))"

text \<open>\<open>when\<close> is the parsed date, none for one that is not a date.\<close>

definition bookCollection ::
  "'a env_scheme \<Rightarrow> string \<Rightarrow> string \<Rightarrow> string \<Rightarrow> int option \<Rightarrow> (db \<Rightarrow> db) \<Rightarrow> db \<Rightarrow> claim_view res \<times> db" where
  "bookCollection env claimId phoneNumber collectionPointId preferredDate later db =
     then_do (bind_res (findOwned db claimId phoneNumber) (\<lambda>claim.
         if pc_claimType claim \<noteq> Some CT_PRODUCT
         then Inl (ConflictException ''Collection booking is for product claims'')
         else if pc_status claim \<noteq> PCS_KYC_CLEARED
         then Inl (ConflictException (''Claim is not cleared for collection (status: '' @ claim_status_str (pc_status claim) @ '')''))
         else case preferredDate of
             None \<Rightarrow> Inl (BadRequestException ''preferredDate must be a future date'')
           | Some scheduledAt \<Rightarrow>
               if scheduledAt < e_now env then Inl (BadRequestException ''preferredDate must be a future date'')
               else
                 bind_res (from_option (NotFoundException ''Collection point not found'')
                   (find (\<lambda>p. cp_pointId p = collectionPointId \<and> cp_isActive p) (collectionPoints db))) (\<lambda>_. Inr scheduledAt)), db)
       (\<lambda>scheduledAt db.
     then_do (in_tx (update_claim (\<lambda>c. c\<lparr>pc_collectionPointId := Some collectionPointId,
         pc_collectionScheduledAt := Some scheduledAt, pc_status := PCS_PRODUCT_BOOKED\<rparr>) claimId (later db)) (later db)) (\<lambda>updated db1.
     (Inr (claim_to_view db1 updated),
      claim_audit env SEV_INFO ACTOR_CUSTOMER (Some phoneNumber) ''CLAIM_COLLECTION_BOOKED'' claimId
        [(''collectionPointId'', JStr collectionPointId), (''preferredDate'', JStr (to_iso_string scheduledAt))] db1)))"

definition listCollectionPoints :: "'a env_scheme \<Rightarrow> db \<Rightarrow> string option \<Rightarrow> collection_point list" where
  "listCollectionPoints env db stateCode =
     js_sort (\<lambda>a b. let s = e_dbCollate env (cp_stateCode a) (cp_stateCode b) in
         if s \<noteq> 0 then s else e_dbCollate env (cp_name a) (cp_name b))
       (filter (\<lambda>p. cp_isActive p \<and> (filled stateCode \<longrightarrow> stateCode = Some (cp_stateCode p))) (collectionPoints db))"

definition confirm_account_tx :: "payout_env \<Rightarrow> string \<Rightarrow> string \<Rightarrow> db \<Rightarrow> destination res" where
  "confirm_account_tx G claimId phoneNumber db =
     bind_res (findOwned db claimId phoneNumber) (\<lambda>claim.
     if pc_claimType claim \<noteq> Some CT_CASH \<or> pc_status claim \<noteq> PCS_KYC_CLEARED
     then Inl (ConflictException ''Cash claim is not cleared for payout'')
     else requireLocked G db claim)"

definition confirmPayoutAccount :: "payout_env \<Rightarrow> string \<Rightarrow> string \<Rightarrow> (db \<Rightarrow> db) \<Rightarrow> db \<Rightarrow> claim_view res \<times> db" where
  "confirmPayoutAccount G claimId phoneNumber later db =
     then_do (confirm_account_tx G claimId phoneNumber db, db) (\<lambda>destination db.
     let db1 = later (claim_audit G SEV_INFO ACTOR_CUSTOMER (Some phoneNumber) ''CLAIM_PAYOUT_ACCOUNT_CONFIRMED'' claimId
         [(''payoutAccountId'', JStr (ds_payoutAccountId destination)), (''bankCode'', JStr (ds_bankCode destination)),
          (''accountLast4'', JStr (ds_accountLast4 destination))] db) in
     (getMine db1 claimId phoneNumber, db1))"

section \<open>The counter\<close>

definition CODE_LENGTH :: nat where
  "CODE_LENGTH = 6"

definition MAX_ATTEMPTS :: nat where
  "MAX_ATTEMPTS = 5"

text \<open>\<open>generate\<close>, with the number that \<open>randomInt(0, 10 ** CODE_LENGTH)\<close> returned.\<close>

definition generate_code :: "nat \<Rightarrow> string" where
  "generate_code n = pad_start CODE_LENGTH CHR ''0'' (nat_str n)"

definition issue :: "'a env_scheme \<Rightarrow> nat \<Rightarrow> string \<Rightarrow> db \<Rightarrow> string res \<times> db" where
  "issue env n claimId db =
     (case update_many (\<lambda>c. pc_claimId c = claimId \<and> pc_redemptionCodeHash c = None)
         (\<lambda>c. c\<lparr>pc_redemptionCodeHash := Some (e_sha256 env (generate_code n)),
                pc_redemptionCodeIssuedAt := Some (e_now env), pc_redemptionAttempts := 0\<rparr>) (claims db) of
        (written, cs) \<Rightarrow>
          if written = 0 then (Inl (ConflictException ''A redemption code has already been issued''), db)
          else (Inr (generate_code n),
            claim_audit env SEV_INFO ACTOR_SYSTEM None ''REDEMPTION_CODE_ISSUED'' claimId [] (db\<lparr>claims := cs\<rparr>)))"

definition reissue ::
  "'a env_scheme \<Rightarrow> nat \<Rightarrow> string \<Rightarrow> string \<Rightarrow> (db \<Rightarrow> db) \<Rightarrow> db \<Rightarrow> (string \<times> string \<times> int \<times> nat) res \<times> db" where
  "reissue env n claimId adminUserId later db =
     then_do (bind_res (from_option claim_not_found (find_claim db claimId)) (\<lambda>claim.
         case pc_redeemedAt claim of
           Some t \<Rightarrow> Inl (ConflictException (''Already collected on '' @ take 10 (to_iso_string t)
             @ '' - there is nothing left to reissue.''))
         | None \<Rightarrow>
             if pc_status claim = PCS_FORFEITED then Inl (ConflictException ''This claim has been forfeited'')
             else if pc_status claim \<noteq> PCS_KYC_CLEARED
             then Inl (ConflictException (''Claim is '' @ claim_status_str (pc_status claim)
               @ '' - a code only exists once identity has been cleared.''))
             else if pc_claimDeadlineAt claim \<le> e_now env
             then Inl (ConflictException ''The collection deadline has passed'')
             else if \<not> filled (pc_redemptionCodeHash claim)
             then Inl (ConflictException ''No code has been issued for this claim yet, so there is nothing to replace.'')
             else Inr claim), db) (\<lambda>claim db.
     then_do (in_tx (update_claim (\<lambda>c. c\<lparr>pc_redemptionCodeHash := Some (e_sha256 env (generate_code n)),
         pc_redemptionCodeIssuedAt := Some (e_now env), pc_redemptionAttempts := 0,
         pc_redemptionReissues := pc_redemptionReissues c + 1, pc_lastReissuedByAdminId := Some adminUserId\<rparr>)
       claimId (later db)) (later db)) (\<lambda>updated db1.
     (Inr (generate_code n, pc_winnerPhone claim, pc_claimDeadlineAt claim, pc_redemptionReissues updated),
      claim_audit env SEV_WARNING ACTOR_ADMIN (Some adminUserId) ''REDEMPTION_CODE_REISSUED'' claimId
        [(''winnerTicketRef'', JStr (pc_winnerTicketRef claim)),
         (''reissueCount'', JNum (int (pc_redemptionReissues updated))),
         (''previousAttempts'', JNum (int (pc_redemptionAttempts claim)))] db1)))"

record verify_args =
  va_adminUserId :: string
  va_pointId :: "string option"
  va_ticketRef :: string
  va_code :: string

record redemption_view =
  rd_claimId :: string
  rd_winnerTicketRef :: string
  rd_winnerPhone :: string
  rd_claimType :: "ClaimType option"
  rd_grossPrizeValueNgn :: int
  rd_whtAmountNgn :: int
  rd_netPrizeValueNgn :: int
  rd_collectionPoint :: "string option"
  rd_claimDeadlineAt :: string

definition point_name :: "db \<Rightarrow> prize_claim \<Rightarrow> string option" where
  "point_name db claim = Option.bind (pc_collectionPointId claim) (\<lambda>i.
     map_option cp_name (find (\<lambda>p. cp_pointId p = i) (collectionPoints db)))"

text \<open>The checks on the claim, before the code is looked at.\<close>

definition redeemable :: "'a env_scheme \<Rightarrow> db \<Rightarrow> verify_args \<Rightarrow> prize_claim res" where
  "redeemable env db args =
     bind_res (from_option (NotFoundException ''No claim found for that ticket'')
       (find (\<lambda>c. pc_winnerTicketRef c = va_ticketRef args) (claims db))) (\<lambda>claim.
     case pc_redeemedAt claim of
       Some t \<Rightarrow> Inl (ConflictException (''Already collected on '' @ take 10 (to_iso_string t)))
     | None \<Rightarrow>
         if pc_status claim = PCS_FORFEITED then Inl (ConflictException ''This claim has been forfeited'')
         else if pc_status claim \<noteq> PCS_KYC_CLEARED
         then Inl (ConflictException (''Not ready for collection - claim is '' @ claim_status_str (pc_status claim)))
         else if pc_claimDeadlineAt claim \<le> e_now env
         then Inl (ConflictException ''The collection deadline has passed'')
         else if \<not> filled (pc_redemptionCodeHash claim)
         then Inl (ConflictException ''No redemption code has been issued yet'')
         else if pc_redemptionAttempts claim \<ge> MAX_ATTEMPTS
         then Inl (ForbiddenException ''Too many incorrect attempts. Contact customer care to unlock.'')
         else if filled (pc_collectionPointId claim) \<and> filled (va_pointId args) \<and> pc_collectionPointId claim \<noteq> va_pointId args
         then Inl (ForbiddenException (''This prize is booked for collection at ''
           @ (case point_name db claim of None \<Rightarrow> ''another point'' | Some n \<Rightarrow> n)))
         else Inr claim)"

text \<open>A wrong code is counted before the refusal.\<close>

definition reject_code :: "'a env_scheme \<Rightarrow> verify_args \<Rightarrow> string \<Rightarrow> db \<Rightarrow> error \<times> db" where
  "reject_code env args claimId db =
     (case update_claim (\<lambda>c. c\<lparr>pc_redemptionAttempts := pc_redemptionAttempts c + 1\<rparr>) claimId db of
        Inl e \<Rightarrow> (e, db)
      | Inr (after, db1) \<Rightarrow>
          (ForbiddenException (''Incorrect code. '' @ int_str (int MAX_ATTEMPTS - int (pc_redemptionAttempts after))
             @ '' attempt(s) remaining.''),
           claim_audit env SEV_WARNING ACTOR_ADMIN (Some (va_adminUserId args)) ''REDEMPTION_CODE_REJECTED'' claimId
             [(''ticketRef'', JStr (va_ticketRef args)), (''attempt'', JNum (int (pc_redemptionAttempts after)))] db1))"

definition verify :: "'a env_scheme \<Rightarrow> verify_args \<Rightarrow> (db \<Rightarrow> db) \<Rightarrow> db \<Rightarrow> redemption_view res \<times> db" where
  "verify env args later db =
     then_do (redeemable env db args, db) (\<lambda>claim db.
     if Some (e_sha256 env (va_code args)) \<noteq> pc_redemptionCodeHash claim
     then (case reject_code env args (pc_claimId claim) (later db) of (e, db1) \<Rightarrow> (Inl e, db1))
     else
       (Inr \<lparr>rd_claimId = pc_claimId claim, rd_winnerTicketRef = pc_winnerTicketRef claim,
             rd_winnerPhone = pc_winnerPhone claim, rd_claimType = pc_claimType claim,
             rd_grossPrizeValueNgn = pc_grossPrizeValueNgn claim, rd_whtAmountNgn = pc_whtAmountNgn claim,
             rd_netPrizeValueNgn = pc_netPrizeValueNgn claim, rd_collectionPoint = point_name db claim,
             rd_claimDeadlineAt = to_iso_string (pc_claimDeadlineAt claim)\<rparr>, db))"

text \<open>The handover: the only guard of the write is that nothing was collected.\<close>

definition hand_over :: "'a env_scheme \<Rightarrow> verify_args \<Rightarrow> redemption_view \<Rightarrow> db \<Rightarrow> nat \<times> prize_claim list" where
  "hand_over env args verified db =
     update_many (\<lambda>c. pc_claimId c = rd_claimId verified \<and> pc_redeemedAt c = None)
       (\<lambda>c. c\<lparr>pc_status := (if rd_claimType verified = Some CT_PRODUCT then PCS_DELIVERED else PCS_CASH_PAID),
              pc_redeemedAt := Some (e_now env), pc_redeemedByAdminId := Some (va_adminUserId args),
              pc_redeemedAtPointId := va_pointId args, pc_fulfilledAt := Some (e_now env)\<rparr>) (claims db)"

definition confirmHandover ::
  "'a env_scheme \<Rightarrow> verify_args \<Rightarrow> (db \<Rightarrow> db) \<Rightarrow> (db \<Rightarrow> db) \<Rightarrow> db \<Rightarrow> redemption_view res \<times> db" where
  "confirmHandover env args later1 later db =
     then_do (verify env args later1 db) (\<lambda>verified db1.
     case hand_over env args verified (later db1) of (written, cs) \<Rightarrow>
       if written = 0 then (Inl (ConflictException ''This prize has already been collected''), later db1)
       else
         (Inr verified,
          claim_audit env SEV_INFO ACTOR_ADMIN (Some (va_adminUserId args)) ''PRIZE_HANDED_OVER'' (rd_claimId verified)
            [(''ticketRef'', JStr (rd_winnerTicketRef verified)), (''netPrizeValueNgn'', JNum (rd_netPrizeValueNgn verified)),
             (''pointId'', json_opt (va_pointId args))] ((later db1)\<lparr>claims := cs\<rparr>)))"

section \<open>Compliance\<close>

text \<open>Only one account of a customer is verified or locked.\<close>

definition approved_account :: "db \<Rightarrow> string \<Rightarrow> payout_account option" where
  "approved_account db userId =
     find (\<lambda>a. vp_userId a = userId \<and> vp_status a \<in> {VPA_VERIFIED, VPA_LOCKED}) (payoutAccounts db)"

definition review_matches :: "identity_check \<Rightarrow> payout_account \<Rightarrow> identity_check \<Rightarrow> bool" where
  "review_matches check a k \<longleftrightarrow>
     vp_currency a = ''NGN'' \<and> vp_bankCode a = ki_bankCode check \<and> vp_accountLast4 a = ki_bankAccountLast4 check \<and>
     vp_accountFingerprint a = ki_bankAccountFingerprint check \<and> ki_bankCode k = vp_bankCode a \<and>
     ki_bankAccountLast4 k = vp_accountLast4 a \<and> ki_bankAccountFingerprint k = vp_accountFingerprint a"

definition COOLING_OFF_MS :: int where
  "COOLING_OFF_MS = 24 * 60 * 60 * 1000"

definition lock_account :: "payout_env \<Rightarrow> user \<Rightarrow> payout_account \<Rightarrow> db \<Rightarrow> db res" where
  "lock_account G u account db =
     (if vp_status account = VPA_VERIFIED
      then (case update_many (\<lambda>a. vp_payoutAccountId a = vp_payoutAccountId account \<and> vp_userId a = u_userId u \<and>
               vp_status a = VPA_VERIFIED \<and> vp_revokedAt a = None)
             (\<lambda>a. a\<lparr>vp_status := VPA_LOCKED, vp_lockedAt := Some (e_now G)\<rparr>) (payoutAccounts db) of
           (written, as) \<Rightarrow>
             if written \<noteq> 1 then Inl (ConflictException ''Payout account could not be locked'')
             else Inr (db\<lparr>payoutAccounts := as\<rparr>))
      else Inr db)"

text \<open>The beneficiary of a cash claim is checked in full and locked.\<close>

definition lock_beneficiary :: "payout_env \<Rightarrow> prize_claim \<Rightarrow> identity_check \<Rightarrow> db \<Rightarrow> db res" where
  "lock_beneficiary G claim check db =
     bind_res (from_option (ConflictException ''Claim and customer ownership mismatch'')
       (find_user_by_phone db (pc_winnerPhone claim))) (\<lambda>user.
     bind_res (require (owns_claim user claim) (ConflictException ''Claim and customer ownership mismatch'')) (\<lambda>_.
     bind_res (require (case ki_bankChangeAuthorizedAt check of None \<Rightarrow> True | Some t \<Rightarrow> e_now G - t \<ge> COOLING_OFF_MS)
       (ConflictException ''Bank account changes require a 24-hour security cooling-off period before compliance approval'')) (\<lambda>_.
     bind_res (from_option (ConflictException ''A verified payout account is required before cash claim approval'')
       (approved_account db (u_userId user))) (\<lambda>account.
     bind_res (from_option (ConflictException ''Payout account ownership has not been verified'') (source_of db account)) (\<lambda>source.
     bind_res (require (check_verified (fst source) \<and> vp_verifiedAt account \<noteq> None \<and> vp_revokedAt account = None)
       (ConflictException ''Payout account ownership has not been verified'')) (\<lambda>_.
     bind_res (require (pc_winnerPhone (snd source) = pc_winnerPhone claim \<and> owns_claim user (snd source))
       (ConflictException ''Payout account verification ownership mismatch'')) (\<lambda>_.
     bind_res (require (\<not> (vp_status account = VPA_VERIFIED \<and> vp_lockedAt account \<noteq> None))
       (ConflictException ''Invalid verified payout account state'')) (\<lambda>_.
     bind_res (require (\<not> (vp_status account = VPA_LOCKED \<and> vp_lockedAt account = None))
       (ConflictException ''Invalid locked payout account state'')) (\<lambda>_.
     bind_res (require (review_matches check account (fst source))
       (ConflictException ''Payout account does not match verified identity evidence'')) (\<lambda>_.
     bind_res (require (filled (pc_kycBankAccountName claim) \<and> vp_resolvedAccountName account \<noteq> [] \<and>
         map_option normalizeName (pc_kycBankAccountName claim) = Some (normalizeName (vp_resolvedAccountName account)))
       (ConflictException ''Payout account holder name does not match KYC'')) (\<lambda>_.
     bind_res (decrypt G (u_userId user) (vp_bankCode account) (vp_accountCiphertext account)) (\<lambda>accountNumber.
     bind_res (require (vp_accountLast4 account = last4 accountNumber)
       (ConflictException ''Stored payout account metadata mismatch'')) (\<lambda>_.
     bind_res (assertDestinationMatches G check (vp_bankCode account) accountNumber) (\<lambda>_.
     bind_res (assertDestinationMatches G (fst source) (vp_bankCode account) accountNumber) (\<lambda>_.
     lock_account G user account db)))))))))))))))"

definition not_awaiting_review :: error where
  "not_awaiting_review = ConflictException ''Claim is not awaiting KYC review''"

definition review_tx :: "payout_env \<Rightarrow> claim_settings \<Rightarrow> string \<Rightarrow> string \<Rightarrow> db \<Rightarrow> (prize_claim \<times> db) res" where
  "review_tx G S claimId adminId db =
     bind_res (from_option claim_not_found (find_claim db claimId)) (\<lambda>claim.
     bind_res (require (pc_status claim = PCS_KYC_PENDING) not_awaiting_review) (\<lambda>_.
     bind_res (from_option (ConflictException ''Prize option must be selected before KYC approval'') (pc_claimType claim)) (\<lambda>path.
     bind_res (require (filled (pc_kycIdDocPath claim) \<and> filled (pc_kycSelfiePath claim))
       (ConflictException ''ID document and selfie are required'')) (\<lambda>_.
     bind_res (requireVerified db claim) (\<lambda>check.
     bind_res (require (fingerprint_form (ki_bankAccountFingerprint check))
       (ConflictException ''Complete Paystack bank ownership evidence is required'')) (\<lambda>_.
     bind_res (if path = CT_CASH then lock_beneficiary G claim check db else Inr db) (\<lambda>db1.
     update_claim (\<lambda>c. with_wht (computeWht S (pc_grossPrizeValueNgn claim) path)
         (c\<lparr>pc_status := PCS_KYC_CLEARED, pc_kycReviewedBy := Some adminId, pc_kycReviewedAt := Some (e_now G)\<rparr>))
       claimId db1)))))))"

text \<open>
  \<open>reviewKyc\<close>: an approval ends with the redemption code, whose failure is logged only; \<open>later\<close> is
  committed before the code, \<open>n\<close> its random number.
\<close>

datatype decision = APPROVE | REJECT

definition reviewKyc ::
  "payout_env \<Rightarrow> claim_settings \<Rightarrow> nat \<Rightarrow> string \<Rightarrow> string \<Rightarrow> decision \<Rightarrow> string option \<Rightarrow> (db \<Rightarrow> db) \<Rightarrow> db
    \<Rightarrow> claim_view res \<times> db" where
  "reviewKyc G S n claimId adminId decision reviewNote later db =
     (case decision of
        REJECT \<Rightarrow>
          then_do (bind_res (from_option claim_not_found (find_claim db claimId)) (\<lambda>claim.
              if pc_status claim \<noteq> PCS_KYC_PENDING then Inl not_awaiting_review else Inr claim), db) (\<lambda>claim db.
          (Inr (claim_to_view db claim),
           claim_audit G SEV_WARNING ACTOR_ADMIN (Some adminId) ''CLAIM_KYC_REJECTED'' claimId [(''note'', json_opt reviewNote)] db))
      | APPROVE \<Rightarrow>
          then_do (in_tx (review_tx G S claimId adminId db) db) (\<lambda>updated db1.
          let db2 = claim_audit G SEV_INFO ACTOR_ADMIN (Some adminId) ''CLAIM_KYC_APPROVED'' claimId
              [(''identityProvider'', JStr ''PAYSTACK''), (''netPrizeValueNgn'', JNum (pc_netPrizeValueNgn updated)),
               (''whtAmountNgn'', JNum (pc_whtAmountNgn updated))] db1 in
          (Inr (claim_to_view db1 updated), snd (issue G n claimId (later db2)))))"

definition markDelivered ::
  "'a env_scheme \<Rightarrow> claim_settings \<Rightarrow> string \<Rightarrow> string \<Rightarrow> (db \<Rightarrow> db) \<Rightarrow> (db \<Rightarrow> db) \<Rightarrow> db \<Rightarrow> claim_view res \<times> db" where
  "markDelivered env S claimId adminId later later2 db =
     then_do (bind_res (from_option claim_not_found (find_claim db claimId)) (\<lambda>claim.
         if pc_status claim \<noteq> PCS_PRODUCT_BOOKED
         then Inl (ConflictException (''Claim is not awaiting delivery (status: '' @ claim_status_str (pc_status claim) @ '')''))
         else Inr claim), db) (\<lambda>claim db.
     then_do (in_tx (update_claim (\<lambda>c. c\<lparr>pc_status := PCS_DELIVERED, pc_fulfilledAt := Some (e_now env)\<rparr>) claimId (later db))
       (later db)) (\<lambda>updated db1.
     (Inr (claim_to_view db1 updated),
      claim_audit env SEV_INFO ACTOR_ADMIN (Some adminId) ''CLAIM_PRODUCT_DELIVERED'' claimId
        [(''winnerTicketRef'', JStr (pc_winnerTicketRef claim))] (recordForClaim env S claimId later2 db1))))"

section \<open>Forfeiture\<close>

definition abandoned :: "int \<Rightarrow> prize_claim \<Rightarrow> bool" where
  "abandoned now c \<longleftrightarrow>
     (pc_status c = PCS_NOTIFIED \<and> pc_selectionDeadlineAt c \<le> now) \<or>
     (pc_status c \<in> {PCS_SELECTION_MADE, PCS_KYC_PENDING} \<and> pc_claimDeadlineAt c \<le> now)"

text \<open>The flip repeats the status that was read. \<open>sched\<close> is what commits before each flip.\<close>

definition forfeit :: "'a env_scheme \<Rightarrow> (string \<Rightarrow> db \<Rightarrow> db) \<Rightarrow> prize_claim \<Rightarrow> db \<Rightarrow> db" where
  "forfeit env sched claim db0 =
     (let db = sched (pc_claimId claim) db0 in
      case update_many (\<lambda>c. pc_claimId c = pc_claimId claim \<and> pc_status c = pc_status claim)
          (\<lambda>c. c\<lparr>pc_status := PCS_FORFEITED, pc_forfeitedAt := Some (e_now env)\<rparr>) (claims db) of
        (written, cs) \<Rightarrow>
          if written = 0 then db
          else db\<lparr>claims := cs, auditLog := auditLog db @
            [\<lparr>al_severity = SEV_WARNING, al_actorType = ACTOR_SYSTEM, al_actorId = None, al_action = ''CLAIM_FORFEITED'',
              al_resourceType = ''PrizeClaim'', al_resourceId = pc_claimId claim,
              al_metadata = JObj [(''fromStatus'', JStr (claim_status_str (pc_status claim))),
                (''winnerRef'', JStr (pc_winnerTicketRef claim))], al_signature = None\<rparr>]\<rparr>)"

definition claims_tick :: "'a env_scheme \<Rightarrow> (string \<Rightarrow> db \<Rightarrow> db) \<Rightarrow> db \<Rightarrow> db" where
  "claims_tick env sched db = fold (forfeit env sched) (filter (abandoned (e_now env)) (claims db)) db"

end
