(* ===== verification/Prize_Payout.thy ===== *)
theory Prize_Payout
  imports Claims
begin

text \<open>
  What a provider's answer does to a payout attempt
  (\<open>apps/api/src/claims/payout/prize-payout-attempt-finalization.service.ts\<close>): a success posts
  the payout journal and pays the claim, a reversal reverses the journal and reopens it, everything
  else is a guarded update of the attempt, mirrored into the claim. The operations read the
  attempt before they write; \<open>later k\<close> is what commits at the \<open>k\<close>-th gap between their statements.
\<close>

section \<open>Rows\<close>

record provider_result =
  py_provider :: string
  py_reference :: string
  py_providerTransactionId :: "string option"
  py_status :: PrizePayoutStatus
  py_rawStatus :: "string option"
  py_failureReason :: "string option"
  py_amountNgn :: "int option"
  py_currency :: "string option"
  py_destinationBankCode :: "string option"
  py_destinationAccountLast4 :: "string option"
  py_destinationAccountFingerprint :: "string option"

definition find_attempt :: "db \<Rightarrow> string \<Rightarrow> payout_attempt option" where
  "find_attempt db i = find (\<lambda>a. pa_attemptId a = i) (payoutAttempts db)"

definition latest_attempt :: "db \<Rightarrow> string \<Rightarrow> payout_attempt option" where
  "latest_attempt db claimId =
     latest_by pa_attemptNumber (filter (\<lambda>a. pa_claimId a = claimId) (payoutAttempts db))"

text \<open>The column widths and the unique indexes of the table; a null is never a duplicate.\<close>

definition fits :: "nat \<Rightarrow> string option \<Rightarrow> bool" where
  "fits n s = (case s of None \<Rightarrow> True | Some t \<Rightarrow> length t \<le> n)"

definition attempt_fits :: "payout_attempt \<Rightarrow> bool" where
  "attempt_fits a \<longleftrightarrow> length (pa_provider a) \<le> 32 \<and> length (pa_idempotencyKey a) \<le> 50 \<and> length (pa_currency a) \<le> 3 \<and>
     fits 120 (pa_providerReference a) \<and> fits 120 (pa_providerTransactionId a) \<and> fits 120 (pa_rawStatus a) \<and>
     length (pa_destinationBankCode a) \<le> 32 \<and> length (pa_destinationAccountLast4 a) \<le> 4 \<and>
     length (pa_destinationAccountNameHash a) \<le> 64 \<and> fits 64 (pa_destinationAccountFingerprint a)"

definition attempt_number_key :: "payout_attempt \<Rightarrow> string \<times> nat" where
  "attempt_number_key a = (pa_claimId a, pa_attemptNumber a)"

definition provider_key :: "payout_attempt \<Rightarrow> (string \<times> string) option" where
  "provider_key a = map_option (Pair (pa_provider a)) (pa_providerReference a)"

definition attempts_unique :: "payout_attempt list \<Rightarrow> bool" where
  "attempts_unique rows \<longleftrightarrow> distinct (map pa_attemptId rows) \<and> distinct (map attempt_number_key rows) \<and>
     distinct (map pa_idempotencyKey rows) \<and> distinct (List.map_filter provider_key rows) \<and>
     distinct (List.map_filter pa_payoutLedgerTxnId rows) \<and> distinct (List.map_filter pa_reversalLedgerTxnId rows)"

definition update_attempts ::
  "(payout_attempt \<Rightarrow> bool) \<Rightarrow> (payout_attempt \<Rightarrow> payout_attempt) \<Rightarrow> db \<Rightarrow> (nat \<times> db) res" where
  "update_attempts P f db =
     (case update_many P f (payoutAttempts db) of (written, rows) \<Rightarrow>
        if \<not> list_all attempt_fits (map f (filter P (payoutAttempts db))) then Inl (PrismaError ''P2000'')
        else if \<not> attempts_unique rows then Inl unique_violation
        else Inr (written, db\<lparr>payoutAttempts := rows\<rparr>))"

text \<open>An update of the claim that sets its idempotency key, which is under a unique index.\<close>

definition link_claim :: "(prize_claim \<Rightarrow> prize_claim) \<Rightarrow> string \<Rightarrow> string \<Rightarrow> db \<Rightarrow> db res" where
  "link_claim f claimId key db =
     bind_res (link_row pc_claimId pc_payoutIdempotencyKey f claimId key (claims db)) (\<lambda>cs. Inr (db\<lparr>claims := cs\<rparr>))"

type_synonym payout_actor = "AuditActorType \<times> string"

definition attempt_audit ::
  "'a env_scheme \<Rightarrow> AuditSeverity \<Rightarrow> payout_actor \<Rightarrow> string \<Rightarrow> string \<Rightarrow> (string \<times> json) list \<Rightarrow> db \<Rightarrow> db" where
  "attempt_audit env severity actor action attemptId metadata db =
     write_audit env \<lparr>al_severity = severity, al_actorType = fst actor, al_actorId = Some (snd actor), al_action = action,
       al_resourceType = ''PrizePayoutAttempt'', al_resourceId = attemptId, al_metadata = JNull, al_signature = None\<rparr>
       metadata db"

definition NON_TERMINAL_STATUSES :: "PrizePayoutStatus list" where
  "NON_TERMINAL_STATUSES = [PPS_REQUESTED, PPS_SUBMITTED, PPS_PROCESSING, PPS_UNKNOWN]"

section \<open>Success\<close>

definition prizeClearingCode :: "string \<Rightarrow> string res" where
  "prizeClearingCode provider =
     (let p = js_upper (js_trim provider) in
      if p = ''MONNIFY'' then Inr MONNIFY_PAYOUT_CLEARING_CODE
      else if p = ''FLUTTERWAVE'' then Inr FLUTTERWAVE_PAYOUT_CLEARING_CODE
      else if p = ''DEV'' then Inr BANK_CASH_CODE
      else if p = ''PAYSTACK'' then Inr PAYSTACK_PAYOUT_CLEARING_CODE
      else Inl (JsError (''No payout clearing account configured for '' @ provider)))"

definition payout_account_of :: "db \<Rightarrow> string \<Rightarrow> ledger_account res" where
  "payout_account_of db code =
     from_option (JsError (''Required ledger account '' @ code @ '' does not exist'')) (find_account_by_code db code)"

definition payout_post :: "payout_attempt \<Rightarrow> provider_result \<Rightarrow> string \<Rightarrow> string \<Rightarrow> post_input" where
  "payout_post attempt result payable clearing =
     \<lparr>pi_idempotencyKey = ''ledger:prize-payout:'' @ pa_attemptId attempt, pi_kind = PRIZE_PAYOUT,
      pi_referenceType = ''PrizePayoutAttempt'', pi_referenceId = pa_attemptId attempt,
      pi_description = Some (''Prize payout '' @ pa_attemptId attempt), pi_occurredAt = None,
      pi_metadata = Some (JObj [(''claimId'', JStr (pa_claimId attempt)), (''provider'', JStr (pa_provider attempt)),
        (''providerReference'', JStr (py_reference result))]),
      pi_lines = transfer_lines payable ''Settle winner prize payable'' clearing (pa_provider attempt @ '' payout'')
        (pa_amountNgn attempt)\<rparr>"

text \<open>\<open>result.x ?? attempt.x\<close>.\<close>

definition coalesce :: "'x option \<Rightarrow> 'x option \<Rightarrow> 'x option" where
  "coalesce x y = (case x of None \<Rightarrow> y | Some _ \<Rightarrow> x)"

definition succeeded_attempt :: "int \<Rightarrow> provider_result \<Rightarrow> string \<Rightarrow> payout_attempt \<Rightarrow> payout_attempt" where
  "succeeded_attempt now result journal a =
     a\<lparr>pa_status := PPS_SUCCEEDED, pa_providerReference := Some (py_reference result),
       pa_providerTransactionId := coalesce (py_providerTransactionId result) (pa_providerTransactionId a),
       pa_rawStatus := py_rawStatus result, pa_failureReason := None, pa_lastCheckedAt := Some now,
       pa_completedAt := Some now, pa_payoutLedgerTxnId := Some journal\<rparr>"

definition paid_claim :: "int \<Rightarrow> payout_attempt \<Rightarrow> provider_result \<Rightarrow> prize_claim \<Rightarrow> prize_claim" where
  "paid_claim now attempt result c =
     c\<lparr>pc_payoutStatus := Some PPS_SUCCEEDED, pc_payoutProvider := Some (pa_provider attempt),
       pc_payoutReference := Some (py_reference result), pc_payoutIdempotencyKey := Some (pa_idempotencyKey attempt),
       pc_payoutLastCheckedAt := Some now, pc_payoutCompletedAt := Some now, pc_payoutFailureReason := None,
       pc_status := PCS_CASH_PAID, pc_fulfilledAt := Some now\<rparr>"

definition attempt_not_found :: error where
  "attempt_not_found = NotFoundException ''Prize payout attempt not found''"

text \<open>The transaction: whether it changed anything, and the claim.\<close>

definition success_tx :: "'a env_scheme \<Rightarrow> string \<Rightarrow> provider_result \<Rightarrow> db \<Rightarrow> ((bool \<times> string) \<times> db) res" where
  "success_tx env attemptId result db =
     bind_res (from_option attempt_not_found (find_attempt db attemptId)) (\<lambda>attempt.
     bind_res (from_option (PrismaError ''P2025'') (find_claim db (pa_claimId attempt))) (\<lambda>claim.
     if pa_status attempt \<notin> set NON_TERMINAL_STATUSES then Inr ((False, pa_claimId attempt), db)
     else if pc_status claim = PCS_CASH_PAID then Inr ((False, pa_claimId attempt), db)
     else if \<exists>a\<in>set (payoutAttempts db). pa_claimId a = pa_claimId attempt \<and> pa_attemptId a \<noteq> pa_attemptId attempt
         \<and> pa_status a = PPS_SUCCEEDED
     then Inr ((False, pa_claimId attempt), db)
     else if \<not> filled (pc_prizeAccrualLedgerTxnId claim)
     then Inl (JsError ''Prize payout cannot succeed before prize accrual is posted'')
     else
       bind_res (payout_account_of db PRIZE_PAYABLE_CODE) (\<lambda>prizePayable.
       bind_res (prizeClearingCode (pa_provider attempt)) (\<lambda>code.
       bind_res (payout_account_of db code) (\<lambda>payoutClearing.
       bind_res (postInTransaction env
         (payout_post attempt result (la_accountId prizePayable) (la_accountId payoutClearing)) db) (\<lambda>(journal, db1).
       bind_res (update_attempts (\<lambda>a. pa_attemptId a = attemptId)
         (succeeded_attempt (e_now env) result (lt_ledgerTxnId (tv_txn journal))) db1) (\<lambda>(_, db2).
       bind_res (link_claim (paid_claim (e_now env) attempt result) (pa_claimId attempt) (pa_idempotencyKey attempt) db2) (\<lambda>db3.
       Inr ((True, pa_claimId attempt), db3)))))))))"

definition markSucceeded ::
  "'a env_scheme \<Rightarrow> claim_settings \<Rightarrow> string \<Rightarrow> provider_result \<Rightarrow> payout_actor \<Rightarrow> (nat \<Rightarrow> db \<Rightarrow> db) \<Rightarrow> db \<Rightarrow> bool res \<times> db" where
  "markSucceeded env S attemptId result actor later db =
     then_do (in_tx (success_tx env attemptId result db) db) (\<lambda>(changed, claimId) db1.
     if \<not> changed then (Inr False, db1)
     else
       (Inr True,
        attempt_audit env SEV_INFO actor ''PRIZE_PAYOUT_ATTEMPT_SUCCEEDED'' attemptId
          [(''provider'', JStr (py_provider result)), (''reference'', JStr (py_reference result)),
           (''rawStatus'', json_opt (py_rawStatus result))]
          (recordForClaim env S claimId (later 2) (later 1 db1))))"

section \<open>Failure, progress, uncertainty\<close>

text \<open>The current attempt is copied into the claim, unless a newer one exists.\<close>

definition mirrored_claim :: "payout_attempt \<Rightarrow> prize_claim \<Rightarrow> prize_claim" where
  "mirrored_claim current c =
     c\<lparr>pc_payoutStatus := Some (pa_status current), pc_payoutProvider := Some (pa_provider current),
       pc_payoutReference := pa_providerReference current, pc_payoutIdempotencyKey := Some (pa_idempotencyKey current),
       pc_payoutLastCheckedAt := pa_lastCheckedAt current, pc_payoutFailureReason := pa_failureReason current\<rparr>"

definition mirrorCurrentAttempt :: "string \<Rightarrow> string \<Rightarrow> (db \<Rightarrow> db) \<Rightarrow> db \<Rightarrow> unit res \<times> db" where
  "mirrorCurrentAttempt claimId attemptId later db =
     (case latest_attempt db claimId of
        None \<Rightarrow> (Inr (), db)
      | Some current \<Rightarrow>
          if pa_attemptId current \<noteq> attemptId then (Inr (), db)
          else (case link_claim (mirrored_claim current) claimId (pa_idempotencyKey current) (later db) of
              Inl e \<Rightarrow> (Inl e, later db)
            | Inr db1 \<Rightarrow> (Inr (), db1)))"

text \<open>
  The columns the three guarded updates write; the transaction id falls back on the attempt as it
  was read before.
\<close>

definition checked_attempt ::
  "int \<Rightarrow> provider_result \<Rightarrow> payout_attempt \<Rightarrow> PrizePayoutStatus \<Rightarrow> string option \<Rightarrow> payout_attempt \<Rightarrow> payout_attempt" where
  "checked_attempt now result seen status reason a =
     a\<lparr>pa_status := status, pa_providerReference := Some (py_reference result),
       pa_providerTransactionId := coalesce (py_providerTransactionId result) (pa_providerTransactionId seen),
       pa_rawStatus := py_rawStatus result, pa_failureReason := reason, pa_lastCheckedAt := Some now\<rparr>"

definition in_flight :: "string \<Rightarrow> payout_attempt \<Rightarrow> bool" where
  "in_flight attemptId a \<longleftrightarrow> pa_attemptId a = attemptId \<and> pa_status a \<in> set NON_TERMINAL_STATUSES"

text \<open>The guarded update, then the mirror; false when the attempt was already decided.\<close>

definition mark_checked ::
  "'a env_scheme \<Rightarrow> string \<Rightarrow> provider_result \<Rightarrow> PrizePayoutStatus \<Rightarrow> string option \<Rightarrow> (nat \<Rightarrow> db \<Rightarrow> db) \<Rightarrow> db \<Rightarrow> bool res \<times> db" where
  "mark_checked env attemptId result status reason later db =
     then_do (from_option attempt_not_found (find_attempt db attemptId), db) (\<lambda>attempt db.
     then_do (in_tx (update_attempts (in_flight attemptId)
         (checked_attempt (e_now env) result attempt status reason) (later 1 db)) (later 1 db)) (\<lambda>written db1.
     if written \<noteq> 1 then (Inr False, db1)
     else then_do (mirrorCurrentAttempt (pa_claimId attempt) attemptId (later 3) (later 2 db1)) (\<lambda>_ db2. (Inr True, db2))))"

definition failed_reason :: "provider_result \<Rightarrow> string" where
  "failed_reason result = (case coalesce (py_failureReason result) (py_rawStatus result) of
     None \<Rightarrow> ''Provider reported payout failure'' | Some r \<Rightarrow> r)"

definition markFailed ::
  "'a env_scheme \<Rightarrow> string \<Rightarrow> provider_result \<Rightarrow> payout_actor \<Rightarrow> (nat \<Rightarrow> db \<Rightarrow> db) \<Rightarrow> db \<Rightarrow> bool res \<times> db" where
  "markFailed env attemptId result actor later db =
     then_do (mark_checked env attemptId result PPS_FAILED (Some (failed_reason result)) later db) (\<lambda>changed db1.
     if \<not> changed then (Inr False, db1)
     else (Inr True, attempt_audit env SEV_WARNING actor ''PRIZE_PAYOUT_ATTEMPT_FAILED'' attemptId
       [(''provider'', JStr (py_provider result)), (''reference'', JStr (py_reference result)),
        (''reason'', json_opt (py_failureReason result))] db1))"

definition unknown_reason :: "provider_result \<Rightarrow> string option" where
  "unknown_reason result =
     (if py_status result = PPS_UNKNOWN
      then coalesce (py_failureReason result) (Some ''Provider payout state is unknown'') else None)"

definition markNonTerminal ::
  "'a env_scheme \<Rightarrow> string \<Rightarrow> provider_result \<Rightarrow> payout_actor \<Rightarrow> (nat \<Rightarrow> db \<Rightarrow> db) \<Rightarrow> db \<Rightarrow> bool res \<times> db" where
  "markNonTerminal env attemptId result actor later db =
     then_do (mark_checked env attemptId result (py_status result) (unknown_reason result) later db) (\<lambda>changed db1.
     if \<not> changed then (Inr False, db1)
     else (Inr True, attempt_audit env (if py_status result = PPS_UNKNOWN then SEV_WARNING else SEV_INFO) actor
       (if py_status result = PPS_UNKNOWN then ''PRIZE_PAYOUT_ATTEMPT_UNKNOWN'' else ''PRIZE_PAYOUT_ATTEMPT_UPDATED'') attemptId
       [(''provider'', JStr (py_provider result)), (''reference'', JStr (py_reference result)),
        (''status'', JStr (payout_status_str (py_status result))), (''rawStatus'', json_opt (py_rawStatus result))] db1))"

text \<open>A success whose amount or destination differs is not believed: the attempt becomes uncertain.\<close>

definition markVerificationMismatch ::
  "'a env_scheme \<Rightarrow> string \<Rightarrow> provider_result \<Rightarrow> payout_actor \<Rightarrow> string \<Rightarrow> (nat \<Rightarrow> db \<Rightarrow> db) \<Rightarrow> db \<Rightarrow> unit res \<times> db" where
  "markVerificationMismatch env attemptId result actor mismatch later db =
     (case find_attempt db attemptId of
        None \<Rightarrow> (Inr (), db)
      | Some attempt \<Rightarrow>
          then_do (in_tx (update_attempts (in_flight attemptId)
              (checked_attempt (e_now env) result attempt PPS_UNKNOWN
                (Some (''Provider verification mismatch: '' @ mismatch))) (later 1 db)) (later 1 db)) (\<lambda>_ db1.
          then_do (mirrorCurrentAttempt (pa_claimId attempt) attemptId (later 3) (later 2 db1)) (\<lambda>_ db2.
          (Inr (), attempt_audit env SEV_CRITICAL actor ''PRIZE_PAYOUT_FINANCIAL_IDENTITY_MISMATCH'' attemptId
            [(''provider'', JStr (py_provider result)), (''reference'', JStr (py_reference result)),
             (''mismatch'', JStr mismatch)] db2))))"

section \<open>Reversal\<close>

definition reversal_of :: "payout_attempt \<Rightarrow> provider_result \<Rightarrow> string \<Rightarrow> reverse_input" where
  "reversal_of attempt result original =
     \<lparr>ri_originalLedgerTxnId = original, ri_idempotencyKey = ''ledger:prize-payout-reversal:'' @ pa_attemptId attempt,
      ri_referenceType = ''PrizePayoutAttempt'', ri_referenceId = pa_attemptId attempt,
      ri_description = Some (''Reversal of prize payout '' @ pa_attemptId attempt),
      ri_metadata = Some (JObj [(''claimId'', JStr (pa_claimId attempt)), (''provider'', JStr (pa_provider attempt)),
        (''providerReference'', JStr (py_reference result))])\<rparr>"

definition reversed_reason :: "provider_result \<Rightarrow> string option" where
  "reversed_reason result = coalesce (py_failureReason result) (Some ''Provider reported payout reversal'')"

definition reversed_attempt :: "int \<Rightarrow> provider_result \<Rightarrow> string option \<Rightarrow> payout_attempt \<Rightarrow> payout_attempt" where
  "reversed_attempt now result journal a =
     a\<lparr>pa_status := PPS_REVERSED, pa_providerReference := Some (py_reference result),
       pa_providerTransactionId := coalesce (py_providerTransactionId result) (pa_providerTransactionId a),
       pa_rawStatus := py_rawStatus result, pa_failureReason := reversed_reason result, pa_lastCheckedAt := Some now,
       pa_completedAt := Some now, pa_reversalLedgerTxnId := journal\<rparr>"

definition reopened_claim :: "int \<Rightarrow> payout_attempt \<Rightarrow> provider_result \<Rightarrow> prize_claim \<Rightarrow> prize_claim" where
  "reopened_claim now attempt result c =
     c\<lparr>pc_payoutStatus := Some PPS_REVERSED, pc_payoutProvider := Some (pa_provider attempt),
       pc_payoutReference := Some (py_reference result), pc_payoutLastCheckedAt := Some now,
       pc_payoutCompletedAt := None, pc_payoutFailureReason := reversed_reason result,
       pc_status := PCS_KYC_CLEARED, pc_fulfilledAt := None\<rparr>"

definition reverse_tx :: "'a env_scheme \<Rightarrow> string \<Rightarrow> provider_result \<Rightarrow> db \<Rightarrow> (bool \<times> db) res" where
  "reverse_tx env attemptId result db =
     bind_res (from_option attempt_not_found (find_attempt db attemptId)) (\<lambda>attempt.
     if pa_status attempt \<noteq> PPS_SUCCEEDED \<and> pa_status attempt \<notin> set NON_TERMINAL_STATUSES then Inr (False, db)
     else
       bind_res (case pa_payoutLedgerTxnId attempt of
           None \<Rightarrow> Inr (None, db)
         | Some original \<Rightarrow>
             if original = [] then Inr (None, db)
             else bind_res (reverseInTransaction env (reversal_of attempt result original) db) (\<lambda>(v, db1).
               Inr (Some (lt_ledgerTxnId (tv_txn v)), db1))) (\<lambda>(journal, db1).
       bind_res (update_attempts (\<lambda>a. pa_attemptId a = attemptId) (reversed_attempt (e_now env) result journal) db1) (\<lambda>(_, db2).
       bind_res (update_claim (reopened_claim (e_now env) attempt result) (pa_claimId attempt) db2) (\<lambda>(_, db3).
       Inr (True, db3)))))"

definition markReversed ::
  "'a env_scheme \<Rightarrow> string \<Rightarrow> provider_result \<Rightarrow> payout_actor \<Rightarrow> db \<Rightarrow> bool res \<times> db" where
  "markReversed env attemptId result actor db =
     then_do (in_tx (reverse_tx env attemptId result db) db) (\<lambda>changed db1.
     if \<not> changed then (Inr False, db1)
     else (Inr True, attempt_audit env SEV_CRITICAL actor ''PRIZE_PAYOUT_ATTEMPT_REVERSED'' attemptId
       [(''provider'', JStr (py_provider result)), (''reference'', JStr (py_reference result)),
        (''requiresFinanceReview'', JBool True)] db1))"

section \<open>The answer of a provider\<close>

definition fingerprint_lower :: "string \<Rightarrow> bool" where
  "fingerprint_lower s \<longleftrightarrow> length s = 64 \<and>
     list_all (\<lambda>c. let n = (of_char c :: nat) in (48 \<le> n \<and> n \<le> 57) \<or> (97 \<le> n \<and> n \<le> 102)) s"

definition paystack_mismatch :: "payout_attempt \<Rightarrow> provider_result \<Rightarrow> bool" where
  "paystack_mismatch attempt result \<longleftrightarrow> py_provider result = ''PAYSTACK'' \<and>
     ((case pa_destinationAccountFingerprint attempt of None \<Rightarrow> True | Some f \<Rightarrow> \<not> fingerprint_lower f) \<or>
      \<not> filled (py_destinationAccountFingerprint result) \<or>
      py_destinationAccountFingerprint result \<noteq> pa_destinationAccountFingerprint attempt \<or>
      py_amountNgn result = None \<or> py_currency result = None \<or> py_destinationBankCode result = None \<or>
      py_destinationAccountLast4 result = None)"

definition financialMismatch :: "payout_attempt \<Rightarrow> provider_result \<Rightarrow> string option" where
  "financialMismatch attempt result =
     (if paystack_mismatch attempt result
      then Some ''Paystack payout verification is incomplete or does not match the approved destination''
      else if py_amountNgn result \<noteq> None \<and> py_amountNgn result \<noteq> Some (pa_amountNgn attempt)
      then Some (''amount expected='' @ int_str (pa_amountNgn attempt) @ '' received='' @ int_str (the (py_amountNgn result)))
      else if filled (py_currency result) \<and> js_upper (js_trim (the (py_currency result))) \<noteq> pa_currency attempt
      then Some (''currency expected='' @ pa_currency attempt @ '' received='' @ the (py_currency result))
      else if filled (py_destinationBankCode result) \<and> js_trim (the (py_destinationBankCode result)) \<noteq> pa_destinationBankCode attempt
      then Some ''destination bank code mismatch''
      else if filled (py_destinationAccountLast4 result) \<and> the (py_destinationAccountLast4 result) \<noteq> pa_destinationAccountLast4 attempt
      then Some ''destination account mismatch''
      else None)"

definition applyForAttempt ::
  "'a env_scheme \<Rightarrow> claim_settings \<Rightarrow> string \<Rightarrow> provider_result \<Rightarrow> payout_actor \<Rightarrow> (nat \<Rightarrow> db \<Rightarrow> db) \<Rightarrow> db \<Rightarrow> bool res \<times> db" where
  "applyForAttempt env S attemptId result actor later db =
     then_do (from_option attempt_not_found (find_attempt db attemptId), db) (\<lambda>attempt db.
     if pa_provider attempt \<noteq> py_provider result then
       (Inr False, attempt_audit env SEV_CRITICAL actor ''PAYOUT_ATTEMPT_PROVIDER_MISMATCH'' attemptId
         [(''storedProvider'', JStr (pa_provider attempt)), (''receivedProvider'', JStr (py_provider result))] db)
     else if filled (pa_providerReference attempt) \<and> pa_providerReference attempt \<noteq> Some (py_reference result)
         \<and> pa_idempotencyKey attempt \<noteq> py_reference result then
       (Inr False, attempt_audit env SEV_CRITICAL actor ''PAYOUT_ATTEMPT_REFERENCE_MISMATCH'' attemptId
         [(''storedReference'', json_opt (pa_providerReference attempt)),
          (''idempotencyKey'', JStr (pa_idempotencyKey attempt)), (''receivedReference'', JStr (py_reference result))] db)
     else (case py_status result of
         PPS_SUCCEEDED \<Rightarrow>
           (case financialMismatch attempt result of
              Some mismatch \<Rightarrow>
                then_do (markVerificationMismatch env attemptId result actor mismatch later (later 0 db)) (\<lambda>_ db1. (Inr False, db1))
            | None \<Rightarrow> markSucceeded env S attemptId result actor later (later 0 db))
       | PPS_FAILED \<Rightarrow> markFailed env attemptId result actor later (later 0 db)
       | PPS_REVERSED \<Rightarrow> markReversed env attemptId result actor (later 0 db)
       | PPS_REQUESTED \<Rightarrow> (Inr False, db)
       | _ \<Rightarrow> markNonTerminal env attemptId result actor later (later 0 db)))"

end
