(* ===== verification/Payout_Engine.thy ===== *)
theory Payout_Engine
  imports Prize_Payout
begin

text \<open>
  Bank payouts of cash prizes (\<open>apps/api/src/claims/payout\<close>): the engine that reserves an attempt and
  asks a provider (\<open>prize-payout-engine.service.ts\<close>), the provider registry, the readiness of
  Paystack, the development provider, the webhook synchronisation
  (\<open>prize-payout-sync.service.ts\<close>) and the recovery sweep (\<open>prize-payout-recovery.service.ts\<close>).
  What a provider answers is an argument.
\<close>

section \<open>Providers\<close>

record payout_request =
  iq_idempotencyKey :: string
  iq_accountNumber :: string
  iq_bankCode :: string
  iq_accountName :: string
  iq_amountNgn :: int
  iq_reason :: string

text \<open>The external providers, by code; an exception is no answer.\<close>

record payout_providers =
  px_initiate :: "string \<Rightarrow> payout_request \<Rightarrow> provider_result option"
  px_getStatus :: "string \<Rightarrow> string \<Rightarrow> provider_result option"

definition PROVIDER_CODES :: "string list" where
  "PROVIDER_CODES = [''DEV'', ''MONNIFY'', ''FLUTTERWAVE'', ''PAYSTACK'']"

text \<open>\<open>get\<close> of the registry answers with the provider, here its code; \<open>has\<close>.\<close>

definition registry_get :: "string \<Rightarrow> string res" where
  "registry_get providerCode =
     (let normalized = js_upper (js_trim providerCode) in
      if normalized \<notin> set PROVIDER_CODES
      then Inl (BadRequestException (''Unsupported prize payout provider: '' @ providerCode))
      else Inr normalized)"

definition registry_has :: "string \<Rightarrow> bool" where
  "registry_has providerCode = (js_upper (js_trim providerCode) \<in> set PROVIDER_CODES)"

definition bare_result :: "string \<Rightarrow> string \<Rightarrow> PrizePayoutStatus \<Rightarrow> string \<Rightarrow> provider_result" where
  "bare_result provider reference status raw =
     \<lparr>py_provider = provider, py_reference = reference, py_providerTransactionId = None, py_status = status,
      py_rawStatus = Some raw, py_failureReason = None, py_amountNgn = None, py_currency = None,
      py_destinationBankCode = None, py_destinationAccountLast4 = None, py_destinationAccountFingerprint = None\<rparr>"

definition dev_initiate :: "payout_request \<Rightarrow> provider_result" where
  "dev_initiate inp = bare_result ''DEV'' (''DEV-PAYOUT-'' @ iq_idempotencyKey inp) PPS_SUCCEEDED ''dev_success''"

definition dev_getStatus :: "string \<Rightarrow> provider_result option" where
  "dev_getStatus reference =
     (if take 11 reference \<noteq> ''DEV-PAYOUT-'' then None
      else Some (bare_result ''DEV'' reference PPS_SUCCEEDED ''dev_success''))"

section \<open>Readiness of Paystack\<close>

record paystack_config =
  pk_transfersEnabled :: bool
  pk_nodeEnv :: "string option"
  pk_secretKey :: "string option"
  pk_fingerprintKey :: "string option"

datatype not_ready = TRANSFERS_DISABLED | CONFIGURATION_INCOMPLETE | PRODUCTION_ACCEPTANCE_PENDING | SANDBOX_KEY_REQUIRED

text \<open>The reason why it is not enabled, none if it is.\<close>

definition paystack_readiness :: "paystack_config \<Rightarrow> not_ready option" where
  "paystack_readiness P =
     (if \<not> pk_transfersEnabled P then Some TRANSFERS_DISABLED
      else if pk_nodeEnv P = Some ''production'' then Some PRODUCTION_ACCEPTANCE_PENDING
      else
        let secret = (case pk_secretKey P of None \<Rightarrow> [] | Some s \<Rightarrow> js_trim s);
            key = (case pk_fingerprintKey P of None \<Rightarrow> [] | Some s \<Rightarrow> js_trim s) in
        if secret = [] \<or> key = [] \<or> length key < 32 then Some CONFIGURATION_INCOMPLETE
        else if take 8 secret \<noteq> ''sk_test_'' then Some SANDBOX_KEY_REQUIRED
        else None)"

definition requireReadiness :: "paystack_config \<Rightarrow> unit res" where
  "requireReadiness P =
     (if paystack_readiness P \<noteq> None
      then Inl (ServiceUnavailableException ''Paystack prize payouts are not enabled and configured'') else Inr ())"

section \<open>Reservation\<close>

definition engine_accrual_post :: "prize_claim \<Rightarrow> ledger_line list \<Rightarrow> post_input" where
  "engine_accrual_post claim lines =
     \<lparr>pi_idempotencyKey = ''ledger:prize-accrual:'' @ pc_claimId claim, pi_kind = PRIZE_ACCRUAL,
      pi_referenceType = ''PrizeClaim'', pi_referenceId = pc_claimId claim,
      pi_description = Some (''Prize accrual for '' @ pc_winnerTicketRef claim), pi_occurredAt = None,
      pi_metadata = Some (JObj [(''claimId'', JStr (pc_claimId claim)), (''winnerTicketRef'', JStr (pc_winnerTicketRef claim)),
        (''grossPrizeValueNgn'', JNum (pc_grossPrizeValueNgn claim)),
        (''whtAmountNgn'', JNum (pc_whtAmountNgn claim)), (''netPrizeValueNgn'', JNum (pc_netPrizeValueNgn claim))]),
      pi_lines = lines\<rparr>"

definition ensurePrizeAccrual :: "'a env_scheme \<Rightarrow> prize_claim \<Rightarrow> db \<Rightarrow> db res" where
  "ensurePrizeAccrual env claim db =
     (if filled (pc_prizeAccrualLedgerTxnId claim) then Inr db
      else if pc_grossPrizeValueNgn claim \<le> 0 \<or> pc_netPrizeValueNgn claim \<le> 0 \<or> pc_whtAmountNgn claim < 0
      then Inl (ConflictException ''Prize financial values are invalid'')
      else if pc_grossPrizeValueNgn claim \<noteq> pc_netPrizeValueNgn claim + pc_whtAmountNgn claim
      then Inl (ConflictException ''Prize gross/net/WHT values do not balance'')
      else
        bind_res (requireAccount db PRIZE_EXPENSE_CODE) (\<lambda>expense.
        bind_res (requireAccount db PRIZE_PAYABLE_CODE) (\<lambda>payable.
        bind_res (if pc_whtAmountNgn claim > 0
          then bind_res (requireAccount db WHT_PAYABLE_CODE) (\<lambda>wht. Inr (la_accountId wht))
          else Inr []) (\<lambda>wht.
        bind_res (postInTransaction env
          (engine_accrual_post claim (accrual_lines claim (la_accountId expense) (la_accountId payable) wht)) db)
          (\<lambda>(journal, db1).
        bind_res (link_row pc_claimId pc_prizeAccrualLedgerTxnId
          (\<lambda>c. c\<lparr>pc_prizeAccrualLedgerTxnId := Some (lt_ledgerTxnId (tv_txn journal))\<rparr>)
          (pc_claimId claim) (lt_ledgerTxnId (tv_txn journal)) (claims db1)) (\<lambda>cs.
        Inr (db1\<lparr>claims := cs\<rparr>)))))))"

text \<open>A claim that may be paid, given its latest attempt.\<close>

definition payable_claim :: "prize_claim \<Rightarrow> payout_attempt option \<Rightarrow> unit res" where
  "payable_claim claim latest =
     (if pc_claimType claim \<noteq> Some CT_CASH then Inl (ConflictException ''Only cash claims can use bank payouts'')
      else if pc_status claim \<noteq> PCS_KYC_CLEARED
      then Inl (ConflictException (''Claim is not cleared for payout (status: '' @ claim_status_str (pc_status claim) @ '')''))
      else if filled (pc_paidByAgentId claim) then Inl (ConflictException ''Claim already has an agent payout record'')
      else if latest = None \<and> (pc_payoutStatus claim \<noteq> None \<or> pc_payoutReference claim \<noteq> None)
      then Inl (ConflictException ''Historical payout state requires reconciliation before bank payout'')
      else Inr ())"

definition attempt_allowed :: "bool \<Rightarrow> prize_claim \<Rightarrow> payout_attempt option \<Rightarrow> unit res" where
  "attempt_allowed retry claim latest =
     (if \<not> retry then
        (case latest of None \<Rightarrow> Inr ()
         | Some l \<Rightarrow> Inl (ConflictException (''A payout attempt already exists with status '' @ payout_status_str (pa_status l))))
      else
        (case latest of None \<Rightarrow> Inl (ConflictException ''No previous payout attempt exists to retry'')
         | Some l \<Rightarrow>
             if pa_status l \<noteq> PPS_FAILED \<and> pa_status l \<noteq> PPS_REVERSED
             then Inl (ConflictException (''Payout cannot be retried while latest attempt is '' @ payout_status_str (pa_status l)))
             else if pc_payoutStatus claim \<noteq> Some (pa_status l)
             then Inl (ConflictException ''Claim payout status and attempt history are inconsistent'')
             else Inr ()))"

text \<open>A retry goes to the account of the attempt before it.\<close>

definition same_destination :: "payout_env \<Rightarrow> destination \<Rightarrow> string \<Rightarrow> payout_attempt \<Rightarrow> unit res" where
  "same_destination G d nameHash l =
     (if \<not> filled (pa_verifiedPayoutAccountId l) \<or> \<not> filled (pa_destinationAccountFingerprint l)
         \<or> \<not> filled (pa_destinationAccountCiphertext l)
      then Inl (ConflictException ''Previous payout destination requires manual reconciliation'')
      else if pa_verifiedPayoutAccountId l \<noteq> Some (ds_payoutAccountId d)
        \<or> pa_destinationAccountFingerprint l \<noteq> Some (ds_fingerprint d)
        \<or> pa_destinationBankCode l \<noteq> ds_bankCode d \<or> pa_destinationAccountLast4 l \<noteq> ds_accountLast4 d
        \<or> pa_destinationAccountNameHash l \<noteq> nameHash
      then Inl (ConflictException ''Payout retry destination does not match the previous attempt'')
      else
        bind_res (decrypt G (ds_userId d) (pa_destinationBankCode l) (the (pa_destinationAccountCiphertext l))) (\<lambda>previous.
        if previous \<noteq> ds_accountNumber d
        then Inl (ConflictException ''Payout retry cannot change the destination account'') else Inr ()))"

definition create_attempt :: "'a env_scheme \<Rightarrow> payout_attempt \<Rightarrow> db \<Rightarrow> (payout_attempt \<times> db) res" where
  "create_attempt env a0 db =
     (let a = a0\<lparr>pa_attemptId := e_uuid env (seq db)\<rparr> in
      if \<not> attempt_fits a then Inl (PrismaError ''P2000'')
      else if \<not> attempts_unique (payoutAttempts db @ [a]) then Inl unique_violation
      else Inr (a, db\<lparr>payoutAttempts := payoutAttempts db @ [a], seq := seq db + 1\<rparr>))"

definition new_attempt ::
  "payout_env \<Rightarrow> string \<Rightarrow> string \<Rightarrow> string \<Rightarrow> prize_claim \<Rightarrow> nat \<Rightarrow> destination \<Rightarrow> string \<Rightarrow> payout_attempt" where
  "new_attempt G adminId providerCode key claim number d nameHash =
     \<lparr>pa_attemptId = [], pa_claimId = pc_claimId claim, pa_attemptNumber = number, pa_provider = providerCode,
      pa_idempotencyKey = key, pa_amountNgn = pc_netPrizeValueNgn claim, pa_currency = ''NGN'',
      pa_status = PPS_REQUESTED, pa_providerReference = None, pa_providerTransactionId = None, pa_rawStatus = None,
      pa_failureReason = None, pa_destinationBankCode = ds_bankCode d, pa_destinationAccountLast4 = ds_accountLast4 d,
      pa_destinationAccountNameHash = nameHash, pa_initiatedByAdminId = adminId, pa_initiatedAt = e_now G,
      pa_lastCheckedAt = None, pa_completedAt = None, pa_payoutLedgerTxnId = None, pa_reversalLedgerTxnId = None,
      pa_verifiedPayoutAccountId = Some (ds_payoutAccountId d),
      pa_destinationAccountFingerprint = Some (ds_fingerprint d),
      pa_destinationAccountCiphertext = Some (ds_snapshotCiphertext d)\<rparr>"

definition requested_claim :: "int \<Rightarrow> string \<Rightarrow> string \<Rightarrow> prize_claim \<Rightarrow> prize_claim" where
  "requested_claim now providerCode key c =
     c\<lparr>pc_payoutStatus := Some PPS_REQUESTED, pc_payoutProvider := Some providerCode, pc_payoutReference := None,
       pc_payoutIdempotencyKey := Some key, pc_payoutInitiatedAt := Some now, pc_payoutCompletedAt := None,
       pc_payoutLastCheckedAt := None, pc_payoutFailureReason := None\<rparr>"

text \<open>What leaves the transaction: the attempt, the claim's ticket and the decrypted destination.\<close>

record reserved_payout =
  ry_attempt :: payout_attempt
  ry_winnerTicketRef :: string
  ry_destination :: destination

text \<open>The transaction; \<open>uuid\<close> is the random part of the idempotency key.\<close>

definition reserve_tx ::
  "payout_env \<Rightarrow> string \<Rightarrow> string \<Rightarrow> string \<Rightarrow> string \<Rightarrow> bool \<Rightarrow> db \<Rightarrow> (reserved_payout \<times> db) res" where
  "reserve_tx G uuid claimId adminId providerCode retry db =
     bind_res (from_option claim_not_found (find_claim db claimId)) (\<lambda>claim.
     let latest = latest_attempt db claimId in
     bind_res (payable_claim claim latest) (\<lambda>_.
     bind_res (attempt_allowed retry claim latest) (\<lambda>_.
     bind_res (requireLocked G db claim) (\<lambda>destination.
     let nameHash = e_sha256 G (normalizeName (ds_accountName destination)) in
     bind_res (case latest of None \<Rightarrow> Inr () | Some l \<Rightarrow> (if retry then same_destination G destination nameHash l else Inr ())) (\<lambda>_.
     bind_res (ensurePrizeAccrual G claim db) (\<lambda>db1.
     let key = ''sw-prize-'' @ uuid;
         number = (case latest of None \<Rightarrow> 0 | Some l \<Rightarrow> pa_attemptNumber l) + 1 in
     bind_res (create_attempt G (new_attempt G adminId providerCode key claim number destination nameHash) db1) (\<lambda>(attempt, db2).
     bind_res (link_claim (requested_claim (e_now G) providerCode key) claimId key db2) (\<lambda>db3.
     Inr (\<lparr>ry_attempt = attempt, ry_winnerTicketRef = pc_winnerTicketRef claim, ry_destination = destination\<rparr>, db3)))))))))"

section \<open>Execution\<close>

record attempt_view =
  tv_attemptId :: string
  tv_claimId :: string
  tv_attemptNumber :: nat
  tv_provider :: string
  tv_amountNgn :: int
  tv_currency :: string
  tv_status :: PrizePayoutStatus
  tv_providerReference :: "string option"
  tv_providerTransactionId :: "string option"
  tv_rawStatus :: "string option"
  tv_failureReason :: "string option"
  tv_destinationBankCode :: string
  tv_destinationAccountLast4 :: string
  tv_initiatedAt :: string
  tv_lastCheckedAt :: "string option"
  tv_completedAt :: "string option"
  tv_payoutLedgerTxnId :: "string option"
  tv_reversalLedgerTxnId :: "string option"

definition attempt_to_view :: "payout_attempt \<Rightarrow> attempt_view" where
  "attempt_to_view a =
     \<lparr>tv_attemptId = pa_attemptId a, tv_claimId = pa_claimId a, tv_attemptNumber = pa_attemptNumber a,
      tv_provider = pa_provider a, tv_amountNgn = pa_amountNgn a, tv_currency = pa_currency a,
      tv_status = pa_status a, tv_providerReference = pa_providerReference a,
      tv_providerTransactionId = pa_providerTransactionId a, tv_rawStatus = pa_rawStatus a,
      tv_failureReason = pa_failureReason a, tv_destinationBankCode = pa_destinationBankCode a,
      tv_destinationAccountLast4 = pa_destinationAccountLast4 a, tv_initiatedAt = to_iso_string (pa_initiatedAt a),
      tv_lastCheckedAt = map_option to_iso_string (pa_lastCheckedAt a),
      tv_completedAt = map_option to_iso_string (pa_completedAt a), tv_payoutLedgerTxnId = pa_payoutLedgerTxnId a,
      tv_reversalLedgerTxnId = pa_reversalLedgerTxnId a\<rparr>"

definition getAttempt :: "db \<Rightarrow> string \<Rightarrow> attempt_view res" where
  "getAttempt db attemptId =
     bind_res (from_option attempt_not_found (find_attempt db attemptId)) (\<lambda>a. Inr (attempt_to_view a))"

definition listAttempts :: "db \<Rightarrow> string \<Rightarrow> (string \<times> string \<times> attempt_view list) res" where
  "listAttempts db claimId =
     bind_res (from_option claim_not_found (find_claim db claimId)) (\<lambda>claim.
     Inr (claimId, pc_winnerTicketRef claim, map attempt_to_view
       (js_sort (\<lambda>a b. int (pa_attemptNumber a) - int (pa_attemptNumber b))
         (filter (\<lambda>a. pa_claimId a = claimId) (payoutAttempts db)))))"

definition request_of :: "reserved_payout \<Rightarrow> payout_request" where
  "request_of r =
     \<lparr>iq_idempotencyKey = pa_idempotencyKey (ry_attempt r), iq_accountNumber = ds_accountNumber (ry_destination r),
      iq_bankCode = ds_bankCode (ry_destination r), iq_accountName = ds_accountName (ry_destination r),
      iq_amountNgn = pa_amountNgn (ry_attempt r), iq_reason = ''SureWina prize '' @ ry_winnerTicketRef r\<rparr>"

text \<open>An exception of the provider does not say that no money moved.\<close>

definition uncertain_result :: "string \<Rightarrow> string \<Rightarrow> provider_result" where
  "uncertain_result provider key = (bare_result provider key PPS_UNKNOWN ''PROVIDER_EXCEPTION'')\<lparr>
     py_failureReason := Some ''Provider initiation outcome is uncertain; reconciliation required''\<rparr>"

definition reserved_audit :: "payout_env \<Rightarrow> string \<Rightarrow> bool \<Rightarrow> reserved_payout \<Rightarrow> db \<Rightarrow> db" where
  "reserved_audit G adminId retry r db =
     attempt_audit G SEV_INFO (ACTOR_ADMIN, adminId)
       (if retry then ''PRIZE_PAYOUT_RETRY_REQUESTED'' else ''PRIZE_PAYOUT_ATTEMPT_REQUESTED'') (pa_attemptId (ry_attempt r))
       [(''claimId'', JStr (pa_claimId (ry_attempt r))), (''attemptNumber'', JNum (int (pa_attemptNumber (ry_attempt r)))),
        (''provider'', JStr (pa_provider (ry_attempt r))), (''amountNgn'', JNum (pa_amountNgn (ry_attempt r))),
        (''accountLast4'', JStr (ds_accountLast4 (ry_destination r)))] db"

text \<open>\<open>later\<close> is what commits between the statements from the provider's answer on, as in the finalization.\<close>

definition startAttempt ::
  "payout_env \<Rightarrow> claim_settings \<Rightarrow> paystack_config \<Rightarrow> payout_providers \<Rightarrow> string \<Rightarrow> string \<Rightarrow> string \<Rightarrow> string \<Rightarrow> bool
    \<Rightarrow> (nat \<Rightarrow> db \<Rightarrow> db) \<Rightarrow> db \<Rightarrow> attempt_view res \<times> db" where
  "startAttempt G S P X uuid claimId adminId providerCode retry later db =
     then_do (bind_res (registry_get providerCode) (\<lambda>provider.
         bind_res (if provider = ''PAYSTACK'' then requireReadiness P else Inr ()) (\<lambda>_. Inr provider)), db) (\<lambda>provider db.
     then_do (in_tx (reserve_tx G uuid claimId adminId provider retry db) db) (\<lambda>reserved db1.
     let db2 = reserved_audit G adminId retry reserved db1;
         result = (case px_initiate X provider (request_of reserved) of
           Some r \<Rightarrow> r
         | None \<Rightarrow> uncertain_result provider (pa_idempotencyKey (ry_attempt reserved))) in
     then_do (applyForAttempt G S (pa_attemptId (ry_attempt reserved)) result (ACTOR_ADMIN, adminId) later db2) (\<lambda>_ db3.
     (getAttempt db3 (pa_attemptId (ry_attempt reserved)), db3))))"

definition initiate ::
  "payout_env \<Rightarrow> claim_settings \<Rightarrow> paystack_config \<Rightarrow> payout_providers \<Rightarrow> string \<Rightarrow> string \<Rightarrow> string \<Rightarrow> string
    \<Rightarrow> (nat \<Rightarrow> db \<Rightarrow> db) \<Rightarrow> db \<Rightarrow> attempt_view res \<times> db" where
  "initiate G S P X uuid claimId adminId providerCode later db =
     startAttempt G S P X uuid claimId adminId providerCode False later db"

definition retryPayout ::
  "payout_env \<Rightarrow> claim_settings \<Rightarrow> paystack_config \<Rightarrow> payout_providers \<Rightarrow> string \<Rightarrow> string \<Rightarrow> string \<Rightarrow> string
    \<Rightarrow> (nat \<Rightarrow> db \<Rightarrow> db) \<Rightarrow> db \<Rightarrow> attempt_view res \<times> db" where
  "retryPayout G S P X uuid claimId adminId providerCode later db =
     startAttempt G S P X uuid claimId adminId providerCode True later db"

section \<open>Asking again\<close>

definition lookup_reference :: "payout_attempt \<Rightarrow> string" where
  "lookup_reference a = (case pa_providerReference a of None \<Rightarrow> pa_idempotencyKey a | Some r \<Rightarrow> r)"

definition refreshCurrent ::
  "'a env_scheme \<Rightarrow> claim_settings \<Rightarrow> payout_providers \<Rightarrow> string \<Rightarrow> string \<Rightarrow> (nat \<Rightarrow> db \<Rightarrow> db) \<Rightarrow> db \<Rightarrow> attempt_view res \<times> db" where
  "refreshCurrent env S X claimId adminId later db =
     then_do (from_option (NotFoundException ''No payout attempt exists for this claim'') (latest_attempt db claimId), db)
       (\<lambda>attempt db.
     if pa_status attempt \<in> {PPS_SUCCEEDED, PPS_FAILED, PPS_REVERSED} then (getAttempt db (pa_attemptId attempt), db)
     else
       then_do (registry_get (pa_provider attempt), db) (\<lambda>provider db.
       case px_getStatus X provider (lookup_reference attempt) of
         None \<Rightarrow>
           (Inl (ConflictException ''Payout status could not be refreshed. Reconcile the existing attempt before retrying.''),
            attempt_audit env SEV_WARNING (ACTOR_ADMIN, adminId) ''PRIZE_PAYOUT_ATTEMPT_REFRESH_FAILED'' (pa_attemptId attempt)
              [(''provider'', JStr (pa_provider attempt)), (''reference'', JStr (lookup_reference attempt)),
               (''error'', JStr ''PROVIDER_STATUS_REFRESH_FAILED'')] db)
       | Some result \<Rightarrow>
           then_do (applyForAttempt env S (pa_attemptId attempt) result (ACTOR_ADMIN, adminId) later db) (\<lambda>_ db1.
           (getAttempt db1 (pa_attemptId attempt), db1))))"

text \<open>\<open>syncReference\<close>: found, changed, attempt and claim. A status query that throws is an error of the call.\<close>

definition by_reference :: "string \<Rightarrow> string \<Rightarrow> payout_attempt \<Rightarrow> bool" where
  "by_reference providerCode reference a \<longleftrightarrow> pa_provider a = providerCode \<and>
     (pa_providerReference a = Some reference \<or> pa_idempotencyKey a = reference)"

definition syncReference ::
  "'a env_scheme \<Rightarrow> claim_settings \<Rightarrow> payout_providers \<Rightarrow> string \<Rightarrow> string \<Rightarrow> string \<Rightarrow> (nat \<Rightarrow> db \<Rightarrow> db) \<Rightarrow> db
    \<Rightarrow> (bool \<times> bool \<times> (string \<times> string) option) res \<times> db" where
  "syncReference env S X providerCode incomingReference actorId later db =
     (let reference = js_trim incomingReference in
      if reference = [] then (Inr (False, False, None), db)
      else (case latest_by pa_attemptNumber (filter (by_reference providerCode reference) (payoutAttempts db)) of
          None \<Rightarrow> (Inr (False, False, None), db)
        | Some attempt \<Rightarrow>
            then_do (registry_get (pa_provider attempt), db) (\<lambda>provider db.
            then_do (from_option (JsError ''status query failed'') (px_getStatus X provider (lookup_reference attempt)), db)
              (\<lambda>verified db.
            then_do (applyForAttempt env S (pa_attemptId attempt) verified (ACTOR_SYSTEM, actorId) later db) (\<lambda>changed db1.
            (Inr (True, changed, Some (pa_attemptId attempt, pa_claimId attempt)), db1))))))"

definition STALE_AFTER_MS :: int where
  "STALE_AFTER_MS = 2 * 60000"

definition BATCH_SIZE :: nat where
  "BATCH_SIZE = 50"

definition stale :: "int \<Rightarrow> payout_attempt \<Rightarrow> bool" where
  "stale cutoff a \<longleftrightarrow> pa_status a \<in> {PPS_REQUESTED, PPS_SUBMITTED, PPS_PROCESSING, PPS_UNKNOWN} \<and>
     pa_initiatedAt a \<le> cutoff \<and> (case pa_lastCheckedAt a of None \<Rightarrow> True | Some t \<Rightarrow> t \<le> cutoff)"

text \<open>One attempt of the sweep: a failure is logged, what was committed before it stays.\<close>

definition recover_attempt ::
  "'a env_scheme \<Rightarrow> claim_settings \<Rightarrow> payout_providers \<Rightarrow> (string \<Rightarrow> nat \<Rightarrow> db \<Rightarrow> db) \<Rightarrow> payout_attempt \<Rightarrow> db \<Rightarrow> db" where
  "recover_attempt env S X sched attempt db =
     (case registry_get (pa_provider attempt) of
        Inl _ \<Rightarrow> db
      | Inr provider \<Rightarrow>
          (case px_getStatus X provider (lookup_reference attempt) of
             None \<Rightarrow> db
           | Some result \<Rightarrow> snd (applyForAttempt env S (pa_attemptId attempt) result (ACTOR_SYSTEM, ''prize-payout-recovery'')
               (sched (pa_attemptId attempt)) db)))"

text \<open>\<open>tick\<close>, without the flag that keeps two sweeps of a process apart.\<close>

definition payout_recovery_tick ::
  "'a env_scheme \<Rightarrow> claim_settings \<Rightarrow> payout_providers \<Rightarrow> (string \<Rightarrow> nat \<Rightarrow> db \<Rightarrow> db) \<Rightarrow> db \<Rightarrow> db" where
  "payout_recovery_tick env S X sched db =
     fold (recover_attempt env S X sched) (take BATCH_SIZE (js_sort (\<lambda>a b. pa_initiatedAt a - pa_initiatedAt b)
       (filter (stale (e_now env - STALE_AFTER_MS)) (payoutAttempts db)))) db"

end
