(* ===== verification/Payout_Laws.thy ===== *)
theory Payout_Laws
  imports Payout_Engine Agent_Remittance_Laws
begin

text \<open>
  Runs of the payout operations, in any order, on stale answers, next to everything else the
  program does: the attempts of a claim are decided one after the other, and each names the
  journals that were posted for it.
\<close>

section \<open>The latest row\<close>

lemma sort_desc_head:
  assumes "js_sort (\<lambda>a b. int (f b) - int (f a)) rows = r # rs" "x \<in> set rows"
  shows "f x \<le> f r"
  using assms
proof (induction rows arbitrary: r rs)
  case Nil
  then show ?case by simp
next
  case (Cons y ys)
  note ih = Cons.IH and pr = Cons.prems
  show ?case
  proof (cases "js_sort (\<lambda>a b. int (f b) - int (f a)) ys")
    case Nil
    then have "ys = []" by (metis length_js_sort length_0_conv)
    then show ?thesis using pr by simp
  next
    case (Cons z zs)
    show ?thesis
    proof (cases "x = y")
      case True
      then show ?thesis using pr Cons by (auto split: if_splits)
    next
      case False
      then have "f x \<le> f z" using pr(2) Cons ih [of z zs] by simp
      then show ?thesis using pr(1) Cons by (auto split: if_splits)
    qed
  qed
qed

lemma latest_by_Some:
  assumes "latest_by f rows = Some r"
  shows "r \<in> set rows" "\<And>x. x \<in> set rows \<Longrightarrow> f x \<le> f r"
proof -
  obtain rs where s: "js_sort (\<lambda>a b. int (f b) - int (f a)) rows = r # rs"
    using assms by (auto simp: latest_by_def split: list.splits)
  show "r \<in> set rows" using arg_cong [OF s, of set] by auto
  show "\<And>x. x \<in> set rows \<Longrightarrow> f x \<le> f r" by (rule sort_desc_head [OF s])
qed

lemma latest_by_None: "latest_by f rows = None \<longleftrightarrow> rows = []"
proof -
  have "js_sort c rows = [] \<longleftrightarrow> rows = []" for c by (metis length_js_sort length_0_conv)
  then show ?thesis unfolding latest_by_def by (metis list.case(1) list.case(2) neq_Nil_conv option.distinct(1))
qed

lemma latest_attempt_Some:
  assumes "latest_attempt db i = Some a"
  shows "a \<in> set (payoutAttempts db)" "pa_claimId a = i"
    "\<And>x. x \<in> set (payoutAttempts db) \<Longrightarrow> pa_claimId x = i \<Longrightarrow> pa_attemptNumber x \<le> pa_attemptNumber a"
  using latest_by_Some [OF assms [unfolded latest_attempt_def]] by auto

lemma latest_attempt_None: "latest_attempt db i = None \<longleftrightarrow> (\<forall>a\<in>set (payoutAttempts db). pa_claimId a \<noteq> i)"
  by (simp add: latest_attempt_def latest_by_None filter_empty_conv)

lemma find_attempt_sel: "find_attempt db i = Some a \<Longrightarrow> a \<in> set (payoutAttempts db) \<and> pa_attemptId a = i"
  by (auto simp: find_attempt_def dest: find_Some_set)

section \<open>New journals\<close>

lemma same_frame_payouts:
  assumes "same_frame db db'"
  shows "payoutAttempts db' = payoutAttempts db" "identityChecks db' = identityChecks db"
    "payoutAccounts db' = payoutAccounts db" "whtDeductions db' = whtDeductions db"
  using assms by (auto simp: same_frame_def)

lemma new_journal:
  assumes "postInternal env inp rv db = Inr (v, db')" "ledger_ok db"
    and "js_trim (pi_idempotencyKey inp) = k" "find_txn_by_key db k = None"
  shows "ledger_ok db'" "same_frame db db'"
    "find_txn_by_key db' k' = (if k' = k then Some (tv_txn v) else find_txn_by_key db k')"
    "lt_totalAmountNgn (tv_txn v) = debits (pi_lines inp)" "lt_kind (tv_txn v) = pi_kind inp"
    "lt_reversesLedgerTxnId (tv_txn v) = rv" "lt_ledgerTxnId (tv_txn v) = e_uuid env (seq db)"
    "find_txn db (e_uuid env (seq db)) = None"
    "find_reversal_of db' j = (if rv = Some j then Some (tv_txn v) else find_reversal_of db j)"
    "find_txn db' (lt_ledgerTxnId (tv_txn v)) = Some (tv_txn v)"
    "find_txn db j = Some t \<Longrightarrow> find_txn db' j = Some t"
proof -
  show "ledger_ok db'" by (rule postInternal_ledger_ok [OF assms(1,2)])
  show "same_frame db db'" by (rule postInternal_frame [OF assms(1)])
  obtain p where f: "prepare env db inp rv = Inr p" "find_txn db (e_uuid env (seq db)) = None"
    "\<And>r. rv = Some r \<Longrightarrow> find_reversal_of db r = None" "db' = posted_db env inp rv p db"
    "tv_txn v = (journal_row env inp rv p)\<lparr>lt_ledgerTxnId := e_uuid env (seq db)\<rparr>"
    using assms(1)
  proof (cases rule: postInternal_cases)
    case (replay p t)
    then show ?thesis using assms(3,4) by simp
  next
    case (fresh p)
    show ?thesis by (rule that) (use fresh in auto)
  qed
  have p: "p = prepared_of env inp rv" using prepare_iff [OF assms(2)] f(1) by blast
  have row: "lt_idempotencyKey (tv_txn v) = k" using assms(3) by (simp add: f(5) journal_row_def p)
  show "lt_totalAmountNgn (tv_txn v) = debits (pi_lines inp)" "lt_kind (tv_txn v) = pi_kind inp"
    "lt_reversesLedgerTxnId (tv_txn v) = rv" "lt_ledgerTxnId (tv_txn v) = e_uuid env (seq db)"
    by (simp_all add: f(5) journal_row_def p)
  show "find_txn db (e_uuid env (seq db)) = None" by (rule f)
  have t: "txns db' = txns db @ [tv_txn v]" by (simp add: f(4,5))
  show "find_txn_by_key db' k' = (if k' = k then Some (tv_txn v) else find_txn_by_key db k')"
    using row assms(4) by (auto simp: t find_txn_by_key_def find_append split: option.splits)
  have "lt_reversesLedgerTxnId (tv_txn v) = rv" by (simp add: f(5) journal_row_def)
  then show "find_reversal_of db' j = (if rv = Some j then Some (tv_txn v) else find_reversal_of db j)"
    using f(3) by (auto simp: t find_reversal_of_def find_append split: option.splits)
  show "find_txn db' (lt_ledgerTxnId (tv_txn v)) = Some (tv_txn v)"
    using f(2) by (simp add: t f(5) find_txn_def find_append)
  show "find_txn db j = Some t \<Longrightarrow> find_txn db' j = Some t" by (simp add: t find_txn_def find_append)
qed

lemma reversal_debits:
  assumes "ledger_ok db" "find_txn db i = Some t"
  shows "debits (pi_lines (reversal_input inp (txn_view db t))) = lt_totalAmountNgn t"
proof -
  have t: "t \<in> set (txns db)" "lt_ledgerTxnId t = i" using assms(2) by (auto simp: find_txn_def dest: find_Some_set)
  have "pi_lines (reversal_input inp (txn_view db t)) = map (reversal_line i) (sort_key le_lineNo (entries_of db i))"
    using t by (simp add: reversal_input_def txn_view_def Let_def comp_def)
  moreover have "debit_part (flip_side s) n = credit_part s n" for s n by (cases s) simp_all
  ultimately have "debits (pi_lines (reversal_input inp (txn_view db t))) =
      sum_by (\<lambda>e. credit_part (le_side e) (le_amountNgn e)) (sort_key le_lineNo (entries_of db i))"
    by (simp add: debits_def reversal_line_def comp_def)
  also have "\<dots> = sum_by (\<lambda>e. credit_part (le_side e) (le_amountNgn e)) (entries_of db i)"
    by (rule sum_by_mset) simp
  also have "\<dots> = lt_totalAmountNgn t" using assms(1) t by (auto simp: ledger_ok_def journal_ok_def)
  finally show ?thesis .
qed

text \<open>A reversal refers to a journal that exists.\<close>

definition reversals_refer :: "db \<Rightarrow> bool" where
  "reversals_refer db \<longleftrightarrow> (\<forall>t\<in>set (txns db). \<forall>j. lt_reversesLedgerTxnId t = Some j \<longrightarrow> find_txn db j \<noteq> None)"

lemma reversals_refer_cong: "txns db' = txns db \<Longrightarrow> reversals_refer db' = reversals_refer db"
  by (simp add: reversals_refer_def find_txn_def)

lemma reversals_refer_post:
  assumes "postInternal env inp rv db = Inr (v, db')" "reversals_refer db" "\<And>j. rv = Some j \<Longrightarrow> find_txn db j \<noteq> None"
  shows "reversals_refer db'"
  using assms(1)
proof (cases rule: postInternal_cases)
  case (replay p t)
  then show ?thesis using assms(2) by simp
next
  case (fresh p)
  then show ?thesis using assms(2,3)
    by (auto simp: reversals_refer_def find_txn_def find_append journal_row_def split: option.splits)
qed

lemma reversals_refer_step:
  assumes "ledger_step db db'" "reversals_refer db"
  shows "reversals_refer db'"
  using assms(1)
proof (cases rule: ledger_step.cases)
  case (step_ensure env inp seen a)
  have "txns db' = txns db" using ensureAccount_append [OF step_ensure(1)] by simp
  then show ?thesis using assms(2) reversals_refer_cong by blast
next
  case (step_post env inp v)
  then show ?thesis using assms(2) reversals_refer_post unfolding postInTransaction_def by blast
next
  case (step_reverse env inp v)
  from step_reverse(1) show ?thesis
  proof (cases rule: reverse_cases)
    case (replay o1 r)
    then show ?thesis using assms(2) by simp
  next
    case (fresh o1)
    have "lt_ledgerTxnId o1 = ri_originalLedgerTxnId inp" using fresh(1) by (auto simp: find_txn_def dest: find_Some_set)
    then have "find_txn db (lt_ledgerTxnId o1) \<noteq> None" using fresh(1) by simp
    then show ?thesis using reversals_refer_post [OF fresh(3) assms(2)] by blast
  qed
next
  case step_other
  then show ?thesis using assms(2) reversals_refer_cong by blast
qed

interpretation refer_run: kept_by_steps ledger_step reversals_refer
  by unfold_locales (rule reversals_refer_step)

lemma no_reversal_yet:
  assumes "reversals_refer db" "find_txn db j = None"
  shows "find_reversal_of db j = None"
  using assms by (cases "find_reversal_of db j") (auto simp: reversals_refer_def find_reversal_of_def dest!: find_Some_set)

section \<open>The journals of an attempt\<close>

definition payout_key :: "string \<Rightarrow> string" where
  "payout_key i = ''ledger:prize-payout:'' @ i"

definition payback_key :: "string \<Rightarrow> string" where
  "payback_key i = ''ledger:prize-payout-reversal:'' @ i"

lemma payout_keys_distinct:
  "payout_key i \<noteq> payback_key j" "payback_key i \<noteq> payout_key j"
  "payout_key i = payout_key j \<longleftrightarrow> i = j" "payback_key i = payback_key j \<longleftrightarrow> i = j"
  "''ledger:prize-accrual:'' @ i \<noteq> payout_key j" "''ledger:prize-accrual:'' @ i \<noteq> payback_key j"
  by (simp_all add: payout_key_def payback_key_def)

text \<open>The payout journal: under its key, for the amount, and named by the attempt.\<close>

definition names_payout :: "db \<Rightarrow> payout_attempt \<Rightarrow> bool" where
  "names_payout db a \<longleftrightarrow> (case pa_payoutLedgerTxnId a of
     None \<Rightarrow> find_txn_by_key db (payout_key (pa_attemptId a)) = None
   | Some j \<Rightarrow> j \<noteq> [] \<and> (\<exists>t. find_txn_by_key db (payout_key (pa_attemptId a)) = Some t \<and> find_txn db j = Some t \<and>
       lt_totalAmountNgn t = pa_amountNgn a \<and> lt_kind t = PRIZE_PAYOUT))"

text \<open>The reversal journal: reverses the payout journal and nothing else does.\<close>

definition names_payback :: "db \<Rightarrow> payout_attempt \<Rightarrow> bool" where
  "names_payback db a \<longleftrightarrow> (case pa_reversalLedgerTxnId a of
     None \<Rightarrow> find_txn_by_key db (payback_key (pa_attemptId a)) = None \<and>
       (\<forall>j. pa_payoutLedgerTxnId a = Some j \<longrightarrow> find_reversal_of db j = None)
   | Some r \<Rightarrow> (\<exists>j t. pa_payoutLedgerTxnId a = Some j \<and> find_reversal_of db j = Some t \<and> lt_ledgerTxnId t = r \<and>
       find_txn_by_key db (payback_key (pa_attemptId a)) = Some t \<and> lt_totalAmountNgn t = pa_amountNgn a))"

definition status_fits :: "payout_attempt \<Rightarrow> bool" where
  "status_fits a \<longleftrightarrow> (pa_payoutLedgerTxnId a \<noteq> None \<longleftrightarrow> pa_status a = PPS_SUCCEEDED \<or> pa_reversalLedgerTxnId a \<noteq> None) \<and>
     (pa_reversalLedgerTxnId a \<noteq> None \<longrightarrow> pa_status a = PPS_REVERSED)"

definition attempt_row :: "db \<Rightarrow> payout_attempt \<Rightarrow> bool" where
  "attempt_row db a \<longleftrightarrow> js_trim (pa_attemptId a) = pa_attemptId a \<and> pa_attemptId a \<noteq> [] \<and>
     names_payout db a \<and> names_payback db a \<and> status_fits a"

definition closed :: "payout_attempt \<Rightarrow> bool" where
  "closed a \<longleftrightarrow> pa_status a = PPS_FAILED \<or> pa_status a = PPS_REVERSED"

definition one_open :: "payout_attempt list \<Rightarrow> bool" where
  "one_open rows \<longleftrightarrow> (\<forall>a\<in>set rows. \<forall>b\<in>set rows. pa_claimId a = pa_claimId b \<longrightarrow>
     pa_attemptNumber a < pa_attemptNumber b \<longrightarrow> closed a)"

definition payout_ok :: "db \<Rightarrow> bool" where
  "payout_ok db \<longleftrightarrow> ledger_ok db \<and> reversals_refer db \<and> attempts_unique (payoutAttempts db) \<and> one_open (payoutAttempts db) \<and>
     (\<forall>a\<in>set (payoutAttempts db). attempt_row db a)"

lemma payout_okD:
  assumes "payout_ok db"
  shows "ledger_ok db" "attempts_unique (payoutAttempts db)" "one_open (payoutAttempts db)"
    "a \<in> set (payoutAttempts db) \<Longrightarrow> attempt_row db a" "reversals_refer db"
  using assms by (simp_all add: payout_ok_def)

lemma attempt_unique:
  assumes "attempts_unique rows" "a \<in> set rows" "b \<in> set rows" "pa_attemptId a = pa_attemptId b"
  shows "a = b"
  using assms by (auto simp: attempts_unique_def intro: distinct_key_eq [of pa_attemptId])

lemma names_payout_cong:
  assumes "find_txn_by_key db' (payout_key (pa_attemptId a)) = find_txn_by_key db (payout_key (pa_attemptId a))"
    "\<And>j t. find_txn db j = Some t \<Longrightarrow> find_txn db' j = Some t"
  shows "names_payout db a \<Longrightarrow> names_payout db' a"
  using assms by (auto simp: names_payout_def split: option.splits)

lemma names_payback_cong:
  assumes "find_txn_by_key db' (payback_key (pa_attemptId a)) = find_txn_by_key db (payback_key (pa_attemptId a))"
    "\<And>j. pa_payoutLedgerTxnId a = Some j \<Longrightarrow> find_reversal_of db' j = find_reversal_of db j"
  shows "names_payback db a \<Longrightarrow> names_payback db' a"
  using assms by (auto simp: names_payback_def split: option.splits)

text \<open>What the other journals leave alone.\<close>

definition keeps_attempt :: "db \<Rightarrow> db \<Rightarrow> payout_attempt \<Rightarrow> bool" where
  "keeps_attempt db db' a \<longleftrightarrow>
     find_txn_by_key db' (payout_key (pa_attemptId a)) = find_txn_by_key db (payout_key (pa_attemptId a)) \<and>
     find_txn_by_key db' (payback_key (pa_attemptId a)) = find_txn_by_key db (payback_key (pa_attemptId a)) \<and>
     (\<forall>j. pa_payoutLedgerTxnId a = Some j \<longrightarrow> find_reversal_of db' j = find_reversal_of db j)"

lemma attempt_row_kept:
  assumes "attempt_row db a" "keeps_attempt db db' a" "\<And>j t. find_txn db j = Some t \<Longrightarrow> find_txn db' j = Some t"
  shows "attempt_row db' a"
  using assms names_payout_cong [of db' a db] names_payback_cong [of db' a db]
  by (auto simp: attempt_row_def keeps_attempt_def)

lemma keeps_attempt_same: "txns db' = txns db \<Longrightarrow> keeps_attempt db db' a"
  by (simp add: keeps_attempt_def find_txn_by_key_def find_reversal_of_def)

definition attempt_id :: "payout_attempt \<Rightarrow> string \<times> string \<times> nat" where
  "attempt_id a = (pa_attemptId a, pa_claimId a, pa_attemptNumber a)"

lemma attempt_idD: "attempt_id x = attempt_id y \<Longrightarrow>
    pa_attemptId x = pa_attemptId y \<and> pa_claimId x = pa_claimId y \<and> pa_attemptNumber x = pa_attemptNumber y"
  by (simp add: attempt_id_def)

lemma one_open_update:
  assumes "one_open rows" "\<And>a. attempt_id (f a) = attempt_id a" "\<And>a. a \<in> set rows \<Longrightarrow> P a \<Longrightarrow> closed a \<Longrightarrow> closed (f a)"
  shows "one_open (update_where P f rows)"
proof -
  have i: "pa_claimId (f a) = pa_claimId a" "pa_attemptNumber (f a) = pa_attemptNumber a" for a
    using attempt_idD [OF assms(2)] by simp_all
  show ?thesis using assms(1,3) unfolding one_open_def set_update_where by (auto simp: i)
qed

text \<open>An operation on the one attempt \<open>i\<close>.\<close>

lemma payout_update:
  assumes "payout_ok db" "ledger_ok db' \<and> reversals_refer db'" "payoutAttempts db' = update_where P f (payoutAttempts db)"
    and "attempts_unique (payoutAttempts db')" "\<And>a. attempt_id (f a) = attempt_id a"
    and "\<And>a. a \<in> set (payoutAttempts db) \<Longrightarrow> P a \<Longrightarrow> closed a \<Longrightarrow> closed (f a)"
    and "\<And>a. a \<in> set (payoutAttempts db) \<Longrightarrow> \<not> P a \<Longrightarrow> keeps_attempt db db' a"
    and "\<And>j t. find_txn db j = Some t \<Longrightarrow> find_txn db' j = Some t"
    and "\<And>a. a \<in> set (payoutAttempts db) \<Longrightarrow> P a \<Longrightarrow> attempt_row db a \<Longrightarrow> attempt_row db' (f a)"
  shows "payout_ok db'"
  unfolding payout_ok_def
proof (intro conjI ballI assms(2) [THEN conjunct1] assms(2) [THEN conjunct2] assms(4))
  show "one_open (payoutAttempts db')"
    unfolding assms(3) by (rule one_open_update [OF payout_okD(3) [OF assms(1)] assms(5,6)])
  fix a' assume "a' \<in> set (payoutAttempts db')"
  then obtain a where a: "a \<in> set (payoutAttempts db)" "a' = (if P a then f a else a)"
    by (auto simp: assms(3) set_update_where)
  have row: "attempt_row db a" by (rule payout_okD(4) [OF assms(1) a(1)])
  show "attempt_row db' a'"
  proof (cases "P a")
    case True
    then show ?thesis using assms(9) [OF a(1) True row] a(2) by simp
  next
    case False
    then show ?thesis using attempt_row_kept [OF row assms(7) [OF a(1) False] assms(8)] a(2) by simp
  qed
qed

section \<open>The operations keep the invariant\<close>

lemma update_attempts_cases:
  assumes "update_attempts P f db = Inr (n, db')"
  shows "db' = db\<lparr>payoutAttempts := update_where P f (payoutAttempts db)\<rparr>" "attempts_unique (payoutAttempts db')"
    "n = length (filter P (payoutAttempts db))"
  using assms by (auto simp: update_attempts_def update_many_def split: if_splits)

lemma link_claim_cases:
  assumes "link_claim f i k db = Inr db'"
  shows "db' = db\<lparr>claims := update_where (\<lambda>c. pc_claimId c = i) f (claims db)\<rparr>"
  using assms by (auto simp: link_claim_def res_simps)

lemma update_claim_cases:
  assumes "update_claim f i db = Inr (c, db')"
  shows "db' = db\<lparr>claims := update_where (\<lambda>c. pc_claimId c = i) f (claims db)\<rparr>" "find_claim db' i = Some c"
  using assms by (auto simp: update_claim_def Let_def res_simps)

lemma ledger_ok_tables:
  "ledger_ok (db\<lparr>payoutAttempts := x\<rparr>) = ledger_ok db" "ledger_ok (db\<lparr>claims := y\<rparr>) = ledger_ok db"
  by (simp_all add: ledger_ok_def entries_of_def)

text \<open>A claim may change as it likes.\<close>

lemma payout_ok_cong:
  assumes "payout_ok db" "payoutAttempts db' = payoutAttempts db" "txns db' = txns db" "ledger_ok db'"
  shows "payout_ok db'"
proof -
  have f: "find_txn db' = find_txn db" by (simp add: find_txn_def fun_eq_iff assms(3))
  have "attempt_row db a \<Longrightarrow> attempt_row db' a" for a
    by (rule attempt_row_kept [OF _ keeps_attempt_same [OF assms(3)]]) (simp_all add: f)
  moreover have "reversals_refer db'" using reversals_refer_cong [OF assms(3)] payout_okD(5) [OF assms(1)] by simp
  ultimately show ?thesis using assms(1) by (simp add: payout_ok_def assms(2,4))
qed

lemma attempt_trim:
  assumes "attempt_row db a"
  shows "js_trim (payout_key (pa_attemptId a)) = payout_key (pa_attemptId a)"
    "js_trim (payback_key (pa_attemptId a)) = payback_key (pa_attemptId a)"
  using assms row_key [of "pa_attemptId a"] l_no_space
  by (auto simp: attempt_row_def payout_key_def payback_key_def simp del: append.simps)

lemma success_cases:
  assumes "success_tx env i result db = Inr ((changed, claimId), db')"
  obtains (unchanged) "\<not> changed" "db' = db"
  | (paid) a c pa cl code v db1 n db2 where "changed" "find_attempt db i = Some a" "claimId = pa_claimId a"
    "find_claim db (pa_claimId a) = Some c" "pa_status a \<in> set NON_TERMINAL_STATUSES" "pc_status c \<noteq> PCS_CASH_PAID"
    "filled (pc_prizeAccrualLedgerTxnId c)" "find_account_by_code db PRIZE_PAYABLE_CODE = Some pa"
    "prizeClearingCode (pa_provider a) = Inr code" "find_account_by_code db code = Some cl"
    "postInTransaction env (payout_post a result (la_accountId pa) (la_accountId cl)) db = Inr (v, db1)"
    "update_attempts (\<lambda>a. pa_attemptId a = i) (succeeded_attempt (e_now env) result (lt_ledgerTxnId (tv_txn v))) db1 = Inr (n, db2)"
    "link_claim (paid_claim (e_now env) a result) (pa_claimId a) (pa_idempotencyKey a) db2 = Inr db'"
proof -
  note s = assms [unfolded success_tx_def]
  obtain a where a: "find_attempt db i = Some a" using s by (auto simp: res_simps)
  obtain c where c: "find_claim db (pa_claimId a) = Some c" using s a by (auto simp: res_simps)
  note s = s [unfolded a c from_option_Some bind_res_Inr]
  let ?skip = "pa_status a \<notin> set NON_TERMINAL_STATUSES \<or> pc_status c = PCS_CASH_PAID \<or>
    (\<exists>x\<in>set (payoutAttempts db). pa_claimId x = pa_claimId a \<and> pa_attemptId x \<noteq> pa_attemptId a \<and> pa_status x = PPS_SUCCEEDED)"
  show thesis
  proof (cases ?skip)
    case True
    then have "\<not> changed \<and> db' = db" using s by (auto split: if_split_asm)
    then show thesis using unchanged by simp
  next
    case False
    then have p: "pa_status a \<in> set NON_TERMINAL_STATUSES" "pc_status c \<noteq> PCS_CASH_PAID"
      "\<not> (\<exists>x\<in>set (payoutAttempts db). pa_claimId x = pa_claimId a \<and> pa_attemptId x \<noteq> pa_attemptId a \<and> pa_status x = PPS_SUCCEEDED)"
      by blast+
    note s = s [unfolded if_not_P [OF p(3)]]
    have np: "\<not> pa_status a \<notin> set NON_TERMINAL_STATUSES" using p(1) by simp
    note s = s [unfolded if_not_P [OF np] if_not_P [OF p(2)] if_res_eq_Inr]
    obtain pa cl code v db1 n db2 where q: "changed" "claimId = pa_claimId a"
      "filled (pc_prizeAccrualLedgerTxnId c)" "find_account_by_code db PRIZE_PAYABLE_CODE = Some pa"
      "prizeClearingCode (pa_provider a) = Inr code" "find_account_by_code db code = Some cl"
      "postInTransaction env (payout_post a result (la_accountId pa) (la_accountId cl)) db = Inr (v, db1)"
      "update_attempts (\<lambda>a. pa_attemptId a = i) (succeeded_attempt (e_now env) result (lt_ledgerTxnId (tv_txn v))) db1 = Inr (n, db2)"
      "link_claim (paid_claim (e_now env) a result) (pa_claimId a) (pa_idempotencyKey a) db2 = Inr db'"
      using s by (auto simp: res_simps payout_account_of_def)
    show thesis by (rule paid [OF q(1) a q(2) c p(1,2) q(3-9)])
  qed
qed

lemma payout_debits: "debits (pi_lines (payout_post a result x y)) = pa_amountNgn a"
  by (simp add: payout_post_def transfer_debits)

lemma find_attempt_mem:
  assumes "payout_ok db" "find_attempt db i = Some a" "x \<in> set (payoutAttempts db)" "pa_attemptId x = i"
  shows "x = a"
  using attempt_unique [OF payout_okD(2) [OF assms(1)] assms(3)] find_attempt_sel [OF assms(2)] assms(4) by simp

lemma open_unlinked: "status_fits a \<Longrightarrow> pa_status a \<in> set NON_TERMINAL_STATUSES \<Longrightarrow>
    pa_payoutLedgerTxnId a = None \<and> pa_reversalLedgerTxnId a = None"
  by (auto simp: status_fits_def NON_TERMINAL_STATUSES_def)

lemma non_terminal_open: "pa_status a \<in> set NON_TERMINAL_STATUSES \<Longrightarrow> \<not> closed a"
  by (auto simp: closed_def NON_TERMINAL_STATUSES_def)

lemma success_keeps:
  assumes "success_tx env i result db = Inr ((changed, claimId), db')" "payout_ok db" "uuid_ok env"
  shows "payout_ok db'"
  using assms(1)
proof (cases rule: success_cases)
  case unchanged
  then show ?thesis using assms(2) by simp
next
  case (paid a c pa cl code v db1 n db2)
  note ok = payout_okD [OF assms(2)]
  note a = find_attempt_sel [OF paid(2)]
  then have row: "attempt_row db a" using ok(4) by blast
  have l: "pa_payoutLedgerTxnId a = None" "pa_reversalLedgerTxnId a = None"
    using open_unlinked [OF _ paid(5)] row by (simp_all add: attempt_row_def)
  have un: "find_txn_by_key db (payout_key i) = None" using row l a by (simp add: attempt_row_def names_payout_def)
  have k: "js_trim (pi_idempotencyKey (payout_post a result (la_accountId pa) (la_accountId cl))) = payout_key i"
    using attempt_trim(1) [OF row] a by (simp add: payout_post_def payout_key_def)
  note j = new_journal [OF paid(11) [unfolded postInTransaction_def] ok(1) k un]
  note u = update_attempts_cases [OF paid(12)] and cl = link_claim_cases [OF paid(13)]
  have fr: "payoutAttempts db1 = payoutAttempts db" by (rule same_frame_payouts(1) [OF j(2)])
  let ?f = "succeeded_attempt (e_now env) result (lt_ledgerTxnId (tv_txn v))"
  have t: "find_txn_by_key db' = find_txn_by_key db1" "find_reversal_of db' = find_reversal_of db1" "find_txn db' = find_txn db1"
    by (simp_all add: cl u(1) find_txn_by_key_def find_reversal_of_def find_txn_def fun_eq_iff)
  show ?thesis
  proof (rule payout_update [OF assms(2)])
    show "ledger_ok db' \<and> reversals_refer db'"
      using j(1) reversals_refer_post [OF paid(11) [unfolded postInTransaction_def] ok(5)] reversals_refer_cong [of db' db1]
      by (simp add: cl u(1) ledger_ok_tables)
    show "payoutAttempts db' = update_where (\<lambda>a. pa_attemptId a = i) ?f (payoutAttempts db)" by (simp add: cl u(1) fr)
    show "attempts_unique (payoutAttempts db')" using u(2) by (simp add: cl)
    show "attempt_id (?f x) = attempt_id x" for x by (simp add: attempt_id_def succeeded_attempt_def)
    show "closed (?f x)" if "x \<in> set (payoutAttempts db)" "pa_attemptId x = i" "closed x" for x
      using that find_attempt_mem [OF assms(2) paid(2)] non_terminal_open [OF paid(5)] by simp
    show "keeps_attempt db db' x" if "x \<in> set (payoutAttempts db)" "pa_attemptId x \<noteq> i" for x
      using that by (simp add: keeps_attempt_def t j(3,9) payout_keys_distinct)
    show "find_txn db' x = Some y" if "find_txn db x = Some y" for x y using j(11) [OF that] by (simp add: t)
    show "attempt_row db' (?f x)" if "x \<in> set (payoutAttempts db)" "pa_attemptId x = i" for x
    proof -
      have x: "x = a" by (rule find_attempt_mem [OF assms(2) paid(2) that])
      have "lt_ledgerTxnId (tv_txn v) \<noteq> []" using assms(3) by (simp add: j(7) uuid_ok_def)
      moreover have "find_reversal_of db (lt_ledgerTxnId (tv_txn v)) = None"
        using no_reversal_yet [OF ok(5) j(8)] by (simp add: j(7))
      ultimately show ?thesis
        using row l a by (simp add: x attempt_row_def names_payout_def names_payback_def status_fits_def succeeded_attempt_def
          t j(3,4,5,9,10) payout_keys_distinct payout_debits, simp add: payout_post_def)
    qed
  qed
qed

lemma checked_keeps:
  assumes "update_attempts (in_flight i) (checked_attempt now result seen status reason) db = Inr (n, db')" "payout_ok db"
    "status \<noteq> PPS_SUCCEEDED" "status \<noteq> PPS_REVERSED"
  shows "payout_ok db'"
proof -
  note u = update_attempts_cases [OF assms(1)] and ok = payout_okD [OF assms(2)]
  let ?f = "checked_attempt now result seen status reason"
  have t: "txns db' = txns db" by (simp add: u(1))
  show ?thesis
  proof (rule payout_update [OF assms(2) _ _ u(2)])
    show "ledger_ok db' \<and> reversals_refer db'"
      using ok(1,5) reversals_refer_cong [OF t] by (simp add: u(1) ledger_ok_tables)
    show "payoutAttempts db' = update_where (in_flight i) ?f (payoutAttempts db)" by (simp add: u(1))
    show "attempt_id (?f a) = attempt_id a" for a by (simp add: attempt_id_def checked_attempt_def)
    show "closed (?f a)" if "in_flight i a" "closed a" for a
      using that non_terminal_open [of a] by (simp add: in_flight_def)
    show "keeps_attempt db db' a" for a by (rule keeps_attempt_same [OF t])
    show "find_txn db' j = Some x" if "find_txn db j = Some x" for j x using that by (simp add: find_txn_def t)
    show "attempt_row db' (?f a)" if "in_flight i a" "attempt_row db a" for a
    proof -
      have "pa_payoutLedgerTxnId a = None \<and> pa_reversalLedgerTxnId a = None"
        using that open_unlinked [of a] by (simp add: attempt_row_def in_flight_def)
      then show ?thesis using that(2) assms(3,4)
        by (simp add: attempt_row_def names_payout_def names_payback_def status_fits_def checked_attempt_def
            find_txn_by_key_def find_reversal_of_def t)
    qed
  qed
qed

lemma reverse_tx_cases:
  assumes "reverse_tx env i result db = Inr (changed, db')"
  obtains (unchanged) "\<not> changed" "db' = db"
  | (unbooked) a n db2 c where "changed" "find_attempt db i = Some a" "pa_payoutLedgerTxnId a = None \<or> pa_payoutLedgerTxnId a = Some []"
    "pa_status a = PPS_SUCCEEDED \<or> pa_status a \<in> set NON_TERMINAL_STATUSES"
    "update_attempts (\<lambda>a. pa_attemptId a = i) (reversed_attempt (e_now env) result None) db = Inr (n, db2)"
    "update_claim (reopened_claim (e_now env) a result) (pa_claimId a) db2 = Inr (c, db')"
  | (booked) a j v db1 n db2 c where "changed" "find_attempt db i = Some a" "pa_payoutLedgerTxnId a = Some j" "j \<noteq> []"
    "pa_status a = PPS_SUCCEEDED \<or> pa_status a \<in> set NON_TERMINAL_STATUSES"
    "reverseInTransaction env (reversal_of a result j) db = Inr (v, db1)"
    "update_attempts (\<lambda>a. pa_attemptId a = i) (reversed_attempt (e_now env) result (Some (lt_ledgerTxnId (tv_txn v)))) db1 = Inr (n, db2)"
    "update_claim (reopened_claim (e_now env) a result) (pa_claimId a) db2 = Inr (c, db')"
proof -
  note s = assms [unfolded reverse_tx_def]
  obtain a where a: "find_attempt db i = Some a" using s by (auto simp: res_simps)
  note s = s [unfolded a from_option_Some bind_res_Inr]
  show thesis
  proof (cases "pa_status a \<noteq> PPS_SUCCEEDED \<and> pa_status a \<notin> set NON_TERMINAL_STATUSES")
    case True
    then show thesis using s unchanged by simp
  next
    case False
    then have st: "pa_status a = PPS_SUCCEEDED \<or> pa_status a \<in> set NON_TERMINAL_STATUSES" by blast
    note s = s [unfolded if_not_P [OF False]]
    show thesis
    proof (cases "pa_payoutLedgerTxnId a = None \<or> pa_payoutLedgerTxnId a = Some []")
      case True
      then obtain n db2 c where "changed"
        "update_attempts (\<lambda>a. pa_attemptId a = i) (reversed_attempt (e_now env) result None) db = Inr (n, db2)"
        "update_claim (reopened_claim (e_now env) a result) (pa_claimId a) db2 = Inr (c, db')"
        using s by (auto simp: res_simps)
      then show thesis using unbooked [OF _ a True st] by blast
    next
      case False
      then obtain j where j: "pa_payoutLedgerTxnId a = Some j" "j \<noteq> []" by (cases "pa_payoutLedgerTxnId a") auto
      then obtain v db1 n db2 c where "changed" "reverseInTransaction env (reversal_of a result j) db = Inr (v, db1)"
        "update_attempts (\<lambda>a. pa_attemptId a = i) (reversed_attempt (e_now env) result (Some (lt_ledgerTxnId (tv_txn v)))) db1 = Inr (n, db2)"
        "update_claim (reopened_claim (e_now env) a result) (pa_claimId a) db2 = Inr (c, db')"
        using s by (auto simp: res_simps)
      then show thesis using booked [OF _ a j st] by blast
    qed
  qed
qed

lemma reverse_keeps:
  assumes "reverse_tx env i result db = Inr (changed, db')" "payout_ok db"
  shows "payout_ok db'"
  using assms(1)
proof (cases rule: reverse_tx_cases)
  case unchanged
  then show ?thesis using assms(2) by simp
next
  case (unbooked a n db2 c)
  note u = update_attempts_cases [OF unbooked(5)] and cl = update_claim_cases(1) [OF unbooked(6)] and ok = payout_okD [OF assms(2)]
  note a = find_attempt_sel [OF unbooked(2)]
  have row: "attempt_row db a" using ok(4) a by blast
  have none: "pa_payoutLedgerTxnId a = None"
    using unbooked(3) row by (auto simp: attempt_row_def names_payout_def)
  then have "pa_status a \<noteq> PPS_SUCCEEDED" using row by (simp add: attempt_row_def status_fits_def)
  then have l: "pa_payoutLedgerTxnId a = None" "pa_reversalLedgerTxnId a = None"
    using unbooked(4) open_unlinked [of a] row by (simp_all add: attempt_row_def)
  have t: "txns db' = txns db" by (simp add: cl u(1))
  let ?f = "reversed_attempt (e_now env) result None"
  show ?thesis
  proof (rule payout_update [OF assms(2)])
    show "ledger_ok db' \<and> reversals_refer db'"
      using ok(1,5) reversals_refer_cong [OF t] by (simp add: cl u(1) ledger_ok_tables)
    show "payoutAttempts db' = update_where (\<lambda>a. pa_attemptId a = i) ?f (payoutAttempts db)" by (simp add: cl u(1))
    show "attempts_unique (payoutAttempts db')" using u(2) by (simp add: cl)
    show "attempt_id (?f x) = attempt_id x" for x by (simp add: attempt_id_def reversed_attempt_def)
    show "closed (?f x)" for x by (simp add: closed_def reversed_attempt_def)
    show "keeps_attempt db db' x" for x by (rule keeps_attempt_same [OF t])
    show "find_txn db' j = Some x" if "find_txn db j = Some x" for j x using that by (simp add: find_txn_def t)
    show "attempt_row db' (?f x)" if "x \<in> set (payoutAttempts db)" "pa_attemptId x = i" for x
      using row l by (simp add: find_attempt_mem [OF assms(2) unbooked(2) that] attempt_row_def names_payout_def
          names_payback_def status_fits_def reversed_attempt_def find_txn_by_key_def find_reversal_of_def t)
  qed
next
  case (booked a j v db1 n db2 c)
  note ok = payout_okD [OF assms(2)] and a = find_attempt_sel [OF booked(2)]
  have row: "attempt_row db a" using ok(4) a by blast
  have l: "pa_reversalLedgerTxnId a = None"
    using row booked(5) by (auto simp: attempt_row_def status_fits_def NON_TERMINAL_STATUSES_def)
  obtain t where t: "find_txn_by_key db (payout_key i) = Some t" "find_txn db j = Some t" "lt_totalAmountNgn t = pa_amountNgn a"
    "lt_kind t = PRIZE_PAYOUT" using row booked(3) a by (auto simp: attempt_row_def names_payout_def)
  have un: "find_txn_by_key db (payback_key i) = None" "find_reversal_of db j = None"
    using row l booked(3) a by (simp_all add: attempt_row_def names_payback_def)
  let ?in = "reversal_of a result j"
  have o: "ri_originalLedgerTxnId ?in = j" "lt_ledgerTxnId t = j" using t(2) by (auto simp: reversal_of_def find_txn_def dest: find_Some_set)
  have p: "postInternal env (reversal_input ?in (txn_view db t)) (Some j) db = Inr (v, db1)"
    using booked(6) t(2) un(2) o by (simp add: reverseInTransaction_def)
  have k: "js_trim (pi_idempotencyKey (reversal_input ?in (txn_view db t))) = payback_key i"
    using attempt_trim(2) [OF row] a by (simp add: reversal_input_def reversal_of_def Let_def payback_key_def)
  note q = new_journal [OF p ok(1) k un(1)] and r = reversal_debits [OF ok(1) t(2), of ?in]
  note u = update_attempts_cases [OF booked(7)] and cl = update_claim_cases(1) [OF booked(8)]
  have fr: "payoutAttempts db1 = payoutAttempts db" by (rule same_frame_payouts(1) [OF q(2)])
  let ?f = "reversed_attempt (e_now env) result (Some (lt_ledgerTxnId (tv_txn v)))"
  have f: "find_txn_by_key db' = find_txn_by_key db1" "find_reversal_of db' = find_reversal_of db1" "find_txn db' = find_txn db1"
    by (simp_all add: cl u(1) find_txn_by_key_def find_reversal_of_def find_txn_def fun_eq_iff)
  show ?thesis
  proof (rule payout_update [OF assms(2)])
    show "ledger_ok db' \<and> reversals_refer db'"
      using q(1) reversals_refer_post [OF p ok(5)] t(2) reversals_refer_cong [of db' db1] by (simp add: cl u(1) ledger_ok_tables)
    show "payoutAttempts db' = update_where (\<lambda>a. pa_attemptId a = i) ?f (payoutAttempts db)" by (simp add: cl u(1) fr)
    show "attempts_unique (payoutAttempts db')" using u(2) by (simp add: cl)
    show "attempt_id (?f x) = attempt_id x" for x by (simp add: attempt_id_def reversed_attempt_def)
    show "closed (?f x)" for x by (simp add: closed_def reversed_attempt_def)
    show "find_txn db' x = Some y" if "find_txn db x = Some y" for x y using q(11) [OF that] by (simp add: f)
    show "keeps_attempt db db' x" if "x \<in> set (payoutAttempts db)" "pa_attemptId x \<noteq> i" for x
    proof -
      have "pa_payoutLedgerTxnId x \<noteq> Some j"
      proof
        assume e: "pa_payoutLedgerTxnId x = Some j"
        then have "find_txn_by_key db (payout_key (pa_attemptId x)) = Some t"
          using ok(4) [OF that(1)] t(2) by (auto simp: attempt_row_def names_payout_def)
        then have "payout_key (pa_attemptId x) = payout_key i"
          using t(1) by (auto simp: find_txn_by_key_def dest!: find_Some_set)
        then show False using that(2) by (simp add: payout_keys_distinct)
      qed
      then show ?thesis using that(2) by (auto simp: keeps_attempt_def f q(3,9) payout_keys_distinct)
    qed
    show "attempt_row db' (?f x)" if "x \<in> set (payoutAttempts db)" "pa_attemptId x = i" for x
    proof -
      have x: "x = a" by (rule find_attempt_mem [OF assms(2) booked(2) that])
      have sel: "pa_attemptId (?f a) = i" "pa_payoutLedgerTxnId (?f a) = Some j" "pa_amountNgn (?f a) = pa_amountNgn a"
        "pa_reversalLedgerTxnId (?f a) = Some (lt_ledgerTxnId (tv_txn v))" "pa_status (?f a) = PPS_REVERSED"
        using a booked(3) by (simp_all add: reversed_attempt_def)
      have "find_txn_by_key db' (payout_key i) = Some t" using t(1) by (simp add: f q(3) payout_keys_distinct)
      moreover have "find_txn db' j = Some t" using q(11) [OF t(2)] by (simp add: f)
      ultimately have "names_payout db' (?f a)" using t(3,4) booked(4) by (simp add: names_payout_def sel)
      moreover have "find_txn_by_key db' (payback_key i) = Some (tv_txn v)" "find_reversal_of db' j = Some (tv_txn v)"
        by (simp_all add: f q(3,9))
      then have "names_payback db' (?f a)" using q(4) r t(3) by (simp add: names_payback_def sel)
      moreover have "status_fits (?f a)" by (simp add: status_fits_def sel)
      ultimately show ?thesis using row a by (simp add: x attempt_row_def sel)
    qed
  qed
qed

section \<open>Reservation keeps it\<close>

lemma js_trim_colon: "\<exists>j. js_trim (CHR ''l'' # p @ CHR '':'' # i) = CHR ''l'' # p @ CHR '':'' # j"
proof -
  have c: "\<not> is_js_space CHR '':''" by code_simp
  have "\<exists>k. dropWhile is_js_space (rev i @ CHR '':'' # q) = rev k @ CHR '':'' # q" for q
    by (rule exI [of _ "rev (dropWhile is_js_space (rev i))"])
       (cases "\<forall>x\<in>set (rev i). is_js_space x"; auto simp: dropWhile_append c)
  then show ?thesis using l_no_space by (auto simp: js_trim_def)
qed

lemma other_post_keeps:
  assumes "postInTransaction env inp db = Inr (v, db')" "payout_ok db"
    and "\<And>i. js_trim (pi_idempotencyKey inp) \<noteq> payout_key i \<and> js_trim (pi_idempotencyKey inp) \<noteq> payback_key i"
  shows "payout_ok db'" "payoutAttempts db' = payoutAttempts db"
    "find_txn_by_key db' (payout_key i) = find_txn_by_key db (payout_key i)"
    "find_txn_by_key db' (payback_key i) = find_txn_by_key db (payback_key i)"
proof -
  note ok = payout_okD [OF assms(2)] and p = assms(1) [unfolded postInTransaction_def]
  have "payout_ok db' \<and> payoutAttempts db' = payoutAttempts db \<and>
    (\<forall>i. find_txn_by_key db' (payout_key i) = find_txn_by_key db (payout_key i) \<and>
      find_txn_by_key db' (payback_key i) = find_txn_by_key db (payback_key i))"
  proof (cases "find_txn_by_key db (js_trim (pi_idempotencyKey inp))")
    case None
    note j = new_journal [OF p ok(1) refl None]
    have t: "find_txn_by_key db' (payout_key i) = find_txn_by_key db (payout_key i)"
      "find_txn_by_key db' (payback_key i) = find_txn_by_key db (payback_key i)" for i
      using assms(3) [of i] by (auto simp: j(3))
    have "attempt_row db' a" if "attempt_row db a" for a
      by (rule attempt_row_kept [OF that]) (simp_all add: keeps_attempt_def t j(9,11))
    then show ?thesis using assms(2) j(1) t same_frame_payouts(1) [OF j(2)] reversals_refer_post [OF p ok(5)]
      by (simp add: payout_ok_def)
  next
    case (Some t)
    from p have "db' = db" by (cases rule: postInternal_cases) (use Some in auto)
    then show ?thesis using assms(2) by simp
  qed
  then show "payout_ok db'" "payoutAttempts db' = payoutAttempts db"
    "find_txn_by_key db' (payout_key i) = find_txn_by_key db (payout_key i)"
    "find_txn_by_key db' (payback_key i) = find_txn_by_key db (payback_key i)" by blast+
qed

lemma accrual_posts:
  assumes "ensurePrizeAccrual env c db = Inr db'"
  shows "db' = db \<or> (\<exists>ls v db1 cs. postInTransaction env (engine_accrual_post c ls) db = Inr (v, db1) \<and> db' = db1\<lparr>claims := cs\<rparr>)"
proof (cases "filled (pc_prizeAccrualLedgerTxnId c)")
  case True
  then show ?thesis using assms by (simp add: ensurePrizeAccrual_def)
next
  case False
  note e = assms [unfolded ensurePrizeAccrual_def if_not_P [OF False]]
  obtain x y w v db1 cs where "postInTransaction env (engine_accrual_post c (accrual_lines c x y w)) db = Inr (v, db1)"
    "db' = db1\<lparr>claims := cs\<rparr>"
    using e by (simp only: if_res_eq_Inr bind_res_eq_Inr split_paired_Ex prod.case sum.inject) blast
  then show ?thesis by blast
qed

lemma accrual_keeps:
  assumes "ensurePrizeAccrual env c db = Inr db'" "payout_ok db"
  shows "payout_ok db'" "payoutAttempts db' = payoutAttempts db"
    "find_txn_by_key db' (payout_key i) = find_txn_by_key db (payout_key i)"
    "find_txn_by_key db' (payback_key i) = find_txn_by_key db (payback_key i)"
proof -
  consider (same) "db' = db" | (posted) ls v db1 cs where "postInTransaction env (engine_accrual_post c ls) db = Inr (v, db1)"
    "db' = db1\<lparr>claims := cs\<rparr>" using accrual_posts [OF assms(1)] by blast
  then have "payout_ok db' \<and> payoutAttempts db' = payoutAttempts db \<and>
    (\<forall>i. find_txn_by_key db' (payout_key i) = find_txn_by_key db (payout_key i) \<and>
      find_txn_by_key db' (payback_key i) = find_txn_by_key db (payback_key i))"
  proof cases
    case same
    then show ?thesis using assms(2) by simp
  next
    case posted
    have k: "js_trim (pi_idempotencyKey (engine_accrual_post c ls)) \<noteq> payout_key i \<and>
        js_trim (pi_idempotencyKey (engine_accrual_post c ls)) \<noteq> payback_key i" for i
      using js_trim_colon [of "''edger:prize-accrual''" "pc_claimId c"]
      by (auto simp: engine_accrual_post_def payout_key_def payback_key_def)
    note o = other_post_keeps [OF posted(1) assms(2) k]
    have "payout_ok db'" by (rule payout_ok_cong [OF o(1)]) (use payout_okD(1) [OF o(1)] in \<open>simp_all add: posted(2) ledger_ok_tables\<close>)
    moreover have "find_txn_by_key db' = find_txn_by_key db1" by (simp add: posted(2) find_txn_by_key_def fun_eq_iff)
    ultimately show ?thesis using o(2-4) by (simp add: posted(2))
  qed
  then show "payout_ok db'" "payoutAttempts db' = payoutAttempts db"
    "find_txn_by_key db' (payout_key i) = find_txn_by_key db (payout_key i)"
    "find_txn_by_key db' (payback_key i) = find_txn_by_key db (payback_key i)" by blast+
qed

lemma reserve_cases:
  assumes "reserve_tx G uuid claimId adminId provider retry db = Inr (r, db')"
  obtains c d h db1 db2 where "find_claim db claimId = Some c" "payable_claim c (latest_attempt db claimId) = Inr ()"
    "attempt_allowed retry c (latest_attempt db claimId) = Inr ()" "requireLocked G db c = Inr d"
    "ensurePrizeAccrual G c db = Inr db1" "h = e_sha256 G (normalizeName (ds_accountName d))"
    "create_attempt G (new_attempt G adminId provider (''sw-prize-'' @ uuid) c
       (case latest_attempt db claimId of None \<Rightarrow> 1 | Some l \<Rightarrow> pa_attemptNumber l + 1) d h) db1 = Inr (ry_attempt r, db2)"
    "link_claim (requested_claim (e_now G) provider (''sw-prize-'' @ uuid)) claimId (''sw-prize-'' @ uuid) db2 = Inr db'"
    "\<And>l. latest_attempt db claimId = Some l \<Longrightarrow> retry \<Longrightarrow> same_destination G d h l = Inr ()"
    "ry_winnerTicketRef r = pc_winnerTicketRef c" "ry_destination r = d"
proof -
  note s = assms [unfolded reserve_tx_def Let_def]
  have n: "(case x of None \<Rightarrow> 0 | Some l \<Rightarrow> pa_attemptNumber l) + 1 = (case x of None \<Rightarrow> 1 | Some l \<Rightarrow> pa_attemptNumber l + 1)" for x
    by (cases x) simp_all
  obtain c where c: "find_claim db claimId = Some c" using s by (auto simp: res_simps)
  note s = s [unfolded c from_option_Some bind_res_Inr n]
  obtain d db1 a db2 where q: "payable_claim c (latest_attempt db claimId) = Inr ()"
    "attempt_allowed retry c (latest_attempt db claimId) = Inr ()" "requireLocked G db c = Inr d"
    "(case latest_attempt db claimId of None \<Rightarrow> Inr () | Some l \<Rightarrow> (if retry then same_destination G d (e_sha256 G (normalizeName (ds_accountName d))) l else Inr ())) = Inr ()"
    "ensurePrizeAccrual G c db = Inr db1"
    "create_attempt G (new_attempt G adminId provider (''sw-prize-'' @ uuid) c
       (case latest_attempt db claimId of None \<Rightarrow> 1 | Some l \<Rightarrow> pa_attemptNumber l + 1) d (e_sha256 G (normalizeName (ds_accountName d)))) db1 = Inr (a, db2)"
    "link_claim (requested_claim (e_now G) provider (''sw-prize-'' @ uuid)) claimId (''sw-prize-'' @ uuid) db2 = Inr db'"
    "r = \<lparr>ry_attempt = a, ry_winnerTicketRef = pc_winnerTicketRef c, ry_destination = d\<rparr>"
    using s by (auto simp only: bind_res_eq_Inr split_paired_Ex prod.case sum.inject prod.inject unit_eq)
  show thesis
    by (rule that [OF c q(1-3) q(5) refl]) (use q in \<open>auto split: option.splits\<close>)
qed

lemma create_attempt_cases:
  assumes "create_attempt env a0 db = Inr (a, db')"
  shows "a = a0\<lparr>pa_attemptId := e_uuid env (seq db)\<rparr>" "attempts_unique (payoutAttempts db @ [a])"
    "db' = db\<lparr>payoutAttempts := payoutAttempts db @ [a], seq := seq db + 1\<rparr>"
  using assms by (auto simp: create_attempt_def Let_def split: if_splits)

text \<open>The attempt before the new one is closed, and so are all before that.\<close>

lemma one_open_append:
  assumes "payout_ok db" "attempt_allowed retry c (latest_attempt db i) = Inr ()" "pa_claimId a = i"
    "pa_attemptNumber a = (case latest_attempt db i of None \<Rightarrow> 1 | Some l \<Rightarrow> pa_attemptNumber l + 1)"
  shows "one_open (payoutAttempts db @ [a])"
proof -
  have old: "pa_attemptNumber x < pa_attemptNumber a \<and> closed x" if x: "x \<in> set (payoutAttempts db)" "pa_claimId x = i" for x
  proof -
    obtain l where l: "latest_attempt db i = Some l" using x latest_attempt_None [of db i] by (cases "latest_attempt db i") auto
    note f = latest_attempt_Some [OF l]
    have c: "closed l" using assms(2) l by (auto simp: attempt_allowed_def closed_def split: if_splits)
    have le: "pa_attemptNumber x \<le> pa_attemptNumber l" by (rule f(3) [OF x])
    have "closed x"
    proof (cases "pa_attemptNumber x = pa_attemptNumber l")
      case True
      then have "attempt_number_key x = attempt_number_key l" using x f by (simp add: attempt_number_key_def)
      then have "x = l" using payout_okD(2) [OF assms(1)] x f distinct_key_eq [of attempt_number_key]
        by (auto simp: attempts_unique_def)
      then show ?thesis using c by simp
    next
      case False
      then have "pa_attemptNumber x < pa_attemptNumber l" using le by simp
      then show ?thesis using payout_okD(3) [OF assms(1)] x f(1,2) unfolding one_open_def by metis
    qed
    then show ?thesis using assms(4) l le by simp
  qed
  show ?thesis using payout_okD(3) [OF assms(1)] old assms(3) by (fastforce simp: one_open_def)
qed

lemma reserve_keeps:
  assumes "reserve_tx G uuid claimId adminId provider retry db = Inr (r, db')" "payout_ok db" "uuid_ok G"
    and un: "find_txn_by_key db (payout_key (pa_attemptId (ry_attempt r))) = None"
      "find_txn_by_key db (payback_key (pa_attemptId (ry_attempt r))) = None"
  shows "payout_ok db'" "payoutAttempts db' = payoutAttempts db @ [ry_attempt r]"
proof -
  obtain c d h db1 db2 where q: "find_claim db claimId = Some c" "attempt_allowed retry c (latest_attempt db claimId) = Inr ()"
    "ensurePrizeAccrual G c db = Inr db1"
    "create_attempt G (new_attempt G adminId provider (''sw-prize-'' @ uuid) c
       (case latest_attempt db claimId of None \<Rightarrow> 1 | Some l \<Rightarrow> pa_attemptNumber l + 1) d h) db1 = Inr (ry_attempt r, db2)"
    "link_claim (requested_claim (e_now G) provider (''sw-prize-'' @ uuid)) claimId (''sw-prize-'' @ uuid) db2 = Inr db'"
    using assms(1) by (rule reserve_cases)
  note e = accrual_keeps [OF q(3) assms(2)] and k = create_attempt_cases [OF q(4)] and l = link_claim_cases [OF q(5)]
  let ?a = "ry_attempt r"
  have sel: "pa_claimId ?a = claimId" "pa_attemptNumber ?a = (case latest_attempt db claimId of None \<Rightarrow> 1 | Some l \<Rightarrow> pa_attemptNumber l + 1)"
    "pa_status ?a = PPS_REQUESTED" "pa_payoutLedgerTxnId ?a = None" "pa_reversalLedgerTxnId ?a = None" "pa_attemptId ?a = e_uuid G (seq db1)"
    using q(1) by (simp_all add: k(1) new_attempt_def) (auto simp: find_claim_def dest: find_Some_set)
  show rows: "payoutAttempts db' = payoutAttempts db @ [ry_attempt r]" by (simp add: l k(3) e(2))
  have t: "txns db' = txns db1" by (simp add: l k(3))
  have f: "find_txn_by_key db' = find_txn_by_key db1" "find_txn db' = find_txn db1"
    by (simp_all add: t find_txn_by_key_def find_txn_def fun_eq_iff)
  have old: "attempt_row db' a" if "a \<in> set (payoutAttempts db1)" for a
    by (rule attempt_row_kept [OF payout_okD(4) [OF e(1) that] keeps_attempt_same [OF t]]) (simp add: f)
  have new: "attempt_row db' ?a"
    using assms(3) un by (simp add: attempt_row_def sel names_payout_def names_payback_def status_fits_def f e(3,4) uuid_ok_def)
  have l': "ledger_ok db' \<and> reversals_refer db'"
    using payout_okD(1,5) [OF e(1)] reversals_refer_cong [OF t] by (simp add: l k(3) ledger_ok_def entries_of_def)
  have o: "one_open (payoutAttempts db')" unfolding rows by (rule one_open_append [OF assms(2) q(2) sel(1,2)])
  have u: "attempts_unique (payoutAttempts db')" using k(2) by (simp add: rows e(2))
  show "payout_ok db'" unfolding payout_ok_def
    using l' o u old new by (auto simp: rows e(2))
qed

section \<open>Runs\<close>

text \<open>
  One transaction of the payout code, with any attempt, answer and admin, or anything that leaves the
  attempts and their journals alone (sales, wallets, claims, audit). A fresh attempt id is used in no
  journal key yet.
\<close>

inductive payout_step :: "db \<Rightarrow> db \<Rightarrow> bool" where
  ps_reserve: "reserve_tx G uuid claimId adminId provider retry db = Inr (r, db') \<Longrightarrow> uuid_ok G \<Longrightarrow>
    find_txn_by_key db (payout_key (pa_attemptId (ry_attempt r))) = None \<Longrightarrow>
    find_txn_by_key db (payback_key (pa_attemptId (ry_attempt r))) = None \<Longrightarrow> payout_step db db'"
| ps_success: "success_tx (env :: payout_env) i result db = Inr (x, db') \<Longrightarrow> uuid_ok env \<Longrightarrow> payout_step db db'"
| ps_reverse: "reverse_tx (env :: payout_env) i result db = Inr (x, db') \<Longrightarrow> payout_step db db'"
| ps_checked: "update_attempts (in_flight i) (checked_attempt now result seen status reason) db = Inr (n, db') \<Longrightarrow>
    status \<noteq> PPS_SUCCEEDED \<Longrightarrow> status \<noteq> PPS_REVERSED \<Longrightarrow> payout_step db db'"
| ps_other: "ledger_step\<^sup>*\<^sup>* db db' \<Longrightarrow> payoutAttempts db' = payoutAttempts db \<Longrightarrow>
    (\<And>a. a \<in> set (payoutAttempts db) \<Longrightarrow> keeps_attempt db db' a) \<Longrightarrow> payout_step db db'"

lemma ledger_steps_find_txn:
  assumes "ledger_step\<^sup>*\<^sup>* db db'" "find_txn db j = Some t"
  shows "find_txn db' j = Some t"
  using ledger_run_append [OF assms(1)] assms(2) by (auto simp: find_txn_def find_append)

lemma payout_step_keeps: "payout_step db db' \<Longrightarrow> payout_ok db \<Longrightarrow> payout_ok db'"
proof (induction rule: payout_step.induct)
  case (ps_reserve G uuid claimId adminId provider retry db r db')
  show ?case by (rule reserve_keeps(1) [OF ps_reserve(1,5,2-4)])
next
  case (ps_success env i result db x db')
  then show ?case using success_keeps by (cases x) blast
next
  case (ps_reverse env i result db x db')
  then show ?case using reverse_keeps by blast
next
  case (ps_checked i now result seen status reason db n db')
  then show ?case using checked_keeps by blast
next
  case (ps_other db db')
  note ok = payout_okD [OF ps_other(4)]
  have "attempt_row db' a" if "a \<in> set (payoutAttempts db)" for a
    by (rule attempt_row_kept [OF ok(4) [OF that] ps_other(3) [OF that] ledger_steps_find_txn [OF ps_other(1)]])
  moreover have "ledger_ok db'" using ledger_run.run_keeps [OF ps_other(1)] ok(1) by blast
  moreover have "reversals_refer db'" using refer_run.run_keeps [OF ps_other(1)] ok(5) by blast
  ultimately show ?case using ps_other(4) by (simp add: payout_ok_def ps_other(2))
qed

interpretation payout_run: kept_by_steps payout_step payout_ok
  by unfold_locales (rule payout_step_keeps)

lemma payout_ok_empty: "payout_ok empty_db"
  using ledger_ok_empty by (simp add: payout_ok_def empty_db_def reversals_refer_def one_open_def attempts_unique_def)

lemma reachable_payout_ok: "payout_step\<^sup>*\<^sup>* empty_db db \<Longrightarrow> payout_ok db"
  using payout_run.run_keeps payout_ok_empty by blast

section \<open>What a run keeps\<close>

lemma post_entries_kept:
  assumes "postInternal env inp rv db = Inr (v, db')" "t \<in> set (txns db)"
  shows "t \<in> set (txns db') \<and> entries_of db' (lt_ledgerTxnId t) = entries_of db (lt_ledgerTxnId t)"
  using assms(1)
proof (cases rule: postInternal_cases)
  case (fresh p)
  have "lt_ledgerTxnId t \<noteq> e_uuid env (seq db)" using fresh(3) assms(2) by (auto simp: find_txn_def find_None_set)
  then have "filter (\<lambda>e. le_ledgerTxnId e = lt_ledgerTxnId t) (journal_entries (e_uuid env (seq db)) (pr_lines p)) = []"
    by (auto simp: journal_entries_def filter_empty_conv line_entry_def)
  then show ?thesis using fresh assms(2) by (simp add: entries_of_def posted_db_def)
qed (use assms(2) in simp)

lemma reverse_posts:
  assumes "reverseInTransaction env inp db = Inr (v, db')"
  shows "db' = db \<or> (\<exists>inp' j. postInternal env inp' j db = Inr (v, db'))"
  using assms by (cases rule: reverse_cases) auto

lemma payout_step_entries:
  assumes "payout_step db db'" "payout_ok db" "t \<in> set (txns db)"
  shows "t \<in> set (txns db') \<and> entries_of db' (lt_ledgerTxnId t) = entries_of db (lt_ledgerTxnId t)"
  using assms(1)
proof (cases rule: payout_step.cases)
  case (ps_reserve G uuid claimId adminId provider retry r)
  obtain c d h db1 db2 where q: "ensurePrizeAccrual G c db = Inr db1"
    "create_attempt G (new_attempt G adminId provider (''sw-prize-'' @ uuid) c
       (case latest_attempt db claimId of None \<Rightarrow> 1 | Some l \<Rightarrow> pa_attemptNumber l + 1) d h) db1 = Inr (ry_attempt r, db2)"
    "link_claim (requested_claim (e_now G) provider (''sw-prize-'' @ uuid)) claimId (''sw-prize-'' @ uuid) db2 = Inr db'"
    using ps_reserve(1) by (rule reserve_cases)
  have t: "txns db' = txns db1" "entries db' = entries db1"
    by (simp_all add: create_attempt_cases(3) [OF q(2)] link_claim_cases [OF q(3)])
  have "t \<in> set (txns db1) \<and> entries_of db1 (lt_ledgerTxnId t) = entries_of db (lt_ledgerTxnId t)"
    using accrual_posts [OF q(1)]
  proof
    assume "\<exists>ls v db2 cs. postInTransaction G (engine_accrual_post c ls) db = Inr (v, db2) \<and> db1 = db2\<lparr>claims := cs\<rparr>"
    then obtain ls v db2 cs where p: "postInternal G (engine_accrual_post c ls) None db = Inr (v, db2)" "db1 = db2\<lparr>claims := cs\<rparr>"
      by (auto simp: postInTransaction_def)
    show ?thesis using post_entries_kept [OF p(1) assms(3)] by (simp add: p(2) entries_of_def)
  qed (use assms(3) in simp)
  then show ?thesis by (simp add: t entries_of_def)
next
  case (ps_success env i result x)
  obtain b k where x: "x = (b, k)" by (cases x)
  from ps_success(1) [unfolded x] show ?thesis
  proof (cases rule: success_cases)
    case (paid a c pa cl code v db1 n db2)
    show ?thesis using post_entries_kept [OF paid(11) [unfolded postInTransaction_def] assms(3)]
      by (simp add: update_attempts_cases(1) [OF paid(12)] link_claim_cases [OF paid(13)] entries_of_def)
  qed (use assms(3) in simp)
next
  case (ps_reverse env i result x)
  from ps_reverse(1) show ?thesis
  proof (cases rule: reverse_tx_cases)
    case (unbooked a n db2 c)
    show ?thesis using assms(3)
      by (simp add: update_attempts_cases(1) [OF unbooked(5)] update_claim_cases(1) [OF unbooked(6)] entries_of_def)
  next
    case (booked a j v db1 n db2 c)
    have "t \<in> set (txns db1) \<and> entries_of db1 (lt_ledgerTxnId t) = entries_of db (lt_ledgerTxnId t)"
      using reverse_posts [OF booked(6)] post_entries_kept [OF _ assms(3)] assms(3) by blast
    then show ?thesis
      by (simp add: update_attempts_cases(1) [OF booked(7)] update_claim_cases(1) [OF booked(8)] entries_of_def)
  qed (use assms(3) in simp)
next
  case (ps_checked i now result seen status reason n)
  show ?thesis using assms(3) by (simp add: update_attempts_cases(1) [OF ps_checked(1)] entries_of_def)
next
  case ps_other
  then show ?thesis using run_journal_kept payout_okD(1) [OF assms(2)] assms(3) by blast
qed

lemma payout_run_entries:
  assumes "payout_step\<^sup>*\<^sup>* db db'" "payout_ok db" "t \<in> set (txns db)"
  shows "t \<in> set (txns db') \<and> entries_of db' (lt_ledgerTxnId t) = entries_of db (lt_ledgerTxnId t)"
  using assms(1)
proof (induction rule: rtranclp_induct)
  case (step y z)
  then show ?case using payout_step_entries [OF step(2) payout_run.run_keeps [OF step(1) assms(2)]] by metis
qed (use assms(3) in simp)

text \<open>An attempt stays where it is, under its id and claim.\<close>

definition attempts_stay :: "db \<Rightarrow> db \<Rightarrow> bool" where
  "attempts_stay db db' \<longleftrightarrow> (\<exists>xs ys. payoutAttempts db' = xs @ ys \<and>
     map attempt_id xs = map attempt_id (payoutAttempts db))"

lemma attempts_stay_refl [simp]: "payoutAttempts db' = payoutAttempts db \<Longrightarrow> attempts_stay db db'"
  unfolding attempts_stay_def by (metis append_Nil2)

lemma attempts_stay_trans:
  assumes "attempts_stay a b" "attempts_stay b c"
  shows "attempts_stay a c"
proof -
  obtain xs ys where b: "payoutAttempts b = xs @ ys" "map attempt_id xs = map attempt_id (payoutAttempts a)"
    using assms(1) by (auto simp: attempts_stay_def)
  obtain us vs where c: "payoutAttempts c = us @ vs" "map attempt_id us = map attempt_id (payoutAttempts b)"
    using assms(2) by (auto simp: attempts_stay_def)
  have "map attempt_id (take (length xs) us) = map attempt_id xs"
    using c(2) b(1) by (metis append_eq_conv_conj length_map map_append take_map)
  then show ?thesis unfolding attempts_stay_def using b(2) c(1)
    by (intro exI [of _ "take (length xs) us"] exI [of _ "drop (length xs) us @ vs"]) simp
qed

lemma update_attempts_stay:
  assumes "update_attempts P f db = Inr (n, db')" "\<And>a. attempt_id (f a) = attempt_id a"
  shows "attempts_stay db db'"
  unfolding attempts_stay_def update_attempts_cases(1) [OF assms(1)]
  by (intro exI [of _ "update_where P f (payoutAttempts db)"] exI [of _ "[]"]) (simp add: map_update_where assms(2))

text \<open>Every row fits its columns.\<close>

definition attempts_fit :: "db \<Rightarrow> bool" where
  "attempts_fit db \<longleftrightarrow> list_all attempt_fits (payoutAttempts db)"

lemma update_attempts_fit:
  assumes "update_attempts P f db = Inr (n, db')" "attempts_fit db"
  shows "attempts_fit db'"
  using assms by (auto simp: update_attempts_def update_many_def attempts_fit_def list_all_iff set_update_where split: if_splits)

lemma payout_step_fits:
  assumes "payout_step db db'" "attempts_fit db"
  shows "attempts_fit db'"
  using assms(1)
proof (cases rule: payout_step.cases)
  case (ps_reserve G uuid claimId adminId provider retry r)
  obtain c d h db1 db2 where q: "ensurePrizeAccrual G c db = Inr db1"
    "create_attempt G (new_attempt G adminId provider (''sw-prize-'' @ uuid) c
       (case latest_attempt db claimId of None \<Rightarrow> 1 | Some l \<Rightarrow> pa_attemptNumber l + 1) d h) db1 = Inr (ry_attempt r, db2)"
    "link_claim (requested_claim (e_now G) provider (''sw-prize-'' @ uuid)) claimId (''sw-prize-'' @ uuid) db2 = Inr db'"
    using ps_reserve(1) by (rule reserve_cases)
  have "payoutAttempts db1 = payoutAttempts db"
    using accrual_posts [OF q(1)] same_frame_payouts(1) [OF postInternal_frame] by (auto simp: postInTransaction_def)
  moreover have "attempt_fits (ry_attempt r)" using q(2) by (auto simp: create_attempt_def Let_def split: if_splits)
  ultimately show ?thesis using assms(2)
    by (simp add: create_attempt_cases(3) [OF q(2)] link_claim_cases [OF q(3)] attempts_fit_def)
next
  case (ps_success env i result x)
  obtain b k where x: "x = (b, k)" by (cases x)
  from ps_success(1) [unfolded x] show ?thesis
  proof (cases rule: success_cases)
    case (paid a c pa cl code v db1 n db2)
    have "payoutAttempts db1 = payoutAttempts db"
      by (rule same_frame_payouts(1) [OF postInternal_frame [OF paid(11) [unfolded postInTransaction_def]]])
    then have "attempts_fit db2" using update_attempts_fit [OF paid(12)] assms(2) by (simp add: attempts_fit_def)
    then show ?thesis by (simp add: link_claim_cases [OF paid(13)] attempts_fit_def)
  qed (use assms(2) in simp)
next
  case (ps_reverse env i result x)
  from ps_reverse(1) show ?thesis
  proof (cases rule: reverse_tx_cases)
    case (unbooked a n db2 c)
    have "attempts_fit db2" by (rule update_attempts_fit [OF unbooked(5) assms(2)])
    then show ?thesis by (simp add: update_claim_cases(1) [OF unbooked(6)] attempts_fit_def)
  next
    case (booked a j v db1 n db2 c)
    have "payoutAttempts db1 = payoutAttempts db"
      using reverse_posts [OF booked(6)] same_frame_payouts(1) [OF postInternal_frame] by auto
    then have "attempts_fit db2" using update_attempts_fit [OF booked(7)] assms(2) by (simp add: attempts_fit_def)
    then show ?thesis by (simp add: update_claim_cases(1) [OF booked(8)] attempts_fit_def)
  qed (use assms(2) in simp)
next
  case (ps_checked i now result seen status reason n)
  show ?thesis by (rule update_attempts_fit [OF ps_checked(1) assms(2)])
next
  case ps_other
  then show ?thesis using assms(2) by (simp add: attempts_fit_def)
qed

interpretation payout_fit_run: kept_by_steps payout_step attempts_fit
  by unfold_locales (rule payout_step_fits)

section \<open>What is moved\<close>

lemma payout_lines: "pi_lines (payout_post a result x y) = transfer_lines x ''Settle winner prize payable'' y (pa_provider a @ '' payout'') (pa_amountNgn a)"
  by (simp add: payout_post_def)

lemma fresh_journal_net:
  assumes "postInTransaction env inp db = Inr (v, db')" "ledger_ok db"
    and "find_txn_by_key db (js_trim (pi_idempotencyKey inp)) = None"
  shows "journal_net db' (lt_ledgerTxnId (tv_txn v)) x = net db' x - net db x"
proof -
  from assms(1) [unfolded postInTransaction_def]
  obtain p where f: "find_txn db (e_uuid env (seq db)) = None" "db' = posted_db env inp None p db"
    "lt_ledgerTxnId (tv_txn v) = e_uuid env (seq db)"
  proof (cases rule: postInternal_cases)
    case (replay p t)
    then show ?thesis using assms(3) by simp
  next
    case (fresh p)
    show ?thesis by (rule that) (use fresh in auto)
  qed
  have "entries_of db (e_uuid env (seq db)) = []"
    using assms(2) f(1) by (force simp: entries_of_def filter_empty_conv ledger_ok_def find_txn_def find_None_set)
  moreover have "filter (\<lambda>e. le_ledgerTxnId e = e_uuid env (seq db)) (journal_entries (e_uuid env (seq db)) ls) =
      journal_entries (e_uuid env (seq db)) ls" for ls
    by (auto simp: journal_entries_def filter_id_conv line_entry_def)
  ultimately show ?thesis by (simp add: journal_net_def f(2,3) posted_db_def entries_of_def net_eq)
qed

lemma success_moves:
  assumes "success_tx env i result db = Inr ((True, claimId), db')" "payout_ok db" "uuid_ok env" "accounts_trimmed db"
  obtains a pa code cl c t where "find_attempt db i = Some a" "claimId = pa_claimId a" "find_claim db claimId = Some c"
    "find_account_by_code db PRIZE_PAYABLE_CODE = Some pa" "prizeClearingCode (pa_provider a) = Inr code"
    "find_account_by_code db code = Some cl" "transferred (la_accountId pa) (la_accountId cl) (pa_amountNgn a) db db'"
    "find_txn_by_key db' (payout_key i) = Some t"
    "\<And>x. journal_net db' (lt_ledgerTxnId t) x = net db' x - net db x"
    "find_claim db' claimId = Some (paid_claim (e_now env) a result c)"
    "find_attempt db' i = Some (succeeded_attempt (e_now env) result (lt_ledgerTxnId t) a)"
  using assms(1)
proof (cases rule: success_cases)
  case (paid a c pa cl code v db1 n db2)
  note ok = payout_okD [OF assms(2)]
  note a = find_attempt_sel [OF paid(2)]
  then have row: "attempt_row db a" using ok(4) by blast
  have "pa_payoutLedgerTxnId a = None" using open_unlinked [OF _ paid(5)] row by (simp add: attempt_row_def)
  then have un: "find_txn_by_key db (payout_key i) = None" using row a by (simp add: attempt_row_def names_payout_def)
  have k: "js_trim (pi_idempotencyKey (payout_post a result (la_accountId pa) (la_accountId cl))) = payout_key i"
    using attempt_trim(1) [OF row] a by (simp add: payout_post_def payout_key_def)
  note m = post_transfer_lines [OF paid(11) ok(1) _ payout_lines accounts_trimmedD [OF assms(4) paid(8)]
      accounts_trimmedD [OF assms(4) paid(10)], unfolded k, OF un]
  note u = update_attempts_cases [OF paid(12)] and cl = link_claim_cases [OF paid(13)]
  have e: "entries db' = entries db1" "txns db' = txns db1" by (simp_all add: cl u(1))
  have nets: "net db' x = net db1 x" for x by (rule net_cong) (rule e(1))
  have tr: "transferred (la_accountId pa) (la_accountId cl) (pa_amountNgn a) db db'"
    using m(3) by (simp add: transferred_def nets)
  have f: "find_txn_by_key db' (payout_key i) = Some (tv_txn v)" using m(4) by (simp add: find_txn_by_key_def e(2))
  have j: "journal_net db' (lt_ledgerTxnId (tv_txn v)) x = net db' x - net db x" for x
    using fresh_journal_net [OF paid(11) ok(1), unfolded k, OF un] by (simp add: nets journal_net_def entries_of_def e(1))
  have fr: "payoutAttempts db1 = payoutAttempts db" "claims db1 = claims db" using m(2) by (auto simp: same_frame_def)
  have id: "pc_claimId c = pa_claimId a" using paid(4) by (auto simp: find_claim_def dest: find_Some_set)
  have "find_claim db' (pa_claimId a) = map_option (paid_claim (e_now env) a result) (find_claim db (pa_claimId a))"
    unfolding find_claim_def by (simp add: cl u(1) fr) (rule find_update_where_same, auto simp: paid_claim_def)
  moreover have "find_attempt db' i = map_option (succeeded_attempt (e_now env) result (lt_ledgerTxnId (tv_txn v))) (find_attempt db i)"
    unfolding find_attempt_def by (simp add: cl u(1) fr) (rule find_update_where_same, auto simp: succeeded_attempt_def)
  ultimately show thesis using that [OF paid(2,3) _ paid(8-10) tr f j] paid(2-4) by simp
qed simp

lemma reverse_moves:
  assumes "reverse_tx env i result db = Inr (True, db')" "payout_ok db" "find_txn_by_key db (payout_key i) = Some t"
  obtains a c where "find_attempt db i = Some a" "pa_payoutLedgerTxnId a = Some (lt_ledgerTxnId t)"
    "\<And>x. net db' x = net db x - journal_net db (lt_ledgerTxnId t) x"
    "find_claim db' (pa_claimId a) = Some c" "pc_status c = PCS_KYC_CLEARED" "pc_payoutStatus c = Some PPS_REVERSED"
    "\<exists>b. find_attempt db' i = Some b \<and> pa_status b = PPS_REVERSED \<and> pa_reversalLedgerTxnId b \<noteq> None"
  using assms(1)
proof (cases rule: reverse_tx_cases)
  case (unbooked a n db2 c)
  have a: "a \<in> set (payoutAttempts db)" "pa_attemptId a = i" using find_attempt_sel [OF unbooked(2)] by simp_all
  have "names_payout db a" using payout_okD(4) [OF assms(2) a(1)] by (simp add: attempt_row_def)
  then show thesis using unbooked(3) assms(3) a(2) by (auto simp: names_payout_def)
next
  case (booked a j v db1 n db2 c)
  note ok = payout_okD [OF assms(2)] and a = find_attempt_sel [OF booked(2)]
  have row: "attempt_row db a" using ok(4) a by blast
  have "pa_reversalLedgerTxnId a = None"
    using row booked(5) by (auto simp: attempt_row_def status_fits_def NON_TERMINAL_STATUSES_def)
  then have un: "find_txn_by_key db (payback_key i) = None" "find_reversal_of db j = None"
    using row booked(3) a by (simp_all add: attempt_row_def names_payback_def)
  have t: "find_txn db j = Some t" using row booked(3) a assms(3) by (auto simp: attempt_row_def names_payout_def)
  have jt: "lt_ledgerTxnId t = j" using t by (auto simp: find_txn_def dest: find_Some_set)
  have k: "js_trim (ri_idempotencyKey (reversal_of a result j)) = payback_key i" "ri_originalLedgerTxnId (reversal_of a result j) = j"
    using attempt_trim(2) [OF row] a by (simp_all add: reversal_of_def payback_key_def)
  note r = reversal_nets(1) [OF booked(6) ok(1), unfolded k, OF un(2,1)]
  note u = update_attempts_cases [OF booked(7)] and cl = update_claim_cases [OF booked(8)]
  have "net db' x = net db1 x" for x by (rule net_cong) (simp add: cl(1) u(1))
  then have nets: "net db' x = net db x - journal_net db (lt_ledgerTxnId t) x" for x using r by (simp add: jt)
  have fr: "payoutAttempts db1 = payoutAttempts db" "claims db1 = claims db"
    using reverse_posts [OF booked(6)] postInternal_frame by (auto simp: same_frame_def dest!: postInternal_frame)
  have "c = reopened_claim (e_now env) a result x" if "find_claim db (pa_claimId a) = Some x" for x
  proof -
    have "find_claim db' (pa_claimId a) = map_option (reopened_claim (e_now env) a result) (find_claim db (pa_claimId a))"
      unfolding find_claim_def by (simp add: cl(1) u(1) fr) (rule find_update_where_same, auto simp: reopened_claim_def)
    then show ?thesis using cl(2) that by simp
  qed
  moreover have "find_claim db (pa_claimId a) \<noteq> None"
  proof
    assume n: "find_claim db (pa_claimId a) = None"
    have "find_claim db' (pa_claimId a) = map_option (reopened_claim (e_now env) a result) (find_claim db (pa_claimId a))"
      unfolding find_claim_def by (simp add: cl(1) u(1) fr) (rule find_update_where_same, auto simp: reopened_claim_def)
    then show False using cl(2) n by simp
  qed
  ultimately obtain x where c: "c = reopened_claim (e_now env) a result x" by blast
  have "find_attempt db' i = map_option (reversed_attempt (e_now env) result (Some (lt_ledgerTxnId (tv_txn v)))) (find_attempt db i)"
    unfolding find_attempt_def by (simp add: cl(1) u(1) fr) (rule find_update_where_same, auto simp: reversed_attempt_def)
  then show thesis
    using that [OF booked(2) _ nets cl(2)] booked(2,3) c jt by (simp add: reopened_claim_def reversed_attempt_def)
qed simp

lemma payout_step_stay:
  assumes "payout_step db db'"
  shows "attempts_stay db db'"
  using assms
proof (cases rule: payout_step.cases)
  case (ps_reserve G uuid claimId adminId provider retry r)
  obtain c d h db1 db2 where q: "ensurePrizeAccrual G c db = Inr db1"
    "create_attempt G (new_attempt G adminId provider (''sw-prize-'' @ uuid) c
       (case latest_attempt db claimId of None \<Rightarrow> 1 | Some l \<Rightarrow> pa_attemptNumber l + 1) d h) db1 = Inr (ry_attempt r, db2)"
    "link_claim (requested_claim (e_now G) provider (''sw-prize-'' @ uuid)) claimId (''sw-prize-'' @ uuid) db2 = Inr db'"
    using ps_reserve(1) by (rule reserve_cases)
  have "payoutAttempts db1 = payoutAttempts db"
    using accrual_posts [OF q(1)] same_frame_payouts(1) [OF postInternal_frame] by (auto simp: postInTransaction_def)
  then show ?thesis unfolding attempts_stay_def
    by (intro exI [of _ "payoutAttempts db"] exI [of _ "[ry_attempt r]"])
       (simp add: create_attempt_cases(3) [OF q(2)] link_claim_cases [OF q(3)])
next
  case (ps_success env i result x)
  obtain b k where x: "x = (b, k)" by (cases x)
  from ps_success(1) [unfolded x] show ?thesis
  proof (cases rule: success_cases)
    case (paid a c pa cl code v db1 n db2)
    have 1: "attempts_stay db db1"
      by (rule attempts_stay_refl [OF same_frame_payouts(1) [OF postInternal_frame [OF paid(11) [unfolded postInTransaction_def]]]])
    have 2: "attempts_stay db1 db2"
      by (rule update_attempts_stay [OF paid(12)]) (simp add: attempt_id_def succeeded_attempt_def)
    show ?thesis using attempts_stay_trans [OF 1 2] by (simp add: link_claim_cases [OF paid(13)] attempts_stay_def)
  qed simp
next
  case (ps_reverse env i result x)
  have f: "attempt_id (reversed_attempt n r j a) = attempt_id a" for n r j a by (simp add: attempt_id_def reversed_attempt_def)
  from ps_reverse(1) show ?thesis
  proof (cases rule: reverse_tx_cases)
    case (unbooked a n db2 c)
    show ?thesis using update_attempts_stay [OF unbooked(5) f] by (simp add: update_claim_cases(1) [OF unbooked(6)] attempts_stay_def)
  next
    case (booked a j v db1 n db2 c)
    have 1: "attempts_stay db db1"
      using reverse_posts [OF booked(6)] same_frame_payouts(1) [OF postInternal_frame] by (auto intro!: attempts_stay_refl)
    show ?thesis using attempts_stay_trans [OF 1 update_attempts_stay [OF booked(7) f]]
      by (simp add: update_claim_cases(1) [OF booked(8)] attempts_stay_def)
  qed simp
next
  case (ps_checked i now result seen status reason n)
  show ?thesis by (rule update_attempts_stay [OF ps_checked(1)]) (simp add: attempt_id_def checked_attempt_def)
next
  case ps_other
  then show ?thesis by simp
qed

lemma payout_run_stay: "payout_step\<^sup>*\<^sup>* db db' \<Longrightarrow> attempts_stay db db'"
proof (induction rule: rtranclp_induct)
  case (step y z)
  then show ?case using attempts_stay_trans payout_step_stay by blast
qed simp

lemma payout_run_attempt:
  assumes "payout_step\<^sup>*\<^sup>* db db'" "find_attempt db i = Some a" "find_attempt db' i = Some b"
  shows "pa_claimId b = pa_claimId a"
proof -
  obtain xs ys where s: "payoutAttempts db' = xs @ ys" "map attempt_id xs = map attempt_id (payoutAttempts db)"
    using payout_run_stay [OF assms(1)] by (auto simp: attempts_stay_def)
  have "map_option attempt_id (find (\<lambda>a. pa_attemptId a = i) us) = map_option attempt_id (find (\<lambda>a. pa_attemptId a = i) vs)"
    if "map attempt_id us = map attempt_id vs" for us vs
    using that by (induction us vs rule: list_induct2') (auto dest: attempt_idD)
  from this [OF s(2)] obtain x where x: "find (\<lambda>a. pa_attemptId a = i) xs = Some x" "attempt_id x = attempt_id a"
    using assms(2) by (auto simp: find_attempt_def)
  then have "b = x" using assms(3) by (simp add: find_attempt_def s(1) find_append)
  then show ?thesis using attempt_idD [OF x(2)] by simp
qed

end
