(* ===== verification/Claims_Laws.thy ===== *)
theory Claims_Laws
  imports Claims
begin

text \<open>
  What holds of prize claims: an encrypted account number opens to itself, a destination is handed out only
  with all its evidence, tax is withheld to the naira, wrong codes lock a claim, a handover is
  recorded once, the sweep forfeits exactly the abandoned claims, and what a compliance officer
  approves can be paid.
\<close>

section \<open>Encrypted account numbers\<close>

text \<open>AES-256-GCM: as long as the text, a tag of 16 bytes, and it opens what it sealed.\<close>

definition gcm_ok :: "payout_env \<Rightarrow> bool" where
  "gcm_ok G \<longleftrightarrow> length (po_iv G) = 12 \<and> (\<forall>key iv aad t. case po_gcmEncrypt G key iv aad t of (c, tag) \<Rightarrow>
     length c = length t \<and> length tag = 16 \<and> po_gcmDecrypt G key iv aad c tag = Some t)"

lemma utf8_digits:
  assumes "list_all is_digit s"
  shows "length (utf8 s) = length s" "map (\<lambda>b. char_of (unat b) :: char) (utf8 s) = s"
proof -
  have "length (utf8 s) = length s \<and> map (\<lambda>b. char_of (unat b) :: char) (utf8 s) = s"
    using assms
  proof (induction s)
    case (Cons c s)
    let ?n = "of_char c :: nat"
    have n: "?n \<le> 57" using Cons.prems by (auto simp: is_digit_def Let_def)
    then have "utf8_char c = [word_of_nat ?n]" by (simp add: utf8_char_def Let_def)
    moreover have "unat (word_of_nat ?n :: 8 word) = ?n" using n by (simp add: unat_of_nat take_bit_nat_eq_self)
    ultimately show ?case using Cons by simp
  qed simp
  then show "length (utf8 s) = length s" "map (\<lambda>b. char_of (unat b) :: char) (utf8 s) = s" by blast+
qed

lemma url_no_dot: "list_all is_url_char s \<Longrightarrow> CHR ''.'' \<notin> set s"
  by (auto simp: list_all_iff is_url_char_def)

lemma decrypt_encrypt:
  assumes "encrypt G u b number = Inr e" "gcm_ok G"
  shows "decrypt G u b e = Inr number"
proof -
  obtain aad key c tag where e: "ten_digits number" "cipher_context u b = Inr aad" "encryption_key G = Inr key"
    "po_gcmEncrypt G key (po_iv G) aad (utf8 number) = (c, tag)"
    "e = join ''.'' [''v1'', base64url (po_iv G), base64url tag, base64url c]"
  proof -
    from assms(1) obtain aad key where f: "ten_digits number" "cipher_context u b = Inr aad" "encryption_key G = Inr key"
      "(case po_gcmEncrypt G key (po_iv G) aad (utf8 number) of (c, tag) \<Rightarrow>
        Inr (join ''.'' [''v1'', base64url (po_iv G), base64url tag, base64url c])) = (Inr e :: string res)"
      unfolding encrypt_def if_res_eq_Inr bind_res_eq_Inr by blast
    show thesis
      by (cases "po_gcmEncrypt G key (po_iv G) aad (utf8 number)", rule that [OF f(1-3)]) (use f(4) in auto)
  qed
  have d: "list_all is_digit number" "length number = 10" using e(1) by (simp_all add: ten_digits_def)
  have g: "length c = 10" "length tag = 16" "po_gcmDecrypt G key (po_iv G) aad c tag = Some (utf8 number)" "length (po_iv G) = 12"
  proof -
    have "case po_gcmEncrypt G key (po_iv G) aad (utf8 number) of (c, tag) \<Rightarrow> length c = length (utf8 number) \<and>
      length tag = 16 \<and> po_gcmDecrypt G key (po_iv G) aad c tag = Some (utf8 number)" and "length (po_iv G) = 12"
      using assms(2) by (simp_all only: gcm_ok_def)
    then show "length c = 10" "length tag = 16" "po_gcmDecrypt G key (po_iv G) aad c tag = Some (utf8 number)"
      "length (po_iv G) = 12" by (simp_all add: e(4) utf8_digits(1) [OF d(1)] d(2))
  qed
  have n: "base64url (po_iv G) \<noteq> []" "base64url tag \<noteq> []" "base64url c \<noteq> []" using g by (auto simp: base64url_Nil)
  have dot: "CHR ''.'' \<notin> set (base64url x)" for x by (rule url_no_dot [OF base64url_chars])
  have "e = ''v1'' @ CHR ''.'' # base64url (po_iv G) @ CHR ''.'' # base64url tag @ CHR ''.'' # base64url c"
    by (simp add: e(5))
  then have s: "js_split (CHR ''.'') e = [''v1'', base64url (po_iv G), base64url tag, base64url c]"
    by (simp add: js_split_append js_split_none dot del: append.simps)
  have "digits_of (utf8 number) = Some number" using utf8_digits(2) [OF d(1)] e(1) by (simp add: digits_of_def)
  then show ?thesis by (simp add: decrypt_def e(2,3) s n base64url_chars g)
qed

text \<open>What opens is always an account number, for a context and a key that are well formed.\<close>

lemma decrypt_opens:
  assumes "decrypt G u b e = Inr number"
  shows "ten_digits number" "\<exists>aad key. cipher_context u b = Inr aad \<and> encryption_key G = Inr key"
proof -
  obtain aad key where f: "cipher_context u b = Inr aad" "encryption_key G = Inr key"
    using assms unfolding decrypt_def bind_res_eq_Inr by blast
  then show "\<exists>aad key. cipher_context u b = Inr aad \<and> encryption_key G = Inr key" by blast
  show "ten_digits number"
    using assms unfolding decrypt_def f bind_res_Inr
    by (simp split: list.splits if_splits option.splits) (auto simp: res_simps digits_of_def Let_def split: if_splits)
qed

lemma encrypt_succeeds:
  assumes "decrypt G u b e = Inr number"
  shows "\<exists>e'. encrypt G u b number = Inr e'"
  using decrypt_opens [OF assms] by (auto simp: encrypt_def split: prod.split)

section \<open>The destination of a payout\<close>

lemma require_locked_iff:
  "requireLocked G db claim = Inr d \<longleftrightarrow> pc_claimType claim = Some CT_CASH \<and> (\<exists>u k a s e number.
     find_user_by_phone db (pc_winnerPhone claim) = Some u \<and> owns_claim u claim \<and> requireVerified db claim = Inr k \<and>
     find (\<lambda>a. vp_userId a = u_userId u \<and> vp_status a = VPA_LOCKED) (payoutAccounts db) = Some a \<and>
     (vp_verifiedAt a \<noteq> None \<and> vp_lockedAt a \<noteq> None \<and> vp_revokedAt a = None \<and> vp_currency a = ''NGN'') \<and>
     source_of db a = Some s \<and> source_ok claim u s \<and> account_matches claim k a s \<and>
     decrypt G (u_userId u) (vp_bankCode a) (vp_accountCiphertext a) = Inr number \<and>
     vp_accountLast4 a = last4 number \<and> assertDestinationMatches G k (vp_bankCode a) number = Inr () \<and>
     assertDestinationMatches G (fst s) (vp_bankCode a) number = Inr () \<and>
     encrypt G (u_userId u) (vp_bankCode a) number = Inr e \<and>
     d = \<lparr>ds_userId = u_userId u, ds_payoutAccountId = vp_payoutAccountId a, ds_bankCode = vp_bankCode a,
          ds_accountNumber = number, ds_accountName = vp_resolvedAccountName a, ds_accountLast4 = vp_accountLast4 a,
          ds_fingerprint = vp_accountFingerprint a, ds_snapshotCiphertext = e\<rparr>)"
  by (auto simp add: requireLocked_def res_simps)

lemma destination_matchesD:
  assumes "assertDestinationMatches G k b number = Inr ()"
  shows "ki_bankCode k = b" "ki_bankAccountLast4 k = last4 number"
    "\<exists>h. fingerprintAccount G b number = Inr h \<and> unhex (ki_bankAccountFingerprint k) = unhex h"
  using assms by (auto simp: assertDestinationMatches_def res_simps Let_def split: if_splits)

section \<open>Rows of claims\<close>

text \<open>No operation changes who won, what, and what was collected when and by whom.\<close>

definition row_kept :: "prize_claim \<Rightarrow> prize_claim \<Rightarrow> bool" where
  "row_kept c c' \<longleftrightarrow> pc_claimId c' = pc_claimId c \<and> pc_winnerTicketRef c' = pc_winnerTicketRef c \<and>
     pc_winnerPhone c' = pc_winnerPhone c \<and> pc_grossPrizeValueNgn c' = pc_grossPrizeValueNgn c \<and>
     (pc_redeemedAt c \<noteq> None \<longrightarrow> pc_redeemedAt c' = pc_redeemedAt c \<and>
        pc_redeemedByAdminId c' = pc_redeemedByAdminId c \<and> pc_redeemedAtPointId c' = pc_redeemedAtPointId c)"

definition claims_kept :: "db \<Rightarrow> db \<Rightarrow> bool" where
  "claims_kept db db' \<longleftrightarrow> list_all2 row_kept (claims db) (claims db')"

lemma row_kept_refl [simp]: "row_kept c c"
  by (simp add: row_kept_def)

lemma row_kept_trans: "row_kept a b \<Longrightarrow> row_kept b c \<Longrightarrow> row_kept a c"
  by (auto simp: row_kept_def)

lemma claims_kept_same [simp]: "claims db' = claims db \<Longrightarrow> claims_kept db db'"
  by (simp add: claims_kept_def list_all2_refl)

lemma claims_kept_trans [trans]: "claims_kept a b \<Longrightarrow> claims_kept b c \<Longrightarrow> claims_kept a c"
  unfolding claims_kept_def by (rule list_all2_trans [OF row_kept_trans])

lemma list_all2_rows: "(\<And>c. P c \<Longrightarrow> row_kept c (f c)) \<Longrightarrow> list_all2 row_kept cs (update_where P f cs)"
  by (induction cs) (auto simp: update_where_def)

lemma update_claim_kept:
  assumes "update_claim f i db = Inr (c, db')" "\<And>c. row_kept c (f c)"
  shows "claims_kept db db'"
proof -
  have "claims db' = update_where (\<lambda>c. pc_claimId c = i) f (claims db)"
    using assms(1) by (auto simp: update_claim_def Let_def res_simps)
  then show ?thesis using list_all2_rows [OF assms(2)] by (simp add: claims_kept_def)
qed

lemma update_claim_snd:
  assumes "\<And>c. row_kept c (f c)"
  shows "claims_kept db (snd (in_tx (update_claim f i db) db))"
  using update_claim_kept [OF _ assms] by (cases "update_claim f i db") (auto simp: in_tx_def)

lemma audit_claims [simp]: "claims (write_audit env a m db) = claims db" "claims (claim_audit env sv ac ai an ci md db) = claims db"
  by (simp_all add: write_audit_def claim_audit_def)

lemma with_wht_sel [simp]:
  "pc_claimId (with_wht w c) = pc_claimId c" "pc_winnerTicketRef (with_wht w c) = pc_winnerTicketRef c"
  "pc_winnerPhone (with_wht w c) = pc_winnerPhone c" "pc_grossPrizeValueNgn (with_wht w c) = pc_grossPrizeValueNgn c"
  "pc_redeemedAt (with_wht w c) = pc_redeemedAt c" "pc_redeemedByAdminId (with_wht w c) = pc_redeemedByAdminId c"
  "pc_redeemedAtPointId (with_wht w c) = pc_redeemedAtPointId c" "pc_status (with_wht w c) = pc_status c"
  "pc_claimType (with_wht w c) = pc_claimType c" "pc_winnerUserId (with_wht w c) = pc_winnerUserId c"
  "pc_kycBankAccountName (with_wht w c) = pc_kycBankAccountName c" "pc_kycBankCode (with_wht w c) = pc_kycBankCode c"
  "pc_kycBankAccountLast4 (with_wht w c) = pc_kycBankAccountLast4 c"
  by (simp_all add: with_wht_def split: prod.split)

text \<open>The part after the update of the claim.\<close>

lemma updated_kept:
  assumes "\<And>c. row_kept c (f c)" "\<And>x d. claims_kept d (snd (g x d))"
  shows "claims_kept db (snd (then_do (in_tx (update_claim f i db) db) g))"
proof (cases "update_claim f i db")
  case (Inr r)
  obtain c d where r: "r = (c, d)" by (cases r)
  have "claims_kept db d" by (rule update_claim_kept [OF _ assms(1)]) (use Inr r in simp)
  then show ?thesis using claims_kept_trans [OF _ assms(2)] by (simp add: Inr r)
qed simp

lemma guarded_kept:
  assumes "\<And>x. claims_kept db (snd (g x db))"
  shows "claims_kept db (snd (then_do (m, db) g))"
  using assms by (cases m) simp_all

lemma choose_kept:
  assumes "claims_kept db (later db)"
  shows "claims_kept db (snd (choosePrize env S i phone path later db))"
  unfolding choosePrize_def
  by (intro guarded_kept claims_kept_trans [OF assms] updated_kept) (simp_all add: row_kept_def)

lemma stored_docs_kept: "row_kept c (fold (stored_doc env save i) fs c)"
proof (induction fs arbitrary: c)
  case (Cons f fs)
  have "row_kept c (stored_doc env save i f c)" by (cases f, cases "fst f") (simp_all add: stored_doc_def row_kept_def)
  then show ?case using row_kept_trans [OF _ Cons.IH] by simp
qed simp

lemma documents_kept:
  assumes "claims_kept db (later db)"
  shows "claims_kept db (snd (submitDocuments env save i phone fs later db))"
  unfolding submitDocuments_def
  by (intro guarded_kept claims_kept_trans [OF assms] updated_kept) (simp_all add: stored_docs_kept)

lemma booking_kept:
  assumes "claims_kept db (later db)"
  shows "claims_kept db (snd (bookCollection env i phone p d later db))"
  unfolding bookCollection_def
  by (intro guarded_kept claims_kept_trans [OF assms] updated_kept) (simp_all add: row_kept_def)

lemma issue_kept: "claims_kept db (snd (issue env n i db))"
  unfolding issue_def update_many_def
  by (auto simp: claims_kept_def intro!: list_all2_rows list_all2_refl) (simp add: row_kept_def)

lemma reissue_kept:
  assumes "claims_kept db (later db)"
  shows "claims_kept db (snd (reissue env n i adminId later db))"
  unfolding reissue_def
  by (intro guarded_kept claims_kept_trans [OF assms] updated_kept) (simp_all add: row_kept_def)

lemma reject_kept: "claims_kept db (snd (reject_code env args i db))"
proof (cases "update_claim (\<lambda>c. c\<lparr>pc_redemptionAttempts := pc_redemptionAttempts c + 1\<rparr>) i db")
  case (Inr r)
  obtain c d where r: "r = (c, d)" by (cases r)
  have "claims_kept db d" by (rule update_claim_kept [OF _]) (use Inr r in \<open>auto simp: row_kept_def\<close>)
  moreover have "claims (snd (reject_code env args i db)) = claims d"
    unfolding reject_code_def Inr r by simp
  ultimately show ?thesis by (simp add: claims_kept_def)
qed (simp add: reject_code_def)

lemma verify_kept:
  assumes "claims_kept db (later db)"
  shows "claims_kept db (snd (verify env args later db))"
  unfolding verify_def
proof (rule guarded_kept)
  fix c :: prize_claim
  have "claims_kept db (snd (reject_code env args (pc_claimId c) (later db)))" by (rule claims_kept_trans [OF assms reject_kept])
  then show "claims_kept db (snd (if Some (e_sha256 env (va_code args)) \<noteq> pc_redemptionCodeHash c
    then case reject_code env args (pc_claimId c) (later db) of (e, db1) \<Rightarrow> (Inl e, db1)
    else (Inr \<lparr>rd_claimId = pc_claimId c, rd_winnerTicketRef = pc_winnerTicketRef c,
      rd_winnerPhone = pc_winnerPhone c, rd_claimType = pc_claimType c,
      rd_grossPrizeValueNgn = pc_grossPrizeValueNgn c, rd_whtAmountNgn = pc_whtAmountNgn c,
      rd_netPrizeValueNgn = pc_netPrizeValueNgn c, rd_collectionPoint = point_name db c,
      rd_claimDeadlineAt = to_iso_string (pc_claimDeadlineAt c)\<rparr>, db)))"
    by (cases "reject_code env args (pc_claimId c) (later db)") simp
qed

lemma hand_over_kept: "list_all2 row_kept (claims db) (snd (hand_over env args v db))"
  by (auto simp: hand_over_def update_many_def row_kept_def intro!: list_all2_rows)

lemma handover_kept:
  assumes "claims_kept db (later1 db)" "\<And>d. claims_kept d (later d)"
  shows "claims_kept db (snd (confirmHandover env args later1 later db))"
proof (cases "verify env args later1 db")
  case (Pair m d)
  have k: "claims_kept db d" using verify_kept [of db later1 env args] assms(1) Pair by simp
  have l: "claims_kept db (later d)" by (rule claims_kept_trans [OF k assms(2)])
  show ?thesis
  proof (cases m)
    case (Inr v)
    have "claims_kept (later d) ((later d)\<lparr>claims := snd (hand_over env args v (later d))\<rparr>)"
      using hand_over_kept by (simp add: claims_kept_def)
    then have "claims_kept db ((later d)\<lparr>claims := snd (hand_over env args v (later d))\<rparr>)" by (rule claims_kept_trans [OF l])
    then show ?thesis using l Inr Pair by (auto simp: confirmHandover_def claims_kept_def split: prod.split)
  qed (use k Pair in \<open>simp add: confirmHandover_def\<close>)
qed

lemma lock_account_rows:
  assumes "lock_account G u a db = Inr db'"
  shows "db' = db\<lparr>payoutAccounts := (if vp_status a = VPA_VERIFIED
      then update_where (\<lambda>b. vp_payoutAccountId b = vp_payoutAccountId a \<and> vp_userId b = u_userId u \<and>
            vp_status b = VPA_VERIFIED \<and> vp_revokedAt b = None)
            (\<lambda>b. b\<lparr>vp_status := VPA_LOCKED, vp_lockedAt := Some (e_now G)\<rparr>) (payoutAccounts db)
      else payoutAccounts db)\<rparr>"
  using assms by (auto simp: lock_account_def update_many_def split: if_splits)

lemma lock_keeps_claims: "lock_beneficiary G c k db = Inr db' \<Longrightarrow> claims db' = claims db"
  by (auto simp: lock_beneficiary_def res_simps dest: lock_account_rows)

lemma review_kept:
  assumes "\<And>d. claims_kept d (later d)"
  shows "claims_kept db (snd (reviewKyc G S n i adminId dec note later db))"
proof (cases dec)
  case REJECT
  then show ?thesis by (simp add: reviewKyc_def guarded_kept)
next
  case APPROVE
  show ?thesis
  proof (cases "review_tx G S i adminId db")
    case (Inr r)
    obtain c d where r: "r = (c, d)" by (cases r)
    have "claims_kept db d"
    proof -
      obtain cl path k db1 where t: "(if path = CT_CASH then lock_beneficiary G cl k db else Inr db) = Inr db1"
        "update_claim (\<lambda>c. with_wht (computeWht S (pc_grossPrizeValueNgn cl) path)
         (c\<lparr>pc_status := PCS_KYC_CLEARED, pc_kycReviewedBy := Some adminId, pc_kycReviewedAt := Some (e_now G)\<rparr>)) i db1 = Inr (c, d)"
        using Inr unfolding r review_tx_def bind_res_eq_Inr by blast
      have "claims db1 = claims db" using t(1) lock_keeps_claims by (auto split: if_splits)
      moreover have "claims_kept db1 d" by (rule update_claim_kept [OF t(2)]) (simp add: row_kept_def)
      ultimately show ?thesis by (simp add: claims_kept_def)
    qed
    then have a: "claims_kept db (claim_audit G sv ac ai an i m d)" for sv ac ai an m by (simp add: claims_kept_def)
    show ?thesis
      by (simp add: reviewKyc_def Inr r Let_def APPROVE) (rule claims_kept_trans [OF claims_kept_trans [OF a assms] issue_kept])
  qed (simp add: reviewKyc_def APPROVE)
qed

lemma record_claims:
  assumes "claims_kept db (later db)"
  shows "claims_kept db (recordForClaim env S i later db)"
proof (cases "find_claim db i")
  case (Some c)
  have "claims (snd (in_tx (deduction_tx env c r d) d)) = claims d" for r d
    by (auto simp: deduction_tx_def Let_def in_tx_def split: sum.split)
  then show ?thesis using assms Some by (simp add: recordForClaim_def claims_kept_def list_all2_refl)
qed (simp add: recordForClaim_def)

lemma delivered_kept:
  assumes "claims_kept db (later db)" "\<And>d. claims_kept d (later2 d)"
  shows "claims_kept db (snd (markDelivered env S i adminId later later2 db))"
  unfolding markDelivered_def
  by (intro guarded_kept claims_kept_trans [OF assms(1)] updated_kept)
     (use record_claims [of _ later2, OF assms(2)] in \<open>auto simp: row_kept_def claims_kept_def\<close>)

lemma forfeit_kept:
  assumes "\<And>i d. claims_kept d (sched i d)"
  shows "claims_kept db (forfeit env sched c db)"
proof -
  have "claims_kept (sched (pc_claimId c) db) (forfeit env sched c db)"
    by (auto simp: forfeit_def Let_def update_many_def claims_kept_def intro!: list_all2_rows list_all2_refl) (simp add: row_kept_def)
  then show ?thesis by (rule claims_kept_trans [OF assms])
qed

lemma tick_kept:
  assumes "\<And>i d. claims_kept d (sched i d)"
  shows "claims_kept db (claims_tick env sched db)"
proof -
  have "claims_kept d (fold (forfeit env sched) cs d)" for cs d
  proof (induction cs arbitrary: d)
    case (Cons c cs)
    show ?case unfolding fold_simps by (rule claims_kept_trans [OF forfeit_kept [of sched, OF assms] Cons.IH])
  qed simp
  then show ?thesis by (simp add: claims_tick_def)
qed

section \<open>The counter\<close>

definition claims_unique :: "db \<Rightarrow> bool" where
  "claims_unique db \<longleftrightarrow> distinct (map pc_claimId (claims db)) \<and> distinct (map pc_winnerTicketRef (claims db))"

text \<open>A claim whose code may be tried, but for the number of attempts.\<close>

definition collectable :: "'a env_scheme \<Rightarrow> prize_claim \<Rightarrow> bool" where
  "collectable env c \<longleftrightarrow> pc_redeemedAt c = None \<and> pc_status c = PCS_KYC_CLEARED \<and> e_now env < pc_claimDeadlineAt c \<and>
     filled (pc_redemptionCodeHash c)"

definition tries :: "verify_args \<Rightarrow> prize_claim \<Rightarrow> bool" where
  "tries a c \<longleftrightarrow> va_ticketRef a = pc_winnerTicketRef c \<and>
     (filled (pc_collectionPointId c) \<and> filled (va_pointId a) \<longrightarrow> pc_collectionPointId c = va_pointId a)"

definition locked_out :: error where
  "locked_out = ForbiddenException ''Too many incorrect attempts. Contact customer care to unlock.''"

lemma redeemable_collectable:
  assumes "claims_unique db" "c \<in> set (claims db)" "collectable env c" "tries a c"
  shows "redeemable env db a = (if pc_redemptionAttempts c < MAX_ATTEMPTS then Inr c else Inl locked_out)"
proof -
  have f: "find (\<lambda>x. pc_winnerTicketRef x = pc_winnerTicketRef c) (claims db) = Some c"
    by (rule find_key_distinct) (use assms(1,2) in \<open>simp_all add: claims_unique_def\<close>)
  have p: "\<not> (filled (pc_collectionPointId c) \<and> filled (va_pointId a) \<and> pc_collectionPointId c \<noteq> va_pointId a)"
    using assms(4) by (auto simp: tries_def)
  have r: "va_ticketRef a = pc_winnerTicketRef c" using assms(4) by (simp add: tries_def)
  show ?thesis
    using assms(3) by (simp add: redeemable_def f p r collectable_def locked_out_def)
qed

definition attempted :: "prize_claim \<Rightarrow> nat \<Rightarrow> db \<Rightarrow> prize_claim list" where
  "attempted c n db = update_where (\<lambda>x. pc_claimId x = pc_claimId c) (\<lambda>x. x\<lparr>pc_redemptionAttempts := n\<rparr>) (claims db)"

lemma attempted_facts:
  assumes "claims_unique db" "c \<in> set (claims db)" "claims db' = attempted c n db"
  shows "claims_unique db'" "c\<lparr>pc_redemptionAttempts := n\<rparr> \<in> set (claims db')"
proof -
  have "map pc_claimId (attempted c n db) = map pc_claimId (claims db)"
    "map pc_winnerTicketRef (attempted c n db) = map pc_winnerTicketRef (claims db)"
    unfolding attempted_def by (rule map_update_where; simp)+
  then show "claims_unique db'" using assms(1,3) by (simp add: claims_unique_def)
  show "c\<lparr>pc_redemptionAttempts := n\<rparr> \<in> set (claims db')"
    using assms(2) by (auto simp: assms(3) attempted_def set_update_where image_iff intro!: bexI [of _ c])
qed

lemma attempted_same:
  assumes "claims_unique db" "c \<in> set (claims db)"
  shows "attempted c (pc_redemptionAttempts c) db = claims db"
proof -
  have "(if pc_claimId x = pc_claimId c then x\<lparr>pc_redemptionAttempts := pc_redemptionAttempts c\<rparr> else x) = x"
    if "x \<in> set (claims db)" for x
  proof (cases "pc_claimId x = pc_claimId c")
    case True
    then have "x = c" using assms that distinct_key_eq [of pc_claimId] by (auto simp: claims_unique_def)
    then show ?thesis by simp
  qed simp
  then show ?thesis unfolding attempted_def update_where_def by (rule map_idI)
qed

lemma verify_wrong:
  assumes "claims_unique db" "c \<in> set (claims db)" "collectable env c" "tries a c"
    and "Some (e_sha256 env (va_code a)) \<noteq> pc_redemptionCodeHash c" "pc_redemptionAttempts c < MAX_ATTEMPTS"
  shows "claims (snd (verify env a (\<lambda>d. d) db)) = attempted c (pc_redemptionAttempts c + 1) db"
    "\<exists>m. fst (verify env a (\<lambda>d. d) db) = Inl (ForbiddenException m)"
proof -
  have r: "redeemable env db a = Inr c" using redeemable_collectable [OF assms(1-4)] assms(6) by simp
  let ?f = "\<lambda>x :: prize_claim. x\<lparr>pc_redemptionAttempts := pc_redemptionAttempts x + 1\<rparr>"
  let ?db = "db\<lparr>claims := update_where (\<lambda>x. pc_claimId x = pc_claimId c) ?f (claims db)\<rparr>"
  have one: "x = c" if "x \<in> set (claims db)" "pc_claimId x = pc_claimId c" for x
    using assms(1,2) that distinct_key_eq [of pc_claimId] by (auto simp: claims_unique_def)
  then have u: "update_where (\<lambda>x. pc_claimId x = pc_claimId c) ?f (claims db) = attempted c (pc_redemptionAttempts c + 1) db"
    unfolding attempted_def update_where_def by (intro map_cong) auto
  have "find_claim ?db (pc_claimId c) \<noteq> None"
    using assms(2) by (auto simp: find_claim_def find_None_iff set_update_where)
  then obtain x where x: "update_claim ?f (pc_claimId c) db = Inr (x, ?db)"
    by (auto simp: update_claim_def Let_def)
  show "claims (snd (verify env a (\<lambda>d. d) db)) = attempted c (pc_redemptionAttempts c + 1) db"
    "\<exists>m. fst (verify env a (\<lambda>d. d) db) = Inl (ForbiddenException m)"
    using assms(5) x u by (simp_all add: verify_def r reject_code_def)
qed

lemma verify_locked:
  assumes "claims_unique db" "c \<in> set (claims db)" "collectable env c" "tries a c" "MAX_ATTEMPTS \<le> pc_redemptionAttempts c"
  shows "verify env a (\<lambda>d. d) db = (Inl locked_out, db)"
  using redeemable_collectable [OF assms(1-4)] assms(5) by (simp add: verify_def)

lemma wrong_codes:
  assumes "claims_unique db" "c \<in> set (claims db)" "collectable env c" "pc_redemptionAttempts c \<le> MAX_ATTEMPTS"
    and "\<forall>a\<in>set as. tries a c \<and> Some (e_sha256 env (va_code a)) \<noteq> pc_redemptionCodeHash c"
  shows "claims (fold (\<lambda>a d. snd (verify env a (\<lambda>d. d) d)) as db) =
    attempted c (min MAX_ATTEMPTS (pc_redemptionAttempts c + length as)) db"
  using assms
proof (induction as arbitrary: db c)
  case Nil
  then show ?case using attempted_same by simp
next
  case (Cons a as)
  let ?db = "snd (verify env a (\<lambda>d. d) db)" and ?n = "min MAX_ATTEMPTS (pc_redemptionAttempts c + 1)"
  let ?c = "c\<lparr>pc_redemptionAttempts := ?n\<rparr>"
  have t: "tries a c" "Some (e_sha256 env (va_code a)) \<noteq> pc_redemptionCodeHash c" using Cons.prems(5) by simp_all
  have v: "claims ?db = attempted c ?n db"
  proof (cases "pc_redemptionAttempts c < MAX_ATTEMPTS")
    case True
    then show ?thesis using verify_wrong(1) [OF Cons.prems(1-3) t] by simp
  next
    case False
    then have "pc_redemptionAttempts c = MAX_ATTEMPTS" using Cons.prems(4) by simp
    then show ?thesis using verify_locked [OF Cons.prems(1-3) t(1)] attempted_same [OF Cons.prems(1,2)] by simp
  qed
  note k = attempted_facts [OF Cons.prems(1,2) v]
  have "claims (fold (\<lambda>a d. snd (verify env a (\<lambda>d. d) d)) as ?db) = attempted ?c (min MAX_ATTEMPTS (?n + length as)) ?db"
    using Cons.IH [OF k(1) k(2)] Cons.prems(3,5) by (simp add: collectable_def tries_def)
  also have "\<dots> = attempted c (min MAX_ATTEMPTS (?n + length as)) db"
    by (simp add: attempted_def v update_where_def comp_def)
  also have "min MAX_ATTEMPTS (?n + length as) = min MAX_ATTEMPTS (pc_redemptionAttempts c + length (a # as))" by auto
  finally show ?case by simp
qed

section \<open>Forfeiture\<close>

definition forfeited :: "int \<Rightarrow> prize_claim \<Rightarrow> prize_claim" where
  "forfeited now c = c\<lparr>pc_status := PCS_FORFEITED, pc_forfeitedAt := Some now\<rparr>"

lemma forfeit_claims:
  "claims (forfeit env sched c db) = update_where (\<lambda>r. pc_claimId r = pc_claimId c \<and> pc_status r = pc_status c)
     (forfeited (e_now env)) (claims (sched (pc_claimId c) db))"
  using update_where_none [of "claims (sched (pc_claimId c) db)" "\<lambda>r. pc_claimId r = pc_claimId c \<and> pc_status r = pc_status c"]
  by (auto simp: forfeit_def Let_def update_many_def forfeited_def [abs_def] filter_empty_conv)

lemma tick_claims:
  assumes "distinct (map pc_claimId (claims db))"
  shows "claims (claims_tick env (\<lambda>_ d. d) db) =
    map (\<lambda>c. if abandoned (e_now env) c then forfeited (e_now env) c else c) (claims db)"
proof -
  have "claims (claims_tick env (\<lambda>_ d. d) db) =
      fold (\<lambda>x. update_where (\<lambda>r. pc_claimId r = pc_claimId x \<and> pc_status r = pc_status x) (forfeited (e_now env)))
        (filter (abandoned (e_now env)) (claims db)) (claims db)"
    unfolding claims_tick_def by (rule fold_field) (rule forfeit_claims)
  also have "\<dots> = map (\<lambda>r. if abandoned (e_now env) r \<and> pc_status r = pc_status r then forfeited (e_now env) r else r) (claims db)"
    by (rule fold_rewrite_rows [OF assms]) (simp add: forfeited_def)
  finally show ?thesis by simp
qed

text \<open>A claim whose status moved after it was read is left alone.\<close>

lemma forfeit_moved:
  assumes "\<And>r. r \<in> set (claims (sched (pc_claimId c) db)) \<Longrightarrow> pc_claimId r = pc_claimId c \<Longrightarrow> pc_status r \<noteq> pc_status c"
  shows "forfeit env sched c db = sched (pc_claimId c) db"
proof -
  have "filter (\<lambda>r. pc_claimId r = pc_claimId c \<and> pc_status r = pc_status c) (claims (sched (pc_claimId c) db)) = []"
    using assms by (auto simp: filter_empty_conv)
  then show ?thesis by (simp add: forfeit_def Let_def update_many_def)
qed

section \<open>Handover\<close>

lemma handover_recorded:
  assumes "confirmHandover env args l1 l db = (Inr v, db')" "c \<in> set (claims db')" "pc_claimId c = rd_claimId v"
    and "distinct (map pc_claimId (claims db'))"
  shows "pc_redeemedAt c = Some (e_now env) \<and> pc_redeemedByAdminId c = Some (va_adminUserId args) \<and>
    pc_redeemedAtPointId c = va_pointId args \<and> pc_status c \<in> {PCS_DELIVERED, PCS_CASH_PAID}"
proof -
  obtain v' d where v: "verify env args l1 db = (Inr v', d)" using assms(1) by (auto simp: confirmHandover_def res_simps)
  let ?P = "\<lambda>c. pc_claimId c = rd_claimId v' \<and> pc_redeemedAt c = None"
  let ?f = "\<lambda>c :: prize_claim. c\<lparr>pc_status := (if rd_claimType v' = Some CT_PRODUCT then PCS_DELIVERED else PCS_CASH_PAID),
              pc_redeemedAt := Some (e_now env), pc_redeemedByAdminId := Some (va_adminUserId args),
              pc_redeemedAtPointId := va_pointId args, pc_fulfilledAt := Some (e_now env)\<rparr>"
  have h: "v = v'" "filter ?P (claims (l d)) \<noteq> []" "claims db' = update_where ?P ?f (claims (l d))"
    using assms(1) by (auto simp: confirmHandover_def v hand_over_def update_many_def split: if_splits)
  obtain x where x: "x \<in> set (claims (l d))" "?P x" using h(2) by (auto simp: filter_empty_conv)
  have "?f x \<in> set (claims db')" using x by (auto simp: h(3) set_update_where image_iff intro!: bexI [of _ x])
  moreover have "pc_claimId (?f x) = pc_claimId c" using x(2) assms(3) h(1) by simp
  ultimately have "c = ?f x" using distinct_key_eq [OF assms(4)] assms(2) by metis
  then show ?thesis by simp
qed

lemma redeemed_refused:
  assumes "claims_unique db" "c \<in> set (claims db)" "pc_redeemedAt c = Some t" "va_ticketRef a = pc_winnerTicketRef c"
  shows "verify env a l db = (Inl (ConflictException (''Already collected on '' @ take 10 (to_iso_string t))), db)"
    "confirmHandover env a l l' db = (Inl (ConflictException (''Already collected on '' @ take 10 (to_iso_string t))), db)"
proof -
  have f: "find (\<lambda>x. pc_winnerTicketRef x = pc_winnerTicketRef c) (claims db) = Some c"
    by (rule find_key_distinct) (use assms(1,2) in \<open>simp_all add: claims_unique_def\<close>)
  have "redeemable env db a = Inl (ConflictException (''Already collected on '' @ take 10 (to_iso_string t)))"
    by (simp add: redeemable_def assms(3,4) f)
  then show "verify env a l db = (Inl (ConflictException (''Already collected on '' @ take 10 (to_iso_string t))), db)"
    "confirmHandover env a l l' db = (Inl (ConflictException (''Already collected on '' @ take 10 (to_iso_string t))), db)"
    by (simp_all add: verify_def confirmHandover_def)
qed

lemma claims_kept_rows:
  assumes "claims_kept db db'"
  shows "claims_unique db' = claims_unique db"
    "c' \<in> set (claims db') \<Longrightarrow> \<exists>c\<in>set (claims db). row_kept c c'"
    "c \<in> set (claims db) \<Longrightarrow> \<exists>c'\<in>set (claims db'). row_kept c c'"
proof -
  have l: "list_all2 row_kept (claims db) (claims db')" using assms by (simp add: claims_kept_def)
  have "map pc_claimId (claims db') = map pc_claimId (claims db)" "map pc_winnerTicketRef (claims db') = map pc_winnerTicketRef (claims db)"
    using l by (induction rule: list_all2_induct) (simp_all add: row_kept_def)
  then show "claims_unique db' = claims_unique db" by (simp add: claims_unique_def)
  show "c' \<in> set (claims db') \<Longrightarrow> \<exists>c\<in>set (claims db). row_kept c c'"
    "c \<in> set (claims db) \<Longrightarrow> \<exists>c'\<in>set (claims db'). row_kept c c'"
    using l by (induction rule: list_all2_induct) auto
qed

section \<open>From approval to payout\<close>

definition reviewed :: "claim_settings \<Rightarrow> int \<Rightarrow> string \<Rightarrow> ClaimType \<Rightarrow> prize_claim \<Rightarrow> prize_claim \<Rightarrow> prize_claim" where
  "reviewed S now adminId path seen c = with_wht (computeWht S (pc_grossPrizeValueNgn seen) path)
     (c\<lparr>pc_status := PCS_KYC_CLEARED, pc_kycReviewedBy := Some adminId, pc_kycReviewedAt := Some now\<rparr>)"

lemma reviewed_sel [simp]:
  "pc_claimId (reviewed S n a p x c) = pc_claimId c" "pc_winnerPhone (reviewed S n a p x c) = pc_winnerPhone c"
  "pc_claimType (reviewed S n a p x c) = pc_claimType c" "pc_winnerUserId (reviewed S n a p x c) = pc_winnerUserId c"
  "pc_kycBankAccountName (reviewed S n a p x c) = pc_kycBankAccountName c" "pc_kycBankCode (reviewed S n a p x c) = pc_kycBankCode c"
  "pc_kycBankAccountLast4 (reviewed S n a p x c) = pc_kycBankAccountLast4 c" "pc_status (reviewed S n a p x c) = PCS_KYC_CLEARED"
  by (simp_all add: reviewed_def)

lemma review_cases:
  assumes "review_tx G S i adminId db = Inr (c', db')"
  obtains c path k db1 where "find_claim db i = Some c" "pc_status c = PCS_KYC_PENDING" "pc_claimType c = Some path"
    "filled (pc_kycIdDocPath c)" "filled (pc_kycSelfiePath c)" "requireVerified db c = Inr k"
    "fingerprint_form (ki_bankAccountFingerprint k)"
    "(if path = CT_CASH then lock_beneficiary G c k db else Inr db) = Inr db1"
    "db' = db1\<lparr>claims := update_where (\<lambda>c. pc_claimId c = i) (reviewed S (e_now G) adminId path c) (claims db1)\<rparr>"
    "find_claim db' i = Some c'"
proof -
  obtain c where c: "find_claim db i = Some c" using assms by (auto simp: review_tx_def res_simps)
  note s = assms [unfolded review_tx_def c from_option_Some bind_res_Inr]
  obtain path k db1 where q: "pc_status c = PCS_KYC_PENDING" "pc_claimType c = Some path"
    "filled (pc_kycIdDocPath c) \<and> filled (pc_kycSelfiePath c)" "requireVerified db c = Inr k"
    "fingerprint_form (ki_bankAccountFingerprint k)"
    "(if path = CT_CASH then lock_beneficiary G c k db else Inr db) = Inr db1"
    "update_claim (reviewed S (e_now G) adminId path c) i db1 = Inr (c', db')"
    using s unfolding bind_res_eq_Inr require_eq_Inr from_option_eq_Inr reviewed_def [abs_def] by blast
  have "db' = db1\<lparr>claims := update_where (\<lambda>c. pc_claimId c = i) (reviewed S (e_now G) adminId path c) (claims db1)\<rparr>"
    "find_claim db' i = Some c'"
    using q(7) by (auto simp: update_claim_def Let_def res_simps)
  then show thesis using that [OF c q(1,2) _ _ q(4-6)] q(3) by blast
qed

lemma lock_beneficiary_iff:
  "lock_beneficiary G c k db = Inr db' \<longleftrightarrow> (\<exists>u a s number.
     find_user_by_phone db (pc_winnerPhone c) = Some u \<and> owns_claim u c \<and>
     (case ki_bankChangeAuthorizedAt k of None \<Rightarrow> True | Some t \<Rightarrow> e_now G - t \<ge> COOLING_OFF_MS) \<and>
     approved_account db (u_userId u) = Some a \<and> source_of db a = Some s \<and>
     (check_verified (fst s) \<and> vp_verifiedAt a \<noteq> None \<and> vp_revokedAt a = None) \<and>
     (pc_winnerPhone (snd s) = pc_winnerPhone c \<and> owns_claim u (snd s)) \<and>
     \<not> (vp_status a = VPA_VERIFIED \<and> vp_lockedAt a \<noteq> None) \<and> \<not> (vp_status a = VPA_LOCKED \<and> vp_lockedAt a = None) \<and>
     review_matches k a (fst s) \<and>
     (filled (pc_kycBankAccountName c) \<and> vp_resolvedAccountName a \<noteq> [] \<and>
      map_option normalizeName (pc_kycBankAccountName c) = Some (normalizeName (vp_resolvedAccountName a))) \<and>
     decrypt G (u_userId u) (vp_bankCode a) (vp_accountCiphertext a) = Inr number \<and> vp_accountLast4 a = last4 number \<and>
     assertDestinationMatches G k (vp_bankCode a) number = Inr () \<and>
     assertDestinationMatches G (fst s) (vp_bankCode a) number = Inr () \<and> lock_account G u a db = Inr db')"
  unfolding lock_beneficiary_def bind_res_eq_Inr require_eq_Inr from_option_eq_Inr by simp

text \<open>The partial unique index: one approved account of a customer.\<close>

definition one_approved :: "db \<Rightarrow> bool" where
  "one_approved db \<longleftrightarrow> (\<forall>a\<in>set (payoutAccounts db). \<forall>b\<in>set (payoutAccounts db).
     vp_userId a = vp_userId b \<longrightarrow> vp_status a \<in> {VPA_VERIFIED, VPA_LOCKED} \<longrightarrow> vp_status b \<in> {VPA_VERIFIED, VPA_LOCKED} \<longrightarrow> a = b)"

lemma find_unique:
  assumes "x \<in> set xs" "P x" "\<And>y. y \<in> set xs \<Longrightarrow> P y \<Longrightarrow> y = x"
  shows "find P xs = Some x"
proof (cases "find P xs")
  case None
  then show ?thesis using assms(1,2) by (auto simp: find_None_set)
next
  case (Some y)
  then show ?thesis using assms(3) by (auto dest: find_Some_set)
qed

lemma locked_account:
  assumes "approved_account db i = Some a" "one_approved db" "vp_revokedAt a = None"
    and "rows = (if vp_status a = VPA_VERIFIED then update_where (\<lambda>b. vp_payoutAccountId b = vp_payoutAccountId a \<and> vp_userId b = i \<and>
            vp_status b = VPA_VERIFIED \<and> vp_revokedAt b = None)
            (\<lambda>b. b\<lparr>vp_status := VPA_LOCKED, vp_lockedAt := Some now\<rparr>) (payoutAccounts db) else payoutAccounts db)"
    and "a' = (if vp_status a = VPA_VERIFIED then a\<lparr>vp_status := VPA_LOCKED, vp_lockedAt := Some now\<rparr> else a)"
  shows "find (\<lambda>b. vp_userId b = i \<and> vp_status b = VPA_LOCKED) rows = Some a'"
proof -
  have a: "a \<in> set (payoutAccounts db)" "vp_userId a = i" "vp_status a \<in> {VPA_VERIFIED, VPA_LOCKED}"
    using assms(1) by (auto simp: approved_account_def dest: find_Some_set)
  have one: "b = a" if "b \<in> set (payoutAccounts db)" "vp_userId b = i" "vp_status b \<in> {VPA_VERIFIED, VPA_LOCKED}" for b
    using assms(2) that a unfolding one_approved_def by metis
  show ?thesis
  proof (cases "vp_status a = VPA_VERIFIED")
    case True
    let ?f = "\<lambda>b. b\<lparr>vp_status := VPA_LOCKED, vp_lockedAt := Some now\<rparr>"
    have mem: "?f a \<in> set rows" using a True assms(3) by (auto simp: assms(4) set_update_where image_iff intro!: bexI [of _ a])
    have only: "b = ?f a" if b: "b \<in> set rows" "vp_userId b = i" "vp_status b = VPA_LOCKED" for b
    proof -
      obtain x where x: "x \<in> set (payoutAccounts db)" "b = (if vp_payoutAccountId x = vp_payoutAccountId a \<and> vp_userId x = i \<and>
          vp_status x = VPA_VERIFIED \<and> vp_revokedAt x = None then ?f x else x)"
        using b(1) True by (auto simp: assms(4) set_update_where)
      have "vp_userId x = i \<and> vp_status x \<in> {VPA_VERIFIED, VPA_LOCKED}"
      proof (cases "vp_payoutAccountId x = vp_payoutAccountId a \<and> vp_userId x = i \<and> vp_status x = VPA_VERIFIED \<and> vp_revokedAt x = None")
        case False
        then show ?thesis using b(2,3) x(2) by (simp only: if_False) simp
      qed simp
      then have xa: "x = a" using one [of x] x(1) by blast
      show ?thesis unfolding x(2) xa using a(2) True assms(3) by simp
    qed
    show ?thesis unfolding assms(5) if_P [OF True]
      by (rule find_unique [OF mem]) (use a(2) in simp, elim conjE, rule only)
  next
    case False
    then have r: "rows = payoutAccounts db" "a' = a" "vp_status a = VPA_LOCKED" using a(3) by (simp_all add: assms(4,5))
    show ?thesis unfolding r by (rule find_unique [OF a(1)]) (use a(2) r(3) one in auto)
  qed
qed

lemma find_claim_update:
  assumes "\<And>c. pc_claimId (f c) = pc_claimId c"
  shows "find_claim (db\<lparr>claims := update_where (\<lambda>c. pc_claimId c = i) f (claims db)\<rparr>) j =
    map_option (\<lambda>c. if pc_claimId c = i then f c else c) (find_claim db j)"
proof -
  have "find (\<lambda>c. pc_claimId c = j) (update_where (\<lambda>c. pc_claimId c = i) f cs) =
      map_option (\<lambda>c. if pc_claimId c = i then f c else c) (find (\<lambda>c. pc_claimId c = j) cs)" for cs
    by (induction cs) (auto simp: update_where_def assms)
  then show ?thesis by (simp add: find_claim_def)
qed

text \<open>
  After the review the claim and the account pass every check of a payout, as long as the claim whose
  check verified the account still carries the name of its holder.
\<close>

lemma source_updated:
  assumes "source_of db a = Some (k, c)" "vp_identityCheckId a' = vp_identityCheckId a" "\<And>c. pc_claimId (f c) = pc_claimId c"
    and "identityChecks db' = identityChecks db" "claims db' = update_where (\<lambda>c. pc_claimId c = i) f (claims db)"
  shows "source_of db' a' = Some (k, if pc_claimId c = i then f c else c)"
proof -
  have "find_claim db' j = map_option (\<lambda>c. if pc_claimId c = i then f c else c) (find_claim db j)" for j
    using find_claim_update [of f i db j] assms(3,5) by (simp add: find_claim_def)
  moreover have "find_check db' = find_check db" by (simp add: find_check_def assms(4) fun_eq_iff)
  ultimately show ?thesis using assms(1) by (auto simp: source_of_def assms(2) bind_eq_Some_conv split: option.splits)
qed

lemma review_then_locked:
  assumes "review_tx G S i adminId db = Inr (c', db')" "find_claim db i = Some c" "pc_claimType c = Some CT_CASH" "one_approved db"
    and named: "\<And>u a k x. find_user_by_phone db (pc_winnerPhone c) = Some u \<Longrightarrow> approved_account db (u_userId u) = Some a \<Longrightarrow>
      source_of db a = Some (k, x) \<Longrightarrow> filled (pc_kycBankAccountName x) \<and>
        map_option normalizeName (pc_kycBankAccountName x) = Some (normalizeName (vp_resolvedAccountName a))"
  shows "\<exists>d. requireLocked G db' c' = Inr d"
  using assms(1)
proof (cases rule: review_cases)
  case (1 c0 path k db1)
  let ?f = "reviewed S (e_now G) adminId CT_CASH c"
  have c: "c0 = c" "path = CT_CASH" using 1(1,3) assms(2,3) by simp_all
  have lk: "lock_beneficiary G c k db = Inr db1" using 1(8) c by simp
  obtain u a s number where l: "find_user_by_phone db (pc_winnerPhone c) = Some u" "owns_claim u c"
     "approved_account db (u_userId u) = Some a" "source_of db a = Some s"
     "check_verified (fst s)" "vp_verifiedAt a \<noteq> None" "vp_revokedAt a = None"
     "pc_winnerPhone (snd s) = pc_winnerPhone c" "owns_claim u (snd s)"
     "\<not> (vp_status a = VPA_LOCKED \<and> vp_lockedAt a = None)" "review_matches k a (fst s)"
     "filled (pc_kycBankAccountName c)"
     "map_option normalizeName (pc_kycBankAccountName c) = Some (normalizeName (vp_resolvedAccountName a))"
     "decrypt G (u_userId u) (vp_bankCode a) (vp_accountCiphertext a) = Inr number" "vp_accountLast4 a = last4 number"
     "assertDestinationMatches G k (vp_bankCode a) number = Inr ()"
     "assertDestinationMatches G (fst s) (vp_bankCode a) number = Inr ()" "lock_account G u a db = Inr db1"
    using lk unfolding lock_beneficiary_iff by blast
  note rows = lock_account_rows [OF l(18)]
  obtain ks x where s: "s = (ks, x)" by (cases s)
  define a' where "a' = (if vp_status a = VPA_VERIFIED then a\<lparr>vp_status := VPA_LOCKED, vp_lockedAt := Some (e_now G)\<rparr> else a)"
  have as: "a \<in> set (payoutAccounts db)" "vp_status a \<in> {VPA_VERIFIED, VPA_LOCKED}"
    using l(3) by (auto simp: approved_account_def dest: find_Some_set)
  have sel: "vp_lockedAt a' \<noteq> None" "vp_verifiedAt a' \<noteq> None" "vp_revokedAt a' = None" "vp_currency a' = vp_currency a"
    "vp_bankCode a' = vp_bankCode a" "vp_accountCiphertext a' = vp_accountCiphertext a" "vp_accountLast4 a' = vp_accountLast4 a"
    "vp_accountFingerprint a' = vp_accountFingerprint a" "vp_resolvedAccountName a' = vp_resolvedAccountName a"
    "vp_identityCheckId a' = vp_identityCheckId a"
    using as(2) l(6,7,10) by (auto simp: a'_def)
  have db': "users db' = users db" "identityChecks db' = identityChecks db"
    "claims db' = update_where (\<lambda>c. pc_claimId c = i) ?f (claims db)" "payoutAccounts db' = payoutAccounts db1"
    unfolding 1(9) c by (simp_all add: rows)
  have c': "c' = ?f c"
    using 1(10) find_claim_update [of ?f i db i] assms(2) db'(3) by (auto simp: find_claim_def dest: find_Some_set)
  have user: "find_user_by_phone db' (pc_winnerPhone c') = Some u" using l(1) by (simp add: c' find_user_by_phone_def db'(1))
  have check: "requireVerified db' c' = Inr k"
    using 1(6) unfolding c c' requireVerified_def latest_check_def db'(2) reviewed_sel .
  have account: "find (\<lambda>a. vp_userId a = u_userId u \<and> vp_status a = VPA_LOCKED) (payoutAccounts db') = Some a'"
    unfolding db'(4) by (rule locked_account [OF l(3) assms(4) l(7) _ a'_def]) (simp add: rows)
  let ?x = "if pc_claimId x = i then ?f x else x"
  have source: "source_of db' a' = Some (ks, ?x)"
    by (rule source_updated [OF _ sel(10) _ db'(2,3)]) (use l(4) s in simp_all)
  have x: "pc_winnerPhone ?x = pc_winnerPhone x" "pc_winnerUserId ?x = pc_winnerUserId x"
    "pc_kycBankAccountName ?x = pc_kycBankAccountName x" by simp_all
  have ok: "source_ok c' u (ks, ?x)"
    using l(5,8,9) by (simp add: source_ok_def s c' owns_claim_def x del: if_split_mem2)
  have nm: "filled (pc_kycBankAccountName x)"
    "map_option normalizeName (pc_kycBankAccountName x) = Some (normalizeName (vp_resolvedAccountName a))"
    using named [OF l(1,3)] l(4) s by simp_all
  have bank: "Some (ki_bankCode k) = pc_kycBankCode c" "Some (ki_bankAccountLast4 k) = pc_kycBankAccountLast4 c" "filled (pc_kycBankCode c)"
    using 1(6) assms(3) unfolding c by (auto simp: requireVerified_def res_simps)
  have rm: "vp_bankCode a = ki_bankCode k" "vp_accountLast4 a = ki_bankAccountLast4 k" "vp_accountFingerprint a = ki_bankAccountFingerprint k"
    "ki_bankCode ks = vp_bankCode a" "ki_bankAccountLast4 ks = vp_accountLast4 a" "ki_bankAccountFingerprint ks = vp_accountFingerprint a"
    "vp_currency a = ''NGN''"
    using l(11) by (simp_all add: review_matches_def s)
  have matches: "account_matches c' k a' (ks, ?x)"
    unfolding account_matches_def prod.case x sel c' reviewed_sel
    using l(12,13) nm bank rm by simp
  obtain e where e: "encrypt G (u_userId u) (vp_bankCode a) number = Inr e" using encrypt_succeeds [OF l(14)] by blast
  have own: "owns_claim u c'" using l(2) by (simp add: owns_claim_def c')
  have cash: "pc_claimType c' = Some CT_CASH" using assms(3) by (simp add: c')
  show ?thesis
    unfolding require_locked_iff
    using cash user own check account source ok matches e l(14-17) sel rm(7) s
    by (intro exI conjI) (assumption | simp)+
qed

end
