(* ===== verification/Payout_Runs.thy ===== *)
theory Payout_Runs
  imports Payout_Laws Claims_Laws
begin

text \<open>
  The calls of the payout code are runs of its transactions: initiation, retry, refresh, webhook
  and recovery sweep, each interleaved with any other run. What a call commits between two of its
  transactions is the work of others.
\<close>

section \<open>Other work\<close>

lemma other_step:
  assumes "txns db' = txns db" "entries db' = entries db" "accounts db' = accounts db" "payoutAttempts db' = payoutAttempts db"
  shows "payout_step db db'"
proof (rule ps_other)
  show "ledger_step\<^sup>*\<^sup>* db db'" using step_other [of db' db] assms by auto
  show "keeps_attempt db db' a" for a by (rule keeps_attempt_same [OF assms(1)])
qed (rule assms(4))

abbreviation payout_run_to :: "db \<Rightarrow> db \<Rightarrow> bool" where
  "payout_run_to \<equiv> payout_step\<^sup>*\<^sup>*"

lemma then_do_run:
  assumes "payout_run_to db (snd m)" "\<And>x. fst m = Inr x \<Longrightarrow> payout_run_to (snd m) (snd (f x (snd m)))"
  shows "payout_run_to db (snd (then_do m f))"
proof (cases m)
  case (Pair r d)
  then show ?thesis using assms by (cases r) (auto intro: rtranclp_trans)
qed

lemma in_tx_run:
  assumes "\<And>x d. m = Inr (x, d) \<Longrightarrow> payout_step db d"
  shows "payout_run_to db (snd (in_tx m db))"
  using assms by (cases m) auto

lemma attempt_audit_step: "payout_step db (attempt_audit env sv actor act i m db)"
  by (rule other_step) (simp_all add: attempt_audit_def write_audit_def)

lemma record_run:
  assumes "payout_run_to db (later db)"
  shows "payout_run_to db (recordForClaim env S i later db)"
proof -
  have "payout_step d (snd (in_tx (deduction_tx env c r d) d))" for c r d
    by (rule other_step) (auto simp: deduction_tx_def Let_def in_tx_def split: sum.split)
  then have "payout_run_to db (snd (in_tx (deduction_tx env c r (later db)) (later db)))" for c r
    using assms by (rule rtranclp.rtrancl_into_rtrancl [rotated])
  then show ?thesis by (auto simp: recordForClaim_def split: option.split)
qed

lemma mirror_run:
  assumes "payout_run_to db (later db)"
  shows "payout_run_to db (snd (mirrorCurrentAttempt c i later db))"
proof -
  have s: "payout_step d d'" if "link_claim f c k d = Inr d'" for f k d d'
    using link_claim_cases [OF that] by (intro other_step) simp_all
  show ?thesis
    unfolding mirrorCurrentAttempt_def
    by (auto split: option.split sum.split intro: assms rtranclp.rtrancl_into_rtrancl [OF assms s])
qed

section \<open>The answers of a provider\<close>

lemma checked_run:
  assumes "\<And>k d. payout_run_to d (later k d)" "status \<noteq> PPS_SUCCEEDED" "status \<noteq> PPS_REVERSED"
  shows "payout_run_to db (snd (mark_checked env i result status reason later db))"
  unfolding mark_checked_def
proof (intro then_do_run)
  fix a x
  have w: "payout_run_to (later 1 db) (snd (in_tx (update_attempts (in_flight i) (checked_attempt (e_now env) result a status reason)
      (later 1 db)) (later 1 db)))"
    by (rule in_tx_run) (rule ps_checked [OF _ assms(2,3)])
  show "payout_run_to (snd (from_option attempt_not_found (find_attempt db i), db))
      (snd (in_tx (update_attempts (in_flight i) (checked_attempt (e_now env) result a status reason)
      (later 1 (snd (from_option attempt_not_found (find_attempt db i), db)))) (later 1 (snd (from_option attempt_not_found (find_attempt db i), db)))))"
    using rtranclp_trans [OF assms(1) w] by simp
next
  fix a n d
  have "payout_run_to d (snd (mirrorCurrentAttempt (pa_claimId a) i (later 3) (later 2 d)))" for d
    by (rule rtranclp_trans [OF assms(1)]) (rule mirror_run [OF assms(1)])
  then show "payout_run_to d (snd (if n \<noteq> (1 :: nat) then (Inr False, d)
     else then_do (mirrorCurrentAttempt (pa_claimId a) i (later 3) (later 2 d)) (\<lambda>_ db2. (Inr True, db2))))" for d
    by (auto intro: then_do_run)
qed simp

lemma mark_run:
  assumes "payout_run_to db (snd m)" "\<And>d. payout_step d (f d)"
  shows "payout_run_to db (snd (then_do m (\<lambda>changed db1. if \<not> changed then (Inr False, db1) else (Inr True, f db1))))"
  by (rule then_do_run [OF assms(1)]) (use assms(2) in auto)

lemma failed_run:
  assumes "\<And>k d. payout_run_to d (later k d)"
  shows "payout_run_to db (snd (markFailed env i result actor later db))"
  unfolding markFailed_def by (rule mark_run [OF checked_run [of later, OF assms]]) (simp_all add: attempt_audit_step)

lemma non_terminal_run:
  assumes "\<And>k d. payout_run_to d (later k d)" "py_status result \<noteq> PPS_SUCCEEDED" "py_status result \<noteq> PPS_REVERSED"
  shows "payout_run_to db (snd (markNonTerminal env i result actor later db))"
  unfolding markNonTerminal_def by (rule mark_run [OF checked_run [of later, OF assms]]) (simp_all add: attempt_audit_step)

lemma mismatch_run:
  assumes "\<And>k d. payout_run_to d (later k d)"
  shows "payout_run_to db (snd (markVerificationMismatch env i result actor m later db))"
proof (cases "find_attempt db i")
  case (Some a)
  have 1: "payout_run_to db (snd (in_tx (update_attempts (in_flight i) (checked_attempt (e_now env) result a PPS_UNKNOWN r)
      (later 1 db)) (later 1 db)))" for r
    by (rule rtranclp_trans [OF assms in_tx_run]) (rule ps_checked, assumption, simp_all)
  have 2: "payout_run_to d (snd (mirrorCurrentAttempt (pa_claimId a) i (later 3) (later 2 d)))" for d
    by (rule rtranclp_trans [OF assms]) (rule mirror_run [OF assms])
  show ?thesis
    unfolding markVerificationMismatch_def Some option.case
    by (intro then_do_run 1 2) (simp add: r_into_rtranclp attempt_audit_step)
qed (simp add: markVerificationMismatch_def)

lemma succeeded_run:
  assumes "\<And>k d. payout_run_to d (later k d)" "uuid_ok env"
  shows "payout_run_to db (snd (markSucceeded (env :: payout_env) S i result actor later db))"
  unfolding markSucceeded_def
proof (rule then_do_run)
  show "payout_run_to db (snd (in_tx (success_tx env i result db) db))"
    by (rule in_tx_run) (rule ps_success [OF _ assms(2)])
next
  fix x :: "bool \<times> string"
  have "payout_run_to d (recordForClaim env S c (later 2) (later 1 d))" for c d
    by (rule rtranclp_trans [OF assms(1)]) (rule record_run [OF assms(1)])
  then have "payout_run_to d (attempt_audit env sv actor act i m (recordForClaim env S c (later 2) (later 1 d)))" for sv act m c d
    using attempt_audit_step by (rule rtranclp.rtrancl_into_rtrancl)
  then show "payout_run_to d (snd ((\<lambda>(changed, claimId) db1. if \<not> changed then (Inr False, db1)
     else (Inr True, attempt_audit env SEV_INFO actor ''PRIZE_PAYOUT_ATTEMPT_SUCCEEDED'' i
          [(''provider'', JStr (py_provider result)), (''reference'', JStr (py_reference result)),
           (''rawStatus'', json_opt (py_rawStatus result))]
          (recordForClaim env S claimId (later 2) (later 1 db1)))) x d))" for d
    by (cases x) simp
qed

lemma reversed_run: "payout_run_to db (snd (markReversed (env :: payout_env) i result actor db))"
  unfolding markReversed_def
  by (rule mark_run [OF in_tx_run]) (blast intro: ps_reverse attempt_audit_step)+

lemma apply_run:
  assumes "\<And>k d. payout_run_to d (later k d)" "uuid_ok env"
  shows "payout_run_to db (snd (applyForAttempt (env :: payout_env) S i result actor later db))"
  unfolding applyForAttempt_def
proof (rule then_do_run)
  fix a
  have one: "payout_run_to db (attempt_audit env sv actor act i m db)" for sv act m
    by (rule r_into_rtranclp [of payout_step, OF attempt_audit_step])
  have first: "payout_run_to d (later 0 d)" for d by (rule assms(1))
  note then0 = rtranclp_trans [OF first]
  have f: "payout_run_to d (snd (markFailed env i result actor later (later 0 d)))"
    and r: "payout_run_to d (snd (markReversed env i result actor (later 0 d)))" for d
    by (rule then0, rule failed_run [of later, OF assms(1)]) (rule then0, rule reversed_run)
  have n: "payout_run_to d (snd (markNonTerminal env i result actor later (later 0 d)))"
    if "py_status result \<noteq> PPS_SUCCEEDED" "py_status result \<noteq> PPS_REVERSED" for d
    by (rule then0, rule non_terminal_run [of later, OF assms(1) that])
  have body: "payout_run_to d (snd (case py_status result of
         PPS_SUCCEEDED \<Rightarrow>
           (case financialMismatch a result of
              Some mismatch \<Rightarrow>
                then_do (markVerificationMismatch env i result actor mismatch later (later 0 d)) (\<lambda>_ db1. (Inr False, db1))
            | None \<Rightarrow> markSucceeded env S i result actor later (later 0 d))
       | PPS_FAILED \<Rightarrow> markFailed env i result actor later (later 0 d)
       | PPS_REVERSED \<Rightarrow> markReversed env i result actor (later 0 d)
       | PPS_REQUESTED \<Rightarrow> (Inr False, d)
       | _ \<Rightarrow> markNonTerminal env i result actor later (later 0 d)))" for d
  proof (cases "py_status result")
    case PPS_SUCCEEDED
    have m: "payout_run_to d (snd (then_do (markVerificationMismatch env i result actor m later (later 0 d))
        (\<lambda>_ db1. (Inr False :: bool res, db1))))" for m
      by (rule then_do_run [OF then0 [OF mismatch_run [of later, OF assms(1)]]]) simp
    show ?thesis
      using m then0 [OF succeeded_run [of later, OF assms]] PPS_SUCCEEDED by (simp split: option.split)
  qed (use f r n in simp_all)
  show "payout_run_to (snd (from_option attempt_not_found (find_attempt db i), db)) (snd ((\<lambda>attempt db.
     if pa_provider attempt \<noteq> py_provider result then
       (Inr False, attempt_audit env SEV_CRITICAL actor ''PAYOUT_ATTEMPT_PROVIDER_MISMATCH'' i
         [(''storedProvider'', JStr (pa_provider attempt)), (''receivedProvider'', JStr (py_provider result))] db)
     else if filled (pa_providerReference attempt) \<and> pa_providerReference attempt \<noteq> Some (py_reference result)
         \<and> pa_idempotencyKey attempt \<noteq> py_reference result then
       (Inr False, attempt_audit env SEV_CRITICAL actor ''PAYOUT_ATTEMPT_REFERENCE_MISMATCH'' i
         [(''storedReference'', json_opt (pa_providerReference attempt)),
          (''idempotencyKey'', JStr (pa_idempotencyKey attempt)), (''receivedReference'', JStr (py_reference result))] db)
     else (case py_status result of
         PPS_SUCCEEDED \<Rightarrow>
           (case financialMismatch attempt result of
              Some mismatch \<Rightarrow>
                then_do (markVerificationMismatch env i result actor mismatch later (later 0 db)) (\<lambda>_ db1. (Inr False, db1))
            | None \<Rightarrow> markSucceeded env S i result actor later (later 0 db))
       | PPS_FAILED \<Rightarrow> markFailed env i result actor later (later 0 db)
       | PPS_REVERSED \<Rightarrow> markReversed env i result actor (later 0 db)
       | PPS_REQUESTED \<Rightarrow> (Inr False, db)
       | _ \<Rightarrow> markNonTerminal env i result actor later (later 0 db))) a (snd (from_option attempt_not_found (find_attempt db i), db))))"
    unfolding snd_conv using body one by simp
qed simp

section \<open>The calls\<close>

text \<open>An attempt is stored under an id that no journal of a payout was posted for yet.\<close>

definition fresh_attempt_id :: "payout_env \<Rightarrow> db \<Rightarrow> bool" where
  "fresh_attempt_id G db \<longleftrightarrow> (\<forall>uuid c adm p retry r db'. reserve_tx G uuid c adm p retry db = Inr (r, db') \<longrightarrow>
     find_txn_by_key db (payout_key (pa_attemptId (ry_attempt r))) = None \<and>
     find_txn_by_key db (payback_key (pa_attemptId (ry_attempt r))) = None)"

lemma start_run:
  assumes "\<And>k d. payout_run_to d (later k d)" "uuid_ok G" "fresh_attempt_id G db"
  shows "payout_run_to db (snd (startAttempt G S P X uuid c adm p retry later db))"
  unfolding startAttempt_def
proof (rule then_do_run)
  let ?m = "bind_res (registry_get p) (\<lambda>provider. bind_res (if provider = ''PAYSTACK'' then requireReadiness P else Inr ()) (\<lambda>_. Inr provider))"
  fix provider
  have "payout_run_to db (snd (in_tx (reserve_tx G uuid c adm provider retry db) db))"
    using assms(3) unfolding fresh_attempt_id_def by (intro in_tx_run ps_reserve [OF _ assms(2)]) blast+
  then show "payout_run_to (snd (?m, db)) (snd (then_do (in_tx (reserve_tx G uuid c adm provider retry (snd (?m, db))) (snd (?m, db))) (\<lambda>reserved db1.
     let db2 = reserved_audit G adm retry reserved db1;
         result = (case px_initiate X provider (request_of reserved) of
           Some r \<Rightarrow> r
         | None \<Rightarrow> uncertain_result provider (pa_idempotencyKey (ry_attempt reserved))) in
     then_do (applyForAttempt G S (pa_attemptId (ry_attempt reserved)) result (ACTOR_ADMIN, adm) later db2) (\<lambda>_ db3.
     (getAttempt db3 (pa_attemptId (ry_attempt reserved)), db3)))))"
    unfolding snd_conv Let_def
  proof (rule then_do_run)
    fix r d
    have a: "payout_step d (reserved_audit G adm retry r d)" for r d unfolding reserved_audit_def by (rule attempt_audit_step)
    show "payout_run_to d (snd (then_do (applyForAttempt G S (pa_attemptId (ry_attempt r))
        (case px_initiate X provider (request_of r) of Some r \<Rightarrow> r | None \<Rightarrow> uncertain_result provider (pa_idempotencyKey (ry_attempt r)))
        (ACTOR_ADMIN, adm) later (reserved_audit G adm retry r d)) (\<lambda>_ db3. (getAttempt db3 (pa_attemptId (ry_attempt r)), db3))))" for d
      by (rule then_do_run [OF converse_rtranclp_into_rtranclp [of payout_step, OF a apply_run [of later, OF assms(1,2)]]]) simp
  qed
qed simp

lemma refresh_run:
  assumes "\<And>k d. payout_run_to d (later k d)" "uuid_ok env"
  shows "payout_run_to db (snd (refreshCurrent (env :: payout_env) S X c adm later db))"
proof -
  have a: "payout_run_to d (snd (then_do (applyForAttempt env S i r ac later d) (\<lambda>_ db1. (getAttempt db1 i, db1))))" for i r ac d
    by (rule then_do_run [OF apply_run [of later, OF assms]]) simp
  show ?thesis
    unfolding refreshCurrent_def
    by (rule then_do_run; (rule then_do_run)?)
       (auto intro!: then_do_run a r_into_rtranclp [of payout_step, OF attempt_audit_step] split: option.split)
qed

lemma sync_run:
  assumes "\<And>k d. payout_run_to d (later k d)" "uuid_ok env"
  shows "payout_run_to db (snd (syncReference (env :: payout_env) S X p ref actorId later db))"
  unfolding syncReference_def Let_def
  by (auto intro!: then_do_run apply_run [of later, OF assms] split: option.split)

lemma recovery_run:
  assumes "\<And>i k d. payout_run_to d (sched i k d)" "uuid_ok env"
  shows "payout_run_to db (payout_recovery_tick (env :: payout_env) S X sched db)"
proof -
  have one: "payout_run_to d (recover_attempt env S X sched a d)" for a d
    using apply_run [of "sched (pa_attemptId a)", OF assms]
    by (simp add: recover_attempt_def split: sum.split option.split)
  have "payout_run_to d (fold (recover_attempt env S X sched) as d)" for as d
  proof (induction as arbitrary: d)
    case (Cons a as)
    show ?case unfolding fold_simps by (rule rtranclp_trans [OF one Cons.IH])
  qed simp
  then show ?thesis unfolding payout_recovery_tick_def .
qed

end
