(* ===== verification/Payout_Properties.thy ===== *)
theory Payout_Properties
  imports Payout_Runs Agent_Properties Remittance_Properties
begin

text \<open>
  What the claims and payouts of prizes promise, each on a concrete case.
\<close>

section \<open>A claim under payout\<close>

text \<open>
  The environment of the witnesses: the digest of \<open>Ledger_Laws\<close>, a MAC that pads its message and a
  cipher that leaves the text as it is under a constant tag.
\<close>

definition ex_payout_env :: payout_env where
  "ex_payout_env = \<lparr>e_uuid = (\<lambda>n. CHR ''u'' # nat_str n), e_now = 1000, e_sha256 = (\<lambda>s. nat_str (length s)),
     e_localeCompare = str_cmp, e_dbCollate = str_cmp, e_requestId = None,
     po_fingerprintKey = Some (replicate 32 CHR ''k''), po_encryptionKey = Some (replicate 43 CHR ''A'' @ ''=''),
     po_hmac = (\<lambda>_ m. take 32 (rev m @ replicate 32 0)),
     po_gcmEncrypt = (\<lambda>_ _ _ t. (t, replicate 16 7)),
     po_gcmDecrypt = (\<lambda>_ _ _ c tag. if tag = replicate 16 7 then Some c else None), po_iv = replicate 12 1\<rparr>"

lemma ex_payout_uuid: "uuid_ok ex_payout_env"
  using ex_uuid_ok by (simp add: uuid_ok_def ex_payout_env_def ex_env_def)

lemma ex_gcm_ok: "gcm_ok ex_payout_env"
  by (simp add: gcm_ok_def ex_payout_env_def)

definition ex_user_id :: string where
  "ex_user_id = ''00000000-0000-0000-0000-000000000001''"

text \<open>The fingerprint and the encrypted form of account 0123456789 at bank 058 in this environment.\<close>

definition ex_fingerprint :: string where
  "ex_fingerprint = ''393837363534333231303a3835303a31763a6b6e61623a616e69776572757300''"

definition ex_ciphertext :: string where
  "ex_ciphertext = ''v1.AQEBAQEBAQEBAQEB.BwcHBwcHBwcHBwcHBwcHBw.MDEyMzQ1Njc4OQ''"

definition ex_check :: identity_check where
  "ex_check = \<lparr>ki_checkId = ''k1'', ki_claimId = ''c1'', ki_attemptNumber = 1, ki_provider = ''PAYSTACK'',
     ki_status = KIC_VERIFIED, ki_paystackCustomerCode = Some ''CUS'', ki_bankCode = ''058'', ki_bankAccountLast4 = ''6789'',
     ki_bankAccountFingerprint = ex_fingerprint,
     ki_submittedAt = Some 10, ki_verifiedAt = Some 20, ki_failedAt = None, ki_failureCode = None,
     ki_bankChangeAuthorizedAt = None\<rparr>"

definition ex_payout_account :: payout_account where
  "ex_payout_account = \<lparr>vp_payoutAccountId = ''v1'', vp_userId = ex_user_id, vp_currency = ''NGN'', vp_bankCode = ''058'',
     vp_bankName = ''GT'', vp_accountCiphertext = ex_ciphertext,
     vp_accountLast4 = ''6789'', vp_accountFingerprint = ex_fingerprint,
     vp_resolvedAccountName = ''ADA OBI'', vp_status = VPA_VERIFIED, vp_identityCheckId = Some ''k1'',
     vp_verifiedAt = Some 30, vp_lockedAt = None, vp_revokedAt = None\<rparr>"

definition ex_customer_row :: user where
  "ex_customer_row = \<lparr>u_userId = ex_user_id, u_phoneNumber = ''+234'', u_email = None, u_displayName = None,
     u_kycStatus = KYC_OTP_VERIFIED, u_loyaltyPointsBalance = 0, u_smsEnabled = True, u_pushEnabled = True, u_emailEnabled = True,
     u_spendLimitPeriod = None, u_spendLimitCapNgn = None, u_selfExclusionUntil = None, u_bankCode = None,
     u_bankAccountLast4 = None, u_bankAccountNameHash = None\<rparr>"

text \<open>A cash claim awaiting review.\<close>

definition ex_pending_claim :: prize_claim where
  "ex_pending_claim = ex_claim_row\<lparr>pc_claimType := Some CT_CASH, pc_status := PCS_KYC_PENDING, pc_kycIdDocPath := Some ''d'',
     pc_kycSelfiePath := Some ''s'', pc_kycBankCode := Some ''058'', pc_kycBankAccountLast4 := Some ''6789'',
     pc_kycBankAccountName := Some ''Ada  Obi'', pc_selectionDeadlineAt := 2000, pc_claimDeadlineAt := 3000\<rparr>"

definition ex_settings :: claim_settings where
  "ex_settings = \<lparr>cs_whtRatePercent = 500, cs_whtThresholdNgn = 100\<rparr>"

definition ex_tables :: "db \<Rightarrow> db" where
  "ex_tables db = db\<lparr>users := [ex_customer_row], claims := [ex_pending_claim], identityChecks := [ex_check],
     payoutAccounts := [ex_payout_account]\<rparr>"

text \<open>From nothing: the accounts are opened, the claim is reviewed, a payout is reserved and succeeds.\<close>

definition ex_open :: "string \<Rightarrow> LedgerAccountType \<Rightarrow> LedgerAccountPurpose \<Rightarrow> db \<Rightarrow> db" where
  "ex_open code ty purpose d = result_of (ensureAccount ex_env (system_account code code ty purpose) d d)"

definition ex_payout_chart :: db where
  "ex_payout_chart = ex_open BANK_CASH_CODE ASSET BANK_CASH (ex_open WHT_PAYABLE_CODE LIABILITY TAX_WHT_PAYABLE
     (ex_open PRIZE_PAYABLE_CODE LIABILITY PRIZE_PAYABLE (ex_open PRIZE_EXPENSE_CODE EXPENSE PRIZE_EXPENSE empty_db)))"

definition ex_ready :: db where
  "ex_ready = ex_payout_chart\<lparr>users := [ex_customer_row], identityChecks := [ex_check],
     claims := [ex_pending_claim\<lparr>pc_status := PCS_KYC_CLEARED, pc_redemptionCodeHash := Some ''6''\<rparr>],
     payoutAccounts := [ex_payout_account\<lparr>vp_status := VPA_LOCKED, vp_lockedAt := Some 40\<rparr>]\<rparr>"

definition ex_reserved :: "(reserved_payout \<times> db) res" where
  "ex_reserved = reserve_tx ex_payout_env ''x'' ''c1'' ''adm'' ''DEV'' False ex_ready"

definition ex_answer :: "PrizePayoutStatus \<Rightarrow> provider_result" where
  "ex_answer st = bare_result ''DEV'' ''DEV-PAYOUT-sw-prize-x'' st ''dev''"

definition ex_settled :: "db \<Rightarrow> ((bool \<times> string) \<times> db) res" where
  "ex_settled db = success_tx ex_payout_env ''u5'' (ex_answer PPS_SUCCEEDED) db"

definition ex_returned :: "db \<Rightarrow> (bool \<times> db) res" where
  "ex_returned db = reverse_tx ex_payout_env ''u5'' (ex_answer PPS_REVERSED) db"

text \<open>What the witnesses read off these databases.\<close>

definition ex_reserved_facts :: "reserved_payout \<Rightarrow> db \<Rightarrow> bool" where
  "ex_reserved_facts r db \<longleftrightarrow> pa_attemptId (ry_attempt r) = ''u5'' \<and> pa_amountNgn (ry_attempt r) = 950 \<and>
     map (\<lambda>a. (pa_attemptId a, pa_claimId a, pa_status a)) (payoutAttempts db) = [(''u5'', ''c1'', PPS_REQUESTED)] \<and>
     map lt_idempotencyKey (txns db) = [''ledger:prize-accrual:c1''] \<and> accounts_trimmed db"

definition ex_settled_facts :: "db \<Rightarrow> bool" where
  "ex_settled_facts db \<longleftrightarrow> map pa_status (payoutAttempts db) = [PPS_SUCCEEDED] \<and> map pa_amountNgn (payoutAttempts db) = [950]"

lemma ex_run_facts: "case ex_reserved of Inl _ \<Rightarrow> False | Inr (r, db1) \<Rightarrow> ex_reserved_facts r db1 \<and>
    (case ex_settled db1 of Inl _ \<Rightarrow> False | Inr (x, db2) \<Rightarrow> x = (True, ''c1'') \<and> ex_settled_facts db2 \<and>
       (case ex_returned db2 of Inl _ \<Rightarrow> False | Inr (y, db3) \<Rightarrow> y))"
  by code_simp

lemma case_resD: "(case m of Inl _ \<Rightarrow> False | Inr x \<Rightarrow> P x) \<Longrightarrow> \<exists>x. m = Inr x \<and> P x"
  by (cases m) simp_all

lemma ex_open_step:
  assumes "\<not> isl (ensureAccount ex_env (system_account code code ty purpose) d d)"
  shows "ledger_step d (ex_open code ty purpose d)"
  unfolding ex_open_def using result_of_Inr [OF assms] by (blast intro: step_ensure)

lemma ex_chart_opened: "ledger_step\<^sup>*\<^sup>* empty_db ex_payout_chart"
proof -
  let ?d1 = "ex_open PRIZE_EXPENSE_CODE EXPENSE PRIZE_EXPENSE empty_db"
  let ?d2 = "ex_open PRIZE_PAYABLE_CODE LIABILITY PRIZE_PAYABLE ?d1"
  let ?d3 = "ex_open WHT_PAYABLE_CODE LIABILITY TAX_WHT_PAYABLE ?d2"
  have c: "\<not> isl (ensureAccount ex_env (system_account PRIZE_EXPENSE_CODE PRIZE_EXPENSE_CODE EXPENSE PRIZE_EXPENSE) empty_db empty_db)"
    "\<not> isl (ensureAccount ex_env (system_account PRIZE_PAYABLE_CODE PRIZE_PAYABLE_CODE LIABILITY PRIZE_PAYABLE) ?d1 ?d1)"
    "\<not> isl (ensureAccount ex_env (system_account WHT_PAYABLE_CODE WHT_PAYABLE_CODE LIABILITY TAX_WHT_PAYABLE) ?d2 ?d2)"
    "\<not> isl (ensureAccount ex_env (system_account BANK_CASH_CODE BANK_CASH_CODE ASSET BANK_CASH) ?d3 ?d3)"
    by code_simp+
  show ?thesis
    unfolding ex_payout_chart_def using c [THEN ex_open_step] by (meson converse_rtranclp_into_rtranclp rtranclp.rtrancl_refl)
qed

lemma ex_ready_reached: "payout_step\<^sup>*\<^sup>* empty_db ex_ready"
proof -
  have "ledger_step ex_payout_chart ex_ready" by (rule step_other) (simp_all add: ex_ready_def)
  then have "ledger_step\<^sup>*\<^sup>* empty_db ex_ready" using ex_chart_opened by (rule rtranclp.rtrancl_into_rtrancl [rotated])
  moreover have "payoutAttempts ex_ready = []" by code_simp
  ultimately have "payout_step empty_db ex_ready" by (intro ps_other) (simp_all add: empty_db_def)
  then show ?thesis by blast
qed

lemma ex_ready_txns: "txns ex_ready = []"
  by code_simp

text \<open>The run of the witnesses.\<close>

lemma ex_payout_run:
  obtains r db1 db2 db3 where "reserve_tx ex_payout_env ''x'' ''c1'' ''adm'' ''DEV'' False ex_ready = Inr (r, db1)"
    "ex_reserved_facts r db1" "success_tx ex_payout_env ''u5'' (ex_answer PPS_SUCCEEDED) db1 = Inr ((True, ''c1''), db2)"
    "ex_settled_facts db2" "reverse_tx ex_payout_env ''u5'' (ex_answer PPS_REVERSED) db2 = Inr (True, db3)"
    "payout_step\<^sup>*\<^sup>* empty_db db1" "payout_step\<^sup>*\<^sup>* empty_db db2"
proof -
  obtain r db1 where 1: "ex_reserved = Inr (r, db1)" "ex_reserved_facts r db1" and
    f: "case ex_settled db1 of Inl _ \<Rightarrow> False | Inr (x, db2) \<Rightarrow> x = (True, ''c1'') \<and> ex_settled_facts db2 \<and>
       (case ex_returned db2 of Inl _ \<Rightarrow> False | Inr (y, db3) \<Rightarrow> y)"
    using case_resD [OF ex_run_facts] by auto
  obtain db2 where 2: "ex_settled db1 = Inr ((True, ''c1''), db2)" "ex_settled_facts db2"
    and f: "case ex_returned db2 of Inl _ \<Rightarrow> False | Inr (y, db3) \<Rightarrow> y"
    using case_resD [OF f] by auto
  obtain db3 where 3: "ex_returned db2 = Inr (True, db3)" using case_resD [OF f] by auto
  have r: "reserve_tx ex_payout_env ''x'' ''c1'' ''adm'' ''DEV'' False ex_ready = Inr (r, db1)" using 1(1) by (simp add: ex_reserved_def)
  have "payout_step ex_ready db1"
    by (rule ps_reserve [OF r ex_payout_uuid]) (simp_all add: find_txn_by_key_def ex_ready_txns)
  then have s1: "payout_step\<^sup>*\<^sup>* empty_db db1" using ex_ready_reached by (rule rtranclp.rtrancl_into_rtrancl [rotated])
  moreover have "payout_step db1 db2" using ps_success [OF 2(1) [unfolded ex_settled_def] ex_payout_uuid] .
  ultimately have "payout_step\<^sup>*\<^sup>* empty_db db2" by (rule rtranclp.rtrancl_into_rtrancl)
  then show thesis using that [OF r 1(2) _ 2(2) _ s1] 2(1) 3 by (simp add: ex_settled_def ex_returned_def)
qed

section \<open>One payout of a claim\<close>

lemma attempt_journal:
  assumes "payout_ok db" "a \<in> set (payoutAttempts db)"
  shows "find_txn_by_key db (payout_key (pa_attemptId a)) = Some t \<longleftrightarrow> pa_payoutLedgerTxnId a = Some (lt_ledgerTxnId t) \<and>
      find_txn db (lt_ledgerTxnId t) = Some t"
    "find_txn_by_key db (payout_key (pa_attemptId a)) = Some t \<Longrightarrow> lt_totalAmountNgn t = pa_amountNgn a \<and> lt_kind t = PRIZE_PAYOUT"
proof -
  have n: "names_payout db a" using payout_okD(4) [OF assms] by (simp add: attempt_row_def)
  have id: "lt_ledgerTxnId t = j" if "find_txn db j = Some t" for j t using that by (auto simp: find_txn_def dest: find_Some_set)
  have "(find_txn_by_key db (payout_key (pa_attemptId a)) = Some t \<longleftrightarrow> pa_payoutLedgerTxnId a = Some (lt_ledgerTxnId t) \<and>
      find_txn db (lt_ledgerTxnId t) = Some t) \<and>
    (find_txn_by_key db (payout_key (pa_attemptId a)) = Some t \<longrightarrow> lt_totalAmountNgn t = pa_amountNgn a \<and> lt_kind t = PRIZE_PAYOUT)"
  proof (cases "pa_payoutLedgerTxnId a")
    case None
    then show ?thesis using n by (simp add: names_payout_def)
  next
    case (Some j)
    then obtain u where u: "find_txn_by_key db (payout_key (pa_attemptId a)) = Some u" "find_txn db j = Some u"
      "lt_totalAmountNgn u = pa_amountNgn a" "lt_kind u = PRIZE_PAYOUT" using n by (auto simp: names_payout_def)
    have j: "lt_ledgerTxnId u = j" by (rule id [OF u(2)])
    show ?thesis
    proof (cases "u = t")
      case True
      then show ?thesis using u(1,3,4) Some j u(2) by simp
    next
      case False
      then have "find_txn db (lt_ledgerTxnId t) \<noteq> Some t \<or> j \<noteq> lt_ledgerTxnId t" using u(2) by auto
      then show ?thesis using u(1) Some False by auto
    qed
  qed
  then show "find_txn_by_key db (payout_key (pa_attemptId a)) = Some t \<longleftrightarrow> pa_payoutLedgerTxnId a = Some (lt_ledgerTxnId t) \<and>
      find_txn db (lt_ledgerTxnId t) = Some t"
    "find_txn_by_key db (payout_key (pa_attemptId a)) = Some t \<Longrightarrow> lt_totalAmountNgn t = pa_amountNgn a \<and> lt_kind t = PRIZE_PAYOUT"
    by blast+
qed

lemma attempt_status:
  assumes "payout_ok db" "a \<in> set (payoutAttempts db)" "pa_payoutLedgerTxnId a = Some j"
  shows "pa_status a = PPS_SUCCEEDED \<and> find_reversal_of db j = None \<or>
    pa_status a = PPS_REVERSED \<and> (\<exists>r. find_reversal_of db j = Some r \<and> pa_reversalLedgerTxnId a = Some (lt_ledgerTxnId r) \<and>
      lt_totalAmountNgn r = pa_amountNgn a)"
  using payout_okD(4) [OF assms(1,2)] assms(3)
  by (cases "pa_reversalLedgerTxnId a") (auto simp: attempt_row_def names_payback_def status_fits_def)

lemma open_attempt_unique:
  assumes "payout_ok db" "a \<in> set (payoutAttempts db)" "b \<in> set (payoutAttempts db)" "pa_claimId b = pa_claimId a"
    "\<not> closed a" "\<not> closed b"
  shows "b = a"
proof -
  have "pa_attemptNumber a = pa_attemptNumber b"
    using payout_okD(3) [OF assms(1)] assms(2-6) unfolding one_open_def by (metis linorder_neqE_nat)
  then have "attempt_number_key a = attempt_number_key b" using assms(4) by (simp add: attempt_number_key_def)
  then show ?thesis using payout_okD(2) [OF assms(1)] assms(2,3) distinct_key_eq [of attempt_number_key]
    by (auto simp: attempts_unique_def)
qed

text \<open>C3. A prize is paid out at most once. In every database that any interleaving of reservations,
  successes, failures, reversals and foreign work can reach, a claim has at most one attempt that is
  neither failed nor reversed; the payout journal of an attempt is posted for exactly its amount and
  named by it; an attempt that is booked and not reversed has succeeded and is the only such attempt
  of its claim; a reversed one is returned by exactly one journal for the same amount; and an attempt
  that failed or is undecided has booked nothing.\<close>

theorem payout_paid_once:
  assumes "payout_step\<^sup>*\<^sup>* empty_db db" "a \<in> set (payoutAttempts db)" "b \<in> set (payoutAttempts db)" "pa_claimId b = pa_claimId a"
  shows "(\<not> closed a \<and> \<not> closed b \<longrightarrow> b = a) \<and>
    (\<forall>t. find_txn_by_key db (payout_key (pa_attemptId a)) = Some t \<longrightarrow>
       pa_payoutLedgerTxnId a = Some (lt_ledgerTxnId t) \<and> lt_totalAmountNgn t = pa_amountNgn a \<and> lt_kind t = PRIZE_PAYOUT \<and>
       (case find_reversal_of db (lt_ledgerTxnId t) of
          None \<Rightarrow> pa_status a = PPS_SUCCEEDED \<and>
            (\<forall>u. find_txn_by_key db (payout_key (pa_attemptId b)) = Some u \<and> find_reversal_of db (lt_ledgerTxnId u) = None \<longrightarrow> b = a)
        | Some r \<Rightarrow> pa_status a = PPS_REVERSED \<and> pa_reversalLedgerTxnId a = Some (lt_ledgerTxnId r) \<and>
            lt_totalAmountNgn r = pa_amountNgn a)) \<and>
    (pa_status a = PPS_SUCCEEDED \<longrightarrow> find_txn_by_key db (payout_key (pa_attemptId a)) \<noteq> None) \<and>
    (pa_status a \<noteq> PPS_SUCCEEDED \<and> pa_status a \<noteq> PPS_REVERSED \<longrightarrow> find_txn_by_key db (payout_key (pa_attemptId a)) = None)"
proof -
  have ok: "payout_ok db" by (rule reachable_payout_ok [OF assms(1)])
  note ja = attempt_journal [OF ok assms(2)] and jb = attempt_journal [OF ok assms(3)]
  have one: "\<not> closed a \<Longrightarrow> \<not> closed b \<Longrightarrow> b = a" by (rule open_attempt_unique [OF ok assms(2-4)])
  have journal: "pa_payoutLedgerTxnId a = Some (lt_ledgerTxnId t) \<and> lt_totalAmountNgn t = pa_amountNgn a \<and> lt_kind t = PRIZE_PAYOUT \<and>
       (case find_reversal_of db (lt_ledgerTxnId t) of
          None \<Rightarrow> pa_status a = PPS_SUCCEEDED \<and>
            (\<forall>u. find_txn_by_key db (payout_key (pa_attemptId b)) = Some u \<and> find_reversal_of db (lt_ledgerTxnId u) = None \<longrightarrow> b = a)
        | Some r \<Rightarrow> pa_status a = PPS_REVERSED \<and> pa_reversalLedgerTxnId a = Some (lt_ledgerTxnId r) \<and>
            lt_totalAmountNgn r = pa_amountNgn a)"
    if t: "find_txn_by_key db (payout_key (pa_attemptId a)) = Some t" for t
  proof -
    have la: "pa_payoutLedgerTxnId a = Some (lt_ledgerTxnId t)" using ja(1) t by blast
    note sa = attempt_status [OF ok assms(2) la]
    have "b = a" if u: "find_txn_by_key db (payout_key (pa_attemptId b)) = Some u" "find_reversal_of db (lt_ledgerTxnId u) = None"
      and n: "find_reversal_of db (lt_ledgerTxnId t) = None" for u
    proof -
      have "pa_payoutLedgerTxnId b = Some (lt_ledgerTxnId u)" using jb(1) u(1) by blast
      then have "pa_status b = PPS_SUCCEEDED" using attempt_status [OF ok assms(3)] u(2) by auto
      moreover have "pa_status a = PPS_SUCCEEDED" using sa n by simp
      ultimately show ?thesis using one by (simp add: closed_def)
    qed
    then show ?thesis using la ja(2) [OF t] sa by (auto split: option.split)
  qed
  have row: "status_fits a" "names_payout db a" using payout_okD(4) [OF ok assms(2)] by (simp_all add: attempt_row_def)
  have "pa_status a = PPS_SUCCEEDED \<Longrightarrow> find_txn_by_key db (payout_key (pa_attemptId a)) \<noteq> None"
    using row by (auto simp: status_fits_def names_payout_def)
  moreover have "pa_status a \<noteq> PPS_SUCCEEDED \<Longrightarrow> pa_status a \<noteq> PPS_REVERSED \<Longrightarrow>
      find_txn_by_key db (payout_key (pa_attemptId a)) = None"
    using row by (auto simp: status_fits_def names_payout_def split: option.splits)
  ultimately show ?thesis using one journal by blast
qed

theorem payout_paid_once_witness:
  "\<exists>db a t. payout_step\<^sup>*\<^sup>* empty_db db \<and> payoutAttempts db = [a] \<and>
     find_txn_by_key db (payout_key (pa_attemptId a)) = Some t \<and> lt_totalAmountNgn t = 950 \<and> lt_kind t = PRIZE_PAYOUT"
proof -
  obtain r db1 db2 db3 where x: "payout_step\<^sup>*\<^sup>* empty_db db2" "ex_settled_facts db2" by (rule ex_payout_run)
  then obtain a where a: "payoutAttempts db2 = [a]" "pa_status a = PPS_SUCCEEDED" "pa_amountNgn a = 950"
    by (auto simp: ex_settled_facts_def map_eq_Cons_conv)
  have m: "a \<in> set (payoutAttempts db2)" by (simp add: a)
  note p = payout_paid_once [OF x(1) m m refl]
  then obtain t where t: "find_txn_by_key db2 (payout_key (pa_attemptId a)) = Some t" using a(2) by auto
  then show ?thesis using p x(1) a by auto
qed

section \<open>The money of a payout\<close>

lemma journal_stays:
  assumes "payout_step\<^sup>*\<^sup>* db db'" "payout_ok db" "find_txn_by_key db k = Some t"
  shows "find_txn_by_key db' k = Some t" "journal_net db' (lt_ledgerTxnId t) x = journal_net db (lt_ledgerTxnId t) x"
proof -
  have t: "t \<in> set (txns db)" "lt_idempotencyKey t = k" using assms(3) by (auto simp: find_txn_by_key_def dest: find_Some_set)
  note r = payout_run_entries [OF assms(1,2) t(1)]
  have "distinct (map lt_idempotencyKey (txns db'))"
    using payout_okD(1) [OF payout_run.run_keeps [OF assms(1,2)]] by (simp add: ledger_ok_def)
  then show "find_txn_by_key db' k = Some t"
    using find_key_distinct [of lt_idempotencyKey "txns db'" t] r t(2) by (simp add: find_txn_by_key_def)
  show "journal_net db' (lt_ledgerTxnId t) x = journal_net db (lt_ledgerTxnId t) x" using r by (simp add: journal_net_def)
qed

text \<open>C11. The money of a payout goes out once and comes back whole. When a success is booked, exactly the
  amount of the attempt moves from what is owed to winners to the clearing account of its provider
  and no other account moves, the claim is paid and the attempt names the journal; whatever is
  committed afterwards, a reversal that is accepted later moves the same amount back between the same
  two accounts and no other, marks the attempt reversed with its own journal and reopens the claim for
  another payout.\<close>

theorem payout_round_trip:
  assumes "success_tx env i result db = Inr ((True, claimId), db1)" "payout_ok db" "uuid_ok env" "accounts_trimmed db"
    and "payout_step\<^sup>*\<^sup>* db1 db2" "reverse_tx env' i result' db2 = Inr (True, db3)"
  shows "\<exists>a pa code cl c b. find_attempt db i = Some a \<and> find_account_by_code db PRIZE_PAYABLE_CODE = Some pa \<and>
     prizeClearingCode (pa_provider a) = Inr code \<and> find_account_by_code db code = Some cl \<and>
     transferred (la_accountId pa) (la_accountId cl) (pa_amountNgn a) db db1 \<and>
     transferred (la_accountId cl) (la_accountId pa) (pa_amountNgn a) db2 db3 \<and>
     (\<exists>c1 b1 t. find_claim db1 claimId = Some c1 \<and> pc_status c1 = PCS_CASH_PAID \<and> find_attempt db1 i = Some b1 \<and>
        pa_status b1 = PPS_SUCCEEDED \<and> pa_payoutLedgerTxnId b1 = Some (lt_ledgerTxnId t) \<and>
        find_txn_by_key db1 (payout_key i) = Some t) \<and>
     find_claim db3 (pa_claimId a) = Some c \<and> pc_status c = PCS_KYC_CLEARED \<and> pc_payoutStatus c = Some PPS_REVERSED \<and>
     find_attempt db3 i = Some b \<and> pa_status b = PPS_REVERSED \<and> pa_reversalLedgerTxnId b \<noteq> None"
proof -
  obtain a pa code cl c t where s: "find_attempt db i = Some a" "claimId = pa_claimId a" "find_claim db claimId = Some c"
    "find_account_by_code db PRIZE_PAYABLE_CODE = Some pa" "prizeClearingCode (pa_provider a) = Inr code"
    "find_account_by_code db code = Some cl" "transferred (la_accountId pa) (la_accountId cl) (pa_amountNgn a) db db1"
    "find_txn_by_key db1 (payout_key i) = Some t"
    "\<And>x. journal_net db1 (lt_ledgerTxnId t) x = net db1 x - net db x"
    "find_claim db1 claimId = Some (paid_claim (e_now env) a result c)"
    "find_attempt db1 i = Some (succeeded_attempt (e_now env) result (lt_ledgerTxnId t) a)"
    by (rule success_moves [OF assms(1-4)]) (rule that; assumption)
  have ok1: "payout_ok db1" by (rule success_keeps [OF assms(1-3)])
  note k = journal_stays [OF assms(5) ok1 s(8)]
  have ok2: "payout_ok db2" by (rule payout_run.run_keeps [OF assms(5) ok1])
  obtain a2 c3 where r: "find_attempt db2 i = Some a2" "pa_payoutLedgerTxnId a2 = Some (lt_ledgerTxnId t)"
    "\<And>x. net db3 x = net db2 x - journal_net db2 (lt_ledgerTxnId t) x"
    "find_claim db3 (pa_claimId a2) = Some c3" "pc_status c3 = PCS_KYC_CLEARED" "pc_payoutStatus c3 = Some PPS_REVERSED"
    "\<exists>b. find_attempt db3 i = Some b \<and> pa_status b = PPS_REVERSED \<and> pa_reversalLedgerTxnId b \<noteq> None"
    by (rule reverse_moves [OF assms(6) ok2 k(1)]) (rule that; assumption)
  have "net db3 x = net db2 x - (net db1 x - net db x)" for x using r(3) k(2) s(9) by simp
  then have returned: "transferred (la_accountId cl) (la_accountId pa) (pa_amountNgn a) db2 db3"
    using s(7) by (auto simp: transferred_def)
  have id: "pa_claimId a2 = pa_claimId a" using payout_run_attempt [OF assms(5) s(11) r(1)] by (simp add: succeeded_attempt_def)
  obtain b where b: "find_attempt db3 i = Some b" "pa_status b = PPS_REVERSED" "pa_reversalLedgerTxnId b \<noteq> None" using r(7) by blast
  have paid: "\<exists>c1 b1 t. find_claim db1 claimId = Some c1 \<and> pc_status c1 = PCS_CASH_PAID \<and> find_attempt db1 i = Some b1 \<and>
        pa_status b1 = PPS_SUCCEEDED \<and> pa_payoutLedgerTxnId b1 = Some (lt_ledgerTxnId t) \<and>
        find_txn_by_key db1 (payout_key i) = Some t"
    using s(8,10,11) by (intro exI [of _ "paid_claim (e_now env) a result c"] exI [of _ t]
      exI [of _ "succeeded_attempt (e_now env) result (lt_ledgerTxnId t) a"]) (simp add: paid_claim_def succeeded_attempt_def)
  show ?thesis
    by (rule exI [of _ a], rule exI [of _ pa], rule exI [of _ code], rule exI [of _ cl], rule exI [of _ c3], rule exI [of _ b], intro conjI)
       (rule s(1,4-7) returned paid r(4-6) [unfolded id] b)+
qed

theorem payout_round_trip_witness:
  "\<exists>db db1 db3 b. payout_step db db1 \<and> find_attempt db3 ''u5'' = Some b \<and> pa_status b = PPS_REVERSED"
proof -
  obtain r db1 db2 db3 where x: "ex_reserved_facts r db1"
    "success_tx ex_payout_env ''u5'' (ex_answer PPS_SUCCEEDED) db1 = Inr ((True, ''c1''), db2)"
    "reverse_tx ex_payout_env ''u5'' (ex_answer PPS_REVERSED) db2 = Inr (True, db3)" "payout_step\<^sup>*\<^sup>* empty_db db1"
    by (rule ex_payout_run)
  have t: "accounts_trimmed db1" using x(1) by (simp add: ex_reserved_facts_def)
  show ?thesis
    using payout_round_trip [OF x(2) reachable_payout_ok [OF x(4)] ex_payout_uuid t rtranclp.rtrancl_refl x(3)]
      ps_success [OF x(2) ex_payout_uuid] by blast
qed

section \<open>No second attempt\<close>

text \<open>C27. While an attempt of a claim is undecided, succeeded or uncertain, no other can be started, neither
  as a first payout nor as a retry, through any provider: the call answers with an error before
  anything is asked of a provider, and nothing is written.\<close>

theorem payout_refused_while_open:
  assumes "payout_ok db" "a \<in> set (payoutAttempts db)" "\<not> closed a"
  shows "(\<exists>e. initiate G S P X uuid (pa_claimId a) adminId providerCode later db = (Inl e, db)) \<and>
    (\<exists>e. retryPayout G S P X uuid (pa_claimId a) adminId providerCode later db = (Inl e, db)) \<and>
    (\<forall>r db'. reserve_tx G uuid (pa_claimId a) adminId providerCode retry db \<noteq> Inr (r, db'))"
proof -
  obtain l where l: "latest_attempt db (pa_claimId a) = Some l"
    using assms(2) latest_attempt_None [of db "pa_claimId a"] by (cases "latest_attempt db (pa_claimId a)") auto
  note f = latest_attempt_Some [OF l]
  have "\<not> closed l"
  proof (cases "pa_attemptNumber a < pa_attemptNumber l")
    case True
    then have "closed a" using payout_okD(3) [OF assms(1)] assms(2) f(1,2) unfolding one_open_def by metis
    then show ?thesis using assms(3) by simp
  next
    case False
    then have "attempt_number_key a = attempt_number_key l" using f(3) [OF assms(2) refl] f(2) by (simp add: attempt_number_key_def)
    then have "a = l" using payout_okD(2) [OF assms(1)] assms(2) f(1) distinct_key_eq [of attempt_number_key]
      by (auto simp: attempts_unique_def)
    then show ?thesis using assms(3) by simp
  qed
  then have no: "\<exists>e. reserve_tx G uuid (pa_claimId a) adminId p retry db = Inl e" for p retry
  proof -
    have "\<nexists>x. reserve_tx G uuid (pa_claimId a) adminId p retry db = Inr x"
    proof
      assume "\<exists>x. reserve_tx G uuid (pa_claimId a) adminId p retry db = Inr x"
      then obtain r db' where r: "reserve_tx G uuid (pa_claimId a) adminId p retry db = Inr (r, db')" by auto
      obtain c where "attempt_allowed retry c (latest_attempt db (pa_claimId a)) = Inr ()" using r by (rule reserve_cases)
      then show False using l \<open>\<not> closed l\<close> by (auto simp: attempt_allowed_def closed_def split: if_splits)
    qed
    then show ?thesis by (cases "reserve_tx G uuid (pa_claimId a) adminId p retry db") auto
  qed
  have "\<exists>e. startAttempt G S P X uuid (pa_claimId a) adminId providerCode retry later db = (Inl e, db)" for retry
  proof (cases "bind_res (registry_get providerCode) (\<lambda>provider.
      bind_res (if provider = ''PAYSTACK'' then requireReadiness P else Inr ()) (\<lambda>_. Inr provider))")
    case (Inr p)
    then show ?thesis using no [of p retry] by (auto simp: startAttempt_def)
  qed (simp add: startAttempt_def)
  then show ?thesis using no [of providerCode retry] by (auto simp: initiate_def retryPayout_def)
qed

theorem payout_refused_while_open_witness:
  "\<exists>db e. payoutAttempts db \<noteq> [] \<and> initiate ex_payout_env ex_settings
     \<lparr>pk_transfersEnabled = False, pk_nodeEnv = None, pk_secretKey = None, pk_fingerprintKey = None\<rparr>
     \<lparr>px_initiate = (\<lambda>_ _. None), px_getStatus = (\<lambda>_ _. None)\<rparr> ''y'' ''c1'' ''adm'' ''DEV'' (\<lambda>_ d. d) db = (Inl e, db)"
proof -
  obtain r db1 where x: "ex_reserved_facts r db1" "payout_step\<^sup>*\<^sup>* empty_db db1" by (rule ex_payout_run)
  then obtain a where a: "payoutAttempts db1 = [a]" "pa_claimId a = ''c1''" "pa_status a = PPS_REQUESTED"
    by (auto simp: ex_reserved_facts_def map_eq_Cons_conv)
  have h: "a \<in> set (payoutAttempts db1)" "\<not> closed a" by (simp_all add: a closed_def)
  show ?thesis using payout_refused_while_open [OF reachable_payout_ok [OF x(2)] h] a by (metis list.distinct(1))
qed

section \<open>Where the money goes\<close>

lemma requireVerified_latest:
  assumes "requireVerified db c = Inr k"
  shows "latest_check db (pc_claimId c) = Some k" "check_verified k"
  using assms by (auto simp: requireVerified_def res_simps split: if_splits)

text \<open>C6. Money goes only where the winner was verified to own it. When a payout is reserved, the request
  sent to the provider is for the net prize of a cash claim cleared by compliance; its account is the locked
  and unrevoked account of the customer the claim belongs to; the latest identity check of the claim
  and the check the account was verified by both succeeded, and both carry the fingerprint of exactly
  the account number that is sent; the name is the one on the claim up to spaces and case; the stored
  snapshot opens to the number that is sent, and a retry goes to the number of the attempt before it.\<close>

theorem payout_destination_verified:
  assumes "reserve_tx G uuid i adminId provider retry db = Inr (r, db')" "gcm_ok G"
  shows "\<exists>c u a k s h e. find_claim db i = Some c \<and> pc_claimType c = Some CT_CASH \<and> pc_status c = PCS_KYC_CLEARED \<and>
     iq_amountNgn (request_of r) = pc_netPrizeValueNgn c \<and>
     find_user_by_phone db (pc_winnerPhone c) = Some u \<and> owns_claim u c \<and> a \<in> set (payoutAccounts db) \<and>
     vp_userId a = u_userId u \<and> vp_status a = VPA_LOCKED \<and> vp_revokedAt a = None \<and>
     iq_bankCode (request_of r) = vp_bankCode a \<and> iq_accountName (request_of r) = vp_resolvedAccountName a \<and>
     map_option normalizeName (pc_kycBankAccountName c) = Some (normalizeName (iq_accountName (request_of r))) \<and>
     latest_check db i = Some k \<and> check_verified k \<and> source_of db a = Some s \<and> check_verified (fst s) \<and>
     ten_digits (iq_accountNumber (request_of r)) \<and>
     fingerprintAccount G (iq_bankCode (request_of r)) (iq_accountNumber (request_of r)) = Inr h \<and>
     unhex (ki_bankAccountFingerprint k) = unhex h \<and> unhex (ki_bankAccountFingerprint (fst s)) = unhex h \<and>
     pa_destinationAccountCiphertext (ry_attempt r) = Some e \<and>
     decrypt G (u_userId u) (iq_bankCode (request_of r)) e = Inr (iq_accountNumber (request_of r)) \<and>
     (\<forall>l. retry \<longrightarrow> latest_attempt db i = Some l \<longrightarrow>
        decrypt G (u_userId u) (pa_destinationBankCode l) (the (pa_destinationAccountCiphertext l)) = Inr (iq_accountNumber (request_of r)))"
proof -
  obtain c d h db1 db2 where q: "find_claim db i = Some c" "payable_claim c (latest_attempt db i) = Inr ()" "requireLocked G db c = Inr d"
    "create_attempt G (new_attempt G adminId provider (''sw-prize-'' @ uuid) c
       (case latest_attempt db i of None \<Rightarrow> 1 | Some l \<Rightarrow> pa_attemptNumber l + 1) d h) db1 = Inr (ry_attempt r, db2)"
    "\<And>l. latest_attempt db i = Some l \<Longrightarrow> retry \<Longrightarrow> same_destination G d h l = Inr ()" "ry_destination r = d"
    using assms(1) by (rule reserve_cases) (rule that; assumption)
  obtain u k a s e number where l: "find_user_by_phone db (pc_winnerPhone c) = Some u" "owns_claim u c" "requireVerified db c = Inr k"
     "find (\<lambda>a. vp_userId a = u_userId u \<and> vp_status a = VPA_LOCKED) (payoutAccounts db) = Some a" "vp_revokedAt a = None"
     "source_of db a = Some s" "source_ok c u s" "account_matches c k a s"
     "decrypt G (u_userId u) (vp_bankCode a) (vp_accountCiphertext a) = Inr number"
     "assertDestinationMatches G k (vp_bankCode a) number = Inr ()" "assertDestinationMatches G (fst s) (vp_bankCode a) number = Inr ()"
     "encrypt G (u_userId u) (vp_bankCode a) number = Inr e" "pc_claimType c = Some CT_CASH"
    and d: "d = \<lparr>ds_userId = u_userId u, ds_payoutAccountId = vp_payoutAccountId a, ds_bankCode = vp_bankCode a,
          ds_accountNumber = number, ds_accountName = vp_resolvedAccountName a, ds_accountLast4 = vp_accountLast4 a,
          ds_fingerprint = vp_accountFingerprint a, ds_snapshotCiphertext = e\<rparr>"
    using q(3) unfolding require_locked_iff by blast
  have req: "iq_amountNgn (request_of r) = pc_netPrizeValueNgn c" "iq_bankCode (request_of r) = vp_bankCode a"
    "iq_accountName (request_of r) = vp_resolvedAccountName a" "iq_accountNumber (request_of r) = number"
    "pa_destinationAccountCiphertext (ry_attempt r) = Some e"
    by (simp_all add: request_of_def q(6) d create_attempt_cases(1) [OF q(4)] new_attempt_def)
  have a: "a \<in> set (payoutAccounts db)" "vp_userId a = u_userId u" "vp_status a = VPA_LOCKED"
    using l(4) by (auto dest: find_Some_set)
  have st: "pc_status c = PCS_KYC_CLEARED" using q(2) by (auto simp: payable_claim_def split: if_splits)
  have id: "pc_claimId c = i" using q(1) by (auto simp: find_claim_def dest: find_Some_set)
  obtain f where f: "fingerprintAccount G (vp_bankCode a) number = Inr f" "unhex (ki_bankAccountFingerprint k) = unhex f"
    using destination_matchesD(3) [OF l(10)] by blast
  have f2: "unhex (ki_bankAccountFingerprint (fst s)) = unhex f" using destination_matchesD(3) [OF l(11)] f(1) by auto
  have s: "check_verified (fst s)" using l(7) by (auto simp: source_ok_def split: prod.splits)
  have nm: "map_option normalizeName (pc_kycBankAccountName c) = Some (normalizeName (vp_resolvedAccountName a))"
    using l(8) by (auto simp: account_matches_def split: prod.splits)
  have prev: "decrypt G (u_userId u) (pa_destinationBankCode x) (the (pa_destinationAccountCiphertext x)) = Inr number"
    if "retry" "latest_attempt db i = Some x" for x
  proof -
    have sd: "same_destination G d h x = Inr ()" by (rule q(5) [OF that(2,1)])
    then show ?thesis by (auto simp: same_destination_def res_simps d split: if_splits)
  qed
  note ver = requireVerified_latest [OF l(3)] and op = decrypt_opens(1) [OF l(9)] and sn = decrypt_encrypt [OF l(12) assms(2)]
  show ?thesis
    unfolding req
    using q(1) l(13) st l(1,2) a l(5) nm ver [unfolded id] l(6) s op f f2 sn prev
    by (intro exI [of _ c] exI [of _ u] exI [of _ a] exI [of _ k] exI [of _ s] exI [of _ f] exI [of _ e]) simp
qed

theorem payout_destination_verified_witness:
  "\<exists>r db1. reserve_tx ex_payout_env ''x'' ''c1'' ''adm'' ''DEV'' False ex_ready = Inr (r, db1) \<and>
     iq_amountNgn (request_of r) = 950 \<and> ten_digits (iq_accountNumber (request_of r))"
proof -
  obtain r db1 where x: "reserve_tx ex_payout_env ''x'' ''c1'' ''adm'' ''DEV'' False ex_ready = Inr (r, db1)" "ex_reserved_facts r db1"
    by (rule ex_payout_run)
  then have "iq_amountNgn (request_of r) = 950" by (simp add: ex_reserved_facts_def request_of_def)
  then show ?thesis using payout_destination_verified [OF x(1) ex_gcm_ok] x(1) by blast
qed

section \<open>Calls and rows\<close>

text \<open>C18. Every call of the payout code is a run of its transactions, whatever the provider answers or does not
  answer and whatever other runs commit between its statements: the first payout and the retry, the
  refresh by an administrator, the webhook and a pass of the recovery sweep. So each keeps the
  invariant of the payouts.\<close>

theorem payout_calls_are_runs:
  assumes "\<And>k d. payout_step\<^sup>*\<^sup>* d (later k d)" "\<And>i k d. payout_step\<^sup>*\<^sup>* d (sched i k d)" "uuid_ok G" "fresh_attempt_id G db" "payout_ok db"
  shows "\<forall>db'. db' \<in> {snd (initiate G S P X uuid c adm p later db), snd (retryPayout G S P X uuid c adm p later db),
      snd (refreshCurrent G S X c adm later db), snd (syncReference G S X p ref actorId later db),
      payout_recovery_tick G S X sched db} \<longrightarrow> payout_step\<^sup>*\<^sup>* db db' \<and> payout_ok db'"
proof -
  have "payout_step\<^sup>*\<^sup>* db (snd (initiate G S P X uuid c adm p later db))" "payout_step\<^sup>*\<^sup>* db (snd (retryPayout G S P X uuid c adm p later db))"
    unfolding initiate_def retryPayout_def by (rule start_run [of later, OF assms(1,3,4)])+
  moreover have "payout_step\<^sup>*\<^sup>* db (snd (refreshCurrent G S X c adm later db))" by (rule refresh_run [of later, OF assms(1,3)])
  moreover have "payout_step\<^sup>*\<^sup>* db (snd (syncReference G S X p ref actorId later db))" by (rule sync_run [of later, OF assms(1,3)])
  moreover have "payout_step\<^sup>*\<^sup>* db (payout_recovery_tick G S X sched db)" by (rule recovery_run [of sched, OF assms(2,3)])
  ultimately show ?thesis using payout_run.run_keeps assms(5) by blast
qed

lemma ex_fresh_attempt: "fresh_attempt_id G ex_ready"
  by (simp add: fresh_attempt_id_def find_txn_by_key_def ex_ready_txns)

theorem payout_calls_are_runs_witness:
  "payout_ok (snd (initiate ex_payout_env ex_settings
     \<lparr>pk_transfersEnabled = False, pk_nodeEnv = None, pk_secretKey = None, pk_fingerprintKey = None\<rparr>
     \<lparr>px_initiate = (\<lambda>_ i. Some (dev_initiate i)), px_getStatus = (\<lambda>_ r. dev_getStatus r)\<rparr> ''y'' ''c1'' ''adm'' ''DEV'' (\<lambda>_ d. d) ex_ready))"
  using payout_calls_are_runs [of "\<lambda>_ d. d" "\<lambda>_ _ d. d", OF _ _ ex_payout_uuid ex_fresh_attempt
      reachable_payout_ok [OF ex_ready_reached]] by blast

text \<open>C28. In every reachable database the payout rows are well typed: each fits the columns of its table, its id is
  a proper key, ids, numbers within a claim and idempotency keys are unique, a payout journal is named
  exactly by the rows that succeeded or were reversed after they were booked, and a reversal journal only
  by reversed ones.\<close>

theorem payout_rows_typed:
  assumes "payout_step\<^sup>*\<^sup>* empty_db db" "a \<in> set (payoutAttempts db)" "b \<in> set (payoutAttempts db)"
  shows "attempt_fits a \<and> pa_attemptId a \<noteq> [] \<and> js_trim (pa_attemptId a) = pa_attemptId a \<and>
    (pa_attemptId a = pa_attemptId b \<or> pa_idempotencyKey a = pa_idempotencyKey b \<or>
     (pa_claimId a = pa_claimId b \<and> pa_attemptNumber a = pa_attemptNumber b) \<longrightarrow> a = b) \<and>
    (pa_status a = PPS_SUCCEEDED \<longrightarrow> pa_payoutLedgerTxnId a \<noteq> None \<and> pa_reversalLedgerTxnId a = None) \<and>
    (pa_status a \<notin> {PPS_SUCCEEDED, PPS_REVERSED} \<longrightarrow> pa_payoutLedgerTxnId a = None \<and> pa_reversalLedgerTxnId a = None) \<and>
    (pa_status a = PPS_REVERSED \<longrightarrow> (pa_payoutLedgerTxnId a = None \<longleftrightarrow> pa_reversalLedgerTxnId a = None))"
proof -
  have ok: "payout_ok db" by (rule reachable_payout_ok [OF assms(1)])
  have "attempts_fit empty_db" by (simp add: attempts_fit_def empty_db_def)
  then have "attempts_fit db" using payout_fit_run.run_keeps [OF assms(1)] by blast
  then have 1: "attempt_fits a" using assms(2) by (simp add: attempts_fit_def list_all_iff)
  have 2: "attempt_row db a" by (rule payout_okD(4) [OF ok assms(2)])
  have u: "distinct (map pa_attemptId (payoutAttempts db))" "distinct (map attempt_number_key (payoutAttempts db))"
    "distinct (map pa_idempotencyKey (payoutAttempts db))"
    using payout_okD(2) [OF ok] by (simp_all add: attempts_unique_def)
  have 3: "a = b" if "pa_attemptId a = pa_attemptId b \<or> pa_idempotencyKey a = pa_idempotencyKey b \<or>
     (pa_claimId a = pa_claimId b \<and> pa_attemptNumber a = pa_attemptNumber b)"
    using that distinct_key_eq [OF u(1) assms(2,3)] distinct_key_eq [OF u(2) assms(2,3)] distinct_key_eq [OF u(3) assms(2,3)]
    by (auto simp: attempt_number_key_def)
  show ?thesis using 1 2 3 by (auto simp: attempt_row_def status_fits_def)
qed

theorem payout_rows_typed_witness:
  "\<exists>(db :: db) a. payoutAttempts db = [a] \<and> pa_status a = PPS_SUCCEEDED \<and> attempt_fits a \<and> pa_payoutLedgerTxnId a \<noteq> None"
proof -
  obtain db2 where x: "payout_step\<^sup>*\<^sup>* empty_db db2" "ex_settled_facts db2" by (rule ex_payout_run)
  then obtain a where a: "payoutAttempts db2 = [a]" "pa_status a = PPS_SUCCEEDED" by (auto simp: ex_settled_facts_def map_eq_Cons_conv)
  have m: "a \<in> set (payoutAttempts db2)" by (simp add: a)
  show ?thesis by (intro exI [of _ db2] exI [of _ a]) (use payout_rows_typed [OF x(1) m m] a in simp)
qed

end
