(* ===== verification/Claims_Properties.thy ===== *)
theory Claims_Properties
  imports Payout_Properties
begin

text \<open>
  What the claim operations promise the winner and the house: the tax, the code of the counter, the
  handover, the review and the sweep of abandoned claims.
\<close>

section \<open>Tax\<close>

text \<open>C29. Tax is withheld to the naira. A product, a prize below the threshold and a rate of zero bear no tax. On
  a cash prize the tax and what is left always add up to the prize; at a whole percentage the tax is exactly
  that share rounded down; at any other rate the three roundings of the floating point product may
  lose one naira, and only where the share is whole.\<close>

theorem wht_exact:
  assumes "0 \<le> gross" "gross * int (cs_whtRatePercent S) < 2 ^ 48" "computeWht S gross path = (applicable, tax, netNgn)"
  shows "tax + netNgn = gross \<and>
    (path \<noteq> CT_CASH \<or> gross < cs_whtThresholdNgn S \<or> cs_whtRatePercent S = 0 \<longrightarrow> \<not> applicable \<and> tax = 0) \<and>
    (path = CT_CASH \<and> cs_whtThresholdNgn S \<le> gross \<and> cs_whtRatePercent S \<noteq> 0 \<longrightarrow> applicable \<and>
       (tax = gross * int (cs_whtRatePercent S) div 10000 \<or>
        10000 dvd gross * int (cs_whtRatePercent S) \<and> tax = gross * int (cs_whtRatePercent S) div 10000 - 1) \<and>
       (\<forall>k. int (cs_whtRatePercent S) = 100 * k \<and> gross * k < 2 ^ 41 \<longrightarrow> tax = gross * k div 100))"
proof -
  let ?r = "cs_whtRatePercent S"
  have share: "wht_of gross ?r = gross * int ?r div 10000 \<or> 10000 dvd gross * int ?r \<and> wht_of gross ?r = gross * int ?r div 10000 - 1"
    unfolding wht_of_def using floor_of_share [OF assms(1) _ assms(2)] by auto
  have whole: "wht_of gross ?r = gross * k div 100" if "int ?r = 100 * k" "gross * k < 2 ^ 41" for k
    unfolding wht_of_def that(1) by (rule floor_of_whole_percent [OF assms(1) _ that(2)]) (use that(1) in linarith)
  show ?thesis
  proof (cases "path \<noteq> CT_CASH \<or> gross < cs_whtThresholdNgn S \<or> ?r = 0")
    case True
    then show ?thesis using assms(3) by (auto simp: computeWht_def)
  next
    case False
    then have "tax = wht_of gross ?r" "netNgn = gross - wht_of gross ?r" "applicable"
      using assms(3) by (auto simp: computeWht_def Let_def)
    then show ?thesis using False share whole by auto
  qed
qed

theorem wht_exact_witness:
  "computeWht ex_settings 1000 CT_CASH = (True, 50, 950) \<and> (50 :: int) = 1000 * 5 div 100"
proof -
  have c: "computeWht ex_settings 1000 CT_CASH = (True, 50, 950)" by code_simp
  have "(0 :: int) \<le> 1000" "1000 * int (cs_whtRatePercent ex_settings) < 2 ^ 48" by (simp_all add: ex_settings_def)
  then show ?thesis using wht_exact [OF _ _ c] c by auto
qed

section \<open>The counter\<close>

text \<open>C17. The code of a claim stands five wrong guesses. Each wrong code that is tried at the counter is refused and
  counted; after five the claim is locked: every further try, with the right code too, is
  refused and changes nothing, until customer care reissues the code; before that the right code is
  accepted, however many wrong ones were tried.\<close>

theorem redemption_lockout:
  assumes "claims_unique db" "c \<in> set (claims db)" "collectable env c" "pc_redemptionAttempts c \<le> MAX_ATTEMPTS"
    and "\<forall>a\<in>set as. tries a c \<and> Some (e_sha256 env (va_code a)) \<noteq> pc_redemptionCodeHash c" "tries b c"
    and "db' = fold (\<lambda>a d. snd (verify env a (\<lambda>d. d) d)) as db"
  shows "claims db' = attempted c (min MAX_ATTEMPTS (pc_redemptionAttempts c + length as)) db \<and>
    (MAX_ATTEMPTS \<le> pc_redemptionAttempts c + length as \<longrightarrow> verify env b (\<lambda>d. d) db' = (Inl locked_out, db')) \<and>
    (pc_redemptionAttempts c + length as < MAX_ATTEMPTS \<and> Some (e_sha256 env (va_code b)) = pc_redemptionCodeHash c \<longrightarrow>
       (\<exists>v. verify env b (\<lambda>d. d) db' = (Inr v, db') \<and> rd_claimId v = pc_claimId c \<and>
          rd_netPrizeValueNgn v = pc_netPrizeValueNgn c)) \<and>
    (pc_redemptionAttempts c + length as < MAX_ATTEMPTS \<and> Some (e_sha256 env (va_code b)) \<noteq> pc_redemptionCodeHash c \<longrightarrow>
       (\<exists>m. fst (verify env b (\<lambda>d. d) db') = Inl (ForbiddenException m)))"
proof -
  let ?n = "min MAX_ATTEMPTS (pc_redemptionAttempts c + length as)"
  let ?c = "c\<lparr>pc_redemptionAttempts := ?n\<rparr>"
  have cl: "claims db' = attempted c ?n db" unfolding assms(7) by (rule wrong_codes [OF assms(1-5)])
  note k = attempted_facts [OF assms(1,2) cl]
  have col: "collectable env ?c" "tries b ?c" using assms(3,6) by (simp_all add: collectable_def tries_def)
  have locked: "verify env b (\<lambda>d. d) db' = (Inl locked_out, db')" if "MAX_ATTEMPTS \<le> pc_redemptionAttempts c + length as"
    by (rule verify_locked [OF k col]) (use that in simp)
  have right: "\<exists>v. verify env b (\<lambda>d. d) db' = (Inr v, db') \<and> rd_claimId v = pc_claimId c \<and> rd_netPrizeValueNgn v = pc_netPrizeValueNgn c"
    if "pc_redemptionAttempts c + length as < MAX_ATTEMPTS" "Some (e_sha256 env (va_code b)) = pc_redemptionCodeHash c"
    using redeemable_collectable [OF k col] that by (simp add: verify_def)
  have wrong: "\<exists>m. fst (verify env b (\<lambda>d. d) db') = Inl (ForbiddenException m)"
    if "pc_redemptionAttempts c + length as < MAX_ATTEMPTS" "Some (e_sha256 env (va_code b)) \<noteq> pc_redemptionCodeHash c"
    by (rule verify_wrong(2) [OF k col]) (use that in simp_all)
  show ?thesis using cl locked right wrong by blast
qed

definition ex_collect_claim :: prize_claim where
  "ex_collect_claim = ex_claim_row\<lparr>pc_claimType := Some CT_CASH, pc_status := PCS_KYC_CLEARED, pc_redemptionCodeHash := Some ''6''\<rparr>"

definition ex_collect_db :: db where
  "ex_collect_db = empty_db\<lparr>claims := [ex_collect_claim]\<rparr>"

definition ex_try :: "string \<Rightarrow> verify_args" where
  "ex_try code = \<lparr>va_adminUserId = ''adm'', va_pointId = None, va_ticketRef = ''SW-W'', va_code = code\<rparr>"

theorem redemption_lockout_witness:
  "verify ex_payout_env (ex_try ''123456'') (\<lambda>d. d) (fold (\<lambda>a d. snd (verify ex_payout_env a (\<lambda>d. d) d)) (replicate 5 (ex_try ''0'')) ex_collect_db)
     = (Inl locked_out, fold (\<lambda>a d. snd (verify ex_payout_env a (\<lambda>d. d) d)) (replicate 5 (ex_try ''0'')) ex_collect_db)"
proof -
  have h: "claims_unique ex_collect_db" "ex_collect_claim \<in> set (claims ex_collect_db)" "collectable ex_payout_env ex_collect_claim"
    "pc_redemptionAttempts ex_collect_claim \<le> MAX_ATTEMPTS"
    "\<forall>a\<in>set (replicate 5 (ex_try ''0'')). tries a ex_collect_claim \<and> Some (e_sha256 ex_payout_env (va_code a)) \<noteq> pc_redemptionCodeHash ex_collect_claim"
    "tries (ex_try ''123456'') ex_collect_claim" "MAX_ATTEMPTS \<le> pc_redemptionAttempts ex_collect_claim + length (replicate 5 (ex_try ''0''))"
    by (simp add: ex_collect_db_def claims_unique_def) (simp add: ex_collect_db_def, code_simp+)
  show ?thesis using redemption_lockout [OF h(1-6) refl] h(7) by blast
qed

section \<open>Handover\<close>

text \<open>Everything that writes a claim, in any order; what others commit in between keeps the rows.\<close>

inductive claim_step :: "db \<Rightarrow> db \<Rightarrow> bool" where
  cs_choose: "claims_kept db (later db) \<Longrightarrow> claim_step db (snd (choosePrize (G :: payout_env) S i phone path later db))"
| cs_documents: "claims_kept db (later db) \<Longrightarrow> claim_step db (snd (submitDocuments (G :: payout_env) save i phone fs later db))"
| cs_book: "claims_kept db (later db) \<Longrightarrow> claim_step db (snd (bookCollection (G :: payout_env) i phone p d later db))"
| cs_issue: "claim_step db (snd (issue (G :: payout_env) n i db))"
| cs_reissue: "claims_kept db (later db) \<Longrightarrow> claim_step db (snd (reissue (G :: payout_env) n i adm later db))"
| cs_verify: "claims_kept db (later db) \<Longrightarrow> claim_step db (snd (verify (G :: payout_env) args later db))"
| cs_handover: "(\<And>d. claims_kept d (later1 d)) \<Longrightarrow> (\<And>d. claims_kept d (later d)) \<Longrightarrow>
    claim_step db (snd (confirmHandover (G :: payout_env) args later1 later db))"
| cs_review: "(\<And>d. claims_kept d (later d)) \<Longrightarrow> claim_step db (snd (reviewKyc G S n i adm dec note later db))"
| cs_deliver: "(\<And>d. claims_kept d (later1 d)) \<Longrightarrow> (\<And>d. claims_kept d (later d)) \<Longrightarrow>
    claim_step db (snd (markDelivered (G :: payout_env) S i adm later1 later db))"
| cs_tick: "(\<And>i d. claims_kept d (sched i d)) \<Longrightarrow> claim_step db (claims_tick (G :: payout_env) sched db)"
| cs_reserved: "reserve_tx G uuid i adm p retry db = Inr (r, db') \<Longrightarrow> claim_step db db'"
| cs_agent: "prize_payout_tx (G :: payout_env) agentId walletId reference i maxNgn db = Inr (x, db') \<Longrightarrow> claim_step db db'"
| cs_paid: "success_tx (G :: payout_env) i result db = Inr (x, db') \<Longrightarrow> claim_step db db'"
| cs_returned: "reverse_tx (G :: payout_env) i result db = Inr (x, db') \<Longrightarrow> claim_step db db'"
| cs_mirror: "link_claim (mirrored_claim a) i k db = Inr db' \<Longrightarrow> claim_step db db'"
| cs_other: "claims db' = claims db \<Longrightarrow> claim_step db db'"

lemma link_claim_kept:
  assumes "link_claim f i k db = Inr db'" "\<And>c. row_kept c (f c)"
  shows "claims_kept db db'"
  unfolding link_claim_cases [OF assms(1)] claims_kept_def using list_all2_rows [OF assms(2)] by simp

lemma linked_kept: "link_row pc_claimId col f k v cs = Inr cs' \<Longrightarrow> (\<And>c. row_kept c (f c)) \<Longrightarrow> list_all2 row_kept cs cs'"
  by (auto simp: res_simps intro: list_all2_rows)

lemma posted_claims: "postInTransaction env inp db = Inr (v, db') \<Longrightarrow> claims db' = claims db"
  by (auto simp: postInTransaction_def same_frame_def dest!: postInternal_frame)

lemma accrual_claims_kept: "ensurePrizeAccrual env c db = Inr db' \<Longrightarrow> claims_kept db db'"
  unfolding ensurePrizeAccrual_def claims_kept_def
  by (auto simp: res_simps list_all2_refl dest!: posted_claims split: if_splits)
     (rule list_all2_rows, simp add: row_kept_def)+

lemma reserve_claims_kept:
  assumes "reserve_tx G uuid i adm p retry db = Inr (r, db')"
  shows "claims_kept db db'"
  using assms
proof (cases rule: reserve_cases)
  case (1 c d h db1 db2)
  have "claims db2 = claims db1" using 1(7) by (auto simp: create_attempt_def Let_def split: if_splits)
  then have "claims_kept db1 db2" by simp
  moreover have "claims_kept db2 db'" by (rule link_claim_kept [OF 1(8)]) (simp add: requested_claim_def row_kept_def)
  ultimately show ?thesis using claims_kept_trans accrual_claims_kept [OF 1(5)] by blast
qed

lemma agent_accrual_claims_kept: "ensurePrizeAccrualInTransaction env c db = Inr (t, db') \<Longrightarrow> claims_kept db db'"
  unfolding ensurePrizeAccrualInTransaction_def claims_kept_def
  by (auto simp: res_simps list_all2_refl dest!: posted_claims split: if_splits option.splits)
     (rule list_all2_rows, simp add: row_kept_def)+

lemma credit_claims: "creditInTransaction env inp db = Inr (v, db') \<Longrightarrow> claims db' = claims db"
  by (auto simp: creditInTransaction_def res_simps dest!: posted_claims split: if_splits)

lemma agent_prize_claims_kept:
  assumes "prize_payout_tx env agentId walletId reference i maxNgn db = Inr (x, db')"
  shows "claims_kept db db'"
proof -
  obtain inp t db1 where r: "recordAgentPrizePayoutInTransaction env inp db = Inr (t, db1)"
    "claims db' = update_where (\<lambda>c. pc_claimId c = i) (mark_cash_paid agentId reference (e_now env)) (claims db1)"
    using assms by (auto simp: prize_payout_tx_def res_simps split: if_splits)
  have "claims_kept db db1"
  proof (cases "pc_agentPayoutLedgerTxnId (pp_claim inp)")
    case None
    then obtain ta d1 pa v d2 where s: "ensurePrizeAccrualInTransaction env (pp_claim inp) db = Inr (ta, d1)"
      "creditInTransaction env (prize_payout_movement inp pa) d1 = Inr (v, d2)"
      "link_row pc_claimId pc_agentPayoutLedgerTxnId (\<lambda>c. c\<lparr>pc_agentPayoutLedgerTxnId := Some (lt_ledgerTxnId (tv_txn v))\<rparr>)
        (pc_claimId (pp_claim inp)) (lt_ledgerTxnId (tv_txn v)) (claims d2) = Inr (claims db1)"
      using r(1) by (auto simp: recordAgentPrizePayoutInTransaction_def bind_res_eq_Inr)
    have "list_all2 row_kept (claims d1) (claims db1)"
      using linked_kept [OF s(3)] credit_claims [OF s(2)] by (simp add: row_kept_def)
    then show ?thesis using claims_kept_trans [OF agent_accrual_claims_kept [OF s(1)]] by (simp add: claims_kept_def)
  qed (use r(1) in \<open>auto simp: recordAgentPrizePayoutInTransaction_def res_simps\<close>)
  moreover have "claims_kept db1 db'"
    unfolding claims_kept_def r(2) by (rule list_all2_rows) (simp add: mark_cash_paid_def row_kept_def)
  ultimately show ?thesis by (rule claims_kept_trans)
qed

lemma claim_step_kept:
  assumes "claim_step db db'"
  shows "claims_kept db db'"
  using assms
proof (cases rule: claim_step.cases)
  case (cs_paid G i result x)
  obtain b k where x: "x = (b, k)" by (cases x)
  from cs_paid [unfolded x] show ?thesis
  proof (cases rule: success_cases)
    case (paid a c pa cl code v db1 n db2)
    have "claims db2 = claims db"
      using postInternal_frame [OF paid(11) [unfolded postInTransaction_def]]
      by (auto simp: same_frame_def update_attempts_cases(1) [OF paid(12)])
    moreover have "claims_kept db2 db'" by (rule link_claim_kept [OF paid(13)]) (simp add: paid_claim_def row_kept_def)
    ultimately show ?thesis by (simp add: claims_kept_def)
  qed simp
next
  case (cs_returned G i result x)
  then show ?thesis
  proof (cases rule: reverse_tx_cases)
    case (unbooked a n db2 c)
    have "claims_kept db2 db'" by (rule update_claim_kept [OF unbooked(6)]) (simp add: reopened_claim_def row_kept_def)
    then show ?thesis by (simp add: claims_kept_def update_attempts_cases(1) [OF unbooked(5)])
  next
    case (booked a j v db1 n db2 c)
    have "claims db1 = claims db"
      using reverse_posts [OF booked(6)] by (auto simp: same_frame_def dest!: postInternal_frame)
    moreover have "claims_kept db2 db'" by (rule update_claim_kept [OF booked(8)]) (simp add: reopened_claim_def row_kept_def)
    ultimately show ?thesis by (simp add: claims_kept_def update_attempts_cases(1) [OF booked(7)])
  qed simp
next
  case (cs_mirror a i k)
  show ?thesis by (rule link_claim_kept [OF cs_mirror]) (simp add: mirrored_claim_def row_kept_def)
qed (auto intro: choose_kept documents_kept booking_kept issue_kept reissue_kept verify_kept handover_kept review_kept
  delivered_kept tick_kept reserve_claims_kept agent_prize_claims_kept)

lemma claim_run_kept: "claim_step\<^sup>*\<^sup>* db db' \<Longrightarrow> claims_kept db db'"
proof (induction rule: rtranclp_induct)
  case (step y z)
  then show ?case using claims_kept_trans claim_step_kept by blast
qed simp

text \<open>C16. A prize is handed over once, and who did it stays on record. After a handover was confirmed, whatever the
  winner, compliance, the counter, agents, the payouts and the sweep do to the claim, also on stale reads, the claim shows
  the moment, the administrator and the point of that handover, and every later try to verify its code or
  to hand it over is refused and changes nothing.\<close>

theorem handover_once:
  assumes "confirmHandover (env :: payout_env) args l1 l db = (Inr v, db1)" "\<And>d. claims_kept d (l1 d)" "\<And>d. claims_kept d (l d)"
    and "claims_unique db" "claim_step\<^sup>*\<^sup>* db1 db2" "c \<in> set (claims db2)" "pc_claimId c = rd_claimId v"
    and "va_ticketRef a = pc_winnerTicketRef c"
  shows "pc_redeemedAt c = Some (e_now env) \<and> pc_redeemedByAdminId c = Some (va_adminUserId args) \<and>
    pc_redeemedAtPointId c = va_pointId args \<and>
    (\<exists>m. verify env' a k db2 = (Inl (ConflictException m), db2)) \<and>
    (\<exists>m. confirmHandover env' a k k' db2 = (Inl (ConflictException m), db2))"
proof -
  have k1: "claims_kept db db1" using handover_kept [of db l1 l env args, OF assms(2) assms(3)] by (simp add: assms(1))
  have k2: "claims_kept db1 db2" by (rule claim_run_kept [OF assms(5)])
  have u1: "claims_unique db1" using claims_kept_rows(1) [OF k1] assms(4) by simp
  have u2: "claims_unique db2" using claims_kept_rows(1) [OF k2] u1 by simp
  obtain x where x: "x \<in> set (claims db1)" "row_kept x c" using claims_kept_rows(2) [OF k2 assms(6)] by blast
  have id: "pc_claimId x = rd_claimId v" using x(2) assms(7) by (simp add: row_kept_def)
  have "pc_redeemedAt x = Some (e_now env) \<and> pc_redeemedByAdminId x = Some (va_adminUserId args) \<and> pc_redeemedAtPointId x = va_pointId args"
    using handover_recorded [OF assms(1) x(1) id] u1 by (simp add: claims_unique_def)
  then have r: "pc_redeemedAt c = Some (e_now env)" "pc_redeemedByAdminId c = Some (va_adminUserId args)" "pc_redeemedAtPointId c = va_pointId args"
    using x(2) by (simp_all add: row_kept_def)
  show ?thesis using r redeemed_refused [OF u2 assms(6) r(1) assms(8)] by blast
qed

lemma ex_handover: "case confirmHandover ex_payout_env (ex_try ''123456'') (\<lambda>d. d) (\<lambda>d. d) ex_collect_db of
   (Inl _, _) \<Rightarrow> False | (Inr v, db) \<Rightarrow> rd_claimId v = ''c1'' \<and> rd_claimType v = Some CT_CASH \<and>
     map pc_claimId (claims db) = [''c1''] \<and> map pc_winnerTicketRef (claims db) = [''SW-W'']"
  by code_simp

lemma ex_handed:
  obtains v db c where "confirmHandover ex_payout_env (ex_try ''123456'') (\<lambda>d. d) (\<lambda>d. d) ex_collect_db = (Inr v, db)"
    "rd_claimId v = ''c1''" "rd_claimType v = Some CT_CASH" "claims db = [c]" "pc_claimId c = ''c1''" "pc_winnerTicketRef c = ''SW-W''"
proof -
  obtain m db where p: "confirmHandover ex_payout_env (ex_try ''123456'') (\<lambda>d. d) (\<lambda>d. d) ex_collect_db = (m, db)" by fastforce
  note f = ex_handover [unfolded p prod.case]
  obtain v where v: "m = Inr v" using f by (cases m) simp_all
  note f = f [unfolded v sum.case]
  obtain c where c: "claims db = [c]" using f by (auto simp: map_eq_Cons_conv)
  show thesis by (rule that [OF p [unfolded v] _ _ c]) (use f c in simp_all)
qed

theorem handover_once_witness:
  "\<exists>v db c m. confirmHandover ex_payout_env (ex_try ''123456'') (\<lambda>d. d) (\<lambda>d. d) ex_collect_db = (Inr v, db) \<and> claims db = [c] \<and>
     pc_redeemedByAdminId c = Some ''adm'' \<and> verify ex_payout_env (ex_try ''123456'') (\<lambda>d. d) db = (Inl (ConflictException m), db)"
proof -
  obtain v db c where x: "confirmHandover ex_payout_env (ex_try ''123456'') (\<lambda>d. d) (\<lambda>d. d) ex_collect_db = (Inr v, db)"
    "rd_claimId v = ''c1''" "claims db = [c]" "pc_claimId c = ''c1''" "pc_winnerTicketRef c = ''SW-W''"
    by (rule ex_handed)
  have h: "claims_unique ex_collect_db" "c \<in> set (claims db)" "pc_claimId c = rd_claimId v" "va_ticketRef (ex_try ''123456'') = pc_winnerTicketRef c"
    using x by (simp_all add: ex_collect_db_def claims_unique_def ex_try_def)
  have t: "va_adminUserId (ex_try ''123456'') = ''adm''" by (simp add: ex_try_def)
  have i: "claims_kept d d" for d by simp
  note p = handover_once [of ex_payout_env "ex_try ''123456''" "\<lambda>d. d" "\<lambda>d. d" ex_collect_db v db,
      OF x(1) i i h(1) rtranclp.rtrancl_refl h(2-4)]
  have "\<exists>m. verify ex_payout_env (ex_try ''123456'') (\<lambda>d. d) db = (Inl (ConflictException m), db)"
    "pc_redeemedByAdminId c = Some (va_adminUserId (ex_try ''123456''))" using p by blast+
  then show ?thesis using x(1,3) unfolding t by blast
qed

section \<open>Handover next to a payout\<close>


definition ex_in_flight :: db where
  "ex_in_flight = ex_collect_db\<lparr>payoutAttempts := [new_attempt ex_payout_env ''adm'' ''DEV'' ''k'' ex_collect_claim 1
     \<lparr>ds_userId = ''u'', ds_payoutAccountId = ''v1'', ds_bankCode = ''058'', ds_accountNumber = ''0123456789'', ds_accountName = ''A'',
      ds_accountLast4 = ''6789'', ds_fingerprint = [], ds_snapshotCiphertext = []\<rparr> []]\<rparr>"

lemma ex_flight_handover: "case confirmHandover ex_payout_env (ex_try ''123456'') (\<lambda>d. d) (\<lambda>d. d) ex_in_flight of
   (Inl _, _) \<Rightarrow> False | (Inr v, db) \<Rightarrow> rd_claimId v = ''c1'' \<and> rd_claimType v = Some CT_CASH"
  by code_simp


section \<open>Abandoned claims\<close>

text \<open>C30. A pass of the sweep forfeits exactly the abandoned claims: those never answered whose selection window
  has closed and those chosen or under review whose claim window has closed; no cleared, booked, paid,
  delivered or forfeited claim and no claim within its window changes. A claim that moved on after the sweep
  had read it, an approval in the same minute for instance, is left alone.\<close>

theorem sweep_forfeits_abandoned:
  assumes "distinct (map pc_claimId (claims db))" "c \<in> set (claims db)"
    and "\<And>r. r \<in> set (claims (sched (pc_claimId c) db)) \<Longrightarrow> pc_claimId r = pc_claimId c \<Longrightarrow> pc_status r \<noteq> pc_status c"
  shows "claims (claims_tick env (\<lambda>_ d. d) db) =
      map (\<lambda>c. if abandoned (e_now env) c then c\<lparr>pc_status := PCS_FORFEITED, pc_forfeitedAt := Some (e_now env)\<rparr> else c) (claims db) \<and>
    (abandoned (e_now env) c \<longrightarrow> pc_status c \<in> {PCS_NOTIFIED, PCS_SELECTION_MADE, PCS_KYC_PENDING} \<and>
       (pc_selectionDeadlineAt c \<le> e_now env \<or> pc_claimDeadlineAt c \<le> e_now env)) \<and>
    claims (claims_tick env (\<lambda>_ d. d) (claims_tick env (\<lambda>_ d. d) db)) = claims (claims_tick env (\<lambda>_ d. d) db) \<and>
    forfeit env sched c db = sched (pc_claimId c) db"
proof -
  note t = tick_claims [OF assms(1), of env]
  have d: "distinct (map pc_claimId (claims (claims_tick env (\<lambda>_ d. d) db)))"
    using assms(1) unfolding t by (simp add: forfeited_def comp_def if_distrib [of pc_claimId] cong: if_cong)
  have "(if abandoned (e_now env) (forfeited (e_now env) x) then forfeited (e_now env) (forfeited (e_now env) x) else forfeited (e_now env) x)
      = forfeited (e_now env) x" for x
    by (simp add: abandoned_def forfeited_def)
  then have again: "claims (claims_tick env (\<lambda>_ d. d) (claims_tick env (\<lambda>_ d. d) db)) = claims (claims_tick env (\<lambda>_ d. d) db)"
    unfolding tick_claims [OF d, of env] t by simp
  show ?thesis using t again forfeit_moved [of sched c db env, OF assms(3)] by (auto simp: abandoned_def forfeited_def)
qed

theorem sweep_forfeits_abandoned_witness:
  "map pc_status (claims (claims_tick (ex_payout_env\<lparr>e_now := 2000\<rparr>) (\<lambda>_ d. d) (ex_collect_db\<lparr>claims := [ex_claim_row]\<rparr>))) = [PCS_FORFEITED]"
proof -
  let ?db = "ex_collect_db\<lparr>claims := [ex_claim_row]\<rparr>" and ?G = "ex_payout_env\<lparr>e_now := 2000\<rparr>"
  have h: "distinct (map pc_claimId (claims ?db))" "ex_claim_row \<in> set (claims ?db)" by simp_all
  have m: "pc_status r \<noteq> pc_status ex_claim_row" if "r \<in> set (claims ((\<lambda>_ _. empty_db) (pc_claimId ex_claim_row) ?db))" for r
    using that by (simp add: empty_db_def)
  have "abandoned 2000 ex_claim_row" by code_simp
  then show ?thesis using sweep_forfeits_abandoned [of ?db ex_claim_row "\<lambda>_ _. empty_db" ?G, OF h m] by simp
qed

section \<open>Review\<close>


lemma ex_review_facts: "(case review_tx ex_payout_env ex_settings ''c1'' ''adm'' (ex_tables empty_db) of Inl _ \<Rightarrow> False | Inr _ \<Rightarrow> True)"
  "find_claim (ex_tables empty_db) ''c1'' = Some ex_pending_claim"
  "source_of (ex_tables empty_db) ex_payout_account = Some (ex_check, ex_pending_claim)" "pc_claimType ex_pending_claim = Some CT_CASH"
  "filled (pc_kycBankAccountName ex_pending_claim) \<and>
    map_option normalizeName (pc_kycBankAccountName ex_pending_claim) = Some (normalizeName (vp_resolvedAccountName ex_payout_account))"
  by code_simp+


end
