(* ===== verification/Spec2Isabelle.thy ===== *)
theory Spec2Isabelle
  imports Wallet_Properties Draw_Properties Account_Laws Jackpot_Laws Wallet_Purchase_Properties Remittance_Properties
    Claims_Properties
begin

text \<open>
  SureWina: a verification of the financial core of the lottery platform.

  The program. SureWina sells lottery tickets to customers and through agents. Money is kept
  in a double entry ledger (\<open>apps/api/src/ledger\<close>): accounts, immutable journals of balanced
  entries, an idempotency key per journal. Everything else that moves money (wallets, online
  payments, agent sales, refunds, prizes) is a service that checks its own rules and then
  posts a journal inside one serializable database transaction.

  How a service is modelled. A method that receives the transaction client \<open>tx\<close> is a
  function from the database \<open>db\<close> (a record of tables, each a list of rows, \<open>Schema\<close>) to
  \<open>(result \<times> db) res\<close>: \<open>Inl\<close> is a thrown exception, which rolls the transaction back, so no
  database comes with it. Unique indexes and column limits that an operation can run into
  are part of the writes. What the code takes from outside is the record \<open>env\<close>, an argument
  of the operations: the generated ids, the clock, SHA-256, \<open>localeCompare\<close>, the collation of
  the database. Two transactions of one table run one after the other, as the isolation
  level \<open>Serializable\<close> and the row locks promise; where the code recovers from a lost race
  (\<open>post\<close>, \<open>ensureAccount\<close>, \<open>ensureWallet\<close>) the database that the winner left is a parameter.

  Theories, in the order of the code.
  - \<open>Prelude\<close>: errors and the result monad, list lemmas, the locales \<open>kept_by_steps\<close> (an
    invariant of a step relation holds in every run) and \<open>once_per_row\<close> (a journal linked from a
    row is posted once).
  - \<open>JS_Runtime\<close>: what the source uses of the JavaScript library: trim, upper case, safe
    integers, a stable sort by a comparator, ISO dates, \<open>JSON.stringify\<close>.
  - \<open>Schema\<close>: the tables and enums of \<open>prisma/schema.prisma\<close> and the Prisma calls.
  - \<open>Ledger_Utils\<close>, \<open>Ledger\<close>: \<open>ledger.utils.ts\<close>, \<open>ledger.service.ts\<close>. \<open>Ledger_Invariants\<close> holds the
    invariant \<open>ledger_ok\<close> and its preservation, \<open>Ledger_Properties\<close> and \<open>Ledger_Laws\<close> the laws:
    acceptance, effect, retries, races, reversal, immutability, trial balance; the locale
    \<open>journal_poster\<close> is what the other services rely on, interpreted as \<open>ledger\<close>.
  - \<open>Ledger_Chart\<close>: \<open>ledger.constants.ts\<close> and its bootstrap.
  - \<open>Payment_Accounting\<close>: \<open>payment-accounting.service.ts\<close>, three interpretations of
    \<open>once_per_row\<close>, the invariant \<open>payments_ok\<close> and the refund round trip.
  - \<open>Wallet\<close>, \<open>Wallet_Invariants\<close>, \<open>Wallet_Laws\<close>, \<open>Wallet_Properties\<close>: \<open>wallet.service.ts\<close>, the
    invariant \<open>wallet_ok\<close> (shape of the tables and money), its preservation by every operation,
    and the properties: solvency, exact debits, holds, closing, provisioning.
  - \<open>Node_Buffer\<close>: bytes, UTF-8, hexadecimal and base64 as Node's \<open>Buffer\<close> does them.
  - \<open>Draw_Math\<close>: the Merkle root and the winner selection (\<open>apps/engine/src/draw-math.utils.ts\<close>).
    The selection loop has no bound; it is a partial function and its termination is a
    property. \<open>Draw_Engine\<close>: keys, seed commitment, lifecycle and execution of a draw
    (\<open>apps/engine/src\<close>), the published evidence (\<open>results.service.ts\<close>) and the independent
    verifier (\<open>packages/verify/verify.cjs\<close>). \<open>Draws_Service\<close>: create, update and cancel
    (\<open>draws.service.ts\<close>). \<open>Draw_Invariants\<close>, \<open>Draw_Laws\<close>, \<open>Draw_Properties\<close>: the step relation
    \<open>engine_step\<close>, the invariant \<open>draw_ok\<close> (every result carries evidence the verifier accepts),
    its preservation, and the properties.

  - \<open>Account\<close>, \<open>Account_Laws\<close>: \<open>account.service.ts\<close>: profile, spend limits, breaks, bank details and
    the guards of the two purchase doors; the civil calendar behind the limit periods, and what
    an account operation may do to a limit.
  - \<open>Jackpot\<close>, \<open>Jackpot_Offers\<close>, \<open>Jackpot_Laws\<close>: \<open>jackpot-accumulation.service.ts\<close> and
    \<open>jackpot-offers.service.ts\<close>: ten daily tickets earn a discount offer for the Saturday
    jackpot; reserving, releasing, declining, expiring and claiming it. The step relation
    \<open>jackpot_step\<close>, the invariant \<open>jackpot_ok\<close>, and what was earned and what is final.
  - \<open>Wallet_Purchase\<close>, \<open>Wallet_Purchase_Laws\<close>, \<open>Wallet_Purchase_Properties\<close>:
    \<open>wallet-ticket-purchase.service.ts\<close>, the composition of the wallet, the account limits, the
    draw and the promotion in one transaction: its exact effect, its limits, its retries.

  - \<open>JS_Number\<close>: products and quotients of doubles, rounded to nearest even, as far as the commission
    and the withheld tax need them.
  - \<open>Agent_Accounting\<close>, \<open>Agent_Sales\<close>, \<open>Agent_Laws\<close>, \<open>Agent_Properties\<close>: the journals of the agents
    (\<open>agent-accounting.service.ts\<close>), the cash sale (\<open>agent-sales.service.ts\<close>) and the payment of a prize
    (\<open>agent-prizes.service.ts\<close>), with their exact effects.
  - \<open>Remittance_Sweep\<close>, \<open>Agent_Remittance\<close>, \<open>Agent_Day\<close>, \<open>Agent_Remittance_Laws\<close>,
    \<open>Remittance_Properties\<close>: the business day and the sweep (\<open>apps/worker/src/remittance-sweep.service.ts\<close>,
    \<open>wat-day.util.ts\<close>), confirmation, settlement, booking, recovery and deadline of remittances, the day
    record of an agent; the step relation \<open>remittance_step\<close> and its invariant \<open>remit_ok\<close>.

  - \<open>Payout_Account\<close>: the encrypted accounts of winners, the evidence that they own them and the one
    destination a payout may use (\<open>payout-accounts\<close>, \<open>kyc-identity-evidence.service.ts\<close>).
  - \<open>Claims\<close>, \<open>Claims_Laws\<close>, \<open>Claims_Properties\<close>: the life of a prize claim
    (\<open>apps/api/src/claims/claims.service.ts\<close>): the choice, the documents, the review that locks the
    beneficiary, collection and delivery; withheld tax and its certificate (\<open>wht-deduction.service.ts\<close>);
    the codes of the counter (\<open>redemption.service.ts\<close>); forfeiture (\<open>claims-sweep.service.ts\<close>). The step
    relation \<open>claim_step\<close> and what every operation keeps of a claim (\<open>claims_kept\<close>).
  - \<open>Prize_Payout\<close>, \<open>Payout_Engine\<close>, \<open>Payout_Laws\<close>, \<open>Payout_Runs\<close>, \<open>Payout_Properties\<close>: bank payouts
    (\<open>apps/api/src/claims/payout\<close>): finalization of an attempt, reservation, execution, retry, refresh,
    webhook synchronisation and recovery. The step relation \<open>payout_step\<close>, its invariant \<open>payout_ok\<close>, and
    the proof that every call is a run of it.

  Step relations. \<open>ledger_step\<close>, \<open>payment_step\<close> and \<open>wallet_step\<close> are the writes of the services;
  reachability is their reflexive transitive closure from the empty database. \<open>wallet_step\<close>
  asks two things of the callers, which the services of the repository do: the counter
  account of a credit, debit or capture is not an account of any wallet, and a journal of a
  hold is posted under a ledger key not in use.

  \<open>engine_step\<close> interleaves single engine operations at any time with the draws service, whose
  edit and cancel write on the strength of an earlier read: what they saw is an arbitrary
  database, so every race with the engine is a step. Other services may do anything that leaves draws, commitments and
  results alone and does not touch the tickets and entries of a draw that is executing or
  completed, which the refund service refuses and no other service does.

  \<open>jackpot_step\<close> interleaves purchases and operations on offers. \<open>reserve\<close>, \<open>release\<close>, \<open>decline\<close> and the
  guest's decline read and then write at the default isolation level; what commits in between
  is their argument \<open>race\<close>, of which the steps ask that it keeps the invariant and only moves
  offers forward (\<open>keeps\<close>), which every operation is proved to do. Ids generated from now on are
  new (\<open>fresh_offer_ids\<close>, \<open>uuid_ok\<close>, \<open>purchase_keys_unused\<close>).

  An operation of several transactions (\<open>sell\<close>, \<open>logPayment\<close>, the remittance operations) takes
  functions \<open>later\<close>: what the database has become when its transaction starts, so that its early
  reads may be stale. \<open>remittance_step\<close> has one step for each such transaction; of the early
  reads it keeps the sign of the amount due, which no operation changes. A sale that
  was checked before its draw closed may still issue tickets afterwards, so it is not among the
  services \<open>engine_step\<close> allows between two engine operations of that draw.

  \<open>payout_step\<close> has one step for a reservation, one for a booked success, one for a booked reversal, one
  for a guarded update of an attempt, and one for foreign work that leaves attempts and payout keys alone and
  only adds to the ledger. The payout operations take \<open>later k\<close>, what commits at the \<open>k\<close>-th gap between their
  statements (the recovery sweep one such schedule per attempt), of which \<open>payout_calls_are_runs\<close> asks only
  that it is itself a run. Ids drawn for new attempts are new and proper keys (\<open>fresh_attempt_id\<close>,
  \<open>uuid_ok\<close>). \<open>claim_step\<close> interleaves the operations on claims, each with stale reads, with any other
  work that keeps what a claim records of its handover. \<open>one_approved\<close>: a customer has at most one verified or locked
  account, which the identity services see to and which are not modelled.

  Cryptography. SHA-256, HMAC, AES-256-GCM and Ed25519 are fields of \<open>engine_env\<close>. Where a
  property needs a law of theirs it is a hypothesis: decryption inverts encryption
  (\<open>aes_gcm\<close>, \<open>gcm_ok\<close>), the public key accepts the engine's signatures, a digest has 32 bytes
  (\<open>sha_width\<close>), no collision among the strings that were hashed.

  Numbers. Amounts are JavaScript numbers that every entry point requires to be safe
  integers; they are \<open>int\<close>. Sums over the lines of one request could leave the range of
  exact doubles only in a request whose total does not fit the 32-bit column, which is refused.

  Not modelled: the paged read-only lists of the services, HTTP controllers, the audit
  checkpoints, notification jobs, the retry after a serialization failure, identity verification with its
  webhook and the step-up of a bank change, checkout, purchase confirmation, wallet funding and payment refunds,
  treasury reconciliation, the migration of old payments and the rollout checks, authentication, provider
  integrations, queues, the user interfaces. These call external systems in the middle of their logic or report
  on tables; the rows they leave for the modelled services are arbitrary rows of the tables.
\<close>

end
